(* ===== verification/Prelude.thy ===== *)
theory Prelude
  imports Main "HOL-Library.Char_ord" "HOL-Library.List_Lexorder"
begin

text \<open>
  Shared vocabulary of the development.  It holds the parts of the Go language and standard
  library the gateway relies on (byte strings, \<open>strings.TrimSpace\<close>, \<open>strings.Fields\<close>,
  UTF-8 decoding, error values with \<open>errors.Is\<close> and \<open>errors.As\<close>) and the SQL
  operators the repositories are written in (update, delete and select over a table held as
  a list of rows; \<open>COALESCE\<close>, \<open>GREATEST\<close>, \<open>LEAST\<close>), with the generic lemmas
  about them.  A Go string is a list of bytes, so \<^typ>\<open>string\<close> is used as it is.
\<close>

named_theorems table_simps \<open>unfolds the SQL table operators\<close>
named_theorems handler_defs \<open>definitions of request handlers and repository operations\<close>

type_synonym uuid = string
type_synonym bytes = string
type_synonym time = int  \<comment> \<open>microseconds since the Unix epoch, the resolution of timestamptz\<close>
type_synonym duration = int  \<comment> \<open>nanoseconds, as Go's time.Duration\<close>
type_synonym faults = "string \<Rightarrow> bool"  \<comment> \<open>which external calls fail, by call site\<close>

abbreviation no_faults :: faults where
  "no_faults \<equiv> \<lambda>_. False"

definition zero_time :: time where  \<comment> \<open>Go's zero time.Time: 0001-01-01T00:00:00Z\<close>
  "zero_time = - 62135596800000000"

definition sec :: "int \<Rightarrow> time" where
  "sec n = n * 1000000"

definition second_ns :: duration where
  "second_ns = 1000000000"

section \<open>Error values\<close>

text \<open>
  The errors that the code distinguishes.  \<open>Wrapped\<close> is \<open>fmt.Errorf\<close> with a
  \<open>%w\<close> verb; \<open>errors.Is\<close> and \<open>errors.As\<close> look through it and through the
  \<open>Unwrap\<close> methods of the worker's and Telegram's own error types.
\<close>

datatype go_err =
    Msg string
  | DbErr string
  | NoRows
  | InvalidBearer
  | MediaNotReady
  | ChatListLoading
  | CtxDone
  | TdErr int string
  | Wrapped string go_err
  | RetryErr duration go_err
  | PermErr go_err
  | FloodWait duration go_err

fun unwrap :: "go_err \<Rightarrow> go_err option" where
  "unwrap (Wrapped m e) = Some e"
| "unwrap (RetryErr d e) = Some e"
| "unwrap (PermErr e) = Some e"
| "unwrap (FloodWait d e) = Some e"
| "unwrap e = None"

fun err_chain :: "go_err \<Rightarrow> go_err list" where
  "err_chain (Wrapped m e) = Wrapped m e # err_chain e"
| "err_chain (RetryErr d e) = RetryErr d e # err_chain e"
| "err_chain (PermErr e) = PermErr e # err_chain e"
| "err_chain (FloodWait d e) = FloodWait d e # err_chain e"
| "err_chain e = [e]"

definition errors_is :: "go_err \<Rightarrow> go_err \<Rightarrow> bool" where
  "errors_is e target = (target \<in> set (err_chain e))"

lemma err_chain_head: "\<exists>es. err_chain e = e # es"
  by (cases e) auto

lemma errors_is_refl [simp]: "errors_is e e"
  using err_chain_head [of e] by (auto simp: errors_is_def)

lemma errors_is_Wrapped [simp]:
  "errors_is (Wrapped m e) t \<longleftrightarrow> t = Wrapped m e \<or> errors_is e t"
  by (auto simp: errors_is_def)

lemma errors_is_leaf [simp]:
  "errors_is (Msg m) NoRows \<longleftrightarrow> False"
  "errors_is (DbErr m) NoRows \<longleftrightarrow> False"
  "errors_is (Msg m) InvalidBearer \<longleftrightarrow> False"
  "errors_is (DbErr m) InvalidBearer \<longleftrightarrow> False"
  "errors_is NoRows InvalidBearer \<longleftrightarrow> False"
  by (simp_all add: errors_is_def)

section \<open>Byte strings\<close>

definition byte :: "char \<Rightarrow> nat" where
  "byte c = of_char c"

definition has_prefix :: "string \<Rightarrow> string \<Rightarrow> bool" where  \<comment> \<open>strings.HasPrefix(s, p)\<close>
  "has_prefix s p = (take (length p) s = p)"

definition has_suffix :: "string \<Rightarrow> string \<Rightarrow> bool" where  \<comment> \<open>strings.HasSuffix(s, p)\<close>
  "has_suffix s p = has_prefix (rev s) (rev p)"

lemma has_prefix_append [simp]: "has_prefix (p @ s) p"
  by (simp add: has_prefix_def)

lemma has_prefix_iff: "has_prefix s p \<longleftrightarrow> (\<exists>t. s = p @ t)"
  unfolding has_prefix_def by (metis append_eq_conv_conj append_take_drop_id)

text \<open>
  The UTF-8 encodings of the runes for which \<open>unicode.IsSpace\<close> holds.  They form a
  prefix code, so decoding the first (last) rune of a string and testing it is the same as
  looking for one of them at the front (back).
\<close>

definition go_spaces :: "string list" where
  "go_spaces =
     [[CHR 0x09], [CHR 0x0A], [CHR 0x0B], [CHR 0x0C], [CHR 0x0D], [CHR 0x20],
      [CHR 0xC2, CHR 0x85], [CHR 0xC2, CHR 0xA0], [CHR 0xE1, CHR 0x9A, CHR 0x80],
      [CHR 0xE2, CHR 0x80, CHR 0x80], [CHR 0xE2, CHR 0x80, CHR 0x81],
      [CHR 0xE2, CHR 0x80, CHR 0x82], [CHR 0xE2, CHR 0x80, CHR 0x83],
      [CHR 0xE2, CHR 0x80, CHR 0x84], [CHR 0xE2, CHR 0x80, CHR 0x85],
      [CHR 0xE2, CHR 0x80, CHR 0x86], [CHR 0xE2, CHR 0x80, CHR 0x87],
      [CHR 0xE2, CHR 0x80, CHR 0x88], [CHR 0xE2, CHR 0x80, CHR 0x89],
      [CHR 0xE2, CHR 0x80, CHR 0x8A], [CHR 0xE2, CHR 0x80, CHR 0xA8],
      [CHR 0xE2, CHR 0x80, CHR 0xA9], [CHR 0xE2, CHR 0x80, CHR 0xAF],
      [CHR 0xE2, CHR 0x81, CHR 0x9F], [CHR 0xE3, CHR 0x80, CHR 0x80]]"

lemma go_spaces_nonempty: "p \<in> set go_spaces \<Longrightarrow> p \<noteq> []"
  by (auto simp: go_spaces_def)

function trim_with :: "string list \<Rightarrow> string \<Rightarrow> string" where
  "trim_with ps s =
     (case find (\<lambda>p. p \<noteq> [] \<and> has_prefix s p) ps of
        None \<Rightarrow> s
      | Some p \<Rightarrow> trim_with ps (drop (length p) s))"
  by pat_completeness auto
termination
proof (relation "measure (\<lambda>(ps, s). length s)")
  fix ps s p
  assume "find (\<lambda>p. p \<noteq> [] \<and> has_prefix s p) ps = Some p"
  then have "p \<noteq> []" "has_prefix s p"
    by (auto simp: find_Some_iff)
  then show "((ps, drop (length p) s), (ps, s)) \<in> measure (\<lambda>(ps, s). length s)"
    by (auto simp: has_prefix_iff)
qed simp

declare trim_with.simps [simp del]

definition trim_space :: "string \<Rightarrow> string" where  \<comment> \<open>strings.TrimSpace\<close>
  "trim_space s = rev (trim_with (map rev go_spaces) (rev (trim_with go_spaces s)))"

abbreviation blank :: "string \<Rightarrow> bool" where
  "blank s \<equiv> trim_space s = []"

definition space_free :: "string list \<Rightarrow> string \<Rightarrow> bool" where
  "space_free ps s = (\<forall>p \<in> set ps. p \<noteq> [] \<longrightarrow> \<not> has_prefix s p)"

lemma trim_with_space_free: "space_free ps (trim_with ps s)"
proof (induction ps s rule: trim_with.induct)
  case (1 ps s)
  show ?case
  proof (cases "find (\<lambda>p. p \<noteq> [] \<and> has_prefix s p) ps")
    case None
    then have "trim_with ps s = s"
      by (simp add: trim_with.simps [of ps s])
    moreover from None have "space_free ps s"
      by (auto simp: space_free_def find_None_iff)
    ultimately show ?thesis by simp
  next
    case (Some p)
    with "1.IH" show ?thesis by (simp add: trim_with.simps [of ps s])
  qed
qed

lemma trim_with_id: "space_free ps s \<Longrightarrow> trim_with ps s = s"
proof -
  assume "space_free ps s"
  then have "find (\<lambda>p. p \<noteq> [] \<and> has_prefix s p) ps = None"
    by (auto simp: space_free_def find_None_iff)
  then show ?thesis by (simp add: trim_with.simps [of ps s])
qed

lemma trim_with_suffix: "\<exists>u. s = u @ trim_with ps s"
proof (induction ps s rule: trim_with.induct)
  case (1 ps s)
  show ?case
  proof (cases "find (\<lambda>p. p \<noteq> [] \<and> has_prefix s p) ps")
    case None
    then show ?thesis by (simp add: trim_with.simps [of ps s])
  next
    case (Some p)
    then have "has_prefix s p" by (auto simp: find_Some_iff)
    then have s: "s = p @ drop (length p) s"
      by (auto simp: has_prefix_iff)
    from "1.IH" [OF Some] obtain u
      where u: "drop (length p) s = u @ trim_with ps (drop (length p) s)" by blast
    have "trim_with ps s = trim_with ps (drop (length p) s)"
      using Some by (simp add: trim_with.simps [of ps s])
    with s u have "s = (p @ u) @ trim_with ps s" by simp
    then show ?thesis by blast
  qed
qed

lemma space_free_prefix: "space_free ps (a @ b) \<Longrightarrow> space_free ps a"
  by (auto simp: space_free_def has_prefix_iff)

text \<open>\<open>TrimSpace\<close> is idempotent: trimming on the right never exposes a space on the left.\<close>

lemma trim_space_idem [simp]: "trim_space (trim_space s) = trim_space s"
proof -
  let ?l = "trim_with go_spaces s"
  let ?r = "trim_with (map rev go_spaces) (rev ?l)"
  obtain u where u: "rev ?l = u @ ?r" using trim_with_suffix by blast
  have "?l = rev ?r @ rev u"
  proof -
    have "?l = rev (u @ ?r)" by (metis u rev_rev_ident)
    then show ?thesis by simp
  qed
  then have "space_free go_spaces (rev ?r)"
    by (metis space_free_prefix trim_with_space_free)
  then have "trim_with go_spaces (rev ?r) = rev ?r" by (rule trim_with_id)
  moreover have "trim_with (map rev go_spaces) ?r = ?r"
    by (rule trim_with_id) (rule trim_with_space_free)
  ultimately show ?thesis by (simp add: trim_space_def)
qed

lemma trim_space_Nil [simp]: "trim_space [] = []"
proof -
  have "space_free ps []" for ps
    by (auto simp: space_free_def has_prefix_iff)
  then show ?thesis by (simp add: trim_space_def trim_with_id)
qed

text \<open>\<open>strings.Fields\<close>: the maximal runs without white space.\<close>

fun first_space :: "string list \<Rightarrow> string \<Rightarrow> nat" where
  "first_space ps [] = 0"
| "first_space ps (c # cs) =
     (if \<exists>p \<in> set ps. has_prefix (c # cs) p then 0 else Suc (first_space ps cs))"

lemma first_space_le: "first_space ps s \<le> length s"
  by (induction ps s rule: first_space.induct) auto

fun fields_fuel :: "nat \<Rightarrow> string \<Rightarrow> string list" where
  "fields_fuel 0 s = []"
| "fields_fuel (Suc n) s =
     (let t = trim_with go_spaces s
      in if t = [] then []
         else take (first_space go_spaces t) t # fields_fuel n (drop (first_space go_spaces t) t))"

definition fields :: "string \<Rightarrow> string list" where  \<comment> \<open>every field has at least one byte\<close>
  "fields s = fields_fuel (Suc (length s)) s"

definition ascii_lower :: "char \<Rightarrow> char" where
  "ascii_lower c = (if 65 \<le> byte c \<and> byte c \<le> 90 then char_of (byte c + 32) else c)"

definition ascii_upper :: "char \<Rightarrow> char" where
  "ascii_upper c = (if 97 \<le> byte c \<and> byte c \<le> 122 then char_of (byte c - 32) else c)"

definition to_lower :: "string \<Rightarrow> string" where
  "to_lower s = map ascii_lower s"

definition to_upper :: "string \<Rightarrow> string" where
  "to_upper s = map ascii_upper s"

section \<open>UTF-8\<close>

text \<open>
  \<open>utf8_seq s\<close> is the length of the valid encoding at the front of \<open>s\<close>, or 0 when the
  first byte does not start one (\<open>utf8.DecodeRuneInString\<close> then yields
  \<open>RuneError\<close> and width 1).
\<close>

definition cont :: "char \<Rightarrow> bool" where
  "cont c = (128 \<le> byte c \<and> byte c \<le> 191)"

definition second_ok :: "nat \<Rightarrow> char \<Rightarrow> bool" where
  "second_ok b c =
     (cont c \<and> (b = 224 \<longrightarrow> 160 \<le> byte c) \<and> (b = 237 \<longrightarrow> byte c \<le> 159)
      \<and> (b = 240 \<longrightarrow> 144 \<le> byte c) \<and> (b = 244 \<longrightarrow> byte c \<le> 143))"

definition utf8_seq :: "string \<Rightarrow> nat" where
  "utf8_seq s =
     (case s of
        [] \<Rightarrow> 0
      | c # cs \<Rightarrow>
          (let b = byte c in
           if b < 128 then 1
           else if b < 194 \<or> 244 < b then 0
           else if b < 224 then (case cs of x # _ \<Rightarrow> if cont x then 2 else 0 | _ \<Rightarrow> 0)
           else if b < 240 then
             (case cs of x # y # _ \<Rightarrow> if second_ok b x \<and> cont y then 3 else 0 | _ \<Rightarrow> 0)
           else
             (case cs of
                x # y # z # _ \<Rightarrow> if second_ok b x \<and> cont y \<and> cont z then 4 else 0
              | _ \<Rightarrow> 0)))"

function rune_count :: "string \<Rightarrow> nat" where  \<comment> \<open>utf8.RuneCountInString\<close>
  "rune_count [] = 0"
| "rune_count (c # cs) = Suc (rune_count (drop (max 1 (utf8_seq (c # cs))) (c # cs)))"
  by pat_completeness auto
termination
  by (relation "measure length") (auto simp: max_def)

function valid_utf8 :: "string \<Rightarrow> bool" where  \<comment> \<open>utf8.ValidString\<close>
  "valid_utf8 [] = True"
| "valid_utf8 (c # cs) =
     (0 < utf8_seq (c # cs) \<and> valid_utf8 (drop (max 1 (utf8_seq (c # cs))) (c # cs)))"
  by pat_completeness auto
termination
  by (relation "measure length") (auto simp: max_def)

declare rune_count.simps(2) [simp del] valid_utf8.simps(2) [simp del]

lemma rune_count_le: "rune_count s \<le> length s"
proof (induction s rule: rune_count.induct)
  case 1
  show ?case by simp
next
  case (2 c cs)
  have "length (drop (max 1 (utf8_seq (c # cs))) (c # cs)) \<le> length cs"
    by (simp add: max_def) arith
  with 2 show ?case by (simp add: rune_count.simps(2))
qed

section \<open>SQL over lists of rows\<close>

definition update_where :: "('r \<Rightarrow> bool) \<Rightarrow> ('r \<Rightarrow> 'r) \<Rightarrow> 'r list \<Rightarrow> 'r list" where
  [table_simps]: "update_where p f rs = map (\<lambda>r. if p r then f r else r) rs"

definition delete_where :: "('r \<Rightarrow> bool) \<Rightarrow> 'r list \<Rightarrow> 'r list" where
  [table_simps]: "delete_where p rs = filter (\<lambda>r. \<not> p r) rs"

definition affected :: "('r \<Rightarrow> bool) \<Rightarrow> 'r list \<Rightarrow> nat" where
  [table_simps]: "affected p rs = length (filter p rs)"

definition exists_row :: "('r \<Rightarrow> bool) \<Rightarrow> 'r list \<Rightarrow> bool" where
  [table_simps]: "exists_row p rs = (\<exists>r \<in> set rs. p r)"

text \<open>\<open>INSERT ... ON CONFLICT (key) DO UPDATE\<close>: merge into the row with the same key, or append.\<close>

definition upsert :: "('r \<Rightarrow> 'k) \<Rightarrow> ('r \<Rightarrow> 'r \<Rightarrow> 'r) \<Rightarrow> 'r \<Rightarrow> 'r list \<Rightarrow> 'r list" where
  "upsert key merge new rs =
     (if exists_row (\<lambda>r. key r = key new) rs
      then update_where (\<lambda>r. key r = key new) (\<lambda>old. merge new old) rs
      else rs @ [new])"

definition coalesce :: "'a option \<Rightarrow> 'a option \<Rightarrow> 'a option" where
  "coalesce a b = (case a of Some x \<Rightarrow> Some x | None \<Rightarrow> b)"

definition sql_greatest :: "('a::linorder) option \<Rightarrow> 'a option \<Rightarrow> 'a option" where
  "sql_greatest a b =
     (case a of None \<Rightarrow> b | Some x \<Rightarrow> (case b of None \<Rightarrow> a | Some y \<Rightarrow> Some (max x y)))"

definition sql_least :: "('a::linorder) option \<Rightarrow> 'a option \<Rightarrow> 'a option" where
  "sql_least a b =
     (case a of None \<Rightarrow> b | Some x \<Rightarrow> (case b of None \<Rightarrow> a | Some y \<Rightarrow> Some (min x y)))"

definition nullif_empty :: "string \<Rightarrow> string option" where
  "nullif_empty s = (if s = [] then None else Some s)"

lemma coalesce_simps [simp]:
  "coalesce (Some x) b = Some x" "coalesce None b = b"
  by (simp_all add: coalesce_def)

lemma coalesce_eq_None [simp]: "coalesce a b = None \<longleftrightarrow> a = None \<and> b = None"
  by (cases a) auto

lemma in_update_where:
  "x \<in> set (update_where p f rs) \<longleftrightarrow>
   (\<exists>r \<in> set rs. (p r \<and> x = f r) \<or> (\<not> p r \<and> x = r))"
  by (auto simp: update_where_def image_iff)

lemma update_where_keeps: "r \<in> set rs \<Longrightarrow> \<not> p r \<Longrightarrow> r \<in> set (update_where p f rs)"
  by (auto simp: in_update_where)

lemma in_delete_where: "x \<in> set (delete_where p rs) \<longleftrightarrow> x \<in> set rs \<and> \<not> p x"
  by (auto simp: delete_where_def)

lemma length_update_where [simp]: "length (update_where p f rs) = length rs"
  by (simp add: update_where_def)

lemma update_where_none: "(\<And>r. r \<in> set rs \<Longrightarrow> \<not> p r) \<Longrightarrow> update_where p f rs = rs"
  by (auto simp: update_where_def map_idI)

lemma affected_0 [simp]: "affected p rs = 0 \<longleftrightarrow> \<not> exists_row p rs"
  by (auto simp: affected_def exists_row_def filter_empty_conv)

lemma affected_update_where:
  "(\<And>r. p r \<Longrightarrow> q (f r) \<longleftrightarrow> q r) \<Longrightarrow> affected q (update_where p f rs) = affected q rs"
  by (induction rs) (auto simp: affected_def update_where_def)

lemma map_key_update_where:
  "(\<And>r. p r \<Longrightarrow> key (f r) = key r) \<Longrightarrow> map key (update_where p f rs) = map key rs"
  by (induction rs) (auto simp: update_where_def)

lemma image_key_update_where:
  "(\<And>r. p r \<Longrightarrow> key (f r) = key r) \<Longrightarrow> key ` set (update_where p f rs) = key ` set rs"
  using map_key_update_where [of p key f rs] by (metis set_map)

lemma distinct_key_affected:
  "distinct (map key rs) \<Longrightarrow> affected (\<lambda>r. key r = k \<and> p r) rs \<le> 1"
proof (induction rs)
  case (Cons a rs)
  have "\<not> exists_row (\<lambda>r. key r = k \<and> p r) rs" if "key a = k"
    using Cons.prems that unfolding exists_row_def by (metis distinct.simps(2) image_eqI list.simps(9) list.set_map)
  then have "affected (\<lambda>r. key r = k \<and> p r) rs = 0" if "key a = k"
    using that by simp
  with Cons show ?case by (auto simp: affected_def)
qed (simp add: affected_def)

lemma distinct_key_delete_where:
  "distinct (map key rs) \<Longrightarrow> distinct (map key (delete_where p rs))"
  by (induction rs) (auto simp: delete_where_def)

lemma find_in_set: "find p rs = Some r \<Longrightarrow> r \<in> set rs \<and> p r"
  by (auto simp: find_Some_iff)

lemma find_exists: "x \<in> set rs \<Longrightarrow> p x \<Longrightarrow> \<exists>r. find p rs = Some r"
  by (cases "find p rs") (auto simp: find_None_iff)

lemma find_append: "find p (xs @ ys) = (case find p xs of None \<Rightarrow> find p ys | Some x \<Rightarrow> Some x)"
  by (induction xs) auto

lemma find_update_where:
  "(\<And>r. p r \<Longrightarrow> q (f r) \<longleftrightarrow> q r) \<Longrightarrow>
   find q (update_where p f rs) = map_option (\<lambda>r. if p r then f r else r) (find q rs)"
  by (induction rs) (auto simp: update_where_def)

lemma key_unique:
  assumes "distinct (map key rs)" and "r \<in> set rs" and "r' \<in> set rs" and "key r = key r'"
  shows "r = r'"
  using assms by (auto simp: distinct_map dest: inj_onD)

lemma list_all2_left: "list_all2 R xs ys \<Longrightarrow> x \<in> set xs \<Longrightarrow> \<exists>y \<in> set ys. R x y"
  by (induction rule: list_all2_induct) auto

lemma list_all2_right: "list_all2 R xs ys \<Longrightarrow> y \<in> set ys \<Longrightarrow> \<exists>x \<in> set xs. R x y"
  by (induction rule: list_all2_induct) auto

lemma list_all2_update_where:
  "(\<And>r. R r r) \<Longrightarrow> (\<And>r. p r \<Longrightarrow> R r (f r)) \<Longrightarrow> list_all2 R rs (update_where p f rs)"
  by (auto simp: update_where_def list_all2_conv_all_nth)

end
