(* ===== verification/Encoding.thy ===== *)
theory Encoding
  imports Prelude
begin

text \<open>
  Text encodings of the Go standard library the gateway uses: unpadded URL-safe base64
  (\<open>base64.RawURLEncoding\<close>), decimal integers (\<open>strconv\<close>) and lower-case hex, with
  their round trips.
\<close>

section \<open>Base64, URL alphabet, no padding\<close>

definition b64_char :: "nat \<Rightarrow> char" where
  "b64_char n =
     char_of (if n < 26 then 65 + n else if n < 52 then 71 + n else if n < 62 then n - 4
              else if n = 62 then 45 else 95)"

definition b64_val :: "char \<Rightarrow> nat option" where
  "b64_val c =
     (let n = byte c in
      if 65 \<le> n \<and> n \<le> 90 then Some (n - 65)
      else if 97 \<le> n \<and> n \<le> 122 then Some (n - 71)
      else if 48 \<le> n \<and> n \<le> 57 then Some (n + 4)
      else if n = 45 then Some 62
      else if n = 95 then Some 63
      else None)"

fun b64_encode :: "bytes \<Rightarrow> string" where
  "b64_encode [] = []"
| "b64_encode [a] = [b64_char (byte a div 4), b64_char (byte a mod 4 * 16)]"
| "b64_encode [a, b] =
     [b64_char (byte a div 4), b64_char (byte a mod 4 * 16 + byte b div 16),
      b64_char (byte b mod 16 * 4)]"
| "b64_encode (a # b # c # s) =
     [b64_char (byte a div 4), b64_char (byte a mod 4 * 16 + byte b div 16),
      b64_char (byte b mod 16 * 4 + byte c div 64), b64_char (byte c mod 64)] @ b64_encode s"

fun b64_values :: "nat list \<Rightarrow> bytes option" where
  "b64_values [] = Some []"
| "b64_values [w] = None"
| "b64_values [w, x] = Some [char_of (w * 4 + x div 16)]"
| "b64_values [w, x, y] =
     Some [char_of (w * 4 + x div 16), char_of (x mod 16 * 16 + y div 4)]"
| "b64_values (w # x # y # z # s) =
     (case b64_values s of
        None \<Rightarrow> None
      | Some t \<Rightarrow> Some ([char_of (w * 4 + x div 16), char_of (x mod 16 * 16 + y div 4),
                         char_of (y mod 4 * 64 + z)] @ t))"

text \<open>Go's decoder skips line breaks and ignores the unused low bits of the last digit.\<close>

definition b64_decode :: "string \<Rightarrow> bytes option" where
  "b64_decode s =
     (case those (map b64_val (filter (\<lambda>c. c \<noteq> CHR 0x0A \<and> c \<noteq> CHR 0x0D) s)) of
        None \<Rightarrow> None
      | Some vs \<Rightarrow> b64_values vs)"

lemma byte_less [simp]: "byte c < 256"
  by (simp add: byte_def)

lemma char_of_byte [simp]: "char_of (byte c) = c"
  by (simp add: byte_def)

lemma byte_char_of [simp]: "n < 256 \<Longrightarrow> byte (char_of n) = n"
  by (simp add: byte_def)

lemma byte_inj: "byte c = byte d \<longleftrightarrow> c = d"
  by (metis char_of_byte)

lemma b64_val_char: "n < 64 \<Longrightarrow> b64_val (b64_char n) = Some n"
  by (simp add: b64_val_def b64_char_def Let_def) arith

lemma byte_b64_char:
  "n < 64 \<Longrightarrow> byte (b64_char n) =
     (if n < 26 then 65 + n else if n < 52 then 71 + n else if n < 62 then n - 4
      else if n = 62 then 45 else 95)"
  by (auto simp: b64_char_def)

fun b64_digits :: "bytes \<Rightarrow> nat list" where
  "b64_digits [] = []"
| "b64_digits [a] = [byte a div 4, byte a mod 4 * 16]"
| "b64_digits [a, b] =
     [byte a div 4, byte a mod 4 * 16 + byte b div 16, byte b mod 16 * 4]"
| "b64_digits (a # b # c # s) =
     [byte a div 4, byte a mod 4 * 16 + byte b div 16, byte b mod 16 * 4 + byte c div 64,
      byte c mod 64] @ b64_digits s"

lemma b64_encode_digits: "b64_encode s = map b64_char (b64_digits s)"
  by (induction s rule: b64_digits.induct) simp_all

lemma b64_bounds:
  "byte a div 4 < 64" "byte a mod 4 * 16 + byte b div 16 < 64"
  "byte b mod 16 * 4 + byte c div 64 < 64" "byte a mod 4 * 16 < 64" "byte b mod 16 * 4 < 64"
  "byte c mod 64 < 64"
proof -
  have d: "byte b div 16 < 16" "byte c div 64 < 4"
    using byte_less [of b] byte_less [of c] by (simp_all only: less_mult_imp_div_less)
  show "byte a div 4 < 64"
    using byte_less [of a] by (simp only: less_mult_imp_div_less)
  show "byte a mod 4 * 16 + byte b div 16 < 64"
    using d(1) mod_less_divisor [of 4 "byte a"] by linarith
  show "byte b mod 16 * 4 + byte c div 64 < 64"
    using d(2) mod_less_divisor [of 16 "byte b"] by linarith
  show "byte a mod 4 * 16 < 64" "byte b mod 16 * 4 < 64"
    using mod_less_divisor [of 4 "byte a"] mod_less_divisor [of 16 "byte b"] by linarith+
qed simp

lemma b64_digits_less: "n \<in> set (b64_digits s) \<Longrightarrow> n < 64"
  by (induction s rule: b64_digits.induct) (auto simp: b64_bounds)

lemma b64_pack:
  "byte a div 4 * 4 + (byte a mod 4 * 16 + byte b div 16) div 16 = byte a"
  "(byte a mod 4 * 16 + byte b div 16) mod 16 * 16 + (byte b mod 16 * 4 + byte c div 64) div 4
     = byte b"
  "(byte b mod 16 * 4 + byte c div 64) mod 4 * 64 + byte c mod 64 = byte c"
  "byte a div 4 * 4 + byte a mod 4 * 16 div 16 = byte a"
  "(byte a mod 4 * 16 + byte b div 16) mod 16 * 16 + byte b mod 16 * 4 div 4 = byte b"
proof -
  have d: "byte b div 16 < 16" "byte c div 64 < 4"
    using byte_less [of b] byte_less [of c] by (simp_all only: less_mult_imp_div_less)
  have e: "(x * 16 + byte b div 16) div 16 = x" "(x * 16 + byte b div 16) mod 16 = byte b div 16"
    "(x * 4 + byte c div 64) div 4 = x" "(x * 4 + byte c div 64) mod 4 = byte c div 64" for x
    using d by simp_all
  have f: "x * 16 div 16 = x" "x * 4 div 4 = x" for x :: nat by simp_all
  show "byte a div 4 * 4 + (byte a mod 4 * 16 + byte b div 16) div 16 = byte a"
    "byte a div 4 * 4 + byte a mod 4 * 16 div 16 = byte a"
    "(byte a mod 4 * 16 + byte b div 16) mod 16 * 16 + (byte b mod 16 * 4 + byte c div 64) div 4
     = byte b"
    "(byte b mod 16 * 4 + byte c div 64) mod 4 * 64 + byte c mod 64 = byte c"
    "(byte a mod 4 * 16 + byte b div 16) mod 16 * 16 + byte b mod 16 * 4 div 4 = byte b"
    by (simp_all only: e f div_mult_mod_eq)
qed

lemma b64_values_digits: "b64_values (b64_digits s) = Some s"
  by (induction s rule: b64_digits.induct) (simp_all only: b64_digits.simps b64_values.simps
      append_Cons append_Nil option.case b64_pack char_of_byte)

lemma those_map_Some: "(\<And>x. x \<in> set xs \<Longrightarrow> f x = Some (g x)) \<Longrightarrow> those (map f xs) = Some (map g xs)"
  by (induction xs) auto

lemma b64_roundtrip: "b64_decode (b64_encode s) = Some s"
proof -
  have "c \<noteq> CHR 0x0A \<and> c \<noteq> CHR 0x0D" if c: "c \<in> set (b64_encode s)" for c
  proof -
    obtain n where n: "c = b64_char n" "n < 64"
      using c b64_digits_less [of _ s] by (fastforce simp: b64_encode_digits)
    have "byte c \<noteq> 10 \<and> byte c \<noteq> 13"
      using byte_b64_char [OF n(2)] unfolding n(1) by (auto split: if_splits)
    then show ?thesis by (auto simp: byte_def)
  qed
  then have "filter (\<lambda>c. c \<noteq> CHR 0x0A \<and> c \<noteq> CHR 0x0D) (b64_encode s) = b64_encode s"
    by (simp add: filter_id_conv)
  moreover have "those (map b64_val (b64_encode s)) = Some (b64_digits s)"
    using b64_digits_less
    by (simp add: b64_encode_digits b64_val_char those_map_Some [where g = "\<lambda>n. n"])
  ultimately show ?thesis
    by (simp add: b64_decode_def b64_values_digits)
qed

lemma b64_encode_length: "length (b64_encode s) = (length s * 4 + 2) div 3"
  by (induction s rule: b64_encode.induct) auto

section \<open>Decimal integers\<close>

definition digit_char :: "nat \<Rightarrow> char" where
  "digit_char n = char_of (48 + n)"

fun nat_dec :: "nat \<Rightarrow> string" where
  "nat_dec n = (if n < 10 then [digit_char n] else nat_dec (n div 10) @ [digit_char (n mod 10)])"

declare nat_dec.simps [simp del]

definition itoa :: "int \<Rightarrow> string" where  \<comment> \<open>strconv.FormatInt(i, 10)\<close>
  "itoa i = (if i < 0 then CHR ''-'' # nat_dec (nat (- i)) else nat_dec (nat i))"

definition is_digit :: "char \<Rightarrow> bool" where
  "is_digit c = (48 \<le> byte c \<and> byte c \<le> 57)"

definition dec_val :: "string \<Rightarrow> nat" where
  "dec_val s = foldl (\<lambda>n c. n * 10 + (byte c - 48)) 0 s"

text \<open>\<open>strconv.ParseInt(s, 10, bits)\<close>: an optional sign, digits, and the range of the type.\<close>

definition parse_int :: "nat \<Rightarrow> string \<Rightarrow> int option" where
  "parse_int bits s =
     (let (neg, ds) = (case s of
          [] \<Rightarrow> (False, [])
        | c # cs \<Rightarrow> if c = CHR ''-'' then (True, cs) else if c = CHR ''+'' then (False, cs)
                    else (False, s))
      in if ds = [] \<or> \<not> list_all is_digit ds then None
         else (let v = (if neg then - int (dec_val ds) else int (dec_val ds))
               in if - (2 ^ (bits - 1)) \<le> v \<and> v < 2 ^ (bits - 1) then Some v else None))"

lemma is_digit_char: "n < 10 \<Longrightarrow> is_digit (digit_char n)"
  by (simp add: is_digit_def digit_char_def)

lemma nat_dec_digits: "list_all is_digit (nat_dec n)"
  by (induction n rule: nat_dec.induct) (subst nat_dec.simps, auto simp: is_digit_char)

lemma nat_dec_nonempty: "nat_dec n \<noteq> []"
  by (subst nat_dec.simps) simp

lemma dec_val_nat_dec: "dec_val (nat_dec n) = n"
proof (induction n rule: nat_dec.induct)
  case (1 n)
  show ?case
  proof (cases "n < 10")
    case True
    then show ?thesis by (simp add: nat_dec.simps [of n] dec_val_def digit_char_def)
  next
    case False
    have "dec_val (nat_dec (n div 10) @ [digit_char (n mod 10)]) = n div 10 * 10 + n mod 10"
      using 1 [OF False] by (simp add: dec_val_def digit_char_def)
    then show ?thesis using False by (simp add: nat_dec.simps [of n])
  qed
qed

lemma nat_dec_head: "nat_dec n = c # cs \<Longrightarrow> c \<noteq> CHR ''-'' \<and> c \<noteq> CHR ''+''"
  using nat_dec_digits [of n] by (auto simp: is_digit_def byte_def)

lemma parse_int_itoa:
  assumes "- (2 ^ (bits - 1)) \<le> i" and "i < 2 ^ (bits - 1)"
  shows "parse_int bits (itoa i) = Some i"
proof (cases "i < 0")
  case True
  then show ?thesis
    using assms nat_dec_digits nat_dec_nonempty
    by (simp add: parse_int_def itoa_def dec_val_nat_dec)
next
  case False
  obtain c cs where c: "nat_dec (nat i) = c # cs"
    using nat_dec_nonempty by (cases "nat_dec (nat i)") auto
  have "list_all is_digit (c # cs)" "dec_val (c # cs) = nat i"
    using nat_dec_digits dec_val_nat_dec unfolding c [symmetric] by blast+
  then show ?thesis
    using False assms nat_dec_head [OF c] by (simp add: parse_int_def itoa_def c)
qed

lemma itoa_inj: "itoa i = itoa j \<longleftrightarrow> i = j"
proof
  assume eq: "itoa i = itoa j"
  have nd: "nat_dec a = nat_dec b \<longleftrightarrow> a = b" for a b
    by (metis dec_val_nat_dec)
  have ne: "CHR ''-'' # xs \<noteq> nat_dec n" for xs n
    using nat_dec_head [of n "CHR ''-''" xs] by metis
  show "i = j"
    using eq ne nd by (auto simp: itoa_def split: if_splits dest: sym)
qed simp

section \<open>Hex\<close>

definition hex_char :: "nat \<Rightarrow> char" where
  "hex_char n = char_of (if n < 10 then 48 + n else 87 + n)"

definition hex_byte :: "char \<Rightarrow> string" where
  "hex_byte c = [hex_char (byte c div 16), hex_char (byte c mod 16)]"

definition hex_encode :: "bytes \<Rightarrow> string" where
  "hex_encode s = concat (map hex_byte s)"

lemma hex_char_inj: "m < 16 \<Longrightarrow> n < 16 \<Longrightarrow> hex_char m = hex_char n \<longleftrightarrow> m = n"
proof
  assume *: "m < 16" "n < 16" "hex_char m = hex_char n"
  have "byte (hex_char m) = byte (hex_char n)" using *(3) by simp
  then show "m = n" using *(1,2) by (auto simp: hex_char_def split: if_splits)
qed simp

lemma hex_byte_inj: "hex_byte c = hex_byte d \<longleftrightarrow> c = d"
proof
  assume "hex_byte c = hex_byte d"
  moreover have "byte c < 256" "byte d < 256" by simp_all
  ultimately have "byte c div 16 = byte d div 16" "byte c mod 16 = byte d mod 16"
    by (auto simp: hex_byte_def hex_char_inj)
  then have "byte c = byte d" by (metis div_mult_mod_eq)
  then show "c = d" by (simp add: byte_inj)
qed simp

lemma hex_encode_inj: "hex_encode s = hex_encode t \<longleftrightarrow> s = t"
proof
  show "s = t" if "hex_encode s = hex_encode t"
    using that
  proof (induction s arbitrary: t)
    case Nil
    then show ?case by (cases t) (auto simp: hex_encode_def hex_byte_def)
  next
    case (Cons c s)
    then obtain d t' where t: "t = d # t'"
      by (cases t) (auto simp: hex_encode_def hex_byte_def)
    have "hex_byte c = hex_byte d \<and> hex_encode s = hex_encode t'"
      using Cons.prems unfolding t hex_encode_def by (simp add: hex_byte_def)
    then show ?case using Cons.IH t by (simp add: hex_byte_inj)
  qed
qed simp

end
