(* ===== verification/Json.thy ===== *)
theory Json
  imports Encoding
begin

text \<open>
  What the gateway uses of \<open>encoding/json\<close> and \<open>time\<close>: the text \<open>json.Marshal\<close> makes of
  a value (strings escaped, HTML-safe, object keys sorted) and the RFC 3339 text of an
  instant in UTC.  The string printer is shown to be injective by giving its inverse.
\<close>

section \<open>Values\<close>

datatype json =
    JNull
  | JBool bool
  | JNum string  \<comment> \<open>the text of a number\<close>
  | JStr string
  | JArr "json list"
  | JObj "(string \<times> json) list"

section \<open>Strings\<close>

definition u_escape :: "nat \<Rightarrow> string" where  \<comment> \<open>\u00xx\<close>
  "u_escape n = [CHR 0x5C, CHR ''u'', CHR ''0'', CHR ''0'', hex_char (n div 16), hex_char (n mod 16)]"

definition esc_ascii :: "char \<Rightarrow> string" where
  "esc_ascii c =
     (let n = byte c in
      if n = 34 \<or> n = 92 then [CHR 0x5C, c]
      else if n = 8 then [CHR 0x5C, CHR ''b'']
      else if n = 12 then [CHR 0x5C, CHR ''f'']
      else if n = 10 then [CHR 0x5C, CHR ''n'']
      else if n = 13 then [CHR 0x5C, CHR ''r'']
      else if n = 9 then [CHR 0x5C, CHR ''t'']
      else if n < 32 \<or> n = 60 \<or> n = 62 \<or> n = 38 then u_escape n
      else [c])"

definition line_sep :: "string \<Rightarrow> string option" where  \<comment> \<open>U+2028 and U+2029\<close>
  "line_sep s =
     (if take 3 s = [CHR 0xE2, CHR 0x80, CHR 0xA8] then Some (CHR 0x5C # ''u2028'')
      else if take 3 s = [CHR 0xE2, CHR 0x80, CHR 0xA9] then Some (CHR 0x5C # ''u2029'')
      else None)"

function json_esc :: "string \<Rightarrow> string" where
  "json_esc [] = []"
| "json_esc (c # cs) =
     (if byte c < 128 then esc_ascii c @ json_esc cs
      else (let n = utf8_seq (c # cs) in
        if n = 0 then (CHR 0x5C # ''ufffd'') @ json_esc cs
        else (case line_sep (c # cs) of
                Some t \<Rightarrow> t @ json_esc (drop 3 (c # cs))
              | None \<Rightarrow> take n (c # cs) @ json_esc (drop n (c # cs)))))"
  by pat_completeness auto
termination
  by (relation "measure length") auto

declare json_esc.simps(2) [simp del]

definition json_string :: "string \<Rightarrow> string" where
  "json_string s = CHR 0x22 # json_esc s @ [CHR 0x22]"

section \<open>Values as text\<close>

text \<open>Maps are printed with their keys sorted; slices print as arrays.\<close>

definition intercalate :: "string \<Rightarrow> string list \<Rightarrow> string" where
  "intercalate sep ss = (case ss of [] \<Rightarrow> [] | x # xs \<Rightarrow> x @ concat (map (\<lambda>y. sep @ y) xs))"

fun json_marshal :: "json \<Rightarrow> string" where
  "json_marshal JNull = ''null''"
| "json_marshal (JBool b) = (if b then ''true'' else ''false'')"
| "json_marshal (JNum n) = n"
| "json_marshal (JStr s) = json_string s"
| "json_marshal (JArr vs) = ''['' @ intercalate '','' (map json_marshal vs) @ '']''"
| "json_marshal (JObj kvs) =
     ''{'' @ intercalate '','' (map (\<lambda>(k, t). json_string k @ '':'' @ t)
               (sort_key fst (map (\<lambda>(k, v). (k, json_marshal v)) kvs))) @ ''}''"

definition json_opt :: "string option \<Rightarrow> string" where
  "json_opt x = (case x of None \<Rightarrow> ''null'' | Some s \<Rightarrow> json_string s)"

section \<open>Instants\<close>

text \<open>The proleptic Gregorian date of a day number (0 is 1970-01-01).\<close>

definition civil :: "int \<Rightarrow> int \<times> int \<times> int" where
  "civil z =
     (let z = z + 719468; era = z div 146097; doe = z mod 146097;
          yoe = (doe - doe div 1460 + doe div 36524 - doe div 146096) div 365;
          doy = doe - (365 * yoe + yoe div 4 - yoe div 100);
          mp = (5 * doy + 2) div 153;
          d = doy - (153 * mp + 2) div 5 + 1;
          m = (if mp < 10 then mp + 3 else mp - 9)
      in (yoe + era * 400 + (if m \<le> 2 then 1 else 0), m, d))"

definition pad :: "nat \<Rightarrow> int \<Rightarrow> string" where
  "pad w n = (let ds = nat_dec (nat n) in replicate (w - length ds) CHR ''0'' @ ds)"

definition fraction :: "int \<Rightarrow> string" where  \<comment> \<open>of a second, in microseconds\<close>
  "fraction us =
     (if us = 0 then []
      else CHR ''.'' # rev (dropWhile (\<lambda>c. c = CHR ''0'') (rev (pad 6 us))))"

definition rfc3339_nano :: "time \<Rightarrow> string" where
  "rfc3339_nano t =
     (let s = t div 1000000; (y, m, d) = civil (s div 86400); sd = s mod 86400
      in pad 4 y @ ''-'' @ pad 2 m @ ''-'' @ pad 2 d @ ''T'' @ pad 2 (sd div 3600) @ '':''
         @ pad 2 (sd div 60 mod 60) @ '':'' @ pad 2 (sd mod 60) @ fraction (t mod 1000000) @ ''Z'')"

section \<open>Reading a string literal back\<close>

definition hex_val :: "char \<Rightarrow> nat" where
  "hex_val c = (if byte c < 58 then byte c - 48 else byte c - 87)"

definition un_u :: "char \<Rightarrow> char \<Rightarrow> char \<Rightarrow> char \<Rightarrow> string" where
  "un_u a b x y =
     (if a = CHR ''2'' then [CHR 0xE2, CHR 0x80, if y = CHR ''8'' then CHR 0xA8 else CHR 0xA9]
      else [char_of (hex_val x * 16 + hex_val y)])"

definition un_short :: "char \<Rightarrow> char" where
  "un_short x =
     (if x = CHR ''b'' then CHR 0x08 else if x = CHR ''f'' then CHR 0x0C
      else if x = CHR ''n'' then CHR 0x0A else if x = CHR ''r'' then CHR 0x0D
      else if x = CHR ''t'' then CHR 0x09 else x)"

function unesc :: "string \<Rightarrow> (string \<times> string) option" where
  "unesc [] = None"
| "unesc (c # s) =
     (if c = CHR 0x22 then Some ([], s)
      else if c = CHR 0x5C then
        (case s of
           [] \<Rightarrow> None
         | x # s1 \<Rightarrow>
             if x = CHR ''u'' then
               (case s1 of
                  a # b # y # z # s2 \<Rightarrow>
                    map_option (\<lambda>(t, r). (un_u a b y z @ t, r)) (unesc s2)
                | _ \<Rightarrow> None)
             else map_option (\<lambda>(t, r). (un_short x # t, r)) (unesc s1))
      else map_option (\<lambda>(t, r). (c # t, r)) (unesc s))"
  by pat_completeness auto
termination
  by (relation "measure length") auto

declare unesc.simps(2) [simp del]

lemma unesc_plain: "c \<noteq> CHR 0x22 \<Longrightarrow> c \<noteq> CHR 0x5C \<Longrightarrow>
    unesc (c # s) = map_option (\<lambda>(t, r). (c # t, r)) (unesc s)"
  by (simp add: unesc.simps(2))

lemma unesc_high:
  assumes "\<forall>c \<in> set p. 128 \<le> byte c"
  shows "unesc (p @ s) = map_option (\<lambda>(t, r). (p @ t, r)) (unesc s)"
  using assms
proof (induction p)
  case Nil
  show ?case by (cases "unesc s") auto
next
  case (Cons c p)
  have "c \<noteq> CHR 0x22" "c \<noteq> CHR 0x5C" using Cons.prems by (auto simp: byte_def)
  then show ?case using Cons by (cases "unesc s") (auto simp: unesc_plain)
qed

lemma hex_val_char: "n < 16 \<Longrightarrow> hex_val (hex_char n) = n"
  by (auto simp: hex_val_def hex_char_def)

lemma unesc_u_escape:
  assumes "n < 128"
  shows "unesc (u_escape n @ s) = map_option (\<lambda>(t, r). (char_of n # t, r)) (unesc s)"
proof -
  have "n div 16 < 16" "n mod 16 < 16" "n div 16 * 16 + n mod 16 = n" using assms by auto
  then show ?thesis
    by (simp add: u_escape_def unesc.simps(2) un_u_def hex_val_char byte_def)
qed

lemma unesc_ascii:
  assumes "byte c < 128"
  shows "unesc (esc_ascii c @ s) = map_option (\<lambda>(t, r). (c # t, r)) (unesc s)"
proof -
  have eqs: "byte c = 34 \<Longrightarrow> c = CHR 0x22" "byte c = 92 \<Longrightarrow> c = CHR 0x5C"
    "byte c = 8 \<Longrightarrow> c = CHR 0x08" "byte c = 12 \<Longrightarrow> c = CHR 0x0C" "byte c = 10 \<Longrightarrow> c = CHR 0x0A"
    "byte c = 13 \<Longrightarrow> c = CHR 0x0D" "byte c = 9 \<Longrightarrow> c = CHR 0x09"
    using byte_inj [of c "CHR 0x22"] byte_inj [of c "CHR 0x5C"] byte_inj [of c "CHR 0x08"]
      byte_inj [of c "CHR 0x0C"] byte_inj [of c "CHR 0x0A"] byte_inj [of c "CHR 0x0D"]
      byte_inj [of c "CHR 0x09"]
    by (simp_all add: byte_def)
  consider "byte c = 34" | "byte c = 92" | "byte c = 8" | "byte c = 12" | "byte c = 10"
    | "byte c = 13" | "byte c = 9"
    | "byte c < 32 \<or> byte c = 60 \<or> byte c = 62 \<or> byte c = 38"
      "byte c \<notin> {34, 92, 8, 12, 10, 13, 9}"
    | "\<not> (byte c < 32 \<or> byte c = 60 \<or> byte c = 62 \<or> byte c = 38)"
      "byte c \<notin> {34, 92, 8, 12, 10, 13, 9}"
    by blast
  then show ?thesis
  proof cases
    case 8
    then have "esc_ascii c = u_escape (byte c)" by (simp add: esc_ascii_def Let_def)
    then show ?thesis using unesc_u_escape [OF assms] by simp
  next
    case 9
    then have "esc_ascii c = [c]" "c \<noteq> CHR 0x22" "c \<noteq> CHR 0x5C"
      by (auto simp: esc_ascii_def Let_def byte_def)
    then show ?thesis by (simp add: unesc_plain)
  qed (drule eqs, simp add: esc_ascii_def byte_def unesc.simps(2) un_short_def)+
qed

lemma utf8_seq_high:
  assumes "128 \<le> byte c" and "0 < utf8_seq (c # cs)"
  shows "\<forall>x \<in> set (take (utf8_seq (c # cs)) (c # cs)). 128 \<le> byte x"
    and "utf8_seq (c # cs) \<le> length (c # cs)"
  using assms
  by (auto simp: utf8_seq_def Let_def second_ok_def cont_def split: if_splits list.splits)

lemma line_sep_seq:
  assumes "line_sep (c # cs) = Some t"
  shows "utf8_seq (c # cs) = 3"
proof -
  obtain x where "take 3 (c # cs) = [CHR 0xE2, CHR 0x80, x]" "x = CHR 0xA8 \<or> x = CHR 0xA9"
    using assms by (auto simp: line_sep_def split: if_splits)
  then obtain r where "c # cs = CHR 0xE2 # CHR 0x80 # x # r" "x = CHR 0xA8 \<or> x = CHR 0xA9"
    by (metis append_Cons append_Nil append_take_drop_id)
  then show ?thesis
    by (auto simp: utf8_seq_def second_ok_def cont_def byte_def Let_def)
qed

lemma unesc_line_sep:
  assumes "line_sep s = Some t"
  shows "unesc (t @ r) = map_option (\<lambda>(u, v). (take 3 s @ u, v)) (unesc r)"
  using assms
  by (cases "unesc r")
    (auto simp: line_sep_def unesc.simps(2) un_u_def split: if_splits)

text \<open>Every valid UTF-8 string is recovered from its literal, whatever follows it.\<close>

lemma unesc_json_esc:
  "valid_utf8 s \<Longrightarrow> unesc (json_esc s @ CHR 0x22 # r) = Some (s, r)"
proof (induction s rule: json_esc.induct)
  case 1
  then show ?case by (simp add: unesc.simps(2))
next
  case (2 c cs)
  let ?n = "utf8_seq (c # cs)"
  have n: "0 < ?n" and v: "valid_utf8 (drop (max 1 ?n) (c # cs))"
    using "2.prems" unfolding valid_utf8.simps(2) by blast+
  show ?case
  proof (cases "byte c < 128")
    case True
    then have "?n = 1" by (simp add: utf8_seq_def Let_def)
    then have "unesc (json_esc cs @ CHR 0x22 # r) = Some (cs, r)"
      using "2.IH"(1) [OF True] v by simp
    then show ?thesis using True by (simp add: json_esc.simps(2) unesc_ascii)
  next
    case False
    then have hi: "128 \<le> byte c" by simp
    have "max 1 ?n = ?n" using n by simp
    then have v': "valid_utf8 (drop ?n (c # cs))" using v by (simp only:)
    show ?thesis
    proof (cases "line_sep (c # cs)")
      case None
      have "unesc (json_esc (drop ?n (c # cs)) @ CHR 0x22 # r) = Some (drop ?n (c # cs), r)"
        using "2.IH"(3) [OF False refl _ None] n v' by blast
      then show ?thesis
        using False n None unesc_high [OF utf8_seq_high(1) [OF hi n]]
        by (simp add: json_esc.simps(2) Let_def del: take_Suc_Cons drop_Suc_Cons)
    next
      case (Some t)
      have "unesc (json_esc (drop 3 (c # cs)) @ CHR 0x22 # r) = Some (drop 3 (c # cs), r)"
        using "2.IH"(4) [OF False refl _ Some] n v' line_sep_seq [OF Some] by simp
      then show ?thesis
        using False n Some unesc_line_sep [OF Some]
        by (simp add: json_esc.simps(2) Let_def del: take_Suc_Cons drop_Suc_Cons)
    qed
  qed
qed

lemma json_string_prefix_free:
  assumes "valid_utf8 s" "valid_utf8 t" "json_string s @ a = json_string t @ b"
  shows "s = t \<and> a = b"
proof -
  have "json_esc s @ CHR 0x22 # a = json_esc t @ CHR 0x22 # b"
    using assms(3) by (simp add: json_string_def)
  then have "Some (s, a) = Some (t, b)"
    using unesc_json_esc [OF assms(1), of a] unesc_json_esc [OF assms(2), of b] by metis
  then show ?thesis by simp
qed

lemma json_opt_prefix_free:
  assumes "\<forall>x. s = Some x \<longrightarrow> valid_utf8 x" "\<forall>x. t = Some x \<longrightarrow> valid_utf8 x"
    and "json_opt s @ a = json_opt t @ b"
  shows "s = t \<and> a = b"
proof -
  show ?thesis
  proof (cases s)
    case None
    then show ?thesis
      using assms(3) by (cases t) (simp_all add: json_opt_def json_string_def)
  next
    case (Some x)
    then obtain y where t: "t = Some y"
      using assms(3) by (cases t) (simp_all add: json_opt_def json_string_def)
    have "json_string x @ a = json_string y @ b"
      using assms(3) Some t by (simp add: json_opt_def)
    then show ?thesis
      using json_string_prefix_free [of x y a b] assms(1,2) Some t by simp
  qed
qed

end
