(* ===== verification/Url.thy ===== *)
theory Url
  imports Encoding
begin

text \<open>
  What the gateway uses of Go's \<open>net/url\<close> and \<open>net/netip\<close>: \<open>url.Parse\<close>,
  \<open>URL.Hostname\<close>, \<open>URL.RequestURI\<close>, \<open>URL.String\<close>, the query as
  \<open>url.Values\<close>, and percent escaping.  \<open>netip.ParseAddr\<close>, which only decides whether a
  bracketed host is an IPv6 address, is the parameter \<open>ip\<close>.
\<close>

record addr =
  ad_string :: string  \<comment> \<open>Addr.String\<close>
  ad_local :: bool  \<comment> \<open>IsLoopback or IsPrivate\<close>
  ad_is4 :: bool  \<comment> \<open>Is4\<close>

record url =
  u_scheme :: string
  u_opaque :: string
  u_user :: "(string \<times> string option) option"
  u_host :: string
  u_path :: string
  u_raw_path :: string
  u_omit_host :: bool
  u_force_query :: bool
  u_raw_query :: string
  u_fragment :: string
  u_raw_fragment :: string

definition no_url :: url where
  "no_url = \<lparr>u_scheme = [], u_opaque = [], u_user = None, u_host = [], u_path = [],
     u_raw_path = [], u_omit_host = False, u_force_query = False, u_raw_query = [],
     u_fragment = [], u_raw_fragment = []\<rparr>"

section \<open>Cutting strings\<close>

definition cut :: "char \<Rightarrow> string \<Rightarrow> string \<times> string" where  \<comment> \<open>strings.Cut at one byte\<close>
  "cut c s = (takeWhile (\<lambda>x. x \<noteq> c) s, drop 1 (dropWhile (\<lambda>x. x \<noteq> c) s))"

text \<open>The text before and after the last \<open>c\<close>, if there is one.\<close>

definition rcut :: "char \<Rightarrow> string \<Rightarrow> (string \<times> string) option" where
  "rcut c s =
     (if c \<in> set s
      then (case cut c (rev s) of (b, a) \<Rightarrow> Some (rev a, rev b))
      else None)"

fun index_of :: "string \<Rightarrow> string \<Rightarrow> nat option" where  \<comment> \<open>strings.Index\<close>
  "index_of p [] = (if p = [] then Some 0 else None)"
| "index_of p (c # cs) = (if has_prefix (c # cs) p then Some 0 else map_option Suc (index_of p cs))"

section \<open>Percent escaping\<close>

datatype mode = EPath | EHost | EZone | EUser | EQuery | EFragment

definition is_alnum :: "char \<Rightarrow> bool" where
  "is_alnum c =
     (let b = byte c in 97 \<le> b \<and> b \<le> 122 \<or> 65 \<le> b \<and> b \<le> 90 \<or> 48 \<le> b \<and> b \<le> 57)"

definition should_escape :: "mode \<Rightarrow> char \<Rightarrow> bool" where
  "should_escape m c =
     (if is_alnum c then False
      else if (m = EHost \<or> m = EZone) \<and> c \<in> set (CHR 0x27 # CHR 0x22 # ''!$&()*+,;=:[]<>'') then False
      else if c \<in> set ''-_.~'' then False
      else if c \<in> set ''$&+,/:;=?@'' \<and> m = EPath then c = CHR ''?''
      else if c \<in> set ''$&+,/:;=?@'' \<and> m = EUser then c \<in> set ''@/?:''
      else if c \<in> set ''$&+,/:;=?@'' \<and> m = EFragment then False
      else if m = EFragment \<and> c \<in> set ''!()*'' then False
      else True)"

definition is_hex :: "char \<Rightarrow> bool" where
  "is_hex c = (let b = byte c in 48 \<le> b \<and> b \<le> 57 \<or> 97 \<le> b \<and> b \<le> 102 \<or> 65 \<le> b \<and> b \<le> 70)"

definition unhex :: "char \<Rightarrow> nat" where
  "unhex c = (let b = byte c in if b \<le> 57 then b - 48 else if 97 \<le> b then b - 87 else b - 55)"

definition upper_hex :: "nat \<Rightarrow> char" where
  "upper_hex n = (if n < 10 then char_of (48 + n) else char_of (55 + n))"

definition url_escape :: "mode \<Rightarrow> string \<Rightarrow> string" where
  "url_escape m s =
     concat (map (\<lambda>c. if c = CHR 0x20 \<and> m = EQuery then ''+''
                      else if should_escape m c
                      then [CHR ''%'', upper_hex (byte c div 16), upper_hex (byte c mod 16)]
                      else [c]) s)"

text \<open>The checks a \<open>%xx\<close> triple and a plain byte pass in each mode.\<close>

definition triple_ok :: "mode \<Rightarrow> char \<Rightarrow> char \<Rightarrow> bool" where
  "triple_ok m a b =
     (is_hex a \<and> is_hex b
      \<and> (m = EHost \<longrightarrow> 8 \<le> unhex a \<or> [a, b] = ''25'')
      \<and> (m = EZone \<longrightarrow> [a, b] = ''25'' \<or> unhex a * 16 + unhex b = 32
                       \<or> \<not> should_escape EHost (char_of (unhex a * 16 + unhex b))))"

fun unescape :: "mode \<Rightarrow> string \<Rightarrow> string option" where
  "unescape m [] = Some []"
| "unescape m (c # cs) =
     (if c = CHR ''%'' then
        (case cs of
           a # b # r \<Rightarrow>
             if triple_ok m a b
             then map_option (\<lambda>t. char_of (unhex a * 16 + unhex b) # t) (unescape m r) else None
         | _ \<Rightarrow> None)
      else if (m = EHost \<or> m = EZone) \<and> byte c < 128 \<and> should_escape m c then None
      else map_option (\<lambda>t. (if c = CHR ''+'' \<and> m = EQuery then CHR 0x20 else c) # t)
             (unescape m cs))"

section \<open>url.Parse\<close>

definition valid_optional_port :: "string \<Rightarrow> bool" where
  "valid_optional_port p =
     (p = [] \<or> (hd p = CHR '':'' \<and> list_all is_digit (tl p)))"

definition valid_userinfo :: "string \<Rightarrow> bool" where
  "valid_userinfo s =
     list_all (\<lambda>c. is_alnum c \<or> c \<in> set (CHR 0x27 # ''-._:~!$&()*+,;=%@'')) s"

text \<open>
  The scheme: the text before the first colon when it is letters, digits and \<open>+-.\<close>,
  starting with a letter; an error when the colon comes first.
\<close>

definition get_scheme :: "string \<Rightarrow> (string \<times> string) option" where
  "get_scheme s =
     (let n = takeWhile (\<lambda>c. is_alnum c \<or> c \<in> set ''+-.'') s; r = drop (length n) s in
      if n \<noteq> [] \<and> (is_digit (hd n) \<or> hd n \<in> set ''+-.'') then Some ([], s)
      else if r = [] \<or> hd r \<noteq> CHR '':'' then Some ([], s)
      else if n = [] then None
      else Some (n, tl r))"

definition parse_host :: "(string \<Rightarrow> addr option) \<Rightarrow> string \<Rightarrow> string option" where
  "parse_host ip host =
     (case rcut (CHR ''['') host of
        Some (pre, rest) \<Rightarrow>
          if pre \<noteq> [] then None
          else (case rcut (CHR '']'') rest of
              None \<Rightarrow> None
            | Some (name, port) \<Rightarrow>
                if \<not> valid_optional_port port then None
                else (let zone = (case index_of ''%25'' name of None \<Rightarrow> length name | Some i \<Rightarrow> i)
                      in (case (unescape EHost (take zone name), unescape EZone (drop zone name)) of
                            (Some h, Some z) \<Rightarrow>
                              (case ip (h @ z) of
                                 None \<Rightarrow> None
                               | Some a \<Rightarrow> if ad_is4 a then None
                                           else Some (''['' @ h @ z @ '']'' @ port))
                          | _ \<Rightarrow> None)))
      | None \<Rightarrow>
          if valid_optional_port (dropWhile (\<lambda>c. c \<noteq> CHR '':'') host) then unescape EHost host
          else None)"

definition parse_userinfo :: "string \<Rightarrow> (string \<times> string option) option" where
  "parse_userinfo s =
     (if \<not> valid_userinfo s then None
      else if CHR '':'' \<notin> set s then map_option (\<lambda>u. (u, None)) (unescape EUser s)
      else (case cut (CHR '':'') s of
              (u, p) \<Rightarrow> (case (unescape EUser u, unescape EUser p) of
                           (Some u', Some p') \<Rightarrow> Some (u', Some p')
                         | _ \<Rightarrow> None)))"

definition parse_authority ::
    "(string \<Rightarrow> addr option) \<Rightarrow> string \<Rightarrow> ((string \<times> string option) option \<times> string) option" where
  "parse_authority ip s =
     (case rcut (CHR ''@'') s of
        None \<Rightarrow> map_option (\<lambda>h. (None, h)) (parse_host ip s)
      | Some (ui, h) \<Rightarrow>
          (case (parse_host ip h, parse_userinfo ui) of
             (Some h', Some u) \<Rightarrow> Some (Some u, h')
           | _ \<Rightarrow> None))"

definition set_path :: "string \<Rightarrow> url \<Rightarrow> url option" where
  "set_path p u =
     map_option (\<lambda>path. u\<lparr>u_path := path, u_raw_path := (if p = url_escape EPath path then [] else p)\<rparr>)
       (unescape EPath p)"

definition set_fragment :: "string \<Rightarrow> url \<Rightarrow> url option" where
  "set_fragment f u =
     map_option (\<lambda>t. u\<lparr>u_fragment := t, u_raw_fragment := (if f = url_escape EFragment t then [] else f)\<rparr>)
       (unescape EFragment f)"

definition parse_rest :: "(string \<Rightarrow> addr option) \<Rightarrow> string \<Rightarrow> url \<Rightarrow> url option" where
  "parse_rest ip rest u =
     (if \<not> has_prefix rest ''/'' \<and> u_scheme u \<noteq> [] then Some (u\<lparr>u_opaque := rest\<rparr>)
      else if \<not> has_prefix rest ''/'' \<and> CHR '':'' \<in> set (fst (cut (CHR ''/'') rest)) then None
      else if (u_scheme u \<noteq> [] \<or> \<not> has_prefix rest ''///'') \<and> has_prefix rest ''//'' then
        (let a = takeWhile (\<lambda>c. c \<noteq> CHR ''/'') (drop 2 rest);
             path = dropWhile (\<lambda>c. c \<noteq> CHR ''/'') (drop 2 rest)
         in (case parse_authority ip a of
               None \<Rightarrow> None
             | Some (usr, h) \<Rightarrow> set_path path (u\<lparr>u_user := usr, u_host := h\<rparr>)))
      else set_path rest (u\<lparr>u_omit_host := (u_scheme u \<noteq> [] \<and> has_prefix rest ''/'')\<rparr>))"

definition is_ctl :: "char \<Rightarrow> bool" where
  "is_ctl c = (byte c < 32 \<or> byte c = 127)"

definition parse_url :: "(string \<Rightarrow> addr option) \<Rightarrow> string \<Rightarrow> url option" where
  "parse_url ip s =
     (if list_ex is_ctl s then None
      else if s = ''*'' then Some (no_url\<lparr>u_path := s\<rparr>)
      else (case get_scheme s of
          None \<Rightarrow> None
        | Some (scheme, rest) \<Rightarrow>
            (let u = no_url\<lparr>u_scheme := to_lower scheme\<rparr> in
             if rest \<noteq> [] \<and> last rest = CHR ''?'' \<and> CHR ''?'' \<notin> set (butlast rest)
             then parse_rest ip (butlast rest) (u\<lparr>u_force_query := True\<rparr>)
             else parse_rest ip (fst (cut (CHR ''?'') rest))
                    (u\<lparr>u_raw_query := snd (cut (CHR ''?'') rest)\<rparr>))))"

definition url_parse :: "(string \<Rightarrow> addr option) \<Rightarrow> string \<Rightarrow> url option" where
  "url_parse ip raw =
     (case cut (CHR ''#'') raw of
        (s, frag) \<Rightarrow>
          (case parse_url ip s of
             None \<Rightarrow> None
           | Some u \<Rightarrow> if frag = [] then Some u else set_fragment frag u))"

section \<open>Reading and printing a URL\<close>

definition hostname :: "url \<Rightarrow> string" where
  "hostname u =
     (let h = (case rcut (CHR '':'') (u_host u) of
                 None \<Rightarrow> u_host u
               | Some (a, p) \<Rightarrow> if list_all is_digit p then a else u_host u)
      in if has_prefix h ''['' \<and> has_suffix h '']'' then tl (butlast h) else h)"

definition valid_encoded :: "string \<Rightarrow> bool" where
  "valid_encoded s =
     list_all (\<lambda>c. c \<in> set (CHR 0x27 # ''!$&()*+,;=:@[]%'') \<or> \<not> should_escape EPath c) s"

definition escaped_path :: "url \<Rightarrow> string" where
  "escaped_path u =
     (if u_raw_path u \<noteq> [] \<and> valid_encoded (u_raw_path u)
         \<and> unescape EPath (u_raw_path u) = Some (u_path u) then u_raw_path u
      else if u_path u = ''*'' then ''*''
      else url_escape EPath (u_path u))"

definition escaped_fragment :: "url \<Rightarrow> string" where
  "escaped_fragment u =
     (if u_raw_fragment u \<noteq> []
         \<and> list_all (\<lambda>c. c \<in> set (CHR 0x27 # ''!$&()*+,;=:@[]%'') \<or> \<not> should_escape EFragment c)
             (u_raw_fragment u)
         \<and> unescape EFragment (u_raw_fragment u) = Some (u_fragment u) then u_raw_fragment u
      else url_escape EFragment (u_fragment u))"

definition query_text :: "url \<Rightarrow> string" where
  "query_text u = (if u_force_query u \<or> u_raw_query u \<noteq> [] then ''?'' @ u_raw_query u else [])"

definition request_uri :: "url \<Rightarrow> string" where
  "request_uri u =
     (if u_opaque u \<noteq> []
      then (if has_prefix (u_opaque u) ''//'' then u_scheme u @ '':'' @ u_opaque u else u_opaque u)
      else if escaped_path u = [] then ''/'' else escaped_path u) @ query_text u"

definition userinfo_text :: "string \<times> string option \<Rightarrow> string" where
  "userinfo_text ui =
     (case ui of
        (u, None) \<Rightarrow> url_escape EUser u
      | (u, Some p) \<Rightarrow> url_escape EUser u @ '':'' @ url_escape EUser p)"

definition url_string :: "url \<Rightarrow> string" where
  "url_string u =
     (let scheme = (if u_scheme u \<noteq> [] then u_scheme u @ '':'' else []);
          auth =
            (if (u_scheme u \<noteq> [] \<or> u_host u \<noteq> [] \<or> u_user u \<noteq> None)
                \<and> \<not> (u_omit_host u \<and> u_host u = [] \<and> u_user u = None)
             then (if u_host u \<noteq> [] \<or> u_path u \<noteq> [] \<or> u_user u \<noteq> None then ''//'' else [])
                  @ (case u_user u of None \<Rightarrow> [] | Some ui \<Rightarrow> userinfo_text ui @ ''@'')
                  @ url_escape EHost (u_host u)
             else []);
          path = escaped_path u;
          slash = (if path \<noteq> [] \<and> hd path \<noteq> CHR ''/'' \<and> u_host u \<noteq> [] then ''/'' else []);
          dot = (if scheme @ auth @ slash = [] \<and> CHR '':'' \<in> set (fst (cut (CHR ''/'') path))
                 then ''./'' else [])
      in scheme
         @ (if u_opaque u \<noteq> [] then u_opaque u else auth @ slash @ dot @ path)
         @ query_text u
         @ (if u_fragment u \<noteq> [] then ''#'' @ escaped_fragment u else []))"

section \<open>Query strings\<close>

text \<open>\<open>url.Values\<close>: the values of each key, in order; keys in order of first appearance.\<close>

type_synonym qvals = "(string \<times> string list) list"

definition q_add :: "string \<Rightarrow> string \<Rightarrow> qvals \<Rightarrow> qvals" where
  "q_add k v q =
     (if k \<in> fst ` set q then map (\<lambda>(k', vs). if k' = k then (k', vs @ [v]) else (k', vs)) q
      else q @ [(k, [v])])"

definition q_set :: "string \<Rightarrow> string \<Rightarrow> qvals \<Rightarrow> qvals" where
  "q_set k v q =
     (if k \<in> fst ` set q then map (\<lambda>(k', vs). if k' = k then (k', [v]) else (k', vs)) q
      else q @ [(k, [v])])"

definition q_get :: "string \<Rightarrow> qvals \<Rightarrow> string" where
  "q_get k q = (case map_of q k of Some (v # _) \<Rightarrow> v | _ \<Rightarrow> [])"

fun split_on :: "char \<Rightarrow> string \<Rightarrow> string list" where
  "split_on c [] = [[]]"
| "split_on c (x # xs) =
     (if x = c then [] # split_on c xs
      else (case split_on c xs of (w # ws) \<Rightarrow> (x # w) # ws | [] \<Rightarrow> [[x]]))"

definition add_pair :: "qvals \<Rightarrow> string \<Rightarrow> qvals" where
  "add_pair q kv =
     (if kv = [] \<or> CHR '';'' \<in> set kv then q
      else (case (unescape EQuery (fst (cut (CHR ''='') kv)), unescape EQuery (snd (cut (CHR ''='') kv))) of
              (Some k, Some v) \<Rightarrow> q_add k v q
            | _ \<Rightarrow> q))"

definition parse_query :: "string \<Rightarrow> qvals" where
  "parse_query s = foldl add_pair [] (split_on (CHR ''&'') s)"

definition encode_query :: "qvals \<Rightarrow> string" where
  "encode_query q =
     (case concat (map (\<lambda>(k, vs). map (\<lambda>v. url_escape EQuery k @ ''='' @ url_escape EQuery v) vs)
             (sort_key fst q)) of
        [] \<Rightarrow> []
      | x # xs \<Rightarrow> x @ concat (map (\<lambda>y. ''&'' @ y) xs))"

section \<open>Facts\<close>

lemma hex_round: "n < 16 \<Longrightarrow> is_hex (upper_hex n) \<and> unhex (upper_hex n) = n"
  by (auto simp: is_hex_def unhex_def upper_hex_def byte_def Let_def)

text \<open>Escaping a query component is undone by unescaping it.\<close>

lemma byte_lt: "byte c < 256"
  by (simp add: byte_def)

lemma byte_split: "char_of (byte c div 16 * 16 + byte c mod 16) = c"
  by (simp add: byte_def div_mult_mod_eq)

lemma escape_keeps: "\<not> should_escape EQuery c \<Longrightarrow> c \<noteq> CHR ''%'' \<and> c \<noteq> CHR ''+''"
  by (auto simp: should_escape_def is_alnum_def byte_def)

lemma unescape_escape: "unescape EQuery (url_escape EQuery s) = Some s"
proof (induction s)
  case (Cons c s)
  then have IH: "unescape EQuery (url_escape EQuery s) = Some s" .
  consider "c = CHR 0x20" | "c \<noteq> CHR 0x20" "should_escape EQuery c" | "c \<noteq> CHR 0x20" "\<not> should_escape EQuery c"
    by blast
  then show ?case
  proof cases
    case 2
    have d: "byte c div 16 < 16" "byte c mod 16 < 16" using byte_lt [of c] by (simp_all add: div_less_iff_less_mult)
    have "triple_ok EQuery (upper_hex (byte c div 16)) (upper_hex (byte c mod 16))"
      using hex_round [OF d(1)] hex_round [OF d(2)] by (simp add: triple_ok_def)
    then show ?thesis
      using 2 IH hex_round [OF d(1)] hex_round [OF d(2)] byte_split [of c]
      by (simp add: url_escape_def)
  next
    case 3
    then show ?thesis using escape_keeps [OF 3(2)] IH by (simp add: url_escape_def)
  qed (use IH in \<open>simp add: url_escape_def\<close>)
qed (simp add: url_escape_def)

lemma q_get_set: "q_get k (q_set k' v q) = (if k = k' then v else q_get k q)"
proof (induction q)
  case (Cons p q)
  obtain k1 vs where p: "p = (k1, vs)" by (cases p)
  show ?case
  proof (cases "k' \<in> fst ` set q")
    case True
    then show ?thesis using Cons p by (auto simp: q_set_def q_get_def)
  next
    case False
    have "map (\<lambda>(k2, vs). if k2 = k' then (k2, [v]) else (k2, vs)) q = q"
      using False by (intro map_idI) force
    then show ?thesis using Cons p False by (auto simp: q_set_def q_get_def)
  qed
qed (simp add: q_set_def q_get_def)

end
