(* ===== verification/Schema.thy ===== *)
theory Schema
  imports Json Url
begin

text \<open>
  The database of the gateway: one record per table of \<open>migrations/*.up.sql\<close> that the
  modelled code reads or writes, and the record of all tables.  A table is the list of its
  rows in insertion order.  Text columns with a CHECK on a fixed set of values are
  datatypes; nullable columns are options; BIGINT columns are integers.  The environment
  of a call (clocks, failing external calls, casts and digests) is the record \<open>env\<close>.
\<close>

section \<open>Environment of a call\<close>

text \<open>
  \<open>e_now\<close> is the database clock (\<open>NOW()\<close>), \<open>e_clock\<close> the process clock
  (\<open>time.Now()\<close>), \<open>e_fail\<close> tells which external calls fail (by a label of the call
  site; a failing statement covers connection errors, cancelled contexts and text the server
  rejects), \<open>e_uuid\<close> is PostgreSQL's text-to-uuid cast, \<open>e_parse\<close> the parser of
  \<open>github.com/google/uuid\<close>, \<open>e_inet\<close> is PostgreSQL's text-to-inet cast followed by
  \<open>host()\<close>, \<open>e_jsonb\<close> is what a JSON value reads as after it was stored in a jsonb
  column, \<open>e_sha\<close> is SHA-256, and \<open>e_addr\<close> is
  \<open>netip.ParseAddr\<close>.
\<close>

record env =
  e_now :: time
  e_clock :: time
  e_fail :: faults
  e_uuid :: "string \<Rightarrow> uuid option"
  e_parse :: "string \<Rightarrow> uuid option"
  e_inet :: "string \<Rightarrow> string option"
  e_jsonb :: "json \<Rightarrow> json"
  e_sha :: "bytes \<Rightarrow> bytes"
  e_addr :: "string \<Rightarrow> addr option"

type_synonym 'a result = "go_err + 'a"

text \<open>Text the server accepts for a TEXT parameter: valid UTF-8 without a zero byte.\<close>

definition pg_text :: "string \<Rightarrow> bool" where
  "pg_text s = (valid_utf8 s \<and> CHR 0x00 \<notin> set s)"

section \<open>Accounts and access control\<close>

datatype acc_status = Pending | Active | Disconnected | Blocked

record account =
  acc_id :: uuid
  acc_user :: uuid
  acc_tg :: "int option"
  acc_display :: "string option"
  acc_username :: "string option"
  acc_status :: acc_status
  acc_connected :: "time option"
  acc_disconnected :: "time option"
  acc_last_update :: "time option"
  acc_session_dir :: uuid
  acc_created :: time
  acc_updated :: time

datatype client_type = MCP | API
datatype client_status = ClientActive | ClientDisabled

record gw_client =
  gc_id :: uuid
  gc_user :: uuid
  gc_name :: string
  gc_type :: client_type
  gc_status :: client_status
  gc_created :: time

record token_row =
  at_id :: uuid
  at_client :: uuid
  at_account :: uuid
  at_user :: uuid
  at_prefix :: string
  at_hash :: bytes
  at_scopes :: "string list"
  at_expires :: "time option"
  at_revoked :: "time option"
  at_created :: time

section \<open>OAuth\<close>

record oauth_client =
  oc_id :: string
  oc_name :: string
  oc_redirects :: "string list"
  oc_secret :: "bytes option"
  oc_method :: string
  oc_created :: time
  oc_activated :: "time option"

record oauth_request =
  or_id :: string
  or_client :: string
  or_redirect :: string
  or_state :: string
  or_challenge :: string
  or_scopes :: "string list"
  or_csrf :: bytes
  or_expires :: time
  or_user :: "uuid option"
  or_account :: "uuid option"

record oauth_code =
  co_hash :: bytes
  co_client :: string
  co_gateway :: uuid
  co_account :: uuid
  co_redirect :: string
  co_challenge :: string
  co_scopes :: "string list"
  co_expires :: time

record refresh_row =
  rt_hash :: bytes
  rt_client :: string
  rt_gateway :: uuid
  rt_account :: uuid
  rt_scopes :: "string list"
  rt_expires :: time
  rt_revoked :: "time option"

record browser_session =
  bs_hash :: bytes
  bs_user :: uuid
  bs_account :: uuid
  bs_expires :: time

record identity =
  id_tg :: int
  id_account :: uuid

section \<open>Mirrored Telegram data\<close>

record chat =
  ch_id :: uuid
  ch_account :: uuid
  ch_tg :: int
  ch_type :: string
  ch_title :: "string option"
  ch_username :: "string option"
  ch_photo :: "string option"
  ch_meta :: string
  ch_last_id :: "int option"
  ch_last_at :: "time option"
  ch_deleted :: bool
  ch_deleted_at :: "time option"
  ch_updated :: time

record message =
  m_id :: uuid
  m_account :: uuid
  m_chat :: uuid
  m_tg :: int
  m_sender :: "int option"
  m_sender_chat :: "int option"
  m_type :: string
  m_content :: "string option"
  m_entities :: string
  m_reply :: "int option"
  m_forward :: "string option"
  m_meta :: string
  m_sent :: time
  m_edited :: "time option"
  m_deleted :: bool
  m_deleted_at :: "time option"
  m_updated :: time

record tombstone =
  ts_account :: uuid
  ts_chat :: int
  ts_msg :: int
  ts_at :: time

datatype media_status = MPending | MDownloading | MReady | MFailed | MSkipped

record media =
  md_id :: uuid
  md_message :: uuid
  md_type :: string
  md_file :: "int option"
  md_unique :: "string option"
  md_object :: "string option"
  md_mime :: "string option"
  md_name :: "string option"
  md_size :: "int option"
  md_sha :: "bytes option"
  md_status :: media_status
  md_attempts :: int
  md_last_attempt :: "time option"
  md_downloaded :: "time option"
  md_error :: "string option"
  md_created :: time
  md_updated :: time

record contact =
  ct_id :: uuid
  ct_account :: uuid
  ct_tg :: int
  ct_first :: "string option"
  ct_last :: "string option"
  ct_username :: "string option"
  ct_phone_hash :: "bytes option"
  ct_mutual :: bool
  ct_meta :: string
  ct_deleted :: bool
  ct_deleted_at :: "time option"
  ct_updated :: time

record member =
  mb_id :: uuid
  mb_account :: uuid
  mb_chat :: uuid
  mb_peer_type :: string
  mb_peer :: int
  mb_first :: "string option"
  mb_last :: "string option"
  mb_username :: "string option"
  mb_role :: "string option"
  mb_meta :: string
  mb_deleted :: bool
  mb_deleted_at :: "time option"
  mb_last_seen :: time
  mb_updated :: time

section \<open>Synchronisation, audit and sending\<close>

datatype sync_status = SPending | SRunning | SPaused | SCompleted | SFailed

record sync_state =
  ss_id :: uuid
  ss_account :: uuid
  ss_chat :: "uuid option"
  ss_type :: string
  ss_status :: sync_status
  ss_cursor :: json
  ss_oldest :: "int option"
  ss_newest :: "int option"
  ss_last_synced :: "time option"
  ss_next :: "time option"
  ss_retry :: int
  ss_error :: "string option"
  ss_owner :: "string option"
  ss_token :: "uuid option"
  ss_expires :: "time option"
  ss_generation :: int
  ss_updated :: time

datatype desired_state = DOnline | DOffline
datatype observed_state = OOffline | OStarting | OAuthorizing | OReady | OBackoff | OError

record runtime_row =
  sr_acc :: uuid
  sr_shard :: string
  sr_desired :: desired_state
  sr_observed :: observed_state
  sr_worker :: "string option"
  sr_token :: "uuid option"
  sr_expires :: "time option"
  sr_generation :: int
  sr_error :: "string option"
  sr_started :: "time option"
  sr_ready :: "time option"
  sr_updated :: time

record audit_row =
  al_id :: int
  al_chain :: string
  al_account :: "uuid option"
  al_actor_type :: string
  al_actor_id :: "string option"
  al_action :: string
  al_resource_type :: string
  al_resource_id :: "string option"
  al_ip :: "string option"
  al_agent :: "string option"
  al_request :: "uuid option"
  al_meta :: json
  al_prev :: bytes
  al_hash :: bytes
  al_created :: time

record permission =
  cp_account :: uuid
  cp_chat :: uuid
  cp_read :: bool
  cp_send :: bool
  cp_updated :: time

datatype send_status = SendPending | SendAccepted | SendUnknown

record send_row =
  sq_account :: uuid
  sq_client :: uuid
  sq_request :: uuid
  sq_chat :: uuid
  sq_body :: bytes
  sq_status :: send_status
  sq_message :: "int option"

record ticket =
  tk_hash :: bytes
  tk_token :: bytes
  tk_media :: uuid
  tk_expires :: time

section \<open>The database\<close>

record db =
  users :: "uuid list"
  accounts :: "account list"
  clients :: "gw_client list"
  tokens :: "token_row list"
  oauth_clients :: "oauth_client list"
  oauth_requests :: "oauth_request list"
  oauth_codes :: "oauth_code list"
  refresh_tokens :: "refresh_row list"
  sessions :: "browser_session list"
  identities :: "identity list"
  chats :: "chat list"
  messages :: "message list"
  tombstones :: "tombstone list"
  media_rows :: "media list"
  contacts :: "contact list"
  members :: "member list"
  sync_states :: "sync_state list"
  runtimes :: "runtime_row list"
  audit_logs :: "audit_row list"
  permissions :: "permission list"
  sends :: "send_row list"
  tickets :: "ticket list"
  settings :: "(string \<times> string) list"

definition empty_db :: db where
  "empty_db =
     \<lparr>users = [], accounts = [], clients = [], tokens = [], oauth_clients = [],
      oauth_requests = [], oauth_codes = [], refresh_tokens = [], sessions = [],
      identities = [], chats = [], messages = [], tombstones = [], media_rows = [],
      contacts = [], members = [], sync_states = [], runtimes = [], audit_logs = [], permissions = [],
      sends = [], tickets = [], settings = []\<rparr>"

text \<open>A concrete environment, on which theorems with hypotheses are exercised.\<close>

definition demo_env :: env where
  "demo_env = \<lparr>e_now = 5000000, e_clock = 5000000, e_fail = no_faults, e_uuid = Some,
               e_parse = Some, e_inet = Some, e_jsonb = (\<lambda>j. j), e_sha = (\<lambda>s. s),
               e_addr = (\<lambda>_. None)\<rparr>"

end
