(* ===== verification/Accounts.thy ===== *)
theory Accounts
  imports Schema
begin

text \<open>
  \<open>internal/accounts/repository.go\<close>: the life cycle of a connected Telegram account
  (pending, active, disconnected, blocked), with the constraints of
  \<open>telegram_accounts\<close> that its statements can violate.
\<close>

section \<open>Operations\<close>

definition scan_account :: "account result \<Rightarrow> account result" where
  "scan_account r =
     (case r of
        Inl e \<Rightarrow> if errors_is e NoRows then Inl NoRows
                 else Inl (Wrapped ''scan Telegram account'' e)
      | Inr a \<Rightarrow> Inr a)"

text \<open>\<open>CreatePending\<close>; the two generated uuids are the arguments \<open>i\<close> and \<open>dir\<close>.\<close>

definition CreatePending :: "env \<Rightarrow> uuid \<Rightarrow> uuid \<Rightarrow> string \<Rightarrow> db \<Rightarrow> account result \<times> db" where
  [handler_defs]: "CreatePending e i dir user_id d =
     (let user_id = trim_space user_id in
      if user_id = [] then (Inl (Msg ''user id is required''), d)
      else if e_fail e ''CreatePending''
        then (scan_account (Inl (DbErr ''insert telegram_accounts'')), d)
      else (case e_uuid e user_id of
              None \<Rightarrow> (scan_account (Inl (DbErr ''invalid uuid'')), d)
            | Some u \<Rightarrow>
                if u \<notin> set (users d) then (scan_account (Inl (DbErr ''foreign key'')), d)
                else if i \<in> acc_id ` set (accounts d)
                  then (scan_account (Inl (DbErr ''duplicate key'')), d)
                else (let a = \<lparr>acc_id = i, acc_user = u, acc_tg = None, acc_display = None,
                               acc_username = None, acc_status = Pending,
                               acc_connected = None, acc_disconnected = None,
                               acc_last_update = None, acc_session_dir = dir,
                               acc_created = e_now e, acc_updated = e_now e\<rparr>
                      in (scan_account (Inr a), d\<lparr>accounts := accounts d @ [a]\<rparr>))))"

text \<open>
  The constraints an update of \<open>telegram_user_id\<close> can violate: the unique
  \<open>(user_id, telegram_user_id)\<close> and the reference from \<open>telegram_identities\<close>.
\<close>

definition tg_change_ok :: "db \<Rightarrow> account \<Rightarrow> int \<Rightarrow> bool" where
  "tg_change_ok d a tg =
     (\<not> exists_row (\<lambda>b. acc_id b \<noteq> acc_id a \<and> acc_user b = acc_user a \<and> acc_tg b = Some tg)
          (accounts d)
      \<and> \<not> exists_row (\<lambda>x. id_account x = acc_id a \<and> id_tg x \<noteq> tg) (identities d))"

definition activate_row :: "time \<Rightarrow> int \<Rightarrow> string \<Rightarrow> string \<Rightarrow> account \<Rightarrow> account" where
  "activate_row now tg display username a =
     a\<lparr>acc_tg := Some tg, acc_display := nullif_empty display,
       acc_username := nullif_empty username, acc_status := Active,
       acc_connected := coalesce (acc_connected a) (Some now), acc_disconnected := None,
       acc_last_update := Some now, acc_updated := now\<rparr>"

definition Activate ::
    "env \<Rightarrow> string \<Rightarrow> int \<Rightarrow> string \<Rightarrow> string \<Rightarrow> db \<Rightarrow> account result \<times> db" where
  [handler_defs]: "Activate e account_id tg display username d =
     (let account_id = trim_space account_id in
      if account_id = [] then (Inl (Msg ''account id is required''), d)
      else if tg \<le> 0 then (Inl (Msg ''telegram user id must be positive''), d)
      else (let display = trim_space display; username = trim_space username in
        if e_fail e ''Activate''
          then (scan_account (Inl (DbErr ''update telegram_accounts'')), d)
        else (case e_uuid e account_id of
            None \<Rightarrow> (scan_account (Inl (DbErr ''invalid uuid'')), d)
          | Some i \<Rightarrow>
             (case find (\<lambda>a. acc_id a = i \<and> acc_status a \<noteq> Blocked) (accounts d) of
                None \<Rightarrow> (scan_account (Inl NoRows), d)
              | Some a \<Rightarrow>
                  if tg_change_ok d a tg
                  then (scan_account (Inr (activate_row (e_now e) tg display username a)),
                        d\<lparr>accounts :=
                            update_where (\<lambda>a. acc_id a = i \<and> acc_status a \<noteq> Blocked)
                              (activate_row (e_now e) tg display username) (accounts d)\<rparr>)
                  else (scan_account (Inl (DbErr ''constraint violation'')), d)))))"

definition disconnect_row :: "time \<Rightarrow> account \<Rightarrow> account" where
  "disconnect_row now a =
     a\<lparr>acc_status := Disconnected,
       acc_disconnected := coalesce (acc_disconnected a) (Some now), acc_updated := now\<rparr>"

text \<open>The shared shape of the three \<open>Exec\<close> statements that update one account by id.\<close>

definition exec_update ::
    "env \<Rightarrow> string \<Rightarrow> string \<Rightarrow> string \<Rightarrow> (account \<Rightarrow> bool) \<Rightarrow> (account \<Rightarrow> account)
       \<Rightarrow> db \<Rightarrow> unit result \<times> db" where
  "exec_update e label what account_id p f d =
     (if e_fail e label then (Inl (Wrapped what (DbErr label)), d)
      else (case e_uuid e (trim_space account_id) of
          None \<Rightarrow> (Inl (Wrapped what (DbErr ''invalid uuid'')), d)
        | Some i \<Rightarrow>
            if affected (\<lambda>a. acc_id a = i \<and> p a) (accounts d) = 0 then (Inl NoRows, d)
            else (Inr (), d\<lparr>accounts :=
                    update_where (\<lambda>a. acc_id a = i \<and> p a) f (accounts d)\<rparr>)))"

definition MarkDisconnected :: "env \<Rightarrow> string \<Rightarrow> db \<Rightarrow> unit result \<times> db" where
  [handler_defs]: "MarkDisconnected e account_id d =
     exec_update e ''MarkDisconnected'' ''mark Telegram account disconnected'' account_id
       (\<lambda>a. acc_status a \<noteq> Blocked) (disconnect_row (e_now e)) d"

definition touch_row :: "time \<Rightarrow> time \<Rightarrow> account \<Rightarrow> account" where
  "touch_row now at a = a\<lparr>acc_last_update := Some at, acc_updated := now\<rparr>"

definition TouchUpdate :: "env \<Rightarrow> string \<Rightarrow> time \<Rightarrow> db \<Rightarrow> unit result \<times> db" where
  [handler_defs]: "TouchUpdate e account_id at d =
     (let at = (if at = zero_time then e_clock e else at) in
      exec_update e ''TouchUpdate'' ''touch Telegram account update time'' account_id
        (\<lambda>a. acc_status a = Active) (touch_row (e_now e) at) d)"

definition get_where ::
    "env \<Rightarrow> string \<Rightarrow> string \<Rightarrow> (account \<Rightarrow> bool) \<Rightarrow> db \<Rightarrow> account result" where
  "get_where e label account_id p d =
     scan_account
       (if e_fail e label then Inl (DbErr label)
        else (case e_uuid e (trim_space account_id) of
                None \<Rightarrow> Inl (DbErr ''invalid uuid'')
              | Some i \<Rightarrow>
                  (case find (\<lambda>a. acc_id a = i \<and> p a) (accounts d) of
                     None \<Rightarrow> Inl NoRows
                   | Some a \<Rightarrow> Inr a)))"

definition Get :: "env \<Rightarrow> string \<Rightarrow> db \<Rightarrow> account result" where
  [handler_defs]: "Get e account_id d = get_where e ''accounts.Get'' account_id (\<lambda>a. True) d"

definition GetActive :: "env \<Rightarrow> string \<Rightarrow> db \<Rightarrow> account result" where
  [handler_defs]: "GetActive e account_id d =
     get_where e ''GetActive'' account_id (\<lambda>a. acc_status a = Active) d"

section \<open>Invariant\<close>

text \<open>
  What the table promises: unique ids, at most one account of a user per Telegram user, and
  the status-dependent columns.
\<close>

definition account_ok :: "account \<Rightarrow> bool" where
  "account_ok a =
     ((acc_status a = Active \<longrightarrow> (\<exists>tg > 0. acc_tg a = Some tg) \<and> acc_connected a \<noteq> None
         \<and> acc_disconnected a = None)
      \<and> (acc_status a = Disconnected \<longrightarrow> acc_disconnected a \<noteq> None)
      \<and> (acc_status a = Pending \<longrightarrow> acc_connected a = None))"

definition accounts_inv :: "db \<Rightarrow> bool" where
  "accounts_inv d =
     (distinct (map acc_id (accounts d))
      \<and> (\<forall>a \<in> set (accounts d). \<forall>b \<in> set (accounts d). acc_user a = acc_user b
            \<and> acc_tg a = acc_tg b \<and> acc_tg a \<noteq> None \<longrightarrow> acc_id a = acc_id b)
      \<and> (\<forall>a \<in> set (accounts d). acc_user a \<in> set (users d))
      \<and> (\<forall>x \<in> set (identities d). \<exists>a \<in> set (accounts d).
            acc_id a = id_account x \<and> acc_tg a = Some (id_tg x))
      \<and> (\<forall>a \<in> set (accounts d). account_ok a))"

lemma row_sel [simp]:
  "acc_id (activate_row now tg s u a) = acc_id a"
  "acc_user (activate_row now tg s u a) = acc_user a"
  "acc_tg (activate_row now tg s u a) = Some tg"
  "acc_status (activate_row now tg s u a) = Active"
  "acc_id (disconnect_row now a) = acc_id a"
  "acc_user (disconnect_row now a) = acc_user a"
  "acc_tg (disconnect_row now a) = acc_tg a"
  "acc_status (disconnect_row now a) = Disconnected"
  "acc_id (touch_row now at a) = acc_id a"
  "acc_user (touch_row now at a) = acc_user a"
  "acc_tg (touch_row now at a) = acc_tg a"
  "acc_status (touch_row now at a) = acc_status a"
  by (simp_all add: activate_row_def disconnect_row_def touch_row_def)

lemma row_ok:
  "0 < tg \<Longrightarrow> account_ok (activate_row now tg s u a)"
  "account_ok (disconnect_row now a)"
  "account_ok a \<Longrightarrow> account_ok (touch_row now at a)"
  by (auto simp: account_ok_def activate_row_def disconnect_row_def touch_row_def)

text \<open>The invariant of an update is checked on the old rows, one conjunct at a time.\<close>

lemma accounts_invI:
  assumes "\<And>a. acc_id (g a) = acc_id a"
    and "distinct (map acc_id (accounts d))"
    and "\<And>a b. \<lbrakk>a \<in> set (accounts d); b \<in> set (accounts d); acc_user (g a) = acc_user (g b);
           acc_tg (g a) = acc_tg (g b); acc_tg (g a) \<noteq> None\<rbrakk> \<Longrightarrow> acc_id a = acc_id b"
    and "\<And>a. a \<in> set (accounts d) \<Longrightarrow> acc_user (g a) \<in> set (users d)"
    and "\<And>x. x \<in> set (identities d) \<Longrightarrow>
           \<exists>a \<in> set (accounts d). acc_id a = id_account x \<and> acc_tg (g a) = Some (id_tg x)"
    and "\<And>a. a \<in> set (accounts d) \<Longrightarrow> account_ok (g a)"
  shows "accounts_inv (d\<lparr>accounts := map g (accounts d)\<rparr>)"
proof -
  have "map acc_id (map g (accounts d)) = map acc_id (accounts d)"
    using assms(1) by simp
  then have "distinct (map acc_id (map g (accounts d)))"
    using assms(2) by (simp only:)
  moreover have "\<forall>a \<in> set (map g (accounts d)). \<forall>b \<in> set (map g (accounts d)).
      acc_user a = acc_user b \<and> acc_tg a = acc_tg b \<and> acc_tg a \<noteq> None \<longrightarrow> acc_id a = acc_id b"
    using assms(1,3) by (simp only: set_map ball_simps) metis
  moreover have "\<forall>x \<in> set (identities d). \<exists>a \<in> set (map g (accounts d)).
      acc_id a = id_account x \<and> acc_tg a = Some (id_tg x)"
    using assms(1,5) by (simp only: set_map bex_simps) metis
  ultimately show ?thesis
    using assms(4,6) by (simp add: accounts_inv_def)
qed

lemma accounts_invD:
  assumes "accounts_inv d"
  shows "distinct (map acc_id (accounts d))"
    and "\<lbrakk>a \<in> set (accounts d); b \<in> set (accounts d); acc_user a = acc_user b;
          acc_tg a = acc_tg b; acc_tg a \<noteq> None\<rbrakk> \<Longrightarrow> acc_id a = acc_id b"
    and "a \<in> set (accounts d) \<Longrightarrow> acc_user a \<in> set (users d)"
    and "x \<in> set (identities d) \<Longrightarrow>
          \<exists>a \<in> set (accounts d). acc_id a = id_account x \<and> acc_tg a = Some (id_tg x)"
    and "a \<in> set (accounts d) \<Longrightarrow> account_ok a"
  using assms unfolding accounts_inv_def by blast+

lemma accounts_inv_update:
  assumes inv: "accounts_inv d"
    and f: "\<And>a. p a \<Longrightarrow> acc_id (f a) = acc_id a \<and> acc_user (f a) = acc_user a
                        \<and> acc_tg (f a) = acc_tg a \<and> (account_ok a \<longrightarrow> account_ok (f a))"
  shows "accounts_inv (d\<lparr>accounts := update_where p f (accounts d)\<rparr>)"
proof -
  let ?g = "\<lambda>a. if p a then f a else a"
  have g: "acc_id (?g a) = acc_id a" "acc_user (?g a) = acc_user a" "acc_tg (?g a) = acc_tg a"
    "account_ok a \<Longrightarrow> account_ok (?g a)" for a
    using f by auto
  note inv = accounts_invD [OF inv]
  show ?thesis
    unfolding update_where_def
    by (rule accounts_invI) (simp_all only: g inv, metis inv(2))
qed

lemma exec_update_inv:
  assumes "accounts_inv d"
    and "\<And>a. p a \<Longrightarrow> acc_id (f a) = acc_id a \<and> acc_user (f a) = acc_user a
                    \<and> acc_tg (f a) = acc_tg a \<and> (account_ok a \<longrightarrow> account_ok (f a))"
  shows "accounts_inv (snd (exec_update e l w i p f d))"
proof -
  have "accounts_inv (d\<lparr>accounts := update_where (\<lambda>a. acc_id a = j \<and> p a) f (accounts d)\<rparr>)" for j
    by (rule accounts_inv_update) (use assms in simp_all)
  then show ?thesis
    using assms(1) by (simp add: exec_update_def split: option.splits)
qed

lemma activate_inv:
  assumes inv: "accounts_inv d" and tg: "0 < tg" and a: "a \<in> set (accounts d)"
    and ok: "tg_change_ok d a tg"
  shows "accounts_inv (d\<lparr>accounts := update_where (\<lambda>b. acc_id b = acc_id a \<and> acc_status b \<noteq> Blocked)
           (activate_row now tg s u) (accounts d)\<rparr>)"
proof -
  let ?g = "\<lambda>b. if acc_id b = acc_id a \<and> acc_status b \<noteq> Blocked
                 then activate_row now tg s u b else b"
  note inv' = accounts_invD [OF inv]
  have uniq: "b = a" if "b \<in> set (accounts d)" "acc_id b = acc_id a" for b
    using key_unique [OF inv'(1)] that a by blast
  have free: "acc_tg b \<noteq> Some tg"
    if "b \<in> set (accounts d)" "acc_id b \<noteq> acc_id a" "acc_user b = acc_user a" for b
    using ok that by (auto simp: tg_change_ok_def exists_row_def)
  have tg_g: "acc_tg (?g b) = (if acc_id b = acc_id a \<and> acc_status b \<noteq> Blocked
                               then Some tg else acc_tg b)" for b
    by simp
  have user_g: "acc_user (?g b) = acc_user b" for b by simp
  show ?thesis
    unfolding update_where_def
  proof (rule accounts_invI)
    fix b c
    assume bc: "b \<in> set (accounts d)" "c \<in> set (accounts d)" "acc_user (?g b) = acc_user (?g c)"
      "acc_tg (?g b) = acc_tg (?g c)" "acc_tg (?g b) \<noteq> None"
    then show "acc_id b = acc_id c"
      unfolding tg_g user_g using uniq free inv'(2) [OF bc(1,2)] by (metis (no_types, lifting))
  next
    fix x
    assume x: "x \<in> set (identities d)"
    then obtain b where b: "b \<in> set (accounts d)" "acc_id b = id_account x" "acc_tg b = Some (id_tg x)"
      using inv'(4) by blast
    moreover have "id_tg x = tg" if "acc_id b = acc_id a"
      using ok x b that by (auto simp: tg_change_ok_def exists_row_def)
    ultimately show "\<exists>b \<in> set (accounts d). acc_id b = id_account x \<and> acc_tg (?g b) = Some (id_tg x)"
      unfolding tg_g by (metis (no_types, lifting))
  qed (use inv'(1,3,5) row_ok(1) [OF tg] in auto)
qed


text \<open>Each statement either leaves the database alone or makes the one change it is for.\<close>

lemma Activate_effect:
  assumes "P d"
    and "\<And>a now s u. \<lbrakk>a \<in> set (accounts d); acc_status a \<noteq> Blocked; 0 < tg; tg_change_ok d a tg\<rbrakk>
      \<Longrightarrow> P (d\<lparr>accounts := update_where (\<lambda>b. acc_id b = acc_id a \<and> acc_status b \<noteq> Blocked)
                 (activate_row now tg s u) (accounts d)\<rparr>)"
  shows "P (snd (Activate e account_id tg display username d))"
  using assms(1)
  by (auto simp: Activate_def Let_def split: option.split dest!: find_in_set intro: assms(2))

lemma exec_update_effect:
  assumes "P d"
    and "\<And>i. P (d\<lparr>accounts := update_where (\<lambda>a. acc_id a = i \<and> p a) f (accounts d)\<rparr>)"
  shows "P (snd (exec_update e l w account_id p f d))"
  using assms by (simp add: exec_update_def split: option.split)

lemma CreatePending_effect:
  assumes "P d"
    and "\<And>a. \<lbrakk>acc_id a \<notin> acc_id ` set (accounts d); acc_user a \<in> set (users d); acc_tg a = None;
           account_ok a\<rbrakk> \<Longrightarrow> P (d\<lparr>accounts := accounts d @ [a]\<rparr>)"
  shows "P (snd (CreatePending e i dir user_id d))"
  using assms(1)
  by (simp add: CreatePending_def Let_def split: option.split) (simp add: assms(2) account_ok_def)

lemma CreatePending_inv:
  assumes "accounts_inv d" and "i \<notin> acc_id ` set (accounts d)" and "u \<in> set (users d)"
    and "acc_id a = i" "acc_user a = u" "acc_tg a = None" "account_ok a"
  shows "accounts_inv (d\<lparr>accounts := accounts d @ [a]\<rparr>)"
proof -
  note inv = accounts_invD [OF assms(1)]
  have "acc_id x = acc_id y"
    if "x \<in> set (accounts d @ [a])" "y \<in> set (accounts d @ [a])" "acc_user x = acc_user y"
      "acc_tg x = acc_tg y" "acc_tg x \<noteq> None" for x y
    using that inv(2) [of x y] assms(6) by auto
  moreover have "\<exists>b \<in> set (accounts d @ [a]). acc_id b = id_account x \<and> acc_tg b = Some (id_tg x)"
    if "x \<in> set (identities d)" for x
    using inv(4) [OF that] by auto
  moreover have sel: "accounts (d\<lparr>accounts := as\<rparr>) = as"
    "users (d\<lparr>accounts := as\<rparr>) = users d" "identities (d\<lparr>accounts := as\<rparr>) = identities d" for as
    by simp_all
  moreover have "distinct (map acc_id (accounts d @ [a]))"
    using inv(1) assms(2,4) by simp
  moreover have "acc_user b \<in> set (users d) \<and> account_ok b" if "b \<in> set (accounts d @ [a])" for b
    using that inv(3,5) assms(3,5,7) by auto
  ultimately show ?thesis
    unfolding accounts_inv_def sel by blast
qed

section \<open>The account life cycle\<close>

text \<open>The statements on the table as a step relation; reads do not step.\<close>

inductive account_step :: "db \<Rightarrow> db \<Rightarrow> bool" where
  create: "account_step d (snd (CreatePending e i dir user_id d))"
| activate: "account_step d (snd (Activate e account_id tg display username d))"
| disconnect: "account_step d (snd (MarkDisconnected e account_id d))"
| touch: "account_step d (snd (TouchUpdate e account_id at d))"

lemma account_step_inv:
  assumes "account_step d d'" and inv: "accounts_inv d"
  shows "accounts_inv d'"
  using assms(1)
proof cases
  case create
  show ?thesis
    unfolding create by (rule CreatePending_effect) (use inv CreatePending_inv in auto)
next
  case activate
  show ?thesis
    unfolding activate by (rule Activate_effect) (use inv activate_inv [OF inv] in auto)
qed (use inv in \<open>auto simp: MarkDisconnected_def TouchUpdate_def Let_def
                    intro!: exec_update_inv row_ok\<close>)

lemma blocked_kept:
  assumes "account_step d d'" and "a \<in> set (accounts d)" "acc_status a = Blocked"
  shows "a \<in> set (accounts d')"
  using assms(1)
proof cases
  case create
  show ?thesis
    unfolding create by (rule CreatePending_effect) (use assms(2) in simp_all)
next
  case activate
  show ?thesis
    unfolding activate
    by (rule Activate_effect) (use assms(2,3) in \<open>auto intro: update_where_keeps\<close>)
next
  case disconnect
  show ?thesis
    unfolding disconnect MarkDisconnected_def
    by (rule exec_update_effect) (simp_all add: assms(2,3) update_where_keeps)
next
  case touch
  show ?thesis
    unfolding touch TouchUpdate_def Let_def
    by (rule exec_update_effect) (simp_all add: assms(2,3) update_where_keeps)
qed

text \<open>Every sequence of account operations keeps the table's invariant (unique ids, one
  account of a user per Telegram user, an active account has a Telegram id and a connection
  time and no disconnection time), and no operation ever changes a blocked account.\<close>

theorem account_lifecycle:
  assumes "account_step\<^sup>*\<^sup>* d d'" and "accounts_inv d"
  shows "accounts_inv d' \<and>
    (\<forall>a \<in> set (accounts d). acc_status a = Blocked \<longrightarrow> a \<in> set (accounts d'))"
  using assms by (induction rule: rtranclp_induct) (auto intro: account_step_inv blocked_kept)

section \<open>A small database\<close>

text \<open>Concrete data on which the theorems with hypotheses are exercised.\<close>

definition demo_account :: account where
  "demo_account =
     \<lparr>acc_id = ''a1'', acc_user = ''u1'', acc_tg = Some 77, acc_display = None,
      acc_username = None, acc_status = Active, acc_connected = Some 1,
      acc_disconnected = None, acc_last_update = None, acc_session_dir = ''s1'',
      acc_created = 1, acc_updated = 1\<rparr>"

definition demo_blocked :: account where
  "demo_blocked = demo_account\<lparr>acc_id := ''a2'', acc_tg := Some 78, acc_status := Blocked\<rparr>"

definition demo_db :: db where
  "demo_db = empty_db\<lparr>users := [''u1''], accounts := [demo_account, demo_blocked],
     clients := [\<lparr>gc_id = ''c1'', gc_user = ''u1'', gc_name = ''Claude'', gc_type = MCP,
                  gc_status = ClientActive, gc_created = 1\<rparr>]\<rparr>"

lemmas demo_defs = demo_env_def demo_account_def demo_blocked_def demo_db_def empty_db_def

lemma demo_accounts_inv: "accounts_inv demo_db"
  by (auto simp: accounts_inv_def account_ok_def demo_defs)

theorem account_lifecycle_witness:
  "accounts_inv (snd (MarkDisconnected demo_env ''a1'' demo_db)) \<and>
   demo_blocked \<in> set (accounts (snd (MarkDisconnected demo_env ''a1'' demo_db)))"
proof -
  have "account_step\<^sup>*\<^sup>* demo_db (snd (MarkDisconnected demo_env ''a1'' demo_db))"
    by (blast intro: account_step.disconnect)
  from account_lifecycle [OF this demo_accounts_inv] show ?thesis
    by (simp add: demo_db_def demo_blocked_def)
qed

end
