(* ===== verification/Access.thy ===== *)
theory Access
  imports Accounts Encoding
begin

text \<open>
  \<open>internal/access\<close>: scopes, bearer tokens and the repository of gateway clients and
  access tokens.  A token row belongs to the user of both its client and its account
  (migrations 4, 6 and 16); authentication joins the three tables.
\<close>

section \<open>Scopes (scopes.go)\<close>

definition allowed_scopes :: "string list" where
  "allowed_scopes =
     [''messages:send'', ''profile:read'', ''chats:list'', ''chat:read'', ''messages:read'',
      ''messages:search'', ''contacts:read'', ''media:read'', ''members:read'']"

definition ValidateScopes :: "string list \<Rightarrow> unit result" where
  "ValidateScopes scopes =
     (if scopes = [] then Inl (Msg ''at least one scope is required'')
      else (case find (\<lambda>s. s \<notin> set allowed_scopes) scopes of
              Some s \<Rightarrow> Inl (Msg (''unsupported scope '' @ s))
            | None \<Rightarrow> Inr ()))"

definition NormalizeScopes :: "string list \<Rightarrow> string list result" where
  "NormalizeScopes scopes =
     (case ValidateScopes scopes of
        Inl err \<Rightarrow> Inl err
      | Inr _ \<Rightarrow> Inr (sort (remdups scopes)))"

fun HasScope :: "string list \<Rightarrow> string \<Rightarrow> bool" where
  "HasScope [] required = False"
| "HasScope (s # granted) required = (s = required \<or> HasScope granted required)"

lemma HasScope_iff [simp]: "HasScope granted s \<longleftrightarrow> s \<in> set granted"
  by (induction granted) auto

lemma ValidateScopes_ok [simp]:
  "ValidateScopes ss = Inr () \<longleftrightarrow> ss \<noteq> [] \<and> set ss \<subseteq> set allowed_scopes"
  by (auto simp: ValidateScopes_def find_None_iff split: option.splits dest: find_in_set)

lemma NormalizeScopes_ok:
  "NormalizeScopes ss = Inr ns \<longleftrightarrow>
     ss \<noteq> [] \<and> set ss \<subseteq> set allowed_scopes \<and> ns = sort (remdups ss)"
  using ValidateScopes_ok [of ss]
  by (cases "ValidateScopes ss") (auto simp: NormalizeScopes_def simp del: ValidateScopes_ok)

section \<open>Tokens (token.go)\<close>

record generated =
  g_plain :: string
  g_prefix :: string
  g_hash :: bytes

definition token_prefix :: string where
  "token_prefix = ''tgw_''"

definition TokenFromPlaintext :: "env \<Rightarrow> string \<Rightarrow> generated result" where
  "TokenFromPlaintext e plaintext =
     (let plaintext = trim_space plaintext in
      if plaintext = [] then Inl (Msg ''token cannot be empty'')
      else if \<not> has_prefix plaintext token_prefix then Inl (Msg ''invalid token prefix'')
      else (let n = (if length plaintext < 16 then length plaintext else 16)
            in Inr \<lparr>g_plain = plaintext, g_prefix = take n plaintext,
                     g_hash = e_sha e plaintext\<rparr>))"

text \<open>\<open>GenerateToken\<close>; \<open>rnd\<close> is what \<open>rand.Read\<close> wrote into the 32-byte buffer.\<close>

definition GenerateToken :: "env \<Rightarrow> bytes \<Rightarrow> generated result" where
  "GenerateToken e rnd =
     (if e_fail e ''rand.Read'' then Inl (Msg ''random source'')
      else TokenFromPlaintext e (token_prefix @ b64_encode rnd))"

section \<open>Clients and grants (repository.go)\<close>

text \<open>
  \<open>strings.ToUpper\<close> maps, besides the ASCII letters, exactly the dotless i
  (U+0131) and the long s (U+017F) to ASCII letters.
\<close>

fun go_upper :: "string \<Rightarrow> string" where
  "go_upper [] = []"
| "go_upper [c] = [ascii_upper c]"
| "go_upper (c # d # s) =
     (if c = CHR 0xC4 \<and> d = CHR 0xB1 then CHR ''I'' # go_upper s
      else if c = CHR 0xC5 \<and> d = CHR 0xBF then CHR ''S'' # go_upper s
      else ascii_upper c # go_upper (d # s))"

text \<open>The CHECK on \<open>gateway_clients.name\<close>; SQL's \<open>trim\<close> strips blanks (0x20) only.\<close>

definition sql_trim :: "string \<Rightarrow> string" where
  "sql_trim s = rev (dropWhile (\<lambda>c. c = CHR 0x20) (rev (dropWhile (\<lambda>c. c = CHR 0x20) s)))"

definition client_name_ok :: "string \<Rightarrow> bool" where
  "client_name_ok s = (1 \<le> rune_count (sql_trim s) \<and> rune_count (sql_trim s) \<le> 120)"

definition insert_client ::
    "env \<Rightarrow> uuid \<Rightarrow> uuid \<Rightarrow> string \<Rightarrow> client_type \<Rightarrow> db \<Rightarrow> uuid result \<times> db" where
  [handler_defs]: "insert_client e i user name ty d =
     (if \<not> client_name_ok name then (Inl (DbErr ''gateway_clients_name_check''), d)
      else if user \<notin> set (users d) then (Inl (DbErr ''foreign key''), d)
      else if i \<in> gc_id ` set (clients d) then (Inl (DbErr ''duplicate key''), d)
      else (Inr i, d\<lparr>clients := clients d @
              [\<lparr>gc_id = i, gc_user = user, gc_name = name, gc_type = ty,
                gc_status = ClientActive, gc_created = e_now e\<rparr>]\<rparr>))"

definition CreateClient ::
    "env \<Rightarrow> uuid \<Rightarrow> string \<Rightarrow> string \<Rightarrow> string \<Rightarrow> db \<Rightarrow> uuid result \<times> db" where
  [handler_defs]: "CreateClient e i user_id name ty d =
     (let name = trim_space name; ty = go_upper (trim_space ty) in
      if user_id = [] \<or> name = []
        then (Inl (Msg ''user id and client name are required''), d)
      else if ty \<noteq> ''MCP'' \<and> ty \<noteq> ''API''
        then (Inl (Msg ''client type must be MCP or API''), d)
      else if e_fail e ''CreateClient''
        then (Inl (Wrapped ''create gateway client'' (DbErr ''insert'')), d)
      else (case e_uuid e user_id of
              None \<Rightarrow> (Inl (Wrapped ''create gateway client'' (DbErr ''invalid uuid'')), d)
            | Some u \<Rightarrow>
                (case insert_client e i u name (if ty = ''MCP'' then MCP else API) d of
                   (Inl err, d') \<Rightarrow> (Inl (Wrapped ''create gateway client'' err), d')
                 | (Inr c, d') \<Rightarrow> (Inr c, d'))))"

text \<open>
  The rows of \<open>gateway_clients JOIN telegram_accounts\<close> that a token may be issued on.
  Ids are unique, so there is at most one.
\<close>

definition grant_user :: "uuid \<Rightarrow> uuid \<Rightarrow> db \<Rightarrow> uuid option" where
  "grant_user c a d =
     (case find (\<lambda>g. gc_id g = c \<and> gc_status g = ClientActive
                  \<and> exists_row (\<lambda>t. acc_id t = a \<and> acc_user t = gc_user g \<and> acc_status t = Active)
                      (accounts d)) (clients d) of
        None \<Rightarrow> None
      | Some g \<Rightarrow> Some (gc_user g))"

text \<open>
  The insert into \<open>access_tokens\<close>: \<open>IssueToken\<close> and the OAuth token endpoint share
  it.  The result is the number of rows inserted.
\<close>

definition insert_token ::
    "env \<Rightarrow> uuid \<Rightarrow> uuid \<Rightarrow> uuid \<Rightarrow> generated \<Rightarrow> string list \<Rightarrow> time option \<Rightarrow> db
       \<Rightarrow> nat result \<times> db" where
  [handler_defs]: "insert_token e i c a tok scopes expires d =
     (case grant_user c a d of
        None \<Rightarrow> (Inr 0, d)
      | Some u \<Rightarrow>
          if scopes = [] \<or> \<not> set scopes \<subseteq> set allowed_scopes
             \<or> rune_count (g_prefix tok) < 8 \<or> 24 < rune_count (g_prefix tok)
             \<or> g_hash tok \<in> at_hash ` set (tokens d) \<or> i \<in> at_id ` set (tokens d)
            then (Inl (DbErr ''constraint violation''), d)
          else (Inr 1, d\<lparr>tokens := tokens d @
                  [\<lparr>at_id = i, at_client = c, at_account = a, at_user = u,
                    at_prefix = g_prefix tok, at_hash = g_hash tok, at_scopes = scopes,
                    at_expires = expires, at_revoked = None, at_created = e_now e\<rparr>]\<rparr>))"

definition IssueToken ::
    "env \<Rightarrow> uuid \<Rightarrow> bytes \<Rightarrow> string \<Rightarrow> string \<Rightarrow> string list \<Rightarrow> time option \<Rightarrow> db
       \<Rightarrow> generated result \<times> db" where
  [handler_defs]: "IssueToken e i rnd client_id account_id scopes expires d =
     (case NormalizeScopes scopes of
        Inl err \<Rightarrow> (Inl err, d)
      | Inr normalized \<Rightarrow>
          if (case expires of None \<Rightarrow> False | Some t \<Rightarrow> \<not> e_clock e < t)
            then (Inl (Msg ''token expiry must be in the future''), d)
          else (case GenerateToken e rnd of
              Inl err \<Rightarrow> (Inl (Wrapped ''generate access token'' err), d)
            | Inr tok \<Rightarrow>
                if e_fail e ''IssueToken''
                  then (Inl (Wrapped ''issue access token'' (DbErr ''insert'')), d)
                else (case (e_uuid e client_id, e_uuid e account_id) of
                    (Some c, Some a) \<Rightarrow>
                      (case insert_token e i c a tok normalized expires d of
                         (Inl err, d') \<Rightarrow> (Inl (Wrapped ''issue access token'' err), d')
                       | (Inr n, d') \<Rightarrow>
                           if n \<noteq> 1
                             then (Inl (Msg ''client cannot access this Telegram account''), d')
                           else (Inr tok, d'))
                  | _ \<Rightarrow> (Inl (Wrapped ''issue access token'' (DbErr ''invalid uuid'')), d))))"

record principal =
  p_user :: uuid
  p_client :: uuid
  p_type :: client_type
  p_account :: uuid
  p_scopes :: "string list"

text \<open>The join of \<open>AuthenticateBearer\<close> for one token row.\<close>

definition token_client :: "db \<Rightarrow> token_row \<Rightarrow> gw_client option" where
  "token_client d t =
     find (\<lambda>g. gc_id g = at_client t \<and> gc_user g = at_user t \<and> gc_status g = ClientActive)
       (clients d)"

definition token_live :: "env \<Rightarrow> db \<Rightarrow> token_row \<Rightarrow> bool" where
  "token_live e d t =
     (at_revoked t = None
      \<and> (case at_expires t of None \<Rightarrow> True | Some x \<Rightarrow> e_now e < x)
      \<and> token_client d t \<noteq> None
      \<and> exists_row (\<lambda>a. acc_id a = at_account t \<and> acc_user a = at_user t \<and> acc_status a = Active)
          (accounts d))"

definition AuthenticateBearer :: "env \<Rightarrow> string \<Rightarrow> db \<Rightarrow> principal result" where
  [handler_defs]: "AuthenticateBearer e plaintext d =
     (let plaintext = trim_space plaintext in
      if plaintext = [] \<or> \<not> has_prefix plaintext token_prefix then Inl InvalidBearer
      else if e_fail e ''AuthenticateBearer''
        then Inl (Wrapped ''authenticate bearer token'' (DbErr ''query''))
      else (case find (\<lambda>t. at_hash t = e_sha e plaintext \<and> token_live e d t) (tokens d) of
              None \<Rightarrow> Inl InvalidBearer
            | Some t \<Rightarrow>
                (case token_client d t of
                   None \<Rightarrow> Inl InvalidBearer
                 | Some g \<Rightarrow>
                     (case ValidateScopes (at_scopes t) of
                        Inl err \<Rightarrow> Inl (Wrapped ''stored token has invalid scopes'' err)
                      | Inr _ \<Rightarrow> Inr \<lparr>p_user = gc_user g, p_client = at_client t,
                                      p_type = gc_type g, p_account = at_account t,
                                      p_scopes = at_scopes t\<rparr>))))"

definition revoke_row :: "time \<Rightarrow> token_row \<Rightarrow> token_row" where
  "revoke_row now t = t\<lparr>at_revoked := coalesce (at_revoked t) (Some now)\<rparr>"

definition RevokeToken :: "env \<Rightarrow> string \<Rightarrow> string \<Rightarrow> db \<Rightarrow> unit result \<times> db" where
  [handler_defs]: "RevokeToken e token_id client_id d =
     (if e_fail e ''RevokeToken''
        then (Inl (Wrapped ''revoke access token'' (DbErr ''update'')), d)
      else (case (e_uuid e token_id, e_uuid e client_id) of
          (Some t, Some c) \<Rightarrow>
            if affected (\<lambda>r. at_id r = t \<and> at_client r = c) (tokens d) = 0 then (Inl NoRows, d)
            else (Inr (), d\<lparr>tokens :=
                    update_where (\<lambda>r. at_id r = t \<and> at_client r = c) (revoke_row (e_now e))
                      (tokens d)\<rparr>)
        | _ \<Rightarrow> (Inl (Wrapped ''revoke access token'' (DbErr ''invalid uuid'')), d)))"

text \<open>
  \<open>LockGrant\<close> takes a transaction-scoped advisory lock: it only can fail.  The statements
  of \<open>RevokeGrant\<close> run in the caller's transaction, one after the other; on an error the
  caller rolls back, so the database of the error result is the partly updated one that is
  thrown away.
\<close>

definition LockGrant :: "env \<Rightarrow> uuid \<Rightarrow> uuid \<Rightarrow> unit result" where
  [handler_defs]: "LockGrant e account client =
     (if e_fail e ''LockGrant'' then Inl (DbErr ''pg_advisory_xact_lock'') else Inr ())"

definition account_user :: "uuid \<Rightarrow> db \<Rightarrow> uuid option" where
  "account_user a d = map_option acc_user (find (\<lambda>t. acc_id t = a) (accounts d))"

definition revoke_refresh_row :: "time \<Rightarrow> refresh_row \<Rightarrow> refresh_row" where
  "revoke_refresh_row now t = t\<lparr>rt_revoked := coalesce (rt_revoked t) (Some now)\<rparr>"

definition revoke_grant_stmts :: "env \<Rightarrow> uuid \<Rightarrow> uuid \<Rightarrow> (string \<times> (db \<Rightarrow> db)) list" where
  "revoke_grant_stmts e a c =
     [(''RevokeGrant.clients'', \<lambda>d. d\<lparr>clients :=
         update_where (\<lambda>g. gc_id g = c \<and> Some (gc_user g) = account_user a d)
           (gc_status_update (\<lambda>_. ClientDisabled)) (clients d)\<rparr>),
      (''RevokeGrant.tokens'', \<lambda>d. d\<lparr>tokens :=
         update_where (\<lambda>t. at_account t = a \<and> at_client t = c) (revoke_row (e_now e)) (tokens d)\<rparr>),
      (''RevokeGrant.refresh'', \<lambda>d. d\<lparr>refresh_tokens :=
         update_where (\<lambda>t. rt_account t = a \<and> rt_gateway t = c) (revoke_refresh_row (e_now e))
           (refresh_tokens d)\<rparr>),
      (''RevokeGrant.codes'', \<lambda>d. d\<lparr>oauth_codes :=
         delete_where (\<lambda>t. co_account t = a \<and> co_gateway t = c) (oauth_codes d)\<rparr>)]"

fun run_stmts :: "env \<Rightarrow> (string \<times> (db \<Rightarrow> db)) list \<Rightarrow> db \<Rightarrow> unit result \<times> db" where
  "run_stmts e [] d = (Inr (), d)"
| "run_stmts e ((l, f) # ss) d =
     (if e_fail e l then (Inl (DbErr l), d) else run_stmts e ss (f d))"

definition RevokeGrant :: "env \<Rightarrow> string \<Rightarrow> string \<Rightarrow> db \<Rightarrow> unit result \<times> db" where
  [handler_defs]: "RevokeGrant e account client d =
     (case (e_uuid e account, e_uuid e client) of
        (Some a, Some c) \<Rightarrow> run_stmts e (revoke_grant_stmts e a c) d
      | _ \<Rightarrow> (Inl (DbErr ''invalid uuid''), d))"

section \<open>Effects of the operations\<close>

lemma insert_client_effect:
  assumes "P d"
    and "\<And>g. \<lbrakk>gc_id g \<notin> gc_id ` set (clients d); gc_user g \<in> set (users d);
           client_name_ok (gc_name g)\<rbrakk> \<Longrightarrow> P (d\<lparr>clients := clients d @ [g]\<rparr>)"
  shows "P (snd (insert_client e i u name ty d))"
  using assms(1) by (auto simp: insert_client_def intro: assms(2))

lemma CreateClient_effect:
  assumes "P d"
    and "\<And>g. \<lbrakk>gc_id g \<notin> gc_id ` set (clients d); gc_user g \<in> set (users d);
           client_name_ok (gc_name g)\<rbrakk> \<Longrightarrow> P (d\<lparr>clients := clients d @ [g]\<rparr>)"
  shows "P (snd (CreateClient e i user_id name ty d))"
proof -
  have ins: "P (snd (insert_client e i u n cty d))" for u n cty
    by (rule insert_client_effect) (use assms in auto)
  have "P d'" if "insert_client e i u n cty d = (r, d')" for u n cty r d'
    using ins [of u n cty] that by simp
  then show ?thesis
    using assms(1) by (auto simp: CreateClient_def Let_def split: option.split prod.split sum.split)
qed

definition token_row_ok :: "db \<Rightarrow> token_row \<Rightarrow> bool" where
  "token_row_ok d t =
     ((\<exists>g \<in> set (clients d). gc_id g = at_client t \<and> gc_user g = at_user t)
      \<and> (\<exists>a \<in> set (accounts d). acc_id a = at_account t \<and> acc_user a = at_user t)
      \<and> at_scopes t \<noteq> [] \<and> set (at_scopes t) \<subseteq> set allowed_scopes)"

lemma grant_userD:
  assumes "grant_user c a d = Some u"
  shows "\<exists>g \<in> set (clients d). gc_id g = c \<and> gc_user g = u \<and> gc_status g = ClientActive"
    and "\<exists>t \<in> set (accounts d). acc_id t = a \<and> acc_user t = u \<and> acc_status t = Active"
  using assms
  by (auto simp: grant_user_def exists_row_def dest!: find_in_set split: option.splits)

lemma insert_token_effect:
  assumes "P d"
    and "\<And>t. \<lbrakk>at_hash t \<notin> at_hash ` set (tokens d); at_id t \<notin> at_id ` set (tokens d);
           token_row_ok d t; grant_user (at_client t) (at_account t) d = Some (at_user t);
           at_revoked t = None\<rbrakk> \<Longrightarrow> P (d\<lparr>tokens := tokens d @ [t]\<rparr>)"
  shows "P (snd (insert_token e i c a tok scopes x d))"
proof -
  have "token_row_ok d t"
    if "grant_user (at_client t) (at_account t) d = Some (at_user t)" "at_scopes t \<noteq> []"
      "set (at_scopes t) \<subseteq> set allowed_scopes" for t
    using grant_userD [OF that(1)] that(2,3) by (auto simp: token_row_ok_def)
  then show ?thesis
    using assms(1) by (auto simp: insert_token_def split: option.split intro!: assms(2))
qed

lemma IssueToken_effect:
  assumes "P d"
    and "\<And>t. \<lbrakk>at_hash t \<notin> at_hash ` set (tokens d); at_id t \<notin> at_id ` set (tokens d);
           token_row_ok d t; grant_user (at_client t) (at_account t) d = Some (at_user t);
           at_revoked t = None\<rbrakk> \<Longrightarrow> P (d\<lparr>tokens := tokens d @ [t]\<rparr>)"
  shows "P (snd (IssueToken e i rnd client_id account_id scopes x d))"
proof -
  have ins: "P (snd (insert_token e i c a tok ss x d))" for c a tok ss
    by (rule insert_token_effect) (use assms in auto)
  have "P d'" if "insert_token e i c a tok ss x d = (r, d')" for c a tok ss r d'
    using ins [of c a tok ss] that by simp
  then show ?thesis
    using assms(1)
    by (auto simp: IssueToken_def Let_def split: option.split prod.split sum.split)
qed

lemma run_stmts_effect:
  assumes "P d" and "\<And>l f d. \<lbrakk>(l, f) \<in> set ss; P d\<rbrakk> \<Longrightarrow> P (f d)"
  shows "P (snd (run_stmts e ss d))"
  using assms
proof (induction ss arbitrary: d)
  case (Cons s ss)
  obtain l f where s: "s = (l, f)" by (cases s)
  have "P (f d)" using Cons.prems s by auto
  then have "P (snd (run_stmts e ss (f d)))"
    by (rule Cons.IH) (use Cons.prems(2) in auto)
  then show ?case using Cons.prems(1) s by simp
qed simp

lemma run_stmts_ok: "run_stmts e ss d = (Inr (), d') \<Longrightarrow> d' = fold (\<lambda>(l, f). f) ss d"
  by (induction ss arbitrary: d) (auto split: if_splits)

section \<open>Invariant and evolution\<close>

definition access_inv :: "db \<Rightarrow> bool" where
  "access_inv d =
     (distinct (map gc_id (clients d)) \<and> distinct (map at_hash (tokens d))
      \<and> distinct (map at_id (tokens d)) \<and> (\<forall>t \<in> set (tokens d). token_row_ok d t))"

text \<open>
  How the access tables may change: accounts, clients and tokens are never removed and keep
  their owners; a disabled client stays disabled, a revoked token keeps its revocation time,
  a new client has a new id and a new token a new hash.
\<close>

definition same_account :: "account \<Rightarrow> account \<Rightarrow> bool" where
  "same_account a a' = (acc_id a' = acc_id a \<and> acc_user a' = acc_user a)"

definition client_evolves :: "gw_client \<Rightarrow> gw_client \<Rightarrow> bool" where
  "client_evolves g g' =
     (gc_id g' = gc_id g \<and> gc_user g' = gc_user g \<and> gc_type g' = gc_type g
      \<and> (gc_status g = ClientDisabled \<longrightarrow> gc_status g' = ClientDisabled))"

definition token_evolves :: "token_row \<Rightarrow> token_row \<Rightarrow> bool" where
  "token_evolves t t' =
     (at_id t' = at_id t \<and> at_client t' = at_client t \<and> at_account t' = at_account t
      \<and> at_user t' = at_user t \<and> at_hash t' = at_hash t \<and> at_scopes t' = at_scopes t
      \<and> at_expires t' = at_expires t
      \<and> (at_revoked t \<noteq> None \<longrightarrow> at_revoked t' = at_revoked t))"

text \<open>A table evolves when it is a row-wise evolution of the old table, followed by new rows.\<close>

definition table_evolves :: "('r \<Rightarrow> 'r \<Rightarrow> bool) \<Rightarrow> ('r \<Rightarrow> 'k) \<Rightarrow> 'r list \<Rightarrow> 'r list \<Rightarrow> bool" where
  "table_evolves R key rs rs' =
     (\<exists>us ns. rs' = us @ ns \<and> list_all2 R rs us \<and> key ` set ns \<inter> key ` set rs = {})"

definition access_evolves :: "db \<Rightarrow> db \<Rightarrow> bool" where
  "access_evolves d d' =
     (table_evolves same_account acc_id (accounts d) (accounts d')
      \<and> table_evolves client_evolves gc_id (clients d) (clients d')
      \<and> table_evolves token_evolves at_hash (tokens d) (tokens d'))"

lemma evolves_refl [simp]:
  "same_account a a" "client_evolves g g" "token_evolves t t"
  by (simp_all add: same_account_def client_evolves_def token_evolves_def)

lemma table_evolves_refl: "(\<And>r. R r r) \<Longrightarrow> table_evolves R key rs rs"
  unfolding table_evolves_def by (rule exI [of _ rs], rule exI [of _ "[]"]) (simp add: list_all2_same)

lemma table_evolves_append:
  "(\<And>r. R r r) \<Longrightarrow> key n \<notin> key ` set rs \<Longrightarrow> table_evolves R key rs (rs @ [n])"
  unfolding table_evolves_def by (rule exI [of _ rs], rule exI [of _ "[n]"]) (auto simp: list_all2_same)

lemma table_evolves_update:
  "(\<And>r. R r r) \<Longrightarrow> (\<And>r. p r \<Longrightarrow> R r (f r)) \<Longrightarrow> table_evolves R key rs (update_where p f rs)"
  unfolding table_evolves_def
  by (rule exI [of _ "update_where p f rs"], rule exI [of _ "[]"])
    (auto simp: update_where_def list_all2_conv_all_nth)

lemma disjoint_chain:
  "A = C \<Longrightarrow> B = N \<Longrightarrow> N \<inter> C = {} \<Longrightarrow> X \<inter> (A \<union> N) = {} \<Longrightarrow> (B \<union> X) \<inter> C = {}"
  by blast

lemma table_evolves_rows: "list_all2 R rs us \<Longrightarrow> table_evolves R key rs us"
  unfolding table_evolves_def by (intro exI [of _ us] exI [of _ "[]"]) simp

lemma table_evolves_trans:
  assumes "table_evolves R key rs rs'" and "table_evolves R key rs' rs''"
    and trans: "\<And>a b c. R a b \<Longrightarrow> R b c \<Longrightarrow> R a c" and key: "\<And>a b. R a b \<Longrightarrow> key b = key a"
  shows "table_evolves R key rs rs''"
proof -
  obtain us ns where 1: "rs' = us @ ns" "list_all2 R rs us" "key ` set ns \<inter> key ` set rs = {}"
    using assms(1) by (auto simp: table_evolves_def)
  obtain us' ns' where 2: "rs'' = us' @ ns'" "list_all2 R (us @ ns) us'"
      "key ` set ns' \<inter> key ` set (us @ ns) = {}"
    using assms(2) unfolding 1(1) by (auto simp: table_evolves_def)
  obtain va vb where v: "us' = va @ vb" "list_all2 R us va" "list_all2 R ns vb"
    using 2(2) by (auto simp: list_all2_append1)
  have keys: "map key bs = map key as" if "list_all2 R as bs" for as bs
    using that by (induction rule: list_all2_induct) (simp_all add: key)
  have "list_all2 R rs va"
    using 1(2) v(2) trans by (rule list_all2_trans [rotated 1])
  moreover have "key ` set (vb @ ns') \<inter> key ` set rs = {}"
  proof -
    have "key ` set us = key ` set rs" "key ` set vb = key ` set ns"
      using keys [OF 1(2)] keys [OF v(3)] by (metis set_map)+
    then show ?thesis
      using 1(3) 2(3) disjoint_chain [of "key ` set us" "key ` set rs"]
      by (simp only: set_append image_Un)
  qed
  ultimately show ?thesis
    unfolding table_evolves_def 2(1) v(1) by (intro exI [of _ va] exI [of _ "vb @ ns'"]) simp
qed

lemma evolves_trans:
  "same_account a b \<Longrightarrow> same_account b c \<Longrightarrow> same_account a c"
  "client_evolves g h \<Longrightarrow> client_evolves h k \<Longrightarrow> client_evolves g k"
  "token_evolves t u \<Longrightarrow> token_evolves u v \<Longrightarrow> token_evolves t v"
  by (auto simp: same_account_def client_evolves_def token_evolves_def)

lemma evolves_key:
  "same_account a b \<Longrightarrow> acc_id b = acc_id a" "client_evolves g h \<Longrightarrow> gc_id h = gc_id g"
  "token_evolves t u \<Longrightarrow> at_hash u = at_hash t"
  by (auto simp: same_account_def client_evolves_def token_evolves_def)

lemma access_evolves_refl [simp]: "access_evolves d d"
  by (simp add: access_evolves_def table_evolves_refl)

lemma access_evolves_trans: "access_evolves d e \<Longrightarrow> access_evolves e f \<Longrightarrow> access_evolves d f"
  unfolding access_evolves_def
  by (blast intro: table_evolves_trans evolves_trans evolves_key)

lemma table_evolves_mono:
  assumes "table_evolves R key rs rs'" and "r \<in> set rs"
  shows "\<exists>r' \<in> set rs'. R r r'"
proof -
  obtain us ns where 1: "rs' = us @ ns" "list_all2 R rs us"
    using assms(1) by (auto simp: table_evolves_def)
  then obtain r' where "r' \<in> set us" "R r r'"
    using list_all2_left [OF 1(2) assms(2)] by blast
  then show ?thesis using 1(1) by auto
qed

lemma table_evolves_origin:
  assumes "table_evolves R key rs rs'" and "r' \<in> set rs'"
  shows "(\<exists>r \<in> set rs. R r r') \<or> key r' \<notin> key ` set rs"
proof -
  obtain us ns where 1: "rs' = us @ ns" "list_all2 R rs us" "key ` set ns \<inter> key ` set rs = {}"
    using assms(1) by (auto simp: table_evolves_def)
  from assms(2) consider "r' \<in> set us" | "r' \<in> set ns" unfolding 1(1) by auto
  then show ?thesis
  proof cases
    case 1
    then show ?thesis
      using list_all2_right [OF \<open>list_all2 R rs us\<close>] by blast
  next
    case 2
    then show ?thesis using 1(3) by blast
  qed
qed

text \<open>
  The three ways the access tables change keep the invariant and evolve: a new client, a new
  token for a live grant, and an evolution that adds no rows.
\<close>

definition access_good :: "db \<Rightarrow> db \<Rightarrow> bool" where
  "access_good d d' = (access_evolves d d' \<and> (access_inv d \<longrightarrow> access_inv d'))"

lemma access_good_refl [simp]: "access_good d d"
  by (simp add: access_good_def)

lemma access_good_trans: "access_good d e \<Longrightarrow> access_good e f \<Longrightarrow> access_good d f"
  unfolding access_good_def using access_evolves_trans by blast

lemma token_row_ok_mono:
  assumes "access_evolves d d'" and "token_row_ok d t" and "token_evolves t t'"
  shows "token_row_ok d' t'"
proof -
  obtain g a where ga: "g \<in> set (clients d)" "gc_id g = at_client t" "gc_user g = at_user t"
    "a \<in> set (accounts d)" "acc_id a = at_account t" "acc_user a = at_user t"
    using assms(2) by (auto simp: token_row_ok_def)
  obtain g' where "g' \<in> set (clients d')" "client_evolves g g'"
    using assms(1) table_evolves_mono [OF _ ga(1)] unfolding access_evolves_def by blast
  moreover obtain a' where "a' \<in> set (accounts d')" "same_account a a'"
    using assms(1) table_evolves_mono [OF _ ga(4)] unfolding access_evolves_def by blast
  ultimately show ?thesis
    using assms(2,3) ga
    unfolding token_row_ok_def token_evolves_def client_evolves_def same_account_def by metis
qed

lemma access_good_client:
  assumes "gc_id g \<notin> gc_id ` set (clients d)"
  shows "access_good d (d\<lparr>clients := clients d @ [g]\<rparr>)"
proof -
  let ?d = "d\<lparr>clients := clients d @ [g]\<rparr>"
  have ev: "access_evolves d ?d"
    using assms by (simp add: access_evolves_def table_evolves_refl table_evolves_append)
  have "token_row_ok ?d t" if "token_row_ok d t" for t
    using token_row_ok_mono [OF ev that] by simp
  with ev assms show ?thesis
    by (simp add: access_good_def access_inv_def)
qed

lemma access_good_token:
  assumes "at_hash t \<notin> at_hash ` set (tokens d)" "at_id t \<notin> at_id ` set (tokens d)"
    and ok: "token_row_ok d t"
  shows "access_good d (d\<lparr>tokens := tokens d @ [t]\<rparr>)"
proof -
  let ?d = "d\<lparr>tokens := tokens d @ [t]\<rparr>"
  have ev: "access_evolves d ?d"
    using assms by (simp add: access_evolves_def table_evolves_refl table_evolves_append)
  have "token_row_ok ?d u" if "token_row_ok d u" for u
    using token_row_ok_mono [OF ev that] by simp
  with ev assms show ?thesis
    by (auto simp: access_good_def access_inv_def)
qed

text \<open>Row-wise evolution of the three tables.\<close>

lemma access_good_same:
  assumes c: "list_all2 client_evolves (clients d) (clients d')"
    and a: "table_evolves same_account acc_id (accounts d) (accounts d')"
    and t: "list_all2 token_evolves (tokens d) (tokens d')"
  shows "access_good d d'"
proof -
  have ev: "access_evolves d d'"
    using a table_evolves_rows [OF c, of gc_id] table_evolves_rows [OF t, of at_hash]
    by (simp add: access_evolves_def)
  have "map gc_id (clients d') = map gc_id (clients d)"
    using c by (induction rule: list_all2_induct) (simp_all add: client_evolves_def)
  moreover have "map at_hash (tokens d') = map at_hash (tokens d)
      \<and> map at_id (tokens d') = map at_id (tokens d)"
    using t by (induction rule: list_all2_induct) (simp_all add: token_evolves_def)
  moreover have "token_row_ok d' u'" if "u' \<in> set (tokens d')" "\<forall>u \<in> set (tokens d). token_row_ok d u" for u'
    using list_all2_right [OF t that(1)] token_row_ok_mono [OF ev] that(2) by blast
  ultimately show ?thesis
    using ev by (simp add: access_good_def access_inv_def)
qed

lemma revoke_row_evolves [simp]: "token_evolves t (revoke_row now t)"
  by (auto simp: token_evolves_def revoke_row_def)

lemma disable_evolves [simp]: "client_evolves g (gc_status_update (\<lambda>_. ClientDisabled) g)"
  by (simp add: client_evolves_def)

lemma access_good_accounts:
  "table_evolves same_account acc_id (accounts d) as \<Longrightarrow> access_good d (d\<lparr>accounts := as\<rparr>)"
  by (rule access_good_same) (simp_all add: list_all2_same)

lemma CreateClient_good: "access_good d (snd (CreateClient e i u n ty d))"
  by (rule CreateClient_effect) (simp_all add: access_good_client)

lemma insert_client_good: "access_good d (snd (insert_client e i u n ty d))"
  by (rule insert_client_effect) (simp_all add: access_good_client)

lemma insert_token_good: "access_good d (snd (insert_token e i c a tok ss x d))"
  by (rule insert_token_effect) (simp_all add: access_good_token)

lemma IssueToken_good: "access_good d (snd (IssueToken e i rnd c a ss x d))"
  by (rule IssueToken_effect) (simp_all add: access_good_token)

lemma access_good_revoke:
  "access_good d (d\<lparr>tokens := update_where p (revoke_row now) (tokens d)\<rparr>)"
  by (rule access_good_same)
    (simp_all add: list_all2_same table_evolves_refl list_all2_update_where)

lemma access_good_disable:
  "access_good d (d\<lparr>clients := update_where p (gc_status_update (\<lambda>_. ClientDisabled)) (clients d)\<rparr>)"
  by (rule access_good_same)
    (simp_all add: list_all2_same table_evolves_refl list_all2_update_where)

lemma access_good_other [simp]:
  "access_good d (d\<lparr>refresh_tokens := x\<rparr>)" "access_good d (d\<lparr>oauth_codes := y\<rparr>)"
  by (rule access_good_same; simp add: list_all2_same table_evolves_refl)+

lemma RevokeToken_good: "access_good d (snd (RevokeToken e t c d))"
  by (simp add: RevokeToken_def access_good_revoke split: option.split)

lemma RevokeGrant_good: "access_good d (snd (RevokeGrant e a c d))"
proof -
  have "access_good d (snd (run_stmts e (revoke_grant_stmts e x y) d))" for x y
  proof (rule run_stmts_effect)
    fix l f d1
    assume lf: "(l, f) \<in> set (revoke_grant_stmts e x y)" and d1: "access_good d d1"
    have "access_good d1 (f d1)"
      using lf by (auto simp: revoke_grant_stmts_def access_good_revoke access_good_disable)
    then show "access_good d (f d1)" using d1 access_good_trans by blast
  qed simp
  then show ?thesis by (simp add: RevokeGrant_def split: option.split)
qed

lemma account_step_good:
  assumes "account_step d d'"
  shows "access_good d d'"
  using assms
proof cases
  case create
  show ?thesis
    unfolding create
    by (rule CreatePending_effect)
      (simp_all add: access_good_accounts table_evolves_append same_account_def)
next
  case activate
  show ?thesis
    unfolding activate
    by (rule Activate_effect)
      (auto intro!: access_good_accounts table_evolves_update simp: same_account_def)
next
  case disconnect
  show ?thesis
    unfolding disconnect MarkDisconnected_def
    by (rule exec_update_effect)
      (auto intro!: access_good_accounts table_evolves_update simp: same_account_def)
next
  case touch
  show ?thesis
    unfolding touch TouchUpdate_def Let_def
    by (rule exec_update_effect)
      (auto intro!: access_good_accounts table_evolves_update simp: same_account_def)
qed

section \<open>The access step relation\<close>

text \<open>
  Every committed change of the access tables.  \<open>RevokeGrant\<close> is visible to others only
  when its transaction commits, which needs all four statements to succeed.
\<close>

inductive access_step :: "db \<Rightarrow> db \<Rightarrow> bool" where
  account: "account_step d d' \<Longrightarrow> access_step d d'"
| client: "access_step d (snd (CreateClient e i u n ty d))"
| issue: "access_step d (snd (IssueToken e i rnd c a ss x d))"
| revoke: "access_step d (snd (RevokeToken e t c d))"
| revoke_grant: "RevokeGrant e a c d = (Inr (), d') \<Longrightarrow> access_step d d'"

lemma access_step_good: "access_step d d' \<Longrightarrow> access_good d d'"
proof (induction rule: access_step.induct)
  case (account d d')
  then show ?case by (rule account_step_good)
next
  case (revoke_grant e a c d d')
  then show ?case using RevokeGrant_good [of d e a c] by simp
qed (simp_all add: CreateClient_good IssueToken_good RevokeToken_good)

lemma access_steps_good: "access_step\<^sup>*\<^sup>* d d' \<Longrightarrow> access_good d d'"
  by (induction rule: rtranclp_induct) (auto intro: access_good_trans access_step_good)

text \<open>A grant is closed when no row of the join can ever be found for it again.\<close>

definition closed_grant :: "uuid \<Rightarrow> uuid \<Rightarrow> db \<Rightarrow> bool" where
  "closed_grant a c d =
     (c \<in> gc_id ` set (clients d)
      \<and> (\<forall>g \<in> set (clients d). gc_id g = c \<longrightarrow>
          gc_status g = ClientDisabled
          \<or> (a \<in> acc_id ` set (accounts d)
             \<and> (\<forall>t \<in> set (accounts d). acc_id t = a \<longrightarrow> acc_user t \<noteq> gc_user g))))"

lemma closed_grant_evolves:
  assumes ev: "access_evolves d d'" and cl: "closed_grant a c d"
  shows "closed_grant a c d'"
proof -
  have ev': "table_evolves same_account acc_id (accounts d) (accounts d')"
    "table_evolves client_evolves gc_id (clients d) (clients d')"
    using ev by (simp_all add: access_evolves_def)
  have c': "c \<in> gc_id ` set (clients d')"
    using cl table_evolves_mono [OF ev'(2)]
    unfolding closed_grant_def client_evolves_def by (metis (no_types, lifting) imageE image_eqI)
  have a': "a \<in> acc_id ` set (accounts d')" if "a \<in> acc_id ` set (accounts d)"
    using that table_evolves_mono [OF ev'(1)]
    unfolding same_account_def by (metis (no_types, lifting) imageE image_eqI)
  have "gc_status g' = ClientDisabled \<or> (a \<in> acc_id ` set (accounts d')
      \<and> (\<forall>t \<in> set (accounts d'). acc_id t = a \<longrightarrow> acc_user t \<noteq> gc_user g'))"
    if g': "g' \<in> set (clients d')" "gc_id g' = c" for g'
  proof -
    obtain g where g: "g \<in> set (clients d)" "client_evolves g g'"
      using table_evolves_origin [OF ev'(2) g'(1)] cl g'(2) unfolding closed_grant_def by blast
    have id: "gc_id g = c" "gc_user g' = gc_user g"
      using g(2) g'(2) by (simp_all add: client_evolves_def)
    show ?thesis
    proof (cases "gc_status g = ClientDisabled")
      case True
      then show ?thesis using g(2) by (simp add: client_evolves_def)
    next
      case False
      then have old: "a \<in> acc_id ` set (accounts d)"
        "\<And>t. t \<in> set (accounts d) \<Longrightarrow> acc_id t = a \<Longrightarrow> acc_user t \<noteq> gc_user g"
        using cl g(1) id(1) unfolding closed_grant_def by blast+
      have "acc_user t' \<noteq> gc_user g" if t': "t' \<in> set (accounts d')" "acc_id t' = a" for t'
      proof -
        obtain t where "t \<in> set (accounts d)" "same_account t t'"
          using table_evolves_origin [OF ev'(1) t'(1)] old(1) t'(2) by blast
        then show ?thesis using old(2) t'(2) by (simp add: same_account_def)
      qed
      then show ?thesis using a' old(1) id(2) by simp
    qed
  qed
  with c' show ?thesis by (simp add: closed_grant_def)
qed

lemma AuthenticateBearerD:
  assumes "AuthenticateBearer e pl d = Inr p"
  shows "\<exists>t g a. t \<in> set (tokens d) \<and> at_hash t = e_sha e (trim_space pl) \<and> token_live e d t
    \<and> g \<in> set (clients d) \<and> gc_id g = p_client p \<and> gc_user g = p_user p \<and> gc_type g = p_type p
    \<and> gc_status g = ClientActive
    \<and> a \<in> set (accounts d) \<and> acc_id a = p_account p \<and> acc_user a = p_user p
    \<and> acc_status a = Active
    \<and> at_client t = p_client p \<and> at_account t = p_account p \<and> at_user t = p_user p
    \<and> at_scopes t = p_scopes p \<and> p_scopes p \<noteq> [] \<and> set (p_scopes p) \<subseteq> set allowed_scopes"
proof -
  obtain t where f: "find (\<lambda>t. at_hash t = e_sha e (trim_space pl) \<and> token_live e d t) (tokens d)
      = Some t"
    using assms by (auto simp: AuthenticateBearer_def Let_def split: if_splits option.splits)
  obtain g where g: "token_client d t = Some g"
    using assms f by (auto simp: AuthenticateBearer_def Let_def split: if_splits option.splits)
  have v: "ValidateScopes (at_scopes t) = Inr ()"
    and p: "p = \<lparr>p_user = gc_user g, p_client = at_client t, p_type = gc_type g,
                p_account = at_account t, p_scopes = at_scopes t\<rparr>"
    using assms f g
    by (auto simp: AuthenticateBearer_def Let_def simp del: ValidateScopes_ok
             split: if_splits sum.splits)
  have t: "t \<in> set (tokens d)" "at_hash t = e_sha e (trim_space pl)" "token_live e d t"
    using find_in_set [OF f] by auto
  have g': "g \<in> set (clients d)" "gc_id g = at_client t" "gc_user g = at_user t"
    "gc_status g = ClientActive"
    using find_in_set [OF g [unfolded token_client_def]] by auto
  obtain a where a: "a \<in> set (accounts d)" "acc_id a = at_account t" "acc_user a = at_user t"
    "acc_status a = Active"
    using t(3) by (auto simp: token_live_def exists_row_def)
  show ?thesis
    using t g' a v unfolding p
    by (intro exI [of _ t] exI [of _ g] exI [of _ a]) simp
qed

lemma closed_grant_no_auth:
  assumes "closed_grant a c d" and "AuthenticateBearer e pl d = Inr p"
  shows "p_account p \<noteq> a \<or> p_client p \<noteq> c"
  using assms(1) AuthenticateBearerD [OF assms(2)] unfolding closed_grant_def
  by (metis client_status.distinct(1))

section \<open>Properties\<close>

lemma GenerateTokenD:
  assumes "GenerateToken e rnd = Inr g"
  shows "trim_space (g_plain g) = g_plain g" "has_prefix (g_plain g) token_prefix"
    "g_plain g \<noteq> []" "g_hash g = e_sha e (g_plain g)"
  using assms by (auto simp: GenerateToken_def TokenFromPlaintext_def Let_def split: if_splits)

lemma IssueTokenD:
  assumes "IssueToken e i rnd client_id account_id scopes x d = (Inr g, d')"
  shows "\<exists>c a u. e_uuid e client_id = Some c \<and> e_uuid e account_id = Some a
    \<and> grant_user c a d = Some u \<and> scopes \<noteq> [] \<and> set scopes \<subseteq> set allowed_scopes
    \<and> GenerateToken e rnd = Inr g
    \<and> d' = d\<lparr>tokens := tokens d @
          [\<lparr>at_id = i, at_client = c, at_account = a, at_user = u,
            at_prefix = g_prefix g, at_hash = g_hash g, at_scopes = sort (remdups scopes),
            at_expires = x, at_revoked = None, at_created = e_now e\<rparr>]\<rparr>
    \<and> g_hash g \<notin> at_hash ` set (tokens d)"
proof -
  obtain ns where ns: "NormalizeScopes scopes = Inr ns"
    using assms by (cases "NormalizeScopes scopes") (auto simp: IssueToken_def)
  obtain g' where g': "GenerateToken e rnd = Inr g'"
    using assms ns by (cases "GenerateToken e rnd") (auto simp: IssueToken_def split: if_splits)
  obtain c a where ca: "e_uuid e client_id = Some c" "e_uuid e account_id = Some a"
    using assms ns g' by (auto simp: IssueToken_def split: if_splits option.splits)
  have ins: "insert_token e i c a g' ns x d = (Inr 1, d')" "g' = g"
    using assms ns g' ca
    by (auto simp: IssueToken_def split: if_splits sum.splits prod.splits)
  show ?thesis
    using ins ca g' ns
    by (auto simp: insert_token_def NormalizeScopes_ok split: if_splits option.splits)
qed

lemma set_sort_remdups_nonempty: "xs \<noteq> [] \<Longrightarrow> sort (remdups xs) \<noteq> []"
  by (metis set_sort set_remdups set_empty)

lemma grant_user_client:
  assumes "grant_user c a d = Some u" and "distinct (map gc_id (clients d))"
    and "d' = d\<lparr>tokens := ts\<rparr>" and "at_client t = c" "at_user t = u" "at_account t = a"
  shows "\<exists>g. token_client d' t = Some g \<and> gc_user g = u \<and> gc_id g = c"
    and "exists_row (\<lambda>b. acc_id b = at_account t \<and> acc_user b = at_user t \<and> acc_status b = Active)
           (accounts d')"
proof -
  have "token_client d' t \<noteq> None"
    using grant_userD(1) [OF assms(1)] assms(3-) by (auto simp: token_client_def find_None_iff)
  then show "\<exists>g. token_client d' t = Some g \<and> gc_user g = u \<and> gc_id g = c"
    using find_in_set [of _ "clients d'"] assms(4,5) by (fastforce simp: token_client_def)
  show "exists_row (\<lambda>b. acc_id b = at_account t \<and> acc_user b = at_user t \<and> acc_status b = Active)
           (accounts d')"
    using grant_userD(2) [OF assms(1)] assms(3-) by (auto simp: exists_row_def)
qed

text \<open>A token row just inserted for a usable grant authenticates while it is fresh.\<close>

lemma new_row_authenticates:
  assumes gu: "grant_user c a d = Some u" and di: "distinct (map gc_id (clients d))"
    and sc: "at_scopes t \<noteq> []" "set (at_scopes t) \<subseteq> set allowed_scopes"
    and gt: "GenerateToken e rnd = Inr g" and new: "g_hash g \<notin> at_hash ` set (tokens d)"
    and t: "at_client t = c" "at_account t = a" "at_user t = u" "at_hash t = g_hash g" "at_revoked t = None"
    and d': "clients d' = clients d" "accounts d' = accounts d" "tokens d' = tokens d @ [t]"
    and sha: "e_sha e' = e_sha e" and up: "\<not> e_fail e' ''AuthenticateBearer''"
    and fresh: "\<And>x. at_expires t = Some x \<Longrightarrow> e_now e' < x"
  shows "\<exists>gc. AuthenticateBearer e' (g_plain g) d' =
      Inr \<lparr>p_user = u, p_client = c, p_type = gc_type gc, p_account = a, p_scopes = at_scopes t\<rparr>
    \<and> gc \<in> set (clients d) \<and> gc_id gc = c \<and> gc_user gc = u"
proof -
  let ?d = "d\<lparr>tokens := tokens d @ [t]\<rparr>"
  obtain gc where gc: "token_client ?d t = Some gc" "gc_user gc = u" "gc_id gc = c"
    using grant_user_client(1) [OF gu di refl, of t] t by auto
  have gc': "token_client d' t = Some gc" using gc(1) d' by (simp add: token_client_def)
  have "exists_row (\<lambda>b. acc_id b = at_account t \<and> acc_user b = at_user t \<and> acc_status b = Active)
      (accounts d')"
    using grant_user_client(2) [OF gu di refl, of t] t d' by simp
  then have live: "token_live e' d' t"
    using gc' fresh t by (auto simp: token_live_def split: option.split)
  have hash: "g_hash g = e_sha e' (g_plain g)"
    using GenerateTokenD(4) [OF gt] sha by simp
  have old: "find (\<lambda>t. at_hash t = e_sha e' (g_plain g) \<and> token_live e' d' t) (tokens d) = None"
    using new unfolding find_None_iff hash [symmetric] by (metis image_eqI)
  have "find (\<lambda>t. at_hash t = e_sha e' (g_plain g) \<and> token_live e' d' t) (tokens d') = Some t"
    using old live hash t by (simp add: d' find_append)
  moreover have "ValidateScopes (at_scopes t) = Inr ()"
    unfolding ValidateScopes_ok using sc by simp
  ultimately have "AuthenticateBearer e' (g_plain g) d' =
      Inr \<lparr>p_user = u, p_client = c, p_type = gc_type gc, p_account = a, p_scopes = at_scopes t\<rparr>"
    using GenerateTokenD [OF gt] up gc gc' t
    by (simp add: AuthenticateBearer_def Let_def del: ValidateScopes_ok)
  moreover have "gc \<in> set (clients d)"
    using find_in_set [OF gc(1) [unfolded token_client_def]] by simp
  ultimately show ?thesis using gc by blast
qed

text \<open>A token that \<open>IssueToken\<close> hands out is accepted by \<open>AuthenticateBearer\<close> until it
  expires, for exactly the client, the account and the (deduplicated, sorted) scopes it was
  issued for, and the principal's user owns that client.\<close>

theorem issued_token_authenticates:
  assumes inv: "access_inv d"
    and issued: "IssueToken e i rnd client_id account_id scopes x d = (Inr g, d')"
    and sha: "e_sha e' = e_sha e" and up: "\<not> e_fail e' ''AuthenticateBearer''"
    and fresh: "\<And>t. x = Some t \<Longrightarrow> e_now e' < t"
  shows "\<exists>p. AuthenticateBearer e' (g_plain g) d' = Inr p
    \<and> e_uuid e client_id = Some (p_client p) \<and> e_uuid e account_id = Some (p_account p)
    \<and> p_scopes p = sort (remdups scopes)
    \<and> (\<exists>gc \<in> set (clients d). gc_id gc = p_client p \<and> gc_user gc = p_user p)"
proof -
  obtain c a u where ca: "e_uuid e client_id = Some c" "e_uuid e account_id = Some a"
    and gu: "grant_user c a d = Some u" and sc: "scopes \<noteq> []" "set scopes \<subseteq> set allowed_scopes"
    and gt: "GenerateToken e rnd = Inr g" and new: "g_hash g \<notin> at_hash ` set (tokens d)"
    and d': "d' = d\<lparr>tokens := tokens d @
          [\<lparr>at_id = i, at_client = c, at_account = a, at_user = u,
            at_prefix = g_prefix g, at_hash = g_hash g, at_scopes = sort (remdups scopes),
            at_expires = x, at_revoked = None, at_created = e_now e\<rparr>]\<rparr>"
    using IssueTokenD [OF issued] by blast
  let ?t = "\<lparr>at_id = i, at_client = c, at_account = a, at_user = u,
            at_prefix = g_prefix g, at_hash = g_hash g, at_scopes = sort (remdups scopes),
            at_expires = x, at_revoked = None, at_created = e_now e\<rparr>"
  have "distinct (map gc_id (clients d))" using inv by (simp add: access_inv_def)
  then have "\<exists>gc. AuthenticateBearer e' (g_plain g) d' =
      Inr \<lparr>p_user = u, p_client = c, p_type = gc_type gc, p_account = a, p_scopes = at_scopes ?t\<rparr>
    \<and> gc \<in> set (clients d) \<and> gc_id gc = c \<and> gc_user gc = u"
    by (intro new_row_authenticates [OF gu _ _ _ gt new, of ?t d'])
      (use sc fresh sha up in \<open>simp_all add: d' set_sort_remdups_nonempty\<close>)
  then show ?thesis using ca by auto
qed

lemma disabled_row:
  assumes "g \<in> set (update_where (\<lambda>g. gc_id g = c \<and> gc_user g = u)
                    (gc_status_update (\<lambda>_. ClientDisabled)) gs)"
    and "gc_id g = c" and "gc_user g = u"
  shows "gc_status g = ClientDisabled"
proof -
  obtain h where "(gc_id h = c \<and> gc_user h = u \<and> g = gc_status_update (\<lambda>_. ClientDisabled) h)
      \<or> (\<not> (gc_id h = c \<and> gc_user h = u) \<and> g = h)"
    using assms(1) unfolding in_update_where by fast
  then show ?thesis
    using assms(2,3) by (elim disjE conjE) simp_all
qed

text \<open>A committed \<open>RevokeGrant\<close> closes the grant.\<close>

lemma RevokeGrant_closes:
  assumes revoke: "RevokeGrant e account client d = (Inr (), d1)"
    and ids: "e_uuid e account = Some a" "e_uuid e client = Some c"
    and known: "a \<in> acc_id ` set (accounts d)" "c \<in> gc_id ` set (clients d)"
    and one: "distinct (map acc_id (accounts d))"
  shows "closed_grant a c d1"
proof -
  have d1: "d1 = fold (\<lambda>(l, f). f) (revoke_grant_stmts e a c) d"
    using revoke ids by (simp add: RevokeGrant_def run_stmts_ok)
  obtain ta where ta: "ta \<in> set (accounts d)" "acc_id ta = a" using known(1) by auto
  have user: "account_user a d = Some (acc_user ta)"
  proof -
    obtain tb where tb: "find (\<lambda>t. acc_id t = a) (accounts d) = Some tb"
      using ta by (cases "find (\<lambda>t. acc_id t = a) (accounts d)") (auto simp: find_None_iff)
    have "tb = ta"
      by (rule key_unique [OF one]) (use find_in_set [OF tb] ta in simp_all)
    then show ?thesis using tb by (simp add: account_user_def)
  qed
  have cl: "clients d1 = update_where (\<lambda>g. gc_id g = c \<and> gc_user g = acc_user ta)
              (gc_status_update (\<lambda>_. ClientDisabled)) (clients d)" "accounts d1 = accounts d"
    unfolding d1 by (simp_all add: revoke_grant_stmts_def user)
  have "gc_status g = ClientDisabled \<or> (\<forall>t \<in> set (accounts d1). acc_id t = a \<longrightarrow> acc_user t \<noteq> gc_user g)"
    if g: "g \<in> set (clients d1)" "gc_id g = c" for g
  proof (cases "gc_user g = acc_user ta")
    case True
    show ?thesis
      by (rule disjI1, rule disabled_row [OF g(1) [unfolded cl(1)] g(2) True])
  next
    case False
    have "t = ta" if "t \<in> set (accounts d1)" "acc_id t = a" for t
      by (rule key_unique [OF one]) (use that ta in \<open>simp_all add: cl(2)\<close>)
    then show ?thesis using False by auto
  qed
  moreover have "c \<in> gc_id ` set (clients d1)"
    using known(2) by (simp add: cl(1) image_key_update_where)
  ultimately show ?thesis
    using known(1) unfolding closed_grant_def cl(2) by blast
qed

text \<open>Revoking a grant is final: once \<open>RevokeGrant\<close> for an existing client and account
  has committed, no later sequence of issuing, creating, revoking, activating or connecting
  makes any bearer token act for that client on that account again.\<close>

theorem revoked_grant_final:
  assumes revoke: "RevokeGrant e account client d = (Inr (), d1)"
    and ids: "e_uuid e account = Some a" "e_uuid e client = Some c"
    and known: "a \<in> acc_id ` set (accounts d)" "c \<in> gc_id ` set (clients d)"
    and one: "distinct (map acc_id (accounts d))"
    and later: "access_step\<^sup>*\<^sup>* d1 d2"
  shows "\<not> (\<exists>p. AuthenticateBearer e' bearer d2 = Inr p \<and> p_account p = a \<and> p_client p = c)"
proof -
  have "closed_grant a c d1" by (rule RevokeGrant_closes [OF revoke ids known one])
  moreover have "access_evolves d1 d2"
    using access_steps_good [OF later] by (simp add: access_good_def)
  ultimately have "closed_grant a c d2" by (rule closed_grant_evolves [rotated])
  then show ?thesis using closed_grant_no_auth by blast
qed

text \<open>A revoked access token stays dead: after \<open>RevokeToken\<close> succeeds for a token row,
  whatever is issued or revoked later, a bearer with that row's hash is rejected.\<close>

theorem revoked_token_final:
  assumes inv: "access_inv d"
    and revoke: "RevokeToken e token_id client_id d = (Inr (), d1)"
    and row: "t \<in> set (tokens d)" "e_uuid e token_id = Some (at_id t)"
      "e_uuid e client_id = Some (at_client t)"
    and later: "access_step\<^sup>*\<^sup>* d1 d2"
    and bearer: "e_sha e' (trim_space bearer) = at_hash t"
  shows "\<exists>err. AuthenticateBearer e' bearer d2 = Inl err"
proof (cases "AuthenticateBearer e' bearer d2")
  case (Inr p)
  have d1: "d1 = d\<lparr>tokens := update_where (\<lambda>r. at_id r = at_id t \<and> at_client r = at_client t)
                     (revoke_row (e_now e)) (tokens d)\<rparr>"
    using revoke row by (auto simp: RevokeToken_def split: if_splits)
  have t1: "revoke_row (e_now e) t \<in> set (tokens d1)"
    using row(1) unfolding d1 by (auto simp: in_update_where)
  have good: "access_good d d1" using RevokeToken_good [of d e token_id client_id] revoke by simp
  have inv2: "access_inv d2" and ev: "access_evolves d1 d2"
    using access_steps_good [OF later] good inv by (simp_all add: access_good_def)
  obtain t2 where t2: "t2 \<in> set (tokens d2)" "token_evolves (revoke_row (e_now e) t) t2"
    using table_evolves_mono [OF _ t1] ev unfolding access_evolves_def by blast
  have dead: "at_revoked t2 \<noteq> None" "at_hash t2 = at_hash t"
    using t2(2) by (auto simp: token_evolves_def revoke_row_def)
  obtain t3 where t3: "t3 \<in> set (tokens d2)" "at_hash t3 = at_hash t" "token_live e' d2 t3"
    using AuthenticateBearerD [OF Inr] bearer by metis
  have "t3 = t2"
    using inv2 t2(1) t3 dead(2) by (auto simp: access_inv_def intro: key_unique [of at_hash])
  then show ?thesis using t3(3) dead(1) by (simp add: token_live_def)
qed auto

text \<open>Two scope lists that are accepted normalise to the same list exactly when they
  contain the same scopes, and normalising is idempotent.\<close>

theorem normalized_scopes_canonical:
  assumes "NormalizeScopes ss = Inr ms" and "NormalizeScopes ts = Inr ns"
  shows "(ms = ns \<longleftrightarrow> set ss = set ts) \<and> NormalizeScopes ms = Inr ms \<and> set ms = set ss"
proof -
  have ms: "ms = sort (remdups ss)" "ss \<noteq> []" "set ss \<subseteq> set allowed_scopes"
    and ns: "ns = sort (remdups ts)"
    using assms by (auto simp: NormalizeScopes_ok)
  have "sort (remdups ss) = sort (remdups ts) \<longleftrightarrow> set ss = set ts"
    by (metis sorted_list_of_set_sort_remdups set_sort set_remdups)
  moreover have "sort (remdups ms) = ms"
    unfolding ms(1) by (simp add: distinct_remdups_id sort_key_id_if_sorted)
  moreover have "set ms = set ss" "ms \<noteq> []"
    using ms(2) unfolding ms(1) by (metis set_sort set_remdups, metis set_sort set_remdups set_empty)
  ultimately show ?thesis using ms(3) ns by (simp add: NormalizeScopes_ok ms(1) [symmetric])
qed

section \<open>Witnesses\<close>

lemma demo_access_inv: "access_inv demo_db"
  by (simp add: access_inv_def demo_defs)

definition demo_issue :: "generated result \<times> db" where
  "demo_issue = IssueToken demo_env ''t1'' ''random'' ''c1'' ''a1''
                  [''media:read'', ''chat:read'', ''media:read''] (Some 9000000) demo_db"

definition demo_bearer :: string where
  "demo_bearer = ''tgw_cmFuZG9t''"

definition demo_token :: token_row where
  "demo_token =
     \<lparr>at_id = ''t1'', at_client = ''c1'', at_account = ''a1'', at_user = ''u1'',
      at_prefix = demo_bearer, at_hash = demo_bearer,
      at_scopes = [''chat:read'', ''media:read''], at_expires = Some 9000000,
      at_revoked = None, at_created = 5000000\<rparr>"

lemma demo_trim: "trim_space demo_bearer = demo_bearer"
  by code_simp

lemma demo_generate:
  "GenerateToken demo_env ''random'' =
     Inr \<lparr>g_plain = demo_bearer, g_prefix = demo_bearer, g_hash = demo_bearer\<rparr>"
proof -
  have gen: "token_prefix @ b64_encode ''random'' = demo_bearer" by code_simp
  show ?thesis
    unfolding GenerateToken_def gen using demo_trim
    by (simp add: GenerateToken_def TokenFromPlaintext_def demo_env_def demo_bearer_def
        token_prefix_def has_prefix_def Let_def)
qed

lemma demo_issue_eval:
  "demo_issue = (Inr \<lparr>g_plain = demo_bearer, g_prefix = demo_bearer, g_hash = demo_bearer\<rparr>,
                 demo_db\<lparr>tokens := [demo_token]\<rparr>)"
proof -
  have n: "NormalizeScopes [''media:read'', ''chat:read'', ''media:read'']
      = Inr [''chat:read'', ''media:read'']" by code_simp
  have "rune_count demo_bearer = 12" by code_simp
  then show ?thesis
    using n demo_generate
    by (simp add: demo_issue_def IssueToken_def insert_token_def grant_user_def exists_row_def
        allowed_scopes_def demo_token_def demo_defs)
qed

theorem issued_token_authenticates_witness:
  "\<exists>p. AuthenticateBearer demo_env demo_bearer (demo_db\<lparr>tokens := [demo_token]\<rparr>) = Inr p
     \<and> p_client p = ''c1'' \<and> p_account p = ''a1'' \<and> p_scopes p = [''chat:read'', ''media:read'']"
proof -
  have "\<not> e_fail demo_env ''AuthenticateBearer''" "e_now demo_env < 9000000"
    by (simp_all add: demo_env_def)
  moreover have "sort (remdups [''media:read'', ''chat:read'', ''media:read''])
      = [''chat:read'', ''media:read'']" by code_simp
  ultimately show ?thesis
    using issued_token_authenticates [OF demo_access_inv
        demo_issue_eval [unfolded demo_issue_def], of demo_env]
    by (auto simp: demo_env_def)
qed

definition demo_revoked :: db where
  "demo_revoked = snd (RevokeGrant demo_env ''a1'' ''c1'' (demo_db\<lparr>tokens := [demo_token]\<rparr>))"

theorem revoked_grant_final_witness:
  "\<not> (\<exists>p. AuthenticateBearer demo_env demo_bearer demo_revoked = Inr p
          \<and> p_account p = ''a1'' \<and> p_client p = ''c1'')"
proof -
  let ?d = "demo_db\<lparr>tokens := [demo_token]\<rparr>"
  have ok: "RevokeGrant demo_env ''a1'' ''c1'' ?d = (Inr (), demo_revoked)"
    by (simp add: RevokeGrant_def revoke_grant_stmts_def demo_env_def demo_revoked_def)
  have ids: "e_uuid demo_env ''a1'' = Some ''a1''" "e_uuid demo_env ''c1'' = Some ''c1''"
    by (simp_all add: demo_env_def)
  have known: "''a1'' \<in> acc_id ` set (accounts ?d)" "''c1'' \<in> gc_id ` set (clients ?d)"
    "distinct (map acc_id (accounts ?d))"
    by (simp_all add: demo_defs)
  show ?thesis
    by (rule revoked_grant_final [OF ok ids known rtranclp.rtrancl_refl])
qed

theorem revoked_token_final_witness:
  "\<exists>err. AuthenticateBearer demo_env demo_bearer
     (snd (RevokeToken demo_env ''t1'' ''c1'' (demo_db\<lparr>tokens := [demo_token]\<rparr>))) = Inl err"
proof -
  let ?d = "demo_db\<lparr>tokens := [demo_token]\<rparr>"
  have inv: "access_inv ?d"
    by (simp add: access_inv_def token_row_ok_def demo_token_def demo_defs allowed_scopes_def)
  have ok: "RevokeToken demo_env ''t1'' ''c1'' ?d
      = (Inr (), snd (RevokeToken demo_env ''t1'' ''c1'' ?d))"
    by (simp add: RevokeToken_def demo_env_def exists_row_def demo_token_def)
  show ?thesis
    by (rule revoked_token_final [OF inv ok _ _ _ rtranclp.rtrancl_refl, of demo_token])
      (simp_all add: demo_token_def demo_trim demo_env_def)
qed

theorem normalized_scopes_canonical_witness:
  "NormalizeScopes [''media:read'', ''chat:read'', ''media:read''] = Inr [''chat:read'', ''media:read'']
   \<and> NormalizeScopes [''chat:read'', ''media:read''] = Inr [''chat:read'', ''media:read'']"
proof -
  have "NormalizeScopes [''media:read'', ''chat:read'', ''media:read''] = Inr [''chat:read'', ''media:read'']"
    by code_simp
  with normalized_scopes_canonical [OF this this] show ?thesis by simp
qed

end
