(* ===== verification/RateLimit.thy ===== *)
theory RateLimit
  imports Complex_Main Schema
begin

text \<open>
  \<open>internal/ratelimit\<close>: the token bucket and the account cooldown that the Lua scripts
  keep in Redis.  Scripts run atomically, so a call is one step.  Redis numbers (doubles)
  are exact rationals here; Redis time is seconds.  The Redis state is a map from keys to
  buckets with their expiry, and a map from cooldown keys to the millisecond they expire at.
\<close>

section \<open>State and limits\<close>

record bucket =
  b_tokens :: rat
  b_ts :: rat
  b_expire :: rat

record redis =
  buckets :: "string \<Rightarrow> bucket option"
  cooldowns :: "string \<Rightarrow> int option"

record limit =
  l_capacity :: rat
  l_refill :: rat
  l_cost :: rat

record limit_result =
  r_allowed :: bool
  r_remaining :: rat
  r_retry :: duration

definition empty_redis :: redis where
  "empty_redis = \<lparr>buckets = (\<lambda>_. None), cooldowns = (\<lambda>_. None)\<rparr>"

section \<open>Token bucket\<close>

text \<open>The value a script sees: an expired key is absent.\<close>

definition live_bucket :: "rat \<Rightarrow> bucket option \<Rightarrow> bucket option" where
  "live_bucket now b = (case b of None \<Rightarrow> None | Some x \<Rightarrow> if now < b_expire x then Some x else None)"

text \<open>The script: refill for the time passed, then spend or tell how long to wait.\<close>

definition refilled :: "limit \<Rightarrow> rat \<Rightarrow> bucket option \<Rightarrow> rat" where
  "refilled l now b =
     (let tokens = (case b of None \<Rightarrow> l_capacity l | Some x \<Rightarrow> b_tokens x);
          last = (case b of None \<Rightarrow> now | Some x \<Rightarrow> b_ts x);
          elapsed = max 0 (now - last)
      in min (l_capacity l) (tokens + elapsed * l_refill l))"

definition bucket_ttl :: "limit \<Rightarrow> rat" where
  "bucket_ttl l = max 1 (of_int \<lceil>l_capacity l / l_refill l * 2\<rceil>)"

definition token_bucket_script ::
    "limit \<Rightarrow> rat \<Rightarrow> bucket option \<Rightarrow> bool \<times> rat \<times> rat \<times> bucket" where
  "token_bucket_script l now stored =
     (let tokens = refilled l now (live_bucket now stored);
          allowed = (l_cost l \<le> tokens);
          left = (if allowed then tokens - l_cost l else tokens);
          retry_after = (if allowed then 0 else (l_cost l - tokens) / l_refill l)
      in (allowed, left, retry_after,
          \<lparr>b_tokens = left, b_ts = now, b_expire = now + bucket_ttl l\<rparr>))"

text \<open>\<open>Allow\<close>; the float-to-Duration conversion truncates to nanoseconds.\<close>

definition Allow :: "env \<Rightarrow> rat \<Rightarrow> string \<Rightarrow> limit \<Rightarrow> redis \<Rightarrow> limit_result result \<times> redis" where
  [handler_defs]: "Allow e now key l s =
     (if blank key then (Inl (Msg ''rate-limit key is required''), s)
      else if l_capacity l \<le> 0 then (Inl (Msg ''rate-limit capacity must be positive''), s)
      else if l_refill l \<le> 0 then (Inl (Msg ''rate-limit refill rate must be positive''), s)
      else (let l = (if l_cost l \<le> 0 then l\<lparr>l_cost := 1\<rparr> else l) in
        if l_capacity l < l_cost l then (Inl (Msg ''rate-limit cost cannot exceed capacity''), s)
        else if e_fail e ''Allow'' then (Inl (Wrapped ''execute token bucket'' (DbErr ''redis'')), s)
        else (let (allowed, left, retry, b) = token_bucket_script l now (buckets s key)
              in (Inr \<lparr>r_allowed = allowed, r_remaining = left,
                       r_retry = \<lfloor>retry * of_int second_ns\<rfloor>\<rparr>,
                  s\<lparr>buckets := (buckets s)(key \<mapsto> b)\<rparr>))))"

section \<open>Account cooldown\<close>

definition cooldown_key :: "string \<Rightarrow> string" where
  "cooldown_key account_id = ''tg:cooldown:account:'' @ account_id"

text \<open>\<open>PTTL\<close>: -2 for an absent or expired key, else the milliseconds left.\<close>

definition pttl :: "int \<Rightarrow> int option \<Rightarrow> int" where
  "pttl now_ms x = (case x of None \<Rightarrow> -2 | Some t \<Rightarrow> if now_ms < t then t - now_ms else -2)"

definition cooldown_script :: "int \<Rightarrow> int \<Rightarrow> int option \<Rightarrow> int \<times> int option" where
  "cooldown_script requested now_ms stored =
     (let current = pttl now_ms stored
      in if requested < current then (current, stored)
         else (requested, Some (now_ms + requested)))"

definition SetAccountCooldown ::
    "env \<Rightarrow> int \<Rightarrow> string \<Rightarrow> duration \<Rightarrow> redis \<Rightarrow> duration result \<times> redis" where
  [handler_defs]: "SetAccountCooldown e now_ms account_id d s =
     (if blank account_id then (Inl (Msg ''account id is required''), s)
      else if d \<le> 0 then (Inl (Msg ''cooldown duration must be positive''), s)
      else (let ms = (if d div 1000000 < 1 then 1 else d div 1000000) in
        if e_fail e ''SetAccountCooldown''
          then (Inl (Wrapped ''set account cooldown'' (DbErr ''redis'')), s)
        else (let (v, c) = cooldown_script ms now_ms (cooldowns s (cooldown_key account_id))
              in (Inr (v * 1000000),
                  s\<lparr>cooldowns := (cooldowns s)(cooldown_key account_id := c)\<rparr>))))"

definition AccountCooldown :: "env \<Rightarrow> int \<Rightarrow> string \<Rightarrow> redis \<Rightarrow> duration result" where
  [handler_defs]: "AccountCooldown e now_ms account_id s =
     (if blank account_id then Inl (Msg ''account id is required'')
      else if e_fail e ''AccountCooldown''
        then Inl (Wrapped ''read account cooldown'' (DbErr ''redis''))
      else (let remaining = pttl now_ms (cooldowns s (cooldown_key account_id))
            in Inr (if remaining < 0 then 0 else remaining * 1000000)))"

section \<open>Policies (policy.go)\<close>

definition perMinute :: "int \<Rightarrow> int \<Rightarrow> limit" where
  "perMinute requests burst =
     (let burst = (if requests < burst then requests else burst)
      in \<lparr>l_capacity = of_int burst, l_refill = of_int requests / 60, l_cost = 1\<rparr>)"

record policies =
  pol_mcp_client :: limit
  pol_user :: limit
  pol_account :: limit
  pol_history :: limit
  pol_search :: limit
  pol_media :: limit

definition DefaultPolicies :: policies where
  "DefaultPolicies =
     \<lparr>pol_mcp_client = perMinute 60 20, pol_user = perMinute 120 30,
      pol_account = perMinute 60 15, pol_history = perMinute 20 6,
      pol_search = perMinute 10 3, pol_media = perMinute 5 2\<rparr>"

definition MCPClientKey :: "string \<Rightarrow> string" where
  "MCPClientKey client = ''rl:mcp:client:'' @ client"

definition UserKey :: "string \<Rightarrow> string" where
  "UserKey user = ''rl:user:'' @ user"

definition TelegramAccountKey :: "string \<Rightarrow> string" where
  "TelegramAccountKey account = ''rl:telegram:account:'' @ account"

definition TelegramMethodKey :: "string \<Rightarrow> string \<Rightarrow> string" where
  "TelegramMethodKey account meth = ''rl:telegram:account:'' @ account @ '':method:'' @ meth"

section \<open>Bounds on what a bucket lets through\<close>

definition limit_ok :: "limit \<Rightarrow> bool" where
  "limit_ok l = (0 < l_refill l \<and> 0 < l_cost l \<and> l_cost l \<le> l_capacity l)"

text \<open>
  What is available at \<open>now\<close>, whether or not the stored key has expired: because the key
  lives twice as long as a full refill takes, expiry changes nothing.
\<close>

definition available :: "limit \<Rightarrow> rat \<Rightarrow> bucket option \<Rightarrow> rat" where
  "available l now b = refilled l now (live_bucket now b)"

definition stored_ok :: "limit \<Rightarrow> rat \<Rightarrow> bucket option \<Rightarrow> bool" where
  "stored_ok l now b =
     (case b of None \<Rightarrow> True
      | Some x \<Rightarrow> 0 \<le> b_tokens x \<and> b_tokens x \<le> l_capacity l \<and> b_ts x \<le> now
                  \<and> b_expire x = b_ts x + bucket_ttl l)"

lemma bucket_ttl_full:
  assumes "limit_ok l"
  shows "l_capacity l \<le> bucket_ttl l * l_refill l"
proof -
  have "0 \<le> l_capacity l / l_refill l" using assms by (simp add: limit_ok_def)
  moreover have "x \<le> x * 2" if "0 \<le> x" for x :: rat using that by simp
  ultimately have "l_capacity l / l_refill l \<le> l_capacity l / l_refill l * 2" by blast
  also have "\<dots> \<le> of_int \<lceil>l_capacity l / l_refill l * 2\<rceil>" by (rule le_of_int_ceiling)
  also have "\<dots> \<le> bucket_ttl l" by (simp add: bucket_ttl_def)
  finally show ?thesis using assms by (simp add: limit_ok_def divide_le_eq)
qed

lemma expiry_is_refill:
  assumes ok: "limit_ok l" and st: "stored_ok l now (Some x)"
  shows "available l now (Some x) = min (l_capacity l) (b_tokens x + (now - b_ts x) * l_refill l)"
proof (cases "now < b_expire x")
  case True
  then show ?thesis
    using st by (simp add: available_def refilled_def live_bucket_def stored_ok_def)
next
  case False
  then have "bucket_ttl l \<le> now - b_ts x" using st by (simp add: stored_ok_def)
  then have "bucket_ttl l * l_refill l \<le> (now - b_ts x) * l_refill l"
    using ok by (simp add: limit_ok_def mult_right_mono)
  then have "l_capacity l \<le> b_tokens x + (now - b_ts x) * l_refill l"
    using bucket_ttl_full [OF ok] st by (simp add: stored_ok_def)
  then show ?thesis
    using False by (simp add: available_def refilled_def live_bucket_def)
qed

lemma available_bounds:
  assumes "limit_ok l" and "stored_ok l now b"
  shows "0 \<le> available l now b" and "available l now b \<le> l_capacity l"
proof -
  show "available l now b \<le> l_capacity l"
    by (simp add: available_def refilled_def Let_def)
  show "0 \<le> available l now b"
  proof (cases b)
    case None
    then show ?thesis
      using assms(1) by (simp add: available_def refilled_def live_bucket_def limit_ok_def)
  next
    case (Some x)
    then show ?thesis
      using assms by (simp add: expiry_is_refill stored_ok_def limit_ok_def)
  qed
qed

lemma script_step:
  assumes ok: "limit_ok l" and st: "stored_ok l t b"
    and s: "token_bucket_script l t b = (allowed, left, retry, b')"
  shows "left = available l t b - (if allowed then l_cost l else 0)"
    and "b_tokens b' = left" and "b_ts b' = t" and "0 \<le> left"
    and "t \<le> t' \<Longrightarrow> stored_ok l t' (Some b')"
  using s available_bounds [OF ok st] ok
  by (auto simp: token_bucket_script_def available_def stored_ok_def limit_ok_def Let_def
           split: if_splits)

lemma stored_ok_later: "stored_ok l t b \<Longrightarrow> t \<le> t' \<Longrightarrow> stored_ok l t' b"
  by (auto simp: stored_ok_def split: option.splits)

lemma available_later:
  assumes ok: "limit_ok l" and st: "stored_ok l t b" and le: "t \<le> t'"
  shows "available l t' b \<le> available l t b + (t' - t) * l_refill l"
proof (cases b)
  case None
  then show ?thesis
    using ok le by (simp add: available_def refilled_def live_bucket_def limit_ok_def)
next
  case (Some x)
  have r: "0 \<le> (t' - t) * l_refill l" using ok le by (simp add: limit_ok_def)
  have "b_tokens x + (t' - b_ts x) * l_refill l
      = b_tokens x + (t - b_ts x) * l_refill l + (t' - t) * l_refill l"
    by (simp add: algebra_simps)
  then show ?thesis
    using expiry_is_refill [OF ok] st stored_ok_later [OF st le] r unfolding Some
    by (simp add: min_def)
qed

text \<open>
  Calls of \<open>Allow\<close> as the servers make them, oldest first, each with its environment, its
  time, its key and its limit; \<open>admitted\<close> counts those that were let through on one key.
\<close>

type_synonym call = "env \<times> rat \<times> string \<times> limit"

definition call_time :: "call \<Rightarrow> rat" where
  "call_time c = (case c of (e, t, k, l) \<Rightarrow> t)"

fun run_calls :: "call list \<Rightarrow> redis \<Rightarrow> (string \<times> limit_result result) list \<times> redis" where
  "run_calls [] s = ([], s)"
| "run_calls ((e, t, key, l) # cs) s =
     (let (r, s') = Allow e t key l s; (rs, s'') = run_calls cs s' in ((key, r) # rs, s''))"

definition admitted :: "string \<Rightarrow> (string \<times> limit_result result) list \<Rightarrow> nat" where
  "admitted key rs =
     length (filter (\<lambda>(k, r). k = key \<and> (case r of Inl _ \<Rightarrow> False | Inr x \<Rightarrow> r_allowed x)) rs)"

lemma Allow_other:
  "k \<noteq> key \<Longrightarrow> buckets (snd (Allow e t k l s)) key = buckets s key"
  by (auto simp: Allow_def Let_def split: prod.split)

lemma Allow_same:
  assumes ok: "limit_ok l" and st: "stored_ok l t (buckets s key)"
    and a: "Allow e t key l s = (r, s')"
  shows "(case r of Inl _ \<Rightarrow> 0 | Inr x \<Rightarrow> if r_allowed x then l_cost l else 0)
           \<le> available l t (buckets s key) - available l t (buckets s' key)"
    and "stored_ok l t (buckets s' key)"
proof -
  obtain allowed left retry b
    where s: "token_bucket_script l t (buckets s key) = (allowed, left, retry, b)"
    by (cases "token_bucket_script l t (buckets s key)") auto
  note step = script_step [OF ok st s]
  have new: "stored_ok l t (Some b)" by (rule step(5)) simp
  have av: "available l t (Some b) \<le> left"
    using expiry_is_refill [OF ok new] step(2,3) by simp
  from a have cases: "(\<exists>m. r = Inl m \<and> s' = s)
      \<or> (\<exists>x. r = Inr x \<and> r_allowed x = allowed \<and> s' = s\<lparr>buckets := (buckets s)(key \<mapsto> b)\<rparr>)"
    using ok s by (auto simp: Allow_def limit_ok_def split: if_splits)
  then show "(case r of Inl _ \<Rightarrow> 0 | Inr x \<Rightarrow> if r_allowed x then l_cost l else 0)
           \<le> available l t (buckets s key) - available l t (buckets s' key)"
    using step(1) av by auto
  show "stored_ok l t (buckets s' key)"
    using cases st new by auto
qed

lemma run_calls_bound:
  assumes ok: "limit_ok l"
    and "sorted (t0 # map call_time cs)" and "\<forall>(e, t, k, l') \<in> set cs. t \<le> t1"
    and "t0 \<le> t1" and "\<forall>(e, t, k, l') \<in> set cs. k = key \<longrightarrow> l' = l"
    and "stored_ok l t0 (buckets s key)"
    and "run_calls cs s = (rs, s')"
  shows "of_nat (admitted key rs) * l_cost l
           \<le> available l t0 (buckets s key) + (t1 - t0) * l_refill l"
  using assms(2-)
proof (induction cs arbitrary: t0 s rs)
  case Nil
  then show ?case
    using available_bounds(1) [OF ok Nil(5)] ok by (simp add: admitted_def limit_ok_def)
next
  case (Cons c cs)
  obtain e t k l' where c: "c = (e, t, k, l')" by (cases c)
  obtain r s1 where a: "Allow e t k l' s = (r, s1)" by (cases "Allow e t k l' s")
  obtain rs1 where rs: "run_calls cs s1 = (rs1, s')" "rs = (k, r) # rs1"
    using Cons.prems(6) a unfolding c by (auto split: prod.splits)
  have ct: "call_time (e, t, k, l') = t" by (simp add: call_time_def)
  have t: "t0 \<le> t" "t \<le> t1" "sorted (t # map call_time cs)"
    using Cons.prems(1,2) ct by (auto simp: c)
  have st: "stored_ok l t (buckets s key)"
    by (rule stored_ok_later [OF Cons.prems(5) t(1)])
  have av: "available l t (buckets s key) \<le> available l t0 (buckets s key) + (t - t0) * l_refill l"
    by (rule available_later [OF ok Cons.prems(5) t(1)])
  define spent where "spent = (if k = key then
      (case r of Inl _ \<Rightarrow> 0 | Inr x \<Rightarrow> if r_allowed x then l_cost l else 0) else (0::rat))"
  have one: "spent \<le> available l t (buckets s key) - available l t (buckets s1 key)
      \<and> stored_ok l t (buckets s1 key)"
  proof (cases "k = key")
    case True
    then have "l' = l" using Cons.prems(4) unfolding c by auto
    then show ?thesis
      using Allow_same [OF ok st] a True unfolding spent_def by auto
  next
    case False
    then show ?thesis
      using Allow_other [OF False, of e t l' s] st a by (simp add: spent_def)
  qed
  have "of_nat (admitted key rs1) * l_cost l
      \<le> available l t (buckets s1 key) + (t1 - t) * l_refill l"
    using Cons.prems(2,4) one by (intro Cons.IH [OF t(3) _ t(2) _ _ rs(1)]) (auto simp: c)
  moreover have "of_nat (admitted key rs) * l_cost l = of_nat (admitted key rs1) * l_cost l + spent"
    by (auto simp: rs(2) admitted_def spent_def algebra_simps split: sum.splits)
  ultimately show ?case using one av by (simp add: algebra_simps)
qed

section \<open>Properties\<close>

text \<open>C22: In any stretch of calls, with calls on other keys and failing Redis calls in
  between, the calls let through on one key cost at most the capacity plus what the refill
  rate adds over that time; expiry of the Redis key never adds to it.\<close>

theorem rate_limit_bound:
  assumes "limit_ok l" and "sorted (t0 # map call_time cs)"
    and "\<forall>(e, t, k, l') \<in> set cs. t \<le> t1" and "t0 \<le> t1"
    and "\<forall>(e, t, k, l') \<in> set cs. k = key \<longrightarrow> l' = l"
    and "stored_ok l t0 (buckets s key)"
  shows "of_nat (admitted key (fst (run_calls cs s))) * l_cost l
           \<le> l_capacity l + (t1 - t0) * l_refill l"
  using run_calls_bound [OF assms, of "fst (run_calls cs s)" "snd (run_calls cs s)"]
    available_bounds(2) [OF assms(1,6)]
  by simp

text \<open>A rejected caller is told the truth: if nobody else uses the key meanwhile, a call
  made after the exact waiting time is let through, and one made earlier is rejected.\<close>

theorem retry_after_exact:
  assumes ok: "limit_ok l" and st: "stored_ok l t b"
    and rej: "token_bucket_script l t b = (False, left, retry, b')" and later: "t \<le> t'"
  shows "fst (token_bucket_script l t' (Some b')) \<longleftrightarrow> retry \<le> t' - t"
proof -
  note step = script_step [OF ok st rej]
  have st': "stored_ok l t' (Some b')" by (rule step(5) [OF later])
  have pos: "0 < l_refill l" "l_cost l \<le> l_capacity l" using ok by (simp_all add: limit_ok_def)
  have "retry = (l_cost l - left) / l_refill l"
    using rej by (auto simp: token_bucket_script_def Let_def split: if_splits)
  then have "retry \<le> t' - t \<longleftrightarrow> l_cost l \<le> left + (t' - t) * l_refill l"
    by (simp only: pos_divide_le_eq [OF pos(1)] diff_le_eq add.commute)
  also have "\<dots> \<longleftrightarrow> l_cost l \<le> available l t' (Some b')"
    using expiry_is_refill [OF ok st'] step(2,3) pos(2) by simp
  also have "\<dots> \<longleftrightarrow> fst (token_bucket_script l t' (Some b'))"
    by (simp add: token_bucket_script_def available_def Let_def)
  finally show ?thesis by simp
qed

text \<open>Setting an account cooldown never shortens it: it is in force until the later of
  the old and the new end, for that account only, and the value returned is what
  \<open>AccountCooldown\<close> then reports.\<close>

theorem cooldown_never_shortens:
  assumes "SetAccountCooldown e now a d s = (Inr v, s')" and "\<not> e_fail e' ''AccountCooldown''"
    and "now \<le> now'"
  shows "AccountCooldown e' now' a s' =
           Inr (max 0 (max (pttl now (cooldowns s (cooldown_key a))) (max 1 (d div 1000000))
                        - (now' - now)) * 1000000)
         \<and> v = max (pttl now (cooldowns s (cooldown_key a))) (max 1 (d div 1000000)) * 1000000
         \<and> (b \<noteq> a \<longrightarrow> cooldowns s' (cooldown_key b) = cooldowns s (cooldown_key b))"
proof -
  have ok: "\<not> blank a" using assms(1) by (auto simp: SetAccountCooldown_def split: if_splits)
  let ?ms = "max 1 (d div 1000000)" and ?old = "cooldowns s (cooldown_key a)"
  have ms: "(if d div 1000000 < 1 then 1 else d div 1000000) = ?ms" by simp
  obtain c where c: "cooldown_script ?ms now ?old = (v div 1000000, c)" "v = v div 1000000 * 1000000"
      "s' = s\<lparr>cooldowns := (cooldowns s)(cooldown_key a := c)\<rparr>"
    using assms(1) unfolding SetAccountCooldown_def Let_def ms
    by (auto split: if_splits prod.splits)
  have v: "v div 1000000 = max (pttl now ?old) ?ms"
    and c': "c = Some (now + max (pttl now ?old) ?ms)"
    using c(1) by (auto simp: cooldown_script_def pttl_def max_def Let_def split: if_splits option.splits)
  have "AccountCooldown e' now' a s' = Inr (max 0 (max (pttl now ?old) ?ms - (now' - now)) * 1000000)"
    using ok assms(2) by (simp add: AccountCooldown_def c(3) c' pttl_def max_def)
  moreover have "v = max (pttl now ?old) ?ms * 1000000" using v c(2) by metis
  moreover have "cooldowns s' (cooldown_key b) = cooldowns s (cooldown_key b)" if "b \<noteq> a"
    using that by (simp add: c(3) cooldown_key_def)
  ultimately show ?thesis by blast
qed

section \<open>Witnesses\<close>

lemma demo_limit_ok: "limit_ok (perMinute 60 20)"
  by (simp add: limit_ok_def perMinute_def)

definition demo_calls :: "call list" where
  "demo_calls = [(demo_env, 1, ''k'', perMinute 60 20), (demo_env, 2, ''x'', perMinute 5 2),
                 (demo_env, 4, ''k'', perMinute 60 20)]"

theorem rate_limit_bound_witness:
  "of_nat (admitted ''k'' (fst (run_calls demo_calls empty_redis))) * l_cost (perMinute 60 20)
     \<le> l_capacity (perMinute 60 20) + (4 - 1) * l_refill (perMinute 60 20)"
  by (rule rate_limit_bound [OF demo_limit_ok])
    (simp_all add: demo_calls_def call_time_def stored_ok_def empty_redis_def)

theorem retry_after_exact_witness:
  "fst (token_bucket_script (perMinute 60 20) 11 (Some \<lparr>b_tokens = 1 / 2, b_ts = 10, b_expire = 50\<rparr>))
     \<longleftrightarrow> (1 :: rat) / 2 \<le> 11 - 10"
proof -
  have ttl: "bucket_ttl (perMinute 60 20) = 40"
    by (simp add: bucket_ttl_def perMinute_def)
  have run: "token_bucket_script (perMinute 60 20) 10 (Some \<lparr>b_tokens = 1 / 2, b_ts = 10, b_expire = 50\<rparr>)
      = (False, 1 / 2, 1 / 2, \<lparr>b_tokens = 1 / 2, b_ts = 10, b_expire = 50\<rparr>)"
    unfolding token_bucket_script_def ttl
    by (simp add: refilled_def live_bucket_def perMinute_def Let_def)
  show ?thesis
    by (rule retry_after_exact [OF demo_limit_ok _ run])
      (simp_all add: stored_ok_def ttl, simp add: perMinute_def)
qed

theorem cooldown_never_shortens_witness:
  "AccountCooldown demo_env 600 ''a1''
     (snd (SetAccountCooldown demo_env 100 ''a1'' 5000000000 empty_redis)) = Inr (4500 * 1000000)"
proof -
  have nb: "\<not> blank ''a1''" by code_simp
  then have "SetAccountCooldown demo_env 100 ''a1'' 5000000000 empty_redis
      = (Inr 5000000000, snd (SetAccountCooldown demo_env 100 ''a1'' 5000000000 empty_redis))"
    by (simp add: SetAccountCooldown_def demo_env_def empty_redis_def cooldown_script_def
        pttl_def Let_def)
  from cooldown_never_shortens [OF this, of demo_env 600 "''b''"] show ?thesis
    by (simp add: demo_env_def empty_redis_def pttl_def)
qed

end
