(* ===== verification/AuditLog.thy ===== *)
theory AuditLog
  imports Accounts
begin

text \<open>
  \<open>internal/audit\<close>: the append-only log whose entries of one chain are linked by hashes.
  The writer hashes the previous entry's hash and a canonical JSON payload; the verifier
  recomputes both from the stored rows.  Writers of one chain are serialised by an advisory
  lock, so \<open>Write\<close> is one step.
\<close>

section \<open>Events and payloads (writer.go)\<close>

record event =
  ev_account :: "string option"
  ev_actor_type :: string
  ev_actor :: string
  ev_action :: string
  ev_resource_type :: string
  ev_resource :: string
  ev_ip :: string
  ev_agent :: string
  ev_request :: "string option"
  ev_meta :: json
  ev_created :: time

definition actor_types :: "string list" where
  "actor_types = [''USER'', ''MCP'', ''SYSTEM'', ''TELEGRAM'', ''ADMIN'']"

definition validate_event :: "event \<Rightarrow> unit result" where
  "validate_event ev =
     (if ev_actor_type ev \<notin> set actor_types then Inl (Msg ''invalid audit actor type'')
      else if blank (ev_action ev) then Inl (Msg ''audit action is required'')
      else if blank (ev_resource_type ev) then Inl (Msg ''audit resource type is required'')
      else Inr ())"

definition chain_key :: "event \<Rightarrow> string" where
  "chain_key ev =
     (case ev_account ev of
        None \<Rightarrow> ''global''
      | Some a \<Rightarrow> if blank a then ''global'' else trim_space a)"

definition field :: "string \<Rightarrow> string \<Rightarrow> string" where  \<comment> \<open>one member of the payload object\<close>
  "field name v = json_string name @ '':'' @ v"

definition canonicalPayload :: "event \<Rightarrow> string \<Rightarrow> string" where
  "canonicalPayload ev metadata =
     ''{'' @ field ''account_id'' (json_opt (ev_account ev))
     @ '','' @ field ''actor_type'' (json_string (ev_actor_type ev))
     @ '','' @ field ''actor_id'' (json_string (ev_actor ev))
     @ '','' @ field ''action'' (json_string (ev_action ev))
     @ '','' @ field ''resource_type'' (json_string (ev_resource_type ev))
     @ '','' @ field ''resource_id'' (json_string (ev_resource ev))
     @ '','' @ field ''ip_address'' (json_string (ev_ip ev))
     @ '','' @ field ''user_agent'' (json_string (ev_agent ev))
     @ '','' @ field ''request_id'' (json_opt (ev_request ev))
     @ '','' @ field ''metadata'' metadata
     @ '','' @ field ''created_at'' (json_string (rfc3339_nano (ev_created ev))) @ ''}''"

section \<open>Writing\<close>

definition chain_rows :: "string \<Rightarrow> audit_row list \<Rightarrow> audit_row list" where  \<comment> \<open>ORDER BY id\<close>
  "chain_rows key rows = sort_key al_id (filter (\<lambda>r. al_chain r = key) rows)"

definition head_hash :: "string \<Rightarrow> audit_row list \<Rightarrow> bytes" where
  "head_hash key rows =
     (case rev (chain_rows key rows) of [] \<Rightarrow> [] | r # _ \<Rightarrow> al_hash r)"

definition next_audit_id :: "audit_row list \<Rightarrow> int" where
  "next_audit_id rows = 1 + foldr (\<lambda>r n. max (al_id r) n) rows 0"

text \<open>The casts \<open>$1::uuid\<close> of an optional text and \<open>NULLIF($8, '')::inet\<close>.\<close>

definition cast_opt :: "(string \<Rightarrow> string option) \<Rightarrow> string option \<Rightarrow> string option option" where
  "cast_opt f x = (case x of None \<Rightarrow> Some None | Some s \<Rightarrow> map_option Some (f s))"

definition insert_audit ::
    "env \<Rightarrow> event \<Rightarrow> string \<Rightarrow> bytes \<Rightarrow> bytes \<Rightarrow> db \<Rightarrow> unit result \<times> db" where
  "insert_audit e ev key prev hash d =
     (if e_fail e ''audit.insert'' then (Inl (DbErr ''insert audit_logs''), d)
      else (case (cast_opt (e_uuid e) (ev_account ev), cast_opt (e_inet e) (nullif_empty (ev_ip ev)),
                  cast_opt (e_uuid e) (ev_request ev)) of
          (Some acc, Some ip, Some req) \<Rightarrow>
            if (case acc of None \<Rightarrow> False | Some a \<Rightarrow> a \<notin> acc_id ` set (accounts d))
              then (Inl (DbErr ''foreign key''), d)
            else (Inr (), d\<lparr>audit_logs := audit_logs d @
                [\<lparr>al_id = next_audit_id (audit_logs d), al_chain = key, al_account = acc,
                  al_actor_type = ev_actor_type ev, al_actor_id = nullif_empty (ev_actor ev),
                  al_action = ev_action ev, al_resource_type = ev_resource_type ev,
                  al_resource_id = nullif_empty (ev_resource ev), al_ip = ip,
                  al_agent = nullif_empty (ev_agent ev), al_request = req,
                  al_meta = e_jsonb e (ev_meta ev), al_prev = prev, al_hash = hash,
                  al_created = ev_created ev\<rparr>]\<rparr>)
        | _ \<Rightarrow> (Inl (DbErr ''invalid input syntax''), d)))"

definition Write :: "env \<Rightarrow> event \<Rightarrow> db \<Rightarrow> unit result \<times> db" where
  [handler_defs]: "Write e ev d =
     (case validate_event ev of
        Inl err \<Rightarrow> (Inl err, d)
      | Inr _ \<Rightarrow>
         (let ev = (if ev_created ev = zero_time then ev\<lparr>ev_created := e_clock e\<rparr> else ev);
              metadata = json_marshal (ev_meta ev);
              key = chain_key ev
          in if e_fail e ''audit.begin'' then (Inl (Wrapped ''begin audit transaction'' (DbErr ''begin'')), d)
             else if e_fail e ''audit.lock'' then (Inl (Wrapped ''lock audit chain'' (DbErr ''lock'')), d)
             else if e_fail e ''audit.previous''
               then (Inl (Wrapped ''read previous audit hash'' (DbErr ''select'')), d)
             else (let previous = head_hash key (audit_logs d);
                       hash = e_sha e (previous @ canonicalPayload ev metadata)
                   in (case insert_audit e ev key previous hash d of
                         (Inl err, _) \<Rightarrow> (Inl (Wrapped ''insert audit log'' err), d)
                       | (Inr _, d') \<Rightarrow>
                           if e_fail e ''audit.commit''
                             then (Inl (Wrapped ''commit audit transaction'' (DbErr ''commit'')), d)
                           else (Inr (), d')))))"

section \<open>Verifying (verifier.go)\<close>

record verification =
  vr_chain :: string
  vr_entries :: int
  vr_first :: int
  vr_last :: int
  vr_head :: string

datatype verify_err = ChainErr string int string | ReadErr string

definition value_or_empty :: "string option \<Rightarrow> string" where
  "value_or_empty x = (case x of None \<Rightarrow> [] | Some s \<Rightarrow> s)"

text \<open>The event the verifier rebuilds from a row; its metadata is re-encoded separately.\<close>

definition row_event :: "audit_row \<Rightarrow> event" where
  "row_event r =
     \<lparr>ev_account = al_account r, ev_actor_type = al_actor_type r,
      ev_actor = value_or_empty (al_actor_id r), ev_action = al_action r,
      ev_resource_type = al_resource_type r, ev_resource = value_or_empty (al_resource_id r),
      ev_ip = value_or_empty (al_ip r), ev_agent = value_or_empty (al_agent r),
      ev_request = al_request r, ev_meta = al_meta r, ev_created = al_created r\<rparr>"

definition row_payload :: "audit_row \<Rightarrow> string" where
  "row_payload r = canonicalPayload (row_event r) (json_marshal (al_meta r))"

fun verify_rows ::
    "env \<Rightarrow> string \<Rightarrow> audit_row list \<Rightarrow> bytes \<Rightarrow> verification \<Rightarrow> verify_err + verification" where
  "verify_rows e key [] previous result = Inr (result\<lparr>vr_head := hex_encode previous\<rparr>)"
| "verify_rows e key (r # rs) previous result =
     (if al_prev r \<noteq> previous then Inl (ChainErr key (al_id r) ''previous hash mismatch'')
      else if al_hash r \<noteq> e_sha e (previous @ row_payload r)
        then Inl (ChainErr key (al_id r) ''entry hash mismatch'')
      else verify_rows e key rs (al_hash r)
             (result\<lparr>vr_first := (if vr_entries result = 0 then al_id r else vr_first result),
                      vr_entries := vr_entries result + 1, vr_last := al_id r\<rparr>))"

definition VerifyChain :: "env \<Rightarrow> string \<Rightarrow> db \<Rightarrow> verify_err + verification" where
  "VerifyChain e key d =
     (let key = trim_space key in
      if key = [] then Inl (ReadErr ''audit chain key is required'')
      else if e_fail e ''VerifyChain'' then Inl (ReadErr ''read audit chain'')
      else verify_rows e key (chain_rows key (audit_logs d)) []
             \<lparr>vr_chain = key, vr_entries = 0, vr_first = 0, vr_last = 0, vr_head = []\<rparr>)"

fun verify_keys :: "env \<Rightarrow> db \<Rightarrow> string list \<Rightarrow> verify_err + verification list" where
  "verify_keys e d [] = Inr []"
| "verify_keys e d (k # ks) =
     (case VerifyChain e k d of
        Inl err \<Rightarrow> Inl err
      | Inr v \<Rightarrow> (case verify_keys e d ks of Inl err \<Rightarrow> Inl err | Inr vs \<Rightarrow> Inr (v # vs)))"

definition VerifyAll :: "env \<Rightarrow> db \<Rightarrow> verify_err + verification list" where
  "VerifyAll e d =
     (if e_fail e ''VerifyAll'' then Inl (ReadErr ''list audit chains'')
      else verify_keys e d (sort (remdups (map al_chain (audit_logs d)))))"

section \<open>The chain invariant\<close>

text \<open>The verifier's loop as a predicate on the rows of one chain, oldest first.\<close>

fun linked :: "env \<Rightarrow> bytes \<Rightarrow> audit_row list \<Rightarrow> bool" where
  "linked e prev [] = True"
| "linked e prev (r # rs) =
     (al_prev r = prev \<and> al_hash r = e_sha e (prev @ row_payload r) \<and> linked e (al_hash r) rs)"

definition last_hash :: "bytes \<Rightarrow> audit_row list \<Rightarrow> bytes" where
  "last_hash prev rs = (if rs = [] then prev else al_hash (last rs))"

lemma linked_append:
  "linked e prev (rs @ ss) \<longleftrightarrow> linked e prev rs \<and> linked e (last_hash prev rs) ss"
  by (induction rs arbitrary: prev) (auto simp: last_hash_def)

lemma verify_rows_iff:
  "(\<exists>v. verify_rows e key rs prev res = Inr v) \<longleftrightarrow> linked e prev rs"
  by (induction rs arbitrary: prev res) auto

lemma verify_rows_result:
  "verify_rows e key rs prev res = Inr v \<Longrightarrow>
     vr_entries v = vr_entries res + int (length rs) \<and> vr_chain v = vr_chain res
     \<and> vr_head v = hex_encode (last_hash prev rs)"
proof (induction rs arbitrary: prev res)
  case (Cons r rs)
  obtain res' where "verify_rows e key rs (al_hash r) res' = Inr v"
    and "vr_entries res' = vr_entries res + 1" "vr_chain res' = vr_chain res"
    using Cons.prems by (auto split: if_splits)
  with Cons.IH show ?case by (auto simp: last_hash_def)
qed (auto simp: last_hash_def)

lemma VerifyChain_linked:
  assumes "VerifyChain e key d = Inr v"
  shows "linked e [] (chain_rows (trim_space key) (audit_logs d))"
    and "vr_head v = hex_encode (last_hash [] (chain_rows (trim_space key) (audit_logs d)))"
    and "vr_entries v = int (length (chain_rows (trim_space key) (audit_logs d)))"
proof -
  obtain res where r: "verify_rows e (trim_space key) (chain_rows (trim_space key) (audit_logs d)) [] res
      = Inr v" and "vr_entries res = 0"
    using assms by (auto simp: VerifyChain_def Let_def split: if_splits)
  then show "linked e [] (chain_rows (trim_space key) (audit_logs d))"
    and "vr_head v = hex_encode (last_hash [] (chain_rows (trim_space key) (audit_logs d)))"
    and "vr_entries v = int (length (chain_rows (trim_space key) (audit_logs d)))"
    using verify_rows_iff [THEN iffD1, OF exI, OF r] verify_rows_result [OF r] by simp_all
qed

definition audit_sorted :: "audit_row list \<Rightarrow> bool" where
  "audit_sorted rows = (sorted (map al_id rows) \<and> distinct (map al_id rows))"

lemma next_audit_id_gt: "r \<in> set rows \<Longrightarrow> al_id r < next_audit_id rows"
  by (induction rows) (auto simp: next_audit_id_def)

lemma chain_rows_append:
  assumes "audit_sorted rows" and "al_id r = next_audit_id rows"
  shows "chain_rows key (rows @ [r]) = chain_rows key rows @ (if al_chain r = key then [r] else [])"
proof -
  have s: "sorted (map al_id (filter P rows))" for P
    using assms(1) by (simp add: audit_sorted_def sorted_filter)
  have "sorted (map al_id (filter P rows @ [r]))" for P
    using s [of P] next_audit_id_gt [of _ rows] assms(2) by (auto simp: sorted_append less_imp_le)
  then show ?thesis
    using s by (simp add: chain_rows_def sort_key_id_if_sorted)
qed

lemma head_hash_last: "head_hash key rows = last_hash [] (chain_rows key rows)"
proof (cases "chain_rows key rows" rule: rev_cases)
  case Nil
  then show ?thesis by (simp add: head_hash_def last_hash_def)
next
  case (snoc rs r)
  then show ?thesis by (simp add: head_hash_def last_hash_def)
qed

definition audit_inv :: "env \<Rightarrow> db \<Rightarrow> bool" where
  "audit_inv e d =
     (audit_sorted (audit_logs d) \<and> (\<forall>key. linked e [] (chain_rows key (audit_logs d))))"

text \<open>The event can be rebuilt from its row: ids are in the text the server prints, and the
  metadata keeps its JSON text through a jsonb column.\<close>

definition reproducible :: "env \<Rightarrow> event \<Rightarrow> bool" where
  "reproducible e ev =
     ((\<forall>a. ev_account ev = Some a \<longrightarrow> e_uuid e a = Some a)
      \<and> (ev_ip ev \<noteq> [] \<longrightarrow> e_inet e (ev_ip ev) = Some (ev_ip ev))
      \<and> (\<forall>a. ev_request ev = Some a \<longrightarrow> e_uuid e a = Some a)
      \<and> json_marshal (e_jsonb e (ev_meta ev)) = json_marshal (ev_meta ev))"

lemma value_or_empty_nullif [simp]: "value_or_empty (nullif_empty s) = s"
  by (simp add: value_or_empty_def nullif_empty_def)

definition stamped :: "env \<Rightarrow> event \<Rightarrow> event" where
  "stamped e ev = (if ev_created ev = zero_time then ev\<lparr>ev_created := e_clock e\<rparr> else ev)"

lemma stamped_sel [simp]:
  "ev_account (stamped e ev) = ev_account ev" "ev_meta (stamped e ev) = ev_meta ev"
  "ev_ip (stamped e ev) = ev_ip ev" "ev_request (stamped e ev) = ev_request ev"
  "chain_key (stamped e ev) = chain_key ev"
  by (simp_all add: stamped_def chain_key_def)

text \<open>What a successful \<open>Write\<close> does to the log.\<close>

lemma WriteD:
  assumes "Write e ev d = (Inr (), d')"
  shows "\<exists>r acc ip req. d' = d\<lparr>audit_logs := audit_logs d @ [r]\<rparr>
    \<and> validate_event ev = Inr ()
    \<and> cast_opt (e_uuid e) (ev_account ev) = Some acc
    \<and> cast_opt (e_inet e) (nullif_empty (ev_ip ev)) = Some ip
    \<and> cast_opt (e_uuid e) (ev_request ev) = Some req
    \<and> al_id r = next_audit_id (audit_logs d) \<and> al_chain r = chain_key ev
    \<and> al_prev r = head_hash (chain_key ev) (audit_logs d)
    \<and> al_hash r = e_sha e (al_prev r @ canonicalPayload (stamped e ev) (json_marshal (ev_meta ev)))
    \<and> al_account r = acc \<and> al_ip r = ip \<and> al_request r = req
    \<and> row_event r = (stamped e ev)\<lparr>ev_account := acc, ev_ip := value_or_empty ip,
                        ev_request := req, ev_meta := e_jsonb e (ev_meta ev)\<rparr>
    \<and> al_meta r = e_jsonb e (ev_meta ev)"
proof -
  define sev where "sev = stamped e ev"
  define prev where "prev = head_hash (chain_key ev) (audit_logs d)"
  define h where "h = e_sha e (prev @ canonicalPayload sev (json_marshal (ev_meta ev)))"
  have ins: "insert_audit e sev (chain_key ev) prev h d = (Inr (), d')"
    and val: "validate_event ev = Inr ()"
    using assms
    by (auto simp: Write_def Let_def stamped_def [symmetric] sev_def [symmetric] h_def prev_def
             split: sum.splits prod.splits if_splits)
       (auto simp: sev_def)
  show ?thesis
    using ins val
    by (auto simp: insert_audit_def sev_def prev_def h_def row_event_def
             split: if_splits option.splits)
qed

text \<open>A failed \<open>Write\<close> leaves no trace; a successful one appends exactly one row.\<close>

lemma Write_error: "Write e ev d = (Inl err, d') \<Longrightarrow> d' = d"
  by (auto simp: Write_def insert_audit_def Let_def split: sum.splits prod.splits if_splits option.splits)

section \<open>Injectivity of the payload\<close>

definition plain_char :: "char \<Rightarrow> bool" where
  "plain_char c = (is_digit c \<or> c \<in> {CHR ''-'', CHR '':'', CHR ''T'', CHR ''.'', CHR ''Z''})"

lemma plain_char_esc: "plain_char c \<Longrightarrow> byte c < 128 \<and> esc_ascii c = [c] \<and> c \<noteq> CHR 0x22"
  by (auto simp: plain_char_def is_digit_def esc_ascii_def Let_def byte_def)

lemma json_esc_plain: "list_all plain_char s \<Longrightarrow> json_esc s = s"
  by (induction s) (auto simp: json_esc.simps(2) plain_char_esc)

lemma pad_plain: "list_all plain_char (pad w n)"
  using nat_dec_digits [of "nat n"]
  by (auto simp: pad_def Let_def list_all_iff plain_char_def is_digit_def byte_def)

lemma rfc3339_plain: "list_all plain_char (rfc3339_nano t)"
proof -
  have "list_all plain_char (fraction us)" for us
    using pad_plain [of 6 us]
    by (auto simp: fraction_def list_all_iff plain_char_def [of "CHR ''.''"] dest: set_dropWhileD)
  then show ?thesis
    using pad_plain by (auto simp: rfc3339_nano_def Let_def plain_char_def split: prod.split)
qed

lemma last_quote:
  assumes "q \<notin> set t" "q \<notin> set t'" "xs @ q # t = ys @ q # t'"
  shows "xs = ys \<and> t = t'"
proof -
  have "rev t @ q # rev xs = rev t' @ q # rev ys"
    using arg_cong [OF assms(3), of rev] by simp
  moreover have "takeWhile (\<lambda>c. c \<noteq> q) (rev u @ q # v) = rev u" if "q \<notin> set u" for u v
    by (subst takeWhile_append2) (use that in auto)
  ultimately have "rev t = rev t'" using assms(1,2) by metis
  then show ?thesis using assms(3) by simp
qed

definition opt_utf8 :: "string option \<Rightarrow> bool" where
  "opt_utf8 x = (case x of None \<Rightarrow> True | Some s \<Rightarrow> valid_utf8 s)"

lemma opt_utf8_iff: "opt_utf8 x \<longleftrightarrow> (\<forall>s. x = Some s \<longrightarrow> valid_utf8 s)"
  by (auto simp: opt_utf8_def split: option.split)

definition texts_ok :: "event \<Rightarrow> bool" where
  "texts_ok ev =
     (opt_utf8 (ev_account ev) \<and> valid_utf8 (ev_actor_type ev)
      \<and> valid_utf8 (ev_actor ev) \<and> valid_utf8 (ev_action ev) \<and> valid_utf8 (ev_resource_type ev)
      \<and> valid_utf8 (ev_resource ev) \<and> valid_utf8 (ev_ip ev) \<and> valid_utf8 (ev_agent ev)
      \<and> opt_utf8 (ev_request ev))"

definition same_content :: "event \<Rightarrow> string \<Rightarrow> event \<Rightarrow> string \<Rightarrow> bool" where
  "same_content a m b n =
     (ev_account a = ev_account b \<and> ev_actor_type a = ev_actor_type b \<and> ev_actor a = ev_actor b
      \<and> ev_action a = ev_action b \<and> ev_resource_type a = ev_resource_type b
      \<and> ev_resource a = ev_resource b \<and> ev_ip a = ev_ip b \<and> ev_agent a = ev_agent b
      \<and> ev_request a = ev_request b \<and> m = n
      \<and> rfc3339_nano (ev_created a) = rfc3339_nano (ev_created b))"

lemma json_string_append_iff:
  "valid_utf8 s \<Longrightarrow> valid_utf8 t \<Longrightarrow> json_string s @ x = json_string t @ y \<longleftrightarrow> s = t \<and> x = y"
  using json_string_prefix_free by blast

lemma json_opt_append_iff:
  "(\<forall>x. s = Some x \<longrightarrow> valid_utf8 x) \<Longrightarrow> (\<forall>x. t = Some x \<longrightarrow> valid_utf8 x) \<Longrightarrow>
   json_opt s @ x = json_opt t @ y \<longleftrightarrow> s = t \<and> x = y"
  using json_opt_prefix_free by blast

lemma payload_tail_iff:
  "m @ CHR '','' # json_string ''created_at'' @ CHR '':'' # json_string (rfc3339_nano t) @ ''}''
     = n @ CHR '','' # json_string ''created_at'' @ CHR '':'' # json_string (rfc3339_nano u) @ ''}''
   \<longleftrightarrow> m = n \<and> rfc3339_nano t = rfc3339_nano u" (is "?l = ?r \<longleftrightarrow> _")
proof
  let ?k = "CHR '','' # json_string ''created_at'' @ [CHR '':'']"
  assume eq: "?l = ?r"
  have q: "CHR 0x22 \<notin> set (rfc3339_nano v)" for v
    using rfc3339_plain [of v] plain_char_esc by (auto simp: list_all_iff)
  have js: "json_string (rfc3339_nano v) = CHR 0x22 # rfc3339_nano v @ [CHR 0x22]" for v
    by (simp add: json_string_def json_esc_plain rfc3339_plain)
  have "(m @ ?k) @ CHR 0x22 # rfc3339_nano t = (n @ ?k) @ CHR 0x22 # rfc3339_nano u"
    using eq by (simp add: js)
  then show "m = n \<and> rfc3339_nano t = rfc3339_nano u"
    using last_quote [OF q q] by (metis append_same_eq)
qed simp

lemma payload_inj:
  assumes ok: "texts_ok a" "texts_ok b" and eq: "canonicalPayload a m = canonicalPayload b n"
  shows "same_content a m b n"
  using eq ok unfolding canonicalPayload_def field_def texts_ok_def opt_utf8_iff same_content_def
  by (simp add: json_string_append_iff json_opt_append_iff payload_tail_iff)

section \<open>Properties\<close>

lemma reproducible_row:
  assumes "reproducible e ev" and "row_event r = (stamped e ev)\<lparr>ev_account := acc,
      ev_ip := value_or_empty ip, ev_request := req, ev_meta := e_jsonb e (ev_meta ev)\<rparr>"
    and "cast_opt (e_uuid e) (ev_account ev) = Some acc"
    and "cast_opt (e_inet e) (nullif_empty (ev_ip ev)) = Some ip"
    and "cast_opt (e_uuid e) (ev_request ev) = Some req" and "al_meta r = e_jsonb e (ev_meta ev)"
  shows "row_payload r = canonicalPayload (stamped e ev) (json_marshal (ev_meta ev))"
proof -
  have "acc = ev_account ev" "req = ev_request ev" "value_or_empty ip = ev_ip ev"
    using assms(1,3-5)
    by (auto simp: reproducible_def cast_opt_def nullif_empty_def value_or_empty_def
             split: option.splits if_splits)
  then show ?thesis
    using assms(1,2,6) by (simp add: row_payload_def canonicalPayload_def reproducible_def)
qed

lemma audit_inv_append:
  assumes inv: "audit_inv e d" and id: "al_id r = next_audit_id (audit_logs d)"
    and prev: "al_prev r = head_hash (al_chain r) (audit_logs d)"
    and hash: "al_hash r = e_sha e (al_prev r @ row_payload r)"
  shows "audit_inv e (d\<lparr>audit_logs := audit_logs d @ [r]\<rparr>)"
proof -
  have s: "audit_sorted (audit_logs d)" using inv by (simp add: audit_inv_def)
  have "audit_sorted (audit_logs d @ [r])"
    using s next_audit_id_gt [of _ "audit_logs d"] id
    by (force simp: audit_sorted_def sorted_append)
  moreover have "linked e [] (chain_rows key (audit_logs d @ [r]))" for key
    using inv prev hash
    by (auto simp: chain_rows_append [OF s id] audit_inv_def linked_append head_hash_last)
  ultimately show ?thesis by (simp add: audit_inv_def)
qed

lemma linked_sha: "e_sha e' = e_sha e \<Longrightarrow> linked e' prev rs = linked e prev rs"
  by (induction rs arbitrary: prev) auto

lemma chain_key_trim: "trim_space (chain_key ev) = chain_key ev" "chain_key ev \<noteq> []"
proof -
  have "trim_space ''global'' = ''global''" by code_simp
  then show "trim_space (chain_key ev) = chain_key ev" "chain_key ev \<noteq> []"
    by (auto simp: chain_key_def split: option.split)
qed

lemma Write_keeps:
  assumes inv: "audit_inv e d" and rep: "reproducible e ev"
  shows "audit_inv e (snd (Write e ev d))"
proof (cases "Write e ev d")
  case (Pair x d')
  show ?thesis
  proof (cases x)
    case (Inl err)
    then show ?thesis using Write_error [of e ev d err d'] Pair inv by simp
  next
    case (Inr u)
    then have w: "Write e ev d = (Inr (), d')" using Pair by simp
    obtain r acc ip req where d': "d' = d\<lparr>audit_logs := audit_logs d @ [r]\<rparr>"
      and c: "cast_opt (e_uuid e) (ev_account ev) = Some acc"
        "cast_opt (e_inet e) (nullif_empty (ev_ip ev)) = Some ip"
        "cast_opt (e_uuid e) (ev_request ev) = Some req"
      and r: "al_id r = next_audit_id (audit_logs d)" "al_chain r = chain_key ev"
        "al_prev r = head_hash (chain_key ev) (audit_logs d)"
        "al_hash r = e_sha e (al_prev r @ canonicalPayload (stamped e ev) (json_marshal (ev_meta ev)))"
        "row_event r = (stamped e ev)\<lparr>ev_account := acc, ev_ip := value_or_empty ip,
           ev_request := req, ev_meta := e_jsonb e (ev_meta ev)\<rparr>"
        "al_meta r = e_jsonb e (ev_meta ev)"
      using WriteD [OF w] by blast
    have "row_payload r = canonicalPayload (stamped e ev) (json_marshal (ev_meta ev))"
      by (rule reproducible_row [OF rep r(5) c r(6)])
    then have "audit_inv e d'"
      unfolding d' by (intro audit_inv_append [OF inv r(1)]) (simp_all add: r)
    then show ?thesis by (simp add: w)
  qed
qed

text \<open>The log over time: writes of any events, failed ones included, each in its own environment, and
  requests that do not touch the log.\<close>

inductive audit_step :: "(bytes \<Rightarrow> bytes) \<Rightarrow> db \<Rightarrow> db \<Rightarrow> bool" for sha where
  logged: "e_sha e = sha \<Longrightarrow> reproducible e ev \<Longrightarrow> audit_step sha d (snd (Write e ev d))"
| other: "audit_logs d' = audit_logs d \<Longrightarrow> audit_step sha d d'"

definition keyed :: "db \<Rightarrow> bool" where
  "keyed d = list_all (\<lambda>r. trim_space (al_chain r) = al_chain r \<and> al_chain r \<noteq> []) (audit_logs d)"

lemma Write_keyed: "keyed d \<Longrightarrow> keyed (snd (Write e ev d))"
proof (cases "Write e ev d")
  case (Pair x d')
  assume k: "keyed d"
  show ?thesis
  proof (cases x)
    case (Inl err)
    then show ?thesis using Write_error [of e ev d err d'] Pair k by simp
  next
    case (Inr u)
    then have w: "Write e ev d = (Inr (), d')" using Pair by simp
    obtain r where "d' = d\<lparr>audit_logs := audit_logs d @ [r]\<rparr>" "al_chain r = chain_key ev"
      using WriteD [OF w] by blast
    then show ?thesis using k w chain_key_trim [of ev] by (simp add: keyed_def)
  qed
qed

lemma audit_inv_sha: "e_sha e' = e_sha e \<Longrightarrow> audit_inv e' d = audit_inv e d"
  unfolding audit_inv_def by (metis linked_sha)

lemma audit_steps_inv:
  assumes "(audit_step (e_sha e))\<^sup>*\<^sup>* d d'" "audit_inv e d" "keyed d"
  shows "audit_inv e d' \<and> keyed d'"
  using assms
proof (induction rule: rtranclp_induct)
  case (step d1 d2)
  then have inv: "audit_inv e d1" "keyed d1" by simp_all
  from step(2) show ?case
  proof (cases rule: audit_step.cases)
    case (logged e' ev)
    have "audit_inv e' d1" using audit_inv_sha [OF logged(2)] inv(1) by blast
    then have "audit_inv e' d2" unfolding logged(1) by (rule Write_keeps [OF _ logged(3)])
    then have "audit_inv e d2" using audit_inv_sha [OF logged(2)] by blast
    moreover have "keyed d2" unfolding logged(1) by (rule Write_keyed [OF inv(2)])
    ultimately show ?thesis ..
  next
    case other
    then show ?thesis using inv by (simp add: audit_inv_def keyed_def)
  qed
qed simp

lemma verify_keys_all:
  assumes "\<And>k. k \<in> set ks \<Longrightarrow> trim_space k = k \<and> k \<noteq> [] \<and> linked e [] (chain_rows k (audit_logs d))"
    "\<not> e_fail e ''VerifyChain''"
  shows "\<exists>vs. verify_keys e d ks = Inr vs \<and> map vr_chain vs = ks
    \<and> list_all (\<lambda>v. vr_entries v = int (length (chain_rows (vr_chain v) (audit_logs d)))
        \<and> vr_head v = hex_encode (head_hash (vr_chain v) (audit_logs d))) vs"
  using assms(1)
proof (induction ks)
  case (Cons k ks)
  have k: "trim_space k = k" "k \<noteq> []" "linked e [] (chain_rows k (audit_logs d))" using Cons.prems by simp_all
  obtain v where v: "verify_rows e k (chain_rows k (audit_logs d)) []
      \<lparr>vr_chain = k, vr_entries = 0, vr_first = 0, vr_last = 0, vr_head = []\<rparr> = Inr v"
    using verify_rows_iff k(3) by blast
  then have "VerifyChain e k d = Inr v" by (simp add: VerifyChain_def k(1,2) assms(2) Let_def)
  moreover obtain vs where "verify_keys e d ks = Inr vs" "map vr_chain vs = ks"
      "list_all (\<lambda>v. vr_entries v = int (length (chain_rows (vr_chain v) (audit_logs d)))
        \<and> vr_head v = hex_encode (head_hash (vr_chain v) (audit_logs d))) vs"
    using Cons.IH Cons.prems by auto
  ultimately show ?case using verify_rows_result [OF v] by (simp add: head_hash_last)
qed simp

text \<open>C23: The writer's log verifies: from an empty log, whatever events were written to whatever chains, with
  failures and other requests in between, \<open>VerifyAll\<close> accepts every chain, and reports for each, in
  the order of their keys, its number of entries and its last hash.  This is for events that the
  database returns as they were written: canonical ids and addresses, and metadata whose JSON text
  survives a jsonb column; the next theorem shows that it fails for another spelling of an id.
\<close>

theorem audit_write_verifies:
  assumes start: "audit_logs d0 = []" and run: "(audit_step (e_sha e))\<^sup>*\<^sup>* d0 d"
    and up: "\<not> e_fail e ''VerifyAll''" "\<not> e_fail e ''VerifyChain''"
  shows "\<exists>vs. VerifyAll e d = Inr vs \<and> map vr_chain vs = sort (remdups (map al_chain (audit_logs d)))
    \<and> list_all (\<lambda>v. vr_entries v = int (length (filter (\<lambda>r. al_chain r = vr_chain v) (audit_logs d)))
        \<and> vr_head v = hex_encode (head_hash (vr_chain v) (audit_logs d))) vs"
proof -
  have "audit_inv e d0" "keyed d0"
    using start by (simp_all add: audit_inv_def audit_sorted_def chain_rows_def keyed_def)
  then have inv: "audit_inv e d" "keyed d" using audit_steps_inv [OF run] by simp_all
  have len: "length (chain_rows k rows) = length (filter (\<lambda>r. al_chain r = k) rows)" for k rows
    by (simp add: chain_rows_def)
  have "trim_space k = k \<and> k \<noteq> [] \<and> linked e [] (chain_rows k (audit_logs d))"
    if "k \<in> set (sort (remdups (map al_chain (audit_logs d))))" for k
    using that inv by (auto simp: audit_inv_def keyed_def list_all_iff)
  from verify_keys_all [of "sort (remdups (map al_chain (audit_logs d)))", OF this up(2)] show ?thesis by (simp add: VerifyAll_def up(1) len)
qed

definition row_same :: "audit_row \<Rightarrow> audit_row \<Rightarrow> bool" where
  "row_same r s =
     same_content (row_event r) (json_marshal (al_meta r)) (row_event s) (json_marshal (al_meta s))"

text \<open>The text an entry's digest is taken of, and two entries whose texts differ but not the digests.\<close>

definition hashed :: "audit_row \<Rightarrow> bytes" where
  "hashed r = al_prev r @ row_payload r"

definition clash :: "(bytes \<Rightarrow> bytes) \<Rightarrow> audit_row list \<Rightarrow> audit_row list \<Rightarrow> bool" where
  "clash h rs ss = list_ex (\<lambda>r. list_ex (\<lambda>s. hashed r \<noteq> hashed s \<and> h (hashed r) = h (hashed s)) ss) rs"

lemma clash_Cons: "\<not> clash h (r # rs) (s # ss) \<Longrightarrow> \<not> clash h rs ss \<and> (h (hashed r) = h (hashed s) \<longrightarrow> hashed r = hashed s)"
  by (auto simp: clash_def list_ex_iff)

lemma linked_content:
  assumes "linked e prev rs" "linked e prev' ss" "length rs = length ss"
    and "last_hash prev rs = last_hash prev' ss" and "rs \<noteq> []"
    and "length prev = length prev'" and len: "\<And>x y. length (e_sha e x) = length (e_sha e y)"
    and "\<forall>r \<in> set rs \<union> set ss. texts_ok (row_event r)" and "\<not> clash (e_sha e) rs ss"
  shows "list_all2 row_same rs ss \<and> prev = prev'"
  using assms(1-6,8,9)
proof (induction rs arbitrary: prev prev' ss)
  case (Cons r rs)
  obtain s ss' where ss: "ss = s # ss'" using Cons.prems(3) by (cases ss) auto
  have h: "al_hash r = e_sha e (hashed r)" "al_hash s = e_sha e (hashed s)" "al_prev r = prev" "al_prev s = prev'"
    using Cons.prems(1,2) ss by (auto simp: hashed_def)
  note nc = clash_Cons [OF Cons.prems(8) [unfolded ss]]
  have "list_all2 row_same rs ss' \<and> al_hash r = al_hash s"
  proof (cases "rs = []")
    case True
    then show ?thesis using Cons.prems(3,4) ss by (auto simp: last_hash_def)
  next
    case False
    show ?thesis
    proof (rule Cons.IH)
      show "length (al_hash r) = length (al_hash s)" using h len by metis
    qed (use Cons.prems False ss nc in \<open>auto simp: last_hash_def split: if_splits\<close>)
  qed
  moreover from this have "prev @ row_payload r = prev' @ row_payload s"
    using h nc by (simp add: hashed_def)
  then have "prev = prev'" "row_payload r = row_payload s"
    using Cons.prems(6) by simp_all
  moreover from this have "row_same r s"
    using Cons.prems(7) payload_inj unfolding ss row_payload_def row_same_def by auto
  ultimately show ?case using ss by simp
qed simp

text \<open>C24: The log is tamper-evident: if two states of the log both verify for a chain, with the same
  number of entries and the same head hash in the report, then the entries say the same, field by
  field, unless the two chains themselves hold two entries whose hashed texts differ but have the
  same digest.  Digests have a fixed length, and the texts of the log are UTF-8, as the database
  stores them.
\<close>

theorem audit_tamper_evident:
  assumes v: "VerifyChain e key d = Inr v" "VerifyChain e key d' = Inr v'"
    and same: "vr_entries v = vr_entries v'" "vr_head v = vr_head v'"
    and len: "\<And>x y. length (e_sha e x) = length (e_sha e y)"
    and texts: "\<forall>r \<in> set (audit_logs d) \<union> set (audit_logs d'). texts_ok (row_event r)"
    and no_clash: "\<not> clash (e_sha e) (chain_rows (trim_space key) (audit_logs d)) (chain_rows (trim_space key) (audit_logs d'))"
  shows "list_all2 row_same (chain_rows (trim_space key) (audit_logs d))
           (chain_rows (trim_space key) (audit_logs d'))"
proof (cases "chain_rows (trim_space key) (audit_logs d) = []")
  case True
  then show ?thesis
    using same(1) VerifyChain_linked(3) [OF v(1)] VerifyChain_linked(3) [OF v(2)] by auto
next
  case False
  have hd: "last_hash [] (chain_rows (trim_space key) (audit_logs d))
      = last_hash [] (chain_rows (trim_space key) (audit_logs d'))"
    using same(2) VerifyChain_linked(2) [OF v(1)] VerifyChain_linked(2) [OF v(2)]
    by (simp add: hex_encode_inj)
  have "set (chain_rows k rows) \<subseteq> set rows" for k rows by (auto simp: chain_rows_def)
  then have "\<forall>r \<in> set (chain_rows (trim_space key) (audit_logs d)) \<union> set (chain_rows (trim_space key) (audit_logs d')).
      texts_ok (row_event r)"
    using texts by blast
  moreover have "length (chain_rows (trim_space key) (audit_logs d)) = length (chain_rows (trim_space key) (audit_logs d'))"
    using same(1) VerifyChain_linked(3) [OF v(1)] VerifyChain_linked(3) [OF v(2)] by simp
  ultimately show ?thesis
    using linked_content [OF VerifyChain_linked(1) [OF v(1)] VerifyChain_linked(1) [OF v(2)] _ hd False _ len _ no_clash]
    by blast
qed

text \<open>An event whose account id is written in another spelling than the server's own
  (an upper-case UUID) breaks its chain: the row stores the canonical id while the hash
  covers the raw one, so \<open>VerifyChain\<close> fails from then on, unless the text that was hashed and the
  text of the stored row, which differ, have the same digest.\<close>

lemma audit_noncanonical_account_breaks:
  assumes inv: "audit_inv e d" and w: "Write e ev d = (Inr (), d')"
    and acc: "ev_account ev = Some a" "e_uuid e a = Some b" "a \<noteq> b" "valid_utf8 b"
    and e': "e_sha e' = e_sha e"
    and texts: "texts_ok (stamped e ev)" "valid_utf8 (value_or_empty (e_inet e (ev_ip ev)))"
      "\<forall>q. ev_request ev = Some q \<longrightarrow> valid_utf8 (value_or_empty (e_uuid e q))"
  shows "\<exists>r. last (audit_logs d') = r
    \<and> (let written = al_prev r @ canonicalPayload (stamped e ev) (json_marshal (ev_meta ev))
       in written \<noteq> hashed r
         \<and> ((\<exists>err. VerifyChain e' (chain_key ev) d' = Inl err) \<or> e_sha e written = e_sha e (hashed r)))"
proof -
  obtain r ac ip req where d': "d' = d\<lparr>audit_logs := audit_logs d @ [r]\<rparr>"
    and c: "cast_opt (e_uuid e) (ev_account ev) = Some ac"
      "cast_opt (e_inet e) (nullif_empty (ev_ip ev)) = Some ip"
      "cast_opt (e_uuid e) (ev_request ev) = Some req"
    and r: "al_id r = next_audit_id (audit_logs d)" "al_chain r = chain_key ev"
      "al_prev r = head_hash (chain_key ev) (audit_logs d)"
      "al_hash r = e_sha e (al_prev r @ canonicalPayload (stamped e ev) (json_marshal (ev_meta ev)))"
      "row_event r = (stamped e ev)\<lparr>ev_account := ac, ev_ip := value_or_empty ip,
         ev_request := req, ev_meta := e_jsonb e (ev_meta ev)\<rparr>"
    using WriteD [OF w] by blast
  let ?w = "al_prev r @ canonicalPayload (stamped e ev) (json_marshal (ev_meta ev))"
  have ac: "ac = Some b" using c(1) acc by (simp add: cast_opt_def)
  have ok: "texts_ok (row_event r)"
    using texts acc(4) c(2,3) ac unfolding r(5)
    by (auto simp: texts_ok_def opt_utf8_def cast_opt_def nullif_empty_def value_or_empty_def
             split: option.splits if_splits)
  have "canonicalPayload (row_event r) (json_marshal (al_meta r)) \<noteq> canonicalPayload (stamped e ev) (json_marshal (ev_meta ev))"
    using payload_inj [OF ok texts(1)] acc ac unfolding r(5) by (auto simp: same_content_def)
  then have ne: "?w \<noteq> hashed r" by (simp add: hashed_def row_payload_def)
  have "e_sha e ?w = e_sha e (hashed r)" if v: "VerifyChain e' (chain_key ev) d' = Inr v" for v
  proof -
    have "linked e' [] (chain_rows (chain_key ev) (audit_logs d'))"
      using VerifyChain_linked(1) [OF v] by (simp add: chain_key_trim)
    then have "linked e [] (chain_rows (chain_key ev) (audit_logs d) @ [r])"
      using chain_rows_append [OF _ r(1)] inv r(2)
      by (simp add: d' audit_inv_def linked_sha [OF e'])
    then show ?thesis using r(4) by (metis hashed_def linked.simps(2) linked_append)
  qed
  then have "(\<exists>err. VerifyChain e' (chain_key ev) d' = Inl err) \<or> e_sha e ?w = e_sha e (hashed r)"
    by (cases "VerifyChain e' (chain_key ev) d'") auto
  then show ?thesis using ne by (simp add: d' Let_def)
qed

section \<open>Witnesses\<close>

definition demo_audit_env :: env where
  "demo_audit_env = demo_env\<lparr>e_sha := (\<lambda>s. take 4 (s @ ''0000'')), e_uuid := (\<lambda>s. Some (to_lower s))\<rparr>"

definition demo_event :: "string \<Rightarrow> event" where
  "demo_event a =
     \<lparr>ev_account = Some a, ev_actor_type = ''MCP'', ev_actor = ''c1'', ev_action = ''READ'',
      ev_resource_type = ''chat'', ev_resource = [], ev_ip = [], ev_agent = [],
      ev_request = None, ev_meta = JObj [], ev_created = 1\<rparr>"

definition demo_log :: "string \<Rightarrow> db" where
  "demo_log a = snd (Write demo_audit_env (demo_event a) demo_db)"

lemma demo_audit_inv: "audit_inv demo_audit_env demo_db"
  by (simp add: audit_inv_def audit_sorted_def chain_rows_def demo_db_def empty_db_def)

lemma demo_write:
  assumes "a = ''a1'' \<or> a = ''A1''"
  shows "Write demo_audit_env (demo_event a) demo_db = (Inr (), demo_log a)"
proof -
  have b: "\<not> blank ''READ''" "\<not> blank ''chat''" by code_simp+
  have l: "to_lower ''a1'' = ''a1''" "to_lower ''A1'' = ''a1''" by code_simp+
  have "fst (Write demo_audit_env (demo_event a) demo_db) = Inr ()"
    using b l assms
    by (auto simp: Write_def validate_event_def insert_audit_def cast_opt_def nullif_empty_def
        demo_event_def demo_audit_env_def demo_defs demo_env_def actor_types_def Let_def zero_time_def)
  then show ?thesis by (simp add: demo_log_def prod_eq_iff)
qed

lemma demo_reproducible: "reproducible demo_audit_env (demo_event ''a1'')"
proof -
  have "to_lower ''a1'' = ''a1''" by code_simp
  then show ?thesis
    by (simp add: reproducible_def demo_event_def demo_audit_env_def demo_env_def)
qed

lemma demo_chain: "chain_key (demo_event ''a1'') = ''a1''" "chain_key (demo_event ''A1'') = ''A1''"
  by code_simp+

lemma demo_log_run: "(audit_step (e_sha demo_audit_env))\<^sup>*\<^sup>* demo_db (demo_log ''a1'')"
  unfolding demo_log_def by (intro r_into_rtranclp audit_step.logged demo_reproducible refl)

lemma demo_audit_up: "\<not> e_fail demo_audit_env ''VerifyAll''" "\<not> e_fail demo_audit_env ''VerifyChain''"
  by (simp_all add: demo_audit_env_def demo_env_def)

lemma demo_log_rows:
  "audit_logs (demo_log ''a1'') =
     [\<lparr>al_id = 1, al_chain = ''a1'', al_account = Some ''a1'', al_actor_type = ''MCP'',
       al_actor_id = Some ''c1'', al_action = ''READ'', al_resource_type = ''chat'',
       al_resource_id = None, al_ip = None, al_agent = None, al_request = None,
       al_meta = JObj [], al_prev = [], al_hash = CHR 0x7B # CHR 0x22 # ''ac'', al_created = 1\<rparr>]"
  by code_simp

theorem audit_write_verifies_witness:
  "\<exists>vs. VerifyAll demo_audit_env (demo_log ''a1'') = Inr vs \<and> map vr_chain vs = [''a1''] \<and> map vr_entries vs = [1]"
proof -
  have "audit_logs demo_db = []" by (simp add: demo_db_def empty_db_def)
  from audit_write_verifies [OF this demo_log_run demo_audit_up]
  show ?thesis by (auto simp: demo_log_rows)
qed

lemma demo_verified: "\<exists>v. VerifyChain demo_audit_env ''a1'' (demo_log ''a1'') = Inr v"
proof -
  have "audit_inv demo_audit_env (demo_log ''a1'')"
    using Write_keeps [OF demo_audit_inv demo_reproducible] by (simp add: demo_log_def)
  moreover have "trim_space ''a1'' = ''a1''" by code_simp
  ultimately show ?thesis
    using verify_rows_iff demo_audit_up(2) by (simp add: VerifyChain_def Let_def audit_inv_def)
qed

theorem audit_tamper_evident_witness:
  "list_all2 row_same (chain_rows ''a1'' (audit_logs (demo_log ''a1''))) (chain_rows ''a1'' (audit_logs (demo_log ''a1'')))
   \<and> length (chain_rows ''a1'' (audit_logs (demo_log ''a1''))) = 1"
proof -
  obtain v where v: "VerifyChain demo_audit_env ''a1'' (demo_log ''a1'') = Inr v" using demo_verified by blast
  have "\<forall>r \<in> set (audit_logs (demo_log ''a1'')). texts_ok (row_event r)"
    unfolding demo_log_rows by code_simp
  moreover have "length (e_sha demo_audit_env x) = length (e_sha demo_audit_env y)" for x y
    by (simp add: demo_audit_env_def)
  moreover have "trim_space ''a1'' = ''a1''" by code_simp
  moreover have one: "length (chain_rows ''a1'' (audit_logs (demo_log ''a1''))) = 1"
    by (simp add: chain_rows_def demo_log_rows)
  moreover have "\<not> clash h (chain_rows ''a1'' (audit_logs (demo_log ''a1''))) (chain_rows ''a1'' (audit_logs (demo_log ''a1'')))" for h
    using one by (cases "chain_rows ''a1'' (audit_logs (demo_log ''a1''))") (simp_all add: clash_def)
  ultimately show ?thesis
    using audit_tamper_evident [OF v v refl refl] by simp
qed

lemma audit_noncanonical_account_breaks_witness:
  "\<exists>r. last (audit_logs (demo_log ''A1'')) = r \<and> al_account r = Some ''a1''
    \<and> ((\<exists>err. VerifyChain demo_audit_env ''A1'' (demo_log ''A1'') = Inl err) \<or> e_sha demo_audit_env (hashed r) = al_hash r)"
proof -
  have "ev_account (demo_event ''A1'') = Some ''A1''" by (simp add: demo_event_def)
  moreover have "e_uuid demo_audit_env ''A1'' = Some ''a1''" by code_simp
  moreover have "valid_utf8 ''a1''" by code_simp
  moreover have "texts_ok (stamped demo_audit_env (demo_event ''A1''))" by code_simp
  moreover have "valid_utf8 (value_or_empty (e_inet demo_audit_env (ev_ip (demo_event ''A1''))))"
    by code_simp
  moreover have "ev_request (demo_event ''A1'') = None" by (simp add: demo_event_def)
  moreover have "al_account (last (audit_logs (demo_log ''A1''))) = Some ''a1''
      \<and> al_hash (last (audit_logs (demo_log ''A1''))) = e_sha demo_audit_env (al_prev (last (audit_logs (demo_log ''A1'')))
          @ canonicalPayload (stamped demo_audit_env (demo_event ''A1'')) (json_marshal (ev_meta (demo_event ''A1''))))"
    by code_simp
  ultimately show ?thesis
    using audit_noncanonical_account_breaks [OF demo_audit_inv demo_write, of "''A1''" "''A1''" "''a1''"]
    by (auto simp: demo_chain Let_def)
qed

end
