(* ===== verification/JsonText.thy ===== *)
theory JsonText
  imports Json
begin

text \<open>
  Reading JSON as \<open>encoding/json\<close> does: a parser for the text of a value, and the decoding
  of a value into the fields of a Go struct (keys match without regard to case, a later
  member overrides an earlier one, null leaves a field as it is, a value of the wrong type is
  an error).  The decoder's limit of 10000 nested values is not modelled.
\<close>

section \<open>String literals\<close>

definition utf8_encode :: "nat \<Rightarrow> string" where  \<comment> \<open>utf8.AppendRune; an invalid rune is U+FFFD\<close>
  "utf8_encode r =
     (let r = (if 1114111 < r \<or> (55296 \<le> r \<and> r \<le> 57343) then 65533 else r) in
      if r < 128 then [char_of r]
      else if r < 2048 then [char_of (192 + r div 64), char_of (128 + r mod 64)]
      else if r < 65536
        then [char_of (224 + r div 4096), char_of (128 + r div 64 mod 64), char_of (128 + r mod 64)]
      else [char_of (240 + r div 262144), char_of (128 + r div 4096 mod 64),
            char_of (128 + r div 64 mod 64), char_of (128 + r mod 64)])"

definition hex_digit :: "char \<Rightarrow> nat option" where
  "hex_digit c =
     (let b = byte c in
      if 48 \<le> b \<and> b \<le> 57 then Some (b - 48)
      else if 97 \<le> b \<and> b \<le> 102 then Some (b - 87)
      else if 65 \<le> b \<and> b \<le> 70 then Some (b - 55)
      else None)"

definition hex4 :: "string \<Rightarrow> nat option" where
  "hex4 s =
     (case s of
        a # b # c # d # _ \<Rightarrow>
          (case (hex_digit a, hex_digit b, hex_digit c, hex_digit d) of
             (Some w, Some x, Some y, Some z) \<Rightarrow> Some (((w * 16 + x) * 16 + y) * 16 + z)
           | _ \<Rightarrow> None)
      | _ \<Rightarrow> None)"

text \<open>
  After a \<open>\u\<close> escape: the rune and how many bytes it takes.  A surrogate pair is one
  rune; a lone surrogate is U+FFFD.
\<close>

definition u_rune :: "string \<Rightarrow> (nat \<times> nat) option" where
  "u_rune s =
     (case hex4 s of
        None \<Rightarrow> None
      | Some r \<Rightarrow>
          if 55296 \<le> r \<and> r \<le> 57343 then
            (case (take 2 (drop 4 s) = [CHR 0x5C, CHR ''u''], hex4 (drop 6 s)) of
               (True, Some r2) \<Rightarrow>
                 if r \<le> 56319 \<and> 56320 \<le> r2 \<and> r2 \<le> 57343
                 then Some ((r - 55296) * 1024 + (r2 - 56320) + 65536, 10)
                 else Some (65533, 4)
             | _ \<Rightarrow> Some (65533, 4))
          else Some (r, 4))"

definition short_esc :: "char \<Rightarrow> char option" where
  "short_esc x =
     (if x \<in> {CHR 0x22, CHR 0x5C, CHR ''/''} then Some x
      else if x = CHR ''b'' then Some (CHR 0x08) else if x = CHR ''f'' then Some (CHR 0x0C)
      else if x = CHR ''n'' then Some (CHR 0x0A) else if x = CHR ''r'' then Some (CHR 0x0D)
      else if x = CHR ''t'' then Some (CHR 0x09) else None)"

text \<open>The bytes up to the closing quote, decoded, and the text after it.\<close>

fun str_body :: "nat \<Rightarrow> string \<Rightarrow> (string \<times> string) option" where
  "str_body 0 s = None"
| "str_body (Suc n) s =
     (case s of
        [] \<Rightarrow> None
      | c # cs \<Rightarrow>
          if c = CHR 0x22 then Some ([], cs)
          else if byte c < 32 then None
          else if c = CHR 0x5C then
            (case cs of
               [] \<Rightarrow> None
             | x # r \<Rightarrow>
                 if x = CHR ''u'' then
                   (case u_rune r of
                      None \<Rightarrow> None
                    | Some (rune, k) \<Rightarrow>
                        map_option (\<lambda>(t, u). (utf8_encode rune @ t, u)) (str_body n (drop k r)))
                 else (case short_esc x of
                         None \<Rightarrow> None
                       | Some y \<Rightarrow> map_option (\<lambda>(t, u). (y # t, u)) (str_body n r)))
          else (let w = utf8_seq s in
                if w = 0 then map_option (\<lambda>(t, u). (utf8_encode 65533 @ t, u)) (str_body n cs)
                else map_option (\<lambda>(t, u). (take w s @ t, u)) (str_body n (drop w s))))"

section \<open>Values\<close>

definition json_space :: "char \<Rightarrow> bool" where
  "json_space c = (byte c \<in> {9, 10, 13, 32})"

definition skip_ws :: "string \<Rightarrow> string" where
  "skip_ws s = dropWhile json_space s"

definition digits :: "string \<Rightarrow> string \<times> string" where
  "digits s = (takeWhile is_digit s, dropWhile is_digit s)"

text \<open>A number: optional minus, an integer without leading zeros, fraction, exponent.\<close>

definition scan_frac :: "string \<Rightarrow> (string \<times> string) option" where
  "scan_frac s =
     (case s of
        c # r \<Rightarrow>
          if c = CHR ''.''
          then (case digits r of (d, u) \<Rightarrow> if d = [] then None else Some (c # d, u))
          else Some ([], s)
      | [] \<Rightarrow> Some ([], []))"

definition scan_exp :: "string \<Rightarrow> (string \<times> string) option" where
  "scan_exp s =
     (case s of
        c # r \<Rightarrow>
          if c = CHR ''e'' \<or> c = CHR ''E''
          then (let sg = take 1 (takeWhile (\<lambda>x. x = CHR ''+'' \<or> x = CHR ''-'') r) in
                (case digits (drop (length sg) r) of
                   (d, u) \<Rightarrow> if d = [] then None else Some (c # sg @ d, u)))
          else Some ([], s)
      | [] \<Rightarrow> Some ([], []))"

definition scan_int :: "string \<Rightarrow> (string \<times> string) option" where
  "scan_int s =
     (case s of
        c # r \<Rightarrow>
          if c = CHR ''0'' then Some ([c], r)
          else (case digits s of (d, u) \<Rightarrow> if d = [] then None else Some (d, u))
      | [] \<Rightarrow> None)"

definition scan_number :: "string \<Rightarrow> (string \<times> string) option" where
  "scan_number s =
     (let m = takeWhile (\<lambda>c. c = CHR ''-'') (take 1 s) in
      (case scan_int (drop (length m) s) of
         None \<Rightarrow> None
       | Some (i, s1) \<Rightarrow>
           (case scan_frac s1 of
              None \<Rightarrow> None
            | Some (f, s2) \<Rightarrow>
                (case scan_exp s2 of
                   None \<Rightarrow> None
                 | Some (x, s3) \<Rightarrow> Some (m @ i @ f @ x, s3)))))"

text \<open>The fuel bounds the number of nested calls; the length of the text is enough.\<close>

fun parse_value :: "nat \<Rightarrow> string \<Rightarrow> (json \<times> string) option"
and parse_elems :: "nat \<Rightarrow> string \<Rightarrow> (json list \<times> string) option"
and parse_members :: "nat \<Rightarrow> string \<Rightarrow> ((string \<times> json) list \<times> string) option"
and parse_member :: "nat \<Rightarrow> string \<Rightarrow> ((string \<times> json) \<times> string) option" where
  "parse_value 0 s = None"
| "parse_value (Suc n) s =
     (case skip_ws s of
        [] \<Rightarrow> None
      | c # r \<Rightarrow>
          if c = CHR 0x22 then map_option (\<lambda>(t, u). (JStr t, u)) (str_body (Suc (length r)) r)
          else if c = CHR ''{'' then
            (case skip_ws r of
               [] \<Rightarrow> None
             | d # u \<Rightarrow> if d = CHR ''}'' then Some (JObj [], u)
                        else map_option (\<lambda>(m, v). (JObj m, v)) (parse_members n r))
          else if c = CHR ''['' then
            (case skip_ws r of
               [] \<Rightarrow> None
             | d # u \<Rightarrow> if d = CHR '']'' then Some (JArr [], u)
                        else map_option (\<lambda>(m, v). (JArr m, v)) (parse_elems n r))
          else if has_prefix (c # r) ''null'' then Some (JNull, drop 3 r)
          else if has_prefix (c # r) ''true'' then Some (JBool True, drop 3 r)
          else if has_prefix (c # r) ''false'' then Some (JBool False, drop 4 r)
          else map_option (\<lambda>(t, u). (JNum t, u)) (scan_number (c # r)))"
| "parse_elems 0 s = None"
| "parse_elems (Suc n) s =
     (case parse_value n s of
        None \<Rightarrow> None
      | Some (v, r) \<Rightarrow>
          (case skip_ws r of
             [] \<Rightarrow> None
           | d # u \<Rightarrow>
               if d = CHR '','' then map_option (\<lambda>(vs, w). (v # vs, w)) (parse_elems n u)
               else if d = CHR '']'' then Some ([v], u) else None))"
| "parse_members 0 s = None"
| "parse_members (Suc n) s =
     (case parse_member n s of
        None \<Rightarrow> None
      | Some (kv, r) \<Rightarrow>
          (case skip_ws r of
             [] \<Rightarrow> None
           | d # u \<Rightarrow>
               if d = CHR '','' then map_option (\<lambda>(m, w). (kv # m, w)) (parse_members n u)
               else if d = CHR ''}'' then Some ([kv], u) else None))"
| "parse_member 0 s = None"
| "parse_member (Suc n) s =
     (case skip_ws s of
        [] \<Rightarrow> None
      | q # r \<Rightarrow>
          if q \<noteq> CHR 0x22 then None
          else (case str_body (Suc (length r)) r of
                  None \<Rightarrow> None
                | Some (k, u) \<Rightarrow>
                    (case skip_ws u of
                       [] \<Rightarrow> None
                     | d # w \<Rightarrow> if d \<noteq> CHR '':'' then None
                                else map_option (\<lambda>(v, x). ((k, v), x)) (parse_value n w))))"

definition json_fuel :: "string \<Rightarrow> nat" where
  "json_fuel s = 3 * length s + 3"

text \<open>\<open>json.Unmarshal\<close> wants the whole text; \<open>Decoder.Decode\<close> reads one value.\<close>

definition unmarshal :: "string \<Rightarrow> json option" where
  "unmarshal s =
     (case parse_value (json_fuel s) s of
        None \<Rightarrow> None
      | Some (v, r) \<Rightarrow> if skip_ws r = [] then Some v else None)"

text \<open>\<open>Decode\<close> from a body cut off after \<open>limit\<close> bytes (\<open>http.MaxBytesReader\<close>).\<close>

definition decode_body :: "nat \<Rightarrow> string \<Rightarrow> json option" where
  "decode_body limit s = map_option fst (parse_value (json_fuel (take limit s)) (take limit s))"

section \<open>Struct fields\<close>

text \<open>Case folding of keys: ASCII, the long s (U+017F) and the Kelvin sign (U+212A).\<close>

fun fold_key :: "string \<Rightarrow> string" where
  "fold_key [] = []"
| "fold_key (c # s) =
     (if take 2 (c # s) = [CHR 0xC5, CHR 0xBF] then CHR ''S'' # fold_key (drop 1 s)
      else if take 3 (c # s) = [CHR 0xE2, CHR 0x84, CHR 0xAA] then CHR ''K'' # fold_key (drop 2 s)
      else ascii_upper c # fold_key s)"

fun members_of :: "json \<Rightarrow> (string \<times> json) list option" where
  "members_of (JObj m) = Some m"
| "members_of JNull = Some []"
| "members_of v = None"

definition field_value :: "(json \<Rightarrow> 'a option) \<Rightarrow> 'a \<Rightarrow> json \<Rightarrow> 'a option" where
  "field_value dec old v = (if v = JNull then Some old else dec v)"

definition struct_field ::
    "string \<Rightarrow> (json \<Rightarrow> 'a option) \<Rightarrow> 'a \<Rightarrow> (string \<times> json) list \<Rightarrow> 'a option" where
  "struct_field name dec zero m =
     foldl (\<lambda>acc (k, v). if fold_key k = fold_key name
                         then (case acc of None \<Rightarrow> None | Some old \<Rightarrow> field_value dec old v)
                         else acc)
       (Some zero) m"

definition unknown_field :: "string list \<Rightarrow> (string \<times> json) list \<Rightarrow> bool" where
  "unknown_field names m = (\<exists>kv \<in> set m. fold_key (fst kv) \<notin> fold_key ` set names)"

fun dec_str :: "json \<Rightarrow> string option" where
  "dec_str (JStr s) = Some s"
| "dec_str v = None"

fun dec_bool :: "json \<Rightarrow> bool option" where
  "dec_bool (JBool b) = Some b"
| "dec_bool v = None"

fun dec_int :: "json \<Rightarrow> int option" where
  "dec_int (JNum t) = parse_int 64 t"
| "dec_int v = None"

text \<open>A slice of strings; a null element is the empty string.\<close>

fun dec_elems :: "json list \<Rightarrow> string list option" where
  "dec_elems [] = Some []"
| "dec_elems (v # vs) =
     (case (field_value dec_str [] v, dec_elems vs) of
        (Some s, Some ss) \<Rightarrow> Some (s # ss)
      | _ \<Rightarrow> None)"

fun dec_strs :: "json \<Rightarrow> string list option" where
  "dec_strs (JArr vs) = dec_elems vs"
| "dec_strs v = None"

section \<open>Facts\<close>

lemma takeWhile_digits_append:
  assumes "list_all is_digit ds" and "s = [] \<or> \<not> is_digit (hd s)"
  shows "digits (ds @ s) = (ds, s)"
proof -
  have "takeWhile is_digit (ds @ s) = ds" "dropWhile is_digit (ds @ s) = s"
    using assms by (induction ds) (cases s; simp)+
  then show ?thesis by (simp add: digits_def)
qed

lemma nat_dec_no_zero: "nat_dec n = CHR ''0'' # r \<Longrightarrow> r = []"
proof (induction n arbitrary: r rule: nat_dec.induct)
  case (1 n)
  show ?case
  proof (cases "n < 10")
    case True
    then show ?thesis using "1.prems" by (simp add: nat_dec.simps [of n])
  next
    case False
    then have d: "nat_dec n = nat_dec (n div 10) @ [digit_char (n mod 10)]"
      by (simp add: nat_dec.simps [of n])
    obtain c cs where c: "nat_dec (n div 10) = c # cs"
      using nat_dec_nonempty by (cases "nat_dec (n div 10)") auto
    then have "c = CHR ''0''" using "1.prems" d by simp
    then have "cs = []" using "1.IH" [OF False] c by blast
    then have "dec_val (nat_dec (n div 10)) = 0"
      using c \<open>c = CHR ''0''\<close> by (simp add: dec_val_def byte_def)
    then show ?thesis using False by (simp add: dec_val_nat_dec)
  qed
qed

lemma scan_int_nat:
  assumes "s = [] \<or> \<not> is_digit (hd s)"
  shows "scan_int (nat_dec n @ s) = Some (nat_dec n, s)"
proof -
  obtain c cs where c: "nat_dec n = c # cs"
    using nat_dec_nonempty by (cases "nat_dec n") auto
  show ?thesis
  proof (cases "c = CHR ''0''")
    case True
    then have "cs = []" using nat_dec_no_zero c by blast
    then show ?thesis using True c by (simp add: scan_int_def)
  next
    case False
    have "digits ((c # cs) @ s) = (c # cs, s)"
      by (rule takeWhile_digits_append) (use assms nat_dec_digits [of n] c in simp_all)
    then show ?thesis using False c by (simp add: scan_int_def)
  qed
qed

text \<open>A printed integer is read back, whatever non-number text follows it.\<close>

lemma scan_number_itoa:
  assumes "s = [] \<or> (\<not> is_digit (hd s) \<and> hd s \<notin> set ''.eE'')"
  shows "scan_number (itoa i @ s) = Some (itoa i, s)"
proof -
  have i: "scan_int (nat_dec n @ s) = Some (nat_dec n, s)" for n
    by (rule scan_int_nat) (use assms in blast)
  have fe: "scan_frac s = Some ([], s)" "scan_exp s = Some ([], s)"
    using assms by (auto simp: scan_frac_def scan_exp_def split: list.split)
  show ?thesis
  proof (cases "i < 0")
    case True
    then show ?thesis using i fe by (simp add: scan_number_def itoa_def)
  next
    case False
    obtain c cs where c: "nat_dec (nat i) = c # cs"
      using nat_dec_nonempty by (cases "nat_dec (nat i)") auto
    then have "c \<noteq> CHR ''-''" using nat_dec_head by blast
    then show ?thesis
      using False i [of "nat i"] fe c by (simp add: scan_number_def itoa_def)
  qed
qed

lemma str_body_plain:
  assumes "list_all (\<lambda>c. 32 \<le> byte c \<and> byte c < 128 \<and> c \<noteq> CHR 0x22 \<and> c \<noteq> CHR 0x5C) t"
    and "length t < n"
  shows "str_body n (t @ CHR 0x22 # s) = Some (t, s)"
  using assms
proof (induction t arbitrary: n)
  case Nil
  then show ?case by (cases n) simp_all
next
  case (Cons c t)
  then obtain m where n: "n = Suc m" by (cases n) auto
  have "utf8_seq (c # t @ CHR 0x22 # s) = 1"
    using Cons.prems by (simp add: utf8_seq_def)
  then show ?case using Cons n by (simp add: Let_def)
qed

end
