(* ===== verification/Http.thy ===== *)
theory Http
  imports Access RateLimit AuditLog JsonText
begin

text \<open>
  Requests and responses as the handlers see them, and the helpers that all HTTP handlers of
  the API share (\<open>internal/httpserver/auth.go\<close>, the end of \<open>api.go\<close>, and
  \<open>internal/requestinfo\<close>).  A handler maps a request and the database to a response and
  the new database.
\<close>

text \<open>
  \<open>rq_form\<close> is what \<open>ParseForm\<close> leaves in \<open>r.Form\<close> (None when it fails),
  \<open>rq_basic\<close> what \<open>BasicAuth\<close> returns, \<open>rq_wild\<close> the path values of the route.
\<close>

record request =
  rq_method :: string
  rq_url :: url
  rq_host :: string
  rq_header :: "string \<Rightarrow> string"
  rq_cookie :: "string \<Rightarrow> string option"
  rq_remote :: string
  rq_body :: string
  rq_form :: "qvals option"
  rq_basic :: "(string \<times> string) option"
  rq_wild :: "string \<Rightarrow> string"

abbreviation rq_path :: "request \<Rightarrow> string" where
  "rq_path r \<equiv> u_path (rq_url r)"

definition query_get :: "request \<Rightarrow> string \<Rightarrow> string" where  \<comment> \<open>r.URL.Query().Get\<close>
  "query_get r k = q_get k (parse_query (u_raw_query (rq_url r)))"

record cookie =
  ck_name :: string
  ck_value :: string
  ck_path :: string
  ck_secure :: bool
  ck_age :: int

record response =
  rs_status :: int
  rs_body :: json
  rs_location :: "string option"
  rs_cookies :: "cookie list"
  rs_headers :: "(string \<times> string) list"

definition reply :: "int \<Rightarrow> json \<Rightarrow> response" where
  "reply status v =
     \<lparr>rs_status = status, rs_body = v, rs_location = None, rs_cookies = [], rs_headers = []\<rparr>"

definition reply_error :: "int \<Rightarrow> string \<Rightarrow> response" where  \<comment> \<open>writeError, fail, failure\<close>
  "reply_error status m = reply status (JObj [(''error'', JStr m)])"

definition redirect_to :: "int \<Rightarrow> string \<Rightarrow> response" where
  "redirect_to status loc = (reply status JNull)\<lparr>rs_location := Some loc\<rparr>"

definition jstrs :: "string list \<Rightarrow> json" where
  "jstrs ss = JArr (map JStr ss)"

definition jint :: "int \<Rightarrow> json" where
  "jint i = JNum (itoa i)"

lemma reply_sel [simp]:
  "rs_status (reply s v) = s" "rs_status (reply_error s m) = s" "rs_status (redirect_to s l) = s"
  "rs_location (reply s v) = None" "rs_location (reply_error s m) = None"
  "rs_location (redirect_to s l) = Some l" "rs_cookies (reply s v) = []"
  "rs_cookies (reply_error s m) = []" "rs_cookies (redirect_to s l) = []"
  "rs_body (reply s v) = v"
  by (simp_all add: reply_def reply_error_def redirect_to_def)

section \<open>Addresses\<close>

text \<open>\<open>net.SplitHostPort\<close>: the host, or None on an error.\<close>

definition split_host :: "string \<Rightarrow> string option" where
  "split_host s =
     (case rcut (CHR '':'') s of
        None \<Rightarrow> None
      | Some (pre, port) \<Rightarrow>
          if CHR ''['' \<in> set port \<or> CHR '']'' \<in> set port then None
          else if s \<noteq> [] \<and> hd s = CHR ''['' then
            (case cut (CHR '']'') (tl s) of
               (host, rest) \<Rightarrow>
                 if pre = CHR ''['' # host @ '']'' \<and> CHR ''['' \<notin> set host then Some host else None)
          else if CHR '':'' \<in> set pre \<or> CHR ''['' \<in> set pre \<or> CHR '']'' \<in> set pre then None
          else Some pre)"

definition ClientIP :: "env \<Rightarrow> request \<Rightarrow> string" where
  "ClientIP e r =
     (let host = (case split_host (rq_remote r) of None \<Rightarrow> rq_remote r | Some h \<Rightarrow> h) in
      (case e_addr e host of
         None \<Rightarrow> host
       | Some peer \<Rightarrow>
           if ad_local peer
           then (case e_addr e (rq_header r ''CF-Connecting-IP'') of
                   None \<Rightarrow> host
                 | Some forwarded \<Rightarrow> ad_string forwarded)
           else host))"

definition remoteIP :: "env \<Rightarrow> string \<Rightarrow> string" where
  "remoteIP e a =
     (case split_host a of
        Some h \<Rightarrow> h
      | None \<Rightarrow> if e_addr e a \<noteq> None \<and> CHR ''%'' \<notin> set a then a else [])"

section \<open>Bearer authentication (auth.go)\<close>

definition bearerToken :: "string \<Rightarrow> string option" where
  "bearerToken header =
     (case Prelude.fields header of
        [scheme, tok] \<Rightarrow>
          if to_lower scheme = ''bearer'' \<and> \<not> blank tok then Some tok else None
      | _ \<Rightarrow> None)"

text \<open>The state of the process besides the database: Redis and its clock.\<close>

record world =
  wd_db :: db
  wd_redis :: redis
  wd_time :: rat

definition limit_check ::
    "env \<Rightarrow> string \<Rightarrow> limit \<Rightarrow> world \<Rightarrow> limit_result result \<times> world" where
  "limit_check e key l w =
     (case Allow e (wd_time w) key l (wd_redis w) of (r, s) \<Rightarrow> (r, w\<lparr>wd_redis := s\<rparr>))"

text \<open>The checks of \<open>allowRequest\<close> in order; None when all of them pass.\<close>

fun run_checks :: "env \<Rightarrow> (string \<times> limit) list \<Rightarrow> world \<Rightarrow> response option \<times> world" where
  "run_checks e [] w = (None, w)"
| "run_checks e ((k, l) # cs) w =
     (case limit_check e k l w of
        (Inl err, w') \<Rightarrow> (Some (reply_error 503 ''rate limiter unavailable''), w')
      | (Inr res, w') \<Rightarrow>
          if \<not> r_allowed res
          then (Some ((reply_error 429 ''rate limit exceeded'')
                  \<lparr>rs_headers := [(''Retry-After'',
                      itoa (max 1 \<lceil>of_int (r_retry res) / (of_int second_ns :: rat)\<rceil>))]\<rparr>), w')
          else run_checks e cs w')"

definition allowRequest :: "env \<Rightarrow> principal \<Rightarrow> world \<Rightarrow> response option \<times> world" where
  "allowRequest e p w =
     run_checks e [(MCPClientKey (p_client p), pol_mcp_client DefaultPolicies),
                   (UserKey (p_user p), pol_user DefaultPolicies)] w"

definition challenge_header :: "string \<Rightarrow> (string \<times> string) list" where
  "challenge_header base =
     (if base = [] then []
      else [(''WWW-Authenticate'', ''Bearer resource_metadata='' @ [CHR 0x22] @ base
              @ ''/.well-known/oauth-protected-resource/mcp'' @ [CHR 0x22])])"

definition authenticate ::
    "env \<Rightarrow> string \<Rightarrow> (principal \<Rightarrow> request \<Rightarrow> world \<Rightarrow> response \<times> world)
       \<Rightarrow> request \<Rightarrow> world \<Rightarrow> response \<times> world" where
  [handler_defs]: "authenticate e base handler r w =
     (let deny = (\<lambda>resp. resp\<lparr>rs_headers := challenge_header base @ rs_headers resp\<rparr>) in
      case bearerToken (rq_header r ''Authorization'') of
        None \<Rightarrow> (deny (reply_error 401 ''unauthorized''), w)
      | Some tok \<Rightarrow>
          (case AuthenticateBearer e tok (wd_db w) of
             Inl err \<Rightarrow>
               if errors_is err InvalidBearer then (deny (reply_error 401 ''unauthorized''), w)
               else (deny (reply_error 503 ''authentication service unavailable''), w)
           | Inr p \<Rightarrow>
               (case allowRequest e p w of
                  (Some resp, w') \<Rightarrow> (deny resp, w')
                | (None, w') \<Rightarrow> handler p r w')))"

section \<open>Helpers of the handlers (api.go)\<close>

definition requireScope :: "principal \<Rightarrow> string \<Rightarrow> response option" where
  "requireScope p scope =
     (if HasScope (p_scopes p) scope then None
      else Some (reply_error 403 ''insufficient scope''))"

definition parseLimit :: "request \<Rightarrow> int option" where
  "parseLimit r =
     (let raw = trim_space (query_get r ''limit'') in
      if raw = [] then Some 30
      else (case parse_int 64 raw of
              None \<Rightarrow> None
            | Some v \<Rightarrow> if v \<le> 0 \<or> 100 < v then None else Some v))"

definition limit_error :: response where
  "limit_error = reply_error 400 ''limit must be between 1 and 100''"

definition read_event :: "env \<Rightarrow> request \<Rightarrow> principal \<Rightarrow> string \<Rightarrow> string \<Rightarrow> string \<Rightarrow> json \<Rightarrow> event" where
  "read_event e r p action ty rid meta =
     \<lparr>ev_account = Some (p_account p),
      ev_actor_type = (if p_type p = MCP then ''MCP'' else ''USER''),
      ev_actor = p_client p, ev_action = action, ev_resource_type = ty, ev_resource = rid,
      ev_ip = remoteIP e (rq_remote r), ev_agent = rq_header r ''User-Agent'', ev_request = None,
      ev_meta = meta, ev_created = zero_time\<rparr>"

definition auditRead ::
    "env \<Rightarrow> request \<Rightarrow> principal \<Rightarrow> string \<Rightarrow> string \<Rightarrow> string \<Rightarrow> json \<Rightarrow> db
       \<Rightarrow> response option \<times> db" where
  "auditRead e r p action ty rid meta d =
     (case Write e (read_event e r p action ty rid meta) d of
        (Inl err, d') \<Rightarrow> (Some (reply_error 503 ''audit service unavailable''), d')
      | (Inr _, d') \<Rightarrow> (None, d'))"

section \<open>Facts\<close>

lemma parseLimit_bounds: "parseLimit r = Some n \<Longrightarrow> 1 \<le> n \<and> n \<le> 100"
  by (auto simp: parseLimit_def Let_def split: if_splits option.splits)

lemma audit_only:
  "accounts (snd (Write e ev d)) = accounts d" "clients (snd (Write e ev d)) = clients d"
  "tokens (snd (Write e ev d)) = tokens d" "users (snd (Write e ev d)) = users d"
  "oauth_clients (snd (Write e ev d)) = oauth_clients d"
  "oauth_requests (snd (Write e ev d)) = oauth_requests d"
  "oauth_codes (snd (Write e ev d)) = oauth_codes d"
  "refresh_tokens (snd (Write e ev d)) = refresh_tokens d"
  "sessions (snd (Write e ev d)) = sessions d"
  "chats (snd (Write e ev d)) = chats d" "permissions (snd (Write e ev d)) = permissions d"
  "sends (snd (Write e ev d)) = sends d" "messages (snd (Write e ev d)) = messages d"
  by (simp_all add: Write_def insert_audit_def Let_def split: sum.split option.split)

end
