(* ===== verification/Lease.thy ===== *)
theory Lease
  imports Schema
begin

text \<open>
  The contract of a lease column group (owner, token, expiry, generation), which
  \<open>sync_states\<close> and \<open>telegram_session_runtime\<close> share.  A lease is taken only when it is
  free, taking it raises the generation, and every other change is made by the holder of the
  current generation.  The locale \<open>lease_table\<close> states that a table's steps are of this
  kind; what workers rely on (fencing) is proved in it once.
\<close>

record lease_view =
  lv_owner :: "string option"
  lv_token :: "uuid option"
  lv_expires :: "time option"
  lv_gen :: int

definition lv_free :: "time \<Rightarrow> lease_view \<Rightarrow> bool" where
  "lv_free now v = (case lv_expires v of None \<Rightarrow> True | Some x \<Rightarrow> x \<le> now)"

definition lv_held :: "string \<Rightarrow> uuid \<Rightarrow> int \<Rightarrow> lease_view \<Rightarrow> bool" where
  "lv_held w t g v = (lv_owner v = Some w \<and> lv_token v = Some t \<and> lv_gen v = g)"

text \<open>The CHECK constraint: the three columns are all null or all set.\<close>

definition lv_ok :: "lease_view \<Rightarrow> bool" where
  "lv_ok v = ((lv_owner v = None \<and> lv_token v = None \<and> lv_expires v = None)
            \<or> (lv_owner v \<noteq> None \<and> lv_token v \<noteq> None \<and> lv_expires v \<noteq> None))"

inductive lease_spec :: "lease_view \<Rightarrow> lease_view \<Rightarrow> bool" where
  idle: "lease_spec v v"
| take: "lv_free now v \<Longrightarrow>
    lease_spec v \<lparr>lv_owner = Some w, lv_token = Some t, lv_expires = Some x, lv_gen = lv_gen v + 1\<rparr>"
| extend: "lv_held w t g v \<Longrightarrow> lv_expires v \<noteq> None \<Longrightarrow> lease_spec v (v\<lparr>lv_expires := Some x\<rparr>)"
| release: "lv_held w t g v \<Longrightarrow>
    lease_spec v \<lparr>lv_owner = None, lv_token = None, lv_expires = None, lv_gen = lv_gen v\<rparr>"

inductive_cases lease_specE: "lease_spec v v'"

lemma lease_spec_ok: "lease_spec v v' \<Longrightarrow> lv_ok v \<Longrightarrow> lv_ok v'"
  by (auto elim!: lease_specE simp: lv_ok_def lv_held_def)

lemma lease_spec_gen: "lease_spec v v' \<Longrightarrow> lv_gen v \<le> lv_gen v'"
  by (auto elim: lease_specE)

text \<open>A change of hands happens only when the lease was free.\<close>

lemma lease_spec_free: "lease_spec v v' \<Longrightarrow> lv_gen v' \<noteq> lv_gen v \<Longrightarrow> \<exists>now. lv_free now v"
  by (auto elim: lease_specE)

locale lease_table =
  fixes key :: "'r \<Rightarrow> 'k"
    and view :: "'r \<Rightarrow> lease_view"
    and step :: "'r list \<Rightarrow> 'r list \<Rightarrow> bool"
  assumes keys: "step rs rs' \<Longrightarrow> \<exists>ns. map key rs' = map key rs @ ns"
    and rows: "step rs rs' \<Longrightarrow> i < length rs \<Longrightarrow> lease_spec (view (rs ! i)) (view (rs' ! i))"
begin

lemma length_mono: "step rs rs' \<Longrightarrow> length rs \<le> length rs'"
  using keys by (metis length_append length_map le_add1)

lemma steps_view:
  assumes "step\<^sup>*\<^sup>* rs rs'" and "i < length rs"
  shows "lease_spec\<^sup>*\<^sup>* (view (rs ! i)) (view (rs' ! i)) \<and> i < length rs'"
  using assms
proof (induction rule: rtranclp_induct)
  case (step ys zs)
  then show ?case
    using rows [of ys zs i] length_mono [of ys zs] by (auto intro: rtranclp.rtrancl_into_rtrancl)
qed simp

lemma spec_steps_gen: "lease_spec\<^sup>*\<^sup>* v v' \<Longrightarrow> lv_gen v \<le> lv_gen v'"
  by (induction rule: rtranclp_induct) (auto dest: lease_spec_gen)

text \<open>Fencing: once the generation has passed \<open>g\<close>, nobody holds a lease of generation
  \<open>g\<close> again.\<close>

lemma fenced:
  assumes "step\<^sup>*\<^sup>* rs rs'" and "i < length rs" and "g < lv_gen (view (rs ! i))"
  shows "\<not> lv_held w t g (view (rs' ! i))"
  using steps_view [OF assms(1,2)] spec_steps_gen assms(3) by (fastforce simp: lv_held_def)

lemma check_kept:
  assumes "step\<^sup>*\<^sup>* rs rs'" and "i < length rs" and "lv_ok (view (rs ! i))"
  shows "lv_ok (view (rs' ! i))"
proof -
  have "lease_spec\<^sup>*\<^sup>* v v' \<Longrightarrow> lv_ok v \<Longrightarrow> lv_ok v'" for v v'
    by (induction rule: rtranclp_induct) (auto intro: lease_spec_ok)
  then show ?thesis using steps_view [OF assms(1,2)] assms(3) by blast
qed

lemma key_stable:
  assumes "step\<^sup>*\<^sup>* rs rs'" and "i < length rs"
  shows "key (rs' ! i) = key (rs ! i)"
  using assms
proof (induction rule: rtranclp_induct)
  case (step ys zs)
  have i: "i < length ys" using steps_view [OF step.hyps(1) step.prems] by simp
  obtain ns where "map key zs = map key ys @ ns" using keys [OF step.hyps(2)] by blast
  then have "key (zs ! i) = key (ys ! i)"
    using i length_mono [OF step.hyps(2)] by (metis length_map nth_append nth_map less_le_trans)
  then show ?case using step.IH step.prems by simp
qed simp

end

text \<open>Row-wise updates are steps when the update is one of the holder's or a taking.\<close>

lemma update_where_nth:
  "i < length rs \<Longrightarrow> update_where p f rs ! i = (if p (rs ! i) then f (rs ! i) else rs ! i)"
  by (simp add: update_where_def)

end
