(* ===== verification/Runtime.thy ===== *)
theory Runtime
  imports Lease Accounts
begin

text \<open>
  \<open>internal/runtime/repository.go\<close>: which worker runs an account's Telegram session, and
  the session's desired and observed state.  It interprets the lease contract, too.
\<close>

record run_lease =
  rl_account :: uuid
  rl_worker :: string
  rl_token :: uuid
  rl_gen :: int
  rl_expires :: time

definition new_runtime :: "env \<Rightarrow> uuid \<Rightarrow> string \<Rightarrow> desired_state \<Rightarrow> runtime_row" where
  "new_runtime e a shard ds =
     \<lparr>sr_acc = a, sr_shard = shard, sr_desired = ds, sr_observed = OOffline, sr_worker = None,
      sr_token = None, sr_expires = None, sr_generation = 0, sr_error = None,
      sr_started = None, sr_ready = None, sr_updated = e_now e\<rparr>"

text \<open>The first statement of \<open>Acquire\<close>: a row for a pending or active account.\<close>

definition ensure_runtime :: "env \<Rightarrow> uuid \<Rightarrow> string \<Rightarrow> db \<Rightarrow> runtime_row list" where
  "ensure_runtime e a shard d =
     (if exists_row (\<lambda>t. acc_id t = a \<and> acc_status t \<in> {Pending, Active}) (accounts d)
         \<and> a \<notin> sr_acc ` set (runtimes d)
      then runtimes d @ [new_runtime e a shard DOnline] else runtimes d)"

definition runtime_free :: "time \<Rightarrow> runtime_row \<Rightarrow> bool" where
  "runtime_free now r = (case sr_expires r of None \<Rightarrow> True | Some x \<Rightarrow> x \<le> now)"

definition ttl_micros :: "duration \<Rightarrow> time" where  \<comment> \<open>Milliseconds(), as microseconds\<close>
  "ttl_micros d = d div 1000000 * 1000"

definition take_row :: "time \<Rightarrow> string \<Rightarrow> string \<Rightarrow> uuid \<Rightarrow> time \<Rightarrow> runtime_row \<Rightarrow> runtime_row" where
  "take_row now shard w t x r =
     r\<lparr>sr_shard := shard, sr_worker := Some w, sr_token := Some t, sr_expires := Some x,
       sr_generation := sr_generation r + 1, sr_observed := OStarting, sr_started := Some now,
       sr_error := None, sr_updated := now\<rparr>"

text \<open>
  \<open>Acquire\<close>.  When the row is not free the transaction is rolled back, and with it a row
  that the first statement inserted.
\<close>

definition Acquire ::
    "env \<Rightarrow> uuid \<Rightarrow> string \<Rightarrow> string \<Rightarrow> string \<Rightarrow> duration \<Rightarrow> db \<Rightarrow> run_lease option result \<times> db" where
  [handler_defs]: "Acquire e t account_id w shard ttl d =
     (let account_id = trim_space account_id; w = trim_space w; shard = trim_space shard in
      if account_id = [] \<or> w = [] then (Inl (Msg ''account id and worker id are required''), d)
      else (let shard = (if shard = [] then ''default'' else shard) in
        if ttl \<le> 0 then (Inl (Msg ''lease ttl must be positive''), d)
        else if e_fail e ''runtime.begin''
          then (Inl (Wrapped ''begin session lease transaction'' (DbErr ''begin'')), d)
        else (case e_uuid e account_id of
            None \<Rightarrow> (Inl (Wrapped ''ensure session runtime row'' (DbErr ''invalid uuid'')), d)
          | Some a \<Rightarrow>
              if e_fail e ''runtime.ensure''
                then (Inl (Wrapped ''ensure session runtime row'' (DbErr ''insert'')), d)
              else (let rs = ensure_runtime e a shard d;
                        p = (\<lambda>r. sr_acc r = a \<and> sr_desired r = DOnline \<and> runtime_free (e_now e) r);
                        x = e_now e + ttl_micros ttl
                    in if e_fail e ''runtime.update''
                         then (Inl (Wrapped ''acquire Telegram session lease'' (DbErr ''update'')), d)
                       else (case find p rs of
                           None \<Rightarrow> (Inr None, d)
                         | Some r \<Rightarrow>
                             if e_fail e ''runtime.commit''
                               then (Inl (Wrapped ''commit session lease transaction'' (DbErr ''commit'')), d)
                             else (Inr (Some \<lparr>rl_account = a, rl_worker = w, rl_token = t,
                                              rl_gen = sr_generation r + 1, rl_expires = x\<rparr>),
                                   d\<lparr>runtimes := update_where p (take_row (e_now e) shard w t x) rs\<rparr>))))))"

definition holds :: "run_lease \<Rightarrow> runtime_row \<Rightarrow> bool" where
  "holds l r = (sr_acc r = rl_account l \<and> sr_worker r = Some (rl_worker l)
              \<and> sr_token r = Some (rl_token l) \<and> sr_generation r = rl_gen l)"

definition Renew :: "env \<Rightarrow> run_lease \<Rightarrow> duration \<Rightarrow> db \<Rightarrow> time result \<times> db" where
  [handler_defs]: "Renew e l ttl d =
     (if blank (rl_account l) \<or> blank (rl_worker l) \<or> blank (rl_token l)
        then (Inl (Msg ''complete lease identity is required''), d)
      else if ttl \<le> 0 then (Inl (Msg ''lease ttl must be positive''), d)
      else if e_fail e ''Renew'' then (Inl (Wrapped ''renew Telegram session lease'' (DbErr ''update'')), d)
      else (let p = (\<lambda>r. holds l r \<and> (case sr_expires r of None \<Rightarrow> False | Some x \<Rightarrow> e_now e < x));
                x = e_now e + ttl_micros ttl
            in if affected p (runtimes d) = 0 then (Inl (Msg ''session lease lost''), d)
               else (Inr x, d\<lparr>runtimes :=
                      update_where p (\<lambda>r. r\<lparr>sr_expires := Some x, sr_updated := e_now e\<rparr>)
                        (runtimes d)\<rparr>)))"

definition owner_exec ::
    "env \<Rightarrow> string \<Rightarrow> string \<Rightarrow> run_lease \<Rightarrow> (runtime_row \<Rightarrow> runtime_row) \<Rightarrow> db \<Rightarrow> unit result \<times> db" where
  "owner_exec e label what l f d =
     (if e_fail e label then (Inl (Wrapped what (DbErr label)), d)
      else if affected (holds l) (runtimes d) = 0
        then (Inl (Msg ''session lease no longer owned by worker''), d)
      else (Inr (), d\<lparr>runtimes := update_where (holds l) f (runtimes d)\<rparr>))"

definition release_row :: "time \<Rightarrow> runtime_row \<Rightarrow> runtime_row" where
  "release_row now r =
     r\<lparr>sr_worker := None, sr_token := None, sr_expires := None, sr_observed := OOffline,
       sr_updated := now\<rparr>"

definition Release :: "env \<Rightarrow> run_lease \<Rightarrow> db \<Rightarrow> unit result \<times> db" where
  [handler_defs]: "Release e l d =
     owner_exec e ''Release'' ''release Telegram session lease'' l (release_row (e_now e)) d"

fun observed_of :: "string \<Rightarrow> observed_state option" where  \<comment> \<open>valid()\<close>
  "observed_of s =
     (if s = ''offline'' then Some OOffline else if s = ''starting'' then Some OStarting
      else if s = ''authorizing'' then Some OAuthorizing else if s = ''ready'' then Some OReady
      else if s = ''backoff'' then Some OBackoff else if s = ''error'' then Some OError
      else None)"

definition observe_row :: "time \<Rightarrow> observed_state \<Rightarrow> string \<Rightarrow> runtime_row \<Rightarrow> runtime_row" where
  "observe_row now st last_error r =
     r\<lparr>sr_observed := st, sr_error := nullif_empty last_error,
       sr_ready := (if st = OReady then Some now else sr_ready r), sr_updated := now\<rparr>"

definition SetObservedState :: "env \<Rightarrow> run_lease \<Rightarrow> string \<Rightarrow> string \<Rightarrow> db \<Rightarrow> unit result \<times> db" where
  [handler_defs]: "SetObservedState e l state last_error d =
     (case observed_of state of
        None \<Rightarrow> (Inl (Msg ''invalid session observed state''), d)
      | Some st \<Rightarrow>
          owner_exec e ''SetObservedState'' ''update Telegram session state'' l
            (observe_row (e_now e) st (trim_space last_error)) d)"

definition SetDesiredOnline :: "env \<Rightarrow> string \<Rightarrow> bool \<Rightarrow> db \<Rightarrow> unit result \<times> db" where
  [handler_defs]: "SetDesiredOnline e account_id online d =
     (let desired = (if online then DOnline else DOffline) in
      if e_fail e ''SetDesiredOnline''
        then (Inl (Wrapped ''set Telegram session desired state'' (DbErr ''update'')), d)
      else (case e_uuid e (trim_space account_id) of
          None \<Rightarrow> (Inl (Wrapped ''set Telegram session desired state'' (DbErr ''invalid uuid'')), d)
        | Some a \<Rightarrow>
            if affected (\<lambda>r. sr_acc r = a) (runtimes d) = 0 then (Inl NoRows, d)
            else (Inr (), d\<lparr>runtimes :=
                    update_where (\<lambda>r. sr_acc r = a)
                      (\<lambda>r. r\<lparr>sr_desired := desired, sr_updated := e_now e\<rparr>) (runtimes d)\<rparr>)))"

section \<open>The lease contract\<close>

definition run_view :: "runtime_row \<Rightarrow> lease_view" where
  "run_view r = \<lparr>lv_owner = sr_worker r, lv_token = sr_token r, lv_expires = sr_expires r,
                 lv_gen = sr_generation r\<rparr>"

inductive run_step :: "runtime_row list \<Rightarrow> runtime_row list \<Rightarrow> bool" where
  acquire: "run_step (runtimes d) (runtimes (snd (Acquire e t a w shard ttl d)))"
| renew: "run_step (runtimes d) (runtimes (snd (Renew e l ttl d)))"
| release: "run_step (runtimes d) (runtimes (snd (Release e l d)))"
| observe: "run_step (runtimes d) (runtimes (snd (SetObservedState e l st err d)))"
| desire: "run_step (runtimes d) (runtimes (snd (SetDesiredOnline e a online d)))"

definition run_update :: "runtime_row list \<Rightarrow> runtime_row list \<Rightarrow> bool" where
  "run_update rs rs' =
     (\<exists>us ns. rs' = us @ ns
        \<and> list_all2 (\<lambda>s s'. sr_acc s' = sr_acc s \<and> lease_spec (run_view s) (run_view s')) rs us
        \<and> (distinct (map sr_acc rs) \<longrightarrow> distinct (map sr_acc (us @ ns))))"

lemma run_update_where:
  assumes "\<And>s. p s \<Longrightarrow> sr_acc (f s) = sr_acc s \<and> lease_spec (run_view s) (run_view (f s))"
  shows "run_update rs (update_where p f rs)"
proof -
  have "map sr_acc (update_where p f rs) = map sr_acc rs"
    by (rule map_key_update_where) (use assms in simp)
  moreover have "list_all2 (\<lambda>s s'. sr_acc s' = sr_acc s \<and> lease_spec (run_view s) (run_view s')) rs
      (update_where p f rs)"
    by (rule list_all2_update_where) (use assms lease_spec.idle in auto)
  ultimately show ?thesis
    unfolding run_update_def
    by (intro exI [of _ "update_where p f rs"] exI [of _ "[] :: runtime_row list"]) simp
qed

lemma run_update_refl [simp]: "run_update rs rs"
proof -
  have "update_where (\<lambda>_. False) (\<lambda>s. s) rs = rs" by (simp add: update_where_def)
  then show ?thesis using run_update_where [of "\<lambda>_. False" "\<lambda>s. s" rs] by simp
qed

text \<open>Taking a row that may just have been inserted.\<close>

lemma run_update_where_new:
  assumes f: "\<And>s. p s \<Longrightarrow> sr_acc (f s) = sr_acc s \<and> lease_spec (run_view s) (run_view (f s))"
    and n: "ns = [] \<or> (\<exists>n. ns = [n] \<and> sr_acc n \<notin> sr_acc ` set rs)"
  shows "run_update rs (update_where p f (rs @ ns))"
proof -
  obtain us vs where u: "update_where p f rs = us @ vs"
    "list_all2 (\<lambda>s s'. sr_acc s' = sr_acc s \<and> lease_spec (run_view s) (run_view s')) rs us"
    using run_update_where [of p f rs, OF f] by (auto simp: run_update_def)
  have "map sr_acc (update_where p f (rs @ ns)) = map sr_acc (rs @ ns)"
    by (rule map_key_update_where) (use f in simp)
  then have "distinct (map sr_acc rs) \<longrightarrow> distinct (map sr_acc (update_where p f (rs @ ns)))"
    using n by (elim disjE exE conjE) simp_all
  moreover have "length us = length rs" using u(2) by (simp add: list_all2_lengthD)
  then have "vs = []" using u(1) by (metis append_eq_conv_conj length_update_where self_append_conv)
  moreover have "update_where p f (rs @ ns) = update_where p f rs @ update_where p f ns"
    by (simp add: update_where_def)
  ultimately show ?thesis
    using u unfolding run_update_def
    by (intro exI [of _ us] exI [of _ "update_where p f ns"]) simp
qed

lemma ensure_runtime_cases:
  "\<exists>ns. ensure_runtime e a shard d = runtimes d @ ns
     \<and> (ns = [] \<or> (\<exists>n. ns = [n] \<and> sr_acc n \<notin> sr_acc ` set (runtimes d)))"
  by (auto simp: ensure_runtime_def new_runtime_def)

lemma row_acc [simp]:
  "sr_acc (take_row now shard w t x r) = sr_acc r" "sr_acc (release_row now r) = sr_acc r"
  "sr_acc (observe_row now st m r) = sr_acc r"
  by (simp_all add: take_row_def release_row_def observe_row_def)

lemma take_spec: "runtime_free now r \<Longrightarrow> lease_spec (run_view r) (run_view (take_row now shard w t x r))"
  using lease_spec.take [of now "run_view r" w t x]
  by (simp add: run_view_def take_row_def runtime_free_def lv_free_def)

lemma held_spec:
  assumes "holds l r"
  shows "lease_spec (run_view r) (run_view (release_row now r))"
    and "sr_expires r \<noteq> None \<Longrightarrow>
      lease_spec (run_view r) (run_view (r\<lparr>sr_expires := Some x, sr_updated := now\<rparr>))"
    and "lease_spec (run_view r) (run_view (observe_row now st m r))"
  using lease_spec.release [of "rl_worker l" "rl_token l" "rl_gen l" "run_view r"]
    lease_spec.extend [of "rl_worker l" "rl_token l" "rl_gen l" "run_view r" x]
    lease_spec.idle [of "run_view r"] assms
  by (simp_all add: run_view_def release_row_def observe_row_def lv_held_def holds_def)

lemma owner_exec_update:
  assumes "\<And>s. holds l s \<Longrightarrow> sr_acc (f s) = sr_acc s \<and> lease_spec (run_view s) (run_view (f s))"
  shows "run_update (runtimes d) (runtimes (snd (owner_exec e lab what l f d)))"
  using run_update_where [of "holds l" f, OF assms] by (simp add: owner_exec_def)

lemma run_step_update: "run_step rs rs' \<Longrightarrow> run_update rs rs'"
proof (induction rule: run_step.induct)
  case (acquire d e t a w shard ttl)
  have "run_update (runtimes d) (update_where
      (\<lambda>r. sr_acc r = b \<and> sr_desired r = DOnline \<and> runtime_free (e_now e) r)
      (take_row (e_now e) sh w' t x) (ensure_runtime e b sh d))" for b sh w' x
  proof -
    obtain ns where ns: "ensure_runtime e b sh d = runtimes d @ ns"
      "ns = [] \<or> (\<exists>n. ns = [n] \<and> sr_acc n \<notin> sr_acc ` set (runtimes d))"
      using ensure_runtime_cases by blast
    show ?thesis unfolding ns(1) by (rule run_update_where_new [OF _ ns(2)]) (simp add: take_spec)
  qed
  then show ?case by (simp add: Acquire_def Let_def split: option.split)
next
  case (renew d e l ttl)
  show ?case
    by (auto simp: Renew_def Let_def intro!: run_update_where held_spec(2) split: option.splits)
next
  case (release d e l)
  show ?case unfolding Release_def by (intro owner_exec_update) (simp add: held_spec(1))
next
  case (observe d e l st err)
  have "run_update (runtimes d) (runtimes (snd (owner_exec e lab what l (observe_row (e_now e) s m) d)))"
    for lab what s m
    by (intro owner_exec_update) (simp add: held_spec(3))
  then show ?case by (simp add: SetObservedState_def del: observed_of.simps split: option.split)
next
  case (desire d e a online)
  have "run_view (r\<lparr>sr_desired := ds, sr_updated := n\<rparr>) = run_view r" for r ds n
    by (simp add: run_view_def)
  then show ?case
    by (auto simp: SetDesiredOnline_def Let_def lease_spec.idle intro!: run_update_where
             split: option.split)
qed

interpretation run_lease: lease_table sr_acc run_view run_step
proof
  fix rs rs' :: "runtime_row list"
  assume "run_step rs rs'"
  then obtain us ns where u: "rs' = us @ ns"
    "list_all2 (\<lambda>s s'. sr_acc s' = sr_acc s \<and> lease_spec (run_view s) (run_view s')) rs us"
    using run_step_update unfolding run_update_def by blast
  have "map sr_acc us = map sr_acc rs"
    using u(2) by (induction rule: list_all2_induct) simp_all
  then show "\<exists>ns. map sr_acc rs' = map sr_acc rs @ ns" using u(1) by simp
  show "lease_spec (run_view (rs ! i)) (run_view (rs' ! i))" if "i < length rs" for i
    using u that by (simp add: list_all2_conv_all_nth nth_append)
qed

section \<open>Fencing\<close>

lemma run_steps_distinct:
  "run_step\<^sup>*\<^sup>* rs rs' \<Longrightarrow> distinct (map sr_acc rs) \<Longrightarrow> distinct (map sr_acc rs')"
proof (induction rule: rtranclp_induct)
  case (step ys zs)
  then show ?case using run_step_update [OF step.hyps(2)] by (auto simp: run_update_def)
qed

lemma AcquireD:
  assumes "Acquire e t a w shard ttl d = (Inr (Some l), d1)"
  shows "\<exists>r sh. r \<in> set (ensure_runtime e (rl_account l) sh d) \<and> sr_acc r = rl_account l
    \<and> runtime_free (e_now e) r \<and> sr_desired r = DOnline \<and> rl_gen l = sr_generation r + 1
    \<and> runtimes d1 = update_where (\<lambda>r. sr_acc r = rl_account l \<and> sr_desired r = DOnline
          \<and> runtime_free (e_now e) r)
        (take_row (e_now e) sh (rl_worker l) (rl_token l) (rl_expires l))
        (ensure_runtime e (rl_account l) sh d)"
proof -
  obtain j where j: "e_uuid e (trim_space a) = Some j"
    using assms by (auto simp: Acquire_def Let_def split: if_splits option.splits)
  define sh where "sh = (if blank shard then ''default'' else trim_space shard)"
  obtain r where r: "find (\<lambda>r. sr_acc r = j \<and> sr_desired r = DOnline \<and> runtime_free (e_now e) r)
      (ensure_runtime e j sh d) = Some r"
    using assms j by (auto simp: Acquire_def Let_def sh_def split: if_splits option.splits)
  show ?thesis
    using assms j r find_in_set [OF r]
    by (intro exI [of _ r] exI [of _ sh]) (auto simp: Acquire_def Let_def sh_def split: if_splits)
qed

lemma gone_fails:
  assumes "\<forall>r \<in> set (runtimes d). \<not> holds l r" and "\<not> e_fail e lab"
  shows "owner_exec e lab what l f d = (Inl (Msg ''session lease no longer owned by worker''), d)"
  using assms by (auto simp: owner_exec_def exists_row_def)

text \<open>The Telegram session of an account has one owner at a time: a lease is granted only
  on a free row that wants to be online, and once the account has been leased again, the old
  worker can neither renew nor release nor report a state, whatever happens later.\<close>

theorem session_lease_fencing:
  assumes ids: "distinct (map sr_acc (runtimes d))"
    and first: "Acquire e t a w shard ttl d = (Inr (Some l), d1)"
    and between: "run_step\<^sup>*\<^sup>* (runtimes d1) (runtimes d2)"
    and second: "Acquire e2 t2 a2 w2 shard2 ttl2 d2 = (Inr (Some l2), d3)"
      "rl_account l2 = rl_account l"
    and later: "run_step\<^sup>*\<^sup>* (runtimes d3) (runtimes d4)"
    and up: "\<not> e_fail e' ''Renew''" "\<not> e_fail e' ''Release''" "\<not> e_fail e' ''SetObservedState''"
  shows "(\<exists>err. Renew e' l ttl' d4 = (Inl err, d4))
    \<and> Release e' l d4 = (Inl (Msg ''session lease no longer owned by worker''), d4)
    \<and> (\<exists>err. SetObservedState e' l st m d4 = (Inl err, d4))
    \<and> (\<exists>r \<in> set (runtimes d2). sr_acc r = rl_account l \<and> runtime_free (e_now e2) r
          \<and> sr_desired r = DOnline)"
proof -
  let ?R = runtimes
  obtain r sh where r: "r \<in> set (ensure_runtime e (rl_account l) sh d)" "sr_acc r = rl_account l"
      "runtime_free (e_now e) r" "sr_desired r = DOnline" "rl_gen l = sr_generation r + 1"
    and d1: "?R d1 = update_where (\<lambda>r. sr_acc r = rl_account l \<and> sr_desired r = DOnline
          \<and> runtime_free (e_now e) r)
        (take_row (e_now e) sh (rl_worker l) (rl_token l) (rl_expires l))
        (ensure_runtime e (rl_account l) sh d)"
    using AcquireD [OF first] by force
  let ?E = "ensure_runtime e (rl_account l) sh d"
  have distE: "distinct (map sr_acc ?E)"
  proof -
    obtain ns where ns: "?E = runtimes d @ ns"
      "ns = [] \<or> (\<exists>n. ns = [n] \<and> sr_acc n \<notin> sr_acc ` set (runtimes d))"
      using ensure_runtime_cases by blast
    show ?thesis unfolding ns(1) using ids ns(2) by (elim disjE exE conjE) simp_all
  qed
  obtain k where k: "k < length ?E" "?E ! k = r"
    using r(1) by (auto simp: in_set_conv_nth)
  have k1: "k < length (?R d1)" "lv_gen (run_view (?R d1 ! k)) = rl_gen l"
    "sr_acc (?R d1 ! k) = rl_account l"
    using k r by (simp_all add: d1 update_where_nth run_view_def take_row_def)
  have dist1: "distinct (map sr_acc (?R d1))"
    using distE by (simp add: d1 map_key_update_where)
  have k2: "k < length (?R d2)" "rl_gen l \<le> lv_gen (run_view (?R d2 ! k))"
    "sr_acc (?R d2 ! k) = rl_account l"
    using run_lease.steps_view [OF between k1(1)] run_lease.spec_steps_gen k1(2,3)
      run_lease.key_stable [OF between k1(1)] by fastforce+
  have dist2: "distinct (map sr_acc (?R d2))" by (rule run_steps_distinct [OF between dist1])
  obtain r2 sh2 where r2: "r2 \<in> set (ensure_runtime e2 (rl_account l) sh2 d2)"
      "sr_acc r2 = rl_account l" "runtime_free (e_now e2) r2" "sr_desired r2 = DOnline"
    and d3: "?R d3 = update_where (\<lambda>r. sr_acc r = rl_account l \<and> sr_desired r = DOnline
          \<and> runtime_free (e_now e2) r)
        (take_row (e_now e2) sh2 (rl_worker l2) (rl_token l2) (rl_expires l2))
        (ensure_runtime e2 (rl_account l) sh2 d2)"
    using AcquireD [OF second(1)] second(2) by force
  have "rl_account l \<in> sr_acc ` set (?R d2)" using k2 by (metis image_eqI nth_mem)
  then have E2: "ensure_runtime e2 (rl_account l) sh2 d2 = ?R d2" by (simp add: ensure_runtime_def)
  have "r2 = ?R d2 ! k"
    by (rule key_unique [OF dist2]) (use r2 k2 in \<open>auto simp: E2\<close>)
  then have k3: "k < length (?R d3)" "rl_gen l < lv_gen (run_view (?R d3 ! k))"
    "sr_acc (?R d3 ! k) = rl_account l"
    using k2 r2 by (auto simp: d3 E2 update_where_nth run_view_def take_row_def)
  have dist4: "distinct (map sr_acc (?R d4))"
    by (rule run_steps_distinct [OF later]) (use dist2 in \<open>simp add: d3 E2 map_key_update_where\<close>)
  have k4: "k < length (?R d4)" "sr_acc (?R d4 ! k) = rl_account l"
    using run_lease.steps_view [OF later k3(1)] run_lease.key_stable [OF later k3(1)] k3(3) by auto
  have lost: "\<forall>x \<in> set (?R d4). \<not> holds l x"
  proof (intro ballI notI)
    fix x assume x: "x \<in> set (?R d4)" "holds l x"
    have "x = ?R d4 ! k"
      by (rule key_unique [OF dist4 x(1)]) (use x(2) k4 in \<open>auto simp: holds_def\<close>)
    then show False
      using x(2) run_lease.fenced [OF later k3(1,2), of "rl_worker l" "rl_token l"]
      by (simp add: holds_def lv_held_def run_view_def)
  qed
  have "\<exists>err. Renew e' l ttl' d4 = (Inl err, d4)"
    using lost up(1) by (auto simp: Renew_def Let_def exists_row_def)
  moreover have "\<exists>err. SetObservedState e' l st m d4 = (Inl err, d4)"
    using gone_fails [OF lost up(3)]
    by (simp add: SetObservedState_def del: observed_of.simps split: option.split)
  ultimately show ?thesis
    using gone_fails [OF lost up(2)] r2 by (auto simp: Release_def E2)
qed

section \<open>Witness\<close>

definition demo_rl :: "uuid \<Rightarrow> int \<Rightarrow> time \<Rightarrow> run_lease" where
  "demo_rl t g x =
     \<lparr>rl_account = ''a1'', rl_worker = ''w'', rl_token = t, rl_gen = g, rl_expires = x\<rparr>"

definition demo_run :: db where
  "demo_run = snd (Acquire demo_env ''k1'' ''a1'' ''w'' ''pc'' (45 * second_ns) demo_db)"

definition demo_later :: env where
  "demo_later = demo_env\<lparr>e_now := 900000000\<rparr>"

definition demo_run2 :: db where
  "demo_run2 = snd (Acquire demo_later ''k2'' ''a1'' ''w'' ''pc'' (45 * second_ns) demo_run)"

lemma demo_trimmed: "trim_space ''a1'' = ''a1''" "trim_space ''w'' = ''w''" "trim_space ''pc'' = ''pc''"
  by code_simp+

lemma demo_run_acquire:
  "Acquire demo_env ''k1'' ''a1'' ''w'' ''pc'' (45 * second_ns) demo_db
     = (Inr (Some (demo_rl ''k1'' 1 50000000)), demo_run)"
  "Acquire demo_later ''k2'' ''a1'' ''w'' ''pc'' (45 * second_ns) demo_run
     = (Inr (Some (demo_rl ''k2'' 2 945000000)), demo_run2)"
proof -
  note defs = Acquire_def demo_trimmed ensure_runtime_def new_runtime_def runtime_free_def
    second_ns_def ttl_micros_def demo_rl_def demo_env_def Let_def exists_row_def
  show "Acquire demo_env ''k1'' ''a1'' ''w'' ''pc'' (45 * second_ns) demo_db
     = (Inr (Some (demo_rl ''k1'' 1 50000000)), demo_run)"
    by (simp add: demo_run_def defs demo_defs)
  have "runtimes demo_run = [take_row 5000000 ''pc'' ''w'' ''k1'' 50000000
      (new_runtime demo_env ''a1'' ''pc'' DOnline)]" "accounts demo_run = accounts demo_db"
    by (simp_all add: demo_run_def defs demo_defs update_where_def)
  then show "Acquire demo_later ''k2'' ''a1'' ''w'' ''pc'' (45 * second_ns) demo_run
     = (Inr (Some (demo_rl ''k2'' 2 945000000)), demo_run2)"
    by (simp add: demo_run2_def defs demo_later_def take_row_def)
qed

theorem session_lease_fencing_witness:
  "Release demo_later (demo_rl ''k1'' 1 50000000) demo_run2
     = (Inl (Msg ''session lease no longer owned by worker''), demo_run2)"
proof -
  have up: "\<not> e_fail demo_later l" for l by (simp add: demo_later_def demo_env_def)
  have d: "distinct (map sr_acc (runtimes demo_db))" by (simp add: demo_defs)
  have s: "rl_account (demo_rl ''k2'' 2 945000000) = rl_account (demo_rl ''k1'' 1 50000000)"
    by (simp add: demo_rl_def)
  show ?thesis
    using session_lease_fencing [OF d demo_run_acquire(1) rtranclp.rtrancl_refl
        demo_run_acquire(2) s rtranclp.rtrancl_refl up up up] by blast
qed

end
