(* ===== verification/Gateway.thy ===== *)
theory Gateway
  imports Runtime "HOL-Library.Product_Lexorder"
begin

text \<open>
  The parts of \<open>internal/gateway\<close> that decide who owns an account: the installation's owner
  (\<open>Manager.Initialize\<close>, \<open>CheckOwner\<close>), and \<open>AttachLogin\<close>, which maps a verified
  Telegram identity to exactly one account and hands its session directory over.
\<close>

record profile =
  pf_tg :: int
  pf_display :: string
  pf_username :: string

section \<open>Ownership (manager.go)\<close>

text \<open>\<open>Initialize\<close>: the owner is created once; \<open>u\<close> is the uuid of a new user.\<close>

definition Initialize :: "env \<Rightarrow> uuid \<Rightarrow> db \<Rightarrow> uuid result \<times> db" where
  [handler_defs]: "Initialize e u d =
     (if e_fail e ''init.begin'' then (Inl (DbErr ''begin''), d)
      else if e_fail e ''init.lock'' then (Inl (DbErr ''lock''), d)
      else if e_fail e ''init.select'' then (Inl (DbErr ''select''), d)
      else (case map_of (settings d) ''owner_user_id'' of
          Some owner \<Rightarrow>
            if e_fail e ''init.commit'' then (Inl (DbErr ''commit''), d) else (Inr owner, d)
        | None \<Rightarrow>
            if e_fail e ''init.user'' \<or> u \<in> set (users d) then (Inl (DbErr ''insert app_users''), d)
            else if e_fail e ''init.setting'' then (Inl (DbErr ''insert gateway_settings''), d)
            else if e_fail e ''init.commit'' then (Inl (DbErr ''commit''), d)
            else (Inr u, d\<lparr>users := users d @ [u],
                            settings := settings d @ [(''owner_user_id'', u)]\<rparr>)))"

definition CreateAccount :: "env \<Rightarrow> uuid \<Rightarrow> uuid \<Rightarrow> uuid \<Rightarrow> db \<Rightarrow> account result \<times> db" where
  [handler_defs]: "CreateAccount e i dir owner d = CreatePending e i dir owner d"

definition CheckOwner :: "env \<Rightarrow> uuid \<Rightarrow> string \<Rightarrow> db \<Rightarrow> unit result" where
  [handler_defs]: "CheckOwner e owner i d =
     (if e_fail e ''CheckOwner'' then Inl (DbErr ''select'')
      else (case (e_uuid e i, e_uuid e owner) of
          (Some a, Some u) \<Rightarrow>
            if exists_row (\<lambda>t. acc_id t = a \<and> acc_user t = u) (accounts d) then Inr ()
            else Inl (Msg ''account not found'')
        | _ \<Rightarrow> Inl (DbErr ''invalid uuid'')))"

section \<open>Attaching a login (public.go)\<close>

text \<open>The account an identity selects: its own, else the oldest one with that Telegram user.\<close>

definition identity_account :: "int \<Rightarrow> db \<Rightarrow> account option" where
  "identity_account tg d =
     (case find (\<lambda>x. id_tg x = tg) (identities d) of
        None \<Rightarrow> None
      | Some x \<Rightarrow> find (\<lambda>a. acc_id a = id_account x) (accounts d))"

definition oldest_account :: "int \<Rightarrow> db \<Rightarrow> account option" where
  "oldest_account tg d =
     (case sort_key (\<lambda>a. (acc_created a, acc_id a)) (filter (\<lambda>a. acc_tg a = Some tg) (accounts d)) of
        [] \<Rightarrow> None
      | a # _ \<Rightarrow> Some a)"

definition insert_identity :: "env \<Rightarrow> int \<Rightarrow> uuid \<Rightarrow> db \<Rightarrow> unit result \<times> db" where
  "insert_identity e tg a d =
     (if e_fail e ''attach.identity'' \<or> tg \<in> id_tg ` set (identities d)
         \<or> a \<in> id_account ` set (identities d)
      then (Inl (DbErr ''insert telegram_identities''), d)
      else (Inr (), d\<lparr>identities := identities d @ [\<lparr>id_tg = tg, id_account = a\<rparr>]\<rparr>))"

definition pending_account :: "env \<Rightarrow> uuid \<Rightarrow> uuid \<Rightarrow> int \<Rightarrow> uuid \<Rightarrow> account" where
  "pending_account e a u tg dir =
     \<lparr>acc_id = a, acc_user = u, acc_tg = Some tg, acc_display = None, acc_username = None,
      acc_status = Pending, acc_connected = None, acc_disconnected = None,
      acc_last_update = None, acc_session_dir = dir, acc_created = e_now e, acc_updated = e_now e\<rparr>"

text \<open>
  Select the account, creating user, account and identity as needed (not yet committed); \<open>dir\<close> is
  the cast of the storage id, which only a new account needs.
\<close>

definition select_account ::
    "env \<Rightarrow> uuid \<Rightarrow> uuid \<Rightarrow> uuid option \<Rightarrow> int \<Rightarrow> db \<Rightarrow> (uuid \<times> uuid \<times> acc_status) result \<times> db" where
  "select_account e u a dir tg d =
     (case identity_account tg d of
        Some t \<Rightarrow> (Inr (acc_id t, acc_user t, acc_status t), d)
      | None \<Rightarrow>
         (case oldest_account tg d of
            Some t \<Rightarrow>
              (case insert_identity e tg (acc_id t) d of
                 (Inl err, d') \<Rightarrow> (Inl err, d')
               | (Inr _, d') \<Rightarrow> (Inr (acc_id t, acc_user t, acc_status t), d'))
          | None \<Rightarrow>
              if e_fail e ''attach.user'' \<or> u \<in> set (users d) then (Inl (DbErr ''insert app_users''), d)
              else if e_fail e ''attach.account'' \<or> a \<in> acc_id ` set (accounts d)
                then (Inl (DbErr ''insert telegram_accounts''), d)
              else (case dir of
                  None \<Rightarrow> (Inl (DbErr ''invalid uuid''), d)
                | Some s \<Rightarrow>
                    (let d1 = d\<lparr>users := users d @ [u],
                                 accounts := accounts d @ [pending_account e a u tg s]\<rparr>
                     in (case insert_identity e tg a d1 of
                           (Inl err, d') \<Rightarrow> (Inl err, d')
                         | (Inr _, d') \<Rightarrow> (Inr (a, u, Pending), d'))))))"

definition set_offline :: "env \<Rightarrow> uuid \<Rightarrow> db \<Rightarrow> db" where
  "set_offline e a d =
     d\<lparr>runtimes := upsert sr_acc (\<lambda>new old. old\<lparr>sr_desired := DOffline\<rparr>)
                    (new_runtime e a ''default'' DOffline) (runtimes d)\<rparr>"

text \<open>The first transaction; on any error it is rolled back.\<close>

definition attach_begin ::
    "env \<Rightarrow> uuid \<Rightarrow> uuid \<Rightarrow> string \<Rightarrow> profile \<Rightarrow> db \<Rightarrow> (uuid \<times> uuid) result \<times> db" where
  "attach_begin e u a storage p d =
     (case e_parse e storage of
        None \<Rightarrow> (Inl (Msg ''invalid verified identity''), d)
      | Some _ \<Rightarrow>
        if pf_tg p \<le> 0 then (Inl (Msg ''invalid verified identity''), d)
        else if e_fail e ''attach.begin'' then (Inl (DbErr ''begin''), d)
        else if e_fail e ''attach.lock'' then (Inl (DbErr ''lock''), d)
        else if e_fail e ''attach.select'' then (Inl (DbErr ''select''), d)
        else (case select_account e u a (e_uuid e storage) (pf_tg p) d of
            (Inl err, _) \<Rightarrow> (Inl err, d)
          | (Inr (acc, usr, status), d1) \<Rightarrow>
              if status = Blocked then (Inl (Msg ''account is unavailable''), d)
              else if e_fail e ''attach.runtime'' then (Inl (DbErr ''upsert runtime''), d)
              else if e_fail e ''attach.commit'' then (Inl (DbErr ''commit''), d)
              else (Inr (acc, usr), set_offline e acc d1)))"

text \<open>The poll for the old worker's lease: it is free when absent or past.\<close>

definition lease_gone :: "env \<Rightarrow> uuid \<Rightarrow> db \<Rightarrow> bool result" where
  "lease_gone e a d =
     (if e_fail e ''attach.poll'' then Inl (DbErr ''select'')
      else (case find (\<lambda>r. sr_acc r = a) (runtimes d) of
              None \<Rightarrow> Inl NoRows
            | Some r \<Rightarrow> Inr (case sr_expires r of None \<Rightarrow> True | Some x \<Rightarrow> x < e_now e)))"

definition attach_row :: "time \<Rightarrow> uuid \<Rightarrow> profile \<Rightarrow> account \<Rightarrow> account" where
  "attach_row now dir p a =
     a\<lparr>acc_session_dir := dir, acc_display := nullif_empty (pf_display p),
       acc_username := nullif_empty (pf_username p), acc_status := Active,
       acc_connected := coalesce (acc_connected a) (Some now), acc_disconnected := None,
       acc_updated := now\<rparr>"

definition set_online :: "uuid \<Rightarrow> db \<Rightarrow> db" where
  "set_online a d =
     d\<lparr>runtimes := update_where (\<lambda>r. sr_acc r = a) (\<lambda>r. r\<lparr>sr_desired := DOnline\<rparr>) (runtimes d)\<rparr>"

text \<open>The second transaction.\<close>

definition attach_finish ::
    "env \<Rightarrow> string \<Rightarrow> profile \<Rightarrow> uuid \<Rightarrow> uuid \<Rightarrow> db \<Rightarrow> (uuid \<times> uuid) result \<times> db" where
  "attach_finish e storage p acc usr d =
     (let own = (\<lambda>a. acc_id a = acc \<and> acc_tg a = Some (pf_tg p) \<and> acc_status a \<noteq> Blocked) in
      if e_fail e ''attach.begin2'' then (Inl (DbErr ''begin''), d)
      else if e_fail e ''attach.update'' then (Inl (DbErr ''update''), d)
      else (case e_uuid e storage of
          None \<Rightarrow> (Inl (DbErr ''invalid uuid''), d)
        | Some dir \<Rightarrow>
            if affected own (accounts d) \<noteq> 1 then (Inl (Msg ''account unavailable''), d)
            else if e_fail e ''attach.online'' then (Inl (DbErr ''update runtime''), d)
            else if e_fail e ''attach.commit2'' then (Inl (DbErr ''commit''), d)
            else (Inr (usr, acc),
                  set_online acc
                    (d\<lparr>accounts := update_where own (attach_row (e_now e) dir p) (accounts d)\<rparr>))))"

text \<open>
  \<open>AttachLogin\<close> as a whole.  The list holds what each poll sees, with the clock of that
  moment; between the polls other workers change the database.  It ends when the time limit
  does, so running out of polls is the timeout.
\<close>

fun await_free ::
    "string \<Rightarrow> profile \<Rightarrow> uuid \<Rightarrow> uuid \<Rightarrow> (env \<times> db) list \<Rightarrow> db \<Rightarrow> (uuid \<times> uuid) result \<times> db" where
  "await_free storage p acc usr [] d0 = (Inl CtxDone, d0)"
| "await_free storage p acc usr ((e, d) # polls) d0 =
     (case lease_gone e acc d of
        Inl err \<Rightarrow> (Inl err, d)
      | Inr True \<Rightarrow> attach_finish e storage p acc usr d
      | Inr False \<Rightarrow> await_free storage p acc usr polls d)"

definition AttachLogin ::
    "env \<Rightarrow> uuid \<Rightarrow> uuid \<Rightarrow> string \<Rightarrow> profile \<Rightarrow> db \<Rightarrow> (db \<Rightarrow> (env \<times> db) list)
       \<Rightarrow> (uuid \<times> uuid) result \<times> db" where
  [handler_defs]: "AttachLogin e u a storage p d polls =
     (case attach_begin e u a storage p d of
        (Inl err, d1) \<Rightarrow> (Inl err, d1)
      | (Inr (acc, usr), d1) \<Rightarrow> await_free storage p acc usr (polls d1) d1)"

text \<open>\<open>DiscardLoginStorage\<close>: remove the directory of a login that no account uses.\<close>

definition DiscardLoginStorage ::
    "env \<Rightarrow> string \<Rightarrow> string \<Rightarrow> db \<Rightarrow> string list \<Rightarrow> string list" where
  [handler_defs]: "DiscardLoginStorage e data_dir i d dirs =
     (if data_dir = [] \<or> e_parse e i = None \<or> e_fail e ''discard.select'' then dirs
      else (case e_uuid e i of
              None \<Rightarrow> dirs
            | Some s \<Rightarrow> if exists_row (\<lambda>a. acc_session_dir a = s) (accounts d) then dirs
                        else filter (\<lambda>x. x \<noteq> i) dirs))"

section \<open>One account per Telegram identity\<close>

lemma select_identity:
  assumes inv: "accounts_inv d" and s: "select_account e u a dir tg d = (Inr (acc, usr, st), d')"
    and one: "distinct (map id_tg (identities d))" and pos: "0 < tg"
  shows "\<lparr>id_tg = tg, id_account = acc\<rparr> \<in> set (identities d')"
    and "\<exists>t \<in> set (accounts d'). acc_id t = acc \<and> acc_user t = usr \<and> acc_tg t = Some tg \<and> acc_status t = st"
    and "accounts_inv d'" and "distinct (map id_tg (identities d'))"
    and "set (identities d) \<subseteq> set (identities d')"
proof -
  note ai = accounts_invD [OF inv]
  consider (own) t x where "identity_account tg d = Some t" "find (\<lambda>x. id_tg x = tg) (identities d) = Some x"
      "find (\<lambda>a. acc_id a = id_account x) (accounts d) = Some t"
    | (none) "identity_account tg d = None" "tg \<notin> id_tg ` set (identities d)"
  proof (cases "find (\<lambda>x. id_tg x = tg) (identities d)")
    case None
    then have "tg \<notin> id_tg ` set (identities d)" by (force simp: find_None_iff)
    then show ?thesis using that(2) None by (simp add: identity_account_def)
  next
    case (Some x)
    then obtain b where "b \<in> set (accounts d)" "acc_id b = id_account x"
      using ai(4) [of x] find_in_set [OF Some] by blast
    then obtain t where "find (\<lambda>a. acc_id a = id_account x) (accounts d) = Some t"
      using find_exists [of b "accounts d" "\<lambda>a. acc_id a = id_account x"] by blast
    then show ?thesis using that(1) Some by (simp add: identity_account_def)
  qed
  then have all: "\<lparr>id_tg = tg, id_account = acc\<rparr> \<in> set (identities d')
    \<and> (\<exists>t \<in> set (accounts d'). acc_id t = acc \<and> acc_user t = usr \<and> acc_tg t = Some tg \<and> acc_status t = st)
    \<and> accounts_inv d' \<and> distinct (map id_tg (identities d'))
    \<and> set (identities d) \<subseteq> set (identities d')"
  proof cases
    case own
    have x: "x \<in> set (identities d)" "id_tg x = tg" using find_in_set [OF own(2)] by auto
    have t: "t \<in> set (accounts d)" "acc_id t = id_account x" using find_in_set [OF own(3)] by auto
    obtain b where b: "b \<in> set (accounts d)" "acc_id b = id_account x" "acc_tg b = Some (id_tg x)"
      using ai(4) [OF x(1)] by blast
    have "b = t" by (rule key_unique [OF ai(1) b(1) t(1)]) (simp add: b t)
    moreover have "x = \<lparr>id_tg = tg, id_account = acc_id t\<rparr>"
      by (rule identity.equality) (use x t in simp_all)
    moreover have "d' = d" "acc = acc_id t" "usr = acc_user t" "st = acc_status t"
      using s own(1) by (simp_all add: select_account_def)
    ultimately show ?thesis
      using x t(1) b(3) inv one by (intro conjI bexI [of _ t]) simp_all
  next
    case none
    show ?thesis
    proof (cases "oldest_account tg d")
      case (Some t)
      have t: "t \<in> set (accounts d)" "acc_tg t = Some tg"
      proof -
        let ?fs = "filter (\<lambda>a. acc_tg a = Some tg) (accounts d)"
        let ?s = "sort_key (\<lambda>a. (acc_created a, acc_id a)) ?fs"
        have "t \<in> set ?s"
        proof (cases ?s)
          case Nil
          with Some show ?thesis by (simp only: oldest_account_def list.case option.distinct)
        next
          case (Cons b bs)
          with Some have "b = t" by (simp only: oldest_account_def list.case option.inject)
          with Cons show ?thesis by (metis list.set_intros(1))
        qed
        then have "t \<in> set ?fs" by (simp only: set_sort)
        then show "t \<in> set (accounts d)" "acc_tg t = Some tg" by auto
      qed
      have d': "d' = d\<lparr>identities := identities d @ [\<lparr>id_tg = tg, id_account = acc_id t\<rparr>]\<rparr>"
        "acc = acc_id t" "usr = acc_user t" "st = acc_status t"
        using s none(1) Some by (auto simp: select_account_def insert_identity_def split: if_splits)
      have "accounts_inv d'"
      proof -
        have "\<forall>x \<in> set (identities d'). \<exists>b \<in> set (accounts d). acc_id b = id_account x \<and> acc_tg b = Some (id_tg x)"
        proof
          fix x assume "x \<in> set (identities d')"
          then have "x \<in> set (identities d) \<or> x = \<lparr>id_tg = tg, id_account = acc_id t\<rparr>"
            by (simp add: d'(1)) blast
          then show "\<exists>b \<in> set (accounts d). acc_id b = id_account x \<and> acc_tg b = Some (id_tg x)"
            using ai(4) [of x] t by (elim disjE) (simp, force)
        qed
        moreover have eqs: "accounts d' = accounts d" "users d' = users d" by (simp_all add: d'(1))
        ultimately show ?thesis
          using inv unfolding accounts_inv_def eqs by (elim conjE, intro conjI)
      qed
      then show ?thesis using t none(2) one d' by auto
    next
      case None
      obtain p where p: "dir = Some p"
        using s none(1) None by (auto simp: select_account_def split: if_splits option.splits)
      have d': "d' = d\<lparr>users := users d @ [u], accounts := accounts d @ [pending_account e a u tg p],
            identities := identities d @ [\<lparr>id_tg = tg, id_account = a\<rparr>]\<rparr>"
        "acc = a" "usr = u" "st = Pending" "u \<notin> set (users d)" "a \<notin> acc_id ` set (accounts d)"
        using s none(1) None p
        by (auto simp: select_account_def insert_identity_def Let_def split: if_splits)
      let ?n = "pending_account e a u tg p"
      have n: "acc_id ?n = a" "acc_user ?n = u" "acc_tg ?n = Some tg" "acc_status ?n = Pending"
          "account_ok ?n"
        by (simp_all add: pending_account_def account_ok_def)
      have old: "acc_user b \<noteq> u" if "b \<in> set (accounts d)" for b
        using ai(3) [OF that] d'(5) by metis
      have "accounts_inv d'"
      proof -
        have sel: "accounts d' = accounts d @ [?n]" "users d' = users d @ [u]"
          "identities d' = identities d @ [\<lparr>id_tg = tg, id_account = a\<rparr>]"
          by (simp_all add: d'(1))
        have 1: "distinct (map acc_id (accounts d'))" using ai(1) d'(6) n by (simp add: sel)
        have 2: "acc_id b = acc_id c" if "b \<in> set (accounts d')" "c \<in> set (accounts d')"
          "acc_user b = acc_user c" "acc_tg b = acc_tg c" "acc_tg b \<noteq> None" for b c
        proof -
          have "b \<in> set (accounts d) \<or> b = ?n" "c \<in> set (accounts d) \<or> c = ?n"
            using that(1,2) unfolding sel by auto
          then show ?thesis
            using ai(2) [of b c] that(3-5) old [of b] old [of c] n(2) by (elim disjE) simp_all
        qed
        have 3: "acc_user b \<in> set (users d') \<and> account_ok b" if "b \<in> set (accounts d')" for b
          using that ai(3,5) n unfolding sel by auto
        have 4: "\<exists>b \<in> set (accounts d'). acc_id b = id_account x \<and> acc_tg b = Some (id_tg x)"
          if "x \<in> set (identities d')" for x
          using that ai(4) [of x] n unfolding sel by auto
        show ?thesis unfolding accounts_inv_def using 1 2 3 4 by blast
      qed
      then show ?thesis using n none(2) one d' by auto
    qed
  qed
  then show "\<lparr>id_tg = tg, id_account = acc\<rparr> \<in> set (identities d')"
    and "\<exists>t \<in> set (accounts d'). acc_id t = acc \<and> acc_user t = usr \<and> acc_tg t = Some tg \<and> acc_status t = st"
    and "accounts_inv d'" and "distinct (map id_tg (identities d'))"
    and "set (identities d) \<subseteq> set (identities d')"
    by blast+
qed

text \<open>What other workers may do to the database between the steps of a login.\<close>

definition ident_ext :: "db \<Rightarrow> db \<Rightarrow> bool" where
  "ident_ext d d' =
     (accounts_inv d' \<and> distinct (map id_tg (identities d'))
      \<and> set (identities d) \<subseteq> set (identities d')
      \<and> (\<forall>a \<in> set (accounts d). \<exists>b \<in> set (accounts d'). acc_id b = acc_id a \<and> acc_user b = acc_user a))"

lemma ident_ext_trans: "ident_ext d d1 \<Longrightarrow> ident_ext d1 d2 \<Longrightarrow> ident_ext d d2"
  unfolding ident_ext_def by (metis subset_trans)

lemma ident_ext_other [simp]:
  "ident_ext d (set_online a d') = ident_ext d d'" "ident_ext d (set_offline e a d') = ident_ext d d'"
  "ident_ext (set_offline e a d) d' = ident_ext d d'" "ident_ext (set_online a d) d' = ident_ext d d'"
  by (simp_all add: ident_ext_def accounts_inv_def set_online_def set_offline_def)

lemma attach_beginD:
  assumes inv: "accounts_inv d" "distinct (map id_tg (identities d))"
    and b: "attach_begin e u a storage p d = (Inr (acc, usr), d1)"
  shows "\<lparr>id_tg = pf_tg p, id_account = acc\<rparr> \<in> set (identities d1)"
    and "\<exists>t \<in> set (accounts d1). acc_id t = acc \<and> acc_user t = usr"
    and "accounts_inv d1" "distinct (map id_tg (identities d1))"
proof -
  obtain dir st d0 where s: "select_account e u a dir (pf_tg p) d = (Inr (acc, usr, st), d0)"
    and d1: "d1 = set_offline e acc d0" and pos: "0 < pf_tg p"
    using b by (auto simp: attach_begin_def split: option.splits if_splits sum.splits prod.splits)
  note sel = select_identity [OF inv(1) s inv(2) pos]
  show "\<lparr>id_tg = pf_tg p, id_account = acc\<rparr> \<in> set (identities d1)"
    "\<exists>t \<in> set (accounts d1). acc_id t = acc \<and> acc_user t = usr"
    "accounts_inv d1" "distinct (map id_tg (identities d1))"
    using sel by (auto simp: d1 set_offline_def accounts_inv_def)
qed

text \<open>An identity that is on record selects its account and that account's user.\<close>

lemma attach_begin_known:
  assumes inv: "accounts_inv d" "distinct (map id_tg (identities d))"
    and known: "\<lparr>id_tg = pf_tg p, id_account = acc\<rparr> \<in> set (identities d)"
      "\<exists>t \<in> set (accounts d). acc_id t = acc \<and> acc_user t = usr"
    and b: "attach_begin e u a storage p d = (Inr (acc2, usr2), d1)"
  shows "acc2 = acc \<and> usr2 = usr"
proof -
  note ids = accounts_invD(1) [OF inv(1)]
  obtain x where x: "find (\<lambda>x. id_tg x = pf_tg p) (identities d) = Some x"
    using find_exists [OF known(1), of "\<lambda>x. id_tg x = pf_tg p"] by auto
  have "x = \<lparr>id_tg = pf_tg p, id_account = acc\<rparr>"
    by (rule key_unique [OF inv(2) _ known(1)]) (use find_in_set [OF x] in simp_all)
  then have xa: "id_account x = acc" by simp
  obtain t where t: "t \<in> set (accounts d)" "acc_id t = acc" "acc_user t = usr" using known(2) by blast
  obtain t' where t': "find (\<lambda>b. acc_id b = acc) (accounts d) = Some t'"
    using find_exists [OF t(1), of "\<lambda>b. acc_id b = acc"] t(2) by auto
  have "t' = t" by (rule key_unique [OF ids _ t(1)]) (use find_in_set [OF t'] t in simp_all)
  then have "identity_account (pf_tg p) d = Some t" using x xa t' by (simp add: identity_account_def)
  then have "select_account e u a dir (pf_tg p) d = (Inr (acc, usr, acc_status t), d)" for dir
    using t by (simp add: select_account_def)
  then show ?thesis
    using b by (auto simp: attach_begin_def split: option.splits if_splits)
qed

lemma attach_row_inv:
  assumes inv: "accounts_inv d" "distinct (map id_tg (identities d))" and pos: "0 < pf_tg p"
  shows "ident_ext d (d\<lparr>accounts := update_where (\<lambda>a. acc_id a = acc \<and> acc_tg a = Some (pf_tg p)
           \<and> acc_status a \<noteq> Blocked) (attach_row now dir p) (accounts d)\<rparr>)"
proof -
  let ?p = "\<lambda>a. acc_id a = acc \<and> acc_tg a = Some (pf_tg p) \<and> acc_status a \<noteq> Blocked"
  have row: "acc_id (attach_row now dir p a) = acc_id a" "acc_user (attach_row now dir p a) = acc_user a"
    "acc_tg (attach_row now dir p a) = acc_tg a" for a
    by (simp_all add: attach_row_def)
  have "account_ok (attach_row now dir p a)" if "?p a" for a
    using that pos by (auto simp: account_ok_def attach_row_def)
  then have "accounts_inv (d\<lparr>accounts := update_where ?p (attach_row now dir p) (accounts d)\<rparr>)"
    by (intro accounts_inv_update [OF inv(1)]) (simp add: row)
  moreover have "\<exists>b \<in> set (update_where ?p (attach_row now dir p) (accounts d)).
      acc_id b = acc_id a \<and> acc_user b = acc_user a" if "a \<in> set (accounts d)" for a
    using that row by (intro bexI [of _ "if ?p a then attach_row now dir p a else a"])
      (auto simp: update_where_def)
  ultimately show ?thesis using inv(2) by (simp add: ident_ext_def)
qed

lemma attach_finishD:
  assumes f: "attach_finish e storage p acc usr d = (Inr (usr', acc'), d')"
  shows "usr' = usr \<and> acc' = acc
    \<and> (\<exists>dir. e_uuid e storage = Some dir
         \<and> d' = set_online acc (d\<lparr>accounts := update_where (\<lambda>a. acc_id a = acc
               \<and> acc_tg a = Some (pf_tg p) \<and> acc_status a \<noteq> Blocked)
               (attach_row (e_now e) dir p) (accounts d)\<rparr>)
         \<and> exists_row (\<lambda>a. acc_id a = acc \<and> acc_tg a = Some (pf_tg p) \<and> acc_status a \<noteq> Blocked)
              (accounts d))"
proof -
  let ?own = "\<lambda>a. acc_id a = acc \<and> acc_tg a = Some (pf_tg p) \<and> acc_status a \<noteq> Blocked"
  have "affected ?own (accounts d) = 1"
    using f by (auto simp: attach_finish_def Let_def split: if_splits option.splits)
  then have "exists_row ?own (accounts d)"
    using affected_0 [of ?own "accounts d"] by linarith
  then show ?thesis
    using f by (auto simp: attach_finish_def Let_def split: if_splits option.splits)
qed

lemma await_freeD:
  assumes "await_free storage p acc usr polls d0 = (Inr (usr', acc'), d')"
  shows "\<exists>e d. (e, d) \<in> set polls \<and> attach_finish e storage p acc usr d = (Inr (usr', acc'), d')"
  using assms
proof (induction polls arbitrary: d0)
  case (Cons x polls)
  obtain e d where x: "x = (e, d)" by (cases x)
  show ?case
  proof (cases "lease_gone e acc d")
    case (Inl err)
    then show ?thesis using Cons.prems x by simp
  next
    case (Inr b)
    show ?thesis
    proof (cases b)
      case True
      then show ?thesis using Cons.prems x Inr by auto
    next
      case False
      then have "await_free storage p acc usr polls d = (Inr (usr', acc'), d')"
        using Cons.prems x Inr by simp
      from Cons.IH [OF this] show ?thesis by auto
    qed
  qed
qed simp

text \<open>C15: A Telegram identity owns one account: a completed login leaves an active account
  with that identity and the login's session directory, and every later completed login of
  the same identity, from any browser, returns the same user and the same account.\<close>

theorem attach_login_single_account:
  assumes inv: "accounts_inv d" "distinct (map id_tg (identities d))"
    and first: "AttachLogin e u a storage p d polls = (Inr (usr, acc), d')"
    and quiet: "\<And>e2 d2. (e2, d2) \<in> set (polls (snd (attach_begin e u a storage p d))) \<Longrightarrow>
      ident_ext (snd (attach_begin e u a storage p d)) d2 \<and> e_uuid e2 = e_uuid e"
    and between: "ident_ext d' d2"
    and again: "AttachLogin e3 u3 a3 storage3 p3 d2 polls3 = (Inr (usr3, acc3), d3)"
    and same: "pf_tg p3 = pf_tg p"
  shows "(usr3, acc3) = (usr, acc)
    \<and> (\<exists>t \<in> set (accounts d'). acc_id t = acc \<and> acc_status t = Active
         \<and> acc_tg t = Some (pf_tg p) \<and> e_uuid e storage = Some (acc_session_dir t))"
proof -
  obtain d1 where b: "attach_begin e u a storage p d = (Inr (acc, usr), d1)"
    and w: "await_free storage p acc usr (polls d1) d1 = (Inr (usr, acc), d')"
  proof -
    obtain acc0 usr0 d1 where b: "attach_begin e u a storage p d = (Inr (acc0, usr0), d1)"
      and w: "await_free storage p acc0 usr0 (polls d1) d1 = (Inr (usr, acc), d')"
      using first by (auto simp: AttachLogin_def split: sum.splits prod.splits)
    have "usr = usr0 \<and> acc = acc0" using await_freeD [OF w] attach_finishD by blast
    then show ?thesis using that b w by blast
  qed
  note bd = attach_beginD [OF inv b]
  have pos: "0 < pf_tg p"
    using b by (auto simp: attach_begin_def split: option.splits if_splits)
  obtain ef df where fin: "(ef, df) \<in> set (polls d1)" "attach_finish ef storage p acc usr df = (Inr (usr, acc), d')"
    using await_freeD [OF w] by blast
  obtain dir where dir: "e_uuid ef storage = Some dir"
    and d': "d' = set_online acc (df\<lparr>accounts := update_where (\<lambda>a. acc_id a = acc
               \<and> acc_tg a = Some (pf_tg p) \<and> acc_status a \<noteq> Blocked)
               (attach_row (e_now ef) dir p) (accounts df)\<rparr>)"
    and ex: "exists_row (\<lambda>a. acc_id a = acc \<and> acc_tg a = Some (pf_tg p) \<and> acc_status a \<noteq> Blocked) (accounts df)"
    using attach_finishD [OF fin(2)] by blast
  have e1: "ident_ext d1 df" "e_uuid ef = e_uuid e" using quiet b fin(1) by simp_all
  have e2: "ident_ext df d'"
    unfolding d' ident_ext_other
    by (rule attach_row_inv [OF _ _ pos]) (use e1(1) in \<open>simp_all add: ident_ext_def\<close>)
  have e3: "ident_ext d1 d2" by (rule ident_ext_trans [OF ident_ext_trans [OF e1(1) e2] between])
  have known: "\<lparr>id_tg = pf_tg p3, id_account = acc\<rparr> \<in> set (identities d2)"
    "\<exists>t \<in> set (accounts d2). acc_id t = acc \<and> acc_user t = usr"
    using e3 bd(1,2) same by (auto simp: ident_ext_def)
  obtain acc4 usr4 d4 where b3: "attach_begin e3 u3 a3 storage3 p3 d2 = (Inr (acc4, usr4), d4)"
    and w3: "await_free storage3 p3 acc4 usr4 (polls3 d4) d4 = (Inr (usr3, acc3), d3)"
    using again by (auto simp: AttachLogin_def split: sum.splits prod.splits)
  have "acc4 = acc \<and> usr4 = usr"
    by (rule attach_begin_known [OF _ _ known b3]) (use between in \<open>simp_all add: ident_ext_def\<close>)
  moreover have "usr3 = usr4 \<and> acc3 = acc4" using await_freeD [OF w3] attach_finishD by blast
  moreover obtain t where t: "t \<in> set (accounts df)" "acc_id t = acc" "acc_tg t = Some (pf_tg p)"
    "acc_status t \<noteq> Blocked"
    using ex by (auto simp: exists_row_def)
  then have "attach_row (e_now ef) dir p t \<in> set (accounts d')"
    unfolding d' by (auto simp: set_online_def in_update_where)
  moreover have "acc_id (attach_row (e_now ef) dir p t) = acc"
    "acc_status (attach_row (e_now ef) dir p t) = Active"
    "acc_tg (attach_row (e_now ef) dir p t) = Some (pf_tg p)"
    "acc_session_dir (attach_row (e_now ef) dir p t) = dir"
    using t by (simp_all add: attach_row_def)
  ultimately show ?thesis
    using dir e1(2) by (intro conjI bexI [of _ "attach_row (e_now ef) dir p t"]) simp_all
qed

text \<open>What every outcome of a login leaves to the others.\<close>

lemma set_update_eq:
  "accounts (set_offline e a d) = accounts d" "identities (set_offline e a d) = identities d"
  "accounts (set_online a d) = accounts d" "identities (set_online a d) = identities d"
  by (simp_all add: set_offline_def set_online_def)

lemma select_account_keeps:
  "set (accounts d) \<subseteq> set (accounts (snd (select_account e u a dir tg d)))"
  by (simp add: select_account_def insert_identity_def Let_def split: option.split) blast

lemma ident_ext_refl:
  "accounts_inv d \<Longrightarrow> distinct (map id_tg (identities d)) \<Longrightarrow> ident_ext d d"
  by (auto simp: ident_ext_def)

lemma attach_begin_ext:
  assumes inv: "accounts_inv d" "distinct (map id_tg (identities d))"
  shows "ident_ext d (snd (attach_begin e u a storage p d))"
proof (cases "fst (attach_begin e u a storage p d)")
  case (Inl err)
  then have "snd (attach_begin e u a storage p d) = d"
    by (auto simp: attach_begin_def split: option.splits if_splits sum.splits prod.splits)
  then show ?thesis using ident_ext_refl [OF inv] by simp
next
  case (Inr r)
  obtain acc usr d1 where b: "attach_begin e u a storage p d = (Inr (acc, usr), d1)"
    using Inr by (cases "attach_begin e u a storage p d", cases r) auto
  obtain dir st d0 where s: "select_account e u a dir (pf_tg p) d = (Inr (acc, usr, st), d0)"
    and d1: "d1 = set_offline e acc d0" and pos: "0 < pf_tg p"
    using b by (auto simp: attach_begin_def split: option.splits if_splits sum.splits prod.splits)
  note sel = select_identity [OF inv(1) s inv(2) pos]
  have "set (accounts d) \<subseteq> set (accounts d0)"
    using select_account_keeps [of d e u a dir "pf_tg p"] s by simp
  then have "ident_ext d d0" using sel by (auto simp: ident_ext_def)
  then show ?thesis by (simp add: b d1)
qed

lemma attach_finish_ext:
  assumes inv: "accounts_inv d" "distinct (map id_tg (identities d))" and pos: "0 < pf_tg p"
  shows "ident_ext d (snd (attach_finish e storage p acc usr d))"
  using attach_row_inv [OF inv pos] ident_ext_refl [OF inv]
  by (simp add: attach_finish_def Let_def split: option.split)

lemma await_free_ext:
  assumes "ident_ext d d0" and "\<And>e2 d2. (e2, d2) \<in> set polls \<Longrightarrow> ident_ext d d2" and pos: "0 < pf_tg p"
  shows "ident_ext d (snd (await_free storage p acc usr polls d0))"
  using assms(1,2)
proof (induction polls arbitrary: d0)
  case (Cons x polls)
  obtain e2 d2 where x: "x = (e2, d2)" by (cases x)
  have ext: "ident_ext d d2" by (rule Cons.prems(2) [of e2]) (simp add: x)
  have fin: "ident_ext d (snd (attach_finish e2 storage p acc usr d2))"
    by (rule ident_ext_trans [OF ext attach_finish_ext [OF _ _ pos]])
      (use ext in \<open>simp_all add: ident_ext_def\<close>)
  have rest: "ident_ext d (snd (await_free storage p acc usr polls d2))"
  proof (rule Cons.IH [OF ext])
    fix e3 d3 assume "(e3, d3) \<in> set polls"
    then show "ident_ext d d3" by (intro Cons.prems(2) [of e3]) simp
  qed
  show ?case using ext fin rest by (simp add: x split: sum.split bool.split)
qed simp

text \<open>The environment of an attachment's polls: they see only what others may do.\<close>

definition quiet_polls ::
    "env \<Rightarrow> uuid \<Rightarrow> uuid \<Rightarrow> string \<Rightarrow> profile \<Rightarrow> db \<Rightarrow> (db \<Rightarrow> (env \<times> db) list) \<Rightarrow> bool" where
  "quiet_polls e u a storage p d polls =
     (let d1 = snd (attach_begin e u a storage p d) in
      \<forall>(e2, d2) \<in> set (polls d1). ident_ext d1 d2 \<and> e_uuid e2 = e_uuid e)"

lemma AttachLogin_ext:
  assumes inv: "accounts_inv d" "distinct (map id_tg (identities d))"
    and quiet: "quiet_polls e u a storage p d polls"
  shows "ident_ext d (snd (AttachLogin e u a storage p d polls))"
proof (cases "fst (attach_begin e u a storage p d)")
  case (Inl err)
  then show ?thesis
    using attach_begin_ext [OF inv, of e u a storage p]
    by (cases "attach_begin e u a storage p d") (simp add: AttachLogin_def)
next
  case (Inr r)
  obtain acc usr d1 where b: "attach_begin e u a storage p d = (Inr (acc, usr), d1)"
    using Inr by (cases "attach_begin e u a storage p d", cases r) auto
  have pos: "0 < pf_tg p"
    using b by (auto simp: attach_begin_def split: option.splits if_splits)
  have ext: "ident_ext d d1" using attach_begin_ext [OF inv, of e u a storage p] b by simp
  have polls: "ident_ext d d2" if "(e2, d2) \<in> set (polls d1)" for e2 d2
    using quiet that b ident_ext_trans [OF ext] by (auto simp: quiet_polls_def)
  show ?thesis
    using await_free_ext [OF ext polls pos] by (simp add: AttachLogin_def b)
qed

lemma AttachLogin_identity:
  assumes inv: "accounts_inv d" "distinct (map id_tg (identities d))"
    and quiet: "quiet_polls e u a storage p d polls"
    and ok: "AttachLogin e u a storage p d polls = (Inr (usr, acc), d')"
  shows "\<lparr>id_tg = pf_tg p, id_account = acc\<rparr> \<in> set (identities d')" and "0 < pf_tg p"
proof -
  obtain acc0 usr0 d1 where b: "attach_begin e u a storage p d = (Inr (acc0, usr0), d1)"
    and w: "await_free storage p acc0 usr0 (polls d1) d1 = (Inr (usr, acc), d')"
    using ok by (auto simp: AttachLogin_def split: sum.splits prod.splits)
  show pos: "0 < pf_tg p"
    using b by (auto simp: attach_begin_def split: option.splits if_splits)
  obtain ef df where fin: "(ef, df) \<in> set (polls d1)"
    "attach_finish ef storage p acc0 usr0 df = (Inr (usr, acc), d')"
    using await_freeD [OF w] by blast
  have "acc = acc0" "identities d' = identities df"
    using attach_finishD [OF fin(2)] by (auto simp: set_update_eq)
  moreover have "set (identities d1) \<subseteq> set (identities df)"
    using quiet fin(1) b by (auto simp: quiet_polls_def ident_ext_def)
  ultimately show "\<lparr>id_tg = pf_tg p, id_account = acc\<rparr> \<in> set (identities d')"
    using attach_beginD(1) [OF inv b] by auto
qed

section \<open>Witness\<close>

definition demo_profile :: profile where
  "demo_profile = \<lparr>pf_tg = 77, pf_display = ''Ann'', pf_username = []\<rparr>"

definition demo_attach :: "uuid \<Rightarrow> db \<Rightarrow> (uuid \<times> uuid) result \<times> db" where
  "demo_attach storage d =
     AttachLogin demo_env ''u9'' ''a9'' storage demo_profile d (\<lambda>d1. [(demo_env, d1)])"

definition demo_attached :: "uuid \<Rightarrow> identity list \<Rightarrow> time \<Rightarrow> db" where
  "demo_attached storage ids now = demo_db
     \<lparr>accounts := [attach_row now storage demo_profile demo_account, demo_blocked],
      identities := [\<lparr>id_tg = 77, id_account = ''a1''\<rparr>],
      runtimes := [(new_runtime demo_env ''a1'' ''default'' DOffline)\<lparr>sr_desired := DOnline\<rparr>]\<rparr>"

lemma demo_attach_first:
  "demo_attach ''s1'' demo_db = (Inr (''u1'', ''a1''), demo_attached ''s1'' [] 5000000)"
  by (simp add: demo_attach_def AttachLogin_def attach_begin_def select_account_def identity_account_def
      oldest_account_def insert_identity_def set_offline_def lease_gone_def attach_finish_def
      set_online_def demo_attached_def demo_profile_def new_runtime_def upsert_def exists_row_def
      update_where_def affected_def demo_defs demo_env_def)

lemma demo_attach_second:
  "\<exists>d. demo_attach ''s2'' (demo_attached ''s1'' [] 5000000) = (Inr (''u1'', ''a1''), d)"
  by (simp add: demo_attach_def AttachLogin_def attach_begin_def select_account_def identity_account_def
      oldest_account_def insert_identity_def set_offline_def lease_gone_def attach_finish_def
      set_online_def demo_attached_def demo_profile_def new_runtime_def upsert_def exists_row_def
      update_where_def affected_def attach_row_def demo_defs demo_env_def)

lemma demo_ident_ext:
  assumes "accounts_inv d" "distinct (map id_tg (identities d))"
  shows "ident_ext d d"
  using assms by (auto simp: ident_ext_def)

theorem attach_login_single_account_witness:
  "fst (demo_attach ''s1'' demo_db) = fst (demo_attach ''s2'' (demo_attached ''s1'' [] 5000000))"
proof -
  have inv: "distinct (map id_tg (identities demo_db))" by (simp add: demo_defs)
  have inv2: "accounts_inv (demo_attached ''s1'' [] 5000000)"
    by (simp add: accounts_inv_def demo_attached_def account_ok_def attach_row_def demo_profile_def
        demo_defs)
  obtain d2 where second: "demo_attach ''s2'' (demo_attached ''s1'' [] 5000000) = (Inr (''u1'', ''a1''), d2)"
    using demo_attach_second by blast
  let ?b = "attach_begin demo_env ''u9'' ''a9'' ''s1'' demo_profile demo_db"
  obtain d1 where b: "?b = (Inr (''a1'', ''u1''), d1)"
  proof -
    have "fst ?b = Inr (''a1'', ''u1'')"
      by (simp add: attach_begin_def select_account_def identity_account_def oldest_account_def
          insert_identity_def demo_profile_def demo_defs demo_env_def)
    then show ?thesis using that by (cases ?b) simp
  qed
  have quiet: "ident_ext (snd ?b) (snd ?b)"
    using attach_beginD(3,4) [OF demo_accounts_inv inv b] by (simp add: b demo_ident_ext)
  have between: "ident_ext (demo_attached ''s1'' [] 5000000) (demo_attached ''s1'' [] 5000000)"
    by (rule demo_ident_ext [OF inv2]) (simp add: demo_attached_def)
  have "(''u1'', ''a1'') = (''u1'', ''a1'') \<and> (\<exists>t \<in> set (accounts (demo_attached ''s1'' [] 5000000)).
      acc_id t = ''a1'' \<and> acc_status t = Active \<and> acc_tg t = Some (pf_tg demo_profile)
      \<and> e_uuid demo_env ''s1'' = Some (acc_session_dir t))"
    by (rule attach_login_single_account [OF demo_accounts_inv inv
          demo_attach_first [unfolded demo_attach_def] _ between second [unfolded demo_attach_def] refl])
      (use quiet in simp)
  then show ?thesis using demo_attach_first second by simp
qed

end
