(* ===== verification/WebAuth.thy ===== *)
theory WebAuth
  imports Http Gateway
begin

text \<open>
  \<open>internal/webauth\<close>: browser sessions (\<open>service.go\<close>) and the Telegram login that opens
  one (\<open>login.go\<close>).  A login attempt lives in the process, keyed by the digest of the
  login cookie; requests of one attempt are serialised by its lock, so a request is one step.
  \<open>base\<close> is the service's base URL without trailing slashes.
\<close>

section \<open>Browser sessions (service.go)\<close>

definition go_hash :: "env \<Rightarrow> string \<Rightarrow> bytes" where  \<comment> \<open>digest, and hash of the OAuth server\<close>
  "go_hash e v = e_sha e v"

definition csrf :: "env \<Rightarrow> string \<Rightarrow> string" where
  "csrf e v = b64_encode (go_hash e (''browser-csrf:'' @ v))"

definition https_base :: "string \<Rightarrow> bool" where
  "https_base base = has_prefix base ''https://''"

definition cookieName :: "string \<Rightarrow> string \<Rightarrow> string" where
  "cookieName base kind = (if https_base base then ''__Host-tgw_'' @ kind else ''tgw_'' @ kind)"

definition set_cookie :: "string \<Rightarrow> string \<Rightarrow> string \<Rightarrow> int \<Rightarrow> cookie" where
  "set_cookie base kind v age =
     \<lparr>ck_name = cookieName base kind, ck_value = v, ck_path = ''/'', ck_secure = https_base base,
      ck_age = age\<rparr>"

record browser_principal =
  bp_user :: uuid
  bp_account :: uuid
  bp_name :: string
  bp_csrf :: string

text \<open>The join of \<open>Authenticate\<close>; account ids are unique, so it has at most one row.\<close>

definition live_session :: "env \<Rightarrow> bytes \<Rightarrow> db \<Rightarrow> (browser_session \<times> account) option" where
  "live_session e h d =
     (case find (\<lambda>s. bs_hash s = h \<and> e_now e < bs_expires s) (sessions d) of
        None \<Rightarrow> None
      | Some s \<Rightarrow>
          (case find (\<lambda>a. acc_id a = bs_account s \<and> acc_user a = bs_user s \<and> acc_status a = Active)
                  (accounts d) of
             None \<Rightarrow> None
           | Some a \<Rightarrow> Some (s, a)))"

definition Authenticate :: "env \<Rightarrow> string \<Rightarrow> request \<Rightarrow> db \<Rightarrow> browser_principal result" where
  [handler_defs]: "Authenticate e base r d =
     (case rq_cookie r (cookieName base ''session'') of
        None \<Rightarrow> Inl (Msg ''sign in required'')
      | Some v \<Rightarrow>
          if length v \<noteq> 43 then Inl (Msg ''sign in required'')
          else if e_fail e ''web.Authenticate'' then Inl (DbErr ''select'')
          else (case live_session e (go_hash e v) d of
                  None \<Rightarrow> Inl NoRows
                | Some (s, a) \<Rightarrow>
                    Inr \<lparr>bp_user = bs_user s, bp_account = bs_account s,
                         bp_name = (case acc_display a of None \<Rightarrow> ''Telegram account'' | Some n \<Rightarrow> n),
                         bp_csrf = csrf e v\<rparr>))"

definition origin_ok :: "string \<Rightarrow> request \<Rightarrow> bool" where
  "origin_ok base r = (rq_header r ''Origin'' = [] \<or> rq_header r ''Origin'' = base)"

definition CheckCSRF :: "string \<Rightarrow> request \<Rightarrow> browser_principal \<Rightarrow> bool" where
  "CheckCSRF base r p = (origin_ok base r \<and> rq_header r ''X-CSRF-Token'' = bp_csrf p)"

definition thirty_days :: time where
  "thirty_days = 30 * 24 * 3600 * 1000000"

text \<open>\<open>IssueCookie\<close>; \<open>rnd\<close> are the 32 random bytes behind the cookie's value.\<close>

definition IssueCookie ::
    "env \<Rightarrow> string \<Rightarrow> bytes \<Rightarrow> string \<Rightarrow> string \<Rightarrow> db \<Rightarrow> cookie result \<times> db" where
  [handler_defs]: "IssueCookie e base rnd user account d =
     (let v = b64_encode rnd in
      if e_fail e ''IssueCookie'' then (Inl (DbErr ''insert''), d)
      else (case (e_uuid e account, e_uuid e user) of
          (Some a, Some u) \<Rightarrow>
            if \<not> exists_row (\<lambda>t. acc_id t = a \<and> acc_user t = u \<and> acc_status t = Active) (accounts d)
              then (Inl (Msg ''account is unavailable''), d)
            else if go_hash e v \<in> bs_hash ` set (sessions d) then (Inl (DbErr ''duplicate key''), d)
            else (Inr (set_cookie base ''session'' v (30 * 24 * 3600)),
                  d\<lparr>sessions := sessions d @
                     [\<lparr>bs_hash = go_hash e v, bs_user = u, bs_account = a,
                       bs_expires = e_now e + thirty_days\<rparr>]\<rparr>)
        | _ \<Rightarrow> (Inl (DbErr ''invalid uuid''), d)))"

definition Logout :: "env \<Rightarrow> string \<Rightarrow> request \<Rightarrow> db \<Rightarrow> cookie result \<times> db" where
  [handler_defs]: "Logout e base r d =
     (let cleared = set_cookie base ''session'' [] (- 1) in
      case rq_cookie r (cookieName base ''session'') of
        None \<Rightarrow> (Inr cleared, d)
      | Some v \<Rightarrow>
          if e_fail e ''Logout'' then (Inl (DbErr ''delete''), d)
          else (Inr cleared,
                d\<lparr>sessions := delete_where (\<lambda>s. bs_hash s = go_hash e v) (sessions d)\<rparr>))"

definition safeNext :: "env \<Rightarrow> string \<Rightarrow> string" where
  "safeNext e raw =
     (case url_parse (e_addr e) raw of
        None \<Rightarrow> ''/account''
      | Some u \<Rightarrow>
          if u_host u \<noteq> [] \<or> u_scheme u \<noteq> [] \<or> u_fragment u \<noteq> [] then ''/account''
          else if u_path u \<noteq> ''/oauth/authorize'' \<and> u_path u \<noteq> ''/account'' then ''/account''
          else request_uri u)"

definition LoginURL :: "env \<Rightarrow> string \<Rightarrow> string" where
  "LoginURL e next = ''/login?return_to='' @ url_escape EQuery (safeNext e next)"

definition allow :: "env \<Rightarrow> string \<Rightarrow> rat \<Rightarrow> rat \<Rightarrow> world \<Rightarrow> bool \<times> world" where
  "allow e key capacity rate w =
     (case limit_check e key \<lparr>l_capacity = capacity, l_refill = rate, l_cost = 1\<rparr> w of
        (Inl err, w') \<Rightarrow> (False, w')
      | (Inr res, w') \<Rightarrow> (r_allowed res, w'))"

section \<open>Login attempts (login.go)\<close>

record attempt =
  lg_session :: bool  \<comment> \<open>the Telegram session is set\<close>
  lg_open :: bool  \<comment> \<open>and not closed\<close>
  lg_storage :: string
  lg_ip :: string
  lg_next :: string
  lg_expires :: time
  lg_profile :: "profile option"
  lg_complete :: bool
  lg_issued :: bool
  lg_closed :: bool
  lg_user :: string
  lg_account :: string

text \<open>
  What the Telegram side answers during one request: whether a login session could be opened,
  the outcome of an authorization step, whether the session is ready, the verified profile,
  the state to show, the picture of a link, and what \<open>AttachLogin\<close> needs (ids of new rows
  and its polls).
\<close>

record backend =
  be_new :: "unit result"
  be_authorize :: "string \<Rightarrow> string \<Rightarrow> unit result"
  be_ready :: bool
  be_profile :: "profile result"
  be_state :: "(string \<times> json) list"
  be_qr :: "string \<Rightarrow> string option"
  be_user :: uuid
  be_account :: uuid
  be_polls :: "db \<Rightarrow> (env \<times> db) list"
  be_data_dir :: string

record login_world =
  lw_world :: world
  lw_attempts :: "(string \<times> attempt) list"
  lw_dirs :: "string list"

definition lookup_attempt :: "string \<Rightarrow> login_world \<Rightarrow> attempt option" where
  "lookup_attempt key w = map_of (lw_attempts w) key"

definition put_attempt :: "string \<Rightarrow> attempt \<Rightarrow> login_world \<Rightarrow> login_world" where
  "put_attempt key a w =
     w\<lparr>lw_attempts := (if key \<in> fst ` set (lw_attempts w)
        then map (\<lambda>(k, b). if k = key then (k, a) else (k, b)) (lw_attempts w)
        else lw_attempts w @ [(key, a)])\<rparr>"

definition drop_attempt :: "string \<Rightarrow> login_world \<Rightarrow> login_world" where
  "drop_attempt key w = w\<lparr>lw_attempts := filter (\<lambda>(k, b). k \<noteq> key) (lw_attempts w)\<rparr>"

definition lq :: string where  \<comment> \<open>U+2018\<close>
  "lq = [CHR 0xE2, CHR 0x80, CHR 0x98]"

definition bad_request :: response where
  "bad_request = reply_error 400 (''Noto'' @ lq @ ''g'' @ lq @ ''ri so'' @ lq @ ''rov.'')"

definition ten_minutes :: time where
  "ten_minutes = 600 * 1000000"

text \<open>
  \<open>POST /auth/login/start\<close>; \<open>sid\<close> is the new storage id.  A request is one step, so an attempt
  whose session cannot be opened leaves no entry behind; in the code the entry is there while
  the session is being opened, and is then deleted.
\<close>

definition login_start ::
    "env \<Rightarrow> backend \<Rightarrow> string \<Rightarrow> string \<Rightarrow> string \<Rightarrow> request \<Rightarrow> login_world
       \<Rightarrow> response \<times> login_world" where
  [handler_defs]: "login_start e b sid key ip r w =
     (case allow e (''rl:login-start:'' @ ip) 5 (1 / 60) (lw_world w) of
        (ok, ww) \<Rightarrow>
          (let w = w\<lparr>lw_world := ww\<rparr> in
           if \<not> ok then
             (reply_error 429 (''Kirish urinishlari ko'' @ lq @ ''paydi. Bir daqiqa kuting.''), w)
           else (case decode_body 16384 (rq_body r) of
               None \<Rightarrow> (bad_request, w)
             | Some v \<Rightarrow>
               (case members_of v of
                  None \<Rightarrow> (bad_request, w)
                | Some m \<Rightarrow>
                  (case struct_field ''return_to'' dec_str [] m of
                     None \<Rightarrow> (bad_request, w)
                   | Some next \<Rightarrow>
                     (case lookup_attempt key w of
                        Some a \<Rightarrow> (reply 200 (JObj [(''status'', JStr ''started'')]), w)
                      | None \<Rightarrow>
                        if 20 \<le> length (lw_attempts w)
                           \<or> 5 \<le> length (filter (\<lambda>(k, a). lg_ip a = ip) (lw_attempts w))
                        then (reply_error 429
                                (''Hozir kirish navbati band. Keyinroq qayta urinib ko'' @ lq @ ''ring.''), w)
                        else (let a = \<lparr>lg_session = False, lg_open = False, lg_storage = sid, lg_ip = ip,
                                       lg_next = safeNext e next,
                                       lg_expires = e_clock e + ten_minutes, lg_profile = None,
                                       lg_complete = False, lg_issued = False, lg_closed = False,
                                       lg_user = [], lg_account = []\<rparr>
                              in (case be_new b of
                                    Inl err \<Rightarrow>
                                      (reply_error 503 (''Telegram ulanishini boshlash imkoni bo'' @ lq @ ''lmadi.''),
                                       w\<lparr>lw_dirs := DiscardLoginStorage e (be_data_dir b) sid
                                                       (wd_db (lw_world w)) (lw_dirs w)\<rparr>)
                                  | Inr _ \<Rightarrow>
                                      (reply 200 (JObj [(''status'', JStr ''started'')]),
                                       (put_attempt key (a\<lparr>lg_session := True, lg_open := True\<rparr>) w)
                                         \<lparr>lw_dirs := lw_dirs w @ [sid]\<rparr>)))))))))"

text \<open>\<open>POST /auth/login/action\<close>\<close>

definition login_action ::
    "env \<Rightarrow> backend \<Rightarrow> string \<Rightarrow> attempt \<Rightarrow> request \<Rightarrow> login_world \<Rightarrow> response \<times> login_world" where
  [handler_defs]: "login_action e b ip a r w =
     (case allow e (''rl:login-action:'' @ ip) 10 (1 / 6) (lw_world w) of
        (ok, ww) \<Rightarrow>
          (let w = w\<lparr>lw_world := ww\<rparr> in
           if \<not> ok then (reply_error 429 (''Biroz kutib qayta urinib ko'' @ lq @ ''ring.''), w)
           else (case Option.bind (decode_body 16384 (rq_body r)) members_of of
               None \<Rightarrow> (bad_request, w)
             | Some m \<Rightarrow>
               (case (struct_field ''action'' dec_str [] m, struct_field ''value'' dec_str [] m) of
                  (Some action, Some v) \<Rightarrow>
                    if 1024 < length v \<or> lg_complete a \<or> lg_profile a \<noteq> None then (bad_request, w)
                    else (let v = (if action \<noteq> ''password'' then trim_space v else v) in
                          (case be_authorize b action v of
                             Inl (Msg m) \<Rightarrow> (reply_error 400 m, w)
                           | Inl err \<Rightarrow> (reply_error 400 [], w)
                           | Inr _ \<Rightarrow> (reply 200 (JObj [(''status'', JStr ''accepted'')]), w)))
                | _ \<Rightarrow> (bad_request, w)))))"

definition login_event :: "string \<Rightarrow> event" where
  "login_event account =
     \<lparr>ev_account = Some account, ev_actor_type = ''SYSTEM'', ev_actor = ''telegram-login'',
      ev_action = ''USER_TELEGRAM_LOGIN'', ev_resource_type = ''telegram_account'',
      ev_resource = account, ev_ip = [], ev_agent = [], ev_request = None, ev_meta = JObj [],
      ev_created = zero_time\<rparr>"

definition finish_failed :: response where
  "finish_failed = reply_error 503 (''Kirishni yakunlab bo'' @ lq @ ''lmadi.'')"

text \<open>
  The steps of \<open>GET /auth/login/state\<close> once the profile is known: attach, audit, issue the
  cookie.  Each step that succeeded is remembered in the attempt and not repeated.
\<close>

definition login_attach ::
    "env \<Rightarrow> backend \<Rightarrow> profile \<Rightarrow> attempt \<Rightarrow> db \<Rightarrow> (attempt result) \<times> db" where
  "login_attach e b p a d =
     (if lg_account a \<noteq> [] then (Inr a, d)
      else (case AttachLogin e (be_user b) (be_account b) (lg_storage a) p d (be_polls b) of
              (Inl err, d') \<Rightarrow> (Inl err, d')
            | (Inr (user, account), d') \<Rightarrow> (Inr (a\<lparr>lg_user := user, lg_account := account\<rparr>), d')))"

definition login_finish ::
    "env \<Rightarrow> string \<Rightarrow> backend \<Rightarrow> bytes \<Rightarrow> string \<Rightarrow> profile \<Rightarrow> attempt \<Rightarrow> login_world
       \<Rightarrow> response \<times> login_world" where
  [handler_defs]: "login_finish e base b rnd key p a w =
     (case login_attach e b p a (wd_db (lw_world w)) of
        (Inl err, d1) \<Rightarrow>
          (reply_error 503 (''Akkauntni ulash imkoni bo'' @ lq @ ''lmadi. Qayta urinib ko'' @ lq @ ''ring.''),
           (put_attempt key a w)\<lparr>lw_world := (lw_world w)\<lparr>wd_db := d1\<rparr>\<rparr>)
      | (Inr a1, d1) \<Rightarrow>
          (case (if lg_complete a1 then (Inr (), d1) else Write e (login_event (lg_account a1)) d1) of
             (Inl err, d2) \<Rightarrow>
               (finish_failed, (put_attempt key a1 w)\<lparr>lw_world := (lw_world w)\<lparr>wd_db := d2\<rparr>\<rparr>)
           | (Inr _, d2) \<Rightarrow>
               (let a2 = a1\<lparr>lg_complete := True\<rparr> in
                (case IssueCookie e base rnd (lg_user a2) (lg_account a2) d2 of
                   (Inl err, d3) \<Rightarrow>
                     (finish_failed, (put_attempt key a2 w)\<lparr>lw_world := (lw_world w)\<lparr>wd_db := d3\<rparr>\<rparr>)
                 | (Inr ck, d3) \<Rightarrow>
                     ((reply 200 (JObj [(''state'', JStr ''complete''), (''redirect'', JStr (lg_next a2))]))
                        \<lparr>rs_cookies := [ck, set_cookie base ''login'' [] (- 1)]\<rparr>,
                      (drop_attempt key w)\<lparr>lw_world := (lw_world w)\<lparr>wd_db := d3\<rparr>\<rparr>)))))"

definition show_state :: "backend \<Rightarrow> json" where
  "show_state b =
     (case map_of (be_state b) ''link'' of
        Some (JStr link) \<Rightarrow>
          (if link = [] then JObj (be_state b)
           else (case be_qr b link of
                   None \<Rightarrow> JObj (be_state b)
                 | Some png \<Rightarrow> JObj (be_state b @ [(''qr_image'', JStr png)])))
      | _ \<Rightarrow> JObj (be_state b))"

definition login_state ::
    "env \<Rightarrow> string \<Rightarrow> backend \<Rightarrow> bytes \<Rightarrow> string \<Rightarrow> attempt \<Rightarrow> login_world
       \<Rightarrow> response \<times> login_world" where
  [handler_defs]: "login_state e base b rnd key a w =
     (case lg_profile a of
        Some p \<Rightarrow> login_finish e base b rnd key p a w
      | None \<Rightarrow>
          if be_ready b then
            (case be_profile b of
               Inl err \<Rightarrow> (reply_error 503 (''Telegram akkauntini tekshirish imkoni bo'' @ lq @ ''lmadi.''), w)
             | Inr p \<Rightarrow>
                 if pf_tg p \<le> 0
                 then (reply_error 503 (''Telegram akkauntini tekshirish imkoni bo'' @ lq @ ''lmadi.''), w)
                 else login_finish e base b rnd key p (a\<lparr>lg_profile := Some p, lg_open := False\<rparr>) w)
          else (reply 200 (show_state b), w))"

definition loginRoute ::
    "env \<Rightarrow> string \<Rightarrow> backend \<Rightarrow> string \<Rightarrow> bytes \<Rightarrow> request \<Rightarrow> login_world
       \<Rightarrow> response \<times> login_world" where
  [handler_defs]: "loginRoute e base b sid rnd r w =
     (case rq_cookie r (cookieName base ''login'') of
        None \<Rightarrow> (reply_error 403 ''Kirish sahifasini qayta oching.'', w)
      | Some c \<Rightarrow>
          if length c \<noteq> 43 \<or> rq_header r ''X-CSRF-Token'' \<noteq> c \<or> \<not> origin_ok base r
            then (reply_error 403 ''Kirish sahifasini qayta oching.'', w)
          else (let key = b64_encode (go_hash e c); ip = ClientIP e r in
            case allow e (''rl:login-poll:'' @ key) 20 2 (lw_world w) of
              (ok, ww) \<Rightarrow>
                (let w = w\<lparr>lw_world := ww\<rparr> in
                 if \<not> ok then (reply_error 429 (''Biroz kutib qayta urinib ko'' @ lq @ ''ring.''), w)
                 else if rq_method r = ''POST'' \<and> rq_path r = ''/auth/login/start''
                   then login_start e b sid key ip r w
                 else (case lookup_attempt key w of
                     None \<Rightarrow> (reply_error 410 ''Kirish muddati tugadi. Sahifani qayta oching.'', w)
                   | Some a \<Rightarrow>
                       if lg_expires a < e_clock e
                         then (reply_error 410 ''Kirish muddati tugadi. Sahifani qayta oching.'', w)
                       else if lg_closed a \<or> lg_issued a
                         then (reply_error 410 ''Kirish yakunlangan yoki muddati tugagan.'', w)
                       else if \<not> lg_session a
                         then (reply_error 503 ''Telegram ulanishi boshlanmoqda.'', w)
                       else if rq_method r = ''POST'' \<and> rq_path r = ''/auth/login/action''
                         then login_action e b ip a r w
                       else if rq_method r \<noteq> ''GET'' \<or> rq_path r \<noteq> ''/auth/login/state''
                         then (reply_error 404 ''404 page not found'', w)
                       else login_state e base b rnd key a w))))"

definition loginPage :: "env \<Rightarrow> string \<Rightarrow> bytes \<Rightarrow> request \<Rightarrow> db \<Rightarrow> response" where
  [handler_defs]: "loginPage e base rnd r d =
     (let next = safeNext e (query_get r ''return_to'') in
      case Authenticate e base r d of
        Inr p \<Rightarrow> redirect_to 303 next
      | Inl err \<Rightarrow>
          (reply 200 (JObj [(''CSRF'', JStr (b64_encode rnd)), (''Next'', JStr next)]))
            \<lparr>rs_cookies := [set_cookie base ''login'' (b64_encode rnd) 600]\<rparr>)"

text \<open>One tick of \<open>maintain\<close>: expired attempts go, and with them unused storage.\<close>

definition maintain_tick :: "env \<Rightarrow> string \<Rightarrow> bool \<Rightarrow> login_world \<Rightarrow> login_world" where
  "maintain_tick e data_dir stopping w =
     (let dead = (\<lambda>(k, a). stopping \<or> lg_expires a < e_clock e);
          gone = filter dead (lw_attempts w)
      in w\<lparr>lw_attempts := filter (\<lambda>ka. \<not> dead ka) (lw_attempts w),
           lw_dirs := foldl (\<lambda>ds (k, a). DiscardLoginStorage e data_dir (lg_storage a)
                                           (wd_db (lw_world w)) ds) (lw_dirs w) gone\<rparr>)"

section \<open>Where a sign-in may lead\<close>

lemma unescape_slashes:
  assumes "unescape EPath (''//'' @ s) = Some p" shows "\<exists>t. p = ''//'' @ t"
  using assms by (auto split: option.splits)

lemma escaped_path_unescape: "\<exists>p. unescape EPath p = Some (u_path u) \<and> p = escaped_path u"
  if "u_path u = ''/account'' \<or> u_path u = ''/oauth/authorize''"
proof (cases "u_raw_path u \<noteq> [] \<and> valid_encoded (u_raw_path u) \<and> unescape EPath (u_raw_path u) = Some (u_path u)")
  case True
  then show ?thesis by (simp add: escaped_path_def)
next
  case False
  then have "escaped_path u = url_escape EPath (u_path u)"
    using that by (auto simp: escaped_path_def)
  moreover have "url_escape EPath ''/account'' = ''/account''"
    "url_escape EPath ''/oauth/authorize'' = ''/oauth/authorize''"
    "unescape EPath ''/account'' = Some ''/account''"
    "unescape EPath ''/oauth/authorize'' = Some ''/oauth/authorize''"
    by code_simp+
  ultimately show ?thesis using that by auto
qed

lemma set_path_fields:
  "set_path p u = Some v \<Longrightarrow> u_opaque v = u_opaque u \<and> u_scheme v = u_scheme u"
  by (auto simp: set_path_def)

lemma parse_rest_opaque:
  assumes "parse_rest ip rest u = Some v" and "u_opaque u = []"
  shows "u_scheme v = u_scheme u \<and> (u_scheme u = [] \<longrightarrow> u_opaque v = [])"
  using assms
  by (auto simp: parse_rest_def Let_def dest: set_path_fields split: if_splits option.splits)

lemma parse_url_opaque:
  assumes "parse_url ip s = Some v"
  shows "u_scheme v = [] \<longrightarrow> u_opaque v = []"
proof (cases "s = ''*''")
  case True
  then show ?thesis using assms by (auto simp: parse_url_def no_url_def split: if_splits)
next
  case False
  have "\<exists>rest u. parse_rest ip rest u = Some v \<and> u_opaque u = []"
    using assms False
    by (simp add: parse_url_def Let_def no_url_def split: if_splits option.splits prod.splits)
      (fastforce+)
  then obtain rest u where "parse_rest ip rest u = Some v" "u_opaque u = []" by blast
  then show ?thesis using parse_rest_opaque by metis
qed

lemma url_parse_opaque:
  assumes "url_parse ip s = Some u" and "u_scheme u = []"
  shows "u_opaque u = []"
proof -
  obtain v where v: "parse_url ip (fst (cut (CHR ''#'') s)) = Some v"
    "u_scheme u = u_scheme v" "u_opaque u = u_opaque v"
    using assms(1)
    by (auto simp: url_parse_def set_fragment_def split: if_splits option.splits prod.splits)
  then show ?thesis using parse_url_opaque [OF v(1)] assms(2) by simp
qed

text \<open>C25: The page a sign-in returns to is on this site: whatever \<open>return_to\<close> a link carries,
  \<open>safeNext\<close> yields a path that decodes to \<open>/account\<close> or \<open>/oauth/authorize\<close>,
  followed by nothing or a query, and never a location that starts with two slashes.\<close>

theorem sign_in_stays_on_site:
  "\<exists>p q. safeNext e raw = p @ q \<and> unescape EPath p \<in> {Some ''/account'', Some ''/oauth/authorize''}
     \<and> (q = [] \<or> hd q = CHR ''?'') \<and> \<not> has_prefix p ''//''"
proof -
  have acc: "unescape EPath ''/account'' = Some ''/account''" by code_simp
  have safe: "\<not> has_prefix p ''//''" if "unescape EPath p \<in> {Some ''/account'', Some ''/oauth/authorize''}" for p
    using that unescape_slashes by (fastforce simp: has_prefix_iff)
  show ?thesis
  proof (cases "safeNext e raw = ''/account''")
    case True
    then show ?thesis
      using acc safe [of "''/account''"] by (intro exI [of _ "''/account''"] exI [of _ "[]"]) simp
  next
    case False
    obtain u where u: "url_parse (e_addr e) raw = Some u" "u_scheme u = []"
      "u_path u = ''/account'' \<or> u_path u = ''/oauth/authorize''" "safeNext e raw = request_uri u"
      using False by (auto simp: safeNext_def split: option.splits if_splits)
    have op: "u_opaque u = []" by (rule url_parse_opaque [OF u(1,2)])
    have p: "unescape EPath (escaped_path u) = Some (u_path u)"
      using escaped_path_unescape [OF u(3)] by blast
    then have ne: "escaped_path u \<noteq> []" using u(3) by auto
    have "request_uri u = escaped_path u @ query_text u"
      using op ne by (simp add: request_uri_def)
    moreover have "query_text u = [] \<or> hd (query_text u) = CHR ''?''" by (simp add: query_text_def)
    moreover have "unescape EPath (escaped_path u) \<in> {Some ''/account'', Some ''/oauth/authorize''}"
      using p u(3) by auto
    ultimately show ?thesis
      using u(4) safe by (intro exI [of _ "escaped_path u"] exI [of _ "query_text u"]) simp
  qed
qed

section \<open>Signing in to one's own account\<close>

text \<open>
  The process and everything else that changes the database while attempts are open.  Other
  work keeps identities and accounts (\<open>ident_ext\<close>); so does a login itself.
\<close>

definition attempt_ok :: "db \<Rightarrow> attempt \<Rightarrow> bool" where
  "attempt_ok d a =
     (lg_account a \<noteq> [] \<longrightarrow>
       (\<exists>p. lg_profile a = Some p \<and> \<lparr>id_tg = pf_tg p, id_account = lg_account a\<rparr> \<in> set (identities d)))"

definition login_inv :: "login_world \<Rightarrow> bool" where
  "login_inv w =
     (accounts_inv (wd_db (lw_world w)) \<and> distinct (map id_tg (identities (wd_db (lw_world w))))
      \<and> (\<forall>(k, a) \<in> set (lw_attempts w). attempt_ok (wd_db (lw_world w)) a))"

definition quiet_backend :: "env \<Rightarrow> backend \<Rightarrow> bool" where
  "quiet_backend e b =
     (\<forall>s p d. accounts_inv d \<longrightarrow> distinct (map id_tg (identities d))
        \<longrightarrow> quiet_polls e (be_user b) (be_account b) s p d (be_polls b))"

inductive login_step :: "login_world \<Rightarrow> login_world \<Rightarrow> bool" where
  request: "quiet_backend e b
     \<Longrightarrow> login_step w (snd (loginRoute e base b sid rnd r w))"
| tick: "login_step w (maintain_tick e dir stopping w)"
| other: "ident_ext (wd_db (lw_world w)) (wd_db ww) \<Longrightarrow> login_step w (w\<lparr>lw_world := ww\<rparr>)"

lemma attempt_ok_ext: "ident_ext d d' \<Longrightarrow> attempt_ok d a \<Longrightarrow> attempt_ok d' a"
  unfolding attempt_ok_def ident_ext_def by blast

lemma login_inv_ext:
  assumes "login_inv w" and "ident_ext (wd_db (lw_world w)) (wd_db (lw_world w'))"
    and "\<And>k a. (k, a) \<in> set (lw_attempts w') \<Longrightarrow>
           (k, a) \<in> set (lw_attempts w) \<or> attempt_ok (wd_db (lw_world w')) a"
  shows "login_inv w'"
  using assms unfolding login_inv_def ident_ext_def attempt_ok_def by fast

lemma allow_db: "allow e k c t w = (ok, w') \<Longrightarrow> wd_db w' = wd_db w"
  by (auto simp: allow_def limit_check_def split: prod.splits sum.splits)

lemma put_attempt_set:
  "(k, a) \<in> set (lw_attempts (put_attempt key b w)) \<Longrightarrow> (k, a) \<in> set (lw_attempts w) \<or> a = b"
  by (auto simp: put_attempt_def split: if_splits)

lemma put_drop_world [simp]:
  "lw_world (put_attempt key b w) = lw_world w" "lw_world (drop_attempt key w) = lw_world w"
  by (simp_all add: put_attempt_def drop_attempt_def)

lemma ident_ext_same:
  assumes "accounts_inv d" "distinct (map id_tg (identities d))"
    and "accounts d' = accounts d" "identities d' = identities d" "users d' = users d"
  shows "ident_ext d d'"
  using assms unfolding ident_ext_def accounts_inv_def by auto

lemma Write_ident:
  "accounts (snd (Write e ev d)) = accounts d" "identities (snd (Write e ev d)) = identities d"
  "users (snd (Write e ev d)) = users d"
  by (simp_all add: Write_def insert_audit_def Let_def split: sum.split option.split)

lemma IssueCookie_ident:
  "accounts (snd (IssueCookie e base rnd u a d)) = accounts d"
  "identities (snd (IssueCookie e base rnd u a d)) = identities d"
  "users (snd (IssueCookie e base rnd u a d)) = users d"
  by (simp_all add: IssueCookie_def Let_def split: option.split)

lemma login_attach_ok:
  assumes inv: "accounts_inv d" "distinct (map id_tg (identities d))"
    and quiet: "quiet_polls e (be_user b) (be_account b) (lg_storage a) p d (be_polls b)"
    and a: "attempt_ok d a" "lg_profile a = Some p"
    and r: "login_attach e b p a d = (res, d')"
  shows "ident_ext d d'"
    and "res = Inr a1 \<Longrightarrow> lg_profile a1 = Some p \<and> lg_next a1 = lg_next a
           \<and> \<lparr>id_tg = pf_tg p, id_account = lg_account a1\<rparr> \<in> set (identities d')"
proof -
  let ?A = "AttachLogin e (be_user b) (be_account b) (lg_storage a) p d (be_polls b)"
  have ext: "ident_ext d (snd ?A)" by (rule AttachLogin_ext [OF inv quiet])
  show "ident_ext d d'"
    using r ext ident_ext_refl [OF inv]
    by (auto simp: login_attach_def split: if_splits prod.splits sum.splits)
  show "lg_profile a1 = Some p \<and> lg_next a1 = lg_next a
           \<and> \<lparr>id_tg = pf_tg p, id_account = lg_account a1\<rparr> \<in> set (identities d')" if eq: "res = Inr a1"
  proof (cases "lg_account a \<noteq> []")
    case True
    then show ?thesis using eq a r by (auto simp: login_attach_def attempt_ok_def)
  next
    case False
    then obtain usr acc where ok: "?A = (Inr (usr, acc), d')" "a1 = a\<lparr>lg_user := usr, lg_account := acc\<rparr>"
      using eq r by (auto simp: login_attach_def split: prod.splits sum.splits)
    then show ?thesis using AttachLogin_identity(1) [OF inv quiet ok(1)] a(2) by simp
  qed
qed

text \<open>
  One finishing request: the database only grows in the sense above, the attempt it stores is
  a good one, and a cookie it sets belongs to a session of the identity's account.
\<close>

lemma IssueCookieD:
  assumes "IssueCookie e base rnd user account d = (Inr ck, d')"
  shows "\<exists>a u. e_uuid e account = Some a \<and> e_uuid e user = Some u
    \<and> ck = set_cookie base ''session'' (b64_encode rnd) (30 * 24 * 3600)
    \<and> (\<exists>t \<in> set (accounts d). acc_id t = a \<and> acc_user t = u \<and> acc_status t = Active)
    \<and> d' = d\<lparr>sessions := sessions d @ [\<lparr>bs_hash = go_hash e (b64_encode rnd), bs_user = u,
              bs_account = a, bs_expires = e_now e + thirty_days\<rparr>]\<rparr>"
  using assms
  by (auto simp: IssueCookie_def Let_def exists_row_def split: if_splits option.splits)

definition opened_for :: "env \<Rightarrow> profile \<Rightarrow> db \<Rightarrow> cookie \<Rightarrow> bool" where
  "opened_for e p d ck =
     (\<exists>s \<in> set (sessions d). bs_hash s = go_hash e (ck_value ck)
        \<and> bs_expires s = e_now e + thirty_days
        \<and> (\<exists>acc. \<lparr>id_tg = pf_tg p, id_account = acc\<rparr> \<in> set (identities d)
               \<and> e_uuid e acc = Some (bs_account s))
        \<and> (\<exists>t \<in> set (accounts d). acc_id t = bs_account s \<and> acc_user t = bs_user s
               \<and> acc_status t = Active))"

lemma cookie_names: "cookieName base ''login'' \<noteq> cookieName base ''session''"
  by (simp add: cookieName_def)

lemma login_finish_ok:
  assumes inv: "login_inv w"
    and quiet: "quiet_polls e (be_user b) (be_account b) (lg_storage a) p (wd_db (lw_world w)) (be_polls b)"
    and a: "attempt_ok (wd_db (lw_world w)) a" "lg_profile a = Some p"
  shows "login_inv (snd (login_finish e base b rnd key p a w))"
    and "\<lbrakk>ck \<in> set (rs_cookies (fst (login_finish e base b rnd key p a w)));
          ck_name ck = cookieName base ''session''\<rbrakk>
       \<Longrightarrow> opened_for e p (wd_db (lw_world (snd (login_finish e base b rnd key p a w)))) ck"
proof -
  let ?d = "wd_db (lw_world w)"
  have di: "accounts_inv ?d" "distinct (map id_tg (identities ?d))" using inv by (auto simp: login_inv_def)
  obtain res d1 where att: "login_attach e b p a ?d = (res, d1)" by (cases "login_attach e b p a ?d")
  have ext1: "ident_ext ?d d1" by (rule login_attach_ok(1) [OF di quiet a att])
  have d1: "accounts_inv d1" "distinct (map id_tg (identities d1))" using ext1 by (auto simp: ident_ext_def)
  have res: "login_inv (snd (login_finish e base b rnd key p a w))
    \<and> (\<forall>ck. ck \<in> set (rs_cookies (fst (login_finish e base b rnd key p a w)))
          \<and> ck_name ck = cookieName base ''session''
        \<longrightarrow> opened_for e p (wd_db (lw_world (snd (login_finish e base b rnd key p a w)))) ck)"
  proof (cases res)
    case (Inl err)
    have "login_inv ((put_attempt key a w)\<lparr>lw_world := (lw_world w)\<lparr>wd_db := d1\<rparr>\<rparr>)"
      by (rule login_inv_ext [OF inv])
        (use ext1 attempt_ok_ext [OF ext1 a(1)] in \<open>auto dest: put_attempt_set\<close>)
    then show ?thesis using att Inl by (simp add: login_finish_def)
  next
    case (Inr a1)
    have a1: "lg_profile a1 = Some p" "\<lparr>id_tg = pf_tg p, id_account = lg_account a1\<rparr> \<in> set (identities d1)"
      using login_attach_ok(2) [OF di quiet a att Inr] by simp_all
    define wr where "wr = (if lg_complete a1 then (Inr (), d1) else Write e (login_event (lg_account a1)) d1)"
    obtain rw d2 where wr2: "wr = (rw, d2)" by (cases wr)
    have d2: "accounts d2 = accounts d1" "identities d2 = identities d1" "users d2 = users d1"
      using wr2 Write_ident [of e "login_event (lg_account a1)" d1]
      by (auto simp: wr_def split: if_splits)
    define a2 where "a2 = a1\<lparr>lg_complete := True\<rparr>"
    obtain rc d3 where ic: "IssueCookie e base rnd (lg_user a2) (lg_account a2) d2 = (rc, d3)"
      by (cases "IssueCookie e base rnd (lg_user a2) (lg_account a2) d2")
    have d3: "accounts d3 = accounts d1" "identities d3 = identities d1" "users d3 = users d1"
      using IssueCookie_ident [of e base rnd "lg_user a2" "lg_account a2" d2] ic d2 by simp_all
    have ext: "ident_ext ?d d2" "ident_ext ?d d3"
      by (rule ident_ext_trans [OF ext1 ident_ext_same [OF d1]]; simp add: d2 d3)+
    have ok: "attempt_ok d2 a1" "attempt_ok d3 a2"
      using a1 by (simp_all add: attempt_ok_def a2_def d2 d3)
    have i2: "login_inv ((put_attempt key x w)\<lparr>lw_world := (lw_world w)\<lparr>wd_db := d\<rparr>\<rparr>)"
      if "ident_ext ?d d" "attempt_ok d x" for d x
      by (rule login_inv_ext [OF inv]) (use that in \<open>auto dest: put_attempt_set\<close>)
    have i3: "login_inv ((drop_attempt key w)\<lparr>lw_world := (lw_world w)\<lparr>wd_db := d3\<rparr>\<rparr>)"
      by (rule login_inv_ext [OF inv]) (use ext in \<open>auto simp: drop_attempt_def\<close>)
    show ?thesis
    proof (cases rw)
      case (Inl err)
      then show ?thesis
        using att Inr wr2 i2 [OF ext(1) ok(1)]
        by (simp add: login_finish_def finish_failed_def flip: wr_def)
    next
      case (Inr u)
      show ?thesis
      proof (cases rc)
        case (Inl err)
        then show ?thesis
          using att \<open>res = Inr a1\<close> wr2 Inr ic i2 [OF ext(2) ok(2)]
          by (simp add: login_finish_def finish_failed_def Let_def flip: wr_def a2_def)
      next
        case (Inr ck)
        have fin: "login_finish e base b rnd key p a w =
            ((reply 200 (JObj [(''state'', JStr ''complete''), (''redirect'', JStr (lg_next a2))]))
               \<lparr>rs_cookies := [ck, set_cookie base ''login'' [] (- 1)]\<rparr>,
             (drop_attempt key w)\<lparr>lw_world := (lw_world w)\<lparr>wd_db := d3\<rparr>\<rparr>)"
          using att \<open>res = Inr a1\<close> wr2 \<open>rw = Inr u\<close> ic Inr
          by (simp add: login_finish_def Let_def flip: wr_def a2_def)
        have "opened_for e p d3 ck"
        proof -
          obtain acc u where c: "e_uuid e (lg_account a2) = Some acc"
            "ck = set_cookie base ''session'' (b64_encode rnd) (30 * 24 * 3600)"
            "\<exists>t \<in> set (accounts d2). acc_id t = acc \<and> acc_user t = u \<and> acc_status t = Active"
            "d3 = d2\<lparr>sessions := sessions d2 @ [\<lparr>bs_hash = go_hash e (b64_encode rnd), bs_user = u,
              bs_account = acc, bs_expires = e_now e + thirty_days\<rparr>]\<rparr>"
            using IssueCookieD [OF ic [unfolded Inr]] by blast
          have row: "\<lparr>id_tg = pf_tg p, id_account = lg_account a2\<rparr> \<in> set (identities d3)"
            using a1(2) d3(2) by (simp add: a2_def)
          show ?thesis
            unfolding opened_for_def
            by (rule bexI [of _ "\<lparr>bs_hash = go_hash e (b64_encode rnd), bs_user = u,
                  bs_account = acc, bs_expires = e_now e + thirty_days\<rparr>"])
              (use c row in \<open>auto simp: set_cookie_def\<close>)
        qed
        then show ?thesis
          using i3 cookie_names [of base] by (auto simp: fin set_cookie_def)
      qed
    qed
  qed
  then show "login_inv (snd (login_finish e base b rnd key p a w))" by blast
  show "opened_for e p (wd_db (lw_world (snd (login_finish e base b rnd key p a w)))) ck"
    if "ck \<in> set (rs_cookies (fst (login_finish e base b rnd key p a w)))"
      "ck_name ck = cookieName base ''session''"
    using res that by blast
qed

text \<open>Every request either leaves database and identities alone or is such a finishing one.\<close>

definition harmless :: "login_world \<Rightarrow> response \<times> login_world \<Rightarrow> bool" where
  "harmless w x =
     (wd_db (lw_world (snd x)) = wd_db (lw_world w) \<and> rs_cookies (fst x) = []
      \<and> (\<forall>(k, a) \<in> set (lw_attempts (snd x)). (k, a) \<in> set (lw_attempts w) \<or> lg_account a = []))"

lemma harmless_same [simp]: "rs_cookies resp = [] \<Longrightarrow> harmless w (resp, w)"
  by (auto simp: harmless_def)

lemma harmless_limit:
  "wd_db ww = wd_db (lw_world w) \<Longrightarrow> harmless (w\<lparr>lw_world := ww\<rparr>) x \<Longrightarrow> harmless w x"
  by (auto simp: harmless_def)

lemma harmless_dirs: "harmless w (reply_error s m, w\<lparr>lw_dirs := ds\<rparr>)"
  by (auto simp: harmless_def)

lemma login_start_harmless: "harmless w (login_start e b sid key ip r w)"
proof -
  obtain ok ww where al: "allow e (''rl:login-start:'' @ ip) 5 (1 / 60) (lw_world w) = (ok, ww)"
    by (cases "allow e (''rl:login-start:'' @ ip) 5 (1 / 60) (lw_world w)")
  have start: "harmless w' (reply s v, (put_attempt key \<lparr>lg_session = True, lg_open = True, lg_storage = sid,
      lg_ip = ip, lg_next = n, lg_expires = x, lg_profile = None, lg_complete = False, lg_issued = False,
      lg_closed = False, lg_user = [], lg_account = []\<rparr> w')\<lparr>lw_dirs := ds\<rparr>)" for w' s v n x ds
    by (auto simp: harmless_def dest: put_attempt_set)
  have "harmless (w\<lparr>lw_world := ww\<rparr>) (login_start e b sid key ip r w)"
    unfolding login_start_def al prod.case Let_def
    by (simp add: bad_request_def start harmless_dirs split: option.split sum.split)
  then show ?thesis by (rule harmless_limit [OF allow_db [OF al]])
qed

lemma login_action_harmless: "harmless w (login_action e b ip a r w)"
proof -
  obtain ok ww where al: "allow e (''rl:login-action:'' @ ip) 10 (1 / 6) (lw_world w) = (ok, ww)"
    by (cases "allow e (''rl:login-action:'' @ ip) 10 (1 / 6) (lw_world w)")
  have "harmless (w\<lparr>lw_world := ww\<rparr>) (login_action e b ip a r w)"
    unfolding login_action_def al prod.case Let_def
    by (simp add: bad_request_def split: option.split sum.split go_err.split)
  then show ?thesis by (rule harmless_limit [OF allow_db [OF al]])
qed

lemma loginRoute_cases:
  obtains (plain) "harmless w (loginRoute e base b sid rnd r w)"
  | (finish) c a a' p ww where "rq_cookie r (cookieName base ''login'') = Some c"
      "lookup_attempt (b64_encode (go_hash e c)) w = Some a" "lg_profile a' = Some p"
      "a' = a \<or> lg_profile a = None \<and> a' = a\<lparr>lg_profile := Some p, lg_open := False\<rparr>
         \<and> be_ready b \<and> be_profile b = Inr p"
      "wd_db ww = wd_db (lw_world w)"
      "loginRoute e base b sid rnd r w
         = login_finish e base b rnd (b64_encode (go_hash e c)) p a' (w\<lparr>lw_world := ww\<rparr>)"
proof (cases "rq_cookie r (cookieName base ''login'')")
  case None
  then show ?thesis using plain by (simp add: loginRoute_def)
next
  case (Some c)
  note cookie = Some
  let ?key = "b64_encode (go_hash e c)"
  obtain ok ww where al: "allow e (''rl:login-poll:'' @ ?key) 20 2 (lw_world w) = (ok, ww)"
    by (cases "allow e (''rl:login-poll:'' @ ?key) 20 2 (lw_world w)")
  have db: "wd_db ww = wd_db (lw_world w)" by (rule allow_db [OF al])
  let ?w = "w\<lparr>lw_world := ww\<rparr>"
  have look: "lookup_attempt ?key ?w = lookup_attempt ?key w" by (simp add: lookup_attempt_def)
  have lim: "harmless w x" if "harmless ?w x" for x by (rule harmless_limit [OF db that])
  have start: "harmless w (login_start e b sid ?key ip r ?w)" for ip
    by (rule lim [OF login_start_harmless])
  have act: "harmless w (login_action e b ip a r ?w)" for ip a
    by (rule lim [OF login_action_harmless])
  have err: "harmless w (reply_error s m, ?w)" for s m
    by (rule lim) simp
  have "harmless w (loginRoute e base b sid rnd r w)
    \<or> (\<exists>a. lookup_attempt ?key w = Some a
          \<and> loginRoute e base b sid rnd r w = login_state e base b rnd ?key a ?w)"
    unfolding loginRoute_def cookie option.case Let_def al prod.case look
    by (simp add: start act err split: option.split)
  then consider (settled) "harmless w (loginRoute e base b sid rnd r w)"
    | (state) a where "lookup_attempt ?key w = Some a"
        "loginRoute e base b sid rnd r w = login_state e base b rnd ?key a ?w"
    by blast
  then show ?thesis
  proof cases
    case settled
    then show ?thesis using plain by blast
  next
    case (state a)
    show ?thesis
    proof (cases "lg_profile a")
      case (Some p)
      then show ?thesis
        using finish [OF cookie state(1) Some _ db] state(2)
        by (simp add: login_state_def)
    next
      case None
      show ?thesis
      proof (cases "\<exists>p. be_ready b \<and> be_profile b = Inr p \<and> \<not> pf_tg p \<le> 0")
        case True
        then obtain p where p: "be_ready b" "be_profile b = Inr p" "\<not> pf_tg p \<le> 0" by blast
        show ?thesis
          by (rule finish [OF cookie state(1), of "a\<lparr>lg_profile := Some p, lg_open := False\<rparr>" p ww])
            (use p None state(2) db in \<open>simp_all add: login_state_def\<close>)
      next
        case False
        then have "harmless ?w (login_state e base b rnd ?key a ?w)"
          using None by (simp add: login_state_def split: sum.split)
        then show ?thesis using plain lim state(2) by simp
      qed
    qed
  qed
qed

lemma lookup_ok:
  "login_inv w \<Longrightarrow> lookup_attempt key w = Some a \<Longrightarrow> attempt_ok (wd_db (lw_world w)) a"
  unfolding lookup_attempt_def login_inv_def by (blast dest: map_of_SomeD)

lemma finish_attempt_ok:
  assumes "attempt_ok d a" and "a' = a \<or> lg_profile a = None \<and> a' = a\<lparr>lg_profile := Some p, lg_open := False\<rparr>
         \<and> be_ready b \<and> be_profile b = Inr p"
  shows "attempt_ok d a'"
  using assms by (auto simp: attempt_ok_def)

lemma login_request:
  assumes inv: "login_inv w"
    and quiet: "quiet_backend e b"
  shows "login_inv (snd (loginRoute e base b sid rnd r w))"
    and "\<lbrakk>ck \<in> set (rs_cookies (fst (loginRoute e base b sid rnd r w)));
          ck_name ck = cookieName base ''session''\<rbrakk>
       \<Longrightarrow> \<exists>c a p. rq_cookie r (cookieName base ''login'') = Some c
             \<and> lookup_attempt (b64_encode (go_hash e c)) w = Some a
             \<and> (lg_profile a = Some p \<or> lg_profile a = None \<and> be_ready b \<and> be_profile b = Inr p)
             \<and> opened_for e p (wd_db (lw_world (snd (loginRoute e base b sid rnd r w)))) ck"
proof -
  have all: "login_inv (snd (loginRoute e base b sid rnd r w))
    \<and> (ck \<in> set (rs_cookies (fst (loginRoute e base b sid rnd r w)))
        \<and> ck_name ck = cookieName base ''session''
       \<longrightarrow> (\<exists>c a p. rq_cookie r (cookieName base ''login'') = Some c
             \<and> lookup_attempt (b64_encode (go_hash e c)) w = Some a
             \<and> (lg_profile a = Some p \<or> lg_profile a = None \<and> be_ready b \<and> be_profile b = Inr p)
             \<and> opened_for e p (wd_db (lw_world (snd (loginRoute e base b sid rnd r w)))) ck))"
  proof (cases rule: loginRoute_cases [of w e base b sid rnd r])
    case plain
    have "login_inv (snd (loginRoute e base b sid rnd r w))"
      by (rule login_inv_ext [OF inv])
        (use plain inv in \<open>auto simp: harmless_def login_inv_def attempt_ok_def intro: ident_ext_refl\<close>)
    then show ?thesis using plain by (simp add: harmless_def)
  next
    case (finish c a a' p ww)
    let ?w = "w\<lparr>lw_world := ww\<rparr>"
    have wi: "login_inv ?w" using inv finish(5) by (simp add: login_inv_def)
    have ok: "attempt_ok (wd_db (lw_world ?w)) a'"
      using finish_attempt_ok [OF lookup_ok [OF inv finish(2)] finish(4)] finish(5) by simp
    have q: "quiet_polls e (be_user b) (be_account b) (lg_storage a') p (wd_db (lw_world ?w)) (be_polls b)"
      using quiet wi by (simp add: quiet_backend_def login_inv_def)
    note fin = login_finish_ok [OF wi q ok finish(3), where base = base and rnd = rnd
        and key = "b64_encode (go_hash e c)"]
    show ?thesis
      unfolding finish(6) using fin finish(1-4) by auto
  qed
  then show "login_inv (snd (loginRoute e base b sid rnd r w))" by blast
  show "\<exists>c a p. rq_cookie r (cookieName base ''login'') = Some c
             \<and> lookup_attempt (b64_encode (go_hash e c)) w = Some a
             \<and> (lg_profile a = Some p \<or> lg_profile a = None \<and> be_ready b \<and> be_profile b = Inr p)
             \<and> opened_for e p (wd_db (lw_world (snd (loginRoute e base b sid rnd r w)))) ck"
    if "ck \<in> set (rs_cookies (fst (loginRoute e base b sid rnd r w)))"
      "ck_name ck = cookieName base ''session''"
    using all that by blast
qed

lemma login_step_inv: "login_step w w' \<Longrightarrow> login_inv w \<Longrightarrow> login_inv w'"
proof (induction rule: login_step.induct)
  case (request e b w base sid rnd r)
  show ?case by (rule login_request(1) [OF request(2) request(1)])
next
  case (tick w e dir stopping)
  then show ?case by (auto simp: login_inv_def maintain_tick_def Let_def)
next
  case (other w ww)
  then show ?case by (intro login_inv_ext [OF other(2)]) simp_all
qed

text \<open>C14: Signing in opens only the own account: in every run of login requests, expiry
  sweeps and other work, a request that sets a session cookie belongs to an open attempt
  whose Telegram profile was verified, and the session it opens is for the active account
  which that Telegram identity owns, for thirty days.\<close>

theorem login_opens_own_account:
  assumes start: "accounts_inv (wd_db (lw_world w0))"
      "distinct (map id_tg (identities (wd_db (lw_world w0))))" "lw_attempts w0 = []"
    and run: "login_step\<^sup>*\<^sup>* w0 w"
    and quiet: "quiet_backend e b"
    and req: "loginRoute e base b sid rnd r w = (resp, w')"
    and ck: "ck \<in> set (rs_cookies resp)" "ck_name ck = cookieName base ''session''"
  shows "\<exists>c a p. rq_cookie r (cookieName base ''login'') = Some c
     \<and> lookup_attempt (b64_encode (go_hash e c)) w = Some a
     \<and> (lg_profile a = Some p \<or> lg_profile a = None \<and> be_ready b \<and> be_profile b = Inr p)
     \<and> opened_for e p (wd_db (lw_world w')) ck"
proof -
  have "login_inv w0" using start by (simp add: login_inv_def)
  with run have "login_inv w" by (induction rule: rtranclp_induct) (auto intro: login_step_inv)
  from login_request(2) [OF this quiet, of ck base sid rnd r] ck show ?thesis by (simp add: req)
qed

section \<open>Witness\<close>

lemma allow_fresh:
  assumes "\<not> blank key" "0 < r" "1 \<le> c" "\<not> e_fail e ''Allow''" "buckets (wd_redis w) key = None"
  shows "\<exists>b. allow e key c r w =
    (True, w\<lparr>wd_redis := (wd_redis w)\<lparr>buckets := (buckets (wd_redis w))(key \<mapsto> b)\<rparr>\<rparr>)"
  using assms
  by (simp add: allow_def limit_check_def Allow_def Let_def token_bucket_script_def refilled_def
      live_bucket_def) (rule exI, rule refl)

definition demo_cookie :: string where
  "demo_cookie = replicate 43 (CHR ''x'')"

definition demo_login_request :: "string \<Rightarrow> string \<Rightarrow> request" where
  "demo_login_request meth path =
     \<lparr>rq_method = meth, rq_url = no_url\<lparr>u_path := path\<rparr>, rq_host = [],
      rq_header = (\<lambda>h. if h = ''X-CSRF-Token'' then demo_cookie else []),
      rq_cookie = (\<lambda>c. if c = ''tgw_login'' then Some demo_cookie else None), rq_remote = ''r'',
      rq_body = ''{}'', rq_form = None, rq_basic = None, rq_wild = (\<lambda>_. [])\<rparr>"

definition demo_backend :: backend where
  "demo_backend =
     \<lparr>be_new = Inr (), be_authorize = (\<lambda>_ _. Inr ()), be_ready = True, be_profile = Inr demo_profile,
      be_state = [], be_qr = (\<lambda>_. None), be_user = ''u9'', be_account = ''a9'',
      be_polls = (\<lambda>d. [(demo_env, d)]), be_data_dir = ''data''\<rparr>"

definition demo_world :: "db \<Rightarrow> world" where
  "demo_world d = \<lparr>wd_db = d, wd_redis = empty_redis, wd_time = 1000\<rparr>"

definition demo_key :: string where
  "demo_key = b64_encode demo_cookie"

definition demo_attempt :: attempt where
  "demo_attempt =
     \<lparr>lg_session = True, lg_open = True, lg_storage = ''s1'', lg_ip = ''r'', lg_next = ''/account'',
      lg_expires = 605000000, lg_profile = None, lg_complete = False, lg_issued = False,
      lg_closed = False, lg_user = [], lg_account = []\<rparr>"

lemma demo_quiet: "quiet_backend demo_env demo_backend"
  unfolding quiet_backend_def quiet_polls_def Let_def
proof (intro allI impI)
  fix s p d assume inv: "accounts_inv d" "distinct (map id_tg (identities d))"
  let ?d = "snd (attach_begin demo_env (be_user demo_backend) (be_account demo_backend) s p d)"
  have "ident_ext d ?d" by (rule attach_begin_ext [OF inv])
  then have "ident_ext ?d ?d" unfolding ident_ext_def by blast
  then show "\<forall>(e2, d2) \<in> set (be_polls demo_backend ?d). ident_ext ?d d2 \<and> e_uuid e2 = e_uuid demo_env"
    by (simp add: demo_backend_def)
qed

lemma demo_login_start:
  "\<exists>ww. loginRoute demo_env [] demo_backend ''s1'' [] (demo_login_request ''POST'' ''/auth/login/start'')
      \<lparr>lw_world = demo_world demo_db, lw_attempts = [], lw_dirs = []\<rparr>
    = (reply 200 (JObj [(''status'', JStr ''started'')]),
       \<lparr>lw_world = ww, lw_attempts = [(demo_key, demo_attempt)], lw_dirs = [''s1'']\<rparr>)
    \<and> wd_db ww = demo_db"
proof -
  let ?r = "demo_login_request ''POST'' ''/auth/login/start''"
  have key: "b64_encode (go_hash demo_env demo_cookie) = demo_key"
    by (simp add: go_hash_def demo_key_def demo_env_def)
  have nb: "\<not> blank (''rl:login-poll:'' @ demo_key)" "\<not> blank (''rl:login-start:'' @ ''r'')" by code_simp+
  have ip: "ClientIP demo_env ?r = ''r''"
    by (simp add: ClientIP_def demo_login_request_def split_host_def rcut_def demo_env_def)
  have nxt: "safeNext demo_env [] = ''/account''" by code_simp
  have body: "decode_body 16384 ''{}'' = Some (JObj [])" by code_simp
  obtain b1 where a1: "allow demo_env (''rl:login-poll:'' @ demo_key) 20 2 (demo_world demo_db) =
      (True, (demo_world demo_db)\<lparr>wd_redis := empty_redis\<lparr>buckets := [''rl:login-poll:'' @ demo_key \<mapsto> b1]\<rparr>\<rparr>)"
    using allow_fresh [OF nb(1), of 2 20 demo_env "demo_world demo_db"]
    by (auto simp: demo_world_def empty_redis_def demo_env_def)
  let ?w1 = "(demo_world demo_db)\<lparr>wd_redis := empty_redis\<lparr>buckets := [''rl:login-poll:'' @ demo_key \<mapsto> b1]\<rparr>\<rparr>"
  obtain w2 where a2: "allow demo_env (''rl:login-start:'' @ ''r'') 5 (1 / 60) ?w1 = (True, w2)"
    "wd_db w2 = demo_db"
    using allow_fresh [OF nb(2), of "1 / 60" 5 demo_env ?w1]
    by (auto simp: demo_world_def demo_env_def)
  have flds: "rq_cookie ?r ''tgw_login'' = Some demo_cookie" "length demo_cookie = 43"
    "rq_header ?r ''X-CSRF-Token'' = demo_cookie" "rq_header ?r ''Origin'' = []" "rq_method ?r = ''POST''"
    "rq_path ?r = ''/auth/login/start''" "rq_body ?r = ''{}''"
    by (simp_all add: demo_login_request_def demo_cookie_def)
  have cn: "cookieName [] ''login'' = ''tgw_login''" by (simp add: cookieName_def https_base_def has_prefix_def)
  have clk: "e_clock demo_env = 5000000" by (simp add: demo_env_def)
  show ?thesis
    unfolding loginRoute_def login_start_def cn flds option.case key Let_def ip
    using a1 a2
    by (simp only: flds origin_ok_def login_world.simps prod.case body option.case members_of.simps)
      (simp add: struct_field_def lookup_attempt_def put_attempt_def demo_attempt_def
        demo_backend_def nxt ten_minutes_def clk)
qed

lemma Write_ok:
  assumes "validate_event ev = Inr ()" "e_fail e = no_faults" "ev_account ev = Some a" "ev_ip ev = []"
    "ev_request ev = None" "e_uuid e a = Some a" "a \<in> acc_id ` set (accounts d)"
  shows "\<exists>d'. Write e ev d = (Inr (), d')"
  using assms by (simp add: Write_def insert_audit_def Let_def cast_opt_def nullif_empty_def)

definition demo_login_world :: login_world where
  "demo_login_world =
     \<lparr>lw_world = demo_world demo_db, lw_attempts = [(demo_key, demo_attempt)], lw_dirs = [''s1'']\<rparr>"

lemma demo_login_state:
  "\<exists>resp w' ck. loginRoute demo_env [] demo_backend ''s2'' [] (demo_login_request ''GET'' ''/auth/login/state'')
      demo_login_world = (resp, w')
    \<and> ck \<in> set (rs_cookies resp) \<and> ck_name ck = cookieName [] ''session''"
proof -
  let ?r = "demo_login_request ''GET'' ''/auth/login/state''"
  have key: "b64_encode (go_hash demo_env demo_cookie) = demo_key"
    by (simp add: go_hash_def demo_key_def demo_env_def)
  have nb: "\<not> blank (''rl:login-poll:'' @ demo_key)" by code_simp
  obtain w1 where a1: "allow demo_env (''rl:login-poll:'' @ demo_key) 20 2 (demo_world demo_db) = (True, w1)"
    "wd_db w1 = demo_db"
    using allow_fresh [OF nb, of 2 20 demo_env "demo_world demo_db"]
    by (auto simp: demo_world_def empty_redis_def demo_env_def)
  have flds: "rq_cookie ?r ''tgw_login'' = Some demo_cookie" "length demo_cookie = 43"
    "rq_header ?r ''X-CSRF-Token'' = demo_cookie" "rq_header ?r ''Origin'' = []" "rq_method ?r = ''GET''"
    "rq_path ?r = ''/auth/login/state''"
    by (simp_all add: demo_login_request_def demo_cookie_def)
  have cn: "cookieName [] ''login'' = ''tgw_login''" by (simp add: cookieName_def https_base_def has_prefix_def)
  have clk: "e_clock demo_env = 5000000" by (simp add: demo_env_def)
  let ?a = "demo_attempt\<lparr>lg_profile := Some demo_profile, lg_open := False\<rparr>"
  have route: "loginRoute demo_env [] demo_backend ''s2'' [] ?r demo_login_world
      = login_finish demo_env [] demo_backend [] demo_key demo_profile ?a (demo_login_world\<lparr>lw_world := w1\<rparr>)"
    unfolding loginRoute_def cn flds option.case key Let_def
    using a1
    by (simp add: demo_login_world_def origin_ok_def flds lookup_attempt_def demo_attempt_def clk
        login_state_def demo_backend_def demo_profile_def)
  let ?d = "demo_attached ''s1'' [] 5000000"
  have att: "login_attach demo_env demo_backend demo_profile ?a demo_db
      = (Inr (?a\<lparr>lg_user := ''u1'', lg_account := ''a1''\<rparr>), ?d)"
    using demo_attach_first
    by (simp add: login_attach_def demo_attach_def demo_backend_def demo_attempt_def)
  have v: "validate_event (login_event ''a1'') = Inr ()" by code_simp
  obtain d2 where wr: "Write demo_env (login_event ''a1'') ?d = (Inr (), d2)"
    using Write_ok [OF v, of demo_env "''a1''" ?d]
    by (auto simp: login_event_def demo_env_def demo_attached_def attach_row_def demo_defs)
  have d2: "accounts d2 = accounts ?d" "sessions d2 = sessions ?d"
    using audit_only(1,9) [of demo_env "login_event ''a1''" ?d] wr by simp_all
  obtain ck d3 where ic: "IssueCookie demo_env [] [] ''u1'' ''a1'' d2 = (Inr ck, d3)"
    "ck_name ck = cookieName [] ''session''"
    by (auto simp: IssueCookie_def exists_row_def d2 demo_attached_def attach_row_def set_cookie_def
        demo_defs demo_env_def)
  show ?thesis
    unfolding route using att wr ic
    by (simp add: login_finish_def a1(2) demo_attempt_def Let_def) blast
qed

theorem login_opens_own_account_witness:
  "\<exists>resp w' ck. loginRoute demo_env [] demo_backend ''s2'' [] (demo_login_request ''GET'' ''/auth/login/state'')
      demo_login_world = (resp, w')
    \<and> opened_for demo_env demo_profile (wd_db (lw_world w')) ck"
proof -
  let ?w0 = "\<lparr>lw_world = demo_world demo_db, lw_attempts = [], lw_dirs = []\<rparr>"
  obtain ww where s: "snd (loginRoute demo_env [] demo_backend ''s1'' []
      (demo_login_request ''POST'' ''/auth/login/start'') ?w0)
      = \<lparr>lw_world = ww, lw_attempts = [(demo_key, demo_attempt)], lw_dirs = [''s1'']\<rparr>" "wd_db ww = demo_db"
    using demo_login_start by (metis snd_conv)
  let ?w1 = "\<lparr>lw_world = ww, lw_attempts = [(demo_key, demo_attempt)], lw_dirs = [''s1'']\<rparr>"
  have ids: "distinct (map id_tg (identities demo_db))" by (simp add: demo_defs)
  have "login_step ?w0 ?w1"
    using login_step.request [OF demo_quiet, of ?w0 "[]" "''s1''" "[]"
        "demo_login_request ''POST'' ''/auth/login/start''"] s(1) by simp
  moreover have "login_step ?w1 (?w1\<lparr>lw_world := demo_world demo_db\<rparr>)"
    by (rule login_step.other) (use ident_ext_refl [OF demo_accounts_inv ids] s(2) in \<open>simp add: demo_world_def\<close>)
  ultimately have run: "login_step\<^sup>*\<^sup>* ?w0 demo_login_world"
    by (simp add: demo_login_world_def)
  have start: "accounts_inv (wd_db (lw_world ?w0))" "distinct (map id_tg (identities (wd_db (lw_world ?w0))))"
    "lw_attempts ?w0 = []"
    using demo_accounts_inv ids by (simp_all add: demo_world_def)
  obtain resp w' ck where req: "loginRoute demo_env [] demo_backend ''s2'' []
      (demo_login_request ''GET'' ''/auth/login/state'') demo_login_world = (resp, w')"
    and ck: "ck \<in> set (rs_cookies resp)" "ck_name ck = cookieName [] ''session''"
    using demo_login_state by blast
  obtain c a p where c: "rq_cookie (demo_login_request ''GET'' ''/auth/login/state'') (cookieName [] ''login'') = Some c"
    "lookup_attempt (b64_encode (go_hash demo_env c)) demo_login_world = Some a"
    "lg_profile a = Some p \<or> lg_profile a = None \<and> be_ready demo_backend \<and> be_profile demo_backend = Inr p"
    "opened_for demo_env p (wd_db (lw_world w')) ck"
    using login_opens_own_account [OF start run demo_quiet req ck] by blast
  have "a = demo_attempt"
    using c(2) by (auto simp: lookup_attempt_def demo_login_world_def split: if_splits)
  then have "p = demo_profile" using c(3) by (simp add: demo_attempt_def demo_backend_def)
  then show ?thesis using req c(4) by blast
qed

end
