(* ===== verification/OAuth.thy ===== *)
theory OAuth
  imports WebAuth
begin

text \<open>
  \<open>internal/oauth\<close>: the authorization server (\<open>server.go\<close>, \<open>registration.go\<close>) and
  the hourly cleanup (\<open>internal/gateway/maintenance.go\<close>).  A handler is a step of the
  database; where it first looks a grant up without locks and then takes the grant's lock,
  the lookup reads its own database \<open>d0\<close> and the rest works on \<open>d\<close>.  A transaction that
  fails leaves \<open>d\<close>.  The random bytes a handler draws and the ids of the rows it inserts are
  arguments.
\<close>

section \<open>Responses and middleware\<close>

definition fail :: "int \<Rightarrow> string \<Rightarrow> response" where
  "fail status code = reply_error status code"

definition randomToken :: "bytes \<Rightarrow> string" where
  "randomToken rnd = b64_encode rnd"

definition equalHash :: "env \<Rightarrow> string \<Rightarrow> bytes option \<Rightarrow> bool" where
  "equalHash e v expected = (expected = Some (go_hash e v))"

definition content_policy :: string where
  "content_policy = ''default-src '' @ [CHR 0x27] @ ''none'' @ [CHR 0x27] @ ''; style-src '' @ [CHR 0x27]
     @ ''unsafe-inline'' @ [CHR 0x27] @ ''; frame-ancestors '' @ [CHR 0x27] @ ''none'' @ [CHR 0x27]
     @ ''; base-uri '' @ [CHR 0x27] @ ''none'' @ [CHR 0x27]"

definition form_action :: string where
  "form_action = ''; form-action '' @ [CHR 0x27] @ ''self'' @ [CHR 0x27]"

definition oauth_headers :: "request \<Rightarrow> (string \<times> string) list" where
  "oauth_headers r =
     (let page = (rq_path r = ''/oauth/authorize'') in
      [(''Cache-Control'', ''no-store''), (''Pragma'', ''no-cache''),
       (''X-Content-Type-Options'', ''nosniff''),
       (''Referrer-Policy'', if page then ''same-origin'' else ''no-referrer''),
       (''X-Frame-Options'', ''DENY''),
       (''Content-Security-Policy'', content_policy @ form_action)]
      @ (if page then []
         else [(''Access-Control-Allow-Origin'', ''*''),
               (''Access-Control-Allow-Headers'', ''Content-Type, Authorization''),
               (''Access-Control-Allow-Methods'', ''POST, OPTIONS'')]))"

text \<open>Headers a handler sets again replace those of the middleware.\<close>

definition with_headers :: "(string \<times> string) list \<Rightarrow> response \<Rightarrow> response" where
  "with_headers hs resp =
     resp\<lparr>rs_headers := filter (\<lambda>(k, v). k \<notin> fst ` set (rs_headers resp)) hs @ rs_headers resp\<rparr>"

definition middleware ::
    "env \<Rightarrow> (request \<Rightarrow> world \<Rightarrow> response \<times> world) \<Rightarrow> request \<Rightarrow> world \<Rightarrow> response \<times> world" where
  [handler_defs]: "middleware e next r w =
     (if rq_method r = ''OPTIONS'' then (with_headers (oauth_headers r) (reply 204 JNull), w)
      else (case limit_check e (''rl:oauth:'' @ ClientIP e r)
                   \<lparr>l_capacity = 30, l_refill = 1 / 2, l_cost = 1\<rparr> w of
          (Inl err, w') \<Rightarrow> (with_headers (oauth_headers r) (fail 429 ''temporarily_unavailable''), w')
        | (Inr res, w') \<Rightarrow>
            if \<not> r_allowed res
            then (with_headers (oauth_headers r) (fail 429 ''temporarily_unavailable''), w')
            else (case next r w' of (resp, w'') \<Rightarrow> (with_headers (oauth_headers r) resp, w''))))"

definition allScopes :: "string list" where
  "allScopes =
     [''profile:read'', ''chats:list'', ''chat:read'', ''messages:read'', ''messages:search'',
      ''contacts:read'', ''members:read'', ''media:read'', ''messages:send'']"

definition metadata :: "string \<Rightarrow> response" where
  "metadata base =
     reply 200 (JObj
       [(''issuer'', JStr base), (''authorization_endpoint'', JStr (base @ ''/oauth/authorize'')),
        (''token_endpoint'', JStr (base @ ''/oauth/token'')),
        (''registration_endpoint'', JStr (base @ ''/oauth/register'')),
        (''revocation_endpoint'', JStr (base @ ''/oauth/revoke'')),
        (''response_types_supported'', jstrs [''code'']),
        (''grant_types_supported'', jstrs [''authorization_code'', ''refresh_token'']),
        (''code_challenge_methods_supported'', jstrs [''S256'']),
        (''token_endpoint_auth_methods_supported'',
           jstrs [''none'', ''client_secret_post'', ''client_secret_basic'']),
        (''scopes_supported'', jstrs allScopes),
        (''authorization_response_iss_parameter_supported'', JBool True)])"

definition resourceMetadata :: "string \<Rightarrow> response" where
  "resourceMetadata base =
     (reply 200 (JObj
       [(''resource'', JStr (base @ ''/mcp'')), (''authorization_servers'', jstrs [base]),
        (''scopes_supported'', jstrs allScopes), (''bearer_methods_supported'', jstrs [''header'']),
        (''resource_name'', JStr ''Telegram Gateway'')]))
     \<lparr>rs_headers := [(''Access-Control-Allow-Origin'', ''*'')]\<rparr>"

section \<open>Clients and their redirect addresses\<close>

definition one_day :: time where
  "one_day = 24 * 3600 * 1000000"

definition client_alive :: "env \<Rightarrow> oauth_client \<Rightarrow> bool" where
  "client_alive e c = (oc_activated c \<noteq> None \<or> e_now e - one_day < oc_created c)"

definition getClient :: "env \<Rightarrow> string \<Rightarrow> db \<Rightarrow> oauth_client result" where
  "getClient e i d =
     (if e_fail e ''getClient'' then Inl (DbErr ''select'')
      else (case find (\<lambda>c. oc_id c = i \<and> client_alive e c) (oauth_clients d) of
              None \<Rightarrow> Inl NoRows
            | Some c \<Rightarrow> Inr c))"

definition validRedirect :: "env \<Rightarrow> string \<Rightarrow> bool" where
  "validRedirect e raw =
     (case url_parse (e_addr e) raw of
        None \<Rightarrow> False
      | Some u \<Rightarrow>
          if u_user u \<noteq> None \<or> u_fragment u \<noteq> [] \<or> u_host u = [] \<or> 2048 < length raw then False
          else if u_scheme u = ''https'' then True
          else if u_scheme u = ''http''
            then hostname u \<in> {''127.0.0.1'', ''[::1]'', ''::1'', ''localhost''}
          else False)"

definition redirectMatches :: "env \<Rightarrow> string \<Rightarrow> string \<Rightarrow> bool" where
  "redirectMatches e registered actual =
     (if registered = actual then True
      else (case (url_parse (e_addr e) registered, url_parse (e_addr e) actual) of
          (Some a, Some b) \<Rightarrow>
            if u_scheme a \<noteq> ''http'' \<or> u_scheme b \<noteq> ''http'' \<or> hostname a \<noteq> hostname b then False
            else if hostname a \<notin> {''127.0.0.1'', ''::1'', ''localhost''} then False
            else url_string (a\<lparr>u_host := hostname a\<rparr>) = url_string (b\<lparr>u_host := hostname b\<rparr>)
        | _ \<Rightarrow> False))"

section \<open>Registration (registration.go, register)\<close>

text \<open>Registrations no one has used: not activated and not referenced.\<close>

definition referenced :: "db \<Rightarrow> string \<Rightarrow> bool" where
  "referenced d i =
     (exists_row (\<lambda>q. or_client q = i) (oauth_requests d)
      \<or> exists_row (\<lambda>q. co_client q = i) (oauth_codes d)
      \<or> exists_row (\<lambda>q. rt_client q = i) (refresh_tokens d))"

definition unused :: "db \<Rightarrow> oauth_client list" where
  "unused d = filter (\<lambda>c. oc_activated c = None \<and> \<not> referenced d (oc_id c)) (oauth_clients d)"

definition newest_first :: "oauth_client list \<Rightarrow> oauth_client list" where
  "newest_first cs = rev (sort_key (\<lambda>c. (oc_created c, oc_id c)) cs)"

definition stale :: "env \<Rightarrow> nat \<Rightarrow> db \<Rightarrow> string list" where
  "stale e keep d =
     map oc_id (filter (\<lambda>c. oc_created c < e_now e - one_day) (unused d)
                @ drop keep (newest_first (unused d)))"

definition pruneRegistrations :: "env \<Rightarrow> nat \<Rightarrow> db \<Rightarrow> unit result \<times> db" where
  [handler_defs]: "pruneRegistrations e keep d =
     (if e_fail e ''lockRegistrations'' then (Inl (DbErr ''lock''), d)
      else if e_fail e ''prune'' then (Inl (DbErr ''delete''), d)
      else (Inr (), d\<lparr>oauth_clients :=
                        delete_where (\<lambda>c. oc_id c \<in> set (stale e keep d)) (oauth_clients d)\<rparr>))"

definition CleanupRegistrations :: "env \<Rightarrow> db \<Rightarrow> unit result \<times> db" where
  [handler_defs]: "CleanupRegistrations e d =
     (if e_fail e ''cleanup.begin'' then (Inl (DbErr ''begin''), d)
      else (case pruneRegistrations e 1000 d of
              (Inl err, _) \<Rightarrow> (Inl err, d)
            | (Inr _, d') \<Rightarrow>
                if e_fail e ''cleanup.commit'' then (Inl (DbErr ''commit''), d) else (Inr (), d')))"

text \<open>The request body of \<open>register\<close>; a null list is the empty one.\<close>

definition struct_strs :: "string \<Rightarrow> (string \<times> json) list \<Rightarrow> string list option" where
  "struct_strs name m =
     struct_field name dec_strs [] (map (\<lambda>(k, v). (k, if v = JNull then JArr [] else v)) m)"

record registration =
  rg_name :: string
  rg_redirects :: "string list"
  rg_method :: string
  rg_grants :: "string list"
  rg_responses :: "string list"

definition read_registration :: "request \<Rightarrow> registration option" where
  "read_registration r =
     (case Option.bind (decode_body 32768 (rq_body r)) members_of of
        None \<Rightarrow> None
      | Some m \<Rightarrow>
          (case (struct_field ''client_name'' dec_str [] m, struct_strs ''redirect_uris'' m,
                 struct_field ''token_endpoint_auth_method'' dec_str [] m,
                 struct_strs ''grant_types'' m, struct_strs ''response_types'' m) of
             (Some n, Some rs, Some me, Some gs, Some ts) \<Rightarrow>
               Some \<lparr>rg_name = n, rg_redirects = rs, rg_method = me, rg_grants = gs,
                     rg_responses = ts\<rparr>
           | _ \<Rightarrow> None))"

definition auth_methods :: "string set" where
  "auth_methods = {''none'', ''client_secret_post'', ''client_secret_basic''}"

text \<open>The checks of \<open>register\<close> in order: the error code of the first that fails.\<close>

definition registration_error :: "env \<Rightarrow> registration \<Rightarrow> string option" where
  "registration_error e g =
     (if rg_redirects g = [] \<or> 10 < length (rg_redirects g) \<or> 200 < length (rg_name g)
        then Some ''invalid_client_metadata''
      else if \<not> list_all (validRedirect e) (rg_redirects g) then Some ''invalid_redirect_uri''
      else if \<not> list_all (\<lambda>v. v = ''authorization_code'' \<or> v = ''refresh_token'') (rg_grants g)
        then Some ''invalid_client_metadata''
      else if \<not> list_all (\<lambda>v. v = ''code'') (rg_responses g) then Some ''invalid_client_metadata''
      else if rg_method g \<noteq> [] \<and> rg_method g \<notin> auth_methods then Some ''invalid_client_metadata''
      else None)"

definition registered_client ::
    "env \<Rightarrow> registration \<Rightarrow> bytes \<Rightarrow> bytes \<Rightarrow> oauth_client" where
  "registered_client e g rid rsec =
     (let me = (if rg_method g = [] then ''none'' else rg_method g) in
      \<lparr>oc_id = randomToken rid, oc_name = (if rg_name g = [] then ''MCP client'' else rg_name g),
       oc_redirects = rg_redirects g,
       oc_secret = (if me \<noteq> ''none'' then Some (go_hash e (randomToken rsec)) else None),
       oc_method = me, oc_created = e_now e, oc_activated = None\<rparr>)"

definition registration_reply :: "env \<Rightarrow> oauth_client \<Rightarrow> string \<Rightarrow> response" where
  "registration_reply e c secret =
     reply 201 (JObj
       ([(''client_id'', JStr (oc_id c)), (''client_name'', JStr (oc_name c)),
         (''redirect_uris'', jstrs (oc_redirects c)),
         (''token_endpoint_auth_method'', JStr (oc_method c)),
         (''grant_types'', jstrs [''authorization_code'', ''refresh_token'']),
         (''response_types'', jstrs [''code'']),
         (''client_id_issued_at'', jint (e_clock e div 1000000))]
        @ (if secret \<noteq> [] then [(''client_secret'', JStr secret), (''client_secret_expires_at'', jint 0)]
           else [])))"

definition register :: "env \<Rightarrow> bytes \<Rightarrow> bytes \<Rightarrow> request \<Rightarrow> db \<Rightarrow> response \<times> db" where
  [handler_defs]: "register e rid rsec r d =
     (case read_registration r of
        None \<Rightarrow> (fail 400 ''invalid_client_metadata'', d)
      | Some g \<Rightarrow>
          (case registration_error e g of
             Some code \<Rightarrow> (fail 400 code, d)
           | None \<Rightarrow>
              (let c = registered_client e g rid rsec;
                   secret = (if oc_method c \<noteq> ''none'' then randomToken rsec else [])
               in if e_fail e ''register.begin'' then (fail 503 ''temporarily_unavailable'', d)
                  else (case pruneRegistrations e 999 d of
                      (Inl err, _) \<Rightarrow> (fail 503 ''temporarily_unavailable'', d)
                    | (Inr _, d1) \<Rightarrow>
                        if e_fail e ''register.insert'' \<or> \<not> pg_text (oc_name c)
                           \<or> \<not> list_all pg_text (oc_redirects c)
                           \<or> oc_id c \<in> oc_id ` set (oauth_clients d1)
                          then (fail 500 ''server_error'', d)
                        else if e_fail e ''register.commit'' then (fail 503 ''temporarily_unavailable'', d)
                        else (registration_reply e c secret,
                              d1\<lparr>oauth_clients := oauth_clients d1 @ [c]\<rparr>)))))"

section \<open>Authorization\<close>

definition url_safe :: "char \<Rightarrow> bool" where
  "url_safe c = (is_alnum c \<or> c = CHR ''_'' \<or> c = CHR ''-'')"

definition challengePattern :: "string \<Rightarrow> bool" where
  "challengePattern s = (length s = 43 \<and> list_all url_safe s)"

definition verifierPattern :: "string \<Rightarrow> bool" where
  "verifierPattern s =
     (43 \<le> length s \<and> length s \<le> 128
      \<and> list_all (\<lambda>c. is_alnum c \<or> c \<in> set ''._~-'') s)"

definition validResource :: "string \<Rightarrow> string \<Rightarrow> bool" where
  "validResource base v = (v = [] \<or> v = base @ ''/mcp'')"

definition parseScopes :: "string \<Rightarrow> string list result" where
  "parseScopes raw = (if raw = [] then Inr allScopes else NormalizeScopes (Prelude.fields raw))"

definition ten_min :: time where
  "ten_min = 600 * 1000000"

definition consent_cookie :: "string \<Rightarrow> string \<Rightarrow> string \<Rightarrow> cookie" where
  "consent_cookie base i tok =
     \<lparr>ck_name = ''tgw_oauth_'' @ take 12 i, ck_value = tok, ck_path = ''/oauth/authorize'',
      ck_secure = https_base base, ck_age = 600\<rparr>"

definition consent_page ::
    "env \<Rightarrow> string \<Rightarrow> oauth_client \<Rightarrow> browser_principal \<Rightarrow> oauth_request \<Rightarrow> string \<Rightarrow> response" where
  "consent_page e base c p q tok =
     (reply 200 (JObj
        [(''ID'', JStr (or_id q)), (''CSRF'', JStr tok), (''Client'', JStr (oc_name c)),
         (''Redirect'', JStr (or_redirect q)), (''Scopes'', jstrs (or_scopes q)),
         (''AccountID'', JStr (bp_account p)), (''AccountName'', JStr (bp_name p))]))
     \<lparr>rs_cookies := [consent_cookie base (or_id q) tok],
      rs_headers :=
        (case url_parse (e_addr e) (or_redirect q) of
           None \<Rightarrow> []
         | Some u \<Rightarrow> [(''Content-Security-Policy'', content_policy @ form_action @ '' ''
                        @ u_scheme u @ ''://'' @ u_host u)])\<rparr>"

definition authorize :: "env \<Rightarrow> string \<Rightarrow> bytes \<Rightarrow> bytes \<Rightarrow> request \<Rightarrow> db \<Rightarrow> response \<times> db" where
  [handler_defs]: "authorize e base rid rtok r d =
     (let redirect = query_get r ''redirect_uri'' in
      case getClient e (query_get r ''client_id'') d of
        Inl err \<Rightarrow> (fail 400 ''invalid_client'', d)
      | Inr c \<Rightarrow>
          if \<not> list_ex (\<lambda>v. redirectMatches e v redirect) (oc_redirects c) \<or> \<not> validRedirect e redirect
            then (fail 400 ''invalid_redirect_uri'', d)
          else if query_get r ''response_type'' \<noteq> ''code'' \<or> query_get r ''code_challenge_method'' \<noteq> ''S256''
              \<or> \<not> challengePattern (query_get r ''code_challenge'')
              \<or> \<not> validResource base (query_get r ''resource'') \<or> 4096 < length (query_get r ''state'')
            then (fail 400 ''invalid_request'', d)
          else (case parseScopes (query_get r ''scope'') of
              Inl err \<Rightarrow> (fail 400 ''invalid_scope'', d)
            | Inr scopes \<Rightarrow>
               (case Authenticate e base r d of
                  Inl err \<Rightarrow> (redirect_to 303 (LoginURL e (request_uri (rq_url r))), d)
                | Inr p \<Rightarrow>
                   if e_fail e ''authorize.begin'' \<or> e_fail e ''lockRegistrations''
                     then (fail 503 ''temporarily_unavailable'', d)
                   else if e_fail e ''authorize.client''
                       \<or> \<not> exists_row (\<lambda>k. oc_id k = oc_id c \<and> client_alive e k) (oauth_clients d)
                     then (fail 400 ''invalid_client'', d)
                   else (let q = \<lparr>or_id = randomToken rid, or_client = oc_id c, or_redirect = redirect,
                                  or_state = query_get r ''state'',
                                  or_challenge = query_get r ''code_challenge'', or_scopes = scopes,
                                  or_csrf = go_hash e (randomToken rtok),
                                  or_expires = e_now e + ten_min, or_user = Some (bp_user p),
                                  or_account = Some (bp_account p)\<rparr>
                         in if e_fail e ''authorize.insert'' \<or> \<not> pg_text redirect \<or> \<not> pg_text (or_state q)
                               \<or> or_id q \<in> or_id ` set (oauth_requests d)
                            then (fail 500 ''server_error'', d)
                            else if e_fail e ''authorize.commit'' then (fail 503 ''temporarily_unavailable'', d)
                            else (consent_page e base c p q (randomToken rtok),
                                  d\<lparr>oauth_requests := oauth_requests d @ [q]\<rparr>)))))"

section \<open>Consent\<close>

definition form_get :: "request \<Rightarrow> string \<Rightarrow> string" where
  "form_get r k = (case rq_form r of None \<Rightarrow> [] | Some q \<Rightarrow> q_get k q)"

definition oauth_event :: "string \<Rightarrow> string \<Rightarrow> string \<Rightarrow> string \<Rightarrow> json \<Rightarrow> event" where
  "oauth_event account actor action grant meta =
     \<lparr>ev_account = Some account, ev_actor_type = ''SYSTEM'', ev_actor = actor, ev_action = action,
      ev_resource_type = ''gateway_client'', ev_resource = grant, ev_ip = [], ev_agent = [],
      ev_request = None, ev_meta = meta, ev_created = zero_time\<rparr>"

text \<open>
  The pending request that a consent form answers, if the session, the cookie and the form
  token all belong to it.
\<close>

definition pending_request ::
    "env \<Rightarrow> browser_principal \<Rightarrow> request \<Rightarrow> db \<Rightarrow> oauth_request option" where
  "pending_request e p r d =
     (let i = form_get r ''request_id'' in
      if e_fail e ''consent.select'' then None
      else (case find (\<lambda>q. or_id q = i \<and> e_now e < or_expires q) (oauth_requests d) of
          None \<Rightarrow> None
        | Some q \<Rightarrow>
            (case rq_cookie r (''tgw_oauth_'' @ take 12 i) of
               None \<Rightarrow> None
             | Some ck \<Rightarrow>
                 if or_user q \<noteq> Some (bp_user p) \<or> or_account q \<noteq> Some (bp_account p)
                    \<or> \<not> equalHash e ck (Some (or_csrf q))
                    \<or> \<not> equalHash e (form_get r ''csrf'') (Some (or_csrf q))
                 then None else Some q)))"

definition consent_target :: "string \<Rightarrow> oauth_request \<Rightarrow> url \<Rightarrow> (string \<times> string) \<Rightarrow> string" where
  "consent_target base q target kv =
     url_string (target\<lparr>u_raw_query := encode_query
       (q_set (fst kv) (snd kv)
         (q_set ''iss'' base (q_set ''state'' (or_state q) (parse_query (u_raw_query target)))))\<rparr>)"

definition activate_client :: "time \<Rightarrow> oauth_client \<Rightarrow> oauth_client" where
  "activate_client now c = c\<lparr>oc_activated := coalesce (oc_activated c) (Some now)\<rparr>"

text \<open>The insert into \<open>gateway_clients\<close> for an active account of the user.\<close>

definition insert_grant_client ::
    "env \<Rightarrow> uuid \<Rightarrow> uuid \<Rightarrow> uuid \<Rightarrow> string \<Rightarrow> db \<Rightarrow> uuid result \<times> db" where
  "insert_grant_client e gid account user client d =
     (case find (\<lambda>c. oc_id c = client) (oauth_clients d) of
        None \<Rightarrow> (Inl NoRows, d)
      | Some c \<Rightarrow>
          if exists_row (\<lambda>a. acc_id a = account \<and> acc_user a = user \<and> acc_status a = Active) (accounts d)
          then insert_client e gid user (oc_name c) MCP d else (Inl NoRows, d))"

definition five_min :: time where
  "five_min = 300 * 1000000"

text \<open>The transaction of an allowed consent: a response on failure, else the grant's client.\<close>

definition consent_tx ::
    "env \<Rightarrow> uuid \<Rightarrow> bytes \<Rightarrow> browser_principal \<Rightarrow> oauth_request \<Rightarrow> db \<Rightarrow> (response + uuid) \<times> db" where
  "consent_tx e gid rcode p q d =
     (if e_fail e ''consent.begin'' then (Inl (fail 500 ''server_error''), d)
      else if e_fail e ''lockRegistrations'' then (Inl (fail 503 ''temporarily_unavailable''), d)
      else if e_fail e ''consent.activate'' then (Inl (fail 500 ''server_error''), d)
      else (let d1 = d\<lparr>oauth_clients := update_where (\<lambda>c. oc_id c = or_client q)
                           (activate_client (e_now e)) (oauth_clients d)\<rparr>;
                mine = (\<lambda>x. or_id x = or_id q \<and> e_now e < or_expires x)
            in if e_fail e ''consent.delete'' \<or> affected mine (oauth_requests d1) \<noteq> 1
                 then (Inl (fail 400 ''invalid_request''), d)
               else if e_fail e ''consent.client'' then (Inl (fail 400 ''access_denied''), d)
               else (case insert_grant_client e gid (bp_account p) (bp_user p) (or_client q)
                            (d1\<lparr>oauth_requests := delete_where mine (oauth_requests d1)\<rparr>) of
                   (Inl err, _) \<Rightarrow> (Inl (fail 400 ''access_denied''), d)
                 | (Inr g, d2) \<Rightarrow>
                     (let h = go_hash e (randomToken rcode) in
                      if e_fail e ''consent.code'' \<or> h \<in> co_hash ` set (oauth_codes d2) \<or> e_fail e ''consent.commit''
                      then (Inl (fail 500 ''server_error''), d)
                      else (Inr g, d2\<lparr>oauth_codes := oauth_codes d2 @
                              [\<lparr>co_hash = h, co_client = or_client q, co_gateway = g,
                                co_account = bp_account p, co_redirect = or_redirect q,
                                co_challenge = or_challenge q, co_scopes = or_scopes q,
                                co_expires = e_now e + five_min\<rparr>]\<rparr>)))))"

text \<open>A nil URL (a stored address that no longer parses) makes the handler panic.\<close>

definition consent ::
    "env \<Rightarrow> string \<Rightarrow> uuid \<Rightarrow> bytes \<Rightarrow> request \<Rightarrow> db \<Rightarrow> response \<times> db" where
  [handler_defs]: "consent e base gid rcode r d =
     (case Authenticate e base r d of
        Inl err \<Rightarrow> (fail 401 ''login_required'', d)
      | Inr p \<Rightarrow>
          if rq_form r = None then (fail 400 ''invalid_request'', d)
          else if length (form_get r ''request_id'') < 12 then (fail 400 ''invalid_request'', d)
          else (case pending_request e p r d of
              None \<Rightarrow> (fail 400 ''invalid_request'', d)
            | Some q \<Rightarrow>
                if \<not> origin_ok base r then (fail 403 ''access_denied'', d)
                else (case url_parse (e_addr e) (or_redirect q) of
                    None \<Rightarrow> (fail 500 ''panic'', d)
                  | Some target \<Rightarrow>
                      if form_get r ''decision'' \<noteq> ''allow'' then
                        (redirect_to 303 (consent_target base q target (''error'', ''access_denied'')),
                         if e_fail e ''consent.deny'' then d
                         else d\<lparr>oauth_requests := delete_where (\<lambda>x. or_id x = or_id q) (oauth_requests d)\<rparr>)
                      else if form_get r ''account_id'' \<noteq> bp_account p then (fail 403 ''access_denied'', d)
                      else (case consent_tx e gid rcode p q d of
                          (Inl resp, d') \<Rightarrow> (resp, d')
                        | (Inr g, d1) \<Rightarrow>
                            (case Write e (oauth_event (bp_account p) (''oauth-user:'' @ bp_user p)
                                      ''OAUTH_CONSENT_GRANTED'' g
                                      (JObj [(''oauth_client_id'', JStr (or_client q)),
                                             (''scopes'', jstrs (or_scopes q))])) d1 of
                               (Inl err, d2) \<Rightarrow> (fail 503 ''temporarily_unavailable'', d2)
                             | (Inr _, d2) \<Rightarrow>
                                 (redirect_to 303 (consent_target base q target (''code'', randomToken rcode)), d2))))))"

section \<open>Tokens\<close>

definition authenticateClient :: "env \<Rightarrow> request \<Rightarrow> db \<Rightarrow> oauth_client result" where
  "authenticateClient e r d =
     (let (i, secret, basic) = (case rq_basic r of
            Some (user, password) \<Rightarrow> (user, password, True)
          | None \<Rightarrow> (form_get r ''client_id'', form_get r ''client_secret'', False))
      in (case getClient e i d of
            Inl err \<Rightarrow> Inl (Msg ''invalid client'')
          | Inr c \<Rightarrow>
              if oc_method c = ''none'' then
                (if secret \<noteq> [] \<or> basic then Inl (Msg ''invalid client'') else Inr c)
              else if oc_method c = ''client_secret_basic'' then
                (if \<not> basic \<or> \<not> equalHash e secret (oc_secret c) then Inl (Msg ''invalid client'') else Inr c)
              else if oc_method c = ''client_secret_post'' then
                (if basic \<or> \<not> equalHash e secret (oc_secret c) then Inl (Msg ''invalid client'') else Inr c)
              else Inl (Msg ''invalid client'')))"

definition one_hour :: time where
  "one_hour = 3600 * 1000000"

text \<open>\<open>issue\<close>; \<open>i\<close> is the id of the token row, \<open>rtok\<close> and \<open>rref\<close> the random bytes.\<close>

definition issue ::
    "env \<Rightarrow> uuid \<Rightarrow> bytes \<Rightarrow> bytes \<Rightarrow> string \<Rightarrow> uuid \<Rightarrow> uuid \<Rightarrow> string list \<Rightarrow> db
       \<Rightarrow> (string \<times> string) result \<times> db" where
  [handler_defs]: "issue e i rtok rref client gw account scopes d =
     (case GenerateToken e rtok of
        Inl err \<Rightarrow> (Inl err, d)
      | Inr tok \<Rightarrow>
          if e_fail e ''issue.token'' then (Inl (Msg ''account access unavailable''), d)
          else (case insert_token e i gw account tok scopes (Some (e_now e + one_hour)) d of
              (Inl err, _) \<Rightarrow> (Inl (Msg ''account access unavailable''), d)
            | (Inr n, d1) \<Rightarrow>
                if n \<noteq> 1 then (Inl (Msg ''account access unavailable''), d)
                else (let h = go_hash e (randomToken rref) in
                      if e_fail e ''issue.refresh'' \<or> h \<in> rt_hash ` set (refresh_tokens d1)
                      then (Inl (DbErr ''insert oauth_refresh_tokens''), d)
                      else (Inr (g_plain tok, randomToken rref),
                            d1\<lparr>refresh_tokens := refresh_tokens d1 @
                              [\<lparr>rt_hash = h, rt_client = client, rt_gateway = gw, rt_account = account,
                                rt_scopes = scopes, rt_expires = e_now e + thirty_days,
                                rt_revoked = None\<rparr>]\<rparr>))))"

text \<open>The grant a code or a refresh token names, looked up before any lock is taken.\<close>

definition find_grant :: "env \<Rightarrow> request \<Rightarrow> oauth_client \<Rightarrow> db \<Rightarrow> (response + (uuid \<times> uuid))" where
  "find_grant e r c d0 =
     (if form_get r ''grant_type'' = ''authorization_code'' then
        (if e_fail e ''token.find'' then Inl (fail 400 ''invalid_grant'')
         else (case find (\<lambda>k. co_hash k = go_hash e (form_get r ''code'') \<and> co_client k = oc_id c) (oauth_codes d0) of
                 None \<Rightarrow> Inl (fail 400 ''invalid_grant'')
               | Some k \<Rightarrow> Inr (co_account k, co_gateway k)))
      else if form_get r ''grant_type'' = ''refresh_token'' then
        (if e_fail e ''token.find'' then Inl (fail 400 ''invalid_grant'')
         else (case find (\<lambda>t. rt_hash t = go_hash e (form_get r ''refresh_token'') \<and> rt_client t = oc_id c)
                      (refresh_tokens d0) of
                 None \<Rightarrow> Inl (fail 400 ''invalid_grant'')
               | Some t \<Rightarrow> Inr (rt_account t, rt_gateway t)))
      else Inl (fail 400 ''unsupported_grant_type''))"

definition pkce_ok :: "env \<Rightarrow> string \<Rightarrow> string \<Rightarrow> bool" where
  "pkce_ok e challenge verifier =
     (verifierPattern verifier \<and> challenge = b64_encode (e_sha e verifier))"

definition redeem_code ::
    "env \<Rightarrow> request \<Rightarrow> oauth_client \<Rightarrow> db \<Rightarrow> (response + (uuid \<times> uuid \<times> string list)) \<times> db" where
  "redeem_code e r c d =
     (let h = go_hash e (form_get r ''code'') in
      if e_fail e ''token.code'' then (Inl (fail 400 ''invalid_grant''), d)
      else (case find (\<lambda>k. co_hash k = h \<and> co_client k = oc_id c \<and> e_now e < co_expires k) (oauth_codes d) of
          None \<Rightarrow> (Inl (fail 400 ''invalid_grant''), d)
        | Some k \<Rightarrow>
            if co_redirect k \<noteq> form_get r ''redirect_uri'' \<or> \<not> pkce_ok e (co_challenge k) (form_get r ''code_verifier'')
              then (Inl (fail 400 ''invalid_grant''), d)
            else if e_fail e ''token.delete'' then (Inl (fail 500 ''server_error''), d)
            else (Inr (co_account k, co_gateway k, co_scopes k),
                  d\<lparr>oauth_codes := delete_where (\<lambda>k. co_hash k = h) (oauth_codes d)\<rparr>)))"

definition narrowed :: "string \<Rightarrow> string list \<Rightarrow> string list option" where
  "narrowed requested scopes =
     (if requested = [] then Some scopes
      else (case parseScopes requested of
              Inl err \<Rightarrow> None
            | Inr narrow \<Rightarrow> if set narrow \<subseteq> set scopes then Some narrow else None))"

text \<open>
  A refresh token that was used before ends the whole grant, in its own transaction: the
  result then is the response and the database after it.
\<close>

definition replay_revoke :: "env \<Rightarrow> refresh_row \<Rightarrow> db \<Rightarrow> response \<times> db" where
  "replay_revoke e t d =
     (case RevokeGrant e (rt_account t) (rt_gateway t) d of
        (Inl err, _) \<Rightarrow> (fail 503 ''temporarily_unavailable'', d)
      | (Inr _, d1) \<Rightarrow>
          if e_fail e ''token.commit'' then (fail 503 ''temporarily_unavailable'', d)
          else (case Write e (oauth_event (rt_account t) ''oauth'' ''OAUTH_REFRESH_REPLAY_REVOKED''
                                (rt_gateway t) (JObj [])) d1 of
                  (Inl err, d2) \<Rightarrow> (fail 503 ''temporarily_unavailable'', d2)
                | (Inr _, d2) \<Rightarrow> (fail 400 ''invalid_grant'', d2)))"

definition redeem_refresh ::
    "env \<Rightarrow> request \<Rightarrow> oauth_client \<Rightarrow> db \<Rightarrow> (response + (uuid \<times> uuid \<times> string list)) \<times> db" where
  "redeem_refresh e r c d =
     (let h = go_hash e (form_get r ''refresh_token'') in
      if e_fail e ''token.refresh'' then (Inl (fail 400 ''invalid_grant''), d)
      else (case find (\<lambda>t. rt_hash t = h \<and> rt_client t = oc_id c) (refresh_tokens d) of
          None \<Rightarrow> (Inl (fail 400 ''invalid_grant''), d)
        | Some t \<Rightarrow>
            if rt_revoked t \<noteq> None then (case replay_revoke e t d of (resp, d') \<Rightarrow> (Inl resp, d'))
            else if rt_expires t \<le> e_now e then (Inl (fail 400 ''invalid_grant''), d)
            else (case narrowed (form_get r ''scope'') (rt_scopes t) of
                None \<Rightarrow> (Inl (fail 400 ''invalid_scope''), d)
              | Some scopes \<Rightarrow>
                  if e_fail e ''token.rotate'' then (Inl (fail 500 ''server_error''), d)
                  else (Inr (rt_account t, rt_gateway t, scopes),
                        d\<lparr>refresh_tokens := update_where (\<lambda>t. rt_hash t = h)
                            (\<lambda>t. t\<lparr>rt_revoked := Some (e_now e)\<rparr>) (refresh_tokens d)\<rparr>))))"

definition token_reply :: "string \<Rightarrow> string \<times> string \<Rightarrow> string list \<Rightarrow> response" where
  "token_reply base tr scopes =
     reply 200 (JObj
       [(''access_token'', JStr (fst tr)), (''refresh_token'', JStr (snd tr)), (''token_type'', JStr ''Bearer''),
        (''expires_in'', jint 3600), (''scope'', JStr (intercalate '' '' scopes)),
        (''resource'', JStr (base @ ''/mcp''))])"

definition token ::
    "env \<Rightarrow> string \<Rightarrow> uuid \<Rightarrow> bytes \<Rightarrow> bytes \<Rightarrow> request \<Rightarrow> db \<Rightarrow> db \<Rightarrow> response \<times> db" where
  [handler_defs]: "token e base i rtok rref r d0 d =
     (if rq_form r = None \<or> \<not> validResource base (form_get r ''resource'') then (fail 400 ''invalid_target'', d)
      else (case authenticateClient e r d0 of
          Inl err \<Rightarrow> (fail 401 ''invalid_client'', d)
        | Inr c \<Rightarrow>
            if e_fail e ''token.begin'' then (fail 500 ''server_error'', d)
            else (case find_grant e r c d0 of
                Inl resp \<Rightarrow> (resp, d)
              | Inr (a0, g0) \<Rightarrow>
                  (case LockGrant e a0 g0 of
                     Inl err \<Rightarrow> (fail 503 ''temporarily_unavailable'', d)
                   | Inr _ \<Rightarrow>
                      (case (if form_get r ''grant_type'' = ''authorization_code'' then redeem_code e r c d
                             else redeem_refresh e r c d) of
                         (Inl resp, d') \<Rightarrow> (resp, d')
                       | (Inr (account, gw, scopes), d1) \<Rightarrow>
                           (case issue e i rtok rref (oc_id c) gw account scopes d1 of
                              (Inl err, _) \<Rightarrow> (fail 400 ''invalid_grant'', d)
                            | (Inr tr, d2) \<Rightarrow>
                                if e_fail e ''token.commit'' then (fail 500 ''server_error'', d)
                                else (case Write e (oauth_event account ''oauth'' ''OAUTH_TOKEN_ISSUED'' gw
                                          (JObj [(''oauth_client_id'', JStr (oc_id c)),
                                                 (''grant_type'', JStr (form_get r ''grant_type'')),
                                                 (''scopes'', jstrs scopes)])) d2 of
                                        (Inl err, d3) \<Rightarrow> (fail 503 ''temporarily_unavailable'', d3)
                                      | (Inr _, d3) \<Rightarrow> (token_reply base tr scopes, d3))))))))"

text \<open>The grant that a token (of either kind) given to \<open>revoke\<close> belongs to.\<close>

definition revocable :: "env \<Rightarrow> string \<Rightarrow> oauth_client \<Rightarrow> db \<Rightarrow> (uuid \<times> uuid) option" where
  "revocable e tok c d =
     (let h = go_hash e tok in
      case find (\<lambda>t. rt_hash t = h \<and> rt_client t = oc_id c) (refresh_tokens d) of
        Some t \<Rightarrow> Some (rt_account t, rt_gateway t)
      | None \<Rightarrow>
          (case find (\<lambda>a. at_hash a = h
                 \<and> exists_row (\<lambda>t. rt_client t = oc_id c \<and> rt_gateway t = at_client a
                       \<and> rt_account t = at_account a) (refresh_tokens d)) (tokens d) of
             Some a \<Rightarrow> Some (at_account a, at_client a)
           | None \<Rightarrow> None))"

definition revoke :: "env \<Rightarrow> request \<Rightarrow> db \<Rightarrow> db \<Rightarrow> response \<times> db" where
  [handler_defs]: "revoke e r d0 d =
     (if rq_form r = None then (fail 400 ''invalid_request'', d)
      else (case authenticateClient e r d0 of
          Inl err \<Rightarrow> (fail 401 ''invalid_client'', d)
        | Inr c \<Rightarrow>
            if e_fail e ''revoke.begin'' \<or> e_fail e ''revoke.find'' then (fail 503 ''temporarily_unavailable'', d)
            else (case revocable e (form_get r ''token'') c d0 of
                None \<Rightarrow> (reply 200 (JObj []), d)
              | Some (account, grant) \<Rightarrow>
                  (case LockGrant e account grant of
                     Inl err \<Rightarrow> (fail 503 ''temporarily_unavailable'', d)
                   | Inr _ \<Rightarrow>
                      (case RevokeGrant e account grant d of
                         (Inl err, _) \<Rightarrow> (fail 503 ''temporarily_unavailable'', d)
                       | (Inr _, d1) \<Rightarrow>
                           if e_fail e ''revoke.commit'' then (fail 503 ''temporarily_unavailable'', d)
                           else (case Write e (oauth_event account ''oauth'' ''OAUTH_GRANT_REVOKED'' grant (JObj [])) d1 of
                                   (Inl err, d2) \<Rightarrow> (fail 503 ''temporarily_unavailable'', d2)
                                 | (Inr _, d2) \<Rightarrow> (reply 200 (JObj []), d2)))))))"

section \<open>Cleanup (gateway/maintenance.go)\<close>

text \<open>One round of \<open>Maintain\<close>: each delete may fail on its own.\<close>

definition sweep_tables :: "env \<Rightarrow> db \<Rightarrow> db" where
  "sweep_tables e d =
     (let gone = (\<lambda>t. t < e_now e)
      in d\<lparr>tickets := (if e_fail e ''sweep.tickets'' then tickets d else delete_where (\<lambda>x. gone (tk_expires x)) (tickets d)),
           oauth_codes := (if e_fail e ''sweep.codes'' then oauth_codes d else delete_where (\<lambda>x. gone (co_expires x)) (oauth_codes d)),
           oauth_requests := (if e_fail e ''sweep.requests'' then oauth_requests d else delete_where (\<lambda>x. gone (or_expires x)) (oauth_requests d)),
           refresh_tokens := (if e_fail e ''sweep.refresh'' then refresh_tokens d else delete_where (\<lambda>x. gone (rt_expires x)) (refresh_tokens d)),
           sessions := (if e_fail e ''sweep.sessions'' then sessions d else delete_where (\<lambda>x. gone (bs_expires x)) (sessions d))\<rparr>)"

definition Maintain :: "env \<Rightarrow> db \<Rightarrow> db" where
  "Maintain e d = snd (CleanupRegistrations e (sweep_tables e d))"

section \<open>The routes\<close>

text \<open>What one request draws: up to two random strings and the id of a row.\<close>

record draws =
  dr_a :: bytes
  dr_b :: bytes
  dr_id :: uuid

definition route ::
    "env \<Rightarrow> string \<Rightarrow> draws \<Rightarrow> request \<Rightarrow> db \<Rightarrow> db \<Rightarrow> response \<times> db" where
  [handler_defs]: "route e base x r d0 d =
     (let m = rq_method r; p = rq_path r in
      if m = ''POST'' \<and> p = ''/oauth/register'' then register e (dr_a x) (dr_b x) r d
      else if m = ''GET'' \<and> p = ''/oauth/authorize'' then authorize e base (dr_a x) (dr_b x) r d
      else if m = ''POST'' \<and> p = ''/oauth/authorize'' then consent e base (dr_id x) (dr_a x) r d
      else if m = ''POST'' \<and> p = ''/oauth/token'' then token e base (dr_id x) (dr_a x) (dr_b x) r d0 d
      else if m = ''POST'' \<and> p = ''/oauth/revoke'' then revoke e r d0 d
      else (reply_error 404 ''404 page not found'', d))"

end
