(* ===== verification/Grants.thy ===== *)
theory Grants
  imports OAuth
begin

text \<open>
  What the authorization server guarantees: the invariant of its tables, single use of
  codes, the end of a grant on replay or revocation, the binding of consent to the signed-in
  user, where a browser is sent, and the bound on unused registrations.
\<close>

section \<open>The invariant\<close>

definition grant_ok :: "db \<Rightarrow> uuid \<Rightarrow> uuid \<Rightarrow> string list \<Rightarrow> bool" where
  "grant_ok d g a ss =
     ((\<exists>c \<in> set (clients d). \<exists>t \<in> set (accounts d).
         gc_id c = g \<and> acc_id t = a \<and> acc_user t = gc_user c)
      \<and> ss \<noteq> [] \<and> set ss \<subseteq> set allowed_scopes)"

definition client_used :: "db \<Rightarrow> string \<Rightarrow> bool" where
  "client_used d i = (\<exists>c \<in> set (oauth_clients d). oc_id c = i \<and> oc_activated c \<noteq> None)"

definition code_ok :: "db \<Rightarrow> oauth_code \<Rightarrow> bool" where
  "code_ok d k = (grant_ok d (co_gateway k) (co_account k) (co_scopes k) \<and> client_used d (co_client k))"

definition refresh_ok :: "db \<Rightarrow> refresh_row \<Rightarrow> bool" where
  "refresh_ok d t = (grant_ok d (rt_gateway t) (rt_account t) (rt_scopes t) \<and> client_used d (rt_client t))"

definition redirect_ok :: "env \<Rightarrow> oauth_client \<Rightarrow> string \<Rightarrow> bool" where
  "redirect_ok e c v = (list_ex (\<lambda>x. redirectMatches e x v) (oc_redirects c) \<and> validRedirect e v)"

definition request_ok :: "env \<Rightarrow> db \<Rightarrow> oauth_request \<Rightarrow> bool" where
  "request_ok e d q =
     ((\<exists>c \<in> set (oauth_clients d). oc_id c = or_client q \<and> redirect_ok e c (or_redirect q))
      \<and> or_scopes q \<noteq> [] \<and> set (or_scopes q) \<subseteq> set allowed_scopes)"

definition oauth_inv :: "env \<Rightarrow> db \<Rightarrow> bool" where
  "oauth_inv e d =
     (accounts_inv d \<and> access_inv d
      \<and> distinct (map oc_id (oauth_clients d)) \<and> distinct (map or_id (oauth_requests d))
      \<and> distinct (map co_hash (oauth_codes d)) \<and> distinct (map rt_hash (refresh_tokens d))
      \<and> (\<forall>k \<in> set (oauth_codes d). code_ok d k) \<and> (\<forall>t \<in> set (refresh_tokens d). refresh_ok d t)
      \<and> (\<forall>q \<in> set (oauth_requests d). request_ok e d q))"

text \<open>A client that was activated, or that a row refers to, stays with its name and addresses.\<close>

definition client_kept :: "oauth_client \<Rightarrow> oauth_client \<Rightarrow> bool" where
  "client_kept c c' =
     (oc_id c' = oc_id c \<and> oc_redirects c' = oc_redirects c \<and> oc_name c' = oc_name c
      \<and> (oc_activated c \<noteq> None \<longrightarrow> oc_activated c' = oc_activated c))"

definition clients_kept :: "db \<Rightarrow> db \<Rightarrow> bool" where
  "clients_kept d d' =
     (\<forall>c \<in> set (oauth_clients d). oc_activated c \<noteq> None \<or> referenced d (oc_id c) \<longrightarrow>
        (\<exists>c' \<in> set (oauth_clients d'). client_kept c c'))"

lemma client_kept_refl [simp]: "client_kept c c"
  by (simp add: client_kept_def)

lemma clients_kept_refl: "oauth_clients d' = oauth_clients d \<Longrightarrow> clients_kept d d'"
  unfolding clients_kept_def using client_kept_refl by metis

lemma grant_ok_mono:
  assumes ev: "access_evolves d d'" and ok: "grant_ok d g a ss"
  shows "grant_ok d' g a ss"
proof -
  obtain c t where ct: "c \<in> set (clients d)" "t \<in> set (accounts d)" "gc_id c = g" "acc_id t = a"
    "acc_user t = gc_user c"
    using ok by (auto simp: grant_ok_def)
  obtain c' where "c' \<in> set (clients d')" "client_evolves c c'"
    using ev table_evolves_mono [OF _ ct(1)] unfolding access_evolves_def by blast
  moreover obtain t' where "t' \<in> set (accounts d')" "same_account t t'"
    using ev table_evolves_mono [OF _ ct(2)] unfolding access_evolves_def by blast
  ultimately show ?thesis
    using ok ct unfolding grant_ok_def client_evolves_def same_account_def by metis
qed

lemma client_used_mono: "clients_kept d d' \<Longrightarrow> client_used d i \<Longrightarrow> client_used d' i"
  unfolding clients_kept_def client_used_def client_kept_def by metis

lemma request_ok_mono:
  assumes "clients_kept d d'" "q \<in> set (oauth_requests d)" "request_ok e d q"
  shows "request_ok e d' q"
proof -
  obtain c where c: "c \<in> set (oauth_clients d)" "oc_id c = or_client q" "redirect_ok e c (or_redirect q)"
    using assms(3) by (auto simp: request_ok_def)
  have "referenced d (oc_id c)" using assms(2) c(2) by (auto simp: referenced_def exists_row_def)
  then obtain c' where "c' \<in> set (oauth_clients d')" "client_kept c c'"
    using assms(1) c(1) unfolding clients_kept_def by blast
  then show ?thesis
    using assms(3) c unfolding request_ok_def client_kept_def redirect_ok_def by metis
qed

text \<open>
  The stages of all handlers go through this rule: rows are kept, or changed in columns the
  invariant does not read, or new and good.
\<close>

definition same_refresh :: "refresh_row \<Rightarrow> refresh_row \<Rightarrow> bool" where
  "same_refresh t t' =
     (rt_hash t' = rt_hash t \<and> rt_client t' = rt_client t \<and> rt_gateway t' = rt_gateway t
      \<and> rt_account t' = rt_account t \<and> rt_scopes t' = rt_scopes t)"

lemma oauth_inv_stage:
  assumes inv: "oauth_inv e d" and good: "access_good d d'" and acc: "accounts_inv d \<Longrightarrow> accounts_inv d'"
    and kept: "clients_kept d d'" and dc: "distinct (map oc_id (oauth_clients d'))"
    and codes: "\<And>k. k \<in> set (oauth_codes d') \<Longrightarrow> k \<in> set (oauth_codes d) \<or> code_ok d' k"
    and refresh: "\<And>t. t \<in> set (refresh_tokens d') \<Longrightarrow>
        (\<exists>u \<in> set (refresh_tokens d). same_refresh u t) \<or> refresh_ok d' t"
    and reqs: "\<And>q. q \<in> set (oauth_requests d') \<Longrightarrow> q \<in> set (oauth_requests d) \<or> request_ok e d' q"
    and dd: "distinct (map co_hash (oauth_codes d'))" "distinct (map rt_hash (refresh_tokens d'))"
      "distinct (map or_id (oauth_requests d'))"
  shows "oauth_inv e d'"
proof -
  have ev: "access_evolves d d'" and ai: "access_inv d'"
    using good inv by (auto simp: access_good_def oauth_inv_def)
  have "code_ok d' k" if "k \<in> set (oauth_codes d')" for k
    using codes [OF that] inv grant_ok_mono [OF ev] client_used_mono [OF kept]
    unfolding oauth_inv_def code_ok_def by blast
  moreover have "refresh_ok d' t" if "t \<in> set (refresh_tokens d')" for t
    using refresh [OF that] inv grant_ok_mono [OF ev] client_used_mono [OF kept]
    unfolding oauth_inv_def refresh_ok_def same_refresh_def by metis
  moreover have "request_ok e d' q" if "q \<in> set (oauth_requests d')" for q
    using reqs [OF that] inv request_ok_mono [OF kept] unfolding oauth_inv_def by blast
  ultimately show ?thesis
    using ai acc inv dc dd unfolding oauth_inv_def by blast
qed

lemma same_refresh_refl [simp]: "same_refresh t t"
  by (simp add: same_refresh_def)

lemma oauth_invD:
  assumes "oauth_inv e d"
  shows "accounts_inv d" "access_inv d" "distinct (map oc_id (oauth_clients d))"
    "distinct (map or_id (oauth_requests d))" "distinct (map co_hash (oauth_codes d))"
    "distinct (map rt_hash (refresh_tokens d))"
    "k \<in> set (oauth_codes d) \<Longrightarrow> code_ok d k" "t \<in> set (refresh_tokens d) \<Longrightarrow> refresh_ok d t"
    "q \<in> set (oauth_requests d) \<Longrightarrow> request_ok e d q"
  using assms unfolding oauth_inv_def by blast+

lemma accounts_inv_cong:
  "accounts d' = accounts d \<Longrightarrow> users d' = users d \<Longrightarrow> identities d' = identities d \<Longrightarrow>
   accounts_inv d' = accounts_inv d"
  by (simp add: accounts_inv_def)

lemma accounts_inv_access [simp]:
  "accounts_inv (d\<lparr>clients := cs\<rparr>) = accounts_inv d" "accounts_inv (d\<lparr>tokens := ts\<rparr>) = accounts_inv d"
  by (rule accounts_inv_cong; simp)+

lemma access_good_cong:
  assumes "accounts d' = accounts d" "clients d' = clients d" "tokens d' = tokens d"
  shows "access_good d d'"
  by (rule access_good_same) (simp_all add: assms list_all2_same table_evolves_refl)

text \<open>Stages that touch only the tables of the authorization server.\<close>

lemma oauth_inv_tables:
  assumes inv: "oauth_inv e d"
    and same: "accounts d' = accounts d" "clients d' = clients d" "tokens d' = tokens d"
      "users d' = users d" "identities d' = identities d"
    and rest: "clients_kept d d'" "distinct (map oc_id (oauth_clients d'))"
      "\<And>k. k \<in> set (oauth_codes d') \<Longrightarrow> k \<in> set (oauth_codes d) \<or> code_ok d' k"
      "\<And>t. t \<in> set (refresh_tokens d') \<Longrightarrow> (\<exists>u \<in> set (refresh_tokens d). same_refresh u t) \<or> refresh_ok d' t"
      "\<And>q. q \<in> set (oauth_requests d') \<Longrightarrow> q \<in> set (oauth_requests d) \<or> request_ok e d' q"
      "distinct (map co_hash (oauth_codes d'))" "distinct (map rt_hash (refresh_tokens d'))"
      "distinct (map or_id (oauth_requests d'))"
  shows "oauth_inv e d'"
proof (rule oauth_inv_stage [OF inv access_good_cong [OF same(1-3)]])
  show "accounts_inv d \<Longrightarrow> accounts_inv d'" using accounts_inv_cong [OF same(1,4,5)] by simp
qed (use rest in auto)

section \<open>The stages\<close>

lemma stage_prune:
  assumes inv: "oauth_inv e d"
  shows "oauth_inv e (d\<lparr>oauth_clients := delete_where (\<lambda>c. oc_id c \<in> set (stale e2 n d)) (oauth_clients d)\<rparr>)"
    and "clients_kept d (d\<lparr>oauth_clients := delete_where (\<lambda>c. oc_id c \<in> set (stale e2 n d)) (oauth_clients d)\<rparr>)"
proof -
  let ?d = "d\<lparr>oauth_clients := delete_where (\<lambda>c. oc_id c \<in> set (stale e2 n d)) (oauth_clients d)\<rparr>"
  have un: "set (unused d) \<subseteq> set (oauth_clients d)" by (auto simp: unused_def)
  have st: "\<exists>x \<in> set (unused d). oc_id x = i" if "i \<in> set (stale e2 n d)" for i
    using that by (auto simp: stale_def newest_first_def dest!: in_set_dropD)
  have keep: "c \<in> set (oauth_clients ?d)"
    if c: "c \<in> set (oauth_clients d)" "oc_activated c \<noteq> None \<or> referenced d (oc_id c)" for c
  proof -
    have "oc_id c \<notin> set (stale e2 n d)"
    proof
      assume "oc_id c \<in> set (stale e2 n d)"
      then obtain x where x: "x \<in> set (unused d)" "oc_id x = oc_id c" using st by blast
      have "x = c"
        by (rule key_unique [OF oauth_invD(3) [OF inv]]) (use x c un in auto)
      then show False using x c(2) by (auto simp: unused_def)
    qed
    then show ?thesis using c(1) by (simp add: in_delete_where)
  qed
  show kept: "clients_kept d ?d"
    unfolding clients_kept_def using keep client_kept_refl by metis
  show "oauth_inv e ?d"
    by (rule oauth_inv_tables [OF inv _ _ _ _ _ kept])
      (use oauth_invD [OF inv] in \<open>auto intro: distinct_key_delete_where same_refresh_refl bexI\<close>)
qed

lemma stage_register:
  assumes inv: "oauth_inv e d" and new: "oc_id c \<notin> oc_id ` set (oauth_clients d)"
  shows "oauth_inv e (d\<lparr>oauth_clients := oauth_clients d @ [c]\<rparr>)"
    and "clients_kept d (d\<lparr>oauth_clients := oauth_clients d @ [c]\<rparr>)"
proof -
  show kept: "clients_kept d (d\<lparr>oauth_clients := oauth_clients d @ [c]\<rparr>)"
    unfolding clients_kept_def by (auto intro: client_kept_refl)
  show "oauth_inv e (d\<lparr>oauth_clients := oauth_clients d @ [c]\<rparr>)"
    by (rule oauth_inv_tables [OF inv _ _ _ _ _ kept])
      (use oauth_invD [OF inv] new in \<open>auto intro: same_refresh_refl bexI\<close>)
qed

lemma stage_request:
  assumes inv: "oauth_inv e d" and new: "or_id q \<notin> or_id ` set (oauth_requests d)" and ok: "request_ok e d q"
  shows "oauth_inv e (d\<lparr>oauth_requests := oauth_requests d @ [q]\<rparr>)"
proof -
  have "request_ok e (d\<lparr>oauth_requests := oauth_requests d @ [q]\<rparr>) q" using ok by (simp add: request_ok_def)
  then show ?thesis
    by (intro oauth_inv_tables [OF inv _ _ _ _ _ clients_kept_refl])
      (use oauth_invD [OF inv] new in \<open>auto intro: same_refresh_refl bexI\<close>)
qed

lemma stage_drop_requests:
  assumes inv: "oauth_inv e d"
  shows "oauth_inv e (d\<lparr>oauth_requests := delete_where p (oauth_requests d)\<rparr>)"
  by (intro oauth_inv_tables [OF inv _ _ _ _ _ clients_kept_refl])
    (use oauth_invD [OF inv] in \<open>auto simp: in_delete_where intro: same_refresh_refl bexI distinct_key_delete_where\<close>)

lemma stage_drop_codes:
  assumes inv: "oauth_inv e d"
  shows "oauth_inv e (d\<lparr>oauth_codes := delete_where p (oauth_codes d)\<rparr>)"
  by (intro oauth_inv_tables [OF inv _ _ _ _ _ clients_kept_refl])
    (use oauth_invD [OF inv] in \<open>auto simp: in_delete_where intro: same_refresh_refl bexI distinct_key_delete_where\<close>)

lemma stage_drop_refresh:
  assumes inv: "oauth_inv e d"
  shows "oauth_inv e (d\<lparr>refresh_tokens := delete_where p (refresh_tokens d)\<rparr>)"
  by (intro oauth_inv_tables [OF inv _ _ _ _ _ clients_kept_refl])
    (use oauth_invD [OF inv] in \<open>auto simp: in_delete_where intro: same_refresh_refl bexI distinct_key_delete_where\<close>)

lemma stage_activate:
  assumes inv: "oauth_inv e d"
  shows "oauth_inv e (d\<lparr>oauth_clients := update_where p (activate_client now) (oauth_clients d)\<rparr>)"
    and "clients_kept d (d\<lparr>oauth_clients := update_where p (activate_client now) (oauth_clients d)\<rparr>)"
proof -
  let ?d = "d\<lparr>oauth_clients := update_where p (activate_client now) (oauth_clients d)\<rparr>"
  have "\<exists>c' \<in> set (oauth_clients ?d). client_kept c c'" if "c \<in> set (oauth_clients d)" for c
    using that
    by (intro bexI [of _ "if p c then activate_client now c else c"])
      (auto simp: client_kept_def activate_client_def update_where_def)
  then show kept: "clients_kept d ?d" by (simp add: clients_kept_def)
  show "oauth_inv e ?d"
    by (rule oauth_inv_tables [OF inv _ _ _ _ _ kept])
      (use oauth_invD [OF inv] in \<open>auto simp: map_key_update_where activate_client_def intro: same_refresh_refl bexI\<close>)
qed

lemma stage_code:
  assumes inv: "oauth_inv e d" and new: "co_hash k \<notin> co_hash ` set (oauth_codes d)" and ok: "code_ok d k"
  shows "oauth_inv e (d\<lparr>oauth_codes := oauth_codes d @ [k]\<rparr>)"
proof -
  have "code_ok (d\<lparr>oauth_codes := oauth_codes d @ [k]\<rparr>) k"
    using ok by (simp add: code_ok_def grant_ok_def client_used_def)
  then show ?thesis
    by (intro oauth_inv_tables [OF inv _ _ _ _ _ clients_kept_refl])
      (use oauth_invD [OF inv] new in \<open>auto intro: same_refresh_refl bexI\<close>)
qed

lemma stage_refresh:
  assumes inv: "oauth_inv e d" and new: "rt_hash t \<notin> rt_hash ` set (refresh_tokens d)" and ok: "refresh_ok d t"
  shows "oauth_inv e (d\<lparr>refresh_tokens := refresh_tokens d @ [t]\<rparr>)"
proof -
  have "refresh_ok (d\<lparr>refresh_tokens := refresh_tokens d @ [t]\<rparr>) t"
    using ok by (simp add: refresh_ok_def grant_ok_def client_used_def)
  then show ?thesis
    by (intro oauth_inv_tables [OF inv _ _ _ _ _ clients_kept_refl])
      (use oauth_invD [OF inv] new in \<open>auto intro: same_refresh_refl bexI\<close>)
qed

lemma stage_refresh_update:
  assumes inv: "oauth_inv e d" and f: "\<And>t. same_refresh t (f t)"
  shows "oauth_inv e (d\<lparr>refresh_tokens := update_where p f (refresh_tokens d)\<rparr>)"
proof -
  have "rt_hash (f t) = rt_hash t" for t using f [of t] by (simp add: same_refresh_def)
  moreover have "\<exists>u \<in> set (refresh_tokens d). same_refresh u t"
    if "t \<in> set (update_where p f (refresh_tokens d))" for t
    using that f same_refresh_refl unfolding in_update_where by metis
  ultimately show ?thesis
    by (intro oauth_inv_tables [OF inv _ _ _ _ _ clients_kept_refl])
      (use oauth_invD [OF inv] in \<open>auto simp: map_key_update_where\<close>)
qed

text \<open>Stages that only touch the access tables.\<close>

lemma stage_access:
  assumes inv: "oauth_inv e d" and good: "access_good d d'" and acc: "accounts_inv d'"
    and same: "oauth_clients d' = oauth_clients d" "oauth_requests d' = oauth_requests d"
      "oauth_codes d' = oauth_codes d" "refresh_tokens d' = refresh_tokens d"
  shows "oauth_inv e d'"
  by (rule oauth_inv_stage [OF inv good acc clients_kept_refl])
    (use oauth_invD [OF inv] same in \<open>auto intro: same_refresh_refl bexI\<close>)

section \<open>Operations keep the invariant\<close>

lemma redirect_cong:
  "e_addr e = e_addr e0 \<Longrightarrow> redirectMatches e = redirectMatches e0"
  "e_addr e = e_addr e0 \<Longrightarrow> validRedirect e = validRedirect e0"
  "e_addr e = e_addr e0 \<Longrightarrow> redirect_ok e = redirect_ok e0"
  by (intro ext; simp only: redirectMatches_def validRedirect_def redirect_ok_def)+

lemma getClientD:
  "getClient e i d = Inr c \<Longrightarrow> c \<in> set (oauth_clients d) \<and> oc_id c = i \<and> client_alive e c"
  by (auto simp: getClient_def dest: find_in_set split: if_splits option.splits)

lemma parseScopes_ok: "parseScopes raw = Inr ss \<Longrightarrow> ss \<noteq> [] \<and> set ss \<subseteq> set allowed_scopes"
proof (cases "raw = []")
  case True
  have "set allScopes \<subseteq> set allowed_scopes" by code_simp
  then show "parseScopes raw = Inr ss \<Longrightarrow> ?thesis" using True by (auto simp: parseScopes_def allScopes_def)
next
  case False
  assume "parseScopes raw = Inr ss"
  then have "NormalizeScopes (Prelude.fields raw) = Inr ss" using False by (simp add: parseScopes_def)
  then show ?thesis using set_sort_remdups_nonempty by (auto simp: NormalizeScopes_ok)
qed

lemma stage_audit:
  assumes "oauth_inv e0 d" shows "oauth_inv e0 (snd (Write e ev d))"
proof (rule stage_access [OF assms access_good_cong])
  show "accounts_inv (snd (Write e ev d))"
    using oauth_invD(1) [OF assms] accounts_inv_cong [of "snd (Write e ev d)" d]
    by (simp add: Write_ident)
qed (simp_all add: audit_only)

lemma prune_inv:
  assumes "oauth_inv e0 d" shows "oauth_inv e0 (snd (pruneRegistrations e n d))"
  using assms stage_prune(1) by (simp add: pruneRegistrations_def)

lemma register_inv:
  assumes "oauth_inv e0 d" shows "oauth_inv e0 (snd (register e a b r d))"
proof -
  have "oauth_inv e0 (d1\<lparr>oauth_clients := oauth_clients d1 @ [c]\<rparr>)"
    if "pruneRegistrations e 999 d = (res, d1)" "oc_id c \<notin> oc_id ` set (oauth_clients d1)" for res d1 c
    using stage_register(1) [OF _ that(2)] prune_inv [OF assms, of e 999] that(1) by simp
  then show ?thesis
    using assms by (simp add: register_def Let_def split: option.split sum.split prod.split)
qed

lemma Authenticate_account:
  assumes "Authenticate e base r d = Inr p"
  shows "\<exists>s v. s \<in> set (sessions d) \<and> rq_cookie r (cookieName base ''session'') = Some v
    \<and> bs_hash s = go_hash e v \<and> e_now e < bs_expires s \<and> bs_user s = bp_user p \<and> bs_account s = bp_account p
    \<and> (\<exists>t \<in> set (accounts d). acc_id t = bp_account p \<and> acc_user t = bp_user p \<and> acc_status t = Active)"
  using assms
  by (auto simp: Authenticate_def live_session_def split: option.splits if_splits dest!: find_in_set) blast+

lemma authorize_inv:
  assumes inv: "oauth_inv e0 d" and ad: "e_addr e = e_addr e0"
  shows "oauth_inv e0 (snd (authorize e base a b r d))"
proof -
  have new: "oauth_inv e0 (d\<lparr>oauth_requests := oauth_requests d @ [q]\<rparr>)"
    if "getClient e i d = Inr c" "list_ex (\<lambda>v. redirectMatches e v (or_redirect q)) (oc_redirects c)"
      "validRedirect e (or_redirect q)" "parseScopes s = Inr (or_scopes q)" "or_client q = oc_id c"
      "or_id q \<notin> or_id ` set (oauth_requests d)" for q i c s
  proof (rule stage_request [OF inv that(6)])
    have "redirect_ok e0 c (or_redirect q)"
      using that(2,3) redirect_cong(3) [OF ad] by (metis redirect_ok_def)
    then show "request_ok e0 d q"
      using getClientD [OF that(1)] parseScopes_ok [OF that(4)] that(5) by (auto simp: request_ok_def)
  qed
  show ?thesis
    using inv by (auto simp: authorize_def Let_def intro!: new split: sum.split)
qed

definition granted_client :: "env \<Rightarrow> uuid \<Rightarrow> uuid \<Rightarrow> string \<Rightarrow> gw_client" where
  "granted_client e g user name =
     \<lparr>gc_id = g, gc_user = user, gc_name = name, gc_type = MCP, gc_status = ClientActive,
      gc_created = e_now e\<rparr>"

lemma granted_client_sel [simp]:
  "gc_id (granted_client e g user name) = g" "gc_user (granted_client e g user name) = user"
  "gc_name (granted_client e g user name) = name" "gc_status (granted_client e g user name) = ClientActive"
  by (simp_all add: granted_client_def)

lemma insert_grant_clientD:
  assumes "insert_grant_client e gid account user client d = (Inr g, d')"
  shows "\<exists>c. find (\<lambda>c. oc_id c = client) (oauth_clients d) = Some c \<and> client_name_ok (oc_name c)
    \<and> (\<exists>t \<in> set (accounts d). acc_id t = account \<and> acc_user t = user \<and> acc_status t = Active)
    \<and> g \<notin> gc_id ` set (clients d)
    \<and> d' = d\<lparr>clients := clients d @ [granted_client e g user (oc_name c)]\<rparr>"
  using assms
  by (auto simp: insert_grant_client_def insert_client_def exists_row_def granted_client_def split: option.splits if_splits)

definition activated :: "env \<Rightarrow> oauth_request \<Rightarrow> db \<Rightarrow> db" where
  "activated e q d = d\<lparr>oauth_clients :=
     update_where (\<lambda>c. oc_id c = or_client q) (activate_client (e_now e)) (oauth_clients d)\<rparr>"

definition answered :: "env \<Rightarrow> oauth_request \<Rightarrow> db \<Rightarrow> db" where
  "answered e q d = d\<lparr>oauth_requests :=
     delete_where (\<lambda>x. or_id x = or_id q \<and> e_now e < or_expires x) (oauth_requests d)\<rparr>"

definition consented_code :: "env \<Rightarrow> uuid \<Rightarrow> bytes \<Rightarrow> browser_principal \<Rightarrow> oauth_request \<Rightarrow> oauth_code" where
  "consented_code e g rcode p q =
     \<lparr>co_hash = go_hash e (randomToken rcode), co_client = or_client q, co_gateway = g,
      co_account = bp_account p, co_redirect = or_redirect q, co_challenge = or_challenge q,
      co_scopes = or_scopes q, co_expires = e_now e + five_min\<rparr>"

lemma consent_txD:
  assumes "consent_tx e gid rcode p q d = (Inr g, d')"
  shows "\<exists>d2. insert_grant_client e gid (bp_account p) (bp_user p) (or_client q) (answered e q (activated e q d))
        = (Inr g, d2)
    \<and> go_hash e (randomToken rcode) \<notin> co_hash ` set (oauth_codes d2)
    \<and> d' = d2\<lparr>oauth_codes := oauth_codes d2 @ [consented_code e g rcode p q]\<rparr>"
  using assms
  by (auto simp: consent_tx_def Let_def activated_def answered_def consented_code_def
      split: if_splits sum.splits prod.splits)

lemma consent_tx_error: "consent_tx e gid rcode p q d = (Inl resp, d') \<Longrightarrow> d' = d \<and> rs_status resp \<noteq> 303"
  by (auto simp: consent_tx_def Let_def fail_def split: if_splits sum.splits prod.splits)

lemma consent_tx_inv:
  assumes inv: "oauth_inv e0 d" and q: "q \<in> set (oauth_requests d)"
    and tx: "consent_tx e gid rcode p q d = (Inr g, d')"
  shows "oauth_inv e0 d'"
proof -
  obtain d2 where d2: "insert_grant_client e gid (bp_account p) (bp_user p) (or_client q)
        (answered e q (activated e q d)) = (Inr g, d2)"
    "go_hash e (randomToken rcode) \<notin> co_hash ` set (oauth_codes d2)"
    "d' = d2\<lparr>oauth_codes := oauth_codes d2 @ [consented_code e g rcode p q]\<rparr>"
    using consent_txD [OF tx] by blast
  let ?d1 = "answered e q (activated e q d)"
  have i1: "oauth_inv e0 (activated e q d)" unfolding activated_def by (rule stage_activate(1) [OF inv])
  have i2: "oauth_inv e0 ?d1" unfolding answered_def by (rule stage_drop_requests [OF i1])
  obtain nm t where n: "g \<notin> gc_id ` set (clients ?d1)"
    "d2 = ?d1\<lparr>clients := clients ?d1 @ [granted_client e g (bp_user p) nm]\<rparr>"
    "t \<in> set (accounts ?d1)" "acc_id t = bp_account p" "acc_user t = bp_user p"
    using insert_grant_clientD [OF d2(1)] by blast
  let ?n = "granted_client e g (bp_user p) nm"
  have i3: "oauth_inv e0 d2"
    unfolding n(2)
    by (rule stage_access [OF i2 access_good_client])
      (use n oauth_invD(1) [OF i2] in \<open>auto simp: accounts_inv_def\<close>)
  obtain c where c: "c \<in> set (oauth_clients d)" "oc_id c = or_client q"
    and sc: "or_scopes q \<noteq> []" "set (or_scopes q) \<subseteq> set allowed_scopes"
    using oauth_invD(9) [OF inv q] by (auto simp: request_ok_def)
  have "activate_client (e_now e) c \<in> set (oauth_clients d2)"
    using c n(2) by (auto simp: activated_def answered_def in_update_where)
  then have used: "client_used d2 (or_client q)"
    unfolding client_used_def using c(2)
    by (intro bexI [of _ "activate_client (e_now e) c"]) (simp_all add: activate_client_def)
  have "grant_ok d2 g (bp_account p) (or_scopes q)"
    unfolding grant_ok_def using sc n
    by (intro conjI bexI [of _ ?n] bexI [of _ t]) simp_all
  then have "code_ok d2 (consented_code e g rcode p q)"
    using used by (simp add: code_ok_def consented_code_def)
  then show ?thesis
    unfolding d2(3) by (rule stage_code [OF i3, rotated]) (use d2(2) in \<open>simp add: consented_code_def\<close>)
qed

lemma pending_requestD:
  assumes "pending_request e p r d = Some q"
  shows "q \<in> set (oauth_requests d)" "or_id q = form_get r ''request_id''" "e_now e < or_expires q"
    "or_user q = Some (bp_user p)" "or_account q = Some (bp_account p)"
    "\<exists>ck. rq_cookie r (''tgw_oauth_'' @ take 12 (or_id q)) = Some ck \<and> go_hash e ck = or_csrf q"
    "go_hash e (form_get r ''csrf'') = or_csrf q"
  using assms
  by (auto simp: pending_request_def Let_def equalHash_def split: option.splits if_splits dest!: find_in_set)

lemma consent_inv:
  assumes inv: "oauth_inv e0 d"
  shows "oauth_inv e0 (snd (consent e base gid rcode r d))"
proof -
  have tx: "oauth_inv e0 d'" if "pending_request e p r d = Some q" "consent_tx e gid rcode p q d = (res, d')" for p q res d'
  proof (cases res)
    case (Inl resp)
    then show ?thesis using consent_tx_error that(2) inv by metis
  next
    case (Inr g)
    then show ?thesis using consent_tx_inv [OF inv pending_requestD(1) [OF that(1)]] that(2) by simp
  qed
  have wr: "oauth_inv e0 d2" if "Write e ev d1 = (res, d2)" "oauth_inv e0 d1" for ev d1 res d2
    using stage_audit [OF that(2), of e ev] that(1) by simp
  show ?thesis
    using inv stage_drop_requests [OF inv]
    by (auto simp: consent_def Let_def dest: tx wr split: sum.split option.split prod.split)
qed

text \<open>Revoking a grant, whole or statement by statement.\<close>

lemma RevokeGrant_inv:
  assumes "oauth_inv e0 d" shows "oauth_inv e0 (snd (RevokeGrant e a c d))"
proof -
  have "oauth_inv e0 (snd (run_stmts e (revoke_grant_stmts e x y) d))" for x y
  proof (rule run_stmts_effect)
    fix l f d1
    assume lf: "(l, f) \<in> set (revoke_grant_stmts e x y)" and i: "oauth_inv e0 d1"
    have acc: "accounts_inv (d1\<lparr>clients := cs\<rparr>)" "accounts_inv (d1\<lparr>tokens := ts\<rparr>)" for cs ts
      using oauth_invD(1) [OF i] by simp_all
    have c: "oauth_inv e0 (d1\<lparr>clients := update_where p (gc_status_update (\<lambda>_. ClientDisabled)) (clients d1)\<rparr>)" for p
      by (rule stage_access [OF i access_good_disable acc(1)]) simp_all
    have t: "oauth_inv e0 (d1\<lparr>tokens := update_where p (revoke_row now) (tokens d1)\<rparr>)" for p now
      by (rule stage_access [OF i access_good_revoke acc(2)]) simp_all
    have r: "oauth_inv e0 (d1\<lparr>refresh_tokens := update_where p (revoke_refresh_row now) (refresh_tokens d1)\<rparr>)" for p now
      by (rule stage_refresh_update [OF i]) (simp add: same_refresh_def revoke_refresh_row_def)
    show "oauth_inv e0 (f d1)"
      using lf c t r stage_drop_codes [OF i] by (auto simp: revoke_grant_stmts_def)
  qed (rule assms)
  then show ?thesis using assms by (simp add: RevokeGrant_def split: option.split)
qed

lemma replay_inv:
  assumes "oauth_inv e0 d" shows "oauth_inv e0 (snd (replay_revoke e t d))"
proof -
  obtain res d1 where r: "RevokeGrant e (rt_account t) (rt_gateway t) d = (res, d1)"
    by (cases "RevokeGrant e (rt_account t) (rt_gateway t) d")
  have "oauth_inv e0 d1" using RevokeGrant_inv [OF assms, of e "rt_account t" "rt_gateway t"] r by simp
  then show ?thesis
    using assms stage_audit [of e0 d1 e]
    by (simp add: replay_revoke_def r split: sum.split prod.split) (metis snd_conv)
qed

text \<open>Redeeming a code or a refresh token yields a good grant of the client.\<close>

lemma redeem_codeD:
  assumes "redeem_code e r c d = (Inr (a, g, ss), d1)"
  shows "\<exists>k. k \<in> set (oauth_codes d) \<and> co_hash k = go_hash e (form_get r ''code'') \<and> co_client k = oc_id c
    \<and> e_now e < co_expires k \<and> co_redirect k = form_get r ''redirect_uri''
    \<and> pkce_ok e (co_challenge k) (form_get r ''code_verifier'')
    \<and> a = co_account k \<and> g = co_gateway k \<and> ss = co_scopes k
    \<and> d1 = d\<lparr>oauth_codes := delete_where (\<lambda>k. co_hash k = go_hash e (form_get r ''code'')) (oauth_codes d)\<rparr>"
  using assms
  by (auto simp: redeem_code_def Let_def split: if_splits option.splits dest!: find_in_set)

lemma redeem_code_error: "redeem_code e r c d = (Inl resp, d1) \<Longrightarrow> d1 = d \<and> rs_status resp \<noteq> 200"
  by (auto simp: redeem_code_def Let_def fail_def split: if_splits option.splits)

lemma narrowed_ok:
  assumes "narrowed s scopes = Some ss" "scopes \<noteq> []" "set scopes \<subseteq> set allowed_scopes"
  shows "ss \<noteq> [] \<and> set ss \<subseteq> set scopes"
  using assms parseScopes_ok by (fastforce simp: narrowed_def split: if_splits sum.splits)

definition rotated :: "env \<Rightarrow> bytes \<Rightarrow> db \<Rightarrow> db" where
  "rotated e h d = d\<lparr>refresh_tokens := update_where (\<lambda>t. rt_hash t = h)
     (\<lambda>t. t\<lparr>rt_revoked := Some (e_now e)\<rparr>) (refresh_tokens d)\<rparr>"

lemma redeem_refreshD:
  assumes "redeem_refresh e r c d = (Inr (a, g, ss), d1)"
  shows "\<exists>t. t \<in> set (refresh_tokens d) \<and> rt_hash t = go_hash e (form_get r ''refresh_token'')
    \<and> rt_client t = oc_id c \<and> rt_revoked t = None \<and> e_now e < rt_expires t
    \<and> narrowed (form_get r ''scope'') (rt_scopes t) = Some ss \<and> a = rt_account t \<and> g = rt_gateway t
    \<and> d1 = rotated e (go_hash e (form_get r ''refresh_token'')) d"
  using assms
  by (auto simp: redeem_refresh_def rotated_def Let_def split: if_splits option.splits prod.splits
      dest!: find_in_set)

lemma replay_status: "rs_status (fst (replay_revoke e t d)) \<noteq> 200"
  by (simp add: replay_revoke_def fail_def split: sum.split prod.split)

lemma redeem_refresh_error:
  assumes "redeem_refresh e r c d = (Inl resp, d1)"
  shows "rs_status resp \<noteq> 200 \<and> (d1 = d \<or> (\<exists>t. d1 = snd (replay_revoke e t d)))"
  using assms replay_status [of e _ d]
  by (auto simp: redeem_refresh_def fail_def Let_def split: if_splits option.splits prod.splits)
    (metis fst_conv, metis snd_conv)+

lemma redeem_inv:
  assumes inv: "oauth_inv e0 d"
    and r: "(if b then redeem_code e r c d else redeem_refresh e r c d) = (Inr (a, g, ss), d1)"
  shows "oauth_inv e0 d1 \<and> grant_ok d1 g a ss \<and> client_used d1 (oc_id c)
    \<and> accounts d1 = accounts d \<and> clients d1 = clients d \<and> tokens d1 = tokens d"
proof (cases b)
  case True
  then obtain k where k: "k \<in> set (oauth_codes d)" "co_client k = oc_id c" "a = co_account k" "g = co_gateway k"
    "ss = co_scopes k"
    "d1 = d\<lparr>oauth_codes := delete_where (\<lambda>k. co_hash k = go_hash e (form_get r ''code'')) (oauth_codes d)\<rparr>"
    using redeem_codeD r by fastforce
  then show ?thesis
    using oauth_invD(7) [OF inv k(1)] stage_drop_codes [OF inv]
    by (simp add: code_ok_def grant_ok_def client_used_def)
next
  case False
  then obtain t where t: "t \<in> set (refresh_tokens d)" "rt_client t = oc_id c" "a = rt_account t" "g = rt_gateway t"
    "narrowed (form_get r ''scope'') (rt_scopes t) = Some ss"
    "d1 = rotated e (go_hash e (form_get r ''refresh_token'')) d"
    using redeem_refreshD r by fastforce
  have "oauth_inv e0 d1"
    unfolding t(6) rotated_def by (rule stage_refresh_update [OF inv]) (simp add: same_refresh_def)
  then show ?thesis
    using oauth_invD(8) [OF inv t(1)] narrowed_ok [OF t(5)] t
    by (auto simp: refresh_ok_def grant_ok_def client_used_def rotated_def)
qed

lemma redeem_error_inv:
  assumes inv: "oauth_inv e0 d"
    and r: "(if b then redeem_code e r c d else redeem_refresh e r c d) = (Inl resp, d1)"
  shows "oauth_inv e0 d1 \<and> rs_status resp \<noteq> 200"
  using r redeem_code_error redeem_refresh_error inv replay_inv [OF inv] by (metis (full_types))

definition token_row_for ::
    "env \<Rightarrow> uuid \<Rightarrow> uuid \<Rightarrow> uuid \<Rightarrow> uuid \<Rightarrow> generated \<Rightarrow> string list \<Rightarrow> time option \<Rightarrow> token_row" where
  "token_row_for e i c a u tok ss x =
     \<lparr>at_id = i, at_client = c, at_account = a, at_user = u, at_prefix = g_prefix tok,
      at_hash = g_hash tok, at_scopes = ss, at_expires = x, at_revoked = None, at_created = e_now e\<rparr>"

definition refresh_row_for :: "env \<Rightarrow> bytes \<Rightarrow> string \<Rightarrow> uuid \<Rightarrow> uuid \<Rightarrow> string list \<Rightarrow> refresh_row" where
  "refresh_row_for e rref client gw account scopes =
     \<lparr>rt_hash = go_hash e (randomToken rref), rt_client = client, rt_gateway = gw, rt_account = account,
      rt_scopes = scopes, rt_expires = e_now e + thirty_days, rt_revoked = None\<rparr>"

lemma insert_tokenD:
  assumes "insert_token e i c a tok ss x d = (Inr n, d1)" "n = 1"
  shows "\<exists>u. grant_user c a d = Some u \<and> ss \<noteq> [] \<and> set ss \<subseteq> set allowed_scopes
    \<and> g_hash tok \<notin> at_hash ` set (tokens d) \<and> i \<notin> at_id ` set (tokens d)
    \<and> d1 = d\<lparr>tokens := tokens d @ [token_row_for e i c a u tok ss x]\<rparr>"
  using assms by (auto simp: insert_token_def token_row_for_def split: if_splits option.splits)

lemma issueD:
  assumes "issue e i rtok rref client gw account scopes d = (Inr tr, d')"
  shows "\<exists>tok u. GenerateToken e rtok = Inr tok \<and> grant_user gw account d = Some u \<and> scopes \<noteq> []
    \<and> set scopes \<subseteq> set allowed_scopes \<and> tr = (g_plain tok, randomToken rref)
    \<and> g_hash tok \<notin> at_hash ` set (tokens d) \<and> i \<notin> at_id ` set (tokens d)
    \<and> go_hash e (randomToken rref) \<notin> rt_hash ` set (refresh_tokens d)
    \<and> d' = d\<lparr>tokens := tokens d @ [token_row_for e i gw account u tok scopes (Some (e_now e + one_hour))],
             refresh_tokens := refresh_tokens d @ [refresh_row_for e rref client gw account scopes]\<rparr>"
proof -
  obtain tok where tok: "GenerateToken e rtok = Inr tok"
    using assms by (cases "GenerateToken e rtok") (auto simp: issue_def)
  obtain d1 where ins: "insert_token e i gw account tok scopes (Some (e_now e + one_hour)) d = (Inr 1, d1)"
    using assms tok by (auto simp: issue_def split: if_splits sum.splits prod.splits)
  obtain u where u: "grant_user gw account d = Some u" "scopes \<noteq> []" "set scopes \<subseteq> set allowed_scopes"
    "g_hash tok \<notin> at_hash ` set (tokens d)" "i \<notin> at_id ` set (tokens d)"
    "d1 = d\<lparr>tokens := tokens d @ [token_row_for e i gw account u tok scopes (Some (e_now e + one_hour))]\<rparr>"
    using insert_tokenD [OF ins] by blast
  show ?thesis
    using assms tok ins u
    by (auto simp: issue_def Let_def refresh_row_for_def split: if_splits)
qed

lemma issue_inv:
  assumes inv: "oauth_inv e0 d" and ok: "grant_ok d gw account scopes" "client_used d client"
    and iss: "issue e i rtok rref client gw account scopes d = (Inr tr, d')"
  shows "oauth_inv e0 d'"
proof -
  obtain tok u where u: "grant_user gw account d = Some u" "scopes \<noteq> []" "set scopes \<subseteq> set allowed_scopes"
    "g_hash tok \<notin> at_hash ` set (tokens d)" "i \<notin> at_id ` set (tokens d)"
    "go_hash e (randomToken rref) \<notin> rt_hash ` set (refresh_tokens d)"
    "d' = d\<lparr>tokens := tokens d @ [token_row_for e i gw account u tok scopes (Some (e_now e + one_hour))],
             refresh_tokens := refresh_tokens d @ [refresh_row_for e rref client gw account scopes]\<rparr>"
    using issueD [OF iss] by blast
  let ?t = "token_row_for e i gw account u tok scopes (Some (e_now e + one_hour))"
  let ?d1 = "d\<lparr>tokens := tokens d @ [?t]\<rparr>"
  have "token_row_ok d ?t"
    using grant_userD [OF u(1)] u(2,3) by (auto simp: token_row_ok_def token_row_for_def)
  then have "access_good d ?d1"
    by (rule access_good_token [rotated 2]) (use u(4,5) in \<open>simp_all add: token_row_for_def\<close>)
  then have "oauth_inv e0 ?d1"
    by (rule stage_access [OF inv]) (use oauth_invD(1) [OF inv] in simp_all)
  moreover have "refresh_ok ?d1 (refresh_row_for e rref client gw account scopes)"
    using ok by (simp add: refresh_ok_def refresh_row_for_def grant_ok_def client_used_def)
  ultimately have "oauth_inv e0 (?d1\<lparr>refresh_tokens := refresh_tokens ?d1 @ [refresh_row_for e rref client gw account scopes]\<rparr>)"
    by (intro stage_refresh) (use u(6) in \<open>simp_all add: refresh_row_for_def\<close>)
  then show ?thesis by (simp add: u(7))
qed

text \<open>
  The token endpoint: a failing request changes nothing, or ends a replayed grant; a request
  that gets tokens redeemed a code or a refresh token of its client.
\<close>

lemma find_grant_status: "find_grant e r c d = Inl resp \<Longrightarrow> rs_status resp \<noteq> 200"
  by (auto simp: find_grant_def fail_def split: if_splits option.splits)

text \<open>Past the checks, the handler redeems and issues.\<close>

definition redeem :: "env \<Rightarrow> request \<Rightarrow> oauth_client \<Rightarrow> db \<Rightarrow> (response + (uuid \<times> uuid \<times> string list)) \<times> db" where
  "redeem e r c d =
     (if form_get r ''grant_type'' = ''authorization_code'' then redeem_code e r c d else redeem_refresh e r c d)"

definition answer ::
    "env \<Rightarrow> string \<Rightarrow> uuid \<Rightarrow> bytes \<Rightarrow> bytes \<Rightarrow> request \<Rightarrow> oauth_client \<Rightarrow> db \<Rightarrow> response \<times> db" where
  "answer e base i rtok rref r c d =
     (case redeem e r c d of
        (Inl resp, d') \<Rightarrow> (resp, d')
      | (Inr (account, gw, scopes), d1) \<Rightarrow>
          (case issue e i rtok rref (oc_id c) gw account scopes d1 of
             (Inl err, _) \<Rightarrow> (fail 400 ''invalid_grant'', d)
           | (Inr tr, d2) \<Rightarrow>
               if e_fail e ''token.commit'' then (fail 500 ''server_error'', d)
               else (case Write e (oauth_event account ''oauth'' ''OAUTH_TOKEN_ISSUED'' gw
                         (JObj [(''oauth_client_id'', JStr (oc_id c)),
                                (''grant_type'', JStr (form_get r ''grant_type'')),
                                (''scopes'', jstrs scopes)])) d2 of
                       (Inl err, d3) \<Rightarrow> (fail 503 ''temporarily_unavailable'', d3)
                     | (Inr _, d3) \<Rightarrow> (token_reply base tr scopes, d3))))"

lemma token_answer:
  "token e base i rtok rref r d0 d = answer e base i rtok rref r c d
     \<and> authenticateClient e r d0 = Inr c \<and> (\<exists>ag. find_grant e r c d0 = Inr ag)
   \<or> snd (token e base i rtok rref r d0 d) = d \<and> rs_status (fst (token e base i rtok rref r d0 d)) \<noteq> 200"
  if "authenticateClient e r d0 = Inr c"
proof (cases "rq_form r = None \<or> \<not> validResource base (form_get r ''resource'') \<or> e_fail e ''token.begin''")
  case True
  then show ?thesis using that by (auto simp: token_def fail_def)
next
  case run: False
  show ?thesis
  proof (cases "find_grant e r c d0")
    case (Inl resp)
    then show ?thesis using run that find_grant_status by (auto simp: token_def)
  next
    case (Inr ag)
    obtain a0 g0 where ag: "ag = (a0, g0)" by (cases ag)
    show ?thesis
    proof (cases "LockGrant e a0 g0")
      case (Inl err)
      then show ?thesis using run that Inr ag by (simp add: token_def fail_def)
    next
      case lk: (Inr u)
      then show ?thesis using run that Inr ag by (cases "rq_form r") (simp_all add: token_def answer_def redeem_def)
    qed
  qed
qed

lemma token_refused:
  "authenticateClient e r d0 = Inl err \<Longrightarrow>
   snd (token e base i rtok rref r d0 d) = d \<and> rs_status (fst (token e base i rtok rref r d0 d)) \<noteq> 200"
  by (simp add: token_def fail_def)

lemma answer_cases:
  obtains (same) "snd (answer e base i rtok rref r c d) = d" "rs_status (fst (answer e base i rtok rref r c d)) \<noteq> 200"
  | (refused) resp where "redeem e r c d = (Inl resp, snd (answer e base i rtok rref r c d))"
      "fst (answer e base i rtok rref r c d) = resp"
  | (issued) a g ss d1 tr d2 ev where "redeem e r c d = (Inr (a, g, ss), d1)"
      "issue e i rtok rref (oc_id c) g a ss d1 = (Inr tr, d2)"
      "snd (answer e base i rtok rref r c d) = snd (Write e ev d2)"
      "rs_status (fst (answer e base i rtok rref r c d)) = 200 \<longrightarrow>
         fst (answer e base i rtok rref r c d) = token_reply base tr ss"
proof -
  let ?T = "answer e base i rtok rref r c d"
  obtain res d1 where rd: "redeem e r c d = (res, d1)" by (cases "redeem e r c d")
  show thesis
  proof (cases res)
    case (Inl resp)
    then have "?T = (resp, d1)" using rd by (simp add: answer_def)
    then show thesis using refused [of resp] rd Inl by simp
  next
    case (Inr ags)
    obtain a g ss where ags: "ags = (a, g, ss)" by (cases ags) auto
    obtain iss d2 where iss: "issue e i rtok rref (oc_id c) g a ss d1 = (iss, d2)"
      by (cases "issue e i rtok rref (oc_id c) g a ss d1")
    show thesis
    proof (cases iss)
      case (Inl err)
      then have "?T = (fail 400 ''invalid_grant'', d)" using rd Inr ags iss by (simp add: answer_def)
      then show thesis using same by (simp add: fail_def)
    next
      case tr: (Inr tr)
      define ev where "ev = oauth_event a ''oauth'' ''OAUTH_TOKEN_ISSUED'' g
            (JObj [(''oauth_client_id'', JStr (oc_id c)), (''grant_type'', JStr (form_get r ''grant_type'')),
                   (''scopes'', jstrs ss)])"
      obtain wr d3 where wr: "Write e ev d2 = (wr, d3)" by (cases "Write e ev d2")
      show thesis
      proof (cases "e_fail e ''token.commit''")
        case True
        then have "?T = (fail 500 ''server_error'', d)" using rd Inr ags iss tr by (simp add: answer_def)
        then show thesis using same by (simp add: fail_def)
      next
        case False
        then have T: "?T = (case wr of Inl err \<Rightarrow> (fail 503 ''temporarily_unavailable'', d3)
                            | Inr _ \<Rightarrow> (token_reply base tr ss, d3))"
          using rd Inr ags iss tr wr by (simp add: answer_def flip: ev_def)
        have "snd ?T = snd (Write e ev d2)" using T wr by (simp split: sum.split)
        moreover have "rs_status (fst ?T) = 200 \<longrightarrow> fst ?T = token_reply base tr ss"
          unfolding T by (simp add: fail_def split: sum.split)
        ultimately show thesis using issued rd Inr ags iss tr by blast
      qed
    qed
  qed
qed

lemma redeem_inv':
  assumes "oauth_inv e0 d" "redeem e r c d = (Inr (a, g, ss), d1)"
  shows "oauth_inv e0 d1" "grant_ok d1 g a ss" "client_used d1 (oc_id c)"
    "accounts d1 = accounts d" "clients d1 = clients d" "tokens d1 = tokens d"
  using redeem_inv [OF assms(1) assms(2) [unfolded redeem_def]] by auto

lemma redeem_error_inv':
  assumes "oauth_inv e0 d" "redeem e r c d = (Inl resp, d1)"
  shows "oauth_inv e0 d1" "rs_status resp \<noteq> 200"
  using redeem_error_inv [OF assms(1) assms(2) [unfolded redeem_def]] by auto

lemma answer_inv:
  assumes inv: "oauth_inv e0 d" shows "oauth_inv e0 (snd (answer e base i rtok rref r c d))"
proof (cases rule: answer_cases [of e base i rtok rref r c d])
  case same
  then show ?thesis using inv by simp
next
  case (refused resp)
  then show ?thesis using redeem_error_inv'(1) [OF inv] by blast
next
  case (issued a g ss d1 tr d2 ev)
  have "oauth_inv e0 d2"
    by (rule issue_inv [OF redeem_inv'(1-3) [OF inv issued(1)] issued(2)])
  then show ?thesis using stage_audit issued(3) by simp
qed

lemma token_inv:
  assumes inv: "oauth_inv e0 d" shows "oauth_inv e0 (snd (token e base i rtok rref r d0 d))"
proof (cases "authenticateClient e r d0")
  case (Inl err)
  then show ?thesis using token_refused inv by simp
next
  case (Inr c)
  then show ?thesis using token_answer [OF Inr, of base i rtok rref d] answer_inv [OF inv] inv by auto
qed

lemma revoke_inv:
  assumes inv: "oauth_inv e0 d" shows "oauth_inv e0 (snd (revoke e r d0 d))"
proof -
  have "oauth_inv e0 d2" if "RevokeGrant e a g d = (x, d1)" "Write e ev d1 = (y, d2)" for a g x d1 ev y d2
    using stage_audit [of e0 d1 e ev] RevokeGrant_inv [OF inv, of e a g] that by simp
  then show ?thesis
    using inv by (auto simp: revoke_def Let_def split: sum.split option.split prod.split)
qed

lemma Maintain_inv:
  assumes inv: "oauth_inv e0 d" shows "oauth_inv e0 (Maintain e d)"
proof -
  have c: "oauth_inv e0 (if b then d1 else d1\<lparr>oauth_codes := delete_where p (oauth_codes d1)\<rparr>)"
    "oauth_inv e0 (if b then d1 else d1\<lparr>oauth_requests := delete_where q (oauth_requests d1)\<rparr>)"
    "oauth_inv e0 (if b then d1 else d1\<lparr>refresh_tokens := delete_where s (refresh_tokens d1)\<rparr>)"
    if "oauth_inv e0 d1" for b d1 p q s
    using that stage_drop_codes stage_drop_requests stage_drop_refresh by simp_all
  let ?g = "\<lambda>t. t < e_now e"
  define d1 where "d1 = (if e_fail e ''sweep.codes'' then d else d\<lparr>oauth_codes := delete_where (\<lambda>x. ?g (co_expires x)) (oauth_codes d)\<rparr>)"
  define d2 where "d2 = (if e_fail e ''sweep.requests'' then d1 else d1\<lparr>oauth_requests := delete_where (\<lambda>x. ?g (or_expires x)) (oauth_requests d1)\<rparr>)"
  define d3 where "d3 = (if e_fail e ''sweep.refresh'' then d2 else d2\<lparr>refresh_tokens := delete_where (\<lambda>x. ?g (rt_expires x)) (refresh_tokens d2)\<rparr>)"
  have i3: "oauth_inv e0 d3" unfolding d3_def d2_def d1_def by (intro c inv)
  obtain tk ss where sw: "sweep_tables e d = d3\<lparr>tickets := tk, sessions := ss\<rparr>"
  proof
    show "sweep_tables e d = d3\<lparr>tickets := tickets (sweep_tables e d), sessions := sessions (sweep_tables e d)\<rparr>"
      by (simp add: sweep_tables_def d3_def d2_def d1_def)
  qed
  have "oauth_inv e0 (d3\<lparr>tickets := tk, sessions := ss\<rparr>)"
    by (rule oauth_inv_tables [OF i3 _ _ _ _ _ clients_kept_refl])
      (use oauth_invD [OF i3] in \<open>auto intro: same_refresh_refl bexI\<close>)
  then have i: "oauth_inv e0 (sweep_tables e d)" by (simp add: sw)
  obtain res d4 where p: "pruneRegistrations e 1000 (sweep_tables e d) = (res, d4)"
    by (cases "pruneRegistrations e 1000 (sweep_tables e d)")
  have "oauth_inv e0 d4" using prune_inv [OF i, of e 1000] p by simp
  then show ?thesis using i by (simp add: Maintain_def CleanupRegistrations_def p split: sum.split)
qed

end
