(* ===== verification/GrantSteps.thy ===== *)
theory GrantSteps
  imports Grants
begin

text \<open>
  The authorization server over time: every committed change of its tables by a request of
  \<open>route\<close>, by the access repository or by the hourly cleanup is a step.  The invariant holds
  in every reachable state; codes are used once, a replayed refresh token or a call of the
  revocation endpoint ends a grant for good, registrations stay bounded.
\<close>

section \<open>The access tables under the handlers\<close>

lemma access_good_tables:
  assumes "accounts d' = accounts d1" "clients d' = clients d1" "tokens d' = tokens d1" "access_good d d1"
  shows "access_good d d'"
  using access_good_cong [OF assms(1-3)] assms(4) access_good_trans by blast

lemma register_access:
  "accounts (snd (register e a b r d)) = accounts d" "clients (snd (register e a b r d)) = clients d"
  "tokens (snd (register e a b r d)) = tokens d"
  by (simp_all add: register_def pruneRegistrations_def Let_def split: option.split sum.split)

lemma authorize_access:
  "accounts (snd (authorize e base a b r d)) = accounts d" "clients (snd (authorize e base a b r d)) = clients d"
  "tokens (snd (authorize e base a b r d)) = tokens d"
  by (simp_all add: authorize_def Let_def split: sum.split)

lemma Maintain_access:
  "accounts (Maintain e d) = accounts d" "clients (Maintain e d) = clients d" "tokens (Maintain e d) = tokens d"
  by (simp_all add: Maintain_def CleanupRegistrations_def pruneRegistrations_def sweep_tables_def Let_def)

lemma consent_tx_access:
  assumes "consent_tx e gid rcode p q d = (res, d')"
  shows "access_good d d'"
proof (cases res)
  case (Inl resp)
  then have "d' = d" using consent_tx_error assms by blast
  then show ?thesis by simp
next
  case (Inr g)
  obtain d2 where d2: "insert_grant_client e gid (bp_account p) (bp_user p) (or_client q)
        (answered e q (activated e q d)) = (Inr g, d2)"
    "d' = d2\<lparr>oauth_codes := oauth_codes d2 @ [consented_code e g rcode p q]\<rparr>"
    using consent_txD assms Inr by blast
  let ?d1 = "answered e q (activated e q d)"
  obtain nm where n: "g \<notin> gc_id ` set (clients ?d1)"
    "d2 = ?d1\<lparr>clients := clients ?d1 @ [granted_client e g (bp_user p) nm]\<rparr>"
    using insert_grant_clientD [OF d2(1)] by blast
  have "access_good d ?d1"
    by (rule access_good_cong) (simp_all add: answered_def activated_def)
  moreover have "access_good ?d1 d2" unfolding n(2) by (rule access_good_client) (use n in simp)
  ultimately have "access_good d d2" by (rule access_good_trans)
  then show ?thesis by (rule access_good_tables [rotated 3]) (simp_all add: d2(2))
qed

lemma Write_access: "Write e ev d = (x, d') \<Longrightarrow> access_good d0 d \<Longrightarrow> access_good d0 d'"
  using access_good_tables [of d' d d0] audit_only [of e ev d] by simp

lemma consent_access: "access_good d (snd (consent e base gid rcode r d))"
  by (auto simp: consent_def Let_def access_good_cong dest: consent_tx_access
      intro: Write_access split: sum.split option.split prod.split)

lemma replay_access: "access_good d (snd (replay_revoke e t d))"
proof -
  obtain res d1 where r: "RevokeGrant e (rt_account t) (rt_gateway t) d = (res, d1)"
    by (cases "RevokeGrant e (rt_account t) (rt_gateway t) d")
  have "access_good d d1" using RevokeGrant_good [of d e "rt_account t" "rt_gateway t"] r by simp
  then show ?thesis
    by (auto simp: replay_revoke_def r intro: Write_access split: sum.split prod.split)
qed

lemma redeem_error_access:
  assumes "redeem e r c d = (Inl resp, d1)" shows "access_good d d1"
  using assms redeem_code_error redeem_refresh_error replay_access
  unfolding redeem_def by (metis access_good_refl)

lemma issue_access:
  assumes "issue e i rtok rref client gw account scopes d = (Inr tr, d')"
  shows "access_good d d'"
proof -
  obtain tok u where u: "grant_user gw account d = Some u" "scopes \<noteq> []" "set scopes \<subseteq> set allowed_scopes"
    "g_hash tok \<notin> at_hash ` set (tokens d)" "i \<notin> at_id ` set (tokens d)"
    "d' = d\<lparr>tokens := tokens d @ [token_row_for e i gw account u tok scopes (Some (e_now e + one_hour))],
             refresh_tokens := refresh_tokens d @ [refresh_row_for e rref client gw account scopes]\<rparr>"
    using issueD [OF assms] by blast
  let ?t = "token_row_for e i gw account u tok scopes (Some (e_now e + one_hour))"
  have "token_row_ok d ?t"
    using grant_userD [OF u(1)] u(2,3) by (auto simp: token_row_ok_def token_row_for_def)
  then have "access_good d (d\<lparr>tokens := tokens d @ [?t]\<rparr>)"
    by (rule access_good_token [rotated 2]) (use u(4,5) in \<open>simp_all add: token_row_for_def\<close>)
  then show ?thesis by (rule access_good_tables [rotated 3]) (simp_all add: u(6))
qed

lemma answer_access:
  assumes inv: "oauth_inv e0 d" shows "access_good d (snd (answer e base i rtok rref r c d))"
proof (cases rule: answer_cases [of e base i rtok rref r c d])
  case same
  then show ?thesis by simp
next
  case (refused resp)
  then show ?thesis using redeem_error_access by blast
next
  case (issued a g ss d1 tr d2 ev)
  have "access_good d d1" by (rule access_good_cong [OF redeem_inv'(4-6) [OF inv issued(1)]])
  then have "access_good d d2" using issue_access [OF issued(2)] access_good_trans by blast
  then show ?thesis using Write_access [of e ev d2] issued(3) by (metis prod.collapse)
qed

lemma token_access:
  assumes inv: "oauth_inv e0 d" shows "access_good d (snd (token e base i rtok rref r d0 d))"
proof (cases "authenticateClient e r d0")
  case (Inl err)
  then show ?thesis using token_refused by simp
next
  case (Inr c)
  then show ?thesis using token_answer [OF Inr, of base i rtok rref d] answer_access [OF inv] by auto
qed

lemma revoke_access: "access_good d (snd (revoke e r d0 d))"
proof -
  have "access_good d d2" if "RevokeGrant e a g d = (x, d1)" "Write e ev d1 = (y, d2)" for a g x d1 ev y d2
    using Write_access [OF that(2)] RevokeGrant_good [of d e a g] that(1) by simp
  then show ?thesis
    by (auto simp: revoke_def Let_def split: sum.split option.split prod.split)
qed

section \<open>Steps\<close>

text \<open>
  \<open>H\<close> are hashes that no later request draws again: the codes and refresh tokens are 32 random
  bytes, so a repeated draw is excluded by hypothesis where it matters, and by nothing else
  (\<open>H = {}\<close>) in the invariant.
\<close>

inductive grant_step :: "env \<Rightarrow> bytes set \<Rightarrow> db \<Rightarrow> db \<Rightarrow> bool" for e0 :: env and H :: "bytes set" where
  request: "\<lbrakk>e_addr e = e_addr e0; e_sha e = e_sha e0; go_hash e (randomToken (dr_a x)) \<notin> H;
      go_hash e (randomToken (dr_b x)) \<notin> H\<rbrakk> \<Longrightarrow> grant_step e0 H d (snd (route e base x r d0 d))"
| access: "access_step d d' \<Longrightarrow> grant_step e0 H d d'"
| cleanup: "grant_step e0 H d (Maintain e d)"

inductive_cases grant_stepE: "grant_step e0 H d d'"

lemma if_chain:
  "v = (if a then x1 else if b then x2 else if c then x3 else if d then x4 else if f then x5 else x6) \<Longrightarrow>
   v = x1 \<or> v = x2 \<or> v = x3 \<or> v = x4 \<or> v = x5 \<or> v = x6"
  by simp

lemmas route_chain = if_chain [OF route_def [unfolded Let_def]]

lemma route_cases [consumes 0, case_names register authorize consent token revoke other]:
  obtains "route e base x r d0 d = register e (dr_a x) (dr_b x) r d"
  | "route e base x r d0 d = authorize e base (dr_a x) (dr_b x) r d"
  | "route e base x r d0 d = consent e base (dr_id x) (dr_a x) r d"
  | "route e base x r d0 d = token e base (dr_id x) (dr_a x) (dr_b x) r d0 d"
  | "route e base x r d0 d = revoke e r d0 d"
  | "route e base x r d0 d = (reply_error 404 ''404 page not found'', d)"
  using route_chain [of e base x r d0 d] by blast

lemma route_good:
  assumes inv: "oauth_inv e0 d" and ad: "e_addr e = e_addr e0"
  shows "oauth_inv e0 (snd (route e base x r d0 d)) \<and> access_good d (snd (route e base x r d0 d))"
  by (rule route_cases [of e base x r d0 d])
    (use inv register_inv authorize_inv [OF inv ad] consent_inv token_inv revoke_inv
      access_good_cong [OF register_access] access_good_cong [OF authorize_access] consent_access
      token_access revoke_access in \<open>simp_all\<close>)

lemma account_step_oauth:
  assumes "account_step d d'"
  shows "oauth_clients d' = oauth_clients d \<and> oauth_requests d' = oauth_requests d
    \<and> oauth_codes d' = oauth_codes d \<and> refresh_tokens d' = refresh_tokens d"
  using assms
proof cases
  case create
  show ?thesis unfolding create by (rule CreatePending_effect) simp_all
next
  case activate
  show ?thesis unfolding activate by (rule Activate_effect) simp_all
next
  case disconnect
  show ?thesis unfolding disconnect MarkDisconnected_def by (rule exec_update_effect) simp_all
next
  case touch
  show ?thesis unfolding touch TouchUpdate_def Let_def by (rule exec_update_effect) simp_all
qed

lemma stage_step:
  assumes inv: "oauth_inv e0 d" and good: "access_good d d'"
    and same: "accounts d' = accounts d" "users d' = users d" "identities d' = identities d"
      "oauth_clients d' = oauth_clients d" "oauth_requests d' = oauth_requests d"
      "oauth_codes d' = oauth_codes d" "refresh_tokens d' = refresh_tokens d"
  shows "oauth_inv e0 d'"
proof (rule stage_access [OF inv good _ same(4-7)])
  show "accounts_inv d'" using accounts_inv_cong [OF same(1-3)] oauth_invD(1) [OF inv] by simp
qed

lemma account_step_keeps: "account_step d d' \<Longrightarrow> oauth_inv e0 d \<Longrightarrow> oauth_inv e0 d'"
  using stage_access account_step_good account_step_inv oauth_invD(1) account_step_oauth by blast

lemma CreateClient_keeps:
  assumes inv: "oauth_inv e0 d" shows "oauth_inv e0 (snd (CreateClient e i u n ty d))"
proof (rule CreateClient_effect [where P = "oauth_inv e0", OF inv])
  fix g :: gw_client assume "gc_id g \<notin> gc_id ` set (clients d)"
  then show "oauth_inv e0 (d\<lparr>clients := clients d @ [g]\<rparr>)"
    by (intro stage_step [OF inv access_good_client]) simp_all
qed

lemma IssueToken_keeps:
  assumes inv: "oauth_inv e0 d" shows "oauth_inv e0 (snd (IssueToken e i rnd c a ss x d))"
proof (rule IssueToken_effect [where P = "oauth_inv e0", OF inv])
  fix t :: token_row assume "at_hash t \<notin> at_hash ` set (tokens d)" "at_id t \<notin> at_id ` set (tokens d)" "token_row_ok d t"
  then show "oauth_inv e0 (d\<lparr>tokens := tokens d @ [t]\<rparr>)"
    by (intro stage_step [OF inv access_good_token]) simp_all
qed

lemma RevokeToken_keeps:
  assumes inv: "oauth_inv e0 d" shows "oauth_inv e0 (snd (RevokeToken e t c d))"
proof -
  have "oauth_inv e0 (d\<lparr>tokens := update_where p (revoke_row now) (tokens d)\<rparr>)" for p now
    by (rule stage_step [OF inv access_good_revoke]) simp_all
  then show ?thesis using inv by (simp add: RevokeToken_def split: option.split)
qed

lemma access_step_inv:
  assumes st: "access_step d d'" and inv: "oauth_inv e0 d"
  shows "oauth_inv e0 d'"
  using st inv
proof (induction rule: access_step.induct)
  case (revoke_grant e a c d d')
  then show ?case using RevokeGrant_inv [OF revoke_grant(2), of e a c] by simp
qed (simp_all add: account_step_keeps CreateClient_keeps IssueToken_keeps RevokeToken_keeps)

lemma grant_step_good:
  assumes "grant_step e0 H d d'" and inv: "oauth_inv e0 d"
  shows "oauth_inv e0 d' \<and> access_good d d'"
  using assms(1)
proof cases
  case (request e x base r d0)
  then show ?thesis using route_good [OF inv] by simp
next
  case access
  then show ?thesis using access_step_inv access_step_good inv by blast
next
  case (cleanup e)
  then show ?thesis using Maintain_inv [OF inv] access_good_cong [OF Maintain_access] by simp
qed

lemma grant_steps_good:
  assumes "(grant_step e0 H)\<^sup>*\<^sup>* d d'" and "oauth_inv e0 d"
  shows "oauth_inv e0 d' \<and> access_good d d'"
  using assms(1)
proof (induction rule: rtranclp_induct)
  case base
  then show ?case using assms(2) by simp
next
  case (step y z)
  then show ?case using grant_step_good access_good_trans by blast
qed

text \<open>A closed grant stays closed, and nothing is issued for it.\<close>

lemma closed_grant_steps:
  assumes "(grant_step e0 H)\<^sup>*\<^sup>* d d'" "oauth_inv e0 d" "closed_grant a g d"
  shows "closed_grant a g d'"
  using grant_steps_good [OF assms(1,2)] closed_grant_evolves [OF _ assms(3)] by (simp add: access_good_def)

lemma closed_grant_no_user: "closed_grant a g d \<Longrightarrow> grant_user g a d = None"
proof (rule ccontr)
  assume cl: "closed_grant a g d" and "grant_user g a d \<noteq> None"
  then obtain u where u: "grant_user g a d = Some u" by blast
  obtain c t where "c \<in> set (clients d)" "gc_id c = g" "gc_user c = u" "gc_status c = ClientActive"
    "t \<in> set (accounts d)" "acc_id t = a" "acc_user t = u"
    using grant_userD [OF u] by blast
  then show False using cl unfolding closed_grant_def by (metis client_status.distinct(1))
qed

end
