(* ===== verification/Secrets.thy ===== *)
theory Secrets
  imports GrantSteps
begin

text \<open>
  Where codes and refresh tokens come from: a step never brings a used code back, never
  un-revokes a refresh token, and adds only secrets that it drew itself.
\<close>

definition refresh_kept :: "refresh_row \<Rightarrow> refresh_row \<Rightarrow> bool" where
  "refresh_kept u t = (same_refresh u t \<and> (rt_revoked u \<noteq> None \<longrightarrow> rt_revoked t \<noteq> None))"

lemma refresh_kept_refl [simp]: "refresh_kept t t"
  by (simp add: refresh_kept_def)

lemma refresh_kept_trans: "refresh_kept u v \<Longrightarrow> refresh_kept v t \<Longrightarrow> refresh_kept u t"
  by (simp add: refresh_kept_def same_refresh_def)

lemma refresh_kept_hash: "refresh_kept u t \<Longrightarrow> rt_hash t = rt_hash u"
  by (simp add: refresh_kept_def same_refresh_def)

definition secrets_from :: "bytes set \<Rightarrow> db \<Rightarrow> db \<Rightarrow> bool" where
  "secrets_from H d d' =
     ((\<forall>k \<in> set (oauth_codes d'). co_hash k \<in> H \<longrightarrow> k \<in> set (oauth_codes d))
      \<and> (\<forall>t \<in> set (refresh_tokens d'). rt_hash t \<in> H \<longrightarrow> (\<exists>u \<in> set (refresh_tokens d). refresh_kept u t)))"

lemma secrets_from_refl [simp]: "secrets_from H d d"
  unfolding secrets_from_def using refresh_kept_refl by blast

lemma secrets_from_trans:
  assumes "secrets_from H d d1" "secrets_from H d1 d2" shows "secrets_from H d d2"
  unfolding secrets_from_def
proof (intro conjI ballI impI)
  fix k assume "k \<in> set (oauth_codes d2)" "co_hash k \<in> H"
  then show "k \<in> set (oauth_codes d)" using assms unfolding secrets_from_def by blast
next
  fix t assume t: "t \<in> set (refresh_tokens d2)" "rt_hash t \<in> H"
  then obtain v where v: "v \<in> set (refresh_tokens d1)" "refresh_kept v t"
    using assms(2) unfolding secrets_from_def by blast
  then have "rt_hash v \<in> H" using t(2) refresh_kept_hash by simp
  then obtain u where "u \<in> set (refresh_tokens d)" "refresh_kept u v"
    using assms(1) v(1) unfolding secrets_from_def by blast
  then show "\<exists>u \<in> set (refresh_tokens d). refresh_kept u t" using v(2) refresh_kept_trans by blast
qed

text \<open>Rows go, rows are marked revoked, rows appear.\<close>

lemma secrets_delete:
  assumes "set (oauth_codes d') \<subseteq> set (oauth_codes d)" "set (refresh_tokens d') \<subseteq> set (refresh_tokens d)"
  shows "secrets_from H d d'"
  unfolding secrets_from_def using assms refresh_kept_refl by blast

lemma secrets_same:
  "oauth_codes d' = oauth_codes d \<Longrightarrow> refresh_tokens d' = refresh_tokens d \<Longrightarrow> secrets_from H d d'"
  by (rule secrets_delete) simp_all

lemma secrets_revoke:
  assumes "\<And>t. refresh_kept t (f t)"
  shows "secrets_from H d (d\<lparr>refresh_tokens := update_where p f (refresh_tokens d)\<rparr>)"
proof -
  have "\<exists>u \<in> set (refresh_tokens d). refresh_kept u t" if "t \<in> set (update_where p f (refresh_tokens d))" for t
    using that assms refresh_kept_refl unfolding in_update_where by blast
  then show ?thesis by (simp add: secrets_from_def)
qed

lemma secrets_code: "co_hash k \<notin> H \<Longrightarrow> secrets_from H d (d\<lparr>oauth_codes := oauth_codes d @ [k]\<rparr>)"
  unfolding secrets_from_def using refresh_kept_refl by fastforce

lemma secrets_token: "rt_hash t \<notin> H \<Longrightarrow> secrets_from H d (d\<lparr>tokens := ts, refresh_tokens := refresh_tokens d @ [t]\<rparr>)"
  unfolding secrets_from_def using refresh_kept_refl by fastforce

section \<open>The handlers\<close>

lemma Write_secrets: "Write e ev d = (x, d') \<Longrightarrow> secrets_from H d0 d \<Longrightarrow> secrets_from H d0 d'"
  using secrets_same [of d' d H] audit_only [of e ev d] secrets_from_trans by simp

lemma register_secrets: "secrets_from H d (snd (register e a b r d))"
  by (rule secrets_same) (simp_all add: register_def pruneRegistrations_def Let_def split: option.split sum.split)

lemma authorize_secrets: "secrets_from H d (snd (authorize e base a b r d))"
  by (rule secrets_same) (simp_all add: authorize_def Let_def split: sum.split)

lemma consent_tx_secrets:
  assumes "consent_tx e gid rcode p q d = (res, d')" and new: "go_hash e (randomToken rcode) \<notin> H"
  shows "secrets_from H d d'"
proof (cases res)
  case (Inl resp)
  then have "d' = d" using consent_tx_error assms by blast
  then show ?thesis by simp
next
  case (Inr g)
  obtain d2 where d2: "insert_grant_client e gid (bp_account p) (bp_user p) (or_client q)
        (answered e q (activated e q d)) = (Inr g, d2)"
    "d' = d2\<lparr>oauth_codes := oauth_codes d2 @ [consented_code e g rcode p q]\<rparr>"
    using consent_txD assms(1) Inr by blast
  obtain nm where n: "d2 = (answered e q (activated e q d))
      \<lparr>clients := clients (answered e q (activated e q d)) @ [granted_client e g (bp_user p) nm]\<rparr>"
    using insert_grant_clientD [OF d2(1)] by blast
  have "secrets_from H d d2" by (rule secrets_same) (simp_all add: n answered_def activated_def)
  moreover have "secrets_from H d2 d'"
    unfolding d2(2) by (rule secrets_code) (use new in \<open>simp add: consented_code_def\<close>)
  ultimately show ?thesis by (rule secrets_from_trans)
qed

lemma consent_secrets:
  assumes "go_hash e (randomToken rcode) \<notin> H"
  shows "secrets_from H d (snd (consent e base gid rcode r d))"
  by (auto simp: consent_def Let_def secrets_same dest: consent_tx_secrets [OF _ assms]
      intro: Write_secrets split: sum.split option.split prod.split)

lemma RevokeGrant_secrets: "secrets_from H d (snd (RevokeGrant e a c d))"
proof -
  have "secrets_from H d (snd (run_stmts e (revoke_grant_stmts e x y) d))" for x y
  proof (rule run_stmts_effect)
    fix l f d1
    assume lf: "(l, f) \<in> set (revoke_grant_stmts e x y)" and d1: "secrets_from H d d1"
    have r: "secrets_from H d1 (d1\<lparr>refresh_tokens := update_where p (revoke_refresh_row (e_now e)) (refresh_tokens d1)\<rparr>)" for p
      by (rule secrets_revoke) (simp add: refresh_kept_def same_refresh_def revoke_refresh_row_def coalesce_def split: option.split)
    have "secrets_from H d1 (f d1)"
      using lf r by (auto simp: revoke_grant_stmts_def in_delete_where intro: secrets_same secrets_delete)
    then show "secrets_from H d (f d1)" using d1 secrets_from_trans by blast
  qed simp
  then show ?thesis by (simp add: RevokeGrant_def split: option.split)
qed

lemma replay_secrets: "secrets_from H d (snd (replay_revoke e t d))"
proof -
  obtain res d1 where r: "RevokeGrant e (rt_account t) (rt_gateway t) d = (res, d1)"
    by (cases "RevokeGrant e (rt_account t) (rt_gateway t) d")
  have "secrets_from H d d1" using RevokeGrant_secrets [of H d e "rt_account t" "rt_gateway t"] r by simp
  then show ?thesis
    by (auto simp: replay_revoke_def r intro: Write_secrets split: sum.split prod.split)
qed

lemma rotated_secrets: "secrets_from H d (rotated e h d)"
  unfolding rotated_def by (rule secrets_revoke) (simp add: refresh_kept_def same_refresh_def)

lemma redeem_secrets:
  assumes r: "redeem e r c d = (x, d1)" shows "secrets_from H d d1"
proof (cases x)
  case (Inl resp)
  have "d1 = d \<or> (\<exists>t. d1 = snd (replay_revoke e t d))"
    using r Inl redeem_code_error redeem_refresh_error unfolding redeem_def by (auto split: if_splits)
  then show ?thesis using replay_secrets by auto
next
  case (Inr y)
  obtain a g ss where y: "y = (a, g, ss)" by (cases y) auto
  show ?thesis
  proof (cases "form_get r ''grant_type'' = ''authorization_code''")
    case True
    then have "d1 = d\<lparr>oauth_codes := delete_where (\<lambda>k. co_hash k = go_hash e (form_get r ''code'')) (oauth_codes d)\<rparr>"
      using r Inr y redeem_codeD [of e r c d a g ss d1] by (auto simp: redeem_def)
    then show ?thesis by (auto simp: in_delete_where intro!: secrets_delete)
  next
    case False
    then have "d1 = rotated e (go_hash e (form_get r ''refresh_token'')) d"
      using r Inr y redeem_refreshD [of e r c d a g ss d1] by (auto simp: redeem_def)
    then show ?thesis using rotated_secrets by simp
  qed
qed

lemma answer_secrets:
  assumes new: "go_hash e (randomToken rref) \<notin> H"
  shows "secrets_from H d (snd (answer e base i rtok rref r c d))"
proof (cases rule: answer_cases [of e base i rtok rref r c d])
  case same
  then show ?thesis by simp
next
  case (refused resp)
  then show ?thesis using redeem_secrets by blast
next
  case (issued a g ss d1 tr d2 ev)
  have "secrets_from H d1 d2"
    using issueD [OF issued(2)] new by (auto simp: refresh_row_for_def intro!: secrets_token)
  then have "secrets_from H d d2" using redeem_secrets [OF issued(1)] secrets_from_trans by blast
  then show ?thesis using Write_secrets [of e ev d2] issued(3) by (metis prod.collapse)
qed

lemma token_secrets:
  assumes "go_hash e (randomToken rref) \<notin> H"
  shows "secrets_from H d (snd (token e base i rtok rref r d0 d))"
proof (cases "authenticateClient e r d0")
  case (Inl err)
  then show ?thesis using token_refused by simp
next
  case (Inr c)
  then show ?thesis using token_answer [OF Inr, of base i rtok rref d] answer_secrets [OF assms] by auto
qed

lemma revoke_secrets: "secrets_from H d (snd (revoke e r d0 d))"
proof -
  have "secrets_from H d d2" if "RevokeGrant e a g d = (x, d1)" "Write e ev d1 = (y, d2)" for a g x d1 ev y d2
    using Write_secrets [OF that(2)] RevokeGrant_secrets [of H d e a g] that(1) by simp
  then show ?thesis
    by (auto simp: revoke_def Let_def split: sum.split option.split prod.split)
qed

section \<open>Steps\<close>

lemma Maintain_secrets: "secrets_from H d (Maintain e d)"
  by (rule secrets_delete)
    (auto simp: Maintain_def CleanupRegistrations_def pruneRegistrations_def sweep_tables_def Let_def in_delete_where)

lemma access_step_secrets: "access_step d d' \<Longrightarrow> secrets_from H d d'"
proof (induction rule: access_step.induct)
  case (account d d')
  then show ?case by (intro secrets_same) (use account_step_oauth in auto)
next
  case (client d e i u n ty)
  show ?case by (rule CreateClient_effect) (auto intro: secrets_same)
next
  case (issue d e i rnd c a ss x)
  show ?case by (rule IssueToken_effect) (auto intro: secrets_same)
next
  case (revoke d e t c)
  show ?case by (rule secrets_same) (simp_all add: RevokeToken_def split: option.split)
next
  case (revoke_grant e a c d d')
  then show ?case using RevokeGrant_secrets [of H d e a c] by simp
qed

lemma grant_step_secrets:
  assumes "grant_step e0 H d d'" shows "secrets_from H d d'"
  using assms
proof cases
  case (request e x base r d0)
  show ?thesis unfolding request(1)
    by (rule route_cases [of e base x r d0 d])
      (use request in \<open>simp_all add: register_secrets authorize_secrets consent_secrets token_secrets revoke_secrets\<close>)
next
  case access
  then show ?thesis by (rule access_step_secrets)
next
  case (cleanup e)
  then show ?thesis using Maintain_secrets by simp
qed

lemma grant_steps_secrets: "(grant_step e0 H)\<^sup>*\<^sup>* d d' \<Longrightarrow> secrets_from H d d'"
  by (induction rule: rtranclp_induct) (auto intro: secrets_from_trans grant_step_secrets)

end
