(* ===== verification/GrantTheorems.thy ===== *)
theory GrantTheorems
  imports Secrets
begin

text \<open>The properties of the authorization server.\<close>

section \<open>Helpers\<close>

lemma token_ok_answer:
  assumes "rs_status (fst (token e base i rtok rref r d0 d)) = 200"
  obtains c a g ss d1 tr d2 ev ag where "authenticateClient e r d0 = Inr c" "find_grant e r c d0 = Inr ag"
    "redeem e r c d = (Inr (a, g, ss), d1)" "issue e i rtok rref (oc_id c) g a ss d1 = (Inr tr, d2)"
    "snd (token e base i rtok rref r d0 d) = snd (Write e ev d2)"
    "fst (token e base i rtok rref r d0 d) = token_reply base tr ss"
proof -
  obtain c where c: "authenticateClient e r d0 = Inr c"
    using token_refused assms by (cases "authenticateClient e r d0") blast+
  obtain ag where t: "token e base i rtok rref r d0 d = answer e base i rtok rref r c d"
    "find_grant e r c d0 = Inr ag"
    using token_answer [OF c, of base i rtok rref d] assms by blast
  show thesis
  proof (cases rule: answer_cases [of e base i rtok rref r c d])
    case same
    then show thesis using assms t by simp
  next
    case (refused resp)
    have "rs_status resp \<noteq> 200"
    proof (cases "form_get r ''grant_type'' = ''authorization_code''")
      case True
      then show ?thesis using refused(1) redeem_code_error unfolding redeem_def by (metis (full_types))
    next
      case False
      then show ?thesis using refused(1) redeem_refresh_error unfolding redeem_def by (metis (full_types))
    qed
    then show thesis using refused(2) assms t by simp
  next
    case (issued a g ss d1 tr d2 ev)
    then show thesis using that [OF c t(2) issued(1,2)] assms t(1) by simp
  qed
qed

lemma issued_authenticates:
  assumes di: "distinct (map gc_id (clients d))"
    and iss: "issue e i rtok rref client gw account scopes d = (Inr tr, d2)"
    and d': "clients d' = clients d2" "accounts d' = accounts d2" "tokens d' = tokens d2"
    and sha: "e_sha e' = e_sha e" and up: "\<not> e_fail e' ''AuthenticateBearer''"
    and fresh: "e_now e' < e_now e + one_hour"
  shows "\<exists>p. AuthenticateBearer e' (fst tr) d' = Inr p \<and> p_client p = gw \<and> p_account p = account
    \<and> p_scopes p = scopes"
proof -
  obtain tok u where u: "GenerateToken e rtok = Inr tok" "grant_user gw account d = Some u" "scopes \<noteq> []"
    "set scopes \<subseteq> set allowed_scopes" "tr = (g_plain tok, randomToken rref)" "g_hash tok \<notin> at_hash ` set (tokens d)"
    "d2 = d\<lparr>tokens := tokens d @ [token_row_for e i gw account u tok scopes (Some (e_now e + one_hour))],
             refresh_tokens := refresh_tokens d @ [refresh_row_for e rref client gw account scopes]\<rparr>"
    using issueD [OF iss] by blast
  let ?t = "token_row_for e i gw account u tok scopes (Some (e_now e + one_hour))"
  have "\<exists>gc. AuthenticateBearer e' (g_plain tok) d' =
      Inr \<lparr>p_user = u, p_client = gw, p_type = gc_type gc, p_account = account, p_scopes = at_scopes ?t\<rparr>
    \<and> gc \<in> set (clients d) \<and> gc_id gc = gw \<and> gc_user gc = u"
    by (rule new_row_authenticates [OF u(2) di _ _ u(1,6) _ _ _ _ _ _ _ _ sha up])
      (use u d' fresh in \<open>simp_all add: token_row_for_def\<close>)
  then show ?thesis using u(5) by (auto simp: token_row_for_def)
qed

lemma secrets_code_gone:
  "h \<notin> co_hash ` set (oauth_codes d) \<Longrightarrow> secrets_from {h} d d' \<Longrightarrow> h \<notin> co_hash ` set (oauth_codes d')"
  by (auto simp: secrets_from_def)

lemma secrets_refresh_spent:
  assumes "\<forall>t \<in> set (refresh_tokens d). rt_hash t = h \<longrightarrow> rt_revoked t \<noteq> None" "secrets_from {h} d d'"
  shows "\<forall>t \<in> set (refresh_tokens d'). rt_hash t = h \<longrightarrow> rt_revoked t \<noteq> None"
proof (intro ballI impI)
  fix t assume t: "t \<in> set (refresh_tokens d')" "rt_hash t = h"
  then obtain u where u: "u \<in> set (refresh_tokens d)" "refresh_kept u t"
    using assms(2) unfolding secrets_from_def by blast
  then have "rt_revoked u \<noteq> None" using assms(1) refresh_kept_hash [OF u(2)] t(2) by simp
  then show "rt_revoked t \<noteq> None" using u(2) by (simp add: refresh_kept_def)
qed

text \<open>A good grant to start from: the account of one user, its client, a code, two refresh tokens.\<close>

definition demo_oc :: oauth_client where
  "demo_oc = \<lparr>oc_id = ''mcp'', oc_name = ''Claude'', oc_redirects = [''https://c.example/cb''], oc_secret = None,
              oc_method = ''none'', oc_created = 1, oc_activated = Some 2\<rparr>"

definition demo_verifier :: string where
  "demo_verifier = replicate 43 (CHR ''v'')"

definition demo_code :: oauth_code where
  "demo_code = \<lparr>co_hash = ''code'', co_client = ''mcp'', co_gateway = ''c1'', co_account = ''a1'',
     co_redirect = ''https://c.example/cb'', co_challenge = b64_encode demo_verifier,
     co_scopes = [''chat:read''], co_expires = 6000000\<rparr>"

definition demo_rt :: "bytes \<Rightarrow> time option \<Rightarrow> refresh_row" where
  "demo_rt h x = \<lparr>rt_hash = h, rt_client = ''mcp'', rt_gateway = ''c1'', rt_account = ''a1'',
     rt_scopes = [''chat:read'', ''media:read''], rt_expires = 9000000, rt_revoked = x\<rparr>"

definition demo_oauth :: db where
  "demo_oauth = demo_db\<lparr>oauth_clients := [demo_oc], oauth_codes := [demo_code],
     refresh_tokens := [demo_rt ''live'' None, demo_rt ''used'' (Some 3)]\<rparr>"

definition demo_form :: "string \<Rightarrow> (string \<times> string list) list \<Rightarrow> request" where
  "demo_form path kvs =
     \<lparr>rq_method = ''POST'', rq_url = no_url\<lparr>u_path := path\<rparr>, rq_host = ''tg.example'',
      rq_header = (\<lambda>_. ''''), rq_cookie = (\<lambda>_. None), rq_remote = ''192.0.2.1:5'', rq_body = '''',
      rq_form = Some kvs, rq_basic = None, rq_wild = (\<lambda>_. '''')\<rparr>"

definition demo_code_form :: request where
  "demo_code_form = demo_form ''/oauth/token''
     [(''grant_type'', [''authorization_code'']), (''code'', [''code'']), (''client_id'', [''mcp'']),
      (''redirect_uri'', [''https://c.example/cb'']), (''code_verifier'', [demo_verifier]),
      (''resource'', [''https://tg.example/mcp''])]"

definition demo_refresh_form :: "string \<Rightarrow> request" where
  "demo_refresh_form v = demo_form ''/oauth/token''
     [(''grant_type'', [''refresh_token'']), (''refresh_token'', [v]), (''client_id'', [''mcp'']),
      (''scope'', [''chat:read'']), (''resource'', [''https://tg.example/mcp''])]"

definition demo_exchange :: "response \<times> db" where
  "demo_exchange = token demo_env ''https://tg.example'' ''t9'' ''random'' ''refreshbytes''
     demo_code_form demo_oauth demo_oauth"

definition demo_refreshed :: "response \<times> db" where
  "demo_refreshed = token demo_env ''https://tg.example'' ''t9'' ''random'' ''refreshbytes''
     (demo_refresh_form ''live'') demo_oauth demo_oauth"

lemma demo_oauth_inv: "oauth_inv demo_env demo_oauth"
proof -
  have "accounts_inv demo_oauth"
    using demo_accounts_inv accounts_inv_cong [of demo_oauth demo_db] by (simp add: demo_oauth_def)
  moreover have "access_inv demo_oauth"
    using access_inv_def by (auto simp: demo_oauth_def access_inv_def demo_defs)
  moreover have "set [''chat:read'', ''media:read''] \<subseteq> set allowed_scopes" by code_simp
  ultimately show ?thesis
    by (simp add: oauth_inv_def demo_oauth_def code_ok_def refresh_ok_def grant_ok_def client_used_def
        demo_code_def demo_rt_def demo_oc_def demo_defs)
qed

lemmas demo_forms = demo_code_form_def demo_refresh_form_def demo_form_def

lemma demo_client:
  "authenticateClient demo_env demo_code_form demo_oauth = Inr demo_oc"
  "authenticateClient demo_env (demo_refresh_form v) demo_oauth = Inr demo_oc"
  by (simp_all add: authenticateClient_def getClient_def demo_forms form_get_def q_get_def demo_oauth_def demo_oc_def
      client_alive_def demo_defs)

lemma demo_pkce: "verifierPattern demo_verifier"
  by code_simp

lemma demo_redeem: "redeem demo_env demo_code_form demo_oc demo_oauth =
    (Inr (''a1'', ''c1'', [''chat:read'']), demo_oauth\<lparr>oauth_codes := []\<rparr>)"
  using demo_pkce
  by (simp add: redeem_def redeem_code_def demo_forms form_get_def q_get_def demo_oauth_def demo_code_def demo_oc_def
      go_hash_def pkce_ok_def delete_where_def demo_defs)

lemma demo_env_sel:
  "e_now demo_env = 5000000" "e_fail demo_env l = False" "e_sha demo_env s = s" "e_uuid demo_env s = Some s"
  by (simp_all add: demo_env_def)

lemma demo_narrow: "narrowed ''chat:read'' [''chat:read'', ''media:read''] = Some [''chat:read'']"
  by code_simp

lemma demo_redeem_refresh: "redeem demo_env (demo_refresh_form ''live'') demo_oc demo_oauth =
    (Inr (''a1'', ''c1'', [''chat:read'']), rotated demo_env ''live'' demo_oauth)"
  using demo_narrow
  by (simp add: redeem_def redeem_refresh_def demo_forms form_get_def q_get_def demo_oauth_def demo_rt_def demo_oc_def
      go_hash_def rotated_def demo_defs Let_def)

lemma demo_issue_ok:
  assumes "tokens d = []" "accounts d = accounts demo_db" "clients d = clients demo_db"
    and "rt_hash ` set (refresh_tokens d) = {''live'', ''used''}"
  shows "\<exists>tr d2. issue demo_env ''t9'' ''random'' ''refreshbytes'' ''mcp'' ''c1'' ''a1'' [''chat:read''] d = (Inr tr, d2)
    \<and> accounts d2 = accounts d"
proof -
  have r: "randomToken ''refreshbytes'' \<notin> {''live'', ''used''}" by code_simp
  have a: "''chat:read'' \<in> set allowed_scopes" by code_simp
  have n: "\<not> rune_count demo_bearer < 8" "\<not> 24 < rune_count demo_bearer" by code_simp+
  have u: "grant_user ''c1'' ''a1'' d = Some ''u1''"
    using assms by (simp add: grant_user_def exists_row_def demo_defs)
  show ?thesis
    using assms r a n u demo_generate
    by (simp add: issue_def insert_token_def go_hash_def Let_def demo_env_sel)
qed

lemma demo_resource: "validResource ''https://tg.example'' ''https://tg.example/mcp''"
  by code_simp

lemma demo_oc_id: "oc_id demo_oc = ''mcp''"
  by (simp add: demo_oc_def)

lemma demo_token_ok:
  assumes "authenticateClient demo_env r demo_oauth = Inr demo_oc"
    and "redeem demo_env r demo_oc demo_oauth = (Inr (''a1'', ''c1'', [''chat:read'']), d1)"
    and "tokens d1 = []" "accounts d1 = accounts demo_db" "clients d1 = clients demo_db"
      "rt_hash ` set (refresh_tokens d1) = {''live'', ''used''}"
    and "find_grant demo_env r demo_oc demo_oauth = Inr ag" "rq_form r \<noteq> None"
      "form_get r ''resource'' = ''https://tg.example/mcp''"
  shows "rs_status (fst (token demo_env ''https://tg.example'' ''t9'' ''random'' ''refreshbytes'' r demo_oauth demo_oauth)) = 200"
proof -
  obtain tr d2 where iss: "issue demo_env ''t9'' ''random'' ''refreshbytes'' ''mcp'' ''c1'' ''a1'' [''chat:read''] d1 = (Inr tr, d2)"
    "accounts d2 = accounts d1"
    using demo_issue_ok [OF assms(3-6)] by blast
  let ?ev = "oauth_event ''a1'' ''oauth'' ''OAUTH_TOKEN_ISSUED'' ''c1''
      (JObj [(''oauth_client_id'', JStr ''mcp''), (''grant_type'', JStr (form_get r ''grant_type'')),
             (''scopes'', jstrs [''chat:read''])])"
  have v: "validate_event ?ev = Inr ()"
    by (simp add: validate_event_def oauth_event_def) code_simp
  obtain d3 where w: "Write demo_env ?ev d2 = (Inr (), d3)"
    using Write_ok [OF v, of demo_env "''a1''" d2] iss(2) assms(4)
    by (auto simp: oauth_event_def demo_defs)
  obtain a0 g0 where ag: "ag = (a0, g0)" by (cases ag)
  show ?thesis
    using assms(1,2,7,8,9) iss(1) w ag demo_resource
    by (auto simp: token_def redeem_def [symmetric] LockGrant_def demo_oc_id demo_env_sel token_reply_def reply_def)
qed

lemma demo_exchange_ok: "rs_status (fst demo_exchange) = 200"
  unfolding demo_exchange_def
  by (rule demo_token_ok [OF demo_client(1) demo_redeem])
    (simp_all add: demo_oauth_def demo_db_def empty_db_def demo_rt_def find_grant_def demo_forms form_get_def q_get_def
      demo_code_def demo_oc_def go_hash_def demo_env_def)

lemma demo_refreshed_ok: "rs_status (fst demo_refreshed) = 200"
  unfolding demo_refreshed_def
  by (rule demo_token_ok [OF demo_client(2) demo_redeem_refresh])
    (simp_all add: demo_oauth_def demo_db_def empty_db_def demo_rt_def find_grant_def demo_forms form_get_def q_get_def
      demo_code_def demo_oc_def go_hash_def demo_env_def rotated_def update_where_def)

section \<open>The invariant\<close>

text \<open>C26: In every state that requests, account and token operations and the cleanup can reach, each
  authorization code and refresh token names an existing client row and account of one user,
  holds a non-empty set of allowed scopes and belongs to an activated registration; each
  pending request has a redirect address that its registration covers.\<close>

theorem oauth_reachable_inv:
  assumes "oauth_inv e0 d" and "(grant_step e0 H)\<^sup>*\<^sup>* d d'"
  shows "(\<forall>k \<in> set (oauth_codes d'). code_ok d' k) \<and> (\<forall>t \<in> set (refresh_tokens d'). refresh_ok d' t)
    \<and> (\<forall>q \<in> set (oauth_requests d'). request_ok e0 d' q)
    \<and> distinct (map co_hash (oauth_codes d')) \<and> distinct (map rt_hash (refresh_tokens d'))
    \<and> access_inv d'"
  using grant_steps_good [OF assms(2,1)] unfolding oauth_inv_def by blast

theorem oauth_reachable_inv_witness:
  "list_all (refresh_ok (snd demo_exchange)) (refresh_tokens (snd demo_exchange))"
proof -
  have "demo_exchange = route demo_env ''https://tg.example'' \<lparr>dr_a = ''random'', dr_b = ''refreshbytes'', dr_id = ''t9''\<rparr>
      demo_code_form demo_oauth demo_oauth"
    by (simp add: demo_exchange_def route_def demo_forms no_url_def)
  moreover have "grant_step demo_env {} demo_oauth
      (snd (route demo_env ''https://tg.example'' \<lparr>dr_a = ''random'', dr_b = ''refreshbytes'', dr_id = ''t9''\<rparr>
        demo_code_form demo_oauth demo_oauth))"
    by (rule grant_step.request) simp_all
  ultimately have "grant_step demo_env {} demo_oauth (snd demo_exchange)" by (simp only:)
  then have "(grant_step demo_env {})\<^sup>*\<^sup>* demo_oauth (snd demo_exchange)" by blast
  from oauth_reachable_inv [OF demo_oauth_inv this] show ?thesis unfolding list_all_iff by blast
qed

section \<open>Codes\<close>

text \<open>C10: A successful code exchange is bound to the code: the caller is the client the code was
  issued to, the code has not expired, the redirect address is the one of the authorization
  request and the verifier hashes to its S256 challenge; the reply's access token then
  authenticates for one hour, for exactly the client row, account and scopes of the code.\<close>

theorem code_exchange_sound:
  assumes inv: "oauth_inv e0 d" and gt: "form_get r ''grant_type'' = ''authorization_code''"
    and ok: "rs_status (fst (token e base i rtok rref r d0 d)) = 200"
  shows "\<exists>c k tok. authenticateClient e r d0 = Inr c \<and> k \<in> set (oauth_codes d)
    \<and> co_hash k = go_hash e (form_get r ''code'') \<and> co_client k = oc_id c \<and> e_now e < co_expires k
    \<and> co_redirect k = form_get r ''redirect_uri''
    \<and> pkce_ok e (co_challenge k) (form_get r ''code_verifier'')
    \<and> fst (token e base i rtok rref r d0 d) = token_reply base (tok, randomToken rref) (co_scopes k)
    \<and> (\<forall>e'. e_sha e' = e_sha e \<and> \<not> e_fail e' ''AuthenticateBearer'' \<and> e_now e' < e_now e + one_hour \<longrightarrow>
         (\<exists>p. AuthenticateBearer e' tok (snd (token e base i rtok rref r d0 d)) = Inr p
            \<and> p_client p = co_gateway k \<and> p_account p = co_account k \<and> p_scopes p = co_scopes k))"
proof -
  obtain c a g ss d1 tr d2 ev where c: "authenticateClient e r d0 = Inr c"
    and rd: "redeem e r c d = (Inr (a, g, ss), d1)"
    and iss: "issue e i rtok rref (oc_id c) g a ss d1 = (Inr tr, d2)"
    and t: "snd (token e base i rtok rref r d0 d) = snd (Write e ev d2)"
      "fst (token e base i rtok rref r d0 d) = token_reply base tr ss"
    by (rule token_ok_answer [OF ok])
  obtain k where k: "k \<in> set (oauth_codes d)" "co_hash k = go_hash e (form_get r ''code'')" "co_client k = oc_id c"
    "e_now e < co_expires k" "co_redirect k = form_get r ''redirect_uri''"
    "pkce_ok e (co_challenge k) (form_get r ''code_verifier'')" "a = co_account k" "g = co_gateway k" "ss = co_scopes k"
    using redeem_codeD [of e r c d a g ss d1] rd gt by (auto simp: redeem_def)
  have "distinct (map gc_id (clients d1))"
    using redeem_inv'(1) [OF inv rd] oauth_invD(2) by (auto simp: access_inv_def)
  note auth = issued_authenticates [OF this iss, of "snd (token e base i rtok rref r d0 d)", unfolded t(1),
      OF audit_only(2,1,3), folded t(1)]
  obtain tok where "tr = (tok, randomToken rref)" using issueD [OF iss] by blast
  then show ?thesis
    using c k t(2) auth by (intro exI [of _ c] exI [of _ k] exI [of _ tok]) simp
qed

theorem code_exchange_sound_witness:
  "\<exists>tok. fst demo_exchange = token_reply ''https://tg.example'' (tok, randomToken ''refreshbytes'') [''chat:read'']"
proof -
  have "form_get demo_code_form ''grant_type'' = ''authorization_code''"
    by (simp add: demo_forms form_get_def q_get_def)
  from code_exchange_sound [OF demo_oauth_inv this demo_exchange_ok [unfolded demo_exchange_def]]
  show ?thesis by (auto simp: demo_exchange_def demo_oauth_def demo_code_def)
qed

text \<open>C9: An authorization code works once: after the exchange that used it, no later exchange of
  the same code succeeds, at whatever time, by whatever client and after any other requests
  (that do not draw the very same random code again).\<close>

theorem code_single_use:
  assumes inv: "oauth_inv e0 d" and gt: "form_get r ''grant_type'' = ''authorization_code''"
    and ok: "rs_status (fst (token e base i rtok rref r d0 d)) = 200"
    and later: "(grant_step e0 {go_hash e (form_get r ''code'')})\<^sup>*\<^sup>* (snd (token e base i rtok rref r d0 d)) d2"
    and again: "form_get r2 ''grant_type'' = ''authorization_code''" "form_get r2 ''code'' = form_get r ''code''"
      "e_sha e2 = e_sha e"
  shows "rs_status (fst (token e2 base2 i2 rtok2 rref2 r2 d02 d2)) \<noteq> 200"
proof
  assume ok2: "rs_status (fst (token e2 base2 i2 rtok2 rref2 r2 d02 d2)) = 200"
  let ?h = "go_hash e (form_get r ''code'')"
  obtain c a g ss d1 tr d3 ev where rd: "redeem e r c d = (Inr (a, g, ss), d1)"
    and iss: "issue e i rtok rref (oc_id c) g a ss d1 = (Inr tr, d3)"
    and t: "snd (token e base i rtok rref r d0 d) = snd (Write e ev d3)"
    by (rule token_ok_answer [OF ok])
  have "d1 = d\<lparr>oauth_codes := delete_where (\<lambda>k. co_hash k = ?h) (oauth_codes d)\<rparr>"
    using redeem_codeD [of e r c d a g ss d1] rd gt by (auto simp: redeem_def)
  then have "?h \<notin> co_hash ` set (oauth_codes (snd (token e base i rtok rref r d0 d)))"
    using issueD [OF iss] t by (auto simp: audit_only in_delete_where)
  then have gone: "?h \<notin> co_hash ` set (oauth_codes d2)"
    by (rule secrets_code_gone [OF _ grant_steps_secrets [OF later]])
  obtain c2 a2 g2 ss2 d4 where "redeem e2 r2 c2 d2 = (Inr (a2, g2, ss2), d4)"
    by (rule token_ok_answer [OF ok2])
  then obtain k where "k \<in> set (oauth_codes d2)" "co_hash k = go_hash e2 (form_get r2 ''code'')"
    using redeem_codeD [of e2 r2 c2 d2 a2 g2 ss2 d4] again(1) by (auto simp: redeem_def)
  then show False using gone again(2,3) by (metis go_hash_def image_eqI)
qed

theorem code_single_use_witness:
  "rs_status (fst (token demo_env ''https://tg.example'' ''t10'' ''random'' ''other''
     demo_code_form demo_oauth (snd demo_exchange))) \<noteq> 200"
proof -
  have gt: "form_get demo_code_form ''grant_type'' = ''authorization_code''"
    by (simp add: demo_forms form_get_def q_get_def)
  show ?thesis
    unfolding demo_exchange_def
    by (rule code_single_use [OF demo_oauth_inv gt demo_exchange_ok [unfolded demo_exchange_def] rtranclp.rtrancl_refl gt])
      simp_all
qed

section \<open>Refresh tokens\<close>

lemma redeem_fresh_refresh:
  assumes "redeem e r c d = (Inr (a, g, ss), d1)" "form_get r ''grant_type'' \<noteq> ''authorization_code''"
  obtains t where "t \<in> set (refresh_tokens d)" "rt_hash t = go_hash e (form_get r ''refresh_token'')"
    "rt_client t = oc_id c" "rt_revoked t = None" "e_now e < rt_expires t"
    "narrowed (form_get r ''scope'') (rt_scopes t) = Some ss" "a = rt_account t" "g = rt_gateway t"
    "d1 = rotated e (go_hash e (form_get r ''refresh_token'')) d"
  using redeem_refreshD [of e r c d a g ss d1] assms by (auto simp: redeem_def)

text \<open>C27: A successful refresh only narrows: the caller is the client of an unexpired refresh token
  that was never used, the new access token and the new refresh token (valid for thirty days)
  have the account and client row of the old one and a subset of its scopes, and the old one
  is spent.\<close>

theorem refresh_narrows:
  assumes inv: "oauth_inv e0 d" and gt: "form_get r ''grant_type'' \<noteq> ''authorization_code''"
    and ok: "rs_status (fst (token e base i rtok rref r d0 d)) = 200"
  shows "\<exists>c t ss. authenticateClient e r d0 = Inr c \<and> t \<in> set (refresh_tokens d)
    \<and> rt_hash t = go_hash e (form_get r ''refresh_token'') \<and> rt_client t = oc_id c
    \<and> rt_revoked t = None \<and> e_now e < rt_expires t \<and> set ss \<subseteq> set (rt_scopes t) \<and> ss \<noteq> []
    \<and> (\<exists>tok u. tokens (snd (token e base i rtok rref r d0 d)) = tokens d @
          [token_row_for e i (rt_gateway t) (rt_account t) u tok ss (Some (e_now e + one_hour))])
    \<and> refresh_tokens (snd (token e base i rtok rref r d0 d)) =
        refresh_tokens (rotated e (rt_hash t) d)
          @ [refresh_row_for e rref (oc_id c) (rt_gateway t) (rt_account t) ss]"
proof -
  obtain c a g ss d1 tr d2 ev where c: "authenticateClient e r d0 = Inr c"
    and rd: "redeem e r c d = (Inr (a, g, ss), d1)"
    and iss: "issue e i rtok rref (oc_id c) g a ss d1 = (Inr tr, d2)"
    and t: "snd (token e base i rtok rref r d0 d) = snd (Write e ev d2)"
    by (rule token_ok_answer [OF ok])
  obtain t where u: "t \<in> set (refresh_tokens d)" "rt_hash t = go_hash e (form_get r ''refresh_token'')"
    "rt_client t = oc_id c" "rt_revoked t = None" "e_now e < rt_expires t"
    "narrowed (form_get r ''scope'') (rt_scopes t) = Some ss" "a = rt_account t" "g = rt_gateway t"
    "d1 = rotated e (go_hash e (form_get r ''refresh_token'')) d"
    by (rule redeem_fresh_refresh [OF rd gt])
  have "rt_scopes t \<noteq> [] \<and> set (rt_scopes t) \<subseteq> set allowed_scopes"
    using oauth_invD(8) [OF inv u(1)] by (simp add: refresh_ok_def grant_ok_def)
  then have n: "ss \<noteq> []" "set ss \<subseteq> set (rt_scopes t)" using narrowed_ok [OF u(6)] by blast+
  obtain tok v where d2: "d2 = d1\<lparr>tokens := tokens d1 @
        [token_row_for e i g a v tok ss (Some (e_now e + one_hour))],
      refresh_tokens := refresh_tokens d1 @ [refresh_row_for e rref (oc_id c) g a ss]\<rparr>"
    using issueD [OF iss] by blast
  have "tokens d1 = tokens d" unfolding u(9) rotated_def by simp
  then show ?thesis
    using c u(1-5) n u(7-9) t d2
    by (intro exI [of _ c] exI [of _ t] exI [of _ ss]) (auto simp: audit_only)
qed

theorem refresh_narrows_witness:
  "\<exists>u tok ss. tokens (snd demo_refreshed) = [token_row_for demo_env ''t9'' ''c1'' ''a1'' u tok ss (Some 3605000000)]
     \<and> set ss \<subseteq> {''chat:read'', ''media:read''}"
proof -
  have "form_get (demo_refresh_form ''live'') ''grant_type'' \<noteq> ''authorization_code''"
    by (simp add: demo_forms form_get_def q_get_def)
  from refresh_narrows [OF demo_oauth_inv this demo_refreshed_ok [unfolded demo_refreshed_def]]
  obtain t u tok ss where "t \<in> set (refresh_tokens demo_oauth)" "set ss \<subseteq> set (rt_scopes t)"
    "tokens (snd demo_refreshed) = tokens demo_oauth @
       [token_row_for demo_env ''t9'' (rt_gateway t) (rt_account t) u tok ss (Some (e_now demo_env + one_hour))]"
    unfolding demo_refreshed_def by blast
  moreover have "tokens demo_oauth = []" "rt_gateway t = ''c1''" "rt_account t = ''a1''"
      "rt_scopes t = [''chat:read'', ''media:read'']" if "t \<in> set (refresh_tokens demo_oauth)" for t
    using that by (auto simp: demo_oauth_def demo_rt_def demo_db_def empty_db_def)
  ultimately have "tokens (snd demo_refreshed) = [token_row_for demo_env ''t9'' ''c1'' ''a1'' u tok ss (Some 3605000000)]
      \<and> set ss \<subseteq> {''chat:read'', ''media:read''}"
    by (simp add: demo_env_sel one_hour_def)
  then show ?thesis by blast
qed

text \<open>A refresh token works once: after the refresh that used it, no later refresh with the
  same token succeeds (unless the very same random token is drawn again).\<close>

theorem refresh_single_use:
  assumes inv: "oauth_inv e0 d" and gt: "form_get r ''grant_type'' \<noteq> ''authorization_code''"
    and ok: "rs_status (fst (token e base i rtok rref r d0 d)) = 200"
    and new: "go_hash e (randomToken rref) \<noteq> go_hash e (form_get r ''refresh_token'')"
    and later: "(grant_step e0 {go_hash e (form_get r ''refresh_token'')})\<^sup>*\<^sup>* (snd (token e base i rtok rref r d0 d)) d2"
    and again: "form_get r2 ''grant_type'' \<noteq> ''authorization_code''"
      "form_get r2 ''refresh_token'' = form_get r ''refresh_token''" "e_sha e2 = e_sha e"
  shows "rs_status (fst (token e2 base2 i2 rtok2 rref2 r2 d02 d2)) \<noteq> 200"
proof
  assume ok2: "rs_status (fst (token e2 base2 i2 rtok2 rref2 r2 d02 d2)) = 200"
  let ?h = "go_hash e (form_get r ''refresh_token'')"
  obtain c a g ss d1 tr d3 ev where rd: "redeem e r c d = (Inr (a, g, ss), d1)"
    and iss: "issue e i rtok rref (oc_id c) g a ss d1 = (Inr tr, d3)"
    and t: "snd (token e base i rtok rref r d0 d) = snd (Write e ev d3)"
    by (rule token_ok_answer [OF ok])
  have "d1 = rotated e ?h d" by (rule redeem_fresh_refresh [OF rd gt])
  then have "\<forall>t \<in> set (refresh_tokens (snd (token e base i rtok rref r d0 d))). rt_hash t = ?h \<longrightarrow> rt_revoked t \<noteq> None"
    using issueD [OF iss] t new by (auto simp: audit_only rotated_def in_update_where refresh_row_for_def)
  then have spent: "\<forall>t \<in> set (refresh_tokens d2). rt_hash t = ?h \<longrightarrow> rt_revoked t \<noteq> None"
    by (rule secrets_refresh_spent [OF _ grant_steps_secrets [OF later]])
  obtain c2 a2 g2 ss2 d4 where rd2: "redeem e2 r2 c2 d2 = (Inr (a2, g2, ss2), d4)"
    by (rule token_ok_answer [OF ok2])
  obtain t where "t \<in> set (refresh_tokens d2)" "rt_hash t = go_hash e2 (form_get r2 ''refresh_token'')"
    "rt_revoked t = None"
    by (rule redeem_fresh_refresh [OF rd2 again(1)])
  then show False using spent again(2,3) by (auto simp: go_hash_def)
qed

theorem refresh_single_use_witness:
  "rs_status (fst (token demo_env ''https://tg.example'' ''t10'' ''random'' ''other''
     (demo_refresh_form ''live'') demo_oauth (snd demo_refreshed))) \<noteq> 200"
proof -
  have gt: "form_get (demo_refresh_form ''live'') ''grant_type'' \<noteq> ''authorization_code''"
    by (simp add: demo_forms form_get_def q_get_def)
  have "randomToken ''refreshbytes'' \<noteq> ''live''" by code_simp
  then have new: "go_hash demo_env (randomToken ''refreshbytes'')
      \<noteq> go_hash demo_env (form_get (demo_refresh_form ''live'') ''refresh_token'')"
    by (simp add: go_hash_def demo_env_sel demo_forms form_get_def q_get_def)
  show ?thesis
    unfolding demo_refreshed_def
    by (rule refresh_single_use [OF demo_oauth_inv gt demo_refreshed_ok [unfolded demo_refreshed_def] new
          rtranclp.rtrancl_refl gt]) simp_all
qed

section \<open>The end of a grant\<close>

lemma grant_ok_known:
  "grant_ok d g a ss \<Longrightarrow> a \<in> acc_id ` set (accounts d) \<and> g \<in> gc_id ` set (clients d)"
  by (auto simp: grant_ok_def)

lemma RevokeGrant_ends:
  assumes inv: "oauth_inv e0 d" and known: "a \<in> acc_id ` set (accounts d)" "g \<in> gc_id ` set (clients d)"
    and canon: "e_uuid e a = Some a" "e_uuid e g = Some g"
    and rv: "RevokeGrant e a g d = (Inr (), d1)"
  shows "closed_grant a g d1 \<and> oauth_inv e0 d1"
  using RevokeGrant_closes [OF rv canon known] RevokeGrant_inv [OF inv, of e a g] rv
    oauth_invD(1) [OF inv] by (simp add: accounts_inv_def)

lemma Write_closed: "closed_grant a g (snd (Write e ev d)) = closed_grant a g d"
  by (simp add: closed_grant_def audit_only)

lemma closed_grant_final:
  assumes "oauth_inv e0 d" "closed_grant a g d" "(grant_step e0 H)\<^sup>*\<^sup>* d d2"
  shows "\<not> (\<exists>p. AuthenticateBearer e' bearer d2 = Inr p \<and> p_account p = a \<and> p_client p = g)"
  using closed_grant_no_auth [OF closed_grant_steps [OF assms(3,1,2)]] by blast

lemma RevokeGrant_no_faults:
  assumes "e_fail e = no_faults" "e_uuid e a = Some a" "e_uuid e g = Some g"
  shows "\<exists>d1. RevokeGrant e a g d = (Inr (), d1)"
  using assms by (simp add: RevokeGrant_def revoke_grant_stmts_def)

text \<open>C17: Presenting a refresh token that was already used ends the whole grant: the request
  fails, and from then on, whatever is requested, issued or cleaned up, no bearer token acts
  for that client row on that account.\<close>

theorem replay_ends_grant:
  assumes inv: "oauth_inv e0 d" and gt: "form_get r ''grant_type'' = ''refresh_token''"
    and c: "authenticateClient e r d0 = Inr c" and form: "rq_form r \<noteq> None"
      "validResource base (form_get r ''resource'')"
    and seen: "find_grant e r c d0 = Inr ag"
    and t: "t \<in> set (refresh_tokens d)" "rt_hash t = go_hash e (form_get r ''refresh_token'')"
      "rt_client t = oc_id c" "rt_revoked t \<noteq> None"
    and up: "e_fail e = no_faults"
    and canon: "e_uuid e (rt_account t) = Some (rt_account t)" "e_uuid e (rt_gateway t) = Some (rt_gateway t)"
    and later: "(grant_step e0 H)\<^sup>*\<^sup>* (snd (token e base i rtok rref r d0 d)) d2"
  shows "rs_status (fst (token e base i rtok rref r d0 d)) \<noteq> 200
    \<and> \<not> (\<exists>p. AuthenticateBearer e' bearer d2 = Inr p \<and> p_account p = rt_account t \<and> p_client p = rt_gateway t)"
proof -
  let ?h = "go_hash e (form_get r ''refresh_token'')"
  obtain a0 g0 where ag: "ag = (a0, g0)" by (cases ag)
  have f: "find (\<lambda>t. rt_hash t = ?h \<and> rt_client t = oc_id c) (refresh_tokens d) = Some t"
  proof -
    obtain u where u: "find (\<lambda>t. rt_hash t = ?h \<and> rt_client t = oc_id c) (refresh_tokens d) = Some u"
      using t by (cases "find (\<lambda>t. rt_hash t = ?h \<and> rt_client t = oc_id c) (refresh_tokens d)") (auto simp: find_None_iff)
    have "u = t" by (rule key_unique [OF oauth_invD(6) [OF inv]]) (use find_in_set [OF u] t in simp_all)
    then show ?thesis using u by simp
  qed
  have T: "token e base i rtok rref r d0 d = replay_revoke e t d"
    using gt c form seen ag f t(4) up
    by (auto simp: token_def LockGrant_def redeem_refresh_def Let_def split: prod.split)
  have st: "rs_status (fst (token e base i rtok rref r d0 d)) \<noteq> 200" unfolding T by (rule replay_status)
  obtain d1 where rv: "RevokeGrant e (rt_account t) (rt_gateway t) d = (Inr (), d1)"
    using RevokeGrant_no_faults [OF up canon] by blast
  have "rt_account t \<in> acc_id ` set (accounts d)" "rt_gateway t \<in> gc_id ` set (clients d)"
    using oauth_invD(8) [OF inv t(1)] grant_ok_known by (auto simp: refresh_ok_def)
  then have cl: "closed_grant (rt_account t) (rt_gateway t) d1" using RevokeGrant_ends [OF inv _ _ canon rv] by blast
  have "closed_grant (rt_account t) (rt_gateway t) (snd (token e base i rtok rref r d0 d))"
    unfolding T using rv up cl Write_closed by (auto simp: replay_revoke_def split: sum.split prod.split) (metis snd_conv)+
  then show ?thesis using st closed_grant_final [OF token_inv [OF inv] _ later] by blast
qed

theorem replay_ends_grant_witness:
  "\<not> (\<exists>p. AuthenticateBearer demo_env demo_bearer (snd (token demo_env ''https://tg.example'' ''t10'' ''random'' ''other''
        (demo_refresh_form ''used'') demo_oauth demo_oauth)) = Inr p \<and> p_account p = ''a1'' \<and> p_client p = ''c1'')"
proof -
  let ?r = "demo_refresh_form ''used''" and ?t = "demo_rt ''used'' (Some 3)"
  have gt: "form_get ?r ''grant_type'' = ''refresh_token''" and f: "rq_form ?r \<noteq> None"
    and rs: "form_get ?r ''resource'' = ''https://tg.example/mcp''"
    by (simp_all add: demo_forms form_get_def q_get_def)
  have vr: "validResource ''https://tg.example'' (form_get ?r ''resource'')" unfolding rs by (rule demo_resource)
  have fg: "find_grant demo_env ?r demo_oc demo_oauth = Inr (''a1'', ''c1'')"
    by (simp add: find_grant_def demo_forms form_get_def q_get_def demo_oauth_def demo_rt_def demo_oc_def go_hash_def
        demo_env_sel)
  have t: "?t \<in> set (refresh_tokens demo_oauth)" "rt_hash ?t = go_hash demo_env (form_get ?r ''refresh_token'')"
    "rt_client ?t = oc_id demo_oc" "rt_revoked ?t \<noteq> None"
    by (simp_all add: demo_oauth_def demo_rt_def demo_oc_def go_hash_def demo_env_sel demo_forms form_get_def q_get_def)
  have canon: "e_uuid demo_env (rt_account ?t) = Some (rt_account ?t)" "e_uuid demo_env (rt_gateway ?t) = Some (rt_gateway ?t)"
    by (simp_all add: demo_env_sel)
  have up: "e_fail demo_env = no_faults" by (simp add: demo_env_def)
  from replay_ends_grant [OF demo_oauth_inv gt demo_client(2) f vr fg t up canon rtranclp.rtrancl_refl]
  show ?thesis by (simp add: demo_rt_def)
qed

lemma revocable_known:
  assumes inv: "oauth_inv e0 d" and rv: "revocable e v c d = Some (a, g)"
  shows "a \<in> acc_id ` set (accounts d) \<and> g \<in> gc_id ` set (clients d)"
proof -
  have r: "a \<in> acc_id ` set (accounts d) \<and> g \<in> gc_id ` set (clients d)"
    if "t \<in> set (refresh_tokens d)" "a = rt_account t" "g = rt_gateway t" for t
    using oauth_invD(8) [OF inv that(1)] grant_ok_known that(2,3) by (auto simp: refresh_ok_def)
  have "a \<in> acc_id ` set (accounts d) \<and> g \<in> gc_id ` set (clients d)"
    if "t \<in> set (tokens d)" "a = at_account t" "g = at_client t" for t
    using oauth_invD(2) [OF inv] that by (force simp: access_inv_def token_row_ok_def)
  with r show ?thesis
    using rv by (auto simp: revocable_def Let_def split: option.splits dest!: find_in_set)
qed

lemma known_evolves:
  assumes "access_evolves d d'"
  shows "a \<in> acc_id ` set (accounts d) \<Longrightarrow> a \<in> acc_id ` set (accounts d')"
    and "g \<in> gc_id ` set (clients d) \<Longrightarrow> g \<in> gc_id ` set (clients d')"
proof -
  assume "a \<in> acc_id ` set (accounts d)"
  then show "a \<in> acc_id ` set (accounts d')"
    using assms table_evolves_mono [of same_account acc_id "accounts d" "accounts d'"]
    unfolding access_evolves_def same_account_def by (metis (no_types, lifting) imageE image_eqI)
next
  assume "g \<in> gc_id ` set (clients d)"
  then show "g \<in> gc_id ` set (clients d')"
    using assms table_evolves_mono [of client_evolves gc_id "clients d" "clients d'"]
    unfolding access_evolves_def client_evolves_def by (metis (no_types, lifting) imageE image_eqI)
qed

text \<open>C28: The revocation endpoint keeps its word: when it answers 200 to a client for an access or
  refresh token of one of its grants, as seen in an earlier state of the database, then from
  then on no bearer token acts for that grant, whatever happened in between or happens later.\<close>

theorem revocation_final:
  assumes inv: "oauth_inv e0 d0" and between: "(grant_step e0 H)\<^sup>*\<^sup>* d0 d"
    and c: "authenticateClient e r d0 = Inr c" and g: "revocable e (form_get r ''token'') c d0 = Some (a, g)"
    and canon: "e_uuid e a = Some a" "e_uuid e g = Some g"
    and ok: "rs_status (fst (revoke e r d0 d)) = 200"
    and later: "(grant_step e0 H)\<^sup>*\<^sup>* (snd (revoke e r d0 d)) d2"
  shows "\<not> (\<exists>p. AuthenticateBearer e' bearer d2 = Inr p \<and> p_account p = a \<and> p_client p = g)"
proof -
  have d: "oauth_inv e0 d" "access_evolves d0 d"
    using grant_steps_good [OF between inv] by (auto simp: access_good_def)
  have known: "a \<in> acc_id ` set (accounts d)" "g \<in> gc_id ` set (clients d)"
    using revocable_known [OF inv g] known_evolves [OF d(2)] by blast+
  obtain res d1 where rv: "RevokeGrant e a g d = (res, d1)" by (cases "RevokeGrant e a g d")
  have "\<exists>ev. res = Inr () \<and> snd (revoke e r d0 d) = snd (Write e ev d1)"
    using ok c g rv
    by (auto simp: revoke_def fail_def reply_error_def reply_def split: if_splits sum.splits prod.splits) (metis snd_conv)+
  then have "closed_grant a g (snd (revoke e r d0 d))"
    using RevokeGrant_ends [OF d(1) known canon] rv Write_closed by auto
  then show ?thesis using closed_grant_final [OF revoke_inv [OF d(1)] _ later] by blast
qed

definition demo_revoke_form :: request where
  "demo_revoke_form = demo_form ''/oauth/revoke'' [(''token'', [''live'']), (''client_id'', [''mcp''])]"

lemma demo_revocable: "revocable demo_env (form_get demo_revoke_form ''token'') demo_oc demo_oauth = Some (''a1'', ''c1'')"
  by (simp add: revocable_def demo_revoke_form_def demo_form_def form_get_def q_get_def demo_oauth_def demo_rt_def demo_oc_def
      go_hash_def demo_env_sel)

lemma demo_revoke_ok: "rs_status (fst (revoke demo_env demo_revoke_form demo_oauth demo_oauth)) = 200"
proof -
  have up: "e_fail demo_env = no_faults" by (simp add: demo_env_def)
  obtain d1 where rv: "RevokeGrant demo_env ''a1'' ''c1'' demo_oauth = (Inr (), d1)"
    using RevokeGrant_no_faults [OF up] demo_env_sel(4) by blast
  then have d1: "accounts d1 = accounts demo_oauth"
    by (auto simp: RevokeGrant_def demo_env_sel revoke_grant_stmts_def)
  let ?ev = "oauth_event ''a1'' ''oauth'' ''OAUTH_GRANT_REVOKED'' ''c1'' (JObj [])"
  have v: "validate_event ?ev = Inr ()" by code_simp
  obtain d3 where w: "Write demo_env ?ev d1 = (Inr (), d3)"
    using Write_ok [OF v up, of "''a1''" d1] d1 by (auto simp: oauth_event_def demo_oauth_def demo_db_def demo_account_def demo_env_sel)
  have "authenticateClient demo_env demo_revoke_form demo_oauth = Inr demo_oc"
    by (simp add: authenticateClient_def getClient_def demo_revoke_form_def demo_form_def form_get_def q_get_def
        demo_oauth_def demo_oc_def client_alive_def demo_defs)
  then show ?thesis
    using demo_revocable rv w
    by (simp add: revoke_def demo_env_sel LockGrant_def reply_def demo_revoke_form_def demo_form_def)
qed

theorem revocation_final_witness:
  "\<not> (\<exists>p. AuthenticateBearer demo_env demo_bearer (snd (revoke demo_env demo_revoke_form demo_oauth demo_oauth)) = Inr p
        \<and> p_account p = ''a1'' \<and> p_client p = ''c1'')"
proof -
  have c: "authenticateClient demo_env demo_revoke_form demo_oauth = Inr demo_oc"
    by (simp add: authenticateClient_def getClient_def demo_revoke_form_def demo_form_def form_get_def q_get_def
        demo_oauth_def demo_oc_def client_alive_def demo_defs)
  show ?thesis
    by (rule revocation_final [OF demo_oauth_inv rtranclp.rtrancl_refl c demo_revocable demo_env_sel(4) demo_env_sel(4)
          demo_revoke_ok rtranclp.rtrancl_refl])
qed

section \<open>Consent\<close>

lemma answered_gone:
  assumes "distinct (map or_id (oauth_requests d))" "q \<in> set (oauth_requests d)" "e_now e < or_expires q"
  shows "or_id q \<notin> or_id ` set (oauth_requests (answered e q d))"
proof
  assume "or_id q \<in> or_id ` set (oauth_requests (answered e q d))"
  then obtain x where x: "x \<in> set (oauth_requests d)" "or_id x = or_id q" "\<not> e_now e < or_expires x"
    by (auto simp: answered_def in_delete_where)
  have "x = q" by (rule key_unique [OF assms(1)]) (use x assms(2) in simp_all)
  then show False using x(3) assms(3) by simp
qed

lemma consent_tables:
  assumes "Authenticate e base r d = Inr p" "pending_request e p r d = Some q"
    and "consent_tx e gid rcode p q d = (res, d1)" "form_get r ''decision'' = ''allow''"
    and "oauth_codes (snd (consent e base gid rcode r d)) \<noteq> oauth_codes d"
  shows "oauth_codes (snd (consent e base gid rcode r d)) = oauth_codes d1
    \<and> oauth_requests (snd (consent e base gid rcode r d)) = oauth_requests d1"
proof -
  have w: "oauth_codes d2 = oauth_codes d1 \<and> oauth_requests d2 = oauth_requests d1"
    if "Write e ev d1 = (x, d2)" for ev x d2
    using audit_only(6,7) [of e ev d1] that by simp
  show ?thesis
    using assms by (auto simp: consent_def Let_def dest: w split: if_splits option.splits sum.splits prod.splits)
qed

lemma set_path_sel: "set_path p u = Some v \<Longrightarrow> u_opaque v = u_opaque u \<and> u_host v = u_host u"
  by (auto simp: set_path_def)

lemma host_not_opaque: "url_parse ip s = Some u \<Longrightarrow> u_host u \<noteq> [] \<Longrightarrow> u_opaque u = []"
  by (auto simp: url_parse_def parse_url_def parse_rest_def no_url_def set_fragment_def Let_def
      dest!: set_path_sel split: prod.splits option.splits if_splits)

text \<open>Where a printed URL points: to its scheme and host, whatever follows.\<close>

lemma url_string_origin:
  assumes "u_scheme u \<noteq> []" "u_host u \<noteq> []" "u_user u = None" "u_opaque u = []" "u_fragment u = []"
  shows "\<exists>tail. url_string u = u_scheme u @ ''://'' @ url_escape EHost (u_host u) @ tail
    \<and> (tail = [] \<or> hd tail \<in> {CHR ''/'', CHR ''?''})"
proof -
  let ?p = "escaped_path u"
  let ?t = "(if ?p \<noteq> [] \<and> hd ?p \<noteq> CHR ''/'' then ''/'' else []) @ ?p @ query_text u"
  have "url_string u = u_scheme u @ ''://'' @ url_escape EHost (u_host u) @ ?t"
    using assms by (simp add: url_string_def Let_def)
  moreover have "?t = [] \<or> hd ?t \<in> {CHR ''/'', CHR ''?''}"
    by (cases ?p) (auto simp: query_text_def)
  ultimately show ?thesis by blast
qed

text \<open>A redirect with a code: the client's address with nothing but its query changed.\<close>

definition code_redirect :: "env \<Rightarrow> string \<Rightarrow> string \<Rightarrow> oauth_request \<Rightarrow> string \<Rightarrow> bool" where
  "code_redirect e base code q loc =
     (\<exists>u qs tail. url_parse (e_addr e) (or_redirect q) = Some u \<and> loc = url_string (u\<lparr>u_raw_query := encode_query qs\<rparr>)
        \<and> loc = u_scheme u @ ''://'' @ url_escape EHost (u_host u) @ tail
        \<and> (tail = [] \<or> hd tail \<in> {CHR ''/'', CHR ''?''})
        \<and> q_get ''code'' qs = code \<and> q_get ''state'' qs = or_state q \<and> q_get ''iss'' qs = base)"

lemma consent_target_redirects:
  assumes u: "url_parse (e_addr e) (or_redirect q) = Some u" and ok: "validRedirect e (or_redirect q)"
  shows "code_redirect e base code q (consent_target base q u (''code'', code))"
proof -
  let ?qs = "q_set ''code'' code (q_set ''iss'' base (q_set ''state'' (or_state q) (parse_query (u_raw_query u))))"
  have v: "u_user u = None" "u_fragment u = []" "u_host u \<noteq> []" "u_scheme u \<noteq> []"
    using ok u by (cases "u_user u"; auto simp: validRedirect_def split: if_splits)+
  obtain tail where "url_string (u\<lparr>u_raw_query := encode_query ?qs\<rparr>) = u_scheme u @ ''://'' @ url_escape EHost (u_host u) @ tail"
      "tail = [] \<or> hd tail \<in> {CHR ''/'', CHR ''?''}"
    using url_string_origin [of "u\<lparr>u_raw_query := encode_query ?qs\<rparr>"] v host_not_opaque [OF u v(3)] by auto
  then show ?thesis
    unfolding code_redirect_def consent_target_def using u
    by (intro exI [of _ u] exI [of _ ?qs] exI [of _ tail]) (simp add: q_get_set)
qed

lemma consent_answer:
  assumes "Authenticate e base r d = Inr p" "pending_request e p r d = Some q"
    and "oauth_codes (snd (consent e base gid rcode r d)) \<noteq> oauth_codes d"
  shows "fst (consent e base gid rcode r d) = fail 503 ''temporarily_unavailable''
    \<or> (\<exists>u. url_parse (e_addr e) (or_redirect q) = Some u
        \<and> fst (consent e base gid rcode r d) = redirect_to 303 (consent_target base q u (''code'', randomToken rcode)))"
proof -
  have same: "oauth_codes d1 = oauth_codes d" if "consent_tx e gid rcode p q d = (Inl resp, d1)" for resp d1
    using consent_tx_error [OF that] by simp
  show ?thesis
    using assms by (auto simp: consent_def Let_def dest: same split: if_splits option.splits sum.splits prod.splits)
qed

text \<open>C16: A code is only ever created by its user: if a request of the consent form adds a code, a
  browser session of the code's account is signed in, the cookie and the form token both hash
  to the token of the pending request, the request comes from the gateway's own origin and
  says \<open>allow\<close> for that account; the code has the client, address, challenge and scopes of that
  request and lives five minutes; and the request is used up.  The browser is sent, with the code and the
  client's state, to the scheme and host of an address the client has registered, the one of the
  code, whose query alone is changed; if the audit entry fails, it is sent nowhere.
\<close>

theorem consent_binds:
  assumes inv: "oauth_inv e0 d" and ad: "e_addr e = e_addr e0"
    and k: "k \<in> set (oauth_codes (snd (consent e base gid rcode r d)))" "k \<notin> set (oauth_codes d)"
  shows "\<exists>p q. Authenticate e base r d = Inr p \<and> q \<in> set (oauth_requests d)
    \<and> or_user q = Some (bp_user p) \<and> or_account q = Some (bp_account p) \<and> e_now e < or_expires q
    \<and> (\<exists>ck. rq_cookie r (''tgw_oauth_'' @ take 12 (or_id q)) = Some ck \<and> go_hash e ck = or_csrf q)
    \<and> go_hash e (form_get r ''csrf'') = or_csrf q
    \<and> origin_ok base r \<and> form_get r ''decision'' = ''allow'' \<and> form_get r ''account_id'' = bp_account p
    \<and> k = consented_code e (co_gateway k) rcode p q
    \<and> or_id q \<notin> or_id ` set (oauth_requests (snd (consent e base gid rcode r d)))
    \<and> (\<exists>c \<in> set (oauth_clients d). oc_id c = co_client k \<and> redirect_ok e c (co_redirect k))
    \<and> (rs_status (fst (consent e base gid rcode r d)) = 503 \<and> rs_location (fst (consent e base gid rcode r d)) = None
       \<or> (\<exists>loc. rs_status (fst (consent e base gid rcode r d)) = 303
            \<and> rs_location (fst (consent e base gid rcode r d)) = Some loc \<and> code_redirect e base (randomToken rcode) q loc))"
proof -
  let ?R = "consent e base gid rcode r d"
  obtain p where p: "Authenticate e base r d = Inr p"
    using k by (cases "Authenticate e base r d") (auto simp: consent_def)
  obtain q where q: "pending_request e p r d = Some q"
    using k p by (cases "pending_request e p r d") (auto simp: consent_def split: if_splits)
  note Q = pending_requestD [OF q]
  have ok: "origin_ok base r" "form_get r ''decision'' = ''allow''" "form_get r ''account_id'' = bp_account p"
    using k p q by (auto simp: consent_def Let_def split: if_splits option.splits)
  obtain res d1 where tx: "consent_tx e gid rcode p q d = (res, d1)" by (cases "consent_tx e gid rcode p q d")
  have ne: "oauth_codes (snd ?R) \<noteq> oauth_codes d" using k by auto
  note R = consent_tables [OF p q tx ok(2)]
  obtain g where g: "res = Inr g"
    using consent_tx_error [of e gid rcode p q d _ d1] tx R [OF ne] ne by (cases res) auto
  obtain d2 where d2: "insert_grant_client e gid (bp_account p) (bp_user p) (or_client q)
        (answered e q (activated e q d)) = (Inr g, d2)"
    "d1 = d2\<lparr>oauth_codes := oauth_codes d2 @ [consented_code e g rcode p q]\<rparr>"
    using consent_txD tx g by blast
  obtain nm where n: "d2 = (answered e q (activated e q d))
      \<lparr>clients := clients (answered e q (activated e q d)) @ [granted_client e g (bp_user p) nm]\<rparr>"
    using insert_grant_clientD [OF d2(1)] by blast
  have k': "k = consented_code e g rcode p q"
    using k R [OF ne] d2(2) n by (auto simp: answered_def activated_def)
  then have "k = consented_code e (co_gateway k) rcode p q" by (simp add: consented_code_def)
  moreover have "or_id q \<notin> or_id ` set (oauth_requests (snd ?R))"
    using answered_gone [OF oauth_invD(4) [OF inv] Q(1,3)] R [OF ne] d2(2) n
    by (simp add: answered_def activated_def)
  moreover have reg: "\<exists>c \<in> set (oauth_clients d). oc_id c = co_client k \<and> redirect_ok e c (co_redirect k)"
    using oauth_invD(9) [OF inv Q(1)] redirect_cong(3) [OF ad] k' by (auto simp: request_ok_def consented_code_def)
  moreover have "rs_status (fst ?R) = 503 \<and> rs_location (fst ?R) = None
       \<or> (\<exists>loc. rs_status (fst ?R) = 303 \<and> rs_location (fst ?R) = Some loc \<and> code_redirect e base (randomToken rcode) q loc)"
  proof -
    have "validRedirect e (or_redirect q)" using reg k' by (auto simp: redirect_ok_def consented_code_def)
    then show ?thesis
      using consent_answer [OF p q ne] consent_target_redirects [of e q _ base "randomToken rcode"]
      by (auto simp: fail_def reply_error_def redirect_to_def reply_def)
  qed
  ultimately show ?thesis using p Q ok by blast
qed

definition demo_pending :: oauth_request where
  "demo_pending = \<lparr>or_id = ''request-id-1'', or_client = ''mcp'', or_redirect = ''https://c.example/cb'', or_state = ''s'',
     or_challenge = ''ch'', or_scopes = [''chat:read''], or_csrf = ''csrf'', or_expires = 6000000,
     or_user = Some ''u1'', or_account = Some ''a1''\<rparr>"

definition demo_consent_db :: db where
  "demo_consent_db = demo_oauth\<lparr>oauth_requests := [demo_pending],
     sessions := [\<lparr>bs_hash = demo_verifier, bs_user = ''u1'', bs_account = ''a1'', bs_expires = 9000000\<rparr>]\<rparr>"

definition demo_consent_form :: request where
  "demo_consent_form = (demo_form ''/oauth/authorize''
     [(''request_id'', [''request-id-1'']), (''csrf'', [''csrf'']), (''decision'', [''allow'']), (''account_id'', [''a1''])])
     \<lparr>rq_cookie := (\<lambda>n. if n = ''__Host-tgw_session'' then Some demo_verifier
                       else if n = ''tgw_oauth_request-id-1'' then Some ''csrf'' else None)\<rparr>"

definition demo_user :: browser_principal where
  "demo_user = \<lparr>bp_user = ''u1'', bp_account = ''a1'', bp_name = ''Telegram account'', bp_csrf = csrf demo_env demo_verifier\<rparr>"

definition demo_consented :: "response \<times> db" where
  "demo_consented = consent demo_env ''https://tg.example'' ''c2'' ''codebytes'' demo_consent_form demo_consent_db"

lemma demo_consent_inv: "oauth_inv demo_env demo_consent_db"
proof -
  have "redirect_ok demo_env demo_oc ''https://c.example/cb''" by code_simp
  moreover have "''chat:read'' \<in> set allowed_scopes" by code_simp
  ultimately have ok: "request_ok demo_env demo_oauth demo_pending"
    by (simp add: request_ok_def demo_pending_def demo_oauth_def demo_oc_id)
  have "oauth_requests demo_oauth = []" by (simp add: demo_oauth_def demo_db_def empty_db_def)
  then have "oauth_inv demo_env (demo_oauth\<lparr>oauth_requests := [demo_pending]\<rparr>)"
    using stage_request [OF demo_oauth_inv, of demo_pending] ok by simp
  then show ?thesis
    unfolding demo_consent_db_def
    by (rule stage_step) (simp_all add: access_good_cong)
qed

lemma demo_signed_in: "Authenticate demo_env ''https://tg.example'' demo_consent_form demo_consent_db = Inr demo_user"
proof -
  have "cookieName ''https://tg.example'' ''session'' = ''__Host-tgw_session''" by code_simp
  moreover have "length demo_verifier = 43" by (simp add: demo_verifier_def)
  ultimately show ?thesis
    by (simp add: Authenticate_def demo_consent_form_def live_session_def demo_consent_db_def demo_oauth_def demo_db_def
        demo_account_def demo_env_sel go_hash_def demo_user_def)
qed

lemma demo_tx: "\<exists>d1. consent_tx demo_env ''c2'' ''codebytes'' demo_user demo_pending demo_consent_db = (Inr ''c2'', d1)
    \<and> consented_code demo_env ''c2'' ''codebytes'' demo_user demo_pending \<in> set (oauth_codes d1)"
proof -
  have "randomToken ''codebytes'' \<noteq> ''code''" "client_name_ok ''Claude''" by code_simp+
  then show ?thesis
    by (simp add: consent_tx_def Let_def demo_env_sel demo_consent_db_def demo_oauth_def demo_db_def empty_db_def
        demo_pending_def demo_user_def affected_def delete_where_def update_where_def insert_grant_client_def exists_row_def
        demo_account_def insert_client_def demo_oc_def demo_code_def activate_client_def go_hash_def consented_code_def)
qed

lemma demo_pending_request:
  "pending_request demo_env demo_user demo_consent_form demo_consent_db = Some demo_pending"
  by (simp add: pending_request_def Let_def demo_env_sel demo_consent_form_def demo_form_def form_get_def q_get_def
      demo_consent_db_def demo_pending_def demo_user_def equalHash_def go_hash_def numeral_eq_Suc)

lemma demo_consented_code:
  "consented_code demo_env ''c2'' ''codebytes'' demo_user demo_pending \<in> set (oauth_codes (snd demo_consented))"
proof -
  obtain d1 where tx: "consent_tx demo_env ''c2'' ''codebytes'' demo_user demo_pending demo_consent_db = (Inr ''c2'', d1)"
    and k: "consented_code demo_env ''c2'' ''codebytes'' demo_user demo_pending \<in> set (oauth_codes d1)"
    using demo_tx by blast
  obtain u where u: "url_parse (e_addr demo_env) (or_redirect demo_pending) = Some u"
  proof -
    have "url_parse (e_addr demo_env) (or_redirect demo_pending) \<noteq> None" by code_simp
    then show thesis using that by blast
  qed
  have "origin_ok ''https://tg.example'' demo_consent_form"
    by (simp add: origin_ok_def demo_consent_form_def demo_form_def)
  moreover have "form_get demo_consent_form ''decision'' = ''allow''"
    "form_get demo_consent_form ''account_id'' = bp_account demo_user" "rq_form demo_consent_form \<noteq> None"
    "\<not> length (form_get demo_consent_form ''request_id'') < 12"
    by (simp_all add: demo_consent_form_def demo_form_def form_get_def q_get_def demo_user_def)
  ultimately have "oauth_codes (snd demo_consented) = oauth_codes d1"
    using demo_signed_in demo_pending_request tx u
    by (auto simp: demo_consented_def consent_def Let_def dest: arg_cong [where f = snd] split: sum.split prod.split)
      (metis audit_only(7) snd_conv)+
  then show ?thesis using k by simp
qed

lemma demo_answer: "rs_status (fst demo_consented) = 303"
  by code_simp

theorem consent_binds_witness:
  "\<exists>p q. Authenticate demo_env ''https://tg.example'' demo_consent_form demo_consent_db = Inr p
     \<and> q \<in> set (oauth_requests demo_consent_db) \<and> or_account q = Some (bp_account p)
     \<and> (\<exists>loc. rs_location (fst demo_consented) = Some loc \<and> code_redirect demo_env ''https://tg.example'' (randomToken ''codebytes'') q loc)"
proof -
  have "consented_code demo_env ''c2'' ''codebytes'' demo_user demo_pending \<notin> set (oauth_codes demo_consent_db)"
    by (simp add: demo_consent_db_def demo_oauth_def consented_code_def demo_code_def demo_pending_def)
  from consent_binds [OF demo_consent_inv refl demo_consented_code [unfolded demo_consented_def] this]
  show ?thesis using demo_answer unfolding demo_consented_def by auto
qed

section \<open>Registrations\<close>

lemma unused_after_prune:
  assumes d1: "oauth_clients d1 = delete_where (\<lambda>c. oc_id c \<in> set (stale e n d)) (oauth_clients d)"
    and same: "oauth_requests d1 = oauth_requests d" "oauth_codes d1 = oauth_codes d" "refresh_tokens d1 = refresh_tokens d"
    and di: "distinct (map oc_id (oauth_clients d))"
  shows "length (unused d1) \<le> n"
proof -
  let ?U = "newest_first (unused d)"
  have U: "set ?U = set (unused d)" "distinct (map oc_id (unused d))"
    using di by (auto simp: newest_first_def unused_def intro: distinct_map_filter)
  have ref: "referenced d1 = referenced d" by (simp add: referenced_def same fun_eq_iff)
  have "set (unused d1) \<subseteq> set (take n ?U)"
  proof
    fix c assume "c \<in> set (unused d1)"
    then have c: "c \<in> set (unused d)" "oc_id c \<notin> set (stale e n d)"
      by (auto simp: unused_def d1 ref in_delete_where)
    then have "c \<notin> set (drop n ?U)" by (auto simp: stale_def)
    moreover have "c \<in> set (take n ?U) \<union> set (drop n ?U)"
      using c(1) U(1) by (metis append_take_drop_id set_append)
    ultimately show "c \<in> set (take n ?U)" by blast
  qed
  then have "card (set (unused d1)) \<le> n"
    using card_length [of "take n ?U"] card_mono [of "set (take n ?U)" "set (unused d1)"] by simp
  moreover have "distinct (unused d1)"
    using di by (auto simp: unused_def d1 delete_where_def distinct_map)
  ultimately show ?thesis by (simp add: distinct_card)
qed

text \<open>Registrations stay bounded: after a registration that succeeds at most a thousand clients
  are unused (not activated, and no request, code or refresh token names them), and every
  client that was activated or is named is still there, unchanged.\<close>

theorem registrations_bounded:
  assumes inv: "oauth_inv e0 d" and ok: "rs_status (fst (register e a b r d)) = 201"
  shows "length (unused (snd (register e a b r d))) \<le> 1000 \<and> clients_kept d (snd (register e a b r d))"
proof -
  obtain g d1 c where g: "pruneRegistrations e 999 d = (Inr (), d1)" "oc_id c \<notin> oc_id ` set (oauth_clients d1)"
    "snd (register e a b r d) = d1\<lparr>oauth_clients := oauth_clients d1 @ [c]\<rparr>"
    using ok
    by (auto simp: register_def Let_def fail_def reply_error_def reply_def split: option.splits sum.splits prod.splits if_splits)
  have d1: "d1 = d\<lparr>oauth_clients := delete_where (\<lambda>c. oc_id c \<in> set (stale e 999 d)) (oauth_clients d)\<rparr>"
    using g(1) by (simp add: pruneRegistrations_def split: if_splits)
  have "length (unused d1) \<le> 999"
    by (rule unused_after_prune [of _ e _ d]) (use oauth_invD(3) [OF inv] in \<open>simp_all add: d1\<close>)
  then have l: "length (unused (snd (register e a b r d))) \<le> 1000"
    unfolding g(3) unused_def referenced_def by (simp add: filter_append)
  have k: "clients_kept d d1" unfolding d1 by (rule stage_prune(2) [OF inv])
  have "clients_kept d (snd (register e a b r d))"
    using k unfolding g(3) clients_kept_def by auto
  with l show ?thesis by simp
qed

text \<open>A registration whose name the client table would refuse (blank, or longer than 120
  characters) is accepted, but no user can ever grant it anything: the consent transaction
  always fails and changes nothing.\<close>

theorem unusable_name_never_consents:
  assumes "distinct (map oc_id (oauth_clients d))" "c \<in> set (oauth_clients d)" "or_client q = oc_id c"
    and "\<not> client_name_ok (oc_name c)"
  shows "\<exists>resp. consent_tx e gid rcode p q d = (Inl resp, d)"
proof (cases "consent_tx e gid rcode p q d")
  case (Pair res d')
  show ?thesis
  proof (cases res)
    case (Inl resp)
    then show ?thesis using Pair consent_tx_error [of e gid rcode p q d resp d'] by simp
  next
    case (Inr g)
    obtain d2 where "insert_grant_client e gid (bp_account p) (bp_user p) (or_client q)
        (answered e q (activated e q d)) = (Inr g, d2)"
      using consent_txD Pair Inr by blast
    then obtain x where x: "find (\<lambda>c. oc_id c = or_client q) (oauth_clients (answered e q (activated e q d))) = Some x"
      "client_name_ok (oc_name x)"
      using insert_grant_clientD by blast
    then obtain y where y: "y \<in> set (oauth_clients d)" "oc_id y = or_client q" "oc_name y = oc_name x"
      using find_in_set [OF x(1)] by (auto simp: answered_def activated_def in_update_where activate_client_def)
    have "y = c" by (rule key_unique [OF assms(1)]) (use y assms in simp_all)
    then show ?thesis using x(2) y(3) assms(4) by simp
  qed
qed

definition long_named :: registration where
  "long_named = \<lparr>rg_name = replicate 121 (CHR ''n''), rg_redirects = [''https://c.example/cb''], rg_method = [],
     rg_grants = [], rg_responses = []\<rparr>"

theorem unusable_name_never_consents_witness:
  "registration_error demo_env long_named = None \<and>
   (\<exists>resp. consent_tx demo_env ''c2'' ''codebytes'' demo_user (demo_pending\<lparr>or_client := randomToken ''id''\<rparr>)
      (demo_oauth\<lparr>oauth_clients := [registered_client demo_env long_named ''id'' ''secret'']\<rparr>)
     = (Inl resp, demo_oauth\<lparr>oauth_clients := [registered_client demo_env long_named ''id'' ''secret'']\<rparr>))"
proof
  have "validRedirect demo_env ''https://c.example/cb''" by code_simp
  then show "registration_error demo_env long_named = None"
    by (simp add: registration_error_def long_named_def)
  let ?c = "registered_client demo_env long_named ''id'' ''secret''"
  let ?d = "demo_oauth\<lparr>oauth_clients := [?c]\<rparr>"
  have "\<not> client_name_ok (replicate 121 (CHR ''n''))" by code_simp
  then have n: "\<not> client_name_ok (oc_name ?c)" by (simp add: registered_client_def long_named_def)
  show "\<exists>resp. consent_tx demo_env ''c2'' ''codebytes'' demo_user (demo_pending\<lparr>or_client := randomToken ''id''\<rparr>) ?d = (Inl resp, ?d)"
    by (rule unusable_name_never_consents [OF _ _ _ n]) (simp_all add: registered_client_def Let_def)
qed

definition demo_body :: string where
  "demo_body = ''{'' @ [CHR 0x22] @ ''redirect_uris'' @ [CHR 0x22] @ '':['' @ [CHR 0x22] @ ''https://c.example/cb'' @ [CHR 0x22] @ '']}''"

definition demo_register :: request where
  "demo_register = (demo_form ''/oauth/register'' [])\<lparr>rq_body := demo_body\<rparr>"

lemma demo_skip: "skip_ws (c # s) = (if json_space c then skip_ws s else c # s)"
  by (simp add: skip_ws_def)

lemma demo_nonspace:
  "\<not> json_space (CHR ''{'')" "\<not> json_space (CHR ''}'')" "\<not> json_space (CHR ''['')" "\<not> json_space (CHR '']'')"
  "\<not> json_space (CHR '':'')" "\<not> json_space (CHR 0x22)"
  by code_simp+

lemma demo_parse: "parse_value (Suc (Suc (Suc (Suc (Suc (Suc (Suc n))))))) demo_body
   = Some (JObj [(''redirect_uris'', JArr [JStr ''https://c.example/cb''])],[])"
proof -
  have pk: "list_all (\<lambda>c. 32 \<le> byte c \<and> byte c < 128 \<and> c \<noteq> CHR 0x22 \<and> c \<noteq> CHR 0x5C) ''redirect_uris''"
    and pv: "list_all (\<lambda>c. 32 \<le> byte c \<and> byte c < 128 \<and> c \<noteq> CHR 0x22 \<and> c \<noteq> CHR 0x5C) ''https://c.example/cb''"
    by code_simp+
  have k: "str_body n (''redirect_uris'' @ CHR 0x22 # s) = Some (''redirect_uris'', s)" if "13 < n" for n s
    by (rule str_body_plain [OF pk]) (use that in simp)
  have v: "str_body n (''https://c.example/cb'' @ CHR 0x22 # s) = Some (''https://c.example/cb'', s)" if "20 < n" for n s
    by (rule str_body_plain [OF pv]) (use that in simp)
  note k = k [simplified] and v = v [simplified]
  let ?v = "CHR 0x22 # ''https://c.example/cb'' @ [CHR 0x22] @ '']}''"
  have a: "parse_value (Suc (Suc n)) ?v = Some (JStr ''https://c.example/cb'', '']}'')" for n
    by (simp add: demo_skip demo_nonspace v del: str_body.simps)
  have b: "parse_value (Suc (Suc (Suc (Suc n)))) (CHR ''['' # ?v) = Some (JArr [JStr ''https://c.example/cb''], ''}'')" for n
    using a[of n] by (simp add: demo_skip demo_nonspace del: str_body.simps)
  have c: "parse_member (Suc (Suc (Suc (Suc (Suc n))))) (CHR 0x22 # ''redirect_uris'' @ [CHR 0x22] @ '':'' @ (CHR ''['' # ?v)) = Some ((''redirect_uris'', JArr [JStr ''https://c.example/cb'']), ''}'')" for n
    using b[of n] by (simp add: demo_skip demo_nonspace k del: str_body.simps parse_value.simps)
  show ?thesis unfolding demo_body_def using c[of n]  by (simp add: demo_skip demo_nonspace del: str_body.simps parse_member.simps)
qed

lemma demo_decode: "decode_body 32768 demo_body = Some (JObj [(''redirect_uris'', JArr [JStr ''https://c.example/cb''])])"
proof -
  have t: "take 32768 demo_body = demo_body" by (simp add: demo_body_def)
  obtain n where "json_fuel demo_body = Suc (Suc (Suc (Suc (Suc (Suc (Suc n))))))"
  proof
    show "json_fuel demo_body = Suc (Suc (Suc (Suc (Suc (Suc (Suc (3 * length demo_body - 4)))))))"
       by (simp add: json_fuel_def demo_body_def)
  qed
  then show ?thesis using demo_parse by (simp add: decode_body_def t)
qed

lemma demo_fields:
  "struct_strs ''redirect_uris'' [(''redirect_uris'', JArr [JStr ''https://c.example/cb''])] = Some [''https://c.example/cb'']"
  "struct_strs ''grant_types'' [(''redirect_uris'', JArr [JStr ''https://c.example/cb''])] = Some []"
  "struct_strs ''response_types'' [(''redirect_uris'', JArr [JStr ''https://c.example/cb''])] = Some []"
  "struct_field ''client_name'' dec_str [] [(''redirect_uris'', JArr [JStr ''https://c.example/cb''])] = Some []"
  "struct_field ''token_endpoint_auth_method'' dec_str [] [(''redirect_uris'', JArr [JStr ''https://c.example/cb''])] = Some []"
  by code_simp+

lemma demo_read: "read_registration demo_register = Some (long_named\<lparr>rg_name := []\<rparr>)"
  by (simp add: read_registration_def demo_register_def demo_decode demo_fields long_named_def)

theorem registrations_bounded_witness:
  "length (unused (snd (register demo_env ''id'' ''secret'' demo_register demo_oauth))) \<le> 1000"
proof -
  have "validRedirect demo_env ''https://c.example/cb''" by code_simp
  then have e: "registration_error demo_env (long_named\<lparr>rg_name := []\<rparr>) = None"
    by (simp add: registration_error_def long_named_def)
  have new: "randomToken ''id'' \<noteq> ''mcp''" by code_simp
  have pg: "pg_text ''https://c.example/cb''" "pg_text ''MCP client''" by code_simp+
  let ?c = "registered_client demo_env (long_named\<lparr>rg_name := []\<rparr>) ''id'' ''secret''"
  have c: "oc_id ?c = randomToken ''id''" "oc_name ?c = ''MCP client''" "oc_redirects ?c = [''https://c.example/cb'']"
    by (simp_all add: registered_client_def long_named_def Let_def)
  obtain d1 where d1: "pruneRegistrations demo_env 999 demo_oauth = (Inr (), d1)"
      "set (oauth_clients d1) \<subseteq> {demo_oc}"
    by (simp add: pruneRegistrations_def demo_env_sel demo_oauth_def delete_where_def)
  then have "oc_id ?c \<notin> oc_id ` set (oauth_clients d1)" using new by (auto simp: c demo_oc_def)
  then have "rs_status (fst (register demo_env ''id'' ''secret'' demo_register demo_oauth)) = 201"
    using demo_read e pg d1(1)
    by (simp add: register_def Let_def demo_env_sel registration_reply_def reply_def c)
  from registrations_bounded [OF demo_oauth_inv this] show ?thesis by blast
qed

end
