(* ===== verification/SyncState.thy ===== *)
theory SyncState
  imports Lease Accounts
begin

text \<open>
  \<open>internal/syncstate/repository.go\<close>: the per-scope synchronisation state and its worker
  lease.  It interprets the lease contract.
\<close>

definition zero_uuid :: uuid where
  "zero_uuid = ''00000000-0000-0000-0000-000000000000''"

record sync_lease =
  sl_state :: uuid
  sl_owner :: string
  sl_token :: uuid
  sl_gen :: int
  sl_expires :: time

text \<open>The unique index on the scope: account, chat (or the zero uuid) and kind.\<close>

definition scope_of :: "sync_state \<Rightarrow> uuid \<times> uuid \<times> string" where
  "scope_of s = (ss_account s, (case ss_chat s of None \<Rightarrow> zero_uuid | Some c \<Rightarrow> c), ss_type s)"

definition getByScope ::
    "env \<Rightarrow> string \<Rightarrow> string option \<Rightarrow> string \<Rightarrow> db \<Rightarrow> sync_state result" where
  "getByScope e account_id chat ty d =
     (if e_fail e ''getByScope'' then Inl (Wrapped ''get sync state'' (DbErr ''select''))
      else (case (e_uuid e account_id, (case chat of None \<Rightarrow> Some None | Some c \<Rightarrow> map_option Some (e_uuid e c))) of
          (Some a, Some c) \<Rightarrow>
            (case find (\<lambda>s. scope_of s = (a, (case c of None \<Rightarrow> zero_uuid | Some x \<Rightarrow> x), ty))
                    (sync_states d) of
               None \<Rightarrow> Inl NoRows
             | Some s \<Rightarrow> Inr s)
        | _ \<Rightarrow> Inl (Wrapped ''get sync state'' (DbErr ''invalid uuid''))))"

definition new_state :: "env \<Rightarrow> uuid \<Rightarrow> uuid \<Rightarrow> uuid option \<Rightarrow> string \<Rightarrow> sync_state" where
  "new_state e i a c ty =
     \<lparr>ss_id = i, ss_account = a, ss_chat = c, ss_type = ty, ss_status = SPending,
      ss_cursor = JObj [], ss_oldest = None, ss_newest = None, ss_last_synced = None,
      ss_next = None, ss_retry = 0, ss_error = None, ss_owner = None, ss_token = None,
      ss_expires = None, ss_generation = 0, ss_updated = e_now e\<rparr>"

text \<open>\<open>INSERT ... ON CONFLICT DO NOTHING\<close>: a duplicate id counts as a conflict, too.\<close>

definition insert_state ::
    "env \<Rightarrow> uuid \<Rightarrow> string \<Rightarrow> string option \<Rightarrow> string \<Rightarrow> db \<Rightarrow> unit result \<times> db" where
  "insert_state e i account_id chat ty d =
     (if e_fail e ''Ensure'' then (Inl (DbErr ''insert''), d)
      else (case (e_uuid e account_id, (case chat of None \<Rightarrow> Some None | Some c \<Rightarrow> map_option Some (e_uuid e c))) of
          (Some a, Some c) \<Rightarrow>
            (let s = new_state e i a c ty in
             if i \<in> ss_id ` set (sync_states d) \<or> scope_of s \<in> scope_of ` set (sync_states d)
               then (Inr (), d)
             else if a \<notin> acc_id ` set (accounts d)
                  \<or> (case c of None \<Rightarrow> False
                     | Some x \<Rightarrow> \<not> exists_row (\<lambda>ch. ch_id ch = x \<and> ch_account ch = a) (chats d))
               then (Inl (DbErr ''foreign key''), d)
             else (Inr (), d\<lparr>sync_states := sync_states d @ [s]\<rparr>))
        | _ \<Rightarrow> (Inl (DbErr ''invalid uuid''), d)))"

definition Ensure ::
    "env \<Rightarrow> uuid \<Rightarrow> string \<Rightarrow> string option \<Rightarrow> string \<Rightarrow> db \<Rightarrow> sync_state result \<times> db" where
  [handler_defs]: "Ensure e i account_id chat ty d =
     (let account_id = trim_space account_id; ty = trim_space ty in
      if account_id = [] \<or> ty = [] then (Inl (Msg ''account id and sync type are required''), d)
      else if (case chat of None \<Rightarrow> False | Some c \<Rightarrow> blank c)
        then (Inl (Msg ''chat id cannot be empty''), d)
      else (let chat = map_option trim_space chat in
        (case insert_state e i account_id chat ty d of
           (Inl err, d') \<Rightarrow> (Inl (Wrapped ''ensure sync state'' err), d')
         | (Inr _, d') \<Rightarrow> (getByScope e account_id chat ty d', d'))))"

definition state_free :: "time \<Rightarrow> sync_state \<Rightarrow> bool" where
  "state_free now s = (case ss_expires s of None \<Rightarrow> True | Some x \<Rightarrow> x \<le> now)"

definition millis :: "duration \<Rightarrow> time" where  \<comment> \<open>Milliseconds(), as microseconds\<close>
  "millis d = d div 1000000 * 1000"

definition acquire_row :: "time \<Rightarrow> string \<Rightarrow> uuid \<Rightarrow> time \<Rightarrow> sync_state \<Rightarrow> sync_state" where
  "acquire_row now w t x s =
     s\<lparr>ss_owner := Some w, ss_token := Some t, ss_expires := Some x,
       ss_generation := ss_generation s + 1, ss_status := SRunning, ss_error := None,
       ss_updated := now\<rparr>"

text \<open>\<open>Acquire\<close>; \<open>t\<close> is the uuid the server generates for the token.\<close>

definition Acquire ::
    "env \<Rightarrow> uuid \<Rightarrow> string \<Rightarrow> string \<Rightarrow> duration \<Rightarrow> db \<Rightarrow> sync_lease option result \<times> db" where
  [handler_defs]: "Acquire e t state_id w ttl d =
     (let state_id = trim_space state_id; w = trim_space w in
      if state_id = [] \<or> w = [] then (Inl (Msg ''state id and lease owner are required''), d)
      else if ttl \<le> 0 then (Inl (Msg ''lease ttl must be positive''), d)
      else if e_fail e ''syncstate.Acquire''
        then (Inl (Wrapped ''acquire sync state lease'' (DbErr ''update'')), d)
      else (case e_uuid e state_id of
          None \<Rightarrow> (Inl (Wrapped ''acquire sync state lease'' (DbErr ''invalid uuid'')), d)
        | Some i \<Rightarrow>
            (let p = (\<lambda>s. ss_id s = i \<and> state_free (e_now e) s); x = e_now e + millis ttl
             in (case find p (sync_states d) of
                   None \<Rightarrow> (Inr None, d)
                 | Some s \<Rightarrow>
                     (Inr (Some \<lparr>sl_state = i, sl_owner = w, sl_token = t,
                                 sl_gen = ss_generation s + 1, sl_expires = x\<rparr>),
                      d\<lparr>sync_states := update_where p (acquire_row (e_now e) w t x)
                                        (sync_states d)\<rparr>)))))"

definition holds :: "sync_lease \<Rightarrow> sync_state \<Rightarrow> bool" where
  "holds l s = (ss_id s = sl_state l \<and> ss_owner s = Some (sl_owner l)
              \<and> ss_token s = Some (sl_token l) \<and> ss_generation s = sl_gen l)"

text \<open>The three updates made under a lease: zero rows means the lease was lost.  The lease
  came from \<open>Acquire\<close>, so its ids are in the server's own spelling.\<close>

definition lease_exec ::
    "env \<Rightarrow> string \<Rightarrow> string \<Rightarrow> (sync_state \<Rightarrow> bool) \<Rightarrow> (sync_state \<Rightarrow> sync_state) \<Rightarrow> db
       \<Rightarrow> unit result \<times> db" where
  "lease_exec e label what p f d =
     (if e_fail e label then (Inl (Wrapped what (DbErr label)), d)
      else if affected p (sync_states d) = 0 then (Inl (Msg ''sync state lease lost''), d)
      else (Inr (), d\<lparr>sync_states := update_where p f (sync_states d)\<rparr>))"

definition progress_row ::
    "env \<Rightarrow> json \<Rightarrow> int option \<Rightarrow> int option \<Rightarrow> sync_state \<Rightarrow> sync_state" where
  "progress_row e cur oldest newest s =
     s\<lparr>ss_cursor := e_jsonb e cur, ss_oldest := sql_least oldest (ss_oldest s),
       ss_newest := sql_greatest newest (ss_newest s), ss_last_synced := Some (e_now e),
       ss_updated := e_now e\<rparr>"

definition Progress ::
    "env \<Rightarrow> sync_lease \<Rightarrow> json option \<Rightarrow> int option \<Rightarrow> int option \<Rightarrow> db \<Rightarrow> unit result \<times> db" where
  [handler_defs]: "Progress e l cur oldest newest d =
     (let cur = (case cur of None \<Rightarrow> JObj [] | Some j \<Rightarrow> j) in
      lease_exec e ''Progress'' ''update sync progress''
        (\<lambda>s. holds l s \<and> (case ss_expires s of None \<Rightarrow> False | Some x \<Rightarrow> e_now e < x))
        (progress_row e cur oldest newest) d)"

definition complete_row :: "time \<Rightarrow> sync_state \<Rightarrow> sync_state" where
  "complete_row now s =
     s\<lparr>ss_status := SCompleted, ss_last_synced := Some now, ss_next := None, ss_retry := 0,
       ss_error := None, ss_owner := None, ss_token := None, ss_expires := None,
       ss_updated := now\<rparr>"

definition Complete :: "env \<Rightarrow> sync_lease \<Rightarrow> db \<Rightarrow> unit result \<times> db" where
  [handler_defs]: "Complete e l d =
     lease_exec e ''Complete'' ''complete sync state'' (holds l) (complete_row (e_now e)) d"

definition fail_row :: "time \<Rightarrow> string \<Rightarrow> duration \<Rightarrow> sync_state \<Rightarrow> sync_state" where
  "fail_row now message retry_after s =
     s\<lparr>ss_status := SFailed, ss_retry := ss_retry s + 1, ss_error := Some message,
       ss_next := Some (now + millis retry_after), ss_owner := None, ss_token := None,
       ss_expires := None, ss_updated := now\<rparr>"

text \<open>\<open>Fail\<close>; \<open>cause\<close> is the error's text.  Cutting it after 4000 bytes can leave text the
  server rejects.\<close>

definition fail_message :: "string option \<Rightarrow> string" where
  "fail_message cause =
     (let message = (case cause of None \<Rightarrow> ''sync failed'' | Some c \<Rightarrow> c)
      in if 4000 < length message then take 4000 message else message)"

definition Fail :: "env \<Rightarrow> sync_lease \<Rightarrow> string option \<Rightarrow> duration \<Rightarrow> db \<Rightarrow> unit result \<times> db" where
  [handler_defs]: "Fail e l cause retry_after d =
     (let message = fail_message cause;
          retry_after = (if retry_after < 0 then 0 else retry_after)
      in if \<not> pg_text message
           then (Inl (Wrapped ''fail sync state'' (DbErr ''invalid byte sequence'')), d)
         else lease_exec e ''Fail'' ''fail sync state'' (holds l)
                (fail_row (e_now e) message retry_after) d)"

section \<open>The lease contract\<close>

definition sync_view :: "sync_state \<Rightarrow> lease_view" where
  "sync_view s = \<lparr>lv_owner = ss_owner s, lv_token = ss_token s, lv_expires = ss_expires s,
                  lv_gen = ss_generation s\<rparr>"

inductive sync_step :: "sync_state list \<Rightarrow> sync_state list \<Rightarrow> bool" where
  ensure: "sync_step (sync_states d) (sync_states (snd (Ensure e i a c ty d)))"
| acquire: "sync_step (sync_states d) (sync_states (snd (Acquire e t i w ttl d)))"
| progress: "sync_step (sync_states d) (sync_states (snd (Progress e l cur o1 n1 d)))"
| complete: "sync_step (sync_states d) (sync_states (snd (Complete e l d)))"
| fail: "sync_step (sync_states d) (sync_states (snd (Fail e l cause ra d)))"

text \<open>What each operation can do to the table.\<close>

definition lease_update :: "sync_state list \<Rightarrow> sync_state list \<Rightarrow> bool" where
  "lease_update rs rs' =
     (\<exists>us ns. rs' = us @ ns
        \<and> list_all2 (\<lambda>s s'. ss_id s' = ss_id s \<and> lease_spec (sync_view s) (sync_view s')) rs us
        \<and> (distinct (map ss_id rs) \<longrightarrow> distinct (map ss_id (us @ ns))))"

lemma lease_update_refl [simp]: "lease_update rs rs"
  unfolding lease_update_def
  by (rule exI [of _ rs], rule exI [of _ "[]"]) (simp add: list_all2_same lease_spec.idle)

lemma lease_update_append: "ss_id n \<notin> ss_id ` set rs \<Longrightarrow> lease_update rs (rs @ [n])"
  unfolding lease_update_def
  by (rule exI [of _ rs], rule exI [of _ "[n]"]) (simp add: list_all2_same lease_spec.idle)

lemma lease_update_where:
  assumes "\<And>s. p s \<Longrightarrow> ss_id (f s) = ss_id s \<and> lease_spec (sync_view s) (sync_view (f s))"
  shows "lease_update rs (update_where p f rs)"
proof -
  have "map ss_id (update_where p f rs) = map ss_id rs"
    by (rule map_key_update_where) (use assms in simp)
  moreover have "list_all2 (\<lambda>s s'. ss_id s' = ss_id s \<and> lease_spec (sync_view s) (sync_view s')) rs
      (update_where p f rs)"
    by (rule list_all2_update_where) (use assms lease_spec.idle in auto)
  ultimately show ?thesis
    unfolding lease_update_def
    by (intro exI [of _ "update_where p f rs"] exI [of _ "[] :: sync_state list"]) simp
qed

lemma lease_exec_update:
  assumes "\<And>s. p s \<Longrightarrow> ss_id (f s) = ss_id s \<and> lease_spec (sync_view s) (sync_view (f s))"
  shows "lease_update (sync_states d) (sync_states (snd (lease_exec e lab what p f d)))"
  using lease_update_where [of p f, OF assms] by (simp add: lease_exec_def)

lemma row_ids [simp]:
  "ss_id (acquire_row now w t x s) = ss_id s" "ss_id (progress_row e c o1 n1 s) = ss_id s"
  "ss_id (complete_row now s) = ss_id s" "ss_id (fail_row now m ra s) = ss_id s"
  by (simp_all add: acquire_row_def progress_row_def complete_row_def fail_row_def)

lemma acquire_spec:
  "state_free now s \<Longrightarrow> lease_spec (sync_view s) (sync_view (acquire_row now w t x s))"
  using lease_spec.take [of now "sync_view s" w t x]
  by (simp add: sync_view_def acquire_row_def state_free_def lv_free_def)

lemma release_spec:
  assumes "holds l s"
  shows "lease_spec (sync_view s) (sync_view (complete_row now s))"
    and "lease_spec (sync_view s) (sync_view (fail_row now m ra s))"
  using lease_spec.release [of "sl_owner l" "sl_token l" "sl_gen l" "sync_view s"] assms
  by (simp_all add: sync_view_def complete_row_def fail_row_def lv_held_def holds_def)

lemma sync_step_update: "sync_step rs rs' \<Longrightarrow> lease_update rs rs'"
proof (induction rule: sync_step.induct)
  case (ensure d e i a c ty)
  show ?case
    by (auto simp: Ensure_def insert_state_def Let_def new_state_def lease_update_append
             split: option.split prod.split sum.split)
next
  case (acquire d e t i w ttl)
  show ?case
    by (auto simp: Acquire_def Let_def acquire_spec split: option.split
             intro!: lease_update_where)
next
  case (progress d e l cur o1 n1)
  have "sync_view (progress_row e c o1 n1 s) = sync_view s" for c s
    by (simp add: sync_view_def progress_row_def)
  then show ?case
    unfolding Progress_def Let_def
    by (intro lease_exec_update) (simp add: lease_spec.idle)
next
  case (complete d e l)
  show ?case
    unfolding Complete_def
    by (intro lease_exec_update conjI release_spec(1)) simp_all
next
  case (fail d e l cause ra)
  have "lease_update (sync_states d) (sync_states (snd (lease_exec e ''Fail'' ''fail sync state''
      (holds l) (fail_row (e_now e) m r) d)))" for m r
    by (intro lease_exec_update conjI release_spec(2)) simp_all
  then show ?case by (simp add: Fail_def Let_def)
qed

interpretation sync_lease: lease_table ss_id sync_view sync_step
proof
  fix rs rs' :: "sync_state list"
  assume "sync_step rs rs'"
  then obtain us ns where u: "rs' = us @ ns"
    "list_all2 (\<lambda>s s'. ss_id s' = ss_id s \<and> lease_spec (sync_view s) (sync_view s')) rs us"
    using sync_step_update unfolding lease_update_def by blast
  have "map ss_id us = map ss_id rs"
    using u(2) by (induction rule: list_all2_induct) simp_all
  then show "\<exists>ns. map ss_id rs' = map ss_id rs @ ns" using u(1) by simp
  show "lease_spec (sync_view (rs ! i)) (sync_view (rs' ! i))" if "i < length rs" for i
    using u that by (simp add: list_all2_conv_all_nth nth_append)
qed

section \<open>Fencing\<close>

lemma sync_steps_distinct:
  "sync_step\<^sup>*\<^sup>* rs rs' \<Longrightarrow> distinct (map ss_id rs) \<Longrightarrow> distinct (map ss_id rs')"
proof (induction rule: rtranclp_induct)
  case (step ys zs)
  then show ?case using sync_step_update [OF step.hyps(2)] by (auto simp: lease_update_def)
qed

lemma sync_AcquireD:
  assumes "Acquire e t i w ttl d = (Inr (Some l), d1)"
  shows "\<exists>s. s \<in> set (sync_states d) \<and> ss_id s = sl_state l \<and> state_free (e_now e) s
    \<and> sl_gen l = ss_generation s + 1
    \<and> d1 = d\<lparr>sync_states := update_where (\<lambda>s. ss_id s = sl_state l \<and> state_free (e_now e) s)
               (acquire_row (e_now e) (sl_owner l) (sl_token l) (sl_expires l)) (sync_states d)\<rparr>"
proof -
  obtain j where j: "e_uuid e (trim_space i) = Some j"
    using assms by (auto simp: Acquire_def Let_def split: if_splits option.splits)
  obtain s where s: "find (\<lambda>s. ss_id s = j \<and> state_free (e_now e) s) (sync_states d) = Some s"
    using assms j by (auto simp: Acquire_def Let_def split: if_splits option.splits)
  show ?thesis
    using assms j s find_in_set [OF s]
    by (intro exI [of _ s]) (auto simp: Acquire_def Let_def split: if_splits)
qed

lemma lease_exec_lost:
  assumes "\<forall>s \<in> set (sync_states d). \<not> p s" and "\<not> e_fail e lab"
  shows "lease_exec e lab what p f d = (Inl (Msg ''sync state lease lost''), d)"
  using assms by (auto simp: lease_exec_def exists_row_def)

text \<open>C19: A synchronisation lease is exclusive and fenced: it is granted only when no
  unexpired lease is held, and once the scope has been leased again, every write under the
  old lease fails and changes nothing, for ever.\<close>

theorem sync_lease_fencing:
  assumes ids: "distinct (map ss_id (sync_states d))"
    and first: "Acquire e t i w ttl d = (Inr (Some l), d1)"
    and between: "sync_step\<^sup>*\<^sup>* (sync_states d1) (sync_states d2)"
    and second: "Acquire e2 t2 i2 w2 ttl2 d2 = (Inr (Some l2), d3)" "sl_state l2 = sl_state l"
    and later: "sync_step\<^sup>*\<^sup>* (sync_states d3) (sync_states d4)"
    and up: "\<not> e_fail e' ''Progress''" "\<not> e_fail e' ''Complete''" "\<not> e_fail e' ''Fail''"
      "pg_text (fail_message cause)"
  shows "Progress e' l cur o1 n1 d4 = (Inl (Msg ''sync state lease lost''), d4)
    \<and> Complete e' l d4 = (Inl (Msg ''sync state lease lost''), d4)
    \<and> Fail e' l cause ra d4 = (Inl (Msg ''sync state lease lost''), d4)
    \<and> (\<exists>s \<in> set (sync_states d2). ss_id s = sl_state l \<and> state_free (e_now e2) s)"
proof -
  let ?R = sync_states
  obtain s where s: "s \<in> set (?R d)" "ss_id s = sl_state l" "sl_gen l = ss_generation s + 1"
      "state_free (e_now e) s"
    and d1: "?R d1 = update_where (\<lambda>s. ss_id s = sl_state l \<and> state_free (e_now e) s)
               (acquire_row (e_now e) (sl_owner l) (sl_token l) (sl_expires l)) (?R d)"
    using sync_AcquireD [OF first] by force
  obtain k where k: "k < length (?R d)" "?R d ! k = s"
    using s(1) by (auto simp: in_set_conv_nth)
  have k1: "k < length (?R d1)" "lv_gen (sync_view (?R d1 ! k)) = sl_gen l"
    "ss_id (?R d1 ! k) = sl_state l"
    using k s by (simp_all add: d1 update_where_nth sync_view_def acquire_row_def)
  have dist1: "distinct (map ss_id (?R d1))"
    using ids map_key_update_where [of _ ss_id] by (simp add: d1 map_key_update_where)
  have k2: "k < length (?R d2)" "sl_gen l \<le> lv_gen (sync_view (?R d2 ! k))"
    "ss_id (?R d2 ! k) = sl_state l"
    using sync_lease.steps_view [OF between k1(1)] sync_lease.spec_steps_gen k1(2,3)
      sync_lease.key_stable [OF between k1(1)] by fastforce+
  have dist2: "distinct (map ss_id (?R d2))" by (rule sync_steps_distinct [OF between dist1])
  obtain s2 where s2: "s2 \<in> set (?R d2)" "ss_id s2 = sl_state l" "state_free (e_now e2) s2"
    and d3: "?R d3 = update_where (\<lambda>s. ss_id s = sl_state l \<and> state_free (e_now e2) s)
               (acquire_row (e_now e2) (sl_owner l2) (sl_token l2) (sl_expires l2)) (?R d2)"
    using sync_AcquireD [OF second(1)] second(2) by force
  have "s2 = ?R d2 ! k"
    by (rule key_unique [OF dist2 s2(1)]) (use k2 s2(2) in auto)
  then have k3: "k < length (?R d3)" "sl_gen l < lv_gen (sync_view (?R d3 ! k))"
    "ss_id (?R d3 ! k) = sl_state l"
    using k2 s2 by (auto simp: d3 update_where_nth sync_view_def acquire_row_def)
  have dist4: "distinct (map ss_id (?R d4))"
    by (rule sync_steps_distinct [OF later])
      (use dist2 in \<open>simp add: d3 map_key_update_where\<close>)
  have k4: "k < length (?R d4)" "ss_id (?R d4 ! k) = sl_state l"
    using sync_lease.steps_view [OF later k3(1)] sync_lease.key_stable [OF later k3(1)] k3(3) by auto
  have lost: "\<not> holds l x" if "x \<in> set (?R d4)" for x
  proof
    assume h: "holds l x"
    have "x = ?R d4 ! k"
      by (rule key_unique [OF dist4 that]) (use h k4 in \<open>auto simp: holds_def\<close>)
    then show False
      using h sync_lease.fenced [OF later k3(1,2), of "sl_owner l" "sl_token l"]
      by (simp add: holds_def lv_held_def sync_view_def)
  qed
  show ?thesis
    using lost up s2 by (auto simp: Progress_def Complete_def Fail_def Let_def intro!: lease_exec_lost)
qed

text \<open>When the text of a synchronisation error is longer than 4000 bytes and the cut
  falls inside a character, \<open>Fail\<close> reports an error and changes nothing: the scope stays
  leased, and nobody can take it until the lease runs out.\<close>

theorem fail_cut_inside_character:
  assumes cause: "valid_utf8 cause" "4000 < length cause" "\<not> valid_utf8 (take 4000 cause)"
    and held: "s \<in> set (sync_states d)" "holds l s" "ss_expires s = Some x"
    and ids: "distinct (map ss_id (sync_states d))"
    and other: "e_uuid e2 (trim_space i2) = Some (sl_state l)" "e_now e2 < x"
      "\<not> blank i2" "\<not> blank w2" "0 < ttl" "\<not> e_fail e2 ''syncstate.Acquire''"
  shows "Fail e l (Some cause) ra d
      = (Inl (Wrapped ''fail sync state'' (DbErr ''invalid byte sequence'')), d)
    \<and> Acquire e2 t2 i2 w2 ttl d = (Inr None, d)"
proof -
  have "find (\<lambda>s. ss_id s = sl_state l \<and> state_free (e_now e2) s) (sync_states d) = None"
  proof -
    have "r = s" if "r \<in> set (sync_states d)" "ss_id r = sl_state l" for r
      by (rule key_unique [OF ids that(1) held(1)]) (use that(2) held(2) in \<open>simp add: holds_def\<close>)
    then show ?thesis
      using held(3) other(2) by (auto simp: find_None_iff state_free_def)
  qed
  then have "Acquire e2 t2 i2 w2 ttl d = (Inr None, d)"
    using other by (simp add: Acquire_def Let_def)
  then show ?thesis
    using cause by (simp add: Fail_def fail_message_def pg_text_def)
qed

section \<open>Witnesses\<close>

definition demo_sync :: db where
  "demo_sync = demo_db\<lparr>sync_states := [new_state demo_env ''s1'' ''a1'' None ''bootstrap'']\<rparr>"

definition demo_lease :: "uuid \<Rightarrow> int \<Rightarrow> time \<Rightarrow> sync_lease" where
  "demo_lease t g x =
     \<lparr>sl_state = ''s1'', sl_owner = ''w'', sl_token = t, sl_gen = g, sl_expires = x\<rparr>"

definition demo_late :: env where
  "demo_late = demo_env\<lparr>e_now := 900000000\<rparr>"

definition demo_leased :: db where
  "demo_leased = snd (Acquire demo_env ''k1'' ''s1'' ''w'' (120 * second_ns) demo_sync)"

definition demo_leased2 :: db where
  "demo_leased2 = snd (Acquire demo_late ''k2'' ''s1'' ''w'' (120 * second_ns) demo_leased)"

lemma demo_nonblank: "trim_space ''s1'' = ''s1''" "trim_space ''w'' = ''w''"
  by code_simp+

lemma demo_acquire:
  "Acquire demo_env ''k1'' ''s1'' ''w'' (120 * second_ns) demo_sync
     = (Inr (Some (demo_lease ''k1'' 1 125000000)), demo_leased)"
  "Acquire demo_late ''k2'' ''s1'' ''w'' (120 * second_ns) demo_leased
     = (Inr (Some (demo_lease ''k2'' 2 1020000000)), demo_leased2)"
proof -
  show 1: "Acquire demo_env ''k1'' ''s1'' ''w'' (120 * second_ns) demo_sync
     = (Inr (Some (demo_lease ''k1'' 1 125000000)), demo_leased)"
    by (simp add: demo_leased_def Acquire_def demo_nonblank demo_sync_def new_state_def
        state_free_def second_ns_def millis_def demo_lease_def demo_env_def Let_def)
  have "sync_states demo_leased = [acquire_row 5000000 ''w'' ''k1'' 125000000
      (new_state demo_env ''s1'' ''a1'' None ''bootstrap'')]"
    by (simp add: demo_leased_def Acquire_def demo_nonblank demo_sync_def new_state_def
        state_free_def second_ns_def millis_def demo_env_def Let_def update_where_def)
  then show "Acquire demo_late ''k2'' ''s1'' ''w'' (120 * second_ns) demo_leased
     = (Inr (Some (demo_lease ''k2'' 2 1020000000)), demo_leased2)"
    by (simp add: demo_leased2_def Acquire_def demo_nonblank new_state_def acquire_row_def
        state_free_def second_ns_def millis_def demo_lease_def demo_late_def demo_env_def Let_def)
qed

theorem sync_lease_fencing_witness:
  "Complete demo_late (demo_lease ''k1'' 1 125000000) demo_leased2
     = (Inl (Msg ''sync state lease lost''), demo_leased2)"
proof -
  have up: "\<not> e_fail demo_late l" for l by (simp add: demo_late_def demo_env_def)
  have d: "distinct (map ss_id (sync_states demo_sync))" by (simp add: demo_sync_def)
  have m: "pg_text (fail_message None)" by code_simp
  have s: "sl_state (demo_lease ''k2'' 2 1020000000) = sl_state (demo_lease ''k1'' 1 125000000)"
    by (simp add: demo_lease_def)
  show ?thesis
    using sync_lease_fencing [OF d demo_acquire(1) rtranclp.rtrancl_refl demo_acquire(2) s
        rtranclp.rtrancl_refl up up up m] by blast
qed

lemma valid_ascii_replicate: "valid_utf8 (replicate n CHR ''a'' @ s) = valid_utf8 s"
  by (induction n) (simp_all add: valid_utf8.simps(2) utf8_seq_def byte_def Let_def)

theorem fail_cut_inside_character_witness:
  "fst (Fail demo_env (demo_lease ''k1'' 1 125000000)
          (Some (replicate 3999 CHR ''a'' @ [CHR 0xC3, CHR 0xA9])) 0 demo_leased)
     = Inl (Wrapped ''fail sync state'' (DbErr ''invalid byte sequence''))"
proof -
  let ?c = "replicate 3999 CHR ''a'' @ [CHR 0xC3, CHR 0xA9]"
  have tail: "valid_utf8 [CHR 0xC3, CHR 0xA9]" "\<not> valid_utf8 [CHR 0xC3]" by code_simp+
  have c: "valid_utf8 ?c" "4000 < length ?c" "\<not> valid_utf8 (take 4000 ?c)"
    using tail by (simp_all add: valid_ascii_replicate)
  let ?s = "acquire_row 5000000 ''w'' ''k1'' 125000000 (new_state demo_env ''s1'' ''a1'' None ''bootstrap'')"
  have s: "?s \<in> set (sync_states demo_leased)" "holds (demo_lease ''k1'' 1 125000000) ?s"
    "ss_expires ?s = Some 125000000" "distinct (map ss_id (sync_states demo_leased))"
    by (simp_all add: demo_leased_def Acquire_def demo_nonblank demo_sync_def new_state_def
        state_free_def second_ns_def millis_def demo_env_def Let_def update_where_def holds_def
        demo_lease_def acquire_row_def)
  have o: "e_uuid demo_env (trim_space ''s1'') = Some (sl_state (demo_lease ''k1'' 1 125000000))"
    "e_now demo_env < 125000000" "\<not> blank ''s1''" "\<not> blank ''w''" "(0 :: int) < 5"
    "\<not> e_fail demo_env ''syncstate.Acquire''"
    by (simp_all add: demo_env_def demo_nonblank demo_lease_def)
  show ?thesis
    using fail_cut_inside_character [OF c s o, of demo_env 0] by simp
qed

end
