(* ===== verification/Mirror.thy ===== *)
theory Mirror
  imports JsonText Schema "HOL-Library.Product_Lexorder" "HOL-Library.Option_ord"
begin

text \<open>
  What the repositories of mirrored Telegram data (chats, contacts, members, messages) share:
  the page limits, \<open>ILIKE\<close> patterns and their escaping, sorted reads, and the contract of a
  soft-deleted table as the locale \<open>mirror_table\<close>: rows are added and changed under a unique
  key, never removed, keep their ids, and a row that is not deleted has no deletion time.
\<close>

section \<open>Limits\<close>

definition normalizeLimit :: "int \<Rightarrow> int \<Rightarrow> int \<Rightarrow> int" where
  "normalizeLimit dflt most limit =
     (if limit \<le> 0 then dflt else if limit > most then most else limit)"

lemma normalizeLimit_bounds:
  "1 \<le> dflt \<Longrightarrow> dflt \<le> most \<Longrightarrow> 1 \<le> normalizeLimit dflt most n \<and> normalizeLimit dflt most n \<le> most"
  by (simp add: normalizeLimit_def)

section \<open>Patterns\<close>

text \<open>\<open>strings.ReplaceAll\<close> for a one-byte pattern.\<close>

definition replace_char :: "char \<Rightarrow> string \<Rightarrow> string \<Rightarrow> string" where
  "replace_char c new s = concat (map (\<lambda>x. if x = c then new else [x]) s)"

definition escapeLike :: "string \<Rightarrow> string" where
  "escapeLike value =
     replace_char (CHR ''_'') [CHR 0x5C, CHR ''_'']
       (replace_char (CHR ''%'') [CHR 0x5C, CHR ''%'']
         (replace_char (CHR 0x5C) [CHR 0x5C, CHR 0x5C] value))"

text \<open>
  PostgreSQL's \<open>LIKE ... ESCAPE '\'\<close>.  \<open>_\<close> stands for one character; a pattern that ends in
  the escape character is an error there and matches nothing here.  \<open>ILIKE\<close> compares after
  the database's \<open>lower()\<close>, which depends on its locale and is a parameter.
\<close>

function like_match :: "string \<Rightarrow> string \<Rightarrow> bool" where
  "like_match [] s = (s = [])"
| "like_match (p # ps) s =
     (if p = CHR ''%'' then like_match ps s \<or> (case s of [] \<Rightarrow> False | c # s' \<Rightarrow> like_match (p # ps) s')
      else if p = CHR 0x5C then
        (case ps of
           [] \<Rightarrow> False
         | q # ps' \<Rightarrow> (case s of [] \<Rightarrow> False | c # s' \<Rightarrow> c = q \<and> like_match ps' s'))
      else if p = CHR ''_'' then s \<noteq> [] \<and> like_match ps (drop (max 1 (utf8_seq s)) s)
      else (case s of [] \<Rightarrow> False | c # s' \<Rightarrow> c = p \<and> like_match ps s'))"
  by pat_completeness auto
termination by (relation "measure (\<lambda>(p, s). length p + length s)") auto

declare like_match.simps [simp del]

definition like_pattern :: "string \<Rightarrow> string" where
  "like_pattern q = ''%'' @ escapeLike q @ ''%''"

record locale_rules =
  lc_lower :: "string \<Rightarrow> string"
  lc_key :: "string \<Rightarrow> string"

definition ilike :: "locale_rules \<Rightarrow> string \<Rightarrow> string \<Rightarrow> bool" where
  "ilike lc s pat = like_match (lc_lower lc pat) (lc_lower lc s)"

definition special :: "char \<Rightarrow> bool" where
  "special c = (c = CHR 0x5C \<or> c = CHR ''%'' \<or> c = CHR ''_'')"

definition esc_char :: "char \<Rightarrow> string" where
  "esc_char c = (if special c then [CHR 0x5C, c] else [c])"

lemma escapeLike_chars: "escapeLike s = concat (map esc_char s)"
  by (induction s) (auto simp: escapeLike_def replace_char_def esc_char_def special_def)

lemma like_literal: "like_match (esc_char c @ ps) s \<longleftrightarrow> (\<exists>t. s = c # t \<and> like_match ps t)"
  by (cases s) (auto simp: esc_char_def special_def like_match.simps)

lemma like_escaped: "like_match (escapeLike q @ ps) s \<longleftrightarrow> (\<exists>t. s = q @ t \<and> like_match ps t)"
proof (induction q arbitrary: s)
  case Nil
  then show ?case by (simp add: escapeLike_chars)
next
  case (Cons c q)
  then show ?case
    by (simp add: escapeLike_chars like_literal) (metis append_Cons)
qed

lemma like_percent: "like_match (CHR ''%'' # ps) s \<longleftrightarrow> (\<exists>a b. s = a @ b \<and> like_match ps b)"
proof (induction s)
  case Nil
  then show ?case by (simp add: like_match.simps(2))
next
  case (Cons c s)
  have "(\<exists>a b. c # s = a @ b \<and> like_match ps b) \<longleftrightarrow>
      like_match ps (c # s) \<or> (\<exists>a b. s = a @ b \<and> like_match ps b)"
    by (auto simp: Cons_eq_append_conv)
  then show ?case using Cons by (simp add: like_match.simps(2) [of _ _ "c # s"])
qed

lemma like_contains: "like_match (like_pattern q) s \<longleftrightarrow> (\<exists>a b. s = a @ q @ b)"
proof -
  have e: "like_match ''%'' t" for t
    unfolding like_percent by (intro exI [of _ t] exI [of _ "[]"]) (simp add: like_match.simps(1))
  show ?thesis
    unfolding like_pattern_def append.simps append_Nil like_percent [of "escapeLike q @ ''%''"] like_escaped
    using e by auto
qed

text \<open>The database's \<open>lower()\<close> leaves the wildcards and the escape character alone.\<close>

definition lower_plain :: "locale_rules \<Rightarrow> bool" where
  "lower_plain lc = (\<forall>q. lc_lower lc (like_pattern q) = like_pattern (lc_lower lc q))"

lemma ilike_contains:
  assumes "lower_plain lc"
  shows "ilike lc s (like_pattern q) \<longleftrightarrow> (\<exists>a b. lc_lower lc s = a @ lc_lower lc q @ b)"
  using assms by (simp add: ilike_def lower_plain_def like_contains)

definition ascii_rules :: locale_rules where
  "ascii_rules = \<lparr>lc_lower = to_lower, lc_key = (\<lambda>s. s)\<rparr>"

lemma special_byte: "special c = (byte c \<in> {92, 37, 95})"
  unfolding special_def byte_inj [symmetric] by (simp add: byte_def)

lemma byte_lower: "byte (ascii_lower c) = (if 65 \<le> byte c \<and> byte c \<le> 90 then byte c + 32 else byte c)"
  by (simp add: ascii_lower_def)

lemma lower_special: "special (ascii_lower c) = special c"
  unfolding special_byte byte_lower by auto

lemma lower_special_id: "special c \<Longrightarrow> ascii_lower c = c"
  unfolding special_byte byte_inj [symmetric] byte_lower by auto

lemma ascii_lower_plain: "lower_plain ascii_rules"
proof -
  have c: "map ascii_lower (esc_char c) = esc_char (ascii_lower c)" for c
    using lower_special_id [of "CHR 0x5C"] lower_special_id [of c]
    by (simp add: esc_char_def lower_special) (simp add: special_def)
  have "to_lower (escapeLike q) = escapeLike (to_lower q)" for q
    unfolding escapeLike_chars to_lower_def by (induction q) (simp_all add: c)
  moreover have "ascii_lower (CHR ''%'') = CHR ''%''" by (rule lower_special_id) (simp add: special_def)
  ultimately show ?thesis
    by (simp add: lower_plain_def ascii_rules_def like_pattern_def to_lower_def)
qed

section \<open>Reads\<close>

definition order_by :: "('r \<Rightarrow> 'k::linorder) \<Rightarrow> int \<Rightarrow> 'r list \<Rightarrow> 'r list" where
  "order_by key n rs = take (nat n) (sort_key key rs)"

definition order_by_desc :: "('r \<Rightarrow> 'k::linorder) \<Rightarrow> int \<Rightarrow> 'r list \<Rightarrow> 'r list" where
  "order_by_desc key n rs = take (nat n) (rev (sort_key key rs))"

lemma order_by_subset: "set (order_by key n rs) \<subseteq> set rs" "set (order_by_desc key n rs) \<subseteq> set rs"
  by (auto simp: order_by_def order_by_desc_def dest: in_set_takeD)

lemma order_by_length: "length (order_by key n rs) \<le> nat n" "length (order_by_desc key n rs) \<le> nat n"
  by (simp_all add: order_by_def order_by_desc_def)

lemma order_by_all:
  "int (length rs) \<le> n \<Longrightarrow> set (order_by key n rs) = set rs"
  "int (length rs) \<le> n \<Longrightarrow> set (order_by_desc key n rs) = set rs"
  by (simp_all add: order_by_def order_by_desc_def)

text \<open>\<open>trimPtr\<close>: a blank value is a null.\<close>

definition trimPtr :: "string option \<Rightarrow> string option" where
  "trimPtr v = (case v of None \<Rightarrow> None | Some s \<Rightarrow> nullif_empty (trim_space s))"

definition opt_text :: "string option \<Rightarrow> bool" where
  "opt_text v = (case v of None \<Rightarrow> True | Some s \<Rightarrow> pg_text s)"

definition or_empty :: "string option \<Rightarrow> string" where
  "or_empty v = (case v of None \<Rightarrow> [] | Some s \<Rightarrow> s)"

text \<open>
  A JSON column: what is stored for an object (a nil map is the empty one), and what a read
  finds, an error of \<open>json.Unmarshal\<close> being ignored.
\<close>

definition object_text :: "env \<Rightarrow> json option \<Rightarrow> string" where
  "object_text e v = json_marshal (e_jsonb e (case v of None \<Rightarrow> JObj [] | Some j \<Rightarrow> j))"

definition read_object :: "string \<Rightarrow> json option" where
  "read_object s = (case unmarshal s of Some (JObj m) \<Rightarrow> Some (JObj m) | _ \<Rightarrow> None)"

section \<open>Cursor texts\<close>

text \<open>The JSON of a struct with integer fields, in the order of its declaration, and its parse.\<close>

definition int_member :: "string \<times> int \<Rightarrow> string" where
  "int_member kv = json_string (fst kv) @ '':'' @ itoa (snd kv)"

definition int_struct :: "(string \<times> int) list \<Rightarrow> string" where
  "int_struct kvs = ''{'' @ intercalate '','' (map int_member kvs) @ ''}''"

definition plain_key :: "string \<Rightarrow> bool" where
  "plain_key k = list_all (\<lambda>c. 97 \<le> byte c \<and> byte c < 123) k"

lemma plain_key_string: "plain_key k \<Longrightarrow> json_string k = CHR 0x22 # k @ [CHR 0x22]"
proof -
  have "plain_key k \<Longrightarrow> json_esc k = k"
    by (induction k) (simp_all add: plain_key_def json_esc.simps(2) esc_ascii_def Let_def)
  then show "plain_key k \<Longrightarrow> ?thesis" by (simp add: json_string_def)
qed

lemma plain_key_body:
  assumes "plain_key k" "length k < n" shows "str_body n (k @ CHR 0x22 # s) = Some (k, s)"
proof (rule str_body_plain [OF _ assms(2)])
  show "list_all (\<lambda>c. 32 \<le> byte c \<and> byte c < 128 \<and> c \<noteq> CHR 0x22 \<and> c \<noteq> CHR 0x5C) k"
    using assms(1) unfolding plain_key_def by (rule list.pred_mono_strong) (auto simp: byte_def)
qed

lemma skip_ws_Cons: "skip_ws (c # s) = (if json_space c then skip_ws s else c # s)"
  by (simp add: skip_ws_def)

lemma itoa_head: "\<exists>c cs. itoa i = c # cs \<and> (c = CHR ''-'' \<or> is_digit c)"
proof (cases "i < 0")
  case True
  then show ?thesis by (simp add: itoa_def)
next
  case False
  obtain c cs where "nat_dec (nat i) = c # cs" using nat_dec_nonempty by (cases "nat_dec (nat i)") auto
  then show ?thesis using False nat_dec_digits [of "nat i"] by (simp add: itoa_def)
qed

lemma parse_int_value:
  assumes "s = [] \<or> (\<not> is_digit (hd s) \<and> hd s \<notin> set ''.eE'')"
  shows "parse_value (Suc n) (itoa i @ s) = Some (JNum (itoa i), s)"
proof -
  obtain c cs where c: "itoa i = c # cs" "c = CHR ''-'' \<or> is_digit c" using itoa_head by blast
  have b: "45 \<le> byte c \<and> byte c \<le> 57" using c(2) by (auto simp: is_digit_def byte_def)
  have ne: "c \<noteq> CHR 0x22" "c \<noteq> CHR ''{''" "c \<noteq> CHR ''[''" "c \<noteq> CHR ''n''" "c \<noteq> CHR ''t''" "c \<noteq> CHR ''f''"
    using b by (auto simp: byte_def)
  have "\<not> json_space c" using b by (auto simp: json_space_def)
  then show ?thesis
    using ne scan_number_itoa [OF assms, of i] c(1) by (simp add: skip_ws_Cons has_prefix_def)
qed

lemma parse_int_member:
  assumes "plain_key k" "s = [] \<or> (\<not> is_digit (hd s) \<and> hd s \<notin> set ''.eE'')"
  shows "parse_member (Suc (Suc n)) (int_member (k, i) @ s) = Some ((k, JNum (itoa i)), s)"
proof -
  have q: "\<not> json_space (CHR 0x22)" "\<not> json_space (CHR '':'')" by code_simp+
  show ?thesis
    using plain_key_body [OF assms(1)] parse_int_value [OF assms(2), of n i]
    by (simp add: int_member_def plain_key_string [OF assms(1)] skip_ws_Cons q del: str_body.simps parse_value.simps)
qed

lemma sep_after: "\<not> is_digit (CHR '','') \<and> CHR '','' \<notin> set ''.eE''" "\<not> is_digit (CHR ''}'') \<and> CHR ''}'' \<notin> set ''.eE''"
  by code_simp+

lemma parse_int_members:
  assumes "list_all (\<lambda>kv. plain_key (fst kv)) kvs" "kvs \<noteq> []" "length kvs + 1 < n"
  shows "parse_members n (intercalate '','' (map int_member kvs) @ ''}'')
    = Some (map (\<lambda>kv. (fst kv, JNum (itoa (snd kv)))) kvs, [])"
  using assms
proof (induction kvs arbitrary: n)
  case (Cons kv kvs)
  obtain m where n: "n = Suc (Suc (Suc m))" using Cons.prems(3) by (cases n; cases "n - 1"; cases "n - 2") auto
  obtain k i where kv: "kv = (k, i)" by (cases kv)
  have pk: "plain_key k" using Cons.prems(1) kv by simp
  have sp: "\<not> json_space (CHR '','')" "\<not> json_space (CHR ''}'')" by code_simp+
  show ?case
  proof (cases kvs)
    case Nil
    then show ?thesis
      using parse_int_member [OF pk, of "''}''" m i] sep_after(2)
      by (simp add: n kv intercalate_def skip_ws_Cons sp del: parse_member.simps)
  next
    case (Cons kv2 rest)
    let ?r = "intercalate '','' (map int_member kvs) @ ''}''"
    have t: "intercalate '','' (map int_member (kv # kvs)) @ ''}'' = int_member (k, i) @ CHR '','' # ?r"
      by (simp add: kv Cons intercalate_def)
    have ih: "parse_members (Suc (Suc m)) ?r = Some (map (\<lambda>kv. (fst kv, JNum (itoa (snd kv)))) kvs, [])"
      by (rule Cons.IH) (use Cons.prems n Cons in auto)
    show ?thesis
      unfolding t n
      using parse_int_member [OF pk, of "CHR '','' # ?r" m i] sep_after(1) ih
      by (simp add: kv skip_ws_Cons sp del: parse_member.simps)
  qed
qed simp

lemma unmarshal_int_struct:
  assumes "list_all (\<lambda>kv. plain_key (fst kv)) kvs" "kvs \<noteq> []"
  shows "unmarshal (int_struct kvs) = Some (JObj (map (\<lambda>kv. (fst kv, JNum (itoa (snd kv)))) kvs))"
proof -
  let ?t = "intercalate '','' (map int_member kvs)"
  obtain kv rest where kvs: "kvs = kv # rest" using assms(2) by (cases kvs) auto
  have len: "length kvs \<le> length ?t"
  proof -
    have "length rest \<le> length (concat (map ((@) '','' \<circ> int_member) rest))"
      by (induction rest) auto
    then show ?thesis by (simp add: kvs intercalate_def int_member_def json_string_def)
  qed
  obtain q u where q: "?t @ ''}'' = q # u" "q = CHR 0x22"
    by (simp add: kvs intercalate_def int_member_def json_string_def)
  have sp: "\<not> json_space (CHR ''{'')" "\<not> json_space (CHR 0x22)" by code_simp+
  obtain N where N: "json_fuel (int_struct kvs) = Suc N" "length kvs + 1 < N"
  proof
    show "json_fuel (int_struct kvs) = Suc (3 * length ?t + 8)" by (simp add: json_fuel_def int_struct_def)
    show "length kvs + 1 < 3 * length ?t + 8" using len by simp
  qed
  have "parse_members N (q # u) = Some (map (\<lambda>kv. (fst kv, JNum (itoa (snd kv)))) kvs, [])"
    unfolding q(1) [symmetric] by (rule parse_int_members [OF assms N(2)])
  then have "parse_value (Suc N) (int_struct kvs) = Some (JObj (map (\<lambda>kv. (fst kv, JNum (itoa (snd kv)))) kvs), [])"
    using q(2) by (simp add: int_struct_def q(1) skip_ws_Cons sp del: parse_members.simps)
  then show ?thesis unfolding unmarshal_def N(1) by (simp add: skip_ws_def)
qed

section \<open>Soft-deleted tables\<close>

locale mirror_table =
  fixes key :: "'r \<Rightarrow> 'k"
    and keep :: "'r \<Rightarrow> 'r \<Rightarrow> bool"
    and ok :: "'r \<Rightarrow> bool"
    and step :: "'r list \<Rightarrow> 'r list \<Rightarrow> bool"
  assumes keep_refl: "keep r r"
    and keep_trans: "keep r s \<Longrightarrow> keep s t \<Longrightarrow> keep r t"
    and keep_key: "keep r s \<Longrightarrow> key s = key r"
    and keys: "step rs rs' \<Longrightarrow> distinct (map key rs) \<Longrightarrow> distinct (map key rs')"
    and rows: "step rs rs' \<Longrightarrow> r \<in> set rs \<Longrightarrow> \<exists>s \<in> set rs'. keep r s"
    and checks: "step rs rs' \<Longrightarrow> list_all ok rs \<Longrightarrow> list_all ok rs'"
begin

lemma steps_kept: "step\<^sup>*\<^sup>* rs rs' \<Longrightarrow> r \<in> set rs \<Longrightarrow> \<exists>s \<in> set rs'. keep r s"
proof (induction rule: rtranclp_induct)
  case base
  then show ?case using keep_refl by blast
next
  case (step ys zs)
  then show ?case using rows keep_trans by blast
qed

lemma steps_keys: "step\<^sup>*\<^sup>* rs rs' \<Longrightarrow> distinct (map key rs) \<Longrightarrow> distinct (map key rs')"
  by (induction rule: rtranclp_induct) (auto dest: keys)

lemma steps_checks: "step\<^sup>*\<^sup>* rs rs' \<Longrightarrow> list_all ok rs \<Longrightarrow> list_all ok rs'"
  by (induction rule: rtranclp_induct) (auto dest: checks)

text \<open>The row that later has the key of an old row is the old row, further evolved.\<close>

lemma steps_same_row:
  assumes "step\<^sup>*\<^sup>* rs rs'" "distinct (map key rs)" "r \<in> set rs" "s \<in> set rs'" "key s = key r"
  shows "keep r s"
proof -
  obtain t where t: "t \<in> set rs'" "keep r t" using steps_kept [OF assms(1,3)] by blast
  have "t = s"
    by (rule key_unique [OF steps_keys [OF assms(1,2)]]) (use t keep_key [OF t(2)] assms(4,5) in simp_all)
  then show ?thesis using t(2) by simp
qed

end

text \<open>The two ways in which the repositories change a table obey the laws.\<close>

lemma upsert_row:
  assumes "r \<in> set rs" "keep r r" "\<And>old. key old = key new \<Longrightarrow> keep old (merge new old)"
  shows "\<exists>s \<in> set (upsert key merge new rs). keep r s"
proof (cases "exists_row (\<lambda>r. key r = key new) rs")
  case True
  then have "upsert key merge new rs = update_where (\<lambda>r. key r = key new) (merge new) rs"
    by (simp add: upsert_def)
  then show ?thesis
    using assms by (cases "key r = key new") (auto simp: update_where_def)
next
  case False
  then show ?thesis using assms by (auto simp: upsert_def)
qed

lemma upsert_keys:
  assumes "distinct (map key rs)" "\<And>old. key old = key new \<Longrightarrow> key (merge new old) = key new"
  shows "distinct (map key (upsert key merge new rs))"
proof (cases "exists_row (\<lambda>r. key r = key new) rs")
  case True
  have "map key (update_where (\<lambda>r. key r = key new) (merge new) rs) = map key rs"
    using assms(2) by (simp add: update_where_def)
  then show ?thesis using True assms(1) by (simp add: upsert_def)
next
  case False
  then show ?thesis using assms by (auto simp: upsert_def exists_row_def)
qed

lemma upsert_all:
  assumes "list_all ok rs" "ok new" "\<And>old. ok old \<Longrightarrow> ok (merge new old)"
  shows "list_all ok (upsert key merge new rs)"
  using assms by (auto simp: upsert_def update_where_def list_all_iff)

lemma update_all: "list_all ok rs \<Longrightarrow> (\<And>r. ok r \<Longrightarrow> ok (f r)) \<Longrightarrow> list_all ok (update_where p f rs)"
  by (auto simp: update_where_def list_all_iff)

lemma update_row: "r \<in> set rs \<Longrightarrow> keep r r \<Longrightarrow> (\<And>r. p r \<Longrightarrow> keep r (f r)) \<Longrightarrow>
    \<exists>s \<in> set (update_where p f rs). keep r s"
  by (cases "p r") (auto simp: update_where_def)

lemma update_keys: "distinct (map key rs) \<Longrightarrow> (\<And>r. key (f r) = key r) \<Longrightarrow> distinct (map key (update_where p f rs))"
  by (simp add: map_key_update_where)

text \<open>
  A repository changes its table by \<open>INSERT ... ON CONFLICT DO UPDATE\<close> and by row-wise updates.
  When the merge and the updates keep what has to be kept, the table obeys the laws.
\<close>

definition mirror_change ::
    "('r \<Rightarrow> 'k) \<Rightarrow> ('r \<Rightarrow> 'r \<Rightarrow> 'r) \<Rightarrow> ('r \<Rightarrow> 'r \<Rightarrow> bool) \<Rightarrow> ('r \<Rightarrow> bool) \<Rightarrow> 'r list \<Rightarrow> 'r list \<Rightarrow> bool" where
  "mirror_change key merge keep ok rs rs' =
     (rs' = rs
      \<or> (\<exists>new. rs' = upsert key merge new rs \<and> ok new)
      \<or> (\<exists>p f. rs' = update_where p f rs \<and> (\<forall>r. keep r (f r)) \<and> (\<forall>r. ok r \<longrightarrow> ok (f r))))"

lemma mirror_changeE:
  assumes "mirror_change key merge keep ok rs rs'"
  obtains "rs' = rs" | new where "rs' = upsert key merge new rs" "ok new"
  | p f where "rs' = update_where p f rs" "\<And>r. keep r (f r)" "\<And>r. ok r \<Longrightarrow> ok (f r)"
  using assms unfolding mirror_change_def by blast

lemma mirror_change_same: "rs' = rs \<Longrightarrow> mirror_change key merge keep ok rs rs'"
  by (simp add: mirror_change_def)

lemma mirror_change_upsert: "ok new \<Longrightarrow> mirror_change key merge keep ok rs (upsert key merge new rs)"
  by (auto simp: mirror_change_def)

lemma mirror_change_update:
  "(\<And>r. keep r (f r)) \<Longrightarrow> (\<And>r. ok r \<Longrightarrow> ok (f r)) \<Longrightarrow> mirror_change key merge keep ok rs (update_where p f rs)"
  unfolding mirror_change_def by blast

locale mirror_ops =
  fixes key :: "'r \<Rightarrow> 'k"
    and merge :: "'r \<Rightarrow> 'r \<Rightarrow> 'r"
    and keep :: "'r \<Rightarrow> 'r \<Rightarrow> bool"
    and ok :: "'r \<Rightarrow> bool"
  assumes refl: "keep r r"
    and trans: "keep r s \<Longrightarrow> keep s t \<Longrightarrow> keep r t"
    and same_key: "keep r s \<Longrightarrow> key s = key r"
    and merge_keep: "key old = key new \<Longrightarrow> keep old (merge new old)"
    and merge_ok: "ok old \<Longrightarrow> ok new \<Longrightarrow> ok (merge new old)"
begin

lemma change_keys:
  assumes "mirror_change key merge keep ok rs rs'" "distinct (map key rs)"
  shows "distinct (map key rs')"
  using assms(1)
proof (cases rule: mirror_changeE)
  case (2 new)
  show ?thesis unfolding 2(1) by (rule upsert_keys [OF assms(2)]) (use merge_keep same_key in metis)
next
  case (3 p f)
  have "key (f r) = key r" for r using 3(2) same_key by blast
  then show ?thesis unfolding 3(1) by (rule update_keys [OF assms(2)])
qed (use assms(2) in simp)

lemma change_rows:
  assumes "mirror_change key merge keep ok rs rs'" "r \<in> set rs"
  shows "\<exists>s \<in> set rs'. keep r s"
  using assms(1)
proof (cases rule: mirror_changeE)
  case 1
  then show ?thesis using assms(2) refl by blast
next
  case (2 new)
  show ?thesis unfolding 2(1) by (rule upsert_row [where keep = keep, OF assms(2) refl merge_keep])
next
  case (3 p f)
  show ?thesis unfolding 3(1) by (rule update_row [where keep = keep, OF assms(2) refl 3(2)])
qed

lemma change_checks:
  assumes "mirror_change key merge keep ok rs rs'" "list_all ok rs"
  shows "list_all ok rs'"
  using assms(1)
proof (cases rule: mirror_changeE)
  case (2 new)
  show ?thesis unfolding 2(1) by (rule upsert_all [OF assms(2) 2(2)]) (use merge_ok 2(2) in auto)
next
  case (3 p f)
  show ?thesis unfolding 3(1) by (rule update_all [OF assms(2) 3(3)])
qed (use assms(2) in simp)

end

sublocale mirror_ops \<subseteq> mirror_table key keep ok "mirror_change key merge keep ok"
  by unfold_locales (fact refl, fact trans, fact same_key, fact change_keys, fact change_rows, fact change_checks)

end
