(* ===== verification/Contacts.thy ===== *)
theory Contacts
  imports Mirror
begin

text \<open>
  \<open>internal/contacts\<close>: the contact list of an account.  An upsert brings a deleted contact
  back; a complete snapshot deletes every contact that it does not list.
\<close>

section \<open>Rows\<close>

record contact_info =  \<comment> \<open>contacts.Contact\<close>
  ki_id :: uuid
  ki_tg :: int
  ki_first :: "string option"
  ki_last :: "string option"
  ki_username :: "string option"
  ki_mutual :: bool
  ki_meta :: "json option"

definition contact_key :: "contact \<Rightarrow> uuid \<times> int" where
  "contact_key c = (ct_account c, ct_tg c)"

definition active_contacts :: "db \<Rightarrow> contact list" where
  "active_contacts d = filter (\<lambda>c. \<not> ct_deleted c) (contacts d)"

definition merge_contact :: "contact \<Rightarrow> contact \<Rightarrow> contact" where
  "merge_contact new old =
     old\<lparr>ct_first := ct_first new, ct_last := ct_last new, ct_username := ct_username new,
         ct_phone_hash := coalesce (ct_phone_hash new) (ct_phone_hash old), ct_mutual := ct_mutual new,
         ct_meta := ct_meta new, ct_deleted := False, ct_deleted_at := None, ct_updated := ct_updated new\<rparr>"

definition nullableBytes :: "bytes \<Rightarrow> bytes option" where
  "nullableBytes b = (if b = [] then None else Some b)"

definition contact_row :: "env \<Rightarrow> uuid \<Rightarrow> uuid \<Rightarrow> contact_info \<Rightarrow> bytes \<Rightarrow> contact" where
  "contact_row e i a c phone =
     \<lparr>ct_id = i, ct_account = a, ct_tg = ki_tg c, ct_first = trimPtr (ki_first c),
      ct_last = trimPtr (ki_last c), ct_username = trimPtr (ki_username c),
      ct_phone_hash = nullableBytes phone, ct_mutual = ki_mutual c,
      ct_meta = object_text e (ki_meta c), ct_deleted = False, ct_deleted_at = None,
      ct_updated = e_now e\<rparr>"

definition upsert_contact :: "contact \<Rightarrow> db \<Rightarrow> uuid result \<times> db" where
  "upsert_contact new d =
     (case find (\<lambda>r. contact_key r = contact_key new) (contacts d) of
        Some r \<Rightarrow> (Inr (ct_id r), d\<lparr>contacts := upsert contact_key merge_contact new (contacts d)\<rparr>)
      | None \<Rightarrow>
          if ct_account new \<notin> acc_id ` set (accounts d) then (Inl (DbErr ''foreign key''), d)
          else if ct_id new \<in> ct_id ` set (contacts d) then (Inl (DbErr ''duplicate key''), d)
          else (Inr (ct_id new), d\<lparr>contacts := upsert contact_key merge_contact new (contacts d)\<rparr>))"

definition Upsert :: "env \<Rightarrow> uuid \<Rightarrow> string \<Rightarrow> contact_info \<Rightarrow> bytes \<Rightarrow> db \<Rightarrow> uuid result \<times> db" where
  [handler_defs]: "Upsert e i account c phone d =
     (let account = trim_space account in
      if account = [] \<or> ki_tg c \<le> 0
        then (Inl (Msg ''account id and positive Telegram user id are required''), d)
      else if e_fail e ''contacts.Upsert'' then (Inl (Wrapped ''upsert contact'' (DbErr ''insert'')), d)
      else (case e_uuid e account of
          None \<Rightarrow> (Inl (Wrapped ''upsert contact'' (DbErr ''invalid uuid'')), d)
        | Some a \<Rightarrow>
            if \<not> opt_text (trimPtr (ki_first c)) \<or> \<not> opt_text (trimPtr (ki_last c))
               \<or> \<not> opt_text (trimPtr (ki_username c))
              then (Inl (Wrapped ''upsert contact'' (DbErr ''invalid byte sequence'')), d)
            else (case upsert_contact (contact_row e i a c phone) d of
                (Inl err, _) \<Rightarrow> (Inl (Wrapped ''upsert contact'' err), d)
              | (Inr k, d') \<Rightarrow> (Inr k, d'))))"

definition delete_contact_row :: "env \<Rightarrow> contact \<Rightarrow> contact" where
  "delete_contact_row e c =
     c\<lparr>ct_deleted := True, ct_deleted_at := coalesce (ct_deleted_at c) (Some (e_now e)), ct_updated := e_now e\<rparr>"

definition MarkDeleted :: "env \<Rightarrow> string \<Rightarrow> int \<Rightarrow> db \<Rightarrow> unit result \<times> db" where
  [handler_defs]: "MarkDeleted e account tg d =
     (if e_fail e ''contacts.MarkDeleted'' then (Inl (Wrapped ''soft-delete contact'' (DbErr ''update'')), d)
      else (case e_uuid e (trim_space account) of
          None \<Rightarrow> (Inl (Wrapped ''soft-delete contact'' (DbErr ''invalid uuid'')), d)
        | Some a \<Rightarrow>
            (Inr (), d\<lparr>contacts := update_where (\<lambda>c. ct_account c = a \<and> ct_tg c = tg)
               (delete_contact_row e) (contacts d)\<rparr>)))"

text \<open>\<open>MarkMissingDeleted\<close> (snapshot.go): how many rows it deleted.  The slice is not nil, as its caller makes it.\<close>

definition MarkMissingDeleted :: "env \<Rightarrow> string \<Rightarrow> int list \<Rightarrow> db \<Rightarrow> nat result \<times> db" where
  [handler_defs]: "MarkMissingDeleted e account seen d =
     (if e_fail e ''contacts.MarkMissingDeleted''
        then (Inl (Wrapped ''soft-delete contacts missing from snapshot'' (DbErr ''update'')), d)
      else (case e_uuid e (trim_space account) of
          None \<Rightarrow> (Inl (Wrapped ''soft-delete contacts missing from snapshot'' (DbErr ''invalid uuid'')), d)
        | Some a \<Rightarrow>
            (let gone = (\<lambda>c. ct_account c = a \<and> \<not> ct_deleted c \<and> ct_tg c \<notin> set seen)
             in (Inr (affected gone (contacts d)),
                 d\<lparr>contacts := update_where gone (delete_contact_row e) (contacts d)\<rparr>))))"

section \<open>Reads\<close>

definition contact_of_row :: "contact \<Rightarrow> contact_info" where
  "contact_of_row r =
     \<lparr>ki_id = ct_id r, ki_tg = ct_tg r, ki_first = ct_first r, ki_last = ct_last r,
      ki_username = ct_username r, ki_mutual = ct_mutual r, ki_meta = read_object (ct_meta r)\<rparr>"

definition contact_matches :: "locale_rules \<Rightarrow> string \<Rightarrow> contact \<Rightarrow> bool" where
  "contact_matches lc query c =
     (query = [] \<or> ilike lc (or_empty (ct_first c)) (like_pattern query)
      \<or> ilike lc (or_empty (ct_last c)) (like_pattern query)
      \<or> ilike lc (or_empty (ct_username c)) (like_pattern query))"

text \<open>The private \<open>query\<close> of both reads.\<close>

definition query_contacts ::
    "env \<Rightarrow> locale_rules \<Rightarrow> string \<Rightarrow> string \<Rightarrow> int \<Rightarrow> db \<Rightarrow> contact_info list result" where
  [handler_defs]: "query_contacts e lc account query limit d =
     (if e_fail e ''contacts.query'' then Inl (Wrapped ''query contacts'' (DbErr ''select''))
      else (case e_uuid e (trim_space account) of
              None \<Rightarrow> Inl (Wrapped ''query contacts'' (DbErr ''invalid uuid''))
            | Some a \<Rightarrow>
                if \<not> pg_text query then Inl (Wrapped ''query contacts'' (DbErr ''invalid byte sequence''))
                else Inr (map contact_of_row
                  (order_by (\<lambda>c. (lc_key lc (or_empty (ct_first c)), lc_key lc (or_empty (ct_last c)), ct_tg c)) limit
                    (filter (\<lambda>c. ct_account c = a \<and> contact_matches lc query c) (active_contacts d))))))"

definition ListActive :: "env \<Rightarrow> locale_rules \<Rightarrow> string \<Rightarrow> int \<Rightarrow> db \<Rightarrow> contact_info list result" where
  "ListActive e lc account limit d = query_contacts e lc account [] (normalizeLimit 50 100 limit) d"

definition SearchActive ::
    "env \<Rightarrow> locale_rules \<Rightarrow> string \<Rightarrow> string \<Rightarrow> int \<Rightarrow> db \<Rightarrow> contact_info list result" where
  [handler_defs]: "SearchActive e lc account query limit d =
     (let query = trim_space query in
      if query = [] then Inl (Msg ''search query is required'')
      else query_contacts e lc account query (normalizeLimit 50 100 limit) d)"

section \<open>The table\<close>

inductive contact_step :: "db \<Rightarrow> db \<Rightarrow> bool" where
  upsert: "contact_step d (snd (Upsert e i account c phone d))"
| delete: "contact_step d (snd (MarkDeleted e account tg d))"
| snapshot: "contact_step d (snd (MarkMissingDeleted e account seen d))"
| other: "contacts d' = contacts d \<Longrightarrow> contact_step d d'"

definition contact_keep :: "contact \<Rightarrow> contact \<Rightarrow> bool" where
  "contact_keep c c' = (ct_id c' = ct_id c \<and> contact_key c' = contact_key c)"

definition contact_ok :: "contact \<Rightarrow> bool" where
  "contact_ok c = (ct_deleted c \<or> ct_deleted_at c = None)"

interpretation contact_table: mirror_ops contact_key merge_contact contact_keep contact_ok
  by unfold_locales (auto simp: contact_keep_def merge_contact_def contact_key_def contact_ok_def)

abbreviation "contact_change \<equiv> mirror_change contact_key merge_contact contact_keep contact_ok"

lemma contact_delete_change: "contact_change rs (update_where p (delete_contact_row e) rs)"
  by (rule mirror_change_update) (simp_all add: contact_keep_def contact_key_def contact_ok_def delete_contact_row_def)

lemma contact_upsert_change: "contact_change (contacts d) (contacts (snd (Upsert e i account c phone d)))"
proof -
  have "contact_ok (contact_row e i a c phone)" for a by (simp add: contact_ok_def contact_row_def)
  then have "contact_change (contacts d) (upsert contact_key merge_contact (contact_row e i a c phone) (contacts d))" for a
    by (rule mirror_change_upsert)
  moreover have "contacts (snd (upsert_contact new d)) = contacts d
      \<or> contacts (snd (upsert_contact new d)) = upsert contact_key merge_contact new (contacts d)" for new
    by (simp add: upsert_contact_def split: option.split)
  ultimately have "contact_change (contacts d) (contacts (snd (upsert_contact (contact_row e i a c phone) d)))" for a
    using mirror_change_same by metis
  then show ?thesis
    unfolding Upsert_def Let_def
    by (simp add: mirror_change_same split: option.split sum.split prod.split) (metis snd_conv)
qed

lemma contact_step_change: "contact_step d d' \<Longrightarrow> contact_change (contacts d) (contacts d')"
proof (induction rule: contact_step.induct)
  case (delete d e account tg)
  then show ?case
    by (simp add: MarkDeleted_def mirror_change_same contact_delete_change split: option.split)
next
  case (snapshot d e account seen)
  then show ?case
    by (simp add: MarkMissingDeleted_def Let_def mirror_change_same contact_delete_change split: option.split)
qed (simp_all add: contact_upsert_change mirror_change_same)

lemma contact_steps_change: "contact_step\<^sup>*\<^sup>* d d' \<Longrightarrow> contact_change\<^sup>*\<^sup>* (contacts d) (contacts d')"
  by (induction rule: rtranclp_induct) (auto dest: contact_step_change intro: rtranclp.rtrancl_into_rtrancl)

end
