(* ===== verification/Chats.thy ===== *)
theory Chats
  imports Mirror
begin

text \<open>
  \<open>internal/chats/repository.go\<close>: the chats of an account as Telegram reports them.  A
  deleted chat stays deleted: an upsert refreshes its data and nothing else.
\<close>

section \<open>Rows\<close>

record chat_info =  \<comment> \<open>chats.Chat; a nil map is None\<close>
  ci_id :: uuid
  ci_account :: string
  ci_tg :: int
  ci_type :: string
  ci_title :: "string option"
  ci_username :: "string option"
  ci_photo :: "string option"
  ci_meta :: "json option"
  ci_last_id :: "int option"
  ci_last_at :: "time option"

definition chat_key :: "chat \<Rightarrow> uuid \<times> int" where
  "chat_key c = (ch_account c, ch_tg c)"

definition active_chats :: "db \<Rightarrow> chat list" where
  "active_chats d = filter (\<lambda>c. \<not> ch_deleted c) (chats d)"

definition merge_chat :: "chat \<Rightarrow> chat \<Rightarrow> chat" where
  "merge_chat new old =
     old\<lparr>ch_type := ch_type new, ch_title := ch_title new, ch_username := ch_username new,
         ch_photo := coalesce (ch_photo new) (ch_photo old), ch_meta := ch_meta new,
         ch_last_id := ch_last_id new, ch_last_at := ch_last_at new, ch_updated := ch_updated new\<rparr>"

definition chat_row :: "env \<Rightarrow> uuid \<Rightarrow> uuid \<Rightarrow> chat_info \<Rightarrow> chat" where
  "chat_row e i a c =
     \<lparr>ch_id = i, ch_account = a, ch_tg = ci_tg c, ch_type = ci_type c, ch_title = ci_title c,
      ch_username = ci_username c, ch_photo = ci_photo c, ch_meta = object_text e (ci_meta c),
      ch_last_id = ci_last_id c, ch_last_at = ci_last_at c, ch_deleted = False,
      ch_deleted_at = None, ch_updated = e_now e\<rparr>"

text \<open>The returned id is that of the row in conflict, if there is one.\<close>

definition upsert_chat :: "chat \<Rightarrow> db \<Rightarrow> uuid result \<times> db" where
  "upsert_chat new d =
     (case find (\<lambda>r. chat_key r = chat_key new) (chats d) of
        Some r \<Rightarrow> (Inr (ch_id r), d\<lparr>chats := upsert chat_key merge_chat new (chats d)\<rparr>)
      | None \<Rightarrow>
          if ch_account new \<notin> acc_id ` set (accounts d) then (Inl (DbErr ''foreign key''), d)
          else if ch_id new \<in> ch_id ` set (chats d) then (Inl (DbErr ''duplicate key''), d)
          else (Inr (ch_id new), d\<lparr>chats := upsert chat_key merge_chat new (chats d)\<rparr>))"

definition Upsert :: "env \<Rightarrow> uuid \<Rightarrow> chat_info \<Rightarrow> db \<Rightarrow> uuid result \<times> db" where
  [handler_defs]: "Upsert e i c d =
     (if blank (ci_account c) then (Inl (Msg ''account id is required''), d)
      else if ci_tg c = 0 then (Inl (Msg ''telegram chat id is required''), d)
      else if blank (ci_type c) then (Inl (Msg ''chat type is required''), d)
      else if e_fail e ''chats.Upsert'' then (Inl (Wrapped ''upsert chat'' (DbErr ''insert'')), d)
      else (case e_uuid e (ci_account c) of
          None \<Rightarrow> (Inl (Wrapped ''upsert chat'' (DbErr ''invalid uuid'')), d)
        | Some a \<Rightarrow>
            if \<not> pg_text (ci_type c) \<or> \<not> opt_text (ci_title c) \<or> \<not> opt_text (ci_username c)
               \<or> \<not> opt_text (ci_photo c)
              then (Inl (Wrapped ''upsert chat'' (DbErr ''invalid byte sequence'')), d)
            else (case upsert_chat (chat_row e i a c) d of
                (Inl err, _) \<Rightarrow> (Inl (Wrapped ''upsert chat'' err), d)
              | (Inr k, d') \<Rightarrow> (Inr k, d'))))"

definition delete_chat_row :: "env \<Rightarrow> time \<Rightarrow> chat \<Rightarrow> chat" where
  "delete_chat_row e at c =
     c\<lparr>ch_deleted := True, ch_deleted_at := coalesce (ch_deleted_at c) (Some at), ch_updated := e_now e\<rparr>"

definition MarkDeleted :: "env \<Rightarrow> string \<Rightarrow> int \<Rightarrow> time \<Rightarrow> db \<Rightarrow> unit result \<times> db" where
  [handler_defs]: "MarkDeleted e account tg at d =
     (if blank account then (Inl (Msg ''account id is required''), d)
      else if tg = 0 then (Inl (Msg ''telegram chat id is required''), d)
      else if e_fail e ''chats.MarkDeleted'' then (Inl (Wrapped ''soft-delete chat'' (DbErr ''update'')), d)
      else (case e_uuid e account of
          None \<Rightarrow> (Inl (Wrapped ''soft-delete chat'' (DbErr ''invalid uuid'')), d)
        | Some a \<Rightarrow>
            (Inr (), d\<lparr>chats := update_where (\<lambda>c. ch_account c = a \<and> ch_tg c = tg)
               (delete_chat_row e (if at = zero_time then e_clock e else at)) (chats d)\<rparr>)))"

section \<open>Reads\<close>

definition chat_of_row :: "chat \<Rightarrow> chat_info" where
  "chat_of_row r =
     \<lparr>ci_id = ch_id r, ci_account = ch_account r, ci_tg = ch_tg r, ci_type = ch_type r,
      ci_title = ch_title r, ci_username = ch_username r, ci_photo = ch_photo r,
      ci_meta = read_object (ch_meta r), ci_last_id = ch_last_id r, ci_last_at = ch_last_at r\<rparr>"

text \<open>\<open>ORDER BY last_message_at DESC NULLS LAST, telegram_chat_id DESC\<close>.\<close>

definition list_chats :: "int \<Rightarrow> (chat \<Rightarrow> bool) \<Rightarrow> db \<Rightarrow> chat_info list" where
  "list_chats limit p d =
     map chat_of_row
       (order_by_desc (\<lambda>c. (ch_last_at c, ch_tg c)) (normalizeLimit 30 100 limit) (filter p (active_chats d)))"

definition ListActive :: "env \<Rightarrow> string \<Rightarrow> int \<Rightarrow> db \<Rightarrow> chat_info list result" where
  [handler_defs]: "ListActive e account limit d =
     (if e_fail e ''chats.ListActive'' then Inl (Wrapped ''list active chats'' (DbErr ''select''))
      else (case e_uuid e account of
              None \<Rightarrow> Inl (Wrapped ''list active chats'' (DbErr ''invalid uuid''))
            | Some a \<Rightarrow> Inr (list_chats limit (\<lambda>c. ch_account c = a) d)))"

definition chat_matches :: "locale_rules \<Rightarrow> string \<Rightarrow> chat \<Rightarrow> bool" where
  "chat_matches lc query c =
     (ilike lc (or_empty (ch_title c)) (like_pattern query)
      \<or> ilike lc (or_empty (ch_username c)) (like_pattern query))"

definition SearchActive :: "env \<Rightarrow> locale_rules \<Rightarrow> string \<Rightarrow> string \<Rightarrow> int \<Rightarrow> db \<Rightarrow> chat_info list result" where
  [handler_defs]: "SearchActive e lc account query limit d =
     (let query = trim_space query in
      if query = [] then Inl (Msg ''search query is required'')
      else if e_fail e ''chats.SearchActive'' then Inl (Wrapped ''search active chats'' (DbErr ''select''))
      else (case e_uuid e account of
              None \<Rightarrow> Inl (Wrapped ''search active chats'' (DbErr ''invalid uuid''))
            | Some a \<Rightarrow>
                if \<not> pg_text query then Inl (Wrapped ''search active chats'' (DbErr ''invalid byte sequence''))
                else Inr (list_chats limit (\<lambda>c. ch_account c = a \<and> chat_matches lc query c) d)))"

section \<open>The table\<close>

inductive chat_step :: "db \<Rightarrow> db \<Rightarrow> bool" where
  upsert: "chat_step d (snd (Upsert e i c d))"
| delete: "chat_step d (snd (MarkDeleted e account tg at d))"
| other: "chats d' = chats d \<Longrightarrow> chat_step d d'"

definition chat_keep :: "chat \<Rightarrow> chat \<Rightarrow> bool" where
  "chat_keep c c' =
     (ch_id c' = ch_id c \<and> chat_key c' = chat_key c
      \<and> (ch_deleted c \<longrightarrow> ch_deleted c' \<and> (ch_deleted_at c \<noteq> None \<longrightarrow> ch_deleted_at c' = ch_deleted_at c)))"

definition chat_ok :: "chat \<Rightarrow> bool" where
  "chat_ok c = (ch_deleted c \<or> ch_deleted_at c = None)"

lemma merge_chat_keep: "chat_keep old (merge_chat new old)"
  by (simp add: chat_keep_def merge_chat_def chat_key_def)

lemma delete_chat_keep: "chat_keep c (delete_chat_row e at c)"
  by (auto simp: chat_keep_def delete_chat_row_def chat_key_def)

lemma Upsert_chats:
  "chats (snd (Upsert e i c d)) = chats d
   \<or> (\<exists>a. chats (snd (Upsert e i c d)) = upsert chat_key merge_chat (chat_row e i a c) (chats d))"
proof -
  have "chats d' = chats d \<or> chats d' = upsert chat_key merge_chat new (chats d)"
    if "upsert_chat new d = (x, d')" for new x d'
    using that by (auto simp: upsert_chat_def split: option.splits if_splits)
  then show ?thesis
    by (auto simp: Upsert_def split: option.split sum.split prod.split)
qed

interpretation chat_table: mirror_ops chat_key merge_chat chat_keep chat_ok
  by unfold_locales (auto simp: chat_keep_def merge_chat_def chat_key_def chat_ok_def)

lemma chat_step_change:
  assumes "chat_step d d'"
  shows "mirror_change chat_key merge_chat chat_keep chat_ok (chats d) (chats d')"
  using assms
proof cases
  case (upsert e i c)
  have "chat_ok (chat_row e i a c)" for a by (simp add: chat_ok_def chat_row_def)
  then show ?thesis
    using Upsert_chats [of e i c d] upsert mirror_change_same mirror_change_upsert by metis
next
  case (delete e account tg at)
  have "mirror_change chat_key merge_chat chat_keep chat_ok (chats d) (update_where p (delete_chat_row e t) (chats d))" for p t
    by (rule mirror_change_update, rule delete_chat_keep) (simp add: chat_ok_def delete_chat_row_def)
  then show ?thesis using delete by (simp add: MarkDeleted_def mirror_change_same split: option.split)
next
  case other
  then show ?thesis by (simp add: mirror_change_same)
qed

lemma chat_steps_change:
  "chat_step\<^sup>*\<^sup>* d d' \<Longrightarrow>
   (mirror_change chat_key merge_chat chat_keep chat_ok)\<^sup>*\<^sup>* (chats d) (chats d')"
  by (induction rule: rtranclp_induct) (auto dest: chat_step_change intro: rtranclp.rtrancl_into_rtrancl)

end
