(* ===== verification/Members.thy ===== *)
theory Members
  imports Chats
begin

text \<open>
  \<open>internal/members\<close>: the members of a chat.  A member snapshot is either complete at once
  (\<open>MarkMissingDeleted\<close>) or paged: every upsert stamps \<open>last_seen_at\<close>, and after the last
  page \<open>MarkNotSeenSince\<close> deletes the rows that the snapshot did not touch.
\<close>

section \<open>Rows\<close>

record member_info =  \<comment> \<open>members.Member\<close>
  bi_id :: uuid
  bi_peer_type :: string
  bi_peer :: int
  bi_first :: "string option"
  bi_last :: "string option"
  bi_username :: "string option"
  bi_role :: "string option"
  bi_meta :: "json option"
  bi_last_seen :: time

definition member_key :: "member \<Rightarrow> uuid \<times> uuid \<times> string \<times> int" where
  "member_key m = (mb_account m, mb_chat m, mb_peer_type m, mb_peer m)"

definition active_members :: "db \<Rightarrow> member list" where
  "active_members d =
     filter (\<lambda>m. \<not> mb_deleted m
         \<and> exists_row (\<lambda>c. ch_id c = mb_chat m \<and> ch_account c = mb_account m \<and> \<not> ch_deleted c) (chats d))
       (members d)"

definition merge_member :: "member \<Rightarrow> member \<Rightarrow> member" where
  "merge_member new old =
     old\<lparr>mb_first := mb_first new, mb_last := mb_last new, mb_username := mb_username new,
         mb_role := mb_role new, mb_meta := mb_meta new, mb_deleted := False, mb_deleted_at := None,
         mb_last_seen := mb_last_seen new, mb_updated := mb_updated new\<rparr>"

definition member_row :: "env \<Rightarrow> uuid \<Rightarrow> uuid \<Rightarrow> uuid \<Rightarrow> string \<Rightarrow> member_info \<Rightarrow> member" where
  "member_row e i a c kind m =
     \<lparr>mb_id = i, mb_account = a, mb_chat = c, mb_peer_type = kind, mb_peer = bi_peer m,
      mb_first = trimPtr (bi_first m), mb_last = trimPtr (bi_last m),
      mb_username = trimPtr (bi_username m), mb_role = trimPtr (bi_role m),
      mb_meta = object_text e (bi_meta m), mb_deleted = False, mb_deleted_at = None,
      mb_last_seen = e_now e, mb_updated = e_now e\<rparr>"

text \<open>The foreign keys refer to the account and to the chat of that account.\<close>

definition upsert_member :: "member \<Rightarrow> db \<Rightarrow> uuid result \<times> db" where
  "upsert_member new d =
     (case find (\<lambda>r. member_key r = member_key new) (members d) of
        Some r \<Rightarrow> (Inr (mb_id r), d\<lparr>members := upsert member_key merge_member new (members d)\<rparr>)
      | None \<Rightarrow>
          if mb_account new \<notin> acc_id ` set (accounts d)
             \<or> (mb_chat new, mb_account new) \<notin> (\<lambda>c. (ch_id c, ch_account c)) ` set (chats d)
            then (Inl (DbErr ''foreign key''), d)
          else if mb_id new \<in> mb_id ` set (members d) then (Inl (DbErr ''duplicate key''), d)
          else (Inr (mb_id new), d\<lparr>members := upsert member_key merge_member new (members d)\<rparr>))"

definition Upsert :: "env \<Rightarrow> uuid \<Rightarrow> string \<Rightarrow> string \<Rightarrow> member_info \<Rightarrow> db \<Rightarrow> uuid result \<times> db" where
  [handler_defs]: "Upsert e i account chat m d =
     (let account = trim_space account; chat = trim_space chat;
          kind = to_lower (trim_space (bi_peer_type m));
          kind = (if kind = [] then ''user'' else kind)
      in if account = [] \<or> chat = [] \<or> bi_peer m = 0
           then (Inl (Msg ''account id, chat id and Telegram peer id are required''), d)
         else if kind \<noteq> ''user'' \<and> kind \<noteq> ''chat'' then (Inl (Msg ''peer type must be user or chat''), d)
         else if e_fail e ''members.Upsert'' then (Inl (Wrapped ''upsert chat member'' (DbErr ''insert'')), d)
         else (case (e_uuid e account, e_uuid e chat) of
             (Some a, Some c) \<Rightarrow>
               if \<not> opt_text (trimPtr (bi_first m)) \<or> \<not> opt_text (trimPtr (bi_last m))
                  \<or> \<not> opt_text (trimPtr (bi_username m)) \<or> \<not> opt_text (trimPtr (bi_role m))
                 then (Inl (Wrapped ''upsert chat member'' (DbErr ''invalid byte sequence'')), d)
               else (case upsert_member (member_row e i a c kind m) d of
                   (Inl err, _) \<Rightarrow> (Inl (Wrapped ''upsert chat member'' err), d)
                 | (Inr k, d') \<Rightarrow> (Inr k, d'))
           | _ \<Rightarrow> (Inl (Wrapped ''upsert chat member'' (DbErr ''invalid uuid'')), d)))"

definition delete_member_row :: "env \<Rightarrow> member \<Rightarrow> member" where
  "delete_member_row e m =
     m\<lparr>mb_deleted := True, mb_deleted_at := coalesce (mb_deleted_at m) (Some (e_now e)), mb_updated := e_now e\<rparr>"

text \<open>The three updates share this shape: rows of a chat that satisfy \<open>p\<close> are deleted.\<close>

definition delete_members ::
    "env \<Rightarrow> string \<Rightarrow> string \<Rightarrow> string \<Rightarrow> string \<Rightarrow> (member \<Rightarrow> bool) \<Rightarrow> db \<Rightarrow> nat result \<times> db" where
  [handler_defs]: "delete_members e label what account chat p d =
     (if e_fail e label then (Inl (Wrapped what (DbErr ''update'')), d)
      else (case (e_uuid e (trim_space account), e_uuid e (trim_space chat)) of
          (Some a, Some c) \<Rightarrow>
            (let gone = (\<lambda>m. mb_account m = a \<and> mb_chat m = c \<and> p m)
             in (Inr (affected gone (members d)),
                 d\<lparr>members := update_where gone (delete_member_row e) (members d)\<rparr>))
        | _ \<Rightarrow> (Inl (Wrapped what (DbErr ''invalid uuid'')), d)))"

definition MarkDeleted :: "env \<Rightarrow> string \<Rightarrow> string \<Rightarrow> string \<Rightarrow> int \<Rightarrow> db \<Rightarrow> unit result \<times> db" where
  [handler_defs]: "MarkDeleted e account chat kind peer d =
     (case delete_members e ''members.MarkDeleted'' ''soft-delete chat member'' account chat
             (\<lambda>m. mb_peer_type m = to_lower (trim_space kind) \<and> mb_peer m = peer) d of
        (Inl err, d') \<Rightarrow> (Inl err, d')
      | (Inr _, d') \<Rightarrow> (Inr (), d'))"

definition peers_of :: "string \<Rightarrow> (string \<times> int) list \<Rightarrow> int list" where
  "peers_of kind seen = map snd (filter (\<lambda>(k, i). to_lower (trim_space k) = kind) seen)"

definition MarkMissingDeleted ::
    "env \<Rightarrow> string \<Rightarrow> string \<Rightarrow> (string \<times> int) list \<Rightarrow> db \<Rightarrow> nat result \<times> db" where
  [handler_defs]: "MarkMissingDeleted e account chat seen d =
     delete_members e ''members.MarkMissingDeleted'' ''soft-delete members missing from snapshot'' account chat
       (\<lambda>m. \<not> mb_deleted m
          \<and> (mb_peer_type m = ''user'' \<and> mb_peer m \<notin> set (peers_of ''user'' seen)
             \<or> mb_peer_type m = ''chat'' \<and> mb_peer m \<notin> set (peers_of ''chat'' seen))) d"

definition MarkNotSeenSince :: "env \<Rightarrow> string \<Rightarrow> string \<Rightarrow> time \<Rightarrow> db \<Rightarrow> nat result \<times> db" where
  [handler_defs]: "MarkNotSeenSince e account chat started d =
     delete_members e ''members.MarkNotSeenSince'' ''soft-delete members not seen in snapshot'' account chat
       (\<lambda>m. \<not> mb_deleted m \<and> mb_last_seen m < started) d"

section \<open>Reads\<close>

definition member_of_row :: "member \<Rightarrow> member_info" where
  "member_of_row r =
     \<lparr>bi_id = mb_id r, bi_peer_type = mb_peer_type r, bi_peer = mb_peer r, bi_first = mb_first r,
      bi_last = mb_last r, bi_username = mb_username r, bi_role = mb_role r,
      bi_meta = read_object (mb_meta r), bi_last_seen = mb_last_seen r\<rparr>"

definition ListActive ::
    "env \<Rightarrow> locale_rules \<Rightarrow> string \<Rightarrow> string \<Rightarrow> int \<Rightarrow> db \<Rightarrow> member_info list result" where
  [handler_defs]: "ListActive e lc account chat limit d =
     (if e_fail e ''members.ListActive'' then Inl (Wrapped ''list active chat members'' (DbErr ''select''))
      else (case (e_uuid e (trim_space account), e_uuid e (trim_space chat)) of
              (Some a, Some c) \<Rightarrow>
                Inr (map member_of_row
                  (order_by (\<lambda>m. (lc_key lc (or_empty (mb_first m)), lc_key lc (or_empty (mb_last m)), mb_peer m))
                    (normalizeLimit 50 100 limit)
                    (filter (\<lambda>m. mb_account m = a \<and> mb_chat m = c) (active_members d))))
            | _ \<Rightarrow> Inl (Wrapped ''list active chat members'' (DbErr ''invalid uuid''))))"

section \<open>The table\<close>

inductive member_step :: "db \<Rightarrow> db \<Rightarrow> bool" where
  upsert: "member_step d (snd (Upsert e i account chat m d))"
| delete: "member_step d (snd (delete_members e l w account chat p d))"
| other: "members d' = members d \<Longrightarrow> member_step d d'"

definition member_keep :: "member \<Rightarrow> member \<Rightarrow> bool" where
  "member_keep m m' = (mb_id m' = mb_id m \<and> member_key m' = member_key m)"

definition member_ok :: "member \<Rightarrow> bool" where
  "member_ok m = ((mb_deleted m \<or> mb_deleted_at m = None) \<and> mb_peer_type m \<in> {''user'', ''chat''})"

interpretation member_table: mirror_ops member_key merge_member member_keep member_ok
  by unfold_locales (auto simp: member_keep_def merge_member_def member_key_def member_ok_def)

abbreviation "member_change \<equiv> mirror_change member_key merge_member member_keep member_ok"

lemma member_delete_change: "member_change rs (update_where p (delete_member_row e) rs)"
  by (rule mirror_change_update) (simp_all add: member_keep_def member_key_def member_ok_def delete_member_row_def)

lemma member_upsert_change: "member_change (members d) (members (snd (Upsert e i account chat m d)))"
proof -
  have "member_change (members d) (members (snd (upsert_member (member_row e i a c kind m) d)))"
    if "kind \<in> {''user'', ''chat''}" for a c kind
  proof -
    have "member_ok (member_row e i a c kind m)" using that by (simp add: member_ok_def member_row_def)
    then have "member_change (members d) (upsert member_key merge_member (member_row e i a c kind m) (members d))"
      by (rule mirror_change_upsert)
    then show ?thesis by (simp add: upsert_member_def mirror_change_same split: option.split)
  qed
  then have "member_change (members d) (members d')"
    if "upsert_member (member_row e i a c kind m) d = (x, d')" "kind = ''user'' \<or> kind = ''chat''" for a c kind x d'
    using that by (metis insertI1 insertI2 snd_conv)
  then show ?thesis
    unfolding Upsert_def Let_def
    by (simp add: mirror_change_same split: option.split sum.split prod.split)
qed

lemma member_step_change: "member_step d d' \<Longrightarrow> member_change (members d) (members d')"
proof (induction rule: member_step.induct)
  case (delete d e l w account chat p)
  then show ?case
    by (simp add: delete_members_def Let_def mirror_change_same member_delete_change split: option.split)
qed (simp_all add: member_upsert_change mirror_change_same)

lemma member_steps_change: "member_step\<^sup>*\<^sup>* d d' \<Longrightarrow> member_change\<^sup>*\<^sup>* (members d) (members d')"
  by (induction rule: rtranclp_induct) (auto dest: member_step_change intro: rtranclp.rtrancl_into_rtrancl)

end
