(* ===== verification/Messages.thy ===== *)
theory Messages
  imports Chats
begin

text \<open>
  \<open>internal/messages\<close>: the messages of a chat (\<open>repository.go\<close>), cursor pagination
  (\<open>pagination.go\<close>) and the reads of freshly fetched rows (\<open>fresh.go\<close>).  Messages arrive
  in any order, from live updates and from history pages; a merge keeps the newest version of
  the content, and a deletion is final.
\<close>

section \<open>Rows\<close>

record msg =  \<comment> \<open>messages.Message; nil slices, maps and pointers are None\<close>
  ms_id :: uuid
  ms_account :: string
  ms_chat :: string
  ms_tg :: int
  ms_sender :: "int option"
  ms_sender_chat :: "int option"
  ms_type :: string
  ms_content :: "string option"
  ms_entities :: "json list option"
  ms_reply :: "int option"
  ms_forward :: "json option"
  ms_meta :: "json option"
  ms_sent :: time
  ms_edited :: "time option"

definition message_key :: "message \<Rightarrow> uuid \<times> uuid \<times> int" where
  "message_key m = (m_account m, m_chat m, m_tg m)"

text \<open>\<open>marshalArrayJSON\<close>, \<open>marshalNullableJSON\<close>: what the columns hold.\<close>

definition array_text :: "env \<Rightarrow> json list option \<Rightarrow> string" where
  "array_text e v = json_marshal (e_jsonb e (JArr (case v of None \<Rightarrow> [] | Some xs \<Rightarrow> xs)))"

definition nullable_text :: "env \<Rightarrow> json option \<Rightarrow> string option" where
  "nullable_text e v = map_option (\<lambda>j. json_marshal (e_jsonb e j)) v"

definition message_row :: "env \<Rightarrow> uuid \<Rightarrow> uuid \<Rightarrow> uuid \<Rightarrow> msg \<Rightarrow> message" where
  "message_row e i a c m =
     \<lparr>m_id = i, m_account = a, m_chat = c, m_tg = ms_tg m, m_sender = ms_sender m,
      m_sender_chat = ms_sender_chat m, m_type = ms_type m, m_content = ms_content m,
      m_entities = array_text e (ms_entities m), m_reply = ms_reply m,
      m_forward = nullable_text e (ms_forward m), m_meta = object_text e (ms_meta m),
      m_sent = ms_sent m, m_edited = ms_edited m, m_deleted = False, m_deleted_at = None,
      m_updated = e_now e\<rparr>"

text \<open>\<open>COALESCE(edited_at, sent_at)\<close>, the version of a row.\<close>

definition version :: "message \<Rightarrow> time" where
  "version m = (case m_edited m of Some t \<Rightarrow> t | None \<Rightarrow> m_sent m)"

definition merge_message :: "message \<Rightarrow> message \<Rightarrow> message" where
  "merge_message new old =
     (old\<lparr>m_sender := m_sender new, m_sender_chat := m_sender_chat new,
             m_type := (if version old \<le> version new then m_type new else m_type old),
             m_content := (if version old \<le> version new then m_content new else m_content old),
             m_entities := (if version old \<le> version new then m_entities new else m_entities old),
             m_reply := m_reply new,
             m_forward := (if version old \<le> version new then m_forward new else m_forward old),
             m_meta := (if version old \<le> version new then m_meta new else m_meta old),
             m_sent := m_sent new, m_edited := sql_greatest (m_edited new) (m_edited old),
             m_updated := m_updated new\<rparr>)"

definition upsert_message :: "message \<Rightarrow> db \<Rightarrow> uuid result \<times> db" where
  "upsert_message new d =
     (case find (\<lambda>r. message_key r = message_key new) (messages d) of
        Some r \<Rightarrow> (Inr (m_id r), d\<lparr>messages := upsert message_key merge_message new (messages d)\<rparr>)
      | None \<Rightarrow>
          if m_account new \<notin> acc_id ` set (accounts d)
             \<or> (m_chat new, m_account new) \<notin> (\<lambda>c. (ch_id c, ch_account c)) ` set (chats d)
            then (Inl (DbErr ''foreign key''), d)
          else if m_id new \<in> m_id ` set (messages d) then (Inl (DbErr ''duplicate key''), d)
          else (Inr (m_id new), d\<lparr>messages := upsert message_key merge_message new (messages d)\<rparr>))"

definition Upsert :: "env \<Rightarrow> uuid \<Rightarrow> msg \<Rightarrow> db \<Rightarrow> uuid result \<times> db" where
  [handler_defs]: "Upsert e i m d =
     (if blank (ms_account m) \<or> blank (ms_chat m) then (Inl (Msg ''account id and chat id are required''), d)
      else if ms_tg m = 0 then (Inl (Msg ''telegram message id is required''), d)
      else if blank (ms_type m) then (Inl (Msg ''message type is required''), d)
      else if ms_sent m = zero_time then (Inl (Msg ''sent_at is required''), d)
      else if e_fail e ''messages.Upsert'' then (Inl (Wrapped ''upsert message'' (DbErr ''insert'')), d)
      else (case (e_uuid e (ms_account m), e_uuid e (ms_chat m)) of
          (Some a, Some c) \<Rightarrow>
            if \<not> pg_text (ms_type m) \<or> \<not> opt_text (ms_content m)
              then (Inl (Wrapped ''upsert message'' (DbErr ''invalid byte sequence'')), d)
            else (case upsert_message (message_row e i a c m) d of
                (Inl err, _) \<Rightarrow> (Inl (Wrapped ''upsert message'' err), d)
              | (Inr k, d') \<Rightarrow> (Inr k, d'))
        | _ \<Rightarrow> (Inl (Wrapped ''upsert message'' (DbErr ''invalid uuid'')), d)))"

definition delete_message_row :: "env \<Rightarrow> time \<Rightarrow> message \<Rightarrow> message" where
  "delete_message_row e at m =
     m\<lparr>m_deleted := True, m_deleted_at := coalesce (m_deleted_at m) (Some at), m_updated := e_now e\<rparr>"

definition MarkDeleted :: "env \<Rightarrow> string \<Rightarrow> string \<Rightarrow> int \<Rightarrow> time \<Rightarrow> db \<Rightarrow> unit result \<times> db" where
  [handler_defs]: "MarkDeleted e account chat tg at d =
     (if blank account \<or> blank chat then (Inl (Msg ''account id and chat id are required''), d)
      else if tg = 0 then (Inl (Msg ''telegram message id is required''), d)
      else if e_fail e ''messages.MarkDeleted'' then (Inl (Wrapped ''soft-delete message'' (DbErr ''update'')), d)
      else (case (e_uuid e account, e_uuid e chat) of
          (Some a, Some c) \<Rightarrow>
            (Inr (), d\<lparr>messages := update_where (\<lambda>m. m_account m = a \<and> m_chat m = c \<and> m_tg m = tg)
               (delete_message_row e (if at = zero_time then e_clock e else at)) (messages d)\<rparr>)
        | _ \<Rightarrow> (Inl (Wrapped ''soft-delete message'' (DbErr ''invalid uuid'')), d)))"

text \<open>A tombstone of the message's chat.\<close>

definition tombstone_of :: "message \<Rightarrow> db \<Rightarrow> tombstone option" where
  "tombstone_of m d =
     find (\<lambda>t. ts_account t = m_account m \<and> ts_msg t = m_tg m
             \<and> exists_row (\<lambda>c. ch_id c = m_chat m \<and> ch_account c = ts_account t \<and> ch_tg c = ts_chat t) (chats d))
       (tombstones d)"

definition ApplyTombstones :: "env \<Rightarrow> string \<Rightarrow> string \<Rightarrow> db \<Rightarrow> unit result \<times> db" where
  [handler_defs]: "ApplyTombstones e account chat d =
     (if e_fail e ''messages.ApplyTombstones'' then (Inl (DbErr ''update''), d)
      else (case (e_uuid e account, e_uuid e chat) of
          (Some a, Some c) \<Rightarrow>
            (Inr (), d\<lparr>messages :=
               map (\<lambda>m. if m_account m = a \<and> m_chat m = c \<and> \<not> m_deleted m
                         then (case tombstone_of m d of
                                 None \<Rightarrow> m
                               | Some t \<Rightarrow> m\<lparr>m_deleted := True, m_deleted_at := Some (ts_at t)\<rparr>)
                         else m) (messages d)\<rparr>)
        | _ \<Rightarrow> (Inl (DbErr ''invalid uuid''), d)))"

section \<open>Reads\<close>

text \<open>The view \<open>active_messages\<close>.\<close>

definition message_active :: "db \<Rightarrow> message \<Rightarrow> bool" where
  "message_active d m =
     (\<not> m_deleted m
      \<and> exists_row (\<lambda>c. ch_id c = m_chat m \<and> ch_account c = m_account m \<and> \<not> ch_deleted c
           \<and> \<not> exists_row (\<lambda>t. ts_account t = m_account m \<and> ts_chat t = ch_tg c \<and> ts_msg t = m_tg m)
                 (tombstones d)) (chats d))"

definition active_messages :: "db \<Rightarrow> message list" where
  "active_messages d = filter (message_active d) (messages d)"

definition read_array :: "string \<Rightarrow> json list option" where
  "read_array s = (case unmarshal s of Some (JArr xs) \<Rightarrow> Some xs | _ \<Rightarrow> None)"

definition msg_of_row :: "message \<Rightarrow> msg" where  \<comment> \<open>\<open>scanMessages\<close>\<close>
  "msg_of_row r =
     \<lparr>ms_id = m_id r, ms_account = m_account r, ms_chat = m_chat r, ms_tg = m_tg r,
      ms_sender = m_sender r, ms_sender_chat = m_sender_chat r, ms_type = m_type r,
      ms_content = m_content r, ms_entities = read_array (m_entities r), ms_reply = m_reply r,
      ms_forward = Option.bind (m_forward r) read_object, ms_meta = read_object (m_meta r),
      ms_sent = m_sent r, ms_edited = m_edited r\<rparr>"

definition message_order :: "message \<Rightarrow> time \<times> int" where
  "message_order m = (m_sent m, m_tg m)"

definition newest :: "int \<Rightarrow> (message \<Rightarrow> bool) \<Rightarrow> db \<Rightarrow> msg list" where
  "newest n p d = map msg_of_row (order_by_desc message_order n (filter p (active_messages d)))"

record cursor =
  cu_sent :: time
  cu_tg :: int

definition before :: "cursor option \<Rightarrow> message \<Rightarrow> bool" where
  "before c m = (case c of None \<Rightarrow> True | Some k \<Rightarrow> message_order m < (cu_sent k, cu_tg k))"

definition page_limit :: "int \<Rightarrow> int" where
  "page_limit limit = normalizeLimit 30 100 limit"

definition ListActiveByChat ::
    "env \<Rightarrow> string \<Rightarrow> string \<Rightarrow> cursor option \<Rightarrow> int \<Rightarrow> db \<Rightarrow> msg list result" where
  [handler_defs]: "ListActiveByChat e account chat c limit d =
     (if e_fail e ''messages.ListActiveByChat'' then Inl (Wrapped ''list active messages'' (DbErr ''select''))
      else (case (e_uuid e account, e_uuid e chat) of
              (Some a, Some k) \<Rightarrow>
                Inr (newest (page_limit limit) (\<lambda>m. m_account m = a \<and> m_chat m = k \<and> before c m) d)
            | _ \<Rightarrow> Inl (Wrapped ''list active messages'' (DbErr ''invalid uuid''))))"

definition content_matches :: "locale_rules \<Rightarrow> string \<Rightarrow> message \<Rightarrow> bool" where
  "content_matches lc query m =
     (case m_content m of None \<Rightarrow> False | Some s \<Rightarrow> ilike lc s (like_pattern query))"

definition SearchActive :: "env \<Rightarrow> locale_rules \<Rightarrow> string \<Rightarrow> string \<Rightarrow> int \<Rightarrow> db \<Rightarrow> msg list result" where
  [handler_defs]: "SearchActive e lc account query limit d =
     (let query = trim_space query in
      if query = [] then Inl (Msg ''search query is required'')
      else if e_fail e ''messages.SearchActive'' then Inl (Wrapped ''search active messages'' (DbErr ''select''))
      else (case e_uuid e account of
              None \<Rightarrow> Inl (Wrapped ''search active messages'' (DbErr ''invalid uuid''))
            | Some a \<Rightarrow>
                if \<not> pg_text query then Inl (Wrapped ''search active messages'' (DbErr ''invalid byte sequence''))
                else Inr (newest (page_limit limit) (\<lambda>m. m_account m = a \<and> content_matches lc query m) d)))"

definition SearchActiveChat ::
    "env \<Rightarrow> locale_rules \<Rightarrow> string \<Rightarrow> string \<Rightarrow> string \<Rightarrow> int \<Rightarrow> db \<Rightarrow> msg list result" where
  [handler_defs]: "SearchActiveChat e lc account chat query limit d =
     (let query = trim_space query in
      if query = [] then Inl (Msg ''search query is required'')
      else if e_fail e ''messages.SearchActiveChat'' then Inl (Wrapped ''search active messages'' (DbErr ''select''))
      else (case (e_uuid e account, e_uuid e chat) of
              (Some a, Some k) \<Rightarrow>
                if \<not> pg_text query then Inl (Wrapped ''search active messages'' (DbErr ''invalid byte sequence''))
                else Inr (newest (page_limit limit)
                       (\<lambda>m. m_account m = a \<and> m_chat m = k \<and> content_matches lc query m) d)
            | _ \<Rightarrow> Inl (Wrapped ''search active messages'' (DbErr ''invalid uuid''))))"

definition ListActiveByIDs :: "env \<Rightarrow> string \<Rightarrow> string list \<Rightarrow> db \<Rightarrow> msg list result" where
  [handler_defs]: "ListActiveByIDs e account ids d =
     (if ids = [] then Inr []
      else if e_fail e ''messages.ListActiveByIDs'' then Inl (DbErr ''select'')
      else (case (e_uuid e account, those (map (e_uuid e) ids)) of
              (Some a, Some us) \<Rightarrow>
                Inr (newest (int (length (messages d))) (\<lambda>m. m_account m = a \<and> m_id m \<in> set us) d)
            | _ \<Rightarrow> Inl (DbErr ''invalid uuid'')))"

section \<open>Pages (pagination.go)\<close>

definition EncodeCursor :: "cursor \<Rightarrow> string result" where
  "EncodeCursor c =
     (if cu_sent c = zero_time \<or> cu_tg c = 0
        then Inl (Msg ''cursor requires sent time and Telegram message id'')
      else Inr (b64_encode (int_struct [(''v'', 1), (''t'', cu_sent c), (''m'', cu_tg c)])))"

definition DecodeCursor :: "string \<Rightarrow> cursor result" where
  "DecodeCursor value =
     (let value = trim_space value in
      if value = [] then Inl (Msg ''cursor is empty'')
      else (case b64_decode value of
          None \<Rightarrow> Inl (Msg ''invalid cursor encoding'')
        | Some text \<Rightarrow>
            (case Option.bind (unmarshal text) members_of of
               None \<Rightarrow> Inl (Msg ''invalid cursor payload'')
             | Some m \<Rightarrow>
                 (case (struct_field ''v'' dec_int 0 m, struct_field ''t'' dec_int 0 m, struct_field ''m'' dec_int 0 m) of
                    (Some v, Some t, Some i) \<Rightarrow>
                      if v \<noteq> 1 \<or> t \<le> 0 \<or> i = 0 then Inl (Msg ''invalid cursor values'')
                      else Inr \<lparr>cu_sent = t, cu_tg = i\<rparr>
                  | _ \<Rightarrow> Inl (Msg ''invalid cursor payload'')))))"

record page =
  pg_items :: "msg list"
  pg_next :: string

definition ListActivePageByChat ::
    "env \<Rightarrow> string \<Rightarrow> string \<Rightarrow> cursor option \<Rightarrow> int \<Rightarrow> db \<Rightarrow> page result" where
  [handler_defs]: "ListActivePageByChat e account chat c limit d =
     (let n = page_limit limit in
      if e_fail e ''messages.ListActivePageByChat'' then Inl (Wrapped ''list active message page'' (DbErr ''select''))
      else (case (e_uuid e account, e_uuid e chat) of
          (Some a, Some k) \<Rightarrow>
            (let items = newest (n + 1) (\<lambda>m. m_account m = a \<and> m_chat m = k \<and> before c m) d in
             if int (length items) \<le> n then Inr \<lparr>pg_items = items, pg_next = []\<rparr>
             else (let kept = take (nat n) items; final = last kept in
                   (case EncodeCursor \<lparr>cu_sent = ms_sent final, cu_tg = ms_tg final\<rparr> of
                      Inl err \<Rightarrow> Inl err
                    | Inr next_cursor \<Rightarrow> Inr \<lparr>pg_items = kept, pg_next = next_cursor\<rparr>)))
        | _ \<Rightarrow> Inl (Wrapped ''list active message page'' (DbErr ''invalid uuid''))))"

end
