(* ===== verification/Text.thy ===== *)
theory Text
  imports Encoding
begin

text \<open>
  Trimming: printable ASCII has nothing to trim, and what is trimmed away is white space only.
\<close>

definition graph :: "char \<Rightarrow> bool" where
  "graph c = (33 \<le> byte c \<and> byte c < 128)"

lemma go_spaces_ends: "p \<in> set go_spaces \<Longrightarrow> \<not> graph (hd p) \<and> \<not> graph (last p)"
proof -
  have "list_all (\<lambda>p. \<not> graph (hd p) \<and> \<not> graph (last p)) go_spaces" by code_simp
  then show "p \<in> set go_spaces \<Longrightarrow> ?thesis" by (simp add: list_all_iff)
qed

lemma space_free_graph:
  assumes "list_all graph s" "\<And>p. p \<in> set ps \<Longrightarrow> p \<noteq> [] \<Longrightarrow> \<not> graph (hd p)"
  shows "space_free ps s"
proof -
  have "\<not> has_prefix s p" if "p \<in> set ps" "p \<noteq> []" for p
  proof
    assume "has_prefix s p"
    then have "hd p \<in> set s" using that(2) by (auto simp: has_prefix_iff)
    then show False using assms(2) [OF that] assms(1) by (auto simp: list_all_iff)
  qed
  then show ?thesis by (simp add: space_free_def)
qed

lemma trim_graph: "list_all graph s \<Longrightarrow> trim_space s = s"
proof -
  assume s: "list_all graph s"
  have "trim_with go_spaces s = s"
    by (rule trim_with_id, rule space_free_graph [OF s]) (use go_spaces_ends in blast)
  moreover have "trim_with (map rev go_spaces) (rev s) = rev s"
    by (rule trim_with_id, rule space_free_graph)
      (use s go_spaces_ends in \<open>auto simp: hd_rev list_all_iff\<close>)
  ultimately show "trim_space s = s" by (simp add: trim_space_def)
qed

lemma b64_graph: "list_all graph (b64_encode t)"
  unfolding b64_encode_digits list_all_iff
  using b64_digits_less [of _ t] by (auto simp: graph_def byte_b64_char split: if_splits)

lemma trim_b64: "trim_space (b64_encode t) = b64_encode t"
  by (rule trim_graph [OF b64_graph])

lemma trim_with_cut: "\<exists>u. s = u @ trim_with ps s \<and> set u \<subseteq> \<Union> (set ` set ps)"
proof (induction ps s rule: trim_with.induct)
  case (1 ps s)
  show ?case
  proof (cases "find (\<lambda>p. p \<noteq> [] \<and> has_prefix s p) ps")
    case None
    then show ?thesis by (simp add: trim_with.simps [of ps s])
  next
    case (Some p)
    then have p: "p \<in> set ps" "p \<noteq> []" "has_prefix s p" using find_in_set [OF Some] by auto
    obtain u where u: "drop (length p) s = u @ trim_with ps (drop (length p) s)" "set u \<subseteq> \<Union> (set ` set ps)"
      using "1.IH" [OF Some] by blast
    have "s = p @ drop (length p) s" using p(3) by (auto simp: has_prefix_iff)
    moreover have "trim_with ps s = trim_with ps (drop (length p) s)"
      using Some by (simp add: trim_with.simps [of ps s])
    ultimately have "s = (p @ u) @ trim_with ps s" using u(1) by (metis append.assoc)
    moreover have "set (p @ u) \<subseteq> \<Union> (set ` set ps)" using p(1) u(2) by auto
    ultimately show ?thesis by blast
  qed
qed

lemma trim_keeps:
  assumes "c \<in> set s" "c \<notin> \<Union> (set ` set go_spaces)"
  shows "c \<in> set (trim_space s)"
proof -
  obtain u where u: "s = u @ trim_with go_spaces s" "set u \<subseteq> \<Union> (set ` set go_spaces)"
    using trim_with_cut by blast
  obtain v where v: "rev (trim_with go_spaces s) = v @ trim_with (map rev go_spaces) (rev (trim_with go_spaces s))"
    "set v \<subseteq> \<Union> (set ` set (map rev go_spaces))"
    using trim_with_cut by blast
  have "c \<in> set (trim_with go_spaces s)" using assms u by (metis Un_iff set_append subsetD)
  then have "c \<in> set (rev (trim_with go_spaces s))" by simp
  then have "c \<in> set v \<or> c \<in> set (trim_with (map rev go_spaces) (rev (trim_with go_spaces s)))"
    using v(1) by (metis Un_iff set_append)
  moreover have "\<Union> (set ` set (map rev go_spaces)) = \<Union> (set ` set go_spaces)" by (auto simp: image_iff)
  ultimately show ?thesis using v(2) assms(2) by (auto simp: trim_space_def)
qed

lemma graph_not_space: "graph c \<Longrightarrow> byte c < 127 \<Longrightarrow> c \<notin> \<Union> (set ` set go_spaces)"
proof -
  have "list_all (\<lambda>p. list_all (\<lambda>c. \<not> (graph c \<and> byte c < 127)) p) go_spaces" by code_simp
  then show "graph c \<Longrightarrow> byte c < 127 \<Longrightarrow> ?thesis" by (auto simp: list_all_iff)
qed

end
