(* ===== verification/MessageTheorems.thy ===== *)
theory MessageTheorems
  imports Messages Accounts Text
begin

text \<open>
  What the message mirror guarantees: deletions are final, the content is that of the newest
  version whatever the order of arrival, cursors survive their text form, and following the
  cursors from page to page reads every message of a chat exactly once.
\<close>

section \<open>The table\<close>

inductive message_step :: "db \<Rightarrow> db \<Rightarrow> bool" where
  upsert: "message_step d (snd (Upsert e i m d))"
| delete: "message_step d (snd (MarkDeleted e account chat tg at d))"
| tombstones: "message_step d (snd (ApplyTombstones e account chat d))"
| other: "messages d' = messages d \<Longrightarrow> message_step d d'"

definition message_keep :: "message \<Rightarrow> message \<Rightarrow> bool" where
  "message_keep m m' =
     (m_id m' = m_id m \<and> message_key m' = message_key m \<and> (m_deleted m \<longrightarrow> m_deleted m'))"

definition message_ok :: "message \<Rightarrow> bool" where
  "message_ok m = (m_deleted m \<or> m_deleted_at m = None)"

lemma merge_message_key: "message_key (merge_message new old) = message_key old"
  by (simp add: merge_message_def message_key_def)

interpretation message_table: mirror_ops message_key merge_message message_keep message_ok
  by unfold_locales (auto simp: message_keep_def merge_message_def message_key_def message_ok_def)

abbreviation "message_change \<equiv> mirror_change message_key merge_message message_keep message_ok"

lemma message_upsert_change: "message_change (messages d) (messages (snd (Upsert e i m d)))"
proof -
  have "message_change (messages d) (messages (snd (upsert_message (message_row e i a c m) d)))" for a c
  proof -
    have "message_ok (message_row e i a c m)" by (simp add: message_ok_def message_row_def)
    then have "message_change (messages d) (upsert message_key merge_message (message_row e i a c m) (messages d))"
      by (rule mirror_change_upsert)
    then show ?thesis by (simp add: upsert_message_def mirror_change_same split: option.split)
  qed
  then have "message_change (messages d) (messages d')"
    if "upsert_message (message_row e i a c m) d = (x, d')" for a c x d'
    using that by (metis snd_conv)
  then show ?thesis
    unfolding Upsert_def by (simp add: mirror_change_same split: option.split sum.split prod.split)
qed

lemma message_step_change: "message_step d d' \<Longrightarrow> message_change (messages d) (messages d')"
proof (induction rule: message_step.induct)
  case (delete d e account chat tg at)
  have "message_change (messages d) (update_where p (delete_message_row e t) (messages d))" for p t
    by (rule mirror_change_update)
      (simp_all add: message_keep_def message_key_def message_ok_def delete_message_row_def)
  then show ?case by (simp add: MarkDeleted_def mirror_change_same split: option.split)
next
  case (tombstones d e account chat)
  let ?f = "\<lambda>a c m. if m_account m = a \<and> m_chat m = c \<and> \<not> m_deleted m
      then (case tombstone_of m d of None \<Rightarrow> m | Some t \<Rightarrow> m\<lparr>m_deleted := True, m_deleted_at := Some (ts_at t)\<rparr>)
      else m"
  have "message_change (messages d) (update_where (\<lambda>_. True) (?f a c) (messages d))" for a c
    by (rule mirror_change_update)
      (auto simp: message_keep_def message_key_def message_ok_def split: option.split)
  then show ?case
    by (simp add: ApplyTombstones_def mirror_change_same update_where_def split: option.split)
qed (simp_all add: message_upsert_change mirror_change_same)

lemma message_steps_change: "message_step\<^sup>*\<^sup>* d d' \<Longrightarrow> message_change\<^sup>*\<^sup>* (messages d) (messages d')"
  by (induction rule: rtranclp_induct) (auto dest: message_step_change intro: rtranclp.rtrancl_into_rtrancl)

section \<open>Deletions\<close>

lemma newest_active: "x \<in> set (newest n p d) \<Longrightarrow> \<exists>m \<in> set (active_messages d). p m \<and> x = msg_of_row m"
  using order_by_subset(2) [of message_order n "filter p (active_messages d)"] by (auto simp: newest_def)

lemma page_items_active:
  assumes "ListActivePageByChat e account chat c limit d = Inr pg" "x \<in> set (pg_items pg)"
  shows "\<exists>m \<in> set (active_messages d). x = msg_of_row m
    \<and> e_uuid e account = Some (m_account m) \<and> e_uuid e chat = Some (m_chat m)"
proof -
  obtain a k where ak: "e_uuid e account = Some a" "e_uuid e chat = Some k"
    using assms(1) by (auto simp: ListActivePageByChat_def Let_def split: if_splits option.splits)
  let ?items = "newest (page_limit limit + 1) (\<lambda>m. m_account m = a \<and> m_chat m = k \<and> before c m) d"
  have "set (pg_items pg) \<subseteq> set ?items"
    using assms(1) ak
    by (auto simp: ListActivePageByChat_def Let_def split: if_splits sum.splits dest: in_set_takeD)
  then show ?thesis using newest_active [of x "page_limit limit + 1"] assms(2) ak by fastforce
qed

text \<open>C29: A deletion is final: once \<open>MarkDeleted\<close> has marked a stored message, no later upsert,
  tombstone or deletion brings it back into the active messages, so no page of the chat ever
  shows it again.\<close>

theorem deleted_message_stays_hidden:
  assumes del: "MarkDeleted e account chat tg at d = (Inr (), d1)"
    and ids: "e_uuid e account = Some a" "e_uuid e chat = Some c"
    and stored: "m \<in> set (messages d)" "message_key m = (a, c, tg)"
    and one: "distinct (map message_key (messages d))"
    and later: "message_step\<^sup>*\<^sup>* d1 d2"
    and page: "ListActivePageByChat e' account' chat' cur limit d2 = Inr pg"
  shows "(a, c, tg) \<notin> message_key ` set (active_messages d2)
    \<and> (a, c, tg) \<notin> (\<lambda>x. (ms_account x, ms_chat x, ms_tg x)) ` set (pg_items pg)"
proof -
  let ?t = "if at = zero_time then e_clock e else at"
  have d1: "messages d1 = update_where (\<lambda>m. m_account m = a \<and> m_chat m = c \<and> m_tg m = tg)
      (delete_message_row e ?t) (messages d)"
    using del ids by (auto simp: MarkDeleted_def split: if_splits)
  have k: "m_account m = a" "m_chat m = c" "m_tg m = tg" using stored(2) by (auto simp: message_key_def)
  let ?m = "delete_message_row e ?t m"
  have m1: "?m \<in> set (messages d1)" unfolding d1 in_update_where using stored(1) k by blast
  have mk: "message_key ?m = (a, c, tg)" "m_deleted ?m"
    using stored(2) by (simp_all add: delete_message_row_def message_key_def)
  have "map message_key (messages d1) = map message_key (messages d)"
    unfolding d1 by (rule map_key_update_where) (simp add: delete_message_row_def message_key_def)
  then have one1: "distinct (map message_key (messages d1))" using one by simp
  have hidden: "m_deleted x" if "x \<in> set (messages d2)" "message_key x = (a, c, tg)" for x
    using message_table.steps_same_row [OF message_steps_change [OF later] one1 m1 that(1)] that(2) mk
    by (simp add: message_keep_def)
  then have "(a, c, tg) \<notin> message_key ` set (active_messages d2)"
    by (auto simp: active_messages_def message_active_def)
  moreover have "(ms_account x, ms_chat x, ms_tg x) \<in> message_key ` set (active_messages d2)"
    if "x \<in> set (pg_items pg)" for x
    using page_items_active [OF page that] by (auto simp: msg_of_row_def message_key_def)
  ultimately show ?thesis by auto
qed

section \<open>Versions\<close>

definition body :: "message \<Rightarrow> string \<times> string option \<times> string \<times> string option \<times> string \<times> time" where
  "body m = (m_type m, m_content m, m_entities m, m_forward m, m_meta m, version m)"

definition edited_later :: "time \<Rightarrow> message \<Rightarrow> bool" where
  "edited_later s m = (m_sent m = s \<and> (case m_edited m of None \<Rightarrow> True | Some t \<Rightarrow> s \<le> t))"

lemma merge_version:
  assumes "edited_later s new" "edited_later s old"
  shows "edited_later s (merge_message new old)" "version (merge_message new old) = max (version old) (version new)"
    "body (merge_message new old) = (if version old \<le> version new then body new else body old)"
proof -
  show v: "version (merge_message new old) = max (version old) (version new)"
    using assms
    by (auto simp: edited_later_def version_def merge_message_def sql_greatest_def max_def split: option.splits)
  show "edited_later s (merge_message new old)"
    using assms
    by (auto simp: edited_later_def merge_message_def sql_greatest_def max_def split: option.splits)
  show "body (merge_message new old) = (if version old \<le> version new then body new else body old)"
    by (simp add: body_def v max_def) (simp add: merge_message_def)
qed

lemma merges_newest:
  assumes "edited_later s old" "\<forall>n \<in> set ns. edited_later s n"
  shows "edited_later s (fold merge_message ns old)
    \<and> (\<exists>n \<in> set (old # ns). body (fold merge_message ns old) = body n
        \<and> (\<forall>x \<in> set (old # ns). version x \<le> version n))"
  using assms
proof (induction ns arbitrary: old)
  case (Cons n ns)
  let ?o = "merge_message n old"
  have m: "edited_later s ?o" "version ?o = max (version old) (version n)"
    "body ?o = (if version old \<le> version n then body n else body old)"
    using merge_version [of s n old] Cons.prems by auto
  obtain x where x: "x \<in> set (?o # ns)" "body (fold merge_message ns ?o) = body x"
    "\<forall>y \<in> set (?o # ns). version y \<le> version x"
    using Cons.IH [OF m(1)] Cons.prems by auto
  have e: "edited_later s (fold merge_message ns ?o)" using Cons.IH [OF m(1)] Cons.prems by auto
  have bound: "version y \<le> version x" if "y \<in> set (old # n # ns)" for y
    using x(3) m(2) that by auto
  show ?case
  proof (cases "x = ?o")
    case True
    then show ?thesis
      using e x(2) m(3) bound m(2)
      by (intro conjI bexI [of _ "if version old \<le> version n then n else old"]) (auto simp: max_def split: if_splits)
  next
    case False
    then show ?thesis using e x bound by (intro conjI bexI [of _ x]) auto
  qed
qed simp

abbreviation deliver :: "message list \<Rightarrow> message list \<Rightarrow> message list" where
  "deliver ns rs \<equiv> fold (upsert message_key merge_message) ns rs"

abbreviation row_of :: "uuid \<times> uuid \<times> int \<Rightarrow> message list \<Rightarrow> message option" where
  "row_of k rs \<equiv> find (\<lambda>r. message_key r = k) rs"

lemma row_of_upsert:
  assumes "message_key n = k"
  shows "row_of k (upsert message_key merge_message n rs) =
    Some (case row_of k rs of None \<Rightarrow> n | Some r \<Rightarrow> merge_message n r)"
proof (cases "row_of k rs")
  case None
  then have "\<not> exists_row (\<lambda>r. message_key r = message_key n) rs"
    using assms by (auto simp: find_None_iff exists_row_def)
  then show ?thesis using None assms by (simp add: upsert_def find_append)
next
  case (Some r)
  then have "exists_row (\<lambda>r. message_key r = message_key n) rs"
    using assms find_in_set [OF Some] by (auto simp: exists_row_def)
  then show ?thesis
    using Some assms find_in_set [OF Some]
    by (simp add: upsert_def find_update_where merge_message_key)
qed

lemma row_of_deliver:
  assumes "\<forall>n \<in> set ns. message_key n = k" "row_of k rs = Some r"
  shows "row_of k (deliver ns rs) = Some (fold merge_message ns r)"
  using assms by (induction ns arbitrary: rs r) (simp_all add: row_of_upsert)

text \<open>C30: The order in which versions of a message arrive does not matter: delivering the same
  versions (distinct edit times, none before the time of sending) in two orders, with or
  without repetitions, stores the same type, content, entities, forward and metadata, namely
  those of the newest version.\<close>

theorem arrival_order_irrelevant:
  assumes new: "row_of k rs = None" "row_of k rs' = None"
    and vs: "\<forall>n \<in> set ns. message_key n = k \<and> edited_later s n" "inj_on version (set ns)"
    and same: "set ns' = set ns" "ns \<noteq> []"
  shows "\<exists>n \<in> set ns. (\<forall>x \<in> set ns. version x \<le> version n)
    \<and> map_option body (row_of k (deliver ns rs)) = Some (body n)
    \<and> map_option body (row_of k (deliver ns' rs')) = Some (body n)"
proof -
  have one: "\<exists>n \<in> set us. (\<forall>x \<in> set us. version x \<le> version n)
      \<and> map_option body (row_of k (deliver us rs)) = Some (body n)"
    if us: "set us = set ns" "row_of k rs = None" for us rs
  proof -
    obtain u us' where u: "us = u # us'" using us same by (cases us) auto
    have "row_of k (upsert message_key merge_message u rs) = Some u"
      using row_of_upsert [of u k rs] us u vs(1) by auto
    then have "row_of k (deliver us rs) = Some (fold merge_message us' u)"
      using row_of_deliver [of us' k] us u vs(1) by auto
    moreover obtain n where "n \<in> set (u # us')" "body (fold merge_message us' u) = body n"
      "\<forall>x \<in> set (u # us'). version x \<le> version n"
      using merges_newest [of s u us'] us u vs(1) by (metis insertCI list.simps(15))
    ultimately show ?thesis using u by (intro bexI [of _ n]) auto
  qed
  obtain n where n: "n \<in> set ns" "\<forall>x \<in> set ns. version x \<le> version n"
    "map_option body (row_of k (deliver ns rs)) = Some (body n)"
    using one [OF refl new(1)] by blast
  obtain n' where n': "n' \<in> set ns" "\<forall>x \<in> set ns. version x \<le> version n'"
    "map_option body (row_of k (deliver ns' rs')) = Some (body n')"
    using one [OF same(1) new(2)] same(1) by auto
  have "n' = n" using vs(2) n(1,2) n'(1,2) by (meson antisym inj_on_def)
  then show ?thesis using n n'(3) by blast
qed

section \<open>Cursors\<close>

definition int64 :: "int \<Rightarrow> bool" where
  "int64 i = (- (2 ^ 63) \<le> i \<and> i < 2 ^ 63)"

lemma dec_int_itoa: "int64 i \<Longrightarrow> dec_int (JNum (itoa i)) = Some i"
  using parse_int_itoa [of 64 i] by (simp add: int64_def)

lemma cursor_fields:
  assumes "int64 t" "int64 i"
  shows "struct_field ''v'' dec_int 0 [(''v'', JNum (itoa 1)), (''t'', JNum (itoa t)), (''m'', JNum (itoa i))] = Some 1"
    "struct_field ''t'' dec_int 0 [(''v'', JNum (itoa 1)), (''t'', JNum (itoa t)), (''m'', JNum (itoa i))] = Some t"
    "struct_field ''m'' dec_int 0 [(''v'', JNum (itoa 1)), (''t'', JNum (itoa t)), (''m'', JNum (itoa i))] = Some i"
proof -
  have k: "fold_key ''v'' = ''V''" "fold_key ''t'' = ''T''" "fold_key ''m'' = ''M''" by code_simp+
  have "int64 1" by (simp add: int64_def)
  note d = dec_int_itoa [OF this] dec_int_itoa [OF assms(1)] dec_int_itoa [OF assms(2)]
  show "struct_field ''v'' dec_int 0 [(''v'', JNum (itoa 1)), (''t'', JNum (itoa t)), (''m'', JNum (itoa i))] = Some 1"
    "struct_field ''t'' dec_int 0 [(''v'', JNum (itoa 1)), (''t'', JNum (itoa t)), (''m'', JNum (itoa i))] = Some t"
    "struct_field ''m'' dec_int 0 [(''v'', JNum (itoa 1)), (''t'', JNum (itoa t)), (''m'', JNum (itoa i))] = Some i"
    using d by (simp_all add: struct_field_def k field_value_def del: dec_int.simps fold_key.simps)
qed

lemma decode_encoded:
  assumes "int64 (cu_sent c)" "int64 (cu_tg c)" "cu_sent c \<noteq> zero_time" "cu_tg c \<noteq> 0"
  shows "\<exists>s. EncodeCursor c = Inr s \<and> s \<noteq> []
    \<and> DecodeCursor s = (if cu_sent c \<le> 0 then Inl (Msg ''invalid cursor values'') else Inr c)"
proof -
  let ?t = "int_struct [(''v'', 1), (''t'', cu_sent c), (''m'', cu_tg c)]"
  have pk: "plain_key ''v''" "plain_key ''t''" "plain_key ''m''" by code_simp+
  have u: "unmarshal ?t = Some (JObj [(''v'', JNum (itoa 1)), (''t'', JNum (itoa (cu_sent c))), (''m'', JNum (itoa (cu_tg c)))])"
    using unmarshal_int_struct [of "[(''v'', 1), (''t'', cu_sent c), (''m'', cu_tg c)]"] pk by simp
  have "?t \<noteq> []" by (simp add: int_struct_def)
  then have ne: "b64_encode ?t \<noteq> []" using b64_encode_length [of ?t] by (cases ?t) auto
  have "DecodeCursor (b64_encode ?t) = (if cu_sent c \<le> 0 then Inl (Msg ''invalid cursor values'') else Inr c)"
    using ne assms(4) by (simp add: DecodeCursor_def Let_def trim_b64 b64_roundtrip u cursor_fields [OF assms(1,2)])
  then show ?thesis using assms(3,4) ne by (simp add: EncodeCursor_def)
qed

text \<open>C31: A page cursor survives its text form: for every time after the Unix epoch and every message
  id that is not zero, within 64 bits, \<open>EncodeCursor\<close> succeeds and \<open>DecodeCursor\<close> reads back exactly
  what it printed.  (At or before the epoch the cursor is printed and refused, as the next theorem
  shows.)
\<close>

theorem cursor_roundtrip:
  assumes "0 < cu_sent c" "cu_sent c < 2 ^ 63" "- (2 ^ 63) \<le> cu_tg c" "cu_tg c < 2 ^ 63" "cu_tg c \<noteq> 0"
  shows "\<exists>s. EncodeCursor c = Inr s \<and> DecodeCursor s = Inr c"
proof -
  have "int64 (cu_sent c)" "int64 (cu_tg c)" "cu_sent c \<noteq> zero_time"
    using assms by (auto simp: int64_def zero_time_def)
  then show ?thesis using decode_encoded [of c] assms(1,5) by auto
qed

text \<open>A page that ends at a message of the epoch or earlier gets a cursor that the next request
  rejects: \<open>EncodeCursor\<close> accepts such a time and \<open>DecodeCursor\<close> does not.\<close>

theorem cursor_before_epoch_rejected:
  assumes "cu_sent c \<le> 0" "- (2 ^ 63) \<le> cu_sent c" "cu_sent c \<noteq> zero_time"
    "- (2 ^ 63) \<le> cu_tg c" "cu_tg c < 2 ^ 63" "cu_tg c \<noteq> 0"
  shows "\<exists>s. EncodeCursor c = Inr s \<and> DecodeCursor s = Inl (Msg ''invalid cursor values'')"
proof -
  have "int64 (cu_sent c)" "int64 (cu_tg c)" using assms by (auto simp: int64_def)
  then show ?thesis using decode_encoded [of c] assms by auto
qed

section \<open>Pages\<close>

lemma desc_filter: "rev (sort_key g (filter P xs)) = filter P (rev (sort_key g xs))"
  by (simp add: filter_sort [symmetric] rev_filter [symmetric])

lemma desc_strict:
  assumes "distinct (map g xs)"
  shows "sorted_wrt (\<lambda>x y. g y < g x) (rev (sort_key g xs))"
proof -
  have "sorted (map g (sort_key g xs))" "distinct (map g (sort_key g xs))"
    using assms by (simp_all add: distinct_map)
  then have "sorted_wrt (<) (map g (sort_key g xs))" by (simp add: strict_sorted_iff)
  then show ?thesis by (simp add: sorted_wrt_map sorted_wrt_rev)
qed

lemma last_take_nth: "0 < n \<Longrightarrow> n \<le> length R \<Longrightarrow> last (take n R) = R ! (n - 1)"
  by (subst last_conv_nth) auto

lemma strict_filter_below:
  assumes "sorted_wrt (\<lambda>x y. g y < g x) (R :: 'r list)" "0 < n" "n \<le> length R"
  shows "filter (\<lambda>x. g x < (g (R ! (n - 1)) :: 'k::linorder)) R = drop n R"
proof -
  let ?x = "R ! (n - 1)"
  have split: "R = take n R @ drop n R" by simp
  have s: "sorted_wrt (\<lambda>x y. g y < g x) (take n R @ drop n R)" using assms(1) by simp
  have x: "?x \<in> set (take n R)"
    using assms(2,3) last_take_nth [of n R] last_in_set [of "take n R"] by (cases "R = []") auto
  have "\<not> g y < g ?x" if y: "y \<in> set (take n R)" for y
  proof -
    obtain i where i: "i < n" "y = R ! i" using y assms(3) by (auto simp: in_set_conv_nth)
    show ?thesis
    proof (cases "i = n - 1")
      case False
      then have "i < n - 1" "n - 1 < length R" using i assms(2,3) by auto
      from sorted_wrt_nth_less [OF assms(1) this] show ?thesis by (simp add: i)
    qed (simp add: i)
  qed
  moreover have "\<forall>x \<in> set (take n R). \<forall>y \<in> set (drop n R). g y < g x"
    using s unfolding sorted_wrt_append by blast
  then have "g y < g ?x" if "y \<in> set (drop n R)" for y
    using x that by blast
  ultimately have "filter (\<lambda>x. g x < g ?x) (take n R) = []" "filter (\<lambda>x. g x < g ?x) (drop n R) = drop n R"
    by (auto simp: filter_empty_conv filter_id_conv)
  then have "filter (\<lambda>x. g x < g ?x) (take n R @ drop n R) = drop n R" unfolding filter_append by simp
  then show ?thesis by simp
qed

definition chat_order :: "uuid \<Rightarrow> uuid \<Rightarrow> db \<Rightarrow> message list" where
  "chat_order a k d = rev (sort_key message_order (filter (\<lambda>m. m_account m = a \<and> m_chat m = k) (active_messages d)))"

lemma newest_order:
  "newest n (\<lambda>m. m_account m = a \<and> m_chat m = k \<and> before c m) d
     = map msg_of_row (take (nat n) (filter (before c) (chat_order a k d)))"
proof -
  have "filter (\<lambda>m. m_account m = a \<and> m_chat m = k \<and> before c m) (active_messages d)
      = filter (before c) (filter (\<lambda>m. m_account m = a \<and> m_chat m = k) (active_messages d))"
    by (auto simp: filter_filter intro: filter_cong)
  then show ?thesis by (simp add: newest_def order_by_desc_def desc_filter chat_order_def)
qed

definition readable :: "message \<Rightarrow> bool" where
  "readable m = (0 < m_sent m \<and> m_sent m < 2 ^ 63 \<and> int64 (m_tg m) \<and> m_tg m \<noteq> 0)"

definition cursor_of :: "message \<Rightarrow> cursor" where
  "cursor_of m = \<lparr>cu_sent = m_sent m, cu_tg = m_tg m\<rparr>"

lemma readable_cursor: "readable m \<Longrightarrow> \<exists>s. EncodeCursor (cursor_of m) = Inr s \<and> s \<noteq> [] \<and> DecodeCursor s = Inr (cursor_of m)"
  using decode_encoded [of "cursor_of m"]
  by (auto simp: readable_def cursor_of_def int64_def zero_time_def)

lemma before_cursor: "before (Some (cursor_of m)) x = (message_order x < message_order m)"
  by (simp add: before_def cursor_of_def message_order_def)

text \<open>One page, over the rows that are left.\<close>

lemma page_step:
  assumes ids: "e_uuid e account = Some a" "e_uuid e chat = Some k"
    and up: "\<not> e_fail e ''messages.ListActivePageByChat''"
    and R: "R = filter (before c) (chat_order a k d)"
    and n: "n = nat (page_limit limit)"
    and ok: "\<forall>m \<in> set R. readable m"
  shows "length R \<le> n \<Longrightarrow> ListActivePageByChat e account chat c limit d = Inr \<lparr>pg_items = map msg_of_row R, pg_next = []\<rparr>"
    and "n < length R \<Longrightarrow> \<exists>s. ListActivePageByChat e account chat c limit d
        = Inr \<lparr>pg_items = map msg_of_row (take n R), pg_next = s\<rparr>
      \<and> s \<noteq> [] \<and> DecodeCursor s = Inr (cursor_of (R ! (n - 1)))"
proof -
  have lim: "1 \<le> page_limit limit" using normalizeLimit_bounds [of 30 100 limit] by (simp add: page_limit_def)
  then have n1: "nat (page_limit limit + 1) = Suc n" "0 < n" "int n = page_limit limit" unfolding n by auto
  have items: "newest (page_limit limit + 1) (\<lambda>m. m_account m = a \<and> m_chat m = k \<and> before c m) d
      = map msg_of_row (take (Suc n) R)"
    unfolding newest_order R n1(1) by simp
  show "ListActivePageByChat e account chat c limit d = Inr \<lparr>pg_items = map msg_of_row R, pg_next = []\<rparr>"
    if "length R \<le> n"
  proof -
    have "int (length (take (Suc n) R)) \<le> page_limit limit" using that n1(3) by simp
    then show ?thesis using ids up that by (simp add: ListActivePageByChat_def Let_def items)
  qed
  show "\<exists>s. ListActivePageByChat e account chat c limit d
        = Inr \<lparr>pg_items = map msg_of_row (take n R), pg_next = s\<rparr>
      \<and> s \<noteq> [] \<and> DecodeCursor s = Inr (cursor_of (R ! (n - 1)))" if len: "n < length R"
  proof -
    have more: "\<not> int (length (map msg_of_row (take (Suc n) R))) \<le> page_limit limit" using len n1(3) by simp
    have kept: "take (nat (page_limit limit)) (map msg_of_row (take (Suc n) R)) = map msg_of_row (take n R)"
      by (simp add: take_map n)
    have "last (take n R) = R ! (n - 1)" using len n1(2) by (simp add: last_take_nth)
    then have fin: "last (map msg_of_row (take n R)) = msg_of_row (R ! (n - 1))"
      using len n1(2) last_map [of "take n R" msg_of_row] by (cases R) auto
    have cur: "\<lparr>cu_sent = ms_sent (msg_of_row m), cu_tg = ms_tg (msg_of_row m)\<rparr> = cursor_of m" for m
      by (simp add: msg_of_row_def cursor_of_def)
    obtain s where s: "EncodeCursor (cursor_of (R ! (n - 1))) = Inr s" "s \<noteq> []"
      "DecodeCursor s = Inr (cursor_of (R ! (n - 1)))"
      using readable_cursor [of "R ! (n - 1)"] ok len by auto
    then show ?thesis
      using ids up more by (simp add: ListActivePageByChat_def Let_def items kept fin cur del: length_map length_take)
  qed
qed

text \<open>A reader that follows the cursors; \<open>fuel\<close> bounds the number of pages.\<close>

fun read_pages :: "nat \<Rightarrow> (cursor option \<Rightarrow> page result) \<Rightarrow> cursor option \<Rightarrow> msg list option" where
  "read_pages 0 f c = None"
| "read_pages (Suc fuel) f c =
     (case f c of
        Inl err \<Rightarrow> None
      | Inr p \<Rightarrow>
          if pg_next p = [] then Some (pg_items p)
          else (case DecodeCursor (pg_next p) of
                  Inl err \<Rightarrow> None
                | Inr k \<Rightarrow> map_option (\<lambda>ms. pg_items p @ ms) (read_pages fuel f (Some k))))"

lemma read_rest:
  assumes ids: "e_uuid e account = Some a" "e_uuid e chat = Some k"
    and up: "\<not> e_fail e ''messages.ListActivePageByChat''"
    and strict: "sorted_wrt (\<lambda>x y. message_order y < message_order x) (chat_order a k d)"
    and ok: "\<And>m. m \<in> set (chat_order a k d) \<Longrightarrow> readable m"
    and fuel: "length (filter (before c) (chat_order a k d)) < fuel"
  shows "read_pages fuel (\<lambda>c. ListActivePageByChat e account chat c limit d) c
    = Some (map msg_of_row (filter (before c) (chat_order a k d)))"
  using fuel
proof (induction fuel arbitrary: c)
  case (Suc fuel)
  define R where "R = filter (before c) (chat_order a k d)"
  define n where "n = nat (page_limit limit)"
  have n0: "0 < n" using normalizeLimit_bounds [of 30 100 limit] by (simp add: page_limit_def n_def)
  have okR: "\<forall>m \<in> set R. readable m" using ok by (simp add: R_def)
  note page = page_step [where e = e and account = account and chat = chat, OF ids up R_def n_def okR]
  show ?case
  proof (cases "length R \<le> n")
    case True
    then show ?thesis using page(1) by (simp add: R_def)
  next
    case False
    then have len: "n < length R" by simp
    let ?x = "R ! (n - 1)"
    obtain s where s: "ListActivePageByChat e account chat c limit d
        = Inr \<lparr>pg_items = map msg_of_row (take n R), pg_next = s\<rparr>" "s \<noteq> []" "DecodeCursor s = Inr (cursor_of ?x)"
      using page(2) [OF len] by blast
    have xR: "before c ?x" using len nth_mem [of "n - 1" R] by (auto simp: R_def)
    have "before c y" if "message_order y < message_order ?x" for y
      using that xR by (cases c) (auto simp: before_def)
    then have "filter (before (Some (cursor_of ?x))) (chat_order a k d) = filter (\<lambda>y. message_order y < message_order ?x) R"
      unfolding R_def filter_filter before_cursor by (intro filter_cong refl) auto
    also have "\<dots> = drop n R"
      by (rule strict_filter_below) (use strict n0 len in \<open>auto simp: R_def intro: sorted_wrt_filter\<close>)
    finally have rest: "filter (before (Some (cursor_of ?x))) (chat_order a k d) = drop n R" .
    have "length (drop n R) < fuel" using Suc.prems n0 len by (simp add: R_def)
    then have "read_pages fuel (\<lambda>c. ListActivePageByChat e account chat c limit d) (Some (cursor_of ?x))
        = Some (map msg_of_row (drop n R))"
      using Suc.IH [of "Some (cursor_of ?x)"] rest by simp
    moreover have "map msg_of_row (take n R) @ map msg_of_row (drop n R) = map msg_of_row R"
      by (metis append_take_drop_id map_append)
    ultimately show ?thesis using s by (simp add: R_def)
  qed
qed simp

text \<open>C32: Paging terminates and is complete: a reader that starts without a cursor and follows the
  cursors gets, after finitely many pages of any requested size, every active message of the
  chat exactly once, newest first.  The messages of the table are dated after the Unix epoch, and the
  table does not change between the pages.
\<close>

theorem pages_read_everything:
  assumes ids: "e_uuid e account = Some a" "e_uuid e chat = Some k"
    and up: "\<not> e_fail e ''messages.ListActivePageByChat''"
    and one: "distinct (map message_key (messages d))"
    and ok: "\<And>m. m \<in> set (messages d) \<Longrightarrow> readable m"
    and fuel: "length (messages d) < fuel"
  shows "read_pages fuel (\<lambda>c. ListActivePageByChat e account chat c limit d) None
    = Some (map msg_of_row (rev (sort_key message_order
        (filter (\<lambda>m. m_account m = a \<and> m_chat m = k) (active_messages d)))))"
proof -
  let ?A = "filter (\<lambda>m. m_account m = a \<and> m_chat m = k) (active_messages d)"
  have sub: "set ?A \<subseteq> set (messages d)" by (auto simp: active_messages_def)
  have "distinct (map message_key ?A)" using one by (simp add: active_messages_def distinct_map_filter)
  then have "distinct ?A" "inj_on message_key (set ?A)" by (simp_all add: distinct_map)
  moreover have "inj_on message_order (set ?A)"
    using calculation(2) by (auto simp: inj_on_def message_order_def message_key_def)
  ultimately have "distinct (map message_order ?A)" by (simp add: distinct_map)
  then have strict: "sorted_wrt (\<lambda>x y. message_order y < message_order x) (chat_order a k d)"
    unfolding chat_order_def by (rule desc_strict)
  have "length (filter (before None) (chat_order a k d)) \<le> length (messages d)"
    by (simp add: before_def chat_order_def active_messages_def)
  then show ?thesis
    using read_rest [OF ids up strict, of None fuel limit] ok fuel sub
    by (auto simp: before_def chat_order_def)
qed

section \<open>A small chat\<close>

definition demo_chat :: chat where
  "demo_chat = \<lparr>ch_id = ''k1'', ch_account = ''a1'', ch_tg = 7, ch_type = ''private'', ch_title = None,
     ch_username = None, ch_photo = None, ch_meta = ''{}'', ch_last_id = None, ch_last_at = None,
     ch_deleted = False, ch_deleted_at = None, ch_updated = 1\<rparr>"

definition demo_message :: "uuid \<Rightarrow> int \<Rightarrow> time \<Rightarrow> time option \<Rightarrow> string \<Rightarrow> message" where
  "demo_message i tg sent edited text =
     \<lparr>m_id = i, m_account = ''a1'', m_chat = ''k1'', m_tg = tg, m_sender = None, m_sender_chat = None,
      m_type = ''messageText'', m_content = Some text, m_entities = ''[]'', m_reply = None, m_forward = None,
      m_meta = ''{}'', m_sent = sent, m_edited = edited, m_deleted = False, m_deleted_at = None, m_updated = sent\<rparr>"

definition demo_mirror :: db where
  "demo_mirror = demo_db\<lparr>chats := [demo_chat],
     messages := [demo_message ''m1'' 1 100 None ''one'', demo_message ''m2'' 2 200 None ''two'',
                  demo_message ''m3'' 3 200 None ''three'']\<rparr>"

lemmas demo_mirror_defs = demo_mirror_def demo_chat_def demo_message_def demo_db_def empty_db_def

lemma demo_env_mirror: "e_uuid demo_env s = Some s" "\<not> e_fail demo_env l" "e_clock demo_env = 5000000"
  by (simp_all add: demo_env_def)

lemma demo_not_blank: "\<not> blank ''a1''" "\<not> blank ''k1''"
  by code_simp+

theorem deleted_message_stays_hidden_witness:
  "\<exists>d1 pg. MarkDeleted demo_env ''a1'' ''k1'' 2 300 demo_mirror = (Inr (), d1)
     \<and> ListActivePageByChat demo_env ''a1'' ''k1'' None 30 (d1\<lparr>tombstones := []\<rparr>) = Inr pg
     \<and> (''a1'', ''k1'', 2) \<notin> (\<lambda>x. (ms_account x, ms_chat x, ms_tg x)) ` set (pg_items pg)"
proof -
  obtain d1 where d1: "MarkDeleted demo_env ''a1'' ''k1'' 2 300 demo_mirror = (Inr (), d1)"
    by (simp add: MarkDeleted_def demo_env_mirror demo_not_blank)
  let ?d = "d1\<lparr>tombstones := []\<rparr>"
  have "length (messages ?d) = 3"
    using d1 by (auto simp: MarkDeleted_def demo_env_mirror demo_not_blank demo_mirror_defs update_where_def)
  then have "length (newest 31 (\<lambda>m. m_account m = ''a1'' \<and> m_chat m = ''k1'' \<and> before None m) ?d) \<le> 30"
    using length_filter_le [of "message_active ?d" "messages ?d"]
      length_filter_le [of "\<lambda>m. m_account m = ''a1'' \<and> m_chat m = ''k1'' \<and> before None m" "active_messages ?d"]
    by (simp add: newest_def order_by_desc_def active_messages_def)
  then obtain pg where pg: "ListActivePageByChat demo_env ''a1'' ''k1'' None 30 ?d = Inr pg"
    by (simp add: ListActivePageByChat_def page_limit_def normalizeLimit_def demo_env_mirror)
  have later: "message_step\<^sup>*\<^sup>* d1 ?d" by (rule r_into_rtranclp, rule message_step.other) simp
  have "(''a1'', ''k1'', 2) \<notin> (\<lambda>x. (ms_account x, ms_chat x, ms_tg x)) ` set (pg_items pg)"
    using deleted_message_stays_hidden [OF d1 _ _ _ _ _ later pg, of "''a1''" "''k1''" "demo_message ''m2'' 2 200 None ''two''"]
    by (simp add: demo_env_mirror demo_mirror_defs message_key_def)
  then show ?thesis using d1 pg by blast
qed

theorem arrival_order_irrelevant_witness:
  "let v0 = demo_message ''m1'' 1 100 None ''one''; v1 = demo_message ''m2'' 1 100 (Some 150) ''uno'';
       k = (''a1'', ''k1'', 1) in
   map_option body (row_of k (deliver [v0, v1] [])) = Some (body v1)
   \<and> map_option body (row_of k (deliver [v1, v0, v1] [])) = Some (body v1)"
proof -
  let ?v0 = "demo_message ''m1'' 1 100 None ''one''" and ?v1 = "demo_message ''m2'' 1 100 (Some 150) ''uno''"
  have v: "version ?v0 = 100" "version ?v1 = 150" by (simp_all add: version_def demo_message_def)
  have "\<exists>n \<in> set [?v0, ?v1]. (\<forall>x \<in> set [?v0, ?v1]. version x \<le> version n)
    \<and> map_option body (row_of (''a1'', ''k1'', 1) (deliver [?v0, ?v1] [])) = Some (body n)
    \<and> map_option body (row_of (''a1'', ''k1'', 1) (deliver [?v1, ?v0, ?v1] [])) = Some (body n)"
    by (rule arrival_order_irrelevant [where s = 100])
      (auto simp: v message_key_def edited_later_def, simp_all add: demo_message_def)
  then show ?thesis by (auto simp: v)
qed

theorem cursor_roundtrip_witness:
  "\<exists>s. EncodeCursor \<lparr>cu_sent = 1700000000000000000, cu_tg = 42\<rparr> = Inr s
     \<and> DecodeCursor s = Inr \<lparr>cu_sent = 1700000000000000000, cu_tg = 42\<rparr>"
  by (rule cursor_roundtrip) simp_all

theorem cursor_before_epoch_rejected_witness:
  "\<exists>s. EncodeCursor \<lparr>cu_sent = 0, cu_tg = 42\<rparr> = Inr s
     \<and> DecodeCursor s = Inl (Msg ''invalid cursor values'')"
  by (rule cursor_before_epoch_rejected) (simp_all add: zero_time_def)

theorem pages_read_everything_witness:
  "map_option (map ms_tg) (read_pages 4 (\<lambda>c. ListActivePageByChat demo_env ''a1'' ''k1'' c 1 demo_mirror) None)
     = Some [3, 2, 1]"
proof -
  have "read_pages 4 (\<lambda>c. ListActivePageByChat demo_env ''a1'' ''k1'' c 1 demo_mirror) None
    = Some (map msg_of_row (rev (sort_key message_order
        (filter (\<lambda>m. m_account m = ''a1'' \<and> m_chat m = ''k1'') (active_messages demo_mirror)))))"
    by (rule pages_read_everything)
      (auto simp: demo_env_mirror demo_mirror_defs message_key_def readable_def int64_def)
  then show ?thesis
    by (simp add: active_messages_def message_active_def exists_row_def demo_mirror_defs message_order_def msg_of_row_def)
qed

end
