(* ===== verification/Snapshots.thy ===== *)
theory Snapshots
  imports Contacts Members MessageTheorems
begin

text \<open>
  What the reads and the snapshots of the mirror mean: a contact list is a set under insertion,
  removal and intersection, a paged member snapshot leaves exactly the members that its pages
  listed, and a text search finds exactly the rows that contain the text.
\<close>

lemma rows_map:
  assumes "\<And>c. k (f c) = k c" "\<And>c. P (f c) = Q c"
  shows "{k c | c. c \<in> set (map f xs) \<and> P c} = {k c | c. c \<in> set xs \<and> Q c}"
proof (intro set_eqI iffI)
  fix x assume "x \<in> {k c | c. c \<in> set (map f xs) \<and> P c}"
  then obtain c where "c \<in> set xs" "x = k (f c)" "P (f c)" by auto
  then show "x \<in> {k c | c. c \<in> set xs \<and> Q c}" using assms by auto
next
  fix x assume "x \<in> {k c | c. c \<in> set xs \<and> Q c}"
  then obtain c where "c \<in> set xs" "x = k c" "Q c" by auto
  then show "x \<in> {k c | c. c \<in> set (map f xs) \<and> P c}" using assms by (auto intro!: exI [of _ "f c"])
qed

section \<open>Contacts as a set\<close>

definition contact_set :: "uuid \<Rightarrow> db \<Rightarrow> int set" where
  "contact_set a d = {ct_tg c | c. c \<in> set (active_contacts d) \<and> ct_account c = a}"

datatype contact_op =
  PutContact uuid contact_info bytes
| DropContact int
| KeepContacts "int list"

fun run_contact :: "env \<Rightarrow> string \<Rightarrow> contact_op \<Rightarrow> db \<Rightarrow> unit result \<times> db" where
  "run_contact e account (PutContact i c phone) d = map_prod (map_sum id (\<lambda>_. ())) id (Contacts.Upsert e i account c phone d)"
| "run_contact e account (DropContact tg) d = Contacts.MarkDeleted e account tg d"
| "run_contact e account (KeepContacts seen) d = map_prod (map_sum id (\<lambda>_. ())) id (Contacts.MarkMissingDeleted e account seen d)"

fun spec_contact :: "contact_op \<Rightarrow> int set \<Rightarrow> int set" where
  "spec_contact (PutContact i c phone) s = insert (ki_tg c) s"
| "spec_contact (DropContact tg) s = s - {tg}"
| "spec_contact (KeepContacts seen) s = s \<inter> set seen"

definition listed :: "uuid \<Rightarrow> contact list \<Rightarrow> int set" where
  "listed a rs = {ct_tg c | c. c \<in> set rs \<and> (ct_account c = a \<and> \<not> ct_deleted c)}"

lemma contact_set_rows: "contact_set a d = listed a (contacts d)"
  by (auto simp: contact_set_def listed_def active_contacts_def)

lemma listed_delete:
  "listed b (update_where p (delete_contact_row e) rs)
     = {ct_tg c | c. c \<in> set rs \<and> (ct_account c = b \<and> \<not> ct_deleted c \<and> \<not> p c)}"
  unfolding listed_def update_where_def
  by (rule rows_map) (auto simp: delete_contact_row_def)

lemma listed_upsert:
  assumes "\<not> ct_deleted new"
  shows "listed b (upsert contact_key merge_contact new rs)
    = (if b = ct_account new then insert (ct_tg new) (listed b rs) else listed b rs)"
proof (cases "exists_row (\<lambda>r. contact_key r = contact_key new) rs")
  case True
  then obtain r where r: "r \<in> set rs" "contact_key r = contact_key new"
    by (auto simp: exists_row_def)
  let ?f = "\<lambda>r. if contact_key r = contact_key new then merge_contact new r else r"
  have f: "ct_tg (?f c) = ct_tg c" "ct_account (?f c) = ct_account c"
    "ct_deleted (?f c) = (ct_deleted c \<and> contact_key c \<noteq> contact_key new)" for c
    by (simp_all add: merge_contact_def)
  have u: "upsert contact_key merge_contact new rs = map ?f rs"
    using True by (simp add: upsert_def update_where_def)
  have all: "listed b (upsert contact_key merge_contact new rs)
    = {ct_tg c | c. c \<in> set rs \<and> (ct_account c = b \<and> \<not> (ct_deleted c \<and> contact_key c \<noteq> contact_key new))}"
    unfolding listed_def u by (rule rows_map) (simp_all add: f del: if_split)
  have k: "contact_key c = contact_key new \<longleftrightarrow> ct_account c = ct_account new \<and> ct_tg c = ct_tg new" for c
    by (simp add: contact_key_def)
  show ?thesis
    unfolding all unfolding listed_def k using r(1) r(2) [unfolded k] by (cases "b = ct_account new", auto) metis
next
  case False
  then show ?thesis using assms by (auto simp: listed_def upsert_def)
qed

lemma upsert_contact_set:
  assumes "upsert_contact new d = (Inr k, d')" "\<not> ct_deleted new"
  shows "contact_set b d' = (if b = ct_account new then insert (ct_tg new) (contact_set b d) else contact_set b d)"
proof -
  have "contacts d' = upsert contact_key merge_contact new (contacts d)"
    using assms(1) by (auto simp: upsert_contact_def split: option.splits if_splits)
  then show ?thesis using listed_upsert [OF assms(2), of b "contacts d"] by (simp add: contact_set_rows)
qed

text \<open>C33: The contact list of an account is a set: a successful upsert inserts the user, a successful
  \<open>MarkDeleted\<close> removes it, a successful snapshot intersects with the users it lists, a failed
  operation changes nothing, and no operation touches the list of another account.\<close>

theorem contacts_refine_set:
  assumes "e_uuid e (trim_space account) = Some a"
  shows "contact_set a (snd (run_contact e account op d))
      = (if isl (fst (run_contact e account op d)) then contact_set a d else spec_contact op (contact_set a d))
    \<and> (b \<noteq> a \<longrightarrow> contact_set b (snd (run_contact e account op d)) = contact_set b d)"
proof (cases op)
  case (PutContact i c phone)
  obtain r d' where r: "Contacts.Upsert e i account c phone d = (r, d')" by fastforce
  have row: "\<not> ct_deleted (contact_row e i a c phone)" "ct_account (contact_row e i a c phone) = a"
    "ct_tg (contact_row e i a c phone) = ki_tg c" by (simp_all add: contact_row_def)
  have "isl r \<and> d' = d \<or> (\<exists>k. r = Inr k \<and> upsert_contact (contact_row e i a c phone) d = (Inr k, d'))"
    using r assms by (auto simp: Contacts.Upsert_def Let_def split: if_splits sum.splits prod.splits)
  then consider "isl r" "d' = d" | k where "r = Inr k" "upsert_contact (contact_row e i a c phone) d = (Inr k, d')"
    by blast
  then show ?thesis
  proof cases
    case 1
    then show ?thesis by (cases r) (auto simp: PutContact r)
  next
    case 2
    then show ?thesis using upsert_contact_set [OF 2(2) row(1)] row by (auto simp: PutContact r)
  qed
next
  case (DropContact tg)
  show ?thesis
    using assms by (auto simp: DropContact Contacts.MarkDeleted_def listed_delete contact_set_rows) (auto simp: listed_def)
next
  case (KeepContacts seen)
  show ?thesis
    using assms
    by (auto simp: KeepContacts Contacts.MarkMissingDeleted_def Let_def listed_delete contact_set_rows) (auto simp: listed_def)
qed

section \<open>Paged member snapshots\<close>

definition member_kind :: "member_info \<Rightarrow> string" where
  "member_kind m = (let kind = to_lower (trim_space (bi_peer_type m)) in if kind = [] then ''user'' else kind)"

definition member_set :: "uuid \<Rightarrow> uuid \<Rightarrow> db \<Rightarrow> (string \<times> int) set" where
  "member_set a c d = {(mb_peer_type m, mb_peer m) | m.
     m \<in> set (members d) \<and> mb_account m = a \<and> mb_chat m = c \<and> \<not> mb_deleted m}"

text \<open>The upserts of the pages, each at its own time; \<open>None\<close> when one of them fails.\<close>

fun list_members :: "string \<Rightarrow> string \<Rightarrow> (env \<times> uuid \<times> member_info) list \<Rightarrow> db \<Rightarrow> db option" where
  "list_members account chat [] d = Some d"
| "list_members account chat ((e, i, m) # rest) d =
     (case Members.Upsert e i account chat m d of
        (Inl err, _) \<Rightarrow> None
      | (Inr _, d') \<Rightarrow> list_members account chat rest d')"

definition in_chat :: "uuid \<Rightarrow> uuid \<Rightarrow> member \<Rightarrow> bool" where
  "in_chat a c r = (mb_account r = a \<and> mb_chat r = c)"

definition row_listed :: "uuid \<Rightarrow> uuid \<Rightarrow> time \<Rightarrow> (string \<times> int) set \<Rightarrow> member list \<Rightarrow> bool" where
  "row_listed a c s L rs =
     ((\<forall>r \<in> set rs. in_chat a c r \<and> \<not> mb_deleted r \<longrightarrow> ((mb_peer_type r, mb_peer r) \<in> L) = (s \<le> mb_last_seen r))
      \<and> (\<forall>p \<in> L. \<exists>r \<in> set rs. in_chat a c r \<and> (mb_peer_type r, mb_peer r) = p \<and> \<not> mb_deleted r))"

lemma upsert_listed:
  assumes "row_listed a c s L rs" "in_chat a c new" "s \<le> mb_last_seen new" "\<not> mb_deleted new"
  shows "row_listed a c s (insert (mb_peer_type new, mb_peer new) L) (upsert member_key merge_member new rs)"
proof (cases "exists_row (\<lambda>r. member_key r = member_key new) rs")
  case True
  then obtain q0 where q0: "q0 \<in> set rs" "member_key q0 = member_key new" by (auto simp: exists_row_def)
  let ?f = "\<lambda>r. if member_key r = member_key new then merge_member new r else r"
  have u: "upsert member_key merge_member new rs = map ?f rs"
    using True by (simp add: upsert_def update_where_def)
  have f: "mb_peer_type (?f r) = mb_peer_type r" "mb_peer (?f r) = mb_peer r" "in_chat a c (?f r) = in_chat a c r"
    "mb_deleted (?f r) = (mb_deleted r \<and> member_key r \<noteq> member_key new)"
    "mb_last_seen (?f r) = (if member_key r = member_key new then mb_last_seen new else mb_last_seen r)" for r
    by (simp_all add: merge_member_def in_chat_def)
  have k: "in_chat a c r \<Longrightarrow> (member_key r = member_key new) = ((mb_peer_type r, mb_peer r) = (mb_peer_type new, mb_peer new))" for r
    using assms(2) by (auto simp: member_key_def in_chat_def)
  have qc: "in_chat a c q0" using q0(2) assms(2) by (simp add: member_key_def in_chat_def)
  show ?thesis
    unfolding row_listed_def u
  proof (intro conjI ballI impI)
    fix r assume "r \<in> set (map ?f rs)" "in_chat a c r \<and> \<not> mb_deleted r"
    then obtain q where q0: "q \<in> set rs" "r = ?f q" "in_chat a c (?f q)" "\<not> mb_deleted (?f q)"
      unfolding set_map by blast
    then have q: "q \<in> set rs" "r = ?f q" "in_chat a c q" "mb_deleted q \<longrightarrow> member_key q = member_key new"
      unfolding f by blast+
    show "((mb_peer_type r, mb_peer r) \<in> insert (mb_peer_type new, mb_peer new) L) = (s \<le> mb_last_seen r)"
    proof (cases "member_key q = member_key new")
      case True
      then show ?thesis unfolding q(2) f using k [OF q(3)] assms(3) by auto
    next
      case False
      then show ?thesis unfolding q(2) f using k [OF q(3)] assms(1) q by (auto simp: row_listed_def)
    qed
  next
    fix p assume "p \<in> insert (mb_peer_type new, mb_peer new) L"
    then consider "p = (mb_peer_type new, mb_peer new)" | "p \<in> L" by blast
    then show "\<exists>r \<in> set (map ?f rs). in_chat a c r \<and> (mb_peer_type r, mb_peer r) = p \<and> \<not> mb_deleted r"
    proof cases
      case 1
      then show ?thesis using q0 qc f [of q0] by (intro bexI [of _ "?f q0"]) (auto simp: member_key_def)
    next
      case 2
      then obtain r where "r \<in> set rs" "in_chat a c r" "(mb_peer_type r, mb_peer r) = p" "\<not> mb_deleted r"
        using assms(1) unfolding row_listed_def by blast
      then show ?thesis using f [of r] by (intro bexI [of _ "?f r"]) auto
    qed
  qed
next
  case False
  then have u: "upsert member_key merge_member new rs = rs @ [new]" by (simp add: upsert_def)
  have fresh: "(mb_peer_type r, mb_peer r) \<noteq> (mb_peer_type new, mb_peer new)" if "r \<in> set rs" "in_chat a c r" for r
    using that False assms(2) by (auto simp: exists_row_def member_key_def in_chat_def)
  show ?thesis
    unfolding row_listed_def u
    using assms fresh unfolding row_listed_def by (auto 0 4)
qed

lemma Upsert_member_row:
  assumes "Members.Upsert e i account chat m d = (Inr k, d')"
    "e_uuid e (trim_space account) = Some a" "e_uuid e (trim_space chat) = Some c"
  shows "members d' = upsert member_key merge_member (member_row e i a c (member_kind m) m) (members d)"
proof -
  have "upsert_member (member_row e i a c (member_kind m) m) d = (Inr k, d')"
    using assms by (auto simp: Members.Upsert_def Let_def member_kind_def split: if_splits sum.splits prod.splits)
  then show ?thesis by (auto simp: upsert_member_def split: option.splits if_splits)
qed

lemma list_members_listed:
  assumes "list_members account chat pages d = Some d'"
    "list_all (\<lambda>(e, i, m). e_uuid e (trim_space account) = Some a \<and> e_uuid e (trim_space chat) = Some c \<and> s \<le> e_now e) pages"
    "row_listed a c s L (members d)"
  shows "row_listed a c s (L \<union> (\<lambda>(e, i, m). (member_kind m, bi_peer m)) ` set pages) (members d')"
  using assms
proof (induction pages arbitrary: d L)
  case (Cons x pages)
  obtain e i m where x: "x = (e, i, m)" by (cases x)
  obtain k d1 where u: "Members.Upsert e i account chat m d = (Inr k, d1)" "list_members account chat pages d1 = Some d'"
    using Cons.prems(1) x by (auto split: prod.splits sum.splits)
  let ?r = "member_row e i a c (member_kind m) m"
  have r: "in_chat a c ?r" "s \<le> mb_last_seen ?r" "\<not> mb_deleted ?r" "(mb_peer_type ?r, mb_peer ?r) = (member_kind m, bi_peer m)"
    using Cons.prems(2) x by (simp_all add: member_row_def in_chat_def)
  have "row_listed a c s (insert (member_kind m, bi_peer m) L) (members d1)"
    using upsert_listed [OF Cons.prems(3) r(1,2,3)] Upsert_member_row [OF u(1), of a c] Cons.prems(2) x r(4) by simp
  from Cons.IH [OF u(2) _ this] Cons.prems(2) show ?case by (simp add: x Un_insert_left)
qed simp

lemma member_set_swept:
  assumes "members d2 = update_where (\<lambda>r. in_chat a c r \<and> \<not> mb_deleted r \<and> mb_last_seen r < s)
      (delete_member_row e) (members d1)"
  shows "member_set a c d2 = {(mb_peer_type r, mb_peer r) | r.
     r \<in> set (members d1) \<and> in_chat a c r \<and> \<not> mb_deleted r \<and> s \<le> mb_last_seen r}"
  unfolding member_set_def assms update_where_def
  by (rule rows_map) (auto simp: delete_member_row_def in_chat_def)

text \<open>A paged member snapshot is exact when the worker's clock is not ahead: when every page's upserts succeed at database times not
  before the start of the snapshot and no row of the chat was seen at or after that start
  before, \<open>MarkNotSeenSince\<close> leaves exactly the members that the pages listed.\<close>

theorem member_snapshot_exact:
  assumes pages: "list_members account chat pages d = Some d1"
    and at: "list_all (\<lambda>(e, i, m). e_uuid e (trim_space account) = Some a \<and> e_uuid e (trim_space chat) = Some c
        \<and> started \<le> e_now e) pages"
    and old: "list_all (\<lambda>r. mb_last_seen r < started) (members d)"
    and ids: "e_uuid e (trim_space account) = Some a" "e_uuid e (trim_space chat) = Some c"
    and fin: "Members.MarkNotSeenSince e account chat started d1 = (Inr n, d2)"
  shows "member_set a c d2 = (\<lambda>(e, i, m). (member_kind m, bi_peer m)) ` set pages"
proof -
  let ?L = "(\<lambda>(e, i, m). (member_kind m, bi_peer m)) ` set pages"
  have "row_listed a c started {} (members d)" using old by (auto simp: row_listed_def list_all_iff)
  from list_members_listed [OF pages at this] have l: "row_listed a c started ?L (members d1)" by simp
  have d2: "members d2 = update_where (\<lambda>r. in_chat a c r \<and> \<not> mb_deleted r \<and> mb_last_seen r < started)
      (delete_member_row e) (members d1)"
    using fin ids by (auto simp: MarkNotSeenSince_def delete_members_def Let_def in_chat_def split: if_splits)
  note kept = member_set_swept [OF d2]
  show ?thesis
  proof (intro set_eqI iffI)
    fix p assume "p \<in> member_set a c d2"
    then show "p \<in> ?L" using l unfolding kept row_listed_def by blast
  next
    fix p assume p: "p \<in> ?L"
    then obtain r where r: "r \<in> set (members d1)" "in_chat a c r" "(mb_peer_type r, mb_peer r) = p" "\<not> mb_deleted r"
      using l unfolding row_listed_def by blast
    moreover have "started \<le> mb_last_seen r" using l r p unfolding row_listed_def by blast
    ultimately show "p \<in> member_set a c d2" unfolding kept by blast
  qed
qed

text \<open>The start of a snapshot is read from the worker's clock and the rows are stamped by the
  database's: when the worker's clock is ahead, the snapshot deletes every member it has listed.\<close>

theorem member_snapshot_skewed_clock:
  assumes pages: "list_members account chat pages d = Some d1"
    and ids: "e_uuid e (trim_space account) = Some a" "e_uuid e (trim_space chat) = Some c"
    and behind: "list_all (\<lambda>r. mb_last_seen r < started) (members d1)"
    and fin: "Members.MarkNotSeenSince e account chat started d1 = (Inr n, d2)"
  shows "member_set a c d2 = {}"
proof -
  have d2: "members d2 = update_where (\<lambda>r. in_chat a c r \<and> \<not> mb_deleted r \<and> mb_last_seen r < started)
      (delete_member_row e) (members d1)"
    using fin ids by (auto simp: MarkNotSeenSince_def delete_members_def Let_def in_chat_def split: if_splits)
  show ?thesis using behind unfolding member_set_swept [OF d2] by (auto simp: list_all_iff)
qed

section \<open>Search\<close>

definition contains :: "string \<Rightarrow> string \<Rightarrow> bool" where
  "contains s q = (\<exists>a b. s = a @ q @ b)"

definition newest_with :: "int \<Rightarrow> (message \<Rightarrow> bool) \<Rightarrow> db \<Rightarrow> msg list" where
  "newest_with limit p d =
     map msg_of_row (take (nat (page_limit limit)) (rev (sort_key message_order (filter p (active_messages d)))))"

lemma content_matches_contains:
  "lower_plain lc \<Longrightarrow> content_matches lc q m = (\<exists>s. m_content m = Some s \<and> contains (lc_lower lc s) (lc_lower lc q))"
  by (simp add: content_matches_def ilike_contains contains_def split: option.split)

text \<open>A search is a substring search, whatever wildcard or escape characters the query holds: the
  answer is the newest active messages of the account (or of the chat) whose text contains the
  trimmed query up to case, and nothing else.\<close>

theorem search_is_substring:
  assumes "lower_plain lc"
  shows "\<forall>r. (Messages.SearchActive e lc account query limit d = Inr r \<longrightarrow>
        (\<exists>a. e_uuid e account = Some a
           \<and> r = newest_with limit (\<lambda>m. m_account m = a \<and> (\<exists>s. m_content m = Some s
                   \<and> contains (lc_lower lc s) (lc_lower lc (trim_space query)))) d))
    \<and> (SearchActiveChat e lc account chat query limit d = Inr r \<longrightarrow>
        (\<exists>a k. e_uuid e account = Some a \<and> e_uuid e chat = Some k
           \<and> r = newest_with limit (\<lambda>m. m_account m = a \<and> m_chat m = k \<and> (\<exists>s. m_content m = Some s
                   \<and> contains (lc_lower lc s) (lc_lower lc (trim_space query)))) d))"
  using assms
  by (auto simp: Messages.SearchActive_def SearchActiveChat_def Let_def newest_def order_by_desc_def newest_with_def
      content_matches_contains split: if_splits option.splits)

section \<open>Concrete runs\<close>

definition demo_info :: contact_info where
  "demo_info = \<lparr>ki_id = ''x'', ki_tg = 5, ki_first = None, ki_last = None, ki_username = None,
     ki_mutual = False, ki_meta = None\<rparr>"

theorem contacts_refine_set_witness:
  "contact_set ''a1'' (snd (run_contact demo_env ''a1'' (PutContact ''x1'' demo_info []) demo_db)) = {5}
   \<and> contact_set ''a2'' (snd (run_contact demo_env ''a1'' (PutContact ''x1'' demo_info []) demo_db)) = {}"
proof -
  have t: "trim_space ''a1'' = ''a1''" by code_simp
  have ok: "\<not> isl (fst (run_contact demo_env ''a1'' (PutContact ''x1'' demo_info []) demo_db))"
    by (simp add: Contacts.Upsert_def Let_def t demo_env_mirror demo_info_def trimPtr_def opt_text_def upsert_contact_def
        contact_row_def demo_db_def demo_account_def empty_db_def)
  have none: "contact_set a demo_db = {}" for a by (simp add: contact_set_rows listed_def demo_db_def empty_db_def)
  show ?thesis
    using contacts_refine_set [of demo_env "''a1''" "''a1''" "PutContact ''x1'' demo_info []" demo_db "''a2''"] ok none
    by (simp add: t demo_env_mirror demo_info_def del: run_contact.simps)
qed

definition demo_peer :: "int \<Rightarrow> member_info" where
  "demo_peer i = \<lparr>bi_id = [], bi_peer_type = ''User'', bi_peer = i, bi_first = None, bi_last = None,
     bi_username = None, bi_role = None, bi_meta = None, bi_last_seen = 0\<rparr>"

definition demo_pages :: "(env \<times> uuid \<times> member_info) list" where
  "demo_pages = [(demo_env, ''b1'', demo_peer 11), (demo_env, ''b2'', demo_peer 12)]"

lemma demo_trim_ids: "trim_space ''a1'' = ''a1''" "trim_space ''k1'' = ''k1''"
  "to_lower (trim_space ''User'') = ''user''"
  by code_simp+

lemma demo_kind: "member_kind (demo_peer i) = ''user''"
  by (simp add: member_kind_def demo_peer_def demo_trim_ids)

definition demo_members :: "member list" where
  "demo_members = [member_row demo_env ''b1'' ''a1'' ''k1'' ''user'' (demo_peer 11),
                   member_row demo_env ''b2'' ''a1'' ''k1'' ''user'' (demo_peer 12)]"

lemma demo_upsert_member:
  assumes "i \<noteq> 0" "\<forall>r \<in> set (members d). mb_peer r \<noteq> i \<and> mb_id r \<noteq> b" "''a1'' \<in> acc_id ` set (accounts d)"
    "demo_chat \<in> set (chats d)"
  shows "Members.Upsert demo_env b ''a1'' ''k1'' (demo_peer i) d
    = (Inr b, d\<lparr>members := members d @ [member_row demo_env b ''a1'' ''k1'' ''user'' (demo_peer i)]\<rparr>)"
proof -
  let ?r = "member_row demo_env b ''a1'' ''k1'' ''user'' (demo_peer i)"
  have r: "mb_peer ?r = i" "mb_account ?r = ''a1''" "mb_chat ?r = ''k1''" "mb_id ?r = b"
    by (simp_all add: member_row_def demo_peer_def)
  have "find (\<lambda>r. member_key r = member_key ?r) (members d) = None"
    using assms(2) by (auto simp: find_None_iff member_key_def r)
  moreover have "\<not> exists_row (\<lambda>r. member_key r = member_key ?r) (members d)"
    using assms(2) by (auto simp: exists_row_def member_key_def r)
  moreover have "(''k1'', ''a1'') \<in> (\<lambda>c. (ch_id c, ch_account c)) ` set (chats d)"
    using imageI [OF assms(4), of "\<lambda>c. (ch_id c, ch_account c)"] by (simp add: demo_chat_def)
  moreover have "b \<notin> mb_id ` set (members d)" using assms(2) by auto
  ultimately have "upsert_member ?r d = (Inr b, d\<lparr>members := members d @ [?r]\<rparr>)"
    using assms(3) by (simp add: upsert_member_def r upsert_def)
  moreover have "bi_peer (demo_peer i) \<noteq> 0" "bi_peer_type (demo_peer i) = ''User''"
    "bi_first (demo_peer i) = None" "bi_last (demo_peer i) = None" "bi_username (demo_peer i) = None"
    "bi_role (demo_peer i) = None"
    using assms(1) by (simp_all add: demo_peer_def)
  ultimately show ?thesis
    by (simp add: Members.Upsert_def Let_def demo_trim_ids demo_env_mirror trimPtr_def opt_text_def)
qed

lemma demo_listed: "list_members ''a1'' ''k1'' demo_pages demo_mirror = Some (demo_mirror\<lparr>members := demo_members\<rparr>)"
proof -
  have a: "''a1'' \<in> acc_id ` set (accounts demo_mirror)" "demo_chat \<in> set (chats demo_mirror)" "members demo_mirror = []"
    by (simp_all add: demo_mirror_defs demo_account_def)
  have fresh: "mb_peer (member_row demo_env b ''a1'' ''k1'' ''user'' (demo_peer i)) = i"
    "mb_id (member_row demo_env b ''a1'' ''k1'' ''user'' (demo_peer i)) = b" for b i
    by (simp_all add: member_row_def demo_peer_def)
  show ?thesis
    using a fresh by (simp add: demo_pages_def demo_upsert_member demo_members_def)
qed

theorem member_snapshot_exact_witness:
  "\<exists>n d2. Members.MarkNotSeenSince demo_env ''a1'' ''k1'' 4000000 (demo_mirror\<lparr>members := demo_members\<rparr>) = (Inr n, d2)
     \<and> member_set ''a1'' ''k1'' d2 = {(''user'', 11), (''user'', 12)}"
proof -
  obtain n d2 where fin: "Members.MarkNotSeenSince demo_env ''a1'' ''k1'' 4000000 (demo_mirror\<lparr>members := demo_members\<rparr>) = (Inr n, d2)"
    by (simp add: MarkNotSeenSince_def delete_members_def Let_def demo_env_mirror demo_trim_ids)
  have "member_set ''a1'' ''k1'' d2 = (\<lambda>(e, i, m). (member_kind m, bi_peer m)) ` set demo_pages"
    by (rule member_snapshot_exact [OF demo_listed _ _ _ _ fin])
      (simp_all add: demo_pages_def demo_trim_ids demo_env_mirror demo_mirror_defs, simp_all add: demo_env_def)
  then show ?thesis using fin by (simp add: demo_pages_def demo_kind) (simp add: demo_peer_def)
qed

theorem member_snapshot_skewed_clock_witness:
  "\<exists>n d2. Members.MarkNotSeenSince demo_env ''a1'' ''k1'' 5000001 (demo_mirror\<lparr>members := demo_members\<rparr>) = (Inr n, d2)
     \<and> member_set ''a1'' ''k1'' d2 = {}"
proof -
  obtain n d2 where fin: "Members.MarkNotSeenSince demo_env ''a1'' ''k1'' 5000001 (demo_mirror\<lparr>members := demo_members\<rparr>) = (Inr n, d2)"
    by (simp add: MarkNotSeenSince_def delete_members_def Let_def demo_env_mirror demo_trim_ids)
  have "member_set ''a1'' ''k1'' d2 = {}"
    by (rule member_snapshot_skewed_clock [OF demo_listed _ _ _ fin])
      (simp_all add: demo_trim_ids demo_env_mirror demo_members_def member_row_def, simp_all add: demo_env_def)
  then show ?thesis using fin by blast
qed

theorem search_is_substring_witness:
  "Messages.SearchActive demo_env ascii_rules ''a1'' ''%'' 30 demo_mirror = Inr []"
proof -
  have q: "trim_space ''%'' = ''%''" "pg_text ''%''" "to_lower ''%'' = ''%''" by code_simp+
  obtain r where r: "Messages.SearchActive demo_env ascii_rules ''a1'' ''%'' 30 demo_mirror = Inr r"
    by (simp add: Messages.SearchActive_def q demo_env_mirror)
  have no: "\<not> contains s ''%''" if "CHR ''%'' \<notin> set s" for s using that by (auto simp: contains_def)
  have "\<not> contains (lc_lower ascii_rules s) ''%''" if "m \<in> set (messages demo_mirror)" "m_content m = Some s" for m s
  proof (rule no)
    have "list_all (\<lambda>m. case m_content m of None \<Rightarrow> True | Some s \<Rightarrow> CHR ''%'' \<notin> set (to_lower s)) (messages demo_mirror)"
      by (simp add: demo_mirror_defs to_lower_def) code_simp
    then show "CHR ''%'' \<notin> set (lc_lower ascii_rules s)"
      using that by (auto simp: ascii_rules_def list_all_iff)
  qed
  then have none: "filter (\<lambda>m. m_account m = a \<and> (\<exists>s. m_content m = Some s \<and> contains (lc_lower ascii_rules s) ''%'')) (active_messages demo_mirror) = []" for a
    by (auto simp: filter_empty_conv active_messages_def)
  have "lc_lower ascii_rules ''%'' = ''%''" by (simp add: ascii_rules_def q)
  then have "r = []"
    using search_is_substring [OF ascii_lower_plain, of demo_env "''a1''" "''%''" 30 demo_mirror] r none
    by (auto simp: q newest_with_def)
  then show ?thesis using r by simp
qed

end
