(* ===== verification/Media.thy ===== *)
theory Media
  imports Messages
begin

text \<open>
  \<open>internal/media\<close>: the attachments of messages (\<open>repository.go\<close>, \<open>claim.go\<close>) and
  their storage (\<open>service.go\<close>).  A row is pending, downloading, ready, failed or skipped;
  only a claim starts a download, and a claim counts an attempt.
\<close>

section \<open>Rows\<close>

record media_item =  \<comment> \<open>media.Item\<close>
  mi_id :: uuid
  mi_message :: uuid
  mi_account :: uuid
  mi_chat :: uuid
  mi_type :: string
  mi_file :: "int option"
  mi_unique :: "string option"
  mi_object :: "string option"
  mi_mime :: "string option"
  mi_name :: "string option"
  mi_size :: "int option"
  mi_sha :: "bytes option"
  mi_status :: media_status
  mi_attempts :: int
  mi_last_attempt :: "time option"
  mi_downloaded :: "time option"
  mi_error :: "string option"

text \<open>The unique indexes: by the stable key where there is one, else by the file id.\<close>

definition media_conflict :: "media \<Rightarrow> media \<Rightarrow> bool" where
  "media_conflict new r =
     (md_message r = md_message new \<and> md_type r = md_type new
      \<and> (if md_unique new \<noteq> None then md_unique r = md_unique new
         else md_unique r = None \<and> md_file new \<noteq> None \<and> md_file r = md_file new))"

definition merge_media :: "media \<Rightarrow> media \<Rightarrow> media" where
  "merge_media new old =
     old\<lparr>md_file := md_file new, md_unique := coalesce (md_unique new) (md_unique old),
         md_mime := coalesce (md_mime new) (md_mime old), md_name := coalesce (md_name new) (md_name old),
         md_size := coalesce (md_size new) (md_size old), md_updated := md_updated new\<rparr>"

definition insert_media :: "media \<Rightarrow> db \<Rightarrow> uuid result \<times> db" where
  "insert_media new d =
     (if md_message new \<notin> m_id ` set (messages d) then (Inl (DbErr ''foreign key''), d)
      else if md_id new \<in> md_id ` set (media_rows d) then (Inl (DbErr ''duplicate key''), d)
      else (Inr (md_id new), d\<lparr>media_rows := media_rows d @ [new]\<rparr>))"

text \<open>
  \<open>RegisterPending\<close>.  The INSERT without a file id has no conflict clause, so a second
  skipped attachment with the same stable key is refused by the index.
\<close>

definition RegisterPending ::
    "env \<Rightarrow> uuid \<Rightarrow> string \<Rightarrow> string \<Rightarrow> int option \<Rightarrow> string option \<Rightarrow> string option \<Rightarrow> string option
       \<Rightarrow> int option \<Rightarrow> db \<Rightarrow> uuid result \<times> db" where
  [handler_defs]: "RegisterPending e i message_id kind file unique mime name fsize d =
     (let message_id = trim_space message_id; kind = trim_space kind in
      if message_id = [] \<or> kind = [] then (Inl (Msg ''message id and media type are required''), d)
      else if (case fsize of None \<Rightarrow> False | Some n \<Rightarrow> n < 0) then (Inl (Msg ''file size cannot be negative''), d)
      else if e_fail e ''media.RegisterPending'' then (Inl (Wrapped ''register message media'' (DbErr ''insert'')), d)
      else (case e_uuid e message_id of
          None \<Rightarrow> (Inl (Wrapped ''register message media'' (DbErr ''invalid uuid'')), d)
        | Some m \<Rightarrow>
            if \<not> pg_text kind \<or> \<not> opt_text (trimPtr unique) \<or> \<not> opt_text (trimPtr mime) \<or> \<not> opt_text (trimPtr name)
              then (Inl (Wrapped ''register message media'' (DbErr ''invalid byte sequence'')), d)
            else
              (let new = \<lparr>md_id = i, md_message = m, md_type = kind, md_file = file, md_unique = trimPtr unique,
                          md_object = None, md_mime = trimPtr mime, md_name = trimPtr name, md_size = fsize,
                          md_sha = None, md_status = (if file = None then MSkipped else MPending),
                          md_attempts = 0, md_last_attempt = None, md_downloaded = None, md_error = None,
                          md_created = e_now e, md_updated = e_now e\<rparr>
               in case find (media_conflict new) (media_rows d) of
                    None \<Rightarrow>
                      (case insert_media new d of
                         (Inl err, d') \<Rightarrow> (Inl (Wrapped ''register message media'' err), d)
                       | (Inr k, d') \<Rightarrow> (Inr k, d'))
                  | Some r \<Rightarrow>
                      if file = None then (Inl (Wrapped ''register message media'' (DbErr ''duplicate key'')), d)
                      else (Inr (md_id r),
                            d\<lparr>media_rows := update_where (media_conflict new) (merge_media new) (media_rows d)\<rparr>))))"

section \<open>Downloads\<close>

definition claim_row :: "env \<Rightarrow> media \<Rightarrow> media" where
  "claim_row e r =
     r\<lparr>md_status := MDownloading, md_attempts := md_attempts r + 1, md_last_attempt := Some (e_now e),
       md_error := None, md_updated := e_now e\<rparr>"

definition attempts_cap :: "int \<Rightarrow> int" where
  "attempts_cap n = (if n \<le> 0 then 5 else n)"

definition claimable :: "int \<Rightarrow> media \<Rightarrow> bool" where
  "claimable cap r = (md_status r \<in> {MPending, MFailed} \<and> md_attempts r < attempts_cap cap)"

definition staleDownloadAfter :: time where
  "staleDownloadAfter = 15 * 60 * 1000000"

definition claim_stale :: "env \<Rightarrow> int \<Rightarrow> media \<Rightarrow> bool" where
  "claim_stale e cap r =
     (md_attempts r < attempts_cap cap
      \<and> (md_status r \<in> {MPending, MFailed}
         \<or> md_status r = MDownloading
            \<and> (case md_last_attempt r of None \<Rightarrow> False | Some t \<Rightarrow> t \<le> e_now e - staleDownloadAfter)))"

text \<open>An UPDATE of one media row: whether a row was changed.\<close>

definition update_media ::
    "env \<Rightarrow> string \<Rightarrow> string \<Rightarrow> string \<Rightarrow> (media \<Rightarrow> bool) \<Rightarrow> (media \<Rightarrow> media) \<Rightarrow> db \<Rightarrow> bool result \<times> db" where
  [handler_defs]: "update_media e label what media_id p f d =
     (if e_fail e label then (Inl (Wrapped what (DbErr ''update'')), d)
      else (case e_uuid e (trim_space media_id) of
          None \<Rightarrow> (Inl (Wrapped what (DbErr ''invalid uuid'')), d)
        | Some i \<Rightarrow>
            (let here = (\<lambda>r. md_id r = i \<and> p r)
             in (Inr (affected here (media_rows d) \<noteq> 0), d\<lparr>media_rows := update_where here f (media_rows d)\<rparr>))))"

definition ClaimDownload :: "env \<Rightarrow> string \<Rightarrow> int \<Rightarrow> db \<Rightarrow> bool result \<times> db" where
  [handler_defs]: "ClaimDownload e media_id cap d =
     update_media e ''media.ClaimDownload'' ''claim media download'' media_id (claimable cap) (claim_row e) d"

definition ClaimDownloadRecoverable :: "env \<Rightarrow> string \<Rightarrow> int \<Rightarrow> db \<Rightarrow> bool result \<times> db" where
  [handler_defs]: "ClaimDownloadRecoverable e media_id cap d =
     update_media e ''media.ClaimDownloadRecoverable'' ''claim recoverable media download'' media_id
       (claim_stale e cap) (claim_row e) d"

definition downloading :: "media \<Rightarrow> bool" where
  "downloading r = (md_status r = MDownloading)"

definition ready_row :: "env \<Rightarrow> string \<Rightarrow> string \<Rightarrow> int \<Rightarrow> bytes \<Rightarrow> media \<Rightarrow> media" where
  "ready_row e key mime fsize sha r =
     r\<lparr>md_object := Some key, md_mime := coalesce (nullif_empty mime) (md_mime r), md_size := Some fsize,
       md_sha := Some sha, md_status := MReady, md_downloaded := Some (e_now e), md_error := None,
       md_updated := e_now e\<rparr>"

definition MarkReady ::
    "env \<Rightarrow> string \<Rightarrow> string \<Rightarrow> string \<Rightarrow> int \<Rightarrow> bytes \<Rightarrow> db \<Rightarrow> unit result \<times> db" where
  [handler_defs]: "MarkReady e media_id key mime fsize sha d =
     (let media_id = trim_space media_id; key = trim_space key in
      if media_id = [] \<or> key = [] then (Inl (Msg ''media id and object key are required''), d)
      else if fsize < 0 then (Inl (Msg ''file size cannot be negative''), d)
      else if \<not> pg_text key \<or> \<not> pg_text (trim_space mime)
        then (Inl (Wrapped ''mark media ready'' (DbErr ''invalid byte sequence'')), d)
      else (case update_media e ''media.MarkReady'' ''mark media ready'' media_id downloading
                   (ready_row e key (trim_space mime) fsize sha) d of
          (Inl err, d') \<Rightarrow> (Inl err, d')
        | (Inr hit, d') \<Rightarrow>
            if hit then (Inr (), d')
            else (Inl (Msg ''media download is not owned or no longer downloading''), d')))"

definition failed_row :: "env \<Rightarrow> string \<Rightarrow> media \<Rightarrow> media" where
  "failed_row e m r = r\<lparr>md_status := MFailed, md_error := Some m, md_updated := e_now e\<rparr>"

text \<open>\<open>MarkFailed\<close>; \<open>cause\<close> is the text of the error, None for a nil error.\<close>

definition MarkFailed :: "env \<Rightarrow> string \<Rightarrow> string option \<Rightarrow> db \<Rightarrow> unit result \<times> db" where
  [handler_defs]: "MarkFailed e media_id cause d =
     (let m = take 4000 (case cause of None \<Rightarrow> ''media download failed'' | Some t \<Rightarrow> t) in
      if \<not> pg_text m then (Inl (Wrapped ''mark media failed'' (DbErr ''invalid byte sequence'')), d)
      else (case update_media e ''media.MarkFailed'' ''mark media failed'' media_id downloading (failed_row e m) d of
          (Inl err, d') \<Rightarrow> (Inl err, d')
        | (Inr hit, d') \<Rightarrow> if hit then (Inr (), d') else (Inl NoRows, d')))"

section \<open>Reads\<close>

definition media_message :: "db \<Rightarrow> media \<Rightarrow> message option" where
  "media_message d r = find (\<lambda>m. m_id m = md_message r) (messages d)"

text \<open>The view \<open>active_message_media\<close>: the rows with their message.\<close>

definition active_media :: "db \<Rightarrow> (media \<times> message) list" where
  "active_media d =
     [(r, m). r \<leftarrow> media_rows d, m \<leftarrow> active_messages d, m_id m = md_message r]"

definition all_media :: "db \<Rightarrow> (media \<times> message) list" where
  "all_media d = [(r, m). r \<leftarrow> media_rows d, m \<leftarrow> messages d, m_id m = md_message r]"

definition item_of :: "media \<times> message \<Rightarrow> media_item" where  \<comment> \<open>\<open>scanItem\<close>\<close>
  "item_of x =
     (case x of (r, m) \<Rightarrow>
        \<lparr>mi_id = md_id r, mi_message = md_message r, mi_account = m_account m, mi_chat = m_chat m,
         mi_type = md_type r, mi_file = md_file r, mi_unique = md_unique r, mi_object = md_object r,
         mi_mime = md_mime r, mi_name = md_name r, mi_size = md_size r, mi_sha = md_sha r,
         mi_status = md_status r, mi_attempts = md_attempts r, mi_last_attempt = md_last_attempt r,
         mi_downloaded = md_downloaded r, mi_error = md_error r\<rparr>)"

definition get_item ::
    "env \<Rightarrow> string \<Rightarrow> (db \<Rightarrow> (media \<times> message) list) \<Rightarrow> string \<Rightarrow> string \<Rightarrow> db \<Rightarrow> media_item result" where
  [handler_defs]: "get_item e label view account media_id d =
     (if e_fail e label then Inl (Wrapped ''scan media item'' (DbErr ''select''))
      else (case (e_uuid e (trim_space account), e_uuid e (trim_space media_id)) of
          (Some a, Some i) \<Rightarrow>
            (case find (\<lambda>(r, m). m_account m = a \<and> md_id r = i) (view d) of
               None \<Rightarrow> Inl NoRows
             | Some x \<Rightarrow> Inr (item_of x))
        | _ \<Rightarrow> Inl (Wrapped ''scan media item'' (DbErr ''invalid uuid''))))"

definition GetActive :: "env \<Rightarrow> string \<Rightarrow> string \<Rightarrow> db \<Rightarrow> media_item result" where
  [handler_defs]: "GetActive e account media_id d = get_item e ''media.GetActive'' active_media account media_id d"

definition GetForWorker :: "env \<Rightarrow> string \<Rightarrow> string \<Rightarrow> db \<Rightarrow> media_item result" where
  [handler_defs]: "GetForWorker e account media_id d = get_item e ''media.GetForWorker'' all_media account media_id d"

definition DownloadSource :: "env \<Rightarrow> string \<Rightarrow> string \<Rightarrow> db \<Rightarrow> (int \<times> int) result" where
  [handler_defs]: "DownloadSource e account media_id d =
     (if e_fail e ''media.DownloadSource'' then Inl (DbErr ''select'')
      else (case (e_uuid e account, e_uuid e media_id) of
          (Some a, Some i) \<Rightarrow>
            (case [(ch_tg c, m_tg m). (r, m) \<leftarrow> active_media d, m_account m = a \<and> md_id r = i,
                     c \<leftarrow> active_chats d, ch_id c = m_chat m] of
               [] \<Rightarrow> Inl NoRows
             | x # _ \<Rightarrow> Inr x)
        | _ \<Rightarrow> Inl (DbErr ''invalid uuid'')))"

section \<open>Storage (service.go)\<close>

text \<open>
  The object store is a map from keys to contents and content types.  \<open>rd\<close> is what the
  reader yields, None for a nil reader, and \<open>put\<close> the outcome of storing it under a key with
  a declared size and content type: the text of an error, or the bytes that were read.
\<close>

type_synonym store = "string \<Rightarrow> (bytes \<times> string) option"

definition ObjectKey :: "string \<Rightarrow> string \<Rightarrow> string result" where
  "ObjectKey account media_id =
     (let account = trim_space account; media_id = trim_space media_id in
      if account = [] \<or> media_id = [] then Inl (Msg ''account id and media id are required'')
      else if CHR ''/'' \<in> set account \<or> CHR 0x5C \<in> set account \<or> CHR ''/'' \<in> set media_id \<or> CHR 0x5C \<in> set media_id
        then Inl (Msg ''invalid object key identifier'')
      else Inr (''accounts/'' @ account @ ''/media/'' @ media_id))"

text \<open>The digest is that of the bytes the store has read.\<close>

type_synonym putter = "string \<Rightarrow> bytes \<Rightarrow> int \<Rightarrow> string \<Rightarrow> string + bytes"

definition StoreDownload ::
    "env \<Rightarrow> putter \<Rightarrow> string \<Rightarrow> string \<Rightarrow> bytes option \<Rightarrow> int \<Rightarrow> string \<Rightarrow> store \<times> db
       \<Rightarrow> unit result \<times> store \<times> db" where
  [handler_defs]: "StoreDownload e put account media_id rd fsize mime w =
     (case w of (st, d) \<Rightarrow>
       (case rd of
          None \<Rightarrow> (Inl (Msg ''media reader is required''), w)
        | Some content \<Rightarrow>
            if fsize < 0 then (Inl (Msg ''media size cannot be negative''), w)
            else (case ObjectKey account media_id of
                Inl err \<Rightarrow> (Inl err, w)
              | Inr key \<Rightarrow>
                  (case put key content fsize (trim_space mime) of
                     Inl m \<Rightarrow>
                       (Inl (Wrapped ''store downloaded media'' (Msg m)), st, snd (MarkFailed e media_id (Some m) d))
                   | Inr body \<Rightarrow>
                       (let st' = st(key \<mapsto> (body, trim_space mime)) in
                        case MarkReady e media_id key (trim_space mime) fsize (e_sha e body) d of
                          (Inl err, d') \<Rightarrow> (Inl (Wrapped ''persist downloaded media state'' err), st', d')
                        | (Inr _, d') \<Rightarrow> (Inr (), st', d'))))))"

definition CheckReady :: "env \<Rightarrow> string \<Rightarrow> string \<Rightarrow> db \<Rightarrow> unit result" where
  [handler_defs]: "CheckReady e account media_id d =
     (case GetActive e account media_id d of
        Inl err \<Rightarrow> Inl err
      | Inr item \<Rightarrow> if mi_status item \<noteq> MReady \<or> mi_object item = None then Inl MediaNotReady else Inr ())"

text \<open>\<open>OpenRead\<close>: content, size, content type and file name.\<close>

definition OpenRead :: "env \<Rightarrow> string \<Rightarrow> string \<Rightarrow> store \<times> db \<Rightarrow> (bytes \<times> int \<times> string \<times> string) result" where
  [handler_defs]: "OpenRead e account media_id w =
     (case GetActive e account media_id (snd w) of
        Inl err \<Rightarrow> Inl err
      | Inr item \<Rightarrow>
          (case mi_object item of
             None \<Rightarrow> Inl MediaNotReady
           | Some key \<Rightarrow>
               if mi_status item \<noteq> MReady then Inl MediaNotReady
               else if e_fail e ''store.Get'' then Inl (Msg ''get'')
               else (case fst w key of
                   None \<Rightarrow> Inl (Msg ''no such object'')
                 | Some (body, mime) \<Rightarrow>
                     Inr (body, int (length body), mime,
                          case mi_name item of None \<Rightarrow> ''download'' | Some n \<Rightarrow> n))))"

text \<open>\<open>CreateReadURL\<close>; \<open>presign\<close> is what the object store signs for a key and a file name.\<close>

definition CreateReadURL ::
    "env \<Rightarrow> (string \<Rightarrow> string \<Rightarrow> string result) \<Rightarrow> string \<Rightarrow> string \<Rightarrow> db \<Rightarrow> (string \<times> time) result" where
  [handler_defs]: "CreateReadURL e presign account media_id d =
     (case GetActive e account media_id d of
        Inl err \<Rightarrow> Inl err
      | Inr item \<Rightarrow>
          (case mi_object item of
             None \<Rightarrow> Inl MediaNotReady
           | Some key \<Rightarrow>
               if mi_status item \<noteq> MReady \<or> blank key then Inl MediaNotReady
               else (case presign key (or_empty (mi_name item)) of
                   Inl err \<Rightarrow> Inl (Wrapped ''create media read url'' err)
                 | Inr u \<Rightarrow> Inr (u, e_clock e + 5 * 60 * 1000000))))"

end
