(* ===== verification/MediaTheorems.thy ===== *)
theory MediaTheorems
  imports Media Accounts
begin

text \<open>
  The life of an attachment: its attempts are counted and bounded, a stored file is never
  replaced, and a claim excludes every other claim for a quarter of an hour unless the
  download ends.
\<close>

section \<open>The table\<close>

inductive media_step :: "int \<Rightarrow> db \<Rightarrow> db \<Rightarrow> bool" for cap where
  register: "media_step cap d (snd (RegisterPending e i msg kind fl unique mime name len d))"
| claim: "media_step cap d (snd (ClaimDownload e media_id cap d))"
| recover: "media_step cap d (snd (ClaimDownloadRecoverable e media_id cap d))"
| ready: "media_step cap d (snd (MarkReady e media_id key mime len sha d))"
| failed: "media_step cap d (snd (MarkFailed e media_id cause d))"
| other: "media_rows d' = media_rows d \<Longrightarrow> media_step cap d d'"

text \<open>
  A row that agrees with itself: the object, its digest and its time are there exactly for a stored
  file, the error exactly for a failed download; what was never claimed has no attempts, what was
  has one at least and the time of the last; and only a skipped attachment may lack a Telegram file.
\<close>

definition media_ok :: "int \<Rightarrow> media \<Rightarrow> bool" where
  "media_ok cap r =
     (0 \<le> md_attempts r \<and> md_attempts r \<le> attempts_cap cap
      \<and> (md_object r \<noteq> None) = (md_status r = MReady)
      \<and> (md_sha r \<noteq> None) = (md_status r = MReady)
      \<and> (md_downloaded r \<noteq> None) = (md_status r = MReady)
      \<and> (md_error r \<noteq> None) = (md_status r = MFailed)
      \<and> (md_status r \<in> {MPending, MSkipped} \<longrightarrow> md_attempts r = 0)
      \<and> (md_status r \<in> {MDownloading, MReady, MFailed} \<longrightarrow> 1 \<le> md_attempts r \<and> md_last_attempt r \<noteq> None)
      \<and> (md_status r \<noteq> MSkipped \<longrightarrow> md_file r \<noteq> None)
      \<and> (case md_size r of None \<Rightarrow> True | Some n \<Rightarrow> 0 \<le> n))"

text \<open>What a registration does to a row in its way: without a file id it is refused.\<close>

definition register_merge :: "media \<Rightarrow> media \<Rightarrow> media" where
  "register_merge new old = (if md_file new = None then old else merge_media new old)"

definition media_keep :: "media \<Rightarrow> media \<Rightarrow> bool" where
  "media_keep r r' =
     (md_id r' = md_id r \<and> md_message r' = md_message r \<and> md_type r' = md_type r
      \<and> md_attempts r \<le> md_attempts r'
      \<and> (md_status r = MReady \<longrightarrow> md_status r' = MReady \<and> md_object r' = md_object r \<and> md_sha r' = md_sha r)
      \<and> (md_status r = MSkipped \<longrightarrow> md_status r' = MSkipped))"

lemma merge_media_ok: "media_ok cap old \<Longrightarrow> media_ok cap new \<Longrightarrow> md_file new \<noteq> None \<Longrightarrow> media_ok cap (merge_media new old)"
  unfolding media_ok_def by (cases "md_size new") (auto simp: merge_media_def coalesce_def)

lemma merge_media_keep: "media_keep old (merge_media new old)"
  by (simp add: media_keep_def merge_media_def)

lemma media_ops: "mirror_ops md_id register_merge media_keep (media_ok cap)"
  by unfold_locales
    (auto simp: register_merge_def merge_media_keep merge_media_ok, auto simp: media_keep_def)

interpretation media_table: mirror_ops md_id register_merge media_keep "media_ok cap" for cap
  by (rule media_ops)

abbreviation "media_change cap \<equiv> mirror_change md_id register_merge media_keep (media_ok cap)"

lemma media_change_where:
  assumes "\<And>r. p r \<Longrightarrow> media_keep r (f r)" "\<And>r. p r \<Longrightarrow> media_ok cap r \<Longrightarrow> media_ok cap (f r)"
  shows "media_change cap rs (update_where p f rs)"
proof -
  have "update_where p f rs = update_where p (\<lambda>r. if p r then f r else r) rs"
    by (simp add: update_where_def)
  moreover have "media_keep r r" for r by (rule media_table.refl)
  ultimately show ?thesis using assms by (simp only:) (rule mirror_change_update, auto)
qed

lemma update_media_change:
  assumes "\<And>r. p r \<Longrightarrow> media_keep r (f r)" "\<And>r. p r \<Longrightarrow> media_ok cap r \<Longrightarrow> media_ok cap (f r)"
  shows "media_change cap (media_rows d) (media_rows (snd (update_media e l w media_id p f d)))"
proof -
  have "media_change cap (media_rows d) (update_where (\<lambda>r. md_id r = i \<and> p r) f (media_rows d))" for i
    by (rule media_change_where) (use assms in auto)
  then show ?thesis by (simp add: update_media_def mirror_change_same Let_def split: option.split)
qed

lemma claim_change:
  assumes "\<And>r. p r \<Longrightarrow> md_status r \<noteq> MReady \<and> md_status r \<noteq> MSkipped \<and> md_attempts r < attempts_cap cap"
  shows "media_change cap (media_rows d) (media_rows (snd (update_media e l w media_id p (claim_row e) d)))"
  by (rule update_media_change) (use assms in \<open>fastforce simp: media_keep_def media_ok_def claim_row_def\<close>)+

lemma MarkReady_rows:
  "media_rows (snd (MarkReady e media_id key mime len sha d)) = media_rows d
   \<or> 0 \<le> len \<and> media_rows (snd (MarkReady e media_id key mime len sha d))
      = media_rows (snd (update_media e ''media.MarkReady'' ''mark media ready'' (trim_space media_id) downloading
            (ready_row e (trim_space key) (trim_space mime) len sha) d))"
  by (auto simp: MarkReady_def Let_def split: sum.split prod.split)

lemma MarkFailed_rows:
  "media_rows (snd (MarkFailed e media_id cause d)) = media_rows d
   \<or> (\<exists>m. media_rows (snd (MarkFailed e media_id cause d))
      = media_rows (snd (update_media e ''media.MarkFailed'' ''mark media failed'' media_id downloading (failed_row e m) d)))"
proof -
  let ?m = "take 4000 (case cause of None \<Rightarrow> ''media download failed'' | Some t \<Rightarrow> t)"
  obtain x d' where u: "update_media e ''media.MarkFailed'' ''mark media failed'' media_id downloading (failed_row e ?m) d = (x, d')"
    by fastforce
  have "media_rows (snd (MarkFailed e media_id cause d)) = media_rows d
      \<or> media_rows (snd (MarkFailed e media_id cause d)) = media_rows d'"
    by (simp add: MarkFailed_def Let_def u split: sum.split)
  then show ?thesis using u by (metis snd_conv)
qed

lemma RegisterPending_rows:
  "media_rows (snd (RegisterPending e i msg kind fl unique mime name len d)) = media_rows d
   \<or> (\<exists>new. media_ok cap new
       \<and> (media_rows (snd (RegisterPending e i msg kind fl unique mime name len d)) = upsert md_id register_merge new (media_rows d)
          \<or> md_file new \<noteq> None \<and> (\<exists>p. media_rows (snd (RegisterPending e i msg kind fl unique mime name len d))
               = update_where p (merge_media new) (media_rows d))))"
proof -
  let ?new = "\<lambda>m. \<lparr>md_id = i, md_message = m, md_type = trim_space kind, md_file = fl, md_unique = trimPtr unique,
                          md_object = None, md_mime = trimPtr mime, md_name = trimPtr name, md_size = len,
                          md_sha = None, md_status = (if fl = None then MSkipped else MPending),
                          md_attempts = 0, md_last_attempt = None, md_downloaded = None, md_error = None,
                          md_created = e_now e, md_updated = e_now e\<rparr>"
  show ?thesis
  proof (cases "case len of None \<Rightarrow> False | Some n \<Rightarrow> n < 0")
    case True
    then show ?thesis by (auto simp: RegisterPending_def Let_def)
  next
    case False
    then have ok: "media_ok cap (?new m)" for m
      by (auto simp: media_ok_def attempts_cap_def split: option.splits)
    have ins: "media_rows (snd (insert_media new d)) = media_rows d
        \<or> media_rows (snd (insert_media new d)) = upsert md_id register_merge new (media_rows d)" for new
      by (auto simp: insert_media_def upsert_def exists_row_def image_iff)
    show ?thesis
    proof (cases "media_rows (snd (RegisterPending e i msg kind fl unique mime name len d)) = media_rows d")
      case changed: False
      then obtain m where m: "e_uuid e (trim_space msg) = Some m"
        by (auto simp: RegisterPending_def Let_def split: if_splits option.splits)
      have "media_rows (snd (RegisterPending e i msg kind fl unique mime name len d)) = media_rows (snd (insert_media (?new m) d))
        \<or> md_file (?new m) \<noteq> None \<and> (\<exists>p. media_rows (snd (RegisterPending e i msg kind fl unique mime name len d))
              = update_where p (merge_media (?new m)) (media_rows d))"
        using changed m False
        by (auto simp: RegisterPending_def Let_def split: if_splits option.splits sum.splits prod.splits)
      then show ?thesis using ok [of m] ins [of "?new m"] changed by (metis (no_types, lifting))
    qed simp
  qed
qed

lemma media_step_change: "media_step cap d d' \<Longrightarrow> media_change cap (media_rows d) (media_rows d')"
proof (induction rule: media_step.induct)
  case (register d e i msg kind fl unique mime name len)
  let ?r = "media_rows (snd (RegisterPending e i msg kind fl unique mime name len d))"
  have upd: "media_change cap (media_rows d) (update_where p (merge_media new) (media_rows d))" if "media_ok cap new" "md_file new \<noteq> None" for p new
    by (rule mirror_change_update) (use that in \<open>simp_all add: merge_media_keep merge_media_ok\<close>)
  show ?case
    using RegisterPending_rows [of e i msg kind fl unique mime name len d cap]
  proof (elim disjE exE conjE)
    fix new assume n: "media_ok cap new" "?r = upsert md_id register_merge new (media_rows d)"
    show ?thesis unfolding n(2) by (rule mirror_change_upsert [where ok = "media_ok cap", OF n(1)])
  qed (use upd in \<open>simp_all add: mirror_change_same\<close>)
next
  case (claim d e media_id)
  show ?case unfolding ClaimDownload_def by (rule claim_change) (auto simp: claimable_def)
next
  case (recover d e media_id)
  show ?case unfolding ClaimDownloadRecoverable_def by (rule claim_change) (auto simp: claim_stale_def)
next
  case (ready d e media_id key mime len sha)
  have "media_change cap (media_rows d) (media_rows (snd (update_media e l w mi downloading (ready_row e k t len sha) d)))"
    if "0 \<le> len" for l w mi k t
    by (rule update_media_change)
      (use that in \<open>auto simp: downloading_def media_keep_def ready_row_def media_ok_def\<close>)
  then show ?case using MarkReady_rows [of e media_id key mime len sha d] mirror_change_same by metis
next
  case (failed d e media_id cause)
  have "media_change cap (media_rows d) (media_rows (snd (update_media e l w mi downloading (failed_row e m) d)))" for l w mi m
    by (rule update_media_change) (auto simp: downloading_def media_keep_def failed_row_def media_ok_def)
  then show ?case using MarkFailed_rows [of e media_id cause d] mirror_change_same by metis
qed (simp add: mirror_change_same)

lemma media_steps_change: "(media_step cap)\<^sup>*\<^sup>* d d' \<Longrightarrow> (media_change cap)\<^sup>*\<^sup>* (media_rows d) (media_rows d')"
  by (induction rule: rtranclp_induct) (auto dest: media_step_change intro: rtranclp.rtrancl_into_rtrancl)

text \<open>C34: Whatever the order of registrations, claims, completions and failures, every attachment stays
  well formed: there is an object key with a digest and a download time exactly if it is ready, an
  error exactly if its download failed, no attempt before the first claim, and afterwards at least
  one, with its time, never more than the cap; only a skipped one has no Telegram file.  No row
  disappears, no attempt is forgotten, and a file that was stored is never replaced or lost.
\<close>

theorem media_lifecycle:
  assumes "(media_step cap)\<^sup>*\<^sup>* d d'" "list_all (media_ok cap) (media_rows d)" "r \<in> set (media_rows d)"
  shows "list_all (media_ok cap) (media_rows d')
    \<and> (\<exists>r' \<in> set (media_rows d'). md_id r' = md_id r \<and> md_attempts r \<le> md_attempts r'
        \<and> (md_status r = MReady \<longrightarrow> md_status r' = MReady \<and> md_object r' = md_object r \<and> md_sha r' = md_sha r))"
  using media_table.steps_checks [OF media_steps_change [OF assms(1)] assms(2)]
    media_table.steps_kept [OF media_steps_change [OF assms(1)] assms(3)]
  by (auto simp: media_keep_def)

section \<open>Claims exclude each other\<close>

text \<open>Everything but the end of the download of \<open>i\<close>.\<close>

inductive media_busy :: "uuid \<Rightarrow> db \<Rightarrow> db \<Rightarrow> bool" for i where
  register: "media_busy i d (snd (RegisterPending e k msg kind fl unique mime name len d))"
| claim: "media_busy i d (snd (ClaimDownload e media_id cap d))"
| recover: "media_busy i d (snd (ClaimDownloadRecoverable e media_id cap d))"
| ready: "e_uuid e (trim_space (trim_space media_id)) \<noteq> Some i \<Longrightarrow> media_busy i d (snd (MarkReady e media_id key mime len sha d))"
| failed: "e_uuid e (trim_space media_id) \<noteq> Some i \<Longrightarrow> media_busy i d (snd (MarkFailed e media_id cause d))"
| other: "media_rows d' = media_rows d \<Longrightarrow> media_busy i d d'"

definition held_since :: "uuid \<Rightarrow> time \<Rightarrow> media list \<Rightarrow> bool" where
  "held_since i t rs =
     (\<forall>r \<in> set rs. md_id r = i \<longrightarrow> md_status r = MDownloading \<and> (\<exists>s. md_last_attempt r = Some s \<and> t \<le> s))"

definition present :: "uuid \<Rightarrow> media list \<Rightarrow> bool" where
  "present i rs = (i \<in> md_id ` set rs)"

definition held :: "uuid \<Rightarrow> time \<Rightarrow> db \<Rightarrow> bool" where
  "held i t d = (held_since i t (media_rows d) \<and> present i (media_rows d))"

lemma held_update:
  assumes "held_since i t rs" "present i rs" "\<And>r. md_id (f r) = md_id r"
    "\<And>r. p r \<Longrightarrow> md_id r = i \<Longrightarrow> md_status r = MDownloading \<Longrightarrow> (\<exists>s. md_last_attempt r = Some s \<and> t \<le> s)
        \<Longrightarrow> md_status (f r) = MDownloading \<and> (\<exists>s. md_last_attempt (f r) = Some s \<and> t \<le> s)"
  shows "held_since i t (update_where p f rs) \<and> present i (update_where p f rs)"
proof
  show "held_since i t (update_where p f rs)"
    unfolding held_since_def
  proof (intro ballI impI)
    fix x assume x: "x \<in> set (update_where p f rs)" "md_id x = i"
    then obtain r where r0: "r \<in> set rs" "x = (if p r then f r else r)" by (auto simp: update_where_def)
    then have r: "r \<in> set rs" "md_id r = i" "x = (if p r then f r else r)"
      using x(2) assms(3) [of r] by (simp_all split: if_splits)
    then have "md_status r = MDownloading" "\<exists>s. md_last_attempt r = Some s \<and> t \<le> s"
      using assms(1) by (auto simp: held_since_def)
    then show "md_status x = MDownloading \<and> (\<exists>s. md_last_attempt x = Some s \<and> t \<le> s)"
      using assms(4) [OF _ r(2)] r(3) by simp
  qed
  have "map md_id (update_where p f rs) = map md_id rs" by (rule map_key_update_where) (rule assms(3))
  then have "md_id ` set (update_where p f rs) = md_id ` set rs" by (metis set_map)
  then show "present i (update_where p f rs)" using assms(2) by (simp add: present_def)
qed

lemma update_media_held:
  assumes "held i t d" "\<And>r. md_id (f r) = md_id r"
    "\<And>r. p r \<Longrightarrow> md_id r = i \<Longrightarrow> e_uuid e (trim_space media_id) = Some i \<Longrightarrow> md_status r = MDownloading
        \<Longrightarrow> (\<exists>s. md_last_attempt r = Some s \<and> t \<le> s)
        \<Longrightarrow> md_status (f r) = MDownloading \<and> (\<exists>s. md_last_attempt (f r) = Some s \<and> t \<le> s)"
  shows "held i t (snd (update_media e l w media_id p f d))"
proof (cases "e_uuid e (trim_space media_id)")
  case None
  then show ?thesis using assms(1) by (simp add: update_media_def)
next
  case (Some j)
  have "held_since i t (update_where (\<lambda>r. md_id r = j \<and> p r) f (media_rows d))
      \<and> present i (update_where (\<lambda>r. md_id r = j \<and> p r) f (media_rows d))"
    by (rule held_update) (use assms Some in \<open>auto simp: held_def\<close>)
  then show ?thesis using assms(1) Some by (simp add: update_media_def Let_def held_def)
qed

lemma media_busy_held: "media_busy i d d' \<Longrightarrow> held i t d \<Longrightarrow> held i t d'"
proof (induction rule: media_busy.induct)
  case (register d e k msg kind fl unique mime name len)
  let ?d = "snd (RegisterPending e k msg kind fl unique mime name len d)"
  consider "media_rows ?d = media_rows d"
    | new where "media_rows ?d = upsert md_id register_merge new (media_rows d)"
    | p new where "media_rows ?d = update_where p (merge_media new) (media_rows d)"
    using RegisterPending_rows [of e k msg kind fl unique mime name len d 5] by blast
  then show ?case
  proof cases
    case 1
    then show ?thesis using register by (simp add: held_def)
  next
    case (2 new)
    have "held_since i t (update_where p (register_merge new) (media_rows d)) \<and> present i (update_where p (register_merge new) (media_rows d))" for p
      by (rule held_update) (use register in \<open>auto simp: held_def register_merge_def merge_media_def\<close>)
    moreover have "held_since i t (media_rows d @ [new]) \<and> present i (media_rows d @ [new])"
      if "\<not> exists_row (\<lambda>r. md_id r = md_id new) (media_rows d)"
      using register that by (auto simp: held_def held_since_def present_def exists_row_def)
    ultimately show ?thesis unfolding held_def 2 by (simp add: upsert_def)
  next
    case (3 p new)
    have "held_since i t (update_where p (merge_media new) (media_rows d)) \<and> present i (update_where p (merge_media new) (media_rows d))"
      by (rule held_update) (use register in \<open>auto simp: held_def merge_media_def\<close>)
    then show ?thesis unfolding held_def 3 .
  qed
next
  case (claim d e media_id cap)
  show ?case
    unfolding ClaimDownload_def
    by (rule update_media_held [OF claim]) (auto simp: claim_row_def claimable_def)
next
  case (recover d e media_id cap)
  show ?case
    unfolding ClaimDownloadRecoverable_def
    by (rule update_media_held [OF recover]) (auto simp: claim_row_def claim_stale_def staleDownloadAfter_def)
next
  case (ready e media_id d key mime len sha)
  have "held i t (snd (update_media e l w (trim_space media_id) downloading (ready_row e k m len sha) d))" for l w k m
    by (rule update_media_held [OF ready(2)]) (use ready(1) in \<open>auto simp: ready_row_def\<close>)
  then show ?case
    using MarkReady_rows [of e media_id key mime len sha d] ready(2) unfolding held_def by metis
next
  case (failed e media_id d cause)
  have "held i t (snd (update_media e l w media_id downloading (failed_row e m) d))" for l w m
    by (rule update_media_held [OF failed(2)]) (use failed(1) in \<open>auto simp: failed_row_def\<close>)
  then show ?case
    using MarkFailed_rows [of e media_id cause d] failed(2) unfolding held_def by metis
next
  case (other d' d)
  then show ?case by (simp add: held_def)
qed

lemma media_busies_held: "(media_busy i)\<^sup>*\<^sup>* d d' \<Longrightarrow> held i t d \<Longrightarrow> held i t d'"
  by (induction rule: rtranclp_induct) (auto dest: media_busy_held)

lemma claim_holds:
  assumes "ClaimDownloadRecoverable e media_id cap d = (Inr True, d')" "e_uuid e (trim_space media_id) = Some i"
    "distinct (map md_id (media_rows d))"
  shows "held i (e_now e) d'"
proof -
  let ?p = "\<lambda>r. md_id r = i \<and> claim_stale e cap r"
  have d': "media_rows d' = update_where ?p (claim_row e) (media_rows d)" and "affected ?p (media_rows d) \<noteq> 0"
    using assms(1,2) by (auto simp: ClaimDownloadRecoverable_def update_media_def Let_def split: if_splits)
  then obtain r where r: "r \<in> set (media_rows d)" "md_id r = i" "claim_stale e cap r"
    by (auto simp: affected_def filter_empty_conv)
  have one: "x = r" if "x \<in> set (media_rows d)" "md_id x = i" for x
    using assms(3) that r by (auto simp: distinct_map inj_on_def)
  have claimed: "x = claim_row e r" if x: "x \<in> set (media_rows d')" "md_id x = i" for x
  proof -
    obtain q where q: "q \<in> set (media_rows d)" "x = (if ?p q then claim_row e q else q)"
      using x(1) unfolding d' update_where_def by auto
    then have "md_id q = i" using x(2) by (cases "?p q") (simp_all add: claim_row_def)
    then show ?thesis using one [of q] q r by simp
  qed
  have "claim_row e r \<in> set (media_rows d')" using r unfolding d' update_where_def by auto
  moreover have c: "md_id (claim_row e r) = i" "md_status (claim_row e r) = MDownloading"
    "md_last_attempt (claim_row e r) = Some (e_now e)" using r(2) by (simp_all add: claim_row_def)
  ultimately show ?thesis
    using claimed c unfolding held_def held_since_def present_def by (metis image_eqI order_refl)
qed

text \<open>At most one worker downloads an attachment: after a successful claim, and until the download
  is marked ready or failed, no claim within the next fifteen minutes succeeds, whatever
  registrations and claims other workers make in between.\<close>

theorem media_claim_exclusive:
  assumes first: "ClaimDownloadRecoverable e media_id cap d = (Inr True, d1)"
    and i: "e_uuid e (trim_space media_id) = Some i"
    and ids: "distinct (map md_id (media_rows d))"
    and busy: "(media_busy i)\<^sup>*\<^sup>* d1 d2"
    and later: "e_uuid e' (trim_space media_id') = Some i" "e_now e' < e_now e + staleDownloadAfter"
  shows "fst (ClaimDownloadRecoverable e' media_id' cap' d2) \<noteq> Inr True
    \<and> fst (ClaimDownload e' media_id' cap' d2) \<noteq> Inr True"
proof -
  have "held i (e_now e) d2" by (rule media_busies_held [OF busy claim_holds [OF first i ids]])
  then have "\<not> claim_stale e' cap' r" "\<not> claimable cap' r" if "r \<in> set (media_rows d2)" "md_id r = i" for r
    using that later(2) by (auto simp: held_def held_since_def claim_stale_def claimable_def)
  then have "affected (\<lambda>r. md_id r = i \<and> claim_stale e' cap' r) (media_rows d2) = 0"
    "affected (\<lambda>r. md_id r = i \<and> claimable cap' r) (media_rows d2) = 0"
    by (auto simp: affected_def filter_empty_conv)
  then show ?thesis
    using later(1) by (simp add: ClaimDownloadRecoverable_def ClaimDownload_def update_media_def Let_def)
qed

text \<open>The completions carry no proof of ownership: after a stale download was taken over, the first
  worker still fails it, and a third worker may claim it while the second is downloading.\<close>

lemma stale_worker_fails_takeover:
  assumes "e_uuid e (trim_space media_id) = Some i" "\<not> e_fail e ''media.MarkFailed''" "held i t d" "pg_text m" "length m \<le> 4000"
  shows "\<exists>d'. MarkFailed e media_id (Some m) d = (Inr (), d')
    \<and> (\<forall>r \<in> set (media_rows d'). md_id r = i \<longrightarrow> md_status r = MFailed)"
proof -
  let ?p = "\<lambda>r. md_id r = i \<and> downloading r"
  have "affected ?p (media_rows d) \<noteq> 0"
    using assms(3) by (auto simp: held_def held_since_def present_def affected_def filter_empty_conv downloading_def)
  moreover have "md_status x = MFailed"
    if x: "x \<in> set (update_where ?p (failed_row e m) (media_rows d))" "md_id x = i" for x
  proof -
    obtain q where q: "q \<in> set (media_rows d)" "x = (if ?p q then failed_row e m q else q)"
      using x(1) unfolding update_where_def by auto
    then have "md_id q = i" using x(2) by (cases "?p q") (simp_all add: failed_row_def)
    then show ?thesis using assms(3) q by (simp add: held_def held_since_def downloading_def failed_row_def)
  qed
  ultimately show ?thesis
    using assms by (simp add: MarkFailed_def update_media_def Let_def)
qed

section \<open>Concrete runs\<close>

definition demo_media :: media where
  "demo_media = \<lparr>md_id = ''f1'', md_message = ''m1'', md_type = ''photo'', md_file = Some 9, md_unique = Some ''u'',
     md_object = None, md_mime = None, md_name = None, md_size = None, md_sha = None, md_status = MPending,
     md_attempts = 0, md_last_attempt = None, md_downloaded = None, md_error = None, md_created = 1, md_updated = 1\<rparr>"

definition demo_media_db :: db where
  "demo_media_db = demo_db\<lparr>media_rows := [demo_media]\<rparr>"

lemma demo_media_facts:
  "trim_space ''f1'' = ''f1''" "media_rows demo_media_db = [demo_media]" "e_uuid demo_env s = Some s"
  "\<not> e_fail demo_env l"
proof -
  show "trim_space ''f1'' = ''f1''" by code_simp
qed (simp_all add: demo_media_db_def demo_env_def)

lemma demo_claim:
  "ClaimDownloadRecoverable demo_env ''f1'' 5 demo_media_db
     = (Inr True, demo_media_db\<lparr>media_rows := [claim_row demo_env demo_media]\<rparr>)"
  by (simp add: ClaimDownloadRecoverable_def update_media_def demo_media_facts affected_def update_where_def claim_stale_def)
    (simp add: demo_media_def attempts_cap_def)

theorem media_lifecycle_witness:
  "list_all (media_ok 5) (media_rows (snd (ClaimDownloadRecoverable demo_env ''f1'' 5 demo_media_db)))
   \<and> (\<exists>r' \<in> set (media_rows (snd (ClaimDownloadRecoverable demo_env ''f1'' 5 demo_media_db))). md_id r' = ''f1'' \<and> 0 \<le> md_attempts r')"
proof -
  have "(media_step 5)\<^sup>*\<^sup>* demo_media_db (snd (ClaimDownloadRecoverable demo_env ''f1'' 5 demo_media_db))"
    by (rule r_into_rtranclp, rule media_step.recover)
  from media_lifecycle [OF this, of demo_media] show ?thesis
    by (simp add: demo_media_facts media_ok_def attempts_cap_def demo_media_def)
qed

theorem media_claim_exclusive_witness:
  "fst (ClaimDownloadRecoverable demo_env ''f1'' 5 (demo_media_db\<lparr>media_rows := [claim_row demo_env demo_media]\<rparr>)) \<noteq> Inr True"
  using media_claim_exclusive [OF demo_claim _ _ rtranclp.rtrancl_refl, of "''f1''" demo_env "''f1''" 5]
  by (simp add: demo_media_facts staleDownloadAfter_def)

end
