(* ===== verification/Telegram.thy ===== *)
theory Telegram
  imports Http Members Contacts Media
begin

text \<open>
  What the workers share: the values Telegram sessions return (\<open>internal/telegram\<close>), the
  errors that decide the fate of a job (\<open>internal/worker/errors.go\<close>, the end of
  \<open>runner.go\<close>), and fallible actions on the worker's state.
\<close>

section \<open>Values of a session (client.go)\<close>

record profile =
  pr_user :: int
  pr_display :: string
  pr_username :: string

record tg_chat =
  tc_id :: int
  tc_type :: string
  tc_title :: string
  tc_username :: string
  tc_meta :: "json option"
  tc_last_id :: "int option"
  tc_last_at :: "time option"

record chat_page =
  cpg_items :: "tg_chat list"
  cpg_next :: string

record tg_media =
  tm_type :: string
  tm_file :: int
  tm_unique :: string
  tm_mime :: string
  tm_name :: string
  tm_size :: "int option"

record tg_message =
  tg_id :: int
  tg_sender :: "int option"
  tg_sender_chat :: "int option"
  tg_type :: string
  tg_content :: "string option"
  tg_entities :: "json list option"
  tg_reply :: "int option"
  tg_forward :: "json option"
  tg_meta :: "json option"
  tg_sent :: time
  tg_edited :: "time option"
  tg_media :: "tg_media list"

record tg_contact =
  tn_user :: int
  tn_first :: string
  tn_last :: string
  tn_username :: string
  tn_phone :: bytes
  tn_mutual :: bool
  tn_meta :: "json option"

record tg_member =
  te_peer_type :: string
  te_peer :: int
  te_first :: string
  te_last :: string
  te_username :: string
  te_role :: string
  te_meta :: "json option"

record member_page =
  mpg_items :: "tg_member list"
  mpg_next :: string

record download =
  dl_reader :: "bytes option"
  dl_size :: int
  dl_type :: string

text \<open>
  A session: one function per call, for the outcome of that call.  The optional capabilities
  (\<open>MessageFileResolver\<close>, \<open>ChatSearcher\<close>, \<open>ChatMessageSearcher\<close>) are options.
\<close>

record session =
  se_profile :: "profile result"
  se_chats :: "string \<Rightarrow> int \<Rightarrow> chat_page result"
  se_history :: "int \<Rightarrow> int \<Rightarrow> int \<Rightarrow> tg_message list result"
  se_contacts :: "tg_contact list result"
  se_members :: "int \<Rightarrow> string \<Rightarrow> int \<Rightarrow> member_page result"
  se_file :: "int \<Rightarrow> download result"
  se_resolve :: "(int \<Rightarrow> int \<Rightarrow> string \<Rightarrow> string \<Rightarrow> int result) option"
  se_search_chats :: "(string \<Rightarrow> int \<Rightarrow> tg_chat list result) option"
  se_search_messages :: "(int \<Rightarrow> string \<Rightarrow> int \<Rightarrow> tg_message list result) option"

text \<open>\<open>ParseChatCursor\<close> (chat_cursor.go): the list and the offset.\<close>

definition ParseChatCursor :: "string \<Rightarrow> (int \<times> int) result" where
  "ParseChatCursor c =
     (if c = [] then Inr (0, 0)
      else (case split_on (CHR '':'') c of
          [l, ofs] \<Rightarrow>
            (case (parse_int 64 l, parse_int 64 ofs) of
               (Some l, Some ofs) \<Rightarrow>
                 if l < 0 \<or> 1 < l \<or> ofs < 0 \<or> 100000 < ofs then Inl (Msg ''invalid chat cursor'')
                 else Inr (l, ofs)
             | _ \<Rightarrow> Inl (Msg ''invalid chat cursor''))
        | _ \<Rightarrow> Inl (Msg ''invalid chat cursor'')))"

section \<open>Error texts\<close>

text \<open>\<open>time.Duration.String\<close>.\<close>

definition frac_text :: "int \<Rightarrow> nat \<Rightarrow> string" where
  "frac_text v prec =
     (let f = v mod 10 ^ prec
      in itoa (v div 10 ^ prec)
         @ (if f = 0 then [] else CHR ''.'' # rev (dropWhile (\<lambda>c. c = CHR ''0'') (rev (pad prec f)))))"

definition duration_text :: "duration \<Rightarrow> string" where
  "duration_text d =
     (let u = \<bar>d\<bar>; sign = (if d < 0 then ''-'' else []) in
      if u = 0 then ''0s''
      else if u < 1000 then sign @ itoa u @ ''ns''
      else if u < 1000000 then sign @ frac_text u 3 @ [CHR 0xC2, CHR 0xB5, CHR ''s'']
      else if u < 1000000000 then sign @ frac_text u 6 @ ''ms''
      else (let minutes = u div 60000000000; hours = minutes div 60 in
            sign @ (if 0 < hours then itoa hours @ ''h'' else [])
                 @ (if 0 < minutes then itoa (minutes mod 60) @ ''m'' else [])
                 @ frac_text (u mod 60000000000) 9 @ ''s''))"

text \<open>The methods \<open>Error\<close>.\<close>

fun err_text :: "go_err \<Rightarrow> string" where
  "err_text (Msg m) = m"
| "err_text (DbErr m) = m"
| "err_text NoRows = ''no rows in result set''"
| "err_text InvalidBearer = ''invalid or expired bearer token''"
| "err_text MediaNotReady = ''media is not ready''"
| "err_text ChatListLoading = ''Telegram chat list has not loaded yet''"
| "err_text CtxDone = ''context deadline exceeded''"
| "err_text (TdErr code m) = ''TDLib '' @ itoa code @ '': '' @ m"
| "err_text (Wrapped m e) = m @ '': '' @ err_text e"
| "err_text (RetryErr d e) = ''retry after '' @ duration_text d @ '': '' @ err_text e"
| "err_text (PermErr e) = ''permanent worker error: '' @ err_text e"
| "err_text (FloodWait d e) = ''Telegram flood wait for '' @ duration_text d @ '': '' @ err_text e"

section \<open>Dispositions\<close>

fun AsFloodWait :: "go_err \<Rightarrow> duration option" where  \<comment> \<open>the first flood error of the chain\<close>
  "AsFloodWait (FloodWait t e) = (if 0 < t then Some t else None)"
| "AsFloodWait (Wrapped m e) = AsFloodWait e"
| "AsFloodWait (RetryErr t e) = AsFloodWait e"
| "AsFloodWait (PermErr e) = AsFloodWait e"
| "AsFloodWait e = None"

definition RetryAfter :: "duration \<Rightarrow> go_err \<Rightarrow> go_err" where
  "RetryAfter t e = RetryErr (if t < second_ns then second_ns else t) e"

definition Permanent :: "go_err \<Rightarrow> go_err" where
  "Permanent e = PermErr e"

fun RetryDelay :: "go_err \<Rightarrow> duration option" where  \<comment> \<open>the first \<open>RetryError\<close> of the chain\<close>
  "RetryDelay (RetryErr t e) = (if t \<le> 0 then None else Some t)"
| "RetryDelay (Wrapped m e) = RetryDelay e"
| "RetryDelay (PermErr e) = RetryDelay e"
| "RetryDelay (FloodWait t e) = RetryDelay e"
| "RetryDelay e = None"

fun IsPermanent :: "go_err \<Rightarrow> bool" where
  "IsPermanent (PermErr e) = True"
| "IsPermanent (Wrapped m e) = IsPermanent e"
| "IsPermanent (RetryErr t e) = IsPermanent e"
| "IsPermanent (FloodWait t e) = IsPermanent e"
| "IsPermanent e = False"

datatype ack_action = AckSuccess | AckRetry | AckTerminate

definition genericRetryDelay :: duration where
  "genericRetryDelay = 15 * second_ns"

definition disposition :: "go_err option \<Rightarrow> ack_action \<times> duration" where
  "disposition err =
     (case err of
        None \<Rightarrow> (AckSuccess, 0)
      | Some e \<Rightarrow>
          if IsPermanent e then (AckTerminate, 0)
          else (case RetryDelay e of
                  Some delay \<Rightarrow> (AckRetry, delay)
                | None \<Rightarrow> (AckRetry, genericRetryDelay)))"

definition termReason :: "go_err option \<Rightarrow> string" where
  "termReason err =
     (case err of
        None \<Rightarrow> ''permanent worker error''
      | Some e \<Rightarrow>
          (let v = trim_space (err_text e) in
           if v = [] then ''permanent worker error'' else take 240 v))"

definition minimumRetry :: "duration \<Rightarrow> duration" where
  "minimumRetry t = (if t < second_ns then second_ns else t)"

section \<open>Actions\<close>

text \<open>
  A step of a worker: it may fail, and it changes the worker's state either way.  Fresh row
  ids (the server's \<open>gen_random_uuid()\<close>) come from a supply, which a loop splits.
\<close>

type_synonym ('s, 'a) act = "'s \<Rightarrow> 'a result \<times> 's"
type_synonym uuids = "nat list \<Rightarrow> uuid"

definition branch :: "nat \<Rightarrow> uuids \<Rightarrow> uuids" where
  "branch i g = (\<lambda>p. g (i # p))"

definition done_with :: "'a \<Rightarrow> ('s, 'a) act" where
  "done_with x = (\<lambda>s. (Inr x, s))"

definition fail_with :: "go_err \<Rightarrow> ('s, 'a) act" where
  "fail_with e = (\<lambda>s. (Inl e, s))"

definition and_then :: "('s, 'a) act \<Rightarrow> ('a \<Rightarrow> ('s, 'b) act) \<Rightarrow> ('s, 'b) act" where
  "and_then m f = (\<lambda>s. case m s of (Inl e, s') \<Rightarrow> (Inl e, s') | (Inr x, s') \<Rightarrow> f x s')"

definition query :: "('s \<Rightarrow> 'a result) \<Rightarrow> ('s, 'a) act" where
  "query q = (\<lambda>s. (q s, s))"

fun each :: "nat \<Rightarrow> (nat \<Rightarrow> 'a \<Rightarrow> ('s, 'b) act) \<Rightarrow> 'a list \<Rightarrow> ('s, 'b list) act" where
  "each i f [] = done_with []"
| "each i f (x # xs) =
     and_then (f i x) (\<lambda>y. and_then (each (Suc i) f xs) (\<lambda>ys. done_with (y # ys)))"

lemma done_with_eq [simp]: "done_with x s = (r, s') \<longleftrightarrow> r = Inr x \<and> s' = s"
  by (auto simp: done_with_def)

lemma fail_with_eq [simp]: "fail_with e s = (r, s') \<longleftrightarrow> r = Inl e \<and> s' = s"
  by (auto simp: fail_with_def)

lemma and_then_ok:
  "and_then m f s = (Inr y, s'') \<longleftrightarrow> (\<exists>x s'. m s = (Inr x, s') \<and> f x s' = (Inr y, s''))"
  by (auto simp: and_then_def split: prod.split sum.split)

lemma and_then_error:
  "and_then m f s = (Inl e, s'') \<longleftrightarrow>
     m s = (Inl e, s'') \<or> (\<exists>x s'. m s = (Inr x, s') \<and> f x s' = (Inl e, s''))"
  by (auto simp: and_then_def split: prod.split sum.split)

lemma query_eq [simp]: "query q s = (r, s') \<longleftrightarrow> r = q s \<and> s' = s"
  by (auto simp: query_def)

text \<open>What every run of an action preserves, whether it succeeds or fails.\<close>

definition keeps :: "('s \<Rightarrow> 's \<Rightarrow> bool) \<Rightarrow> ('s, 'a) act \<Rightarrow> bool" where
  "keeps R m = (\<forall>s. R s (snd (m s)))"

lemma keepsD: "keeps R m \<Longrightarrow> m s = (r, s') \<Longrightarrow> R s s'"
  by (metis keeps_def snd_conv)

lemma keeps_simple: "reflp R \<Longrightarrow> keeps R (done_with x)" "reflp R \<Longrightarrow> keeps R (fail_with e)" "reflp R \<Longrightarrow> keeps R (query q)"
  by (auto simp: keeps_def done_with_def fail_with_def query_def reflp_def)

lemma keeps_then:
  assumes "transp R" "keeps R m" "\<And>x. keeps R (f x)"
  shows "keeps R (and_then m f)"
  unfolding keeps_def
proof
  fix s
  obtain r s' where m: "m s = (r, s')" by fastforce
  have "R s s'" by (rule keepsD [OF assms(2) m])
  moreover have "R s' (snd (f x s'))" for x using assms(3) by (simp add: keeps_def)
  ultimately show "R s (snd (and_then m f s))"
    using assms(1) by (auto simp: and_then_def m split: sum.split elim: transpE)
qed

lemma keeps_each:
  assumes "reflp R" "transp R" "\<And>i x. keeps R (f i x)"
  shows "keeps R (each i f xs)"
proof (induction xs arbitrary: i)
  case (Cons x xs)
  show ?case by (auto intro!: keeps_then keeps_simple assms Cons)
qed (simp add: keeps_simple assms)

end
