(* ===== verification/Jobs.thy ===== *)
theory Jobs
  imports Telegram
begin

text \<open>
  The work queue: envelopes (\<open>internal/syncjob/contracts.go\<close>), the publisher
  (\<open>publisher.go\<close>, \<open>member_publisher.go\<close>) and what a worker slot does with a message
  (\<open>internal/worker/runner.go\<close>).  JetStream is external: the bus is the list of what was
  published, each with the message id from which the server recognises duplicates.
\<close>

section \<open>Instants in JSON\<close>

definition days_of :: "int \<Rightarrow> int \<Rightarrow> int \<Rightarrow> int" where  \<comment> \<open>the inverse of \<open>civil\<close>\<close>
  "days_of y m d =
     (let y = (if m \<le> 2 then y - 1 else y); yoe = y mod 400;
          doy = (153 * ((m + 9) mod 12) + 2) div 5 + d - 1
      in y div 400 * 146097 + yoe * 365 + yoe div 4 - yoe div 100 + doy - 719468)"

definition month_days :: "int \<Rightarrow> int \<Rightarrow> int" where
  "month_days y m =
     (if m = 2 then (if y mod 4 = 0 \<and> (y mod 100 \<noteq> 0 \<or> y mod 400 = 0) then 29 else 28)
      else if m \<in> {4, 6, 9, 11} then 30 else 31)"

definition fixed_digits :: "string \<Rightarrow> int option" where
  "fixed_digits s = (if s \<noteq> [] \<and> list_all is_digit s then Some (int (dec_val s)) else None)"

text \<open>The zone as microseconds to subtract.\<close>

definition zone_offset :: "string \<Rightarrow> int option" where
  "zone_offset z =
     (if z = ''Z'' then Some 0
      else if length z = 6 \<and> hd z \<in> {CHR ''+'', CHR ''-''} \<and> z ! 3 = CHR '':'' then
        (case (fixed_digits (take 2 (drop 1 z)), fixed_digits (drop 4 z)) of
           (Some h, Some m) \<Rightarrow>
             if 23 < h \<or> 59 < m then None
             else Some ((if hd z = CHR ''-'' then -1 else 1) * (h * 60 + m) * 60000000)
         | _ \<Rightarrow> None)
      else None)"

text \<open>\<open>time.Parse\<close> of an RFC 3339 text; digits after the sixth of a fraction are dropped.\<close>

definition parse_rfc3339 :: "string \<Rightarrow> time option" where
  "parse_rfc3339 s =
     (if length s < 20 \<or> s ! 4 \<noteq> CHR ''-'' \<or> s ! 7 \<noteq> CHR ''-'' \<or> s ! 10 \<noteq> CHR ''T''
         \<or> s ! 13 \<noteq> CHR '':'' \<or> s ! 16 \<noteq> CHR '':'' then None
      else (let rest = drop 19 s;
                frac = (if hd rest = CHR ''.'' then takeWhile is_digit (tl rest) else []);
                zone = (if hd rest = CHR ''.'' then dropWhile is_digit (tl rest) else rest)
            in case (fixed_digits (take 4 s), fixed_digits (take 2 (drop 5 s)), fixed_digits (take 2 (drop 8 s)),
                     fixed_digits (take 2 (drop 11 s)), fixed_digits (take 2 (drop 14 s)),
                     fixed_digits (take 2 (drop 17 s)), zone_offset zone) of
                 (Some y, Some mo, Some d, Some h, Some mi, Some se, Some z) \<Rightarrow>
                   if (hd rest = CHR ''.'' \<and> frac = []) \<or> mo < 1 \<or> 12 < mo \<or> d < 1 \<or> month_days y mo < d
                      \<or> 23 < h \<or> 59 < mi \<or> 59 < se then None
                   else Some ((days_of y mo d * 86400 + h * 3600 + mi * 60 + se) * 1000000
                          + int (dec_val (take 6 (frac @ replicate 6 (CHR ''0'')))) - z)
               | _ \<Rightarrow> None))"

fun dec_time :: "json \<Rightarrow> time option" where
  "dec_time (JStr s) = parse_rfc3339 s"
| "dec_time v = None"

section \<open>Envelopes (contracts.go)\<close>

definition KindAccountBootstrap :: string where
  "KindAccountBootstrap = ''account.bootstrap''"
definition KindContactsSync :: string where
  "KindContactsSync = ''contacts.sync''"
definition KindChatHistory :: string where
  "KindChatHistory = ''chat.history''"
definition KindChatMembers :: string where
  "KindChatMembers = ''chat.members''"
definition KindMediaDownload :: string where
  "KindMediaDownload = ''media.download''"

lemmas kind_defs = KindAccountBootstrap_def KindContactsSync_def KindChatHistory_def KindChatMembers_def
  KindMediaDownload_def

definition kind_valid :: "string \<Rightarrow> bool" where  \<comment> \<open>\<open>Kind.Valid\<close>\<close>
  "kind_valid k =
     (k \<in> set [KindAccountBootstrap, KindContactsSync, KindChatHistory, KindChatMembers, KindMediaDownload])"

definition quoted :: "string \<Rightarrow> string" where  \<comment> \<open>\<open>%q\<close> of text without characters that need an escape\<close>
  "quoted s = CHR 0x22 # s @ [CHR 0x22]"

definition SubjectFor :: "string \<Rightarrow> string result" where
  "SubjectFor k =
     (if k = KindAccountBootstrap then Inr ''telegram.sync.account''
      else if k = KindContactsSync then Inr ''telegram.sync.contacts''
      else if k = KindChatHistory then Inr ''telegram.sync.chat''
      else if k = KindChatMembers then Inr ''telegram.sync.members''
      else if k = KindMediaDownload then Inr ''telegram.media.download''
      else Inl (Msg (''unsupported sync job kind '' @ quoted k)))"

text \<open>The payload is the JSON value of its raw text; None is the empty text.\<close>

record envelope =
  en_version :: int
  en_job :: string
  en_kind :: string
  en_account :: string
  en_dedup :: string
  en_at :: time
  en_payload :: "json option"

definition Validate :: "envelope \<Rightarrow> unit result" where
  "Validate v =
     (if en_version v \<noteq> 1 then Inl (Msg (''unsupported sync job schema version '' @ itoa (en_version v)))
      else if blank (en_job v) then Inl (Msg ''job id is required'')
      else if \<not> kind_valid (en_kind v) then Inl (Msg (''unsupported sync job kind '' @ quoted (en_kind v)))
      else if blank (en_account v) then Inl (Msg ''account id is required'')
      else if en_payload v = None then Inl (Msg ''payload is required'')
      else Inr ())"

text \<open>\<open>NewEnvelope\<close>; \<open>rnd\<close> is what the random source gives.\<close>

definition NewEnvelope :: "env \<Rightarrow> bytes \<Rightarrow> string \<Rightarrow> string \<Rightarrow> string \<Rightarrow> json \<Rightarrow> envelope result" where
  "NewEnvelope e rnd kind account dedup payload =
     (let account = trim_space account in
      if account = [] then Inl (Msg ''account id is required'')
      else if \<not> kind_valid kind then Inl (Msg (''unsupported sync job kind '' @ quoted kind))
      else if e_fail e ''randomID'' then Inl (Wrapped ''generate sync job id'' (Msg ''rand''))
      else Inr \<lparr>en_version = 1, en_job = hex_encode rnd, en_kind = kind, en_account = account,
                en_dedup = (if blank dedup then hex_encode rnd else dedup), en_at = e_clock e,
                en_payload = Some payload\<rparr>)"

section \<open>Payloads\<close>

record bootstrap_job =
  bj_force :: bool
  bj_cursor :: string

record history_job =
  hj_stop :: int
  hj_chat :: string
  hj_tg :: int
  hj_before :: int
  hj_size :: int

record members_job =
  mj_chat :: string
  mj_tg :: int
  mj_cursor :: string
  mj_limit :: int

record media_job =
  dj_media :: string
  dj_message :: string
  dj_file :: int

text \<open>As \<open>json.Marshal\<close> prints the structs (\<open>omitempty\<close> drops zero fields).\<close>

definition omit_zero :: "string \<Rightarrow> int \<Rightarrow> (string \<times> json) list" where
  "omit_zero k i = (if i = 0 then [] else [(k, jint i)])"

definition omit_empty :: "string \<Rightarrow> string \<Rightarrow> (string \<times> json) list" where
  "omit_empty k s = (if s = [] then [] else [(k, JStr s)])"

definition bootstrap_json :: "bootstrap_job \<Rightarrow> json" where
  "bootstrap_json j = JObj ((''force'', JBool (bj_force j)) # omit_empty ''cursor'' (bj_cursor j))"

definition history_json :: "history_job \<Rightarrow> json" where
  "history_json j =
     JObj (omit_zero ''stop_after_message_id'' (hj_stop j)
           @ [(''chat_id'', JStr (hj_chat j)), (''telegram_chat_id'', jint (hj_tg j))]
           @ omit_zero ''before_message_id'' (hj_before j) @ [(''requested_page_size'', jint (hj_size j))])"

definition members_json :: "members_job \<Rightarrow> json" where
  "members_json j =
     JObj ([(''chat_id'', JStr (mj_chat j)), (''telegram_chat_id'', jint (mj_tg j))]
           @ omit_empty ''cursor'' (mj_cursor j) @ [(''limit'', jint (mj_limit j))])"

definition media_json :: "media_job \<Rightarrow> json" where
  "media_json j =
     JObj [(''media_id'', JStr (dj_media j)), (''message_id'', JStr (dj_message j)),
           (''telegram_file_id'', jint (dj_file j))]"

text \<open>\<open>decodePayload\<close> into each of the structs.\<close>

definition decode_error :: go_err where
  "decode_error = Wrapped ''decode job payload'' (Msg ''json'')"

definition payload_members :: "json option \<Rightarrow> (string \<times> json) list result" where
  "payload_members raw =
     (case raw of
        None \<Rightarrow> Inl (Msg ''job payload is empty'')
      | Some v \<Rightarrow> (case members_of v of None \<Rightarrow> Inl decode_error | Some m \<Rightarrow> Inr m))"

definition decode_bootstrap :: "json option \<Rightarrow> bootstrap_job result" where
  "decode_bootstrap raw =
     (case payload_members raw of
        Inl err \<Rightarrow> Inl err
      | Inr m \<Rightarrow>
          (case (struct_field ''force'' dec_bool False m, struct_field ''cursor'' dec_str [] m) of
             (Some f, Some c) \<Rightarrow> Inr \<lparr>bj_force = f, bj_cursor = c\<rparr>
           | _ \<Rightarrow> Inl decode_error))"

definition decode_contacts :: "json option \<Rightarrow> unit result" where
  "decode_contacts raw = (case payload_members raw of Inl err \<Rightarrow> Inl err | Inr m \<Rightarrow> Inr ())"

definition decode_history :: "json option \<Rightarrow> history_job result" where
  "decode_history raw =
     (case payload_members raw of
        Inl err \<Rightarrow> Inl err
      | Inr m \<Rightarrow>
          (case (struct_field ''stop_after_message_id'' dec_int 0 m, struct_field ''chat_id'' dec_str [] m,
                 struct_field ''telegram_chat_id'' dec_int 0 m, struct_field ''before_message_id'' dec_int 0 m,
                 struct_field ''requested_page_size'' dec_int 0 m) of
             (Some s, Some c, Some t, Some b, Some n) \<Rightarrow>
               Inr \<lparr>hj_stop = s, hj_chat = c, hj_tg = t, hj_before = b, hj_size = n\<rparr>
           | _ \<Rightarrow> Inl decode_error))"

definition decode_members :: "json option \<Rightarrow> members_job result" where
  "decode_members raw =
     (case payload_members raw of
        Inl err \<Rightarrow> Inl err
      | Inr m \<Rightarrow>
          (case (struct_field ''chat_id'' dec_str [] m, struct_field ''telegram_chat_id'' dec_int 0 m,
                 struct_field ''cursor'' dec_str [] m, struct_field ''limit'' dec_int 0 m) of
             (Some c, Some t, Some u, Some n) \<Rightarrow>
               Inr \<lparr>mj_chat = c, mj_tg = t, mj_cursor = u, mj_limit = n\<rparr>
           | _ \<Rightarrow> Inl decode_error))"

definition decode_media :: "json option \<Rightarrow> media_job result" where
  "decode_media raw =
     (case payload_members raw of
        Inl err \<Rightarrow> Inl err
      | Inr m \<Rightarrow>
          (case (struct_field ''media_id'' dec_str [] m, struct_field ''message_id'' dec_str [] m,
                 struct_field ''telegram_file_id'' dec_int 0 m) of
             (Some i, Some g, Some f) \<Rightarrow> Inr \<lparr>dj_media = i, dj_message = g, dj_file = f\<rparr>
           | _ \<Rightarrow> Inl decode_error))"

section \<open>Publishing\<close>

record publication =
  pb_subject :: string
  pb_id :: string
  pb_env :: envelope

type_synonym bus = "publication list"

definition Publish :: "env \<Rightarrow> envelope \<Rightarrow> (bus, unit) act" where
  "Publish e v b =
     (case Validate v of
        Inl err \<Rightarrow> (Inl err, b)
      | Inr _ \<Rightarrow>
          (case SubjectFor (en_kind v) of
             Inl err \<Rightarrow> (Inl err, b)
           | Inr subject \<Rightarrow>
               if e_fail e ''Publish'' then (Inl (Wrapped (''publish '' @ en_kind v @ '' sync job'') (Msg ''nats'')), b)
               else (Inr (), b @ [\<lparr>pb_subject = subject, pb_id = en_kind v @ '':'' @ en_dedup v, pb_env = v\<rparr>])))"

definition enqueue :: "env \<Rightarrow> bytes \<Rightarrow> string \<Rightarrow> string \<Rightarrow> string \<Rightarrow> json \<Rightarrow> (bus, unit) act" where
  "enqueue e rnd kind account dedup payload b =
     (case NewEnvelope e rnd kind account dedup payload of
        Inl err \<Rightarrow> (Inl err, b)
      | Inr v \<Rightarrow> Publish e v b)"

definition minute_text :: "time \<Rightarrow> string" where  \<comment> \<open>\<open>Format("200601021504")\<close>\<close>
  "minute_text t =
     (let s = t div 1000000; (y, m, d) = civil (s div 86400); sd = s mod 86400
      in pad 4 y @ pad 2 m @ pad 2 d @ pad 2 (sd div 3600) @ pad 2 (sd div 60 mod 60))"

definition enqueueAccountBootstrap :: "env \<Rightarrow> bytes \<Rightarrow> string \<Rightarrow> bootstrap_job \<Rightarrow> (bus, unit) act" where
  "enqueueAccountBootstrap e rnd account j =
     enqueue e rnd KindAccountBootstrap account
       (trim_space account @ (if bj_cursor j = [] then [] else '':cursor:'' @ bj_cursor j)
        @ (if bj_force j then '':force:'' @ minute_text (e_clock e) else []))
       (bootstrap_json j)"

definition EnqueueAccountBootstrap :: "env \<Rightarrow> bytes \<Rightarrow> string \<Rightarrow> bool \<Rightarrow> (bus, unit) act" where
  "EnqueueAccountBootstrap e rnd account force =
     enqueueAccountBootstrap e rnd account \<lparr>bj_force = force, bj_cursor = []\<rparr>"

definition EnqueueAccountBootstrapPage :: "env \<Rightarrow> bytes \<Rightarrow> string \<Rightarrow> string \<Rightarrow> (bus, unit) act" where
  "EnqueueAccountBootstrapPage e rnd account c =
     (let c = trim_space c in
      if c = [] then fail_with (Msg ''bootstrap cursor is required'')
      else enqueueAccountBootstrap e rnd account \<lparr>bj_force = False, bj_cursor = c\<rparr>)"

definition EnqueueContactsSync :: "env \<Rightarrow> bytes \<Rightarrow> string \<Rightarrow> (bus, unit) act" where
  "EnqueueContactsSync e rnd account =
     enqueue e rnd KindContactsSync account (trim_space account) (JObj [])"

definition clamp :: "int \<Rightarrow> int \<Rightarrow> int \<Rightarrow> int" where
  "clamp def cap n = (if n \<le> 0 then def else if cap < n then cap else n)"

definition EnqueueChatHistory :: "env \<Rightarrow> bytes \<Rightarrow> string \<Rightarrow> history_job \<Rightarrow> (bus, unit) act" where
  "EnqueueChatHistory e rnd account j =
     (if blank (hj_chat j) then fail_with (Msg ''chat id is required'')
      else if hj_tg j = 0 then fail_with (Msg ''telegram chat id is required'')
      else (let j = j\<lparr>hj_size := clamp 50 100 (hj_size j)\<rparr>
            in enqueue e rnd KindChatHistory account
                 (hj_chat j @ '':'' @ itoa (hj_before j) @ '':'' @ itoa (hj_size j) @ '':'' @ itoa (hj_stop j))
                 (history_json j)))"

definition EnqueueChatMembers :: "env \<Rightarrow> bytes \<Rightarrow> string \<Rightarrow> members_job \<Rightarrow> (bus, unit) act" where
  "EnqueueChatMembers e rnd account j =
     (if blank (mj_chat j) \<or> mj_tg j = 0 then fail_with (Msg ''chat id and Telegram chat id are required'')
      else (let j = j\<lparr>mj_limit := clamp 100 200 (mj_limit j)\<rparr>
            in enqueue e rnd KindChatMembers account (mj_chat j @ '':'' @ itoa (mj_limit j)) (members_json j)))"

definition EnqueueChatMembersPage :: "env \<Rightarrow> bytes \<Rightarrow> string \<Rightarrow> members_job \<Rightarrow> (bus, unit) act" where
  "EnqueueChatMembersPage e rnd account j =
     (if blank (mj_chat j) \<or> mj_tg j = 0 then fail_with (Msg ''chat id and Telegram chat id are required'')
      else (let j = j\<lparr>mj_limit := clamp 100 200 (mj_limit j)\<rparr>
            in enqueue e rnd KindChatMembers account
                 (mj_chat j @ '':'' @ hex_encode (take 8 (e_sha e (mj_cursor j))) @ '':'' @ itoa (mj_limit j))
                 (members_json j)))"

definition EnqueueMediaDownload :: "env \<Rightarrow> bytes \<Rightarrow> string \<Rightarrow> media_job \<Rightarrow> (bus, unit) act" where
  "EnqueueMediaDownload e rnd account j =
     (if blank (dj_media j) \<or> blank (dj_message j) then fail_with (Msg ''media id and message id are required'')
      else if dj_file j = 0 then fail_with (Msg ''telegram file id is required'')
      else enqueue e rnd KindMediaDownload account (dj_media j) (media_json j))"

section \<open>A worker slot (runner.go)\<close>

definition decode_envelope :: "string \<Rightarrow> envelope option" where
  "decode_envelope text =
     (case Option.bind (unmarshal text) members_of of
        None \<Rightarrow> None
      | Some m \<Rightarrow>
          (case (struct_field ''version'' dec_int 0 m, struct_field ''job_id'' dec_str [] m,
                 struct_field ''kind'' dec_str [] m, struct_field ''account_id'' dec_str [] m,
                 struct_field ''dedup_key'' dec_str [] m, struct_field ''enqueued_at'' dec_time zero_time m) of
             (Some v, Some j, Some k, Some a, Some q, Some t) \<Rightarrow>
               Some \<lparr>en_version = v, en_job = j, en_kind = k, en_account = a, en_dedup = q, en_at = t,
                     en_payload = foldl (\<lambda>acc (n, x). if fold_key n = fold_key ''payload'' then Some x else acc) None m\<rparr>
           | _ \<Rightarrow> None))"

datatype ack = Ack | NakWithDelay duration | TermWithReason string

text \<open>\<open>processMessage\<close>: what the slot answers the server, and the state the handler leaves.\<close>

definition processMessage :: "(envelope \<Rightarrow> ('s, unit) act) \<Rightarrow> string \<Rightarrow> 's \<Rightarrow> ack \<times> 's" where
  "processMessage handle data s =
     (case decode_envelope data of
        None \<Rightarrow> (TermWithReason ''invalid JSON sync job'', s)
      | Some v \<Rightarrow>
          (case Validate v of
             Inl err \<Rightarrow> (TermWithReason (termReason (Some err)), s)
           | Inr _ \<Rightarrow>
               (case handle v s of
                  (res, s') \<Rightarrow>
                    (let err = (case res of Inl x \<Rightarrow> Some x | Inr _ \<Rightarrow> None) in
                     (case disposition err of
                        (AckSuccess, _) \<Rightarrow> Ack
                      | (AckRetry, delay) \<Rightarrow> NakWithDelay delay
                      | (AckTerminate, _) \<Rightarrow> TermWithReason (termReason err), s')))))"

section \<open>Facts\<close>

lemma retry_at_least: "RetryDelay (RetryAfter t e) = Some (max second_ns t)"
  by (simp add: RetryAfter_def second_ns_def max_def)

lemma disposition_retry: "\<not> IsPermanent e \<Longrightarrow> fst (disposition (Some e)) = AckRetry"
  by (simp add: disposition_def split: option.split)

lemma enqueue_bus:
  "enqueue e rnd kind account dedup payload b = (r, b') \<Longrightarrow>
   b' = b \<or> (\<exists>p. b' = b @ [p] \<and> r = Inr () \<and> en_kind (pb_env p) = kind \<and> en_payload (pb_env p) = Some payload)"
  by (auto simp: enqueue_def NewEnvelope_def Publish_def Let_def split: if_splits sum.splits)

end
