(* ===== verification/Updates.thy ===== *)
theory Updates
  imports Jobs Messages Accounts
begin

text \<open>
  \<open>internal/worker/updates.go\<close>: Telegram's live updates.  The gateway journals them
  (\<open>telegram_updates\<close>) and the worker applies the journal in arrival order; a deletion also
  leaves a tombstone, for messages that arrive later.
\<close>

section \<open>The state of a worker\<close>

record worker =
  wk_world :: world
  wk_bus :: bus
  wk_store :: store

abbreviation wk_db :: "worker \<Rightarrow> db" where
  "wk_db s \<equiv> wd_db (wk_world s)"

definition set_db :: "db \<Rightarrow> worker \<Rightarrow> worker" where
  "set_db d s = s\<lparr>wk_world := (wk_world s)\<lparr>wd_db := d\<rparr>\<rparr>"

definition on_db :: "(db, 'a) act \<Rightarrow> (worker, 'a) act" where
  "on_db f = (\<lambda>s. case f (wk_db s) of (r, d) \<Rightarrow> (r, set_db d s))"

definition on_bus :: "(bus, 'a) act \<Rightarrow> (worker, 'a) act" where
  "on_bus f = (\<lambda>s. case f (wk_bus s) of (r, b) \<Rightarrow> (r, s\<lparr>wk_bus := b\<rparr>))"

definition ask_db :: "(db \<Rightarrow> 'a result) \<Rightarrow> (worker, 'a) act" where
  "ask_db q = query (\<lambda>s. q (wk_db s))"

definition optionalString :: "string \<Rightarrow> string option" where
  "optionalString v = nullif_empty (trim_space v)"

section \<open>Messages\<close>

definition msg_of :: "string \<Rightarrow> string \<Rightarrow> tg_message \<Rightarrow> msg" where
  "msg_of account chat m =
     \<lparr>ms_id = [], ms_account = account, ms_chat = chat, ms_tg = tg_id m, ms_sender = tg_sender m,
      ms_sender_chat = tg_sender_chat m, ms_type = tg_type m, ms_content = tg_content m,
      ms_entities = tg_entities m, ms_reply = tg_reply m, ms_forward = tg_forward m,
      ms_meta = tg_meta m, ms_sent = tg_sent m, ms_edited = tg_edited m\<rparr>"

definition chat_of :: "string \<Rightarrow> string \<Rightarrow> tg_chat \<Rightarrow> chat_info" where
  "chat_of account ty c =
     \<lparr>ci_id = [], ci_account = account, ci_tg = tc_id c, ci_type = ty,
      ci_title = optionalString (tc_title c), ci_username = optionalString (tc_username c),
      ci_photo = None, ci_meta = tc_meta c, ci_last_id = tc_last_id c, ci_last_at = tc_last_at c\<rparr>"

text \<open>\<open>on_demand\<close> tells whether the caller is an on-demand read, which queues nothing.\<close>

definition registerMedia ::
    "env \<Rightarrow> uuids \<Rightarrow> bool \<Rightarrow> string \<Rightarrow> string \<Rightarrow> tg_media list \<Rightarrow> (worker, unit list) act" where
  "registerMedia e g on_demand account message_id =
     each 0 (\<lambda>k m.
       and_then (on_db (RegisterPending e (g [k]) message_id (tm_type m) (Some (tm_file m))
                   (optionalString (tm_unique m)) (optionalString (tm_mime m)) (optionalString (tm_name m))
                   (tm_size m)))
         (\<lambda>i. if tm_file m \<noteq> 0 \<and> \<not> on_demand
               then on_bus (EnqueueMediaDownload e (g [k, 0]) account
                      \<lparr>dj_media = i, dj_message = message_id, dj_file = tm_file m\<rparr>)
               else done_with ()))"

definition StoreMessage ::
    "env \<Rightarrow> uuids \<Rightarrow> bool \<Rightarrow> string \<Rightarrow> string \<Rightarrow> tg_message \<Rightarrow> (worker, unit) act" where
  "StoreMessage e g on_demand account chat m =
     and_then (on_db (Messages.Upsert e (g [0]) (msg_of account chat m))) (\<lambda>i.
     and_then (registerMedia e (branch 1 g) on_demand account i (tg_media m)) (\<lambda>_.
     on_db (ApplyTombstones e account chat)))"

section \<open>Updates\<close>

record update =  \<comment> \<open>tdlib.Event\<close>
  up_kind :: string
  up_tg :: int
  up_chat :: "tg_chat option"
  up_message :: "tg_message option"
  up_id :: int
  up_ids :: "int list"
  up_content :: "string option"
  up_entities :: "json list option"
  up_media :: "tg_media list"
  up_edited :: "time option"
  up_permanent :: bool

text \<open>\<open>INSERT INTO message_tombstones ... ON CONFLICT DO NOTHING\<close>.\<close>

definition insert_tombstone :: "env \<Rightarrow> string \<Rightarrow> int \<Rightarrow> int \<Rightarrow> (db, unit) act" where
  "insert_tombstone e account chat i d =
     (if e_fail e ''tombstone'' then (Inl (DbErr ''insert''), d)
      else (case e_uuid e account of
          None \<Rightarrow> (Inl (DbErr ''invalid uuid''), d)
        | Some a \<Rightarrow>
            if exists_row (\<lambda>t. ts_account t = a \<and> ts_chat t = chat \<and> ts_msg t = i) (tombstones d) then (Inr (), d)
            else if a \<notin> acc_id ` set (accounts d) then (Inl (DbErr ''foreign key''), d)
            else (Inr (), d\<lparr>tombstones := tombstones d @
                    [\<lparr>ts_account = a, ts_chat = chat, ts_msg = i, ts_at = e_now e\<rparr>]\<rparr>)))"

text \<open>The lookup of a known chat ignores its error.\<close>

definition known_chat :: "env \<Rightarrow> string \<Rightarrow> int \<Rightarrow> db \<Rightarrow> uuid option" where
  "known_chat e account chat d =
     (if e_fail e ''known_chat'' then None
      else (case e_uuid e account of
          None \<Rightarrow> None
        | Some a \<Rightarrow> map_option ch_id (find (\<lambda>c. ch_account c = a \<and> ch_tg c = chat) (chats d))))"

definition content_row :: "env \<Rightarrow> update \<Rightarrow> message \<Rightarrow> message" where
  "content_row e u m =
     m\<lparr>m_content := up_content u, m_entities := array_text e (up_entities u),
       m_edited := Some (e_now e), m_updated := e_now e\<rparr>"

text \<open>The row an update changes, and the two updates of message rows.\<close>

definition the_message :: "env \<Rightarrow> string \<Rightarrow> string \<Rightarrow> int \<Rightarrow> (message \<Rightarrow> bool) option" where
  "the_message e account chat i =
     (case (e_uuid e account, e_uuid e chat) of
        (Some a, Some c) \<Rightarrow> Some (\<lambda>m. m_account m = a \<and> m_chat m = c \<and> m_tg m = i)
      | _ \<Rightarrow> None)"

definition update_content :: "env \<Rightarrow> string \<Rightarrow> string \<Rightarrow> update \<Rightarrow> (db, uuid) act" where
  "update_content e account chat u d =
     (if e_fail e ''update_content'' \<or> \<not> opt_text (up_content u) then (Inl (DbErr ''update''), d)
      else (case the_message e account chat (up_id u) of
          None \<Rightarrow> (Inl (DbErr ''invalid uuid''), d)
        | Some p \<Rightarrow>
            (case find p (messages d) of
               None \<Rightarrow> (Inl NoRows, d)
             | Some m \<Rightarrow> (Inr (m_id m), d\<lparr>messages := update_where p (content_row e u) (messages d)\<rparr>))))"

definition update_edited :: "env \<Rightarrow> string \<Rightarrow> string \<Rightarrow> update \<Rightarrow> (db, unit) act" where
  "update_edited e account chat u d =
     (if e_fail e ''update_edited'' then (Inl (DbErr ''update''), d)
      else (case the_message e account chat (up_id u) of
          None \<Rightarrow> (Inl (DbErr ''invalid uuid''), d)
        | Some p \<Rightarrow>
            (Inr (), d\<lparr>messages := update_where p (\<lambda>m. m\<lparr>m_edited := up_edited u, m_updated := e_now e\<rparr>)
                        (messages d)\<rparr>)))"

definition touch_account :: "env \<Rightarrow> string \<Rightarrow> (db, unit) act" where
  "touch_account e account d =
     (if e_fail e ''touch_account'' then (Inl (DbErr ''update''), d)
      else (case e_uuid e account of
          None \<Rightarrow> (Inl (DbErr ''invalid uuid''), d)
        | Some a \<Rightarrow>
            (Inr (), d\<lparr>accounts := update_where (\<lambda>x. acc_id x = a) (\<lambda>x. x\<lparr>acc_last_update := Some (e_now e)\<rparr>)
                        (accounts d)\<rparr>)))"

definition update_chat :: "env \<Rightarrow> uuids \<Rightarrow> string \<Rightarrow> update \<Rightarrow> (worker, uuid option) act" where
  "update_chat e g account u =
     (case up_chat u of
        Some c \<Rightarrow> and_then (on_db (Chats.Upsert e (g [0]) (chat_of account (tc_type c) c))) (\<lambda>i. done_with (Some i))
      | None \<Rightarrow> ask_db (\<lambda>d. Inr (known_chat e account (up_tg u) d)))"

text \<open>The part that depends on the kind of the update.  An error of the content update is
  dropped, whatever it is.\<close>

definition update_kind :: "env \<Rightarrow> uuids \<Rightarrow> string \<Rightarrow> string \<Rightarrow> update \<Rightarrow> (worker, unit) act" where
  "update_kind e g account chat u =
     (if up_kind u = ''updateMessageContent'' then
        (\<lambda>s. case on_db (update_content e account chat u) s of
               (Inr i, s') \<Rightarrow> and_then (registerMedia e g False account i (up_media u)) (\<lambda>_. done_with ()) s'
             | (Inl err, s') \<Rightarrow> on_db (touch_account e account) s')
      else if up_kind u = ''updateMessageEdited'' then
        and_then (on_db (update_edited e account chat u)) (\<lambda>_. on_db (touch_account e account))
      else if up_kind u = ''updateDeleteMessages'' \<and> up_permanent u then
        and_then (on_db (ApplyTombstones e account chat)) (\<lambda>_. on_db (touch_account e account))
      else on_db (touch_account e account))"

definition update_message :: "env \<Rightarrow> uuids \<Rightarrow> string \<Rightarrow> update \<Rightarrow> uuid \<Rightarrow> (worker, unit) act" where
  "update_message e g account u chat =
     (case up_message u of None \<Rightarrow> done_with () | Some m \<Rightarrow> StoreMessage e g False account chat m)"

definition update_in_chat :: "env \<Rightarrow> uuids \<Rightarrow> string \<Rightarrow> update \<Rightarrow> uuid option \<Rightarrow> (worker, unit) act" where
  "update_in_chat e g account u chat =
     (case chat of
        None \<Rightarrow> if up_kind u = ''updateDeleteMessages'' then done_with ()
                 else fail_with (Msg ''Telegram update chat has not arrived'')
      | Some c \<Rightarrow>
          and_then (update_message e (branch 1 g) account u c) (\<lambda>_. update_kind e (branch 2 g) account c u))"

definition update_tombstones :: "env \<Rightarrow> string \<Rightarrow> update \<Rightarrow> (worker, unit list) act" where
  "update_tombstones e account u =
     (if up_kind u = ''updateDeleteMessages'' \<and> up_permanent u
      then each 0 (\<lambda>_ i. on_db (insert_tombstone e account (up_tg u) i)) (up_ids u)
      else done_with [])"

definition update_secret :: "update \<Rightarrow> bool" where
  "update_secret u = (case up_chat u of Some c \<Rightarrow> tc_type c = ''secret'' | None \<Rightarrow> False)"

definition ProcessUpdate :: "env \<Rightarrow> uuids \<Rightarrow> string \<Rightarrow> update \<Rightarrow> (worker, unit) act" where
  "ProcessUpdate e g account u =
     (if update_secret u then done_with ()
      else and_then (update_tombstones e account u) (\<lambda>_.
           and_then (update_chat e (branch 0 g) account u) (update_in_chat e g account u)))"

section \<open>The journal\<close>

text \<open>A row of \<open>telegram_updates\<close>; the payload is what \<open>json.Unmarshal\<close> makes of it.\<close>

record journal_row =
  jr_id :: int
  jr_account :: uuid
  jr_update :: "update option"

type_synonym journal = "journal_row list"

text \<open>
  One round of \<open>RunUpdates\<close> over a batch: an unreadable payload ends the worker (False), a
  failed update or a failed delete ends the batch.  \<open>E\<close> and \<open>G\<close> give the environment and
  the fresh ids of each update, by its id.
\<close>

fun run_batch ::
    "(int \<Rightarrow> env) \<Rightarrow> (int \<Rightarrow> uuids) \<Rightarrow> journal_row list \<Rightarrow> journal \<Rightarrow> worker \<Rightarrow> bool \<times> journal \<times> worker" where
  "run_batch E G [] j s = (True, j, s)"
| "run_batch E G (x # xs) j s =
     (case jr_update x of
        None \<Rightarrow> (False, j, s)
      | Some u \<Rightarrow>
          (case ProcessUpdate (E (jr_id x)) (G (jr_id x)) (jr_account x) u s of
             (Inl err, s') \<Rightarrow> (True, j, s')
           | (Inr _, s') \<Rightarrow>
               if e_fail (E (jr_id x)) ''telegram_updates.delete'' then (True, j, s')
               else run_batch E G xs (filter (\<lambda>y. jr_id y \<noteq> jr_id x) j) s'))"

definition batch :: "journal \<Rightarrow> journal_row list" where
  "batch j = order_by jr_id 100 j"

definition update_round ::
    "(int \<Rightarrow> env) \<Rightarrow> (int \<Rightarrow> uuids) \<Rightarrow> journal \<Rightarrow> worker \<Rightarrow> bool \<times> journal \<times> worker" where
  "update_round E G j s = run_batch E G (batch j) j s"

text \<open>The loop, for a number of rounds; \<open>E r\<close> is the environment of round \<open>r\<close>.\<close>

fun RunUpdates ::
    "nat \<Rightarrow> (nat \<Rightarrow> int \<Rightarrow> env) \<Rightarrow> (nat \<Rightarrow> int \<Rightarrow> uuids) \<Rightarrow> journal \<Rightarrow> worker \<Rightarrow> journal \<times> worker" where
  "RunUpdates 0 E G j s = (j, s)"
| "RunUpdates (Suc n) E G j s =
     (if e_fail (E n 0) ''telegram_updates.select'' then RunUpdates n E G j s
      else (case update_round (E n) (G n) j s of
              (go, j', s') \<Rightarrow> if go then RunUpdates n E G j' s' else (j', s')))"

section \<open>What actions on the database preserve\<close>

definition db_rel :: "(db \<Rightarrow> db \<Rightarrow> bool) \<Rightarrow> worker \<Rightarrow> worker \<Rightarrow> bool" where
  "db_rel R s s' = R (wk_db s) (wk_db s')"

lemma db_rel_refl: "reflp R \<Longrightarrow> reflp (db_rel R)"
  by (auto simp: reflp_def db_rel_def)

lemma db_rel_trans: "transp R \<Longrightarrow> transp (db_rel R)"
  unfolding transp_def db_rel_def by blast

lemma keeps_on_db: "keeps R f \<Longrightarrow> keeps (db_rel R) (on_db f)"
  by (auto simp: keeps_def db_rel_def on_db_def set_db_def split: prod.split) (metis snd_conv)

lemma keeps_on_bus: "reflp R \<Longrightarrow> keeps (db_rel R) (on_bus f)"
  by (auto simp: keeps_def db_rel_def on_bus_def reflp_def split: prod.split)

lemma keeps_ask: "reflp R \<Longrightarrow> keeps (db_rel R) (ask_db q)"
  unfolding ask_db_def by (rule keeps_simple, rule db_rel_refl)

end
