(* ===== verification/UpdateTheorems.thy ===== *)
theory UpdateTheorems
  imports Updates MessageTheorems
begin

text \<open>
  What the update journal guarantees: a deletion holds for messages that have not arrived yet;
  an update leaves the journal only after it and all updates before it were applied; a journal
  whose updates apply is emptied; an update of an unknown chat stops it.
\<close>

section \<open>Frames\<close>

definition mirror_safe :: "db \<Rightarrow> db \<Rightarrow> bool" where
  "mirror_safe d d' =
     ((distinct (map ch_id (chats d)) \<longrightarrow> distinct (map ch_id (chats d')))
      \<and> set (tombstones d) \<subseteq> set (tombstones d'))"

lemma mirror_safe_refl: "reflp mirror_safe" and mirror_safe_trans: "transp mirror_safe"
  by (auto simp: mirror_safe_def reflp_def transp_def)

lemma mirror_safe_same: "chats d' = chats d \<Longrightarrow> tombstones d' = tombstones d \<Longrightarrow> mirror_safe d d'"
  by (simp add: mirror_safe_def)

lemma keeps_same:
  assumes "\<And>d. chats (snd (f d)) = chats d" "\<And>d. tombstones (snd (f d)) = tombstones d"
  shows "keeps mirror_safe f"
  unfolding keeps_def by (auto intro!: mirror_safe_same assms)

lemma media_frame: "chats (snd (RegisterPending e i k msg fl u mi na fs d)) = chats d"
  "tombstones (snd (RegisterPending e i k msg fl u mi na fs d)) = tombstones d"
  by (auto simp: RegisterPending_def insert_media_def Let_def split: option.split sum.split prod.split)

lemma message_frame:
  "chats (snd (Messages.Upsert e i m d)) = chats d" "tombstones (snd (Messages.Upsert e i m d)) = tombstones d"
  "chats (snd (ApplyTombstones e a c d)) = chats d" "tombstones (snd (ApplyTombstones e a c d)) = tombstones d"
  "chats (snd (update_content e a c u d)) = chats d" "tombstones (snd (update_content e a c u d)) = tombstones d"
  "chats (snd (update_edited e a c u d)) = chats d" "tombstones (snd (update_edited e a c u d)) = tombstones d"
  "chats (snd (touch_account e a d)) = chats d" "tombstones (snd (touch_account e a d)) = tombstones d"
  by (auto simp: Messages.Upsert_def upsert_message_def ApplyTombstones_def update_content_def update_edited_def
      touch_account_def split: option.split sum.split prod.split)

lemma upsert_chat_safe: "mirror_safe d (snd (upsert_chat new d))"
proof (cases "find (\<lambda>r. chat_key r = chat_key new) (chats d)")
  case (Some r)
  have "map ch_id (upsert chat_key merge_chat new (chats d)) = map ch_id (chats d)"
    using find_in_set [OF Some] by (auto simp: upsert_def exists_row_def update_where_def merge_chat_def)
  then show ?thesis by (simp add: upsert_chat_def Some mirror_safe_def)
next
  case None
  then have "\<not> exists_row (\<lambda>r. chat_key r = chat_key new) (chats d)"
    by (auto simp: find_None_iff exists_row_def)
  then have "upsert chat_key merge_chat new (chats d) = chats d @ [new]" by (simp add: upsert_def)
  then show ?thesis by (auto simp: upsert_chat_def None mirror_safe_def)
qed

lemma chat_upsert_safe: "keeps mirror_safe (Chats.Upsert e i c)"
  unfolding keeps_def
proof
  fix d
  have "mirror_safe d d'" if "upsert_chat (chat_row e i a c) d = (r, d')" for a r d'
    using upsert_chat_safe [of d "chat_row e i a c"] that by simp
  then show "mirror_safe d (snd (Chats.Upsert e i c d))"
    using reflpD [OF mirror_safe_refl]
    by (auto simp: Chats.Upsert_def split: option.split sum.split prod.split)
qed

lemma tombstone_safe: "keeps mirror_safe (insert_tombstone e a c i)"
  by (auto simp: keeps_def insert_tombstone_def mirror_safe_def split: option.split)

abbreviation "worker_safe \<equiv> db_rel mirror_safe"

lemmas worker_safe_rel = db_rel_refl [OF mirror_safe_refl] db_rel_trans [OF mirror_safe_trans]

lemmas safe_ops = keeps_on_db [OF keeps_same] keeps_on_bus [OF mirror_safe_refl] keeps_ask [OF mirror_safe_refl]
  keeps_simple [OF worker_safe_rel(1)] keeps_on_db [OF chat_upsert_safe] keeps_on_db [OF tombstone_safe]
  keeps_then [OF worker_safe_rel(2)] keeps_each [OF worker_safe_rel]

lemma register_safe: "keeps worker_safe (registerMedia e g od account i ms)"
  unfolding registerMedia_def by (intro safe_ops media_frame) (auto intro!: safe_ops)

lemma store_safe: "keeps worker_safe (StoreMessage e g od account chat m)"
  unfolding StoreMessage_def by (intro safe_ops message_frame register_safe)

lemma update_kind_safe: "keeps worker_safe (update_kind e g account chat u)"
proof -
  have c: "keeps worker_safe (on_db (update_content e account chat u))"
    "keeps worker_safe (on_db (touch_account e account))"
    "keeps worker_safe (and_then (registerMedia e g False account i (up_media u)) (\<lambda>_. done_with ()))" for i
    by (intro safe_ops message_frame register_safe)+
  have "keeps worker_safe (\<lambda>s. case on_db (update_content e account chat u) s of
               (Inr i, s') \<Rightarrow> and_then (registerMedia e g False account i (up_media u)) (\<lambda>_. done_with ()) s'
             | (Inl err, s') \<Rightarrow> on_db (touch_account e account) s')"
    unfolding keeps_def
  proof
    fix s
    obtain r s' where m: "on_db (update_content e account chat u) s = (r, s')" by fastforce
    have "worker_safe s s'" by (rule keepsD [OF c(1) m])
    then show "worker_safe s (snd (case on_db (update_content e account chat u) s of
               (Inr i, s') \<Rightarrow> and_then (registerMedia e g False account i (up_media u)) (\<lambda>_. done_with ()) s'
             | (Inl err, s') \<Rightarrow> on_db (touch_account e account) s'))"
      using c(2,3) transpD [OF worker_safe_rel(2)] by (cases r) (auto simp: m keeps_def)
  qed
  then show ?thesis
    unfolding update_kind_def by (auto intro!: safe_ops message_frame)
qed

lemma update_chat_safe: "keeps worker_safe (update_chat e g account u)"
  unfolding update_chat_def by (cases "up_chat u") (auto intro!: safe_ops)

lemma update_in_chat_safe: "keeps worker_safe (update_in_chat e g account u chat)"
  unfolding update_in_chat_def update_message_def
  by (cases chat; cases "up_message u") (auto intro!: safe_ops store_safe update_kind_safe)

lemma update_tombstones_safe: "keeps worker_safe (update_tombstones e account u)"
  unfolding update_tombstones_def by (auto intro!: safe_ops)

lemma ProcessUpdate_safe: "keeps worker_safe (ProcessUpdate e g account u)"
  unfolding ProcessUpdate_def
  by (auto intro!: safe_ops update_tombstones_safe update_chat_safe update_in_chat_safe)

section \<open>Deletions\<close>

text \<open>Whatever the workers and requests do: apply updates, store messages, refresh chats, and
  anything that leaves the chats and the tombstones alone.\<close>

inductive feed_step :: "db \<Rightarrow> db \<Rightarrow> bool" where
  update: "feed_step (wk_db s) (wk_db (snd (ProcessUpdate e g account u s)))"
| store: "feed_step (wk_db s) (wk_db (snd (StoreMessage e g od account chat m s)))"
| chat: "feed_step d (snd (Chats.Upsert e i c d))"
| other: "chats d' = chats d \<Longrightarrow> set (tombstones d) \<subseteq> set (tombstones d') \<Longrightarrow> feed_step d d'"

lemma feed_step_safe: "feed_step d d' \<Longrightarrow> mirror_safe d d'"
proof (induction rule: feed_step.induct)
  case (update s e g account u)
  then show ?case using ProcessUpdate_safe by (auto simp: keeps_def db_rel_def)
next
  case (store s e g od account chat m)
  then show ?case using store_safe by (auto simp: keeps_def db_rel_def)
next
  case (chat d e i c)
  then show ?case using chat_upsert_safe by (auto simp: keeps_def)
qed (simp add: mirror_safe_def)

lemma feed_steps_safe: "feed_step\<^sup>*\<^sup>* d d' \<Longrightarrow> mirror_safe d d'"
  by (induction rule: rtranclp_induct)
    (use reflpD [OF mirror_safe_refl] transpD [OF mirror_safe_trans] feed_step_safe in blast)+

lemma tombstones_inserted:
  assumes "each k (\<lambda>_ i. on_db (insert_tombstone e account chat i)) xs s = (Inr ys, s')" "i \<in> set xs"
    "e_uuid e account = Some a"
  shows "\<exists>t \<in> set (tombstones (wk_db s')). ts_account t = a \<and> ts_chat t = chat \<and> ts_msg t = i"
  using assms
proof (induction xs arbitrary: k s ys)
  case (Cons x xs)
  obtain s1 zs where s1: "on_db (insert_tombstone e account chat x) s = (Inr (), s1)"
    and rest: "each (Suc k) (\<lambda>_ i. on_db (insert_tombstone e account chat i)) xs s1 = (Inr zs, s')"
    using Cons.prems(1) by (auto simp: and_then_ok)
  show ?case
  proof (cases "i = x")
    case True
    have "\<exists>t \<in> set (tombstones (wk_db s1)). ts_account t = a \<and> ts_chat t = chat \<and> ts_msg t = i"
      using s1 Cons.prems(3)
      by (auto simp: on_db_def insert_tombstone_def set_db_def exists_row_def True split: prod.splits if_splits)
    moreover have "worker_safe s1 s'"
      by (rule keepsD [OF keeps_each [OF worker_safe_rel keeps_on_db [OF tombstone_safe]] rest])
    ultimately show ?thesis by (auto simp: db_rel_def mirror_safe_def)
  next
    case False
    then show ?thesis using Cons.IH [OF rest] Cons.prems(2,3) by simp
  qed
qed simp

text \<open>C6: A deletion Telegram reported is obeyed for good, also by messages that arrive after it: once
  the update was applied, no sequence of updates, message arrivals, chat refreshes and other
  changes ever shows one of its messages among the active messages of its chat.\<close>

theorem deletion_outlives_arrival:
  assumes applied: "ProcessUpdate e g account u s = (Inr (), s1)"
    and kind: "up_kind u = ''updateDeleteMessages''" "up_permanent u"
    and chat: "\<forall>c. up_chat u = Some c \<longrightarrow> tc_type c \<noteq> ''secret''"
    and i: "i \<in> set (up_ids u)" and a: "e_uuid e account = Some a"
    and ids: "distinct (map ch_id (chats (wk_db s)))"
    and later: "feed_step\<^sup>*\<^sup>* (wk_db s1) d"
  shows "\<not> (\<exists>m \<in> set (active_messages d). \<exists>c \<in> set (chats d).
      m_account m = a \<and> m_tg m = i \<and> ch_id c = m_chat m \<and> ch_account c = a \<and> ch_tg c = up_tg u)"
proof -
  have ns: "\<not> update_secret u" using chat by (simp add: update_secret_def split: option.split)
  obtain ys s0 where t: "update_tombstones e account u s = (Inr ys, s0)"
    and rest: "and_then (update_chat e (branch 0 g) account u) (update_in_chat e g account u) s0 = (Inr (), s1)"
    using applied ns unfolding ProcessUpdate_def by (auto simp: and_then_ok)
  obtain q where q: "q \<in> set (tombstones (wk_db s0))" "ts_account q = a" "ts_chat q = up_tg u" "ts_msg q = i"
  proof -
    have "each 0 (\<lambda>_ i. on_db (insert_tombstone e account (up_tg u) i)) (up_ids u) s = (Inr ys, s0)"
      using t kind by (simp add: update_tombstones_def)
    from tombstones_inserted [OF this i a] that show thesis by blast
  qed
  have "keeps worker_safe (and_then (update_chat e (branch 0 g) account u) (update_in_chat e g account u))"
    by (auto intro!: safe_ops update_chat_safe update_in_chat_safe)
  from keepsD [OF this rest] have "worker_safe s0 s1" .
  then have in1: "q \<in> set (tombstones (wk_db s1))" using q(1) by (auto simp: db_rel_def mirror_safe_def)
  have d1: "distinct (map ch_id (chats (wk_db s1)))"
    using keepsD [OF ProcessUpdate_safe applied] ids by (auto simp: db_rel_def mirror_safe_def)
  have qd: "q \<in> set (tombstones d)" and dd: "distinct (map ch_id (chats d))"
    using feed_steps_safe [OF later] in1 d1 by (auto simp: mirror_safe_def)
  show ?thesis
  proof (intro notI, elim bexE conjE)
    fix m c
    assume m: "m \<in> set (active_messages d)" and c: "c \<in> set (chats d)"
      and k: "m_account m = a" "m_tg m = i" "ch_id c = m_chat m" "ch_account c = a" "ch_tg c = up_tg u"
    obtain c' where c': "c' \<in> set (chats d)" "ch_id c' = m_chat m"
      "\<not> exists_row (\<lambda>t. ts_account t = m_account m \<and> ts_chat t = ch_tg c' \<and> ts_msg t = m_tg m) (tombstones d)"
      using m by (auto simp: active_messages_def message_active_def exists_row_def)
    have "c' = c" using key_unique [OF dd c'(1) c] c'(2) k(3) by simp
    then show False using c'(3) qd q k by (auto simp: exists_row_def)
  qed
qed

section \<open>The journal\<close>

text \<open>The updates of a list, applied one after the other; None when one of them fails.\<close>

fun apply_all :: "(int \<Rightarrow> env) \<Rightarrow> (int \<Rightarrow> uuids) \<Rightarrow> journal_row list \<Rightarrow> worker \<Rightarrow> worker option" where
  "apply_all E G [] s = Some s"
| "apply_all E G (x # xs) s =
     (case jr_update x of
        None \<Rightarrow> None
      | Some u \<Rightarrow>
          (case ProcessUpdate (E (jr_id x)) (G (jr_id x)) (jr_account x) u s of
             (Inl err, s') \<Rightarrow> None
           | (Inr _, s') \<Rightarrow> apply_all E G xs s'))"

text \<open>The next update, if there is one, was attempted in the state \<open>s\<close> and left \<open>s'\<close>.\<close>

definition attempted ::
    "(int \<Rightarrow> env) \<Rightarrow> (int \<Rightarrow> uuids) \<Rightarrow> journal_row list \<Rightarrow> worker \<Rightarrow> worker \<Rightarrow> bool" where
  "attempted E G xs s s' =
     (case xs of
        [] \<Rightarrow> False
      | x # _ \<Rightarrow> (case jr_update x of None \<Rightarrow> False
          | Some u \<Rightarrow> snd (ProcessUpdate (E (jr_id x)) (G (jr_id x)) (jr_account x) u s) = s'))"

definition without :: "journal_row list \<Rightarrow> journal \<Rightarrow> journal" where
  "without xs j = filter (\<lambda>y. jr_id y \<notin> jr_id ` set xs) j"

lemma without_simps [simp]: "without [] j = j"
  "without xs (filter (\<lambda>y. jr_id y \<noteq> jr_id x) j) = without (x # xs) j"
  by (auto simp: without_def intro: filter_cong)

lemma run_batch_prefix:
  assumes "run_batch E G xs j s = (c, j', s')"
  shows "\<exists>n s1. n \<le> length xs \<and> apply_all E G (take n xs) s = Some s1 \<and> j' = without (take n xs) j
    \<and> (s' = s1 \<or> attempted E G (drop n xs) s1 s')"
  using assms
proof (induction xs arbitrary: j s)
  case Nil
  then show ?case by auto
next
  case (Cons x xs)
  show ?case
  proof (cases "jr_update x")
    case None
    then show ?thesis using Cons.prems by (intro exI [of _ 0]) auto
  next
    case (Some u)
    obtain r s1 where p: "ProcessUpdate (E (jr_id x)) (G (jr_id x)) (jr_account x) u s = (r, s1)" by fastforce
    show ?thesis
    proof (cases "isl r \<or> e_fail (E (jr_id x)) ''telegram_updates.delete''")
      case True
      then have "s' = s1" "j' = j" using Cons.prems Some p by (auto split: sum.splits)
      then show ?thesis using Some p by (intro exI [of _ 0]) (auto simp: attempted_def)
    next
      case False
      then obtain y where r: "r = Inr y" by (cases r) auto
      have "run_batch E G xs (filter (\<lambda>y. jr_id y \<noteq> jr_id x) j) s1 = (c, j', s')"
        using Cons.prems Some p r False by simp
      from Cons.IH [OF this] obtain n s2 where n: "n \<le> length xs" "apply_all E G (take n xs) s1 = Some s2"
        "j' = without (take n xs) (filter (\<lambda>y. jr_id y \<noteq> jr_id x) j)"
        "s' = s2 \<or> attempted E G (drop n xs) s2 s'" by blast
      show ?thesis
        by (rule exI [of _ "Suc n"]) (use n Some p r in auto)
    qed
  qed
qed

text \<open>No update is lost or overtaken: whatever fails during a round, exactly a prefix of the oldest
  hundred updates leaves the journal, every one of them was applied successfully, in arrival
  order, and beyond them at most the next update was attempted.\<close>

theorem journal_keeps_order:
  assumes "update_round E G j s = (go, j', s')"
  shows "\<exists>n s1. n \<le> 100 \<and> apply_all E G (take n (sort_key jr_id j)) s = Some s1
    \<and> j' = without (take n (sort_key jr_id j)) j
    \<and> (s' = s1 \<or> attempted E G (drop n (sort_key jr_id j)) s1 s')"
proof -
  let ?xs = "take 100 (sort_key jr_id j)"
  have "run_batch E G ?xs j s = (go, j', s')"
    using assms by (simp add: update_round_def batch_def order_by_def)
  from run_batch_prefix [OF this] obtain n s1 where n: "n \<le> length ?xs" "apply_all E G (take n ?xs) s = Some s1"
    "j' = without (take n ?xs) j" "s' = s1 \<or> attempted E G (drop n ?xs) s1 s'" by blast
  have m: "n \<le> 100" "take n ?xs = take n (sort_key jr_id j)" using n(1) by (simp_all add: min_def split: if_splits)
  have "attempted E G (drop n (sort_key jr_id j)) s1 s'" if at: "attempted E G (drop n ?xs) s1 s'"
  proof -
    obtain y ys where y: "drop n ?xs = y # ys" using at by (cases "drop n ?xs") (auto simp: attempted_def)
    then have "\<exists>zs. drop n (sort_key jr_id j) = y # zs"
      by (metis append_Cons append_take_drop_id drop_append drop_drop drop_take)
    then show ?thesis using at y by (auto simp: attempted_def)
  qed
  then show ?thesis using n m by (intro exI [of _ n] exI [of _ s1]) auto
qed

lemma run_batch_ok:
  assumes "apply_all E G xs s = Some s1" "\<forall>x \<in> set xs. \<not> e_fail (E (jr_id x)) ''telegram_updates.delete''"
  shows "run_batch E G xs j s = (True, without xs j, s1)"
  using assms
proof (induction xs arbitrary: j s)
  case (Cons x xs)
  then obtain u s2 y where "jr_update x = Some u"
    "ProcessUpdate (E (jr_id x)) (G (jr_id x)) (jr_account x) u s = (Inr y, s2)" "apply_all E G xs s2 = Some s1"
    by (auto split: option.splits sum.splits prod.splits)
  then show ?case using Cons by simp
qed simp

lemma apply_all_append:
  "apply_all E G (xs @ ys) s = Option.bind (apply_all E G xs s) (apply_all E G ys)"
  by (induction xs arbitrary: s) (auto split: option.split sum.split prod.split)

lemma without_prefix:
  assumes "distinct (map jr_id j)"
  shows "sort_key jr_id (without (take n (sort_key jr_id j)) j) = drop n (sort_key jr_id j)"
proof -
  let ?xs = "sort_key jr_id j"
  have dis: "distinct (map jr_id ?xs)"
    using assms by (metis distinct_map distinct_sort set_sort)
  have "sort_key jr_id (without (take n ?xs) j) = filter (\<lambda>y. jr_id y \<notin> jr_id ` set (take n ?xs)) (take n ?xs @ drop n ?xs)"
    by (simp add: without_def filter_sort)
  also have "\<dots> = filter (\<lambda>y. jr_id y \<notin> jr_id ` set (take n ?xs)) (drop n ?xs)"
    by (simp only: filter_append) (auto simp: filter_empty_conv)
  also have "\<dots> = drop n ?xs"
  proof -
    have "distinct (map jr_id (take n ?xs) @ map jr_id (drop n ?xs))"
      using dis by (metis append_take_drop_id map_append)
    then show ?thesis by (auto simp: filter_id_conv)
  qed
  finally show ?thesis .
qed

text \<open>C35: The journal is emptied: when its updates can be applied, rounds of a hundred updates each
  leave no update behind, whatever their number, and the state is that of applying all of them
  in arrival order.\<close>

theorem journal_drains:
  assumes "apply_all E G (sort_key jr_id j) s = Some s'" "distinct (map jr_id j)" "length j \<le> 100 * n"
    and "\<forall>i l. \<not> e_fail (E i) l"
  shows "RunUpdates n (\<lambda>_. E) (\<lambda>_. G) j s = ([], s')"
  using assms
proof (induction n arbitrary: j s)
  case 0
  then show ?case by simp
next
  case (Suc n)
  let ?xs = "sort_key jr_id j"
  let ?j = "without (take 100 ?xs) j"
  obtain s1 where s1: "apply_all E G (take 100 ?xs) s = Some s1" "apply_all E G (drop 100 ?xs) s1 = Some s'"
    using Suc.prems(1) apply_all_append [of E G "take 100 ?xs" "drop 100 ?xs" s]
    by (cases "apply_all E G (take 100 ?xs) s") auto
  have r: "update_round E G j s = (True, ?j, s1)"
    using run_batch_ok [OF s1(1)] Suc.prems(4) by (simp add: update_round_def batch_def order_by_def)
  note rest = without_prefix [OF Suc.prems(2), of 100]
  have "length ?j = length (drop 100 ?xs)" using rest by (metis length_sort)
  moreover have "distinct (map jr_id ?j)"
    using Suc.prems(2) by (simp add: without_def distinct_map_filter)
  ultimately have "RunUpdates n (\<lambda>_. E) (\<lambda>_. G) ?j s1 = ([], s')"
    using Suc.IH [of ?j s1] s1(2) rest Suc.prems(3,4) by simp
  then show ?case using r Suc.prems(4) by simp
qed

text \<open>
  An update other than a deletion, at the head of the journal, of a chat the gateway does not know
  stops the journal: while nothing else stores the chat, no round changes anything, for no account,
  although later updates of the journal might introduce the chat.
\<close>

theorem unknown_chat_stalls:
  assumes "sort_key jr_id j = x # rest" "jr_update x = Some u" "up_chat u = None"
    "up_kind u \<noteq> ''updateDeleteMessages''"
    and "\<forall>r. known_chat (E r (jr_id x)) (jr_account x) (up_tg u) (wk_db s) = None"
  shows "RunUpdates n E G j s = (j, s)"
proof (induction n)
  case (Suc n)
  have "ProcessUpdate (E n (jr_id x)) (G n (jr_id x)) (jr_account x) u s
      = (Inl (Msg ''Telegram update chat has not arrived''), s)"
    using assms(3-5)
    by (simp add: ProcessUpdate_def update_secret_def update_tombstones_def and_then_def done_with_def
        update_chat_def ask_db_def query_def update_in_chat_def fail_with_def)
  then have "update_round (E n) (G n) j s = (True, j, s)"
    using assms(1,2) by (simp add: update_round_def batch_def order_by_def)
  then show ?case using Suc by simp
qed simp

section \<open>Concrete inputs\<close>

definition demo_worker :: "db \<Rightarrow> worker" where
  "demo_worker d = \<lparr>wk_world = \<lparr>wd_db = d, wd_redis = empty_redis, wd_time = 1000\<rparr>, wk_bus = [], wk_store = (\<lambda>_. None)\<rparr>"

definition demo_delete :: update where
  "demo_delete = \<lparr>up_kind = ''updateDeleteMessages'', up_tg = 7, up_chat = None, up_message = None, up_id = 0,
     up_ids = [2], up_content = None, up_entities = None, up_media = [], up_edited = None, up_permanent = True\<rparr>"

definition demo_early :: update where
  "demo_early = demo_delete\<lparr>up_kind := ''updateMessageEdited'', up_tg := 99, up_permanent := False\<rparr>"

definition demo_deleted :: db where
  "demo_deleted = snd (touch_account demo_env ''a1'' (snd (ApplyTombstones demo_env ''a1'' ''k1''
     (demo_mirror\<lparr>tombstones := [\<lparr>ts_account = ''a1'', ts_chat = 7, ts_msg = 2, ts_at = 5000000\<rparr>]\<rparr>))))"

lemma demo_steps: "ApplyTombstones demo_env a c d = (Inr (), snd (ApplyTombstones demo_env a c d))"
  "touch_account demo_env a d = (Inr (), snd (touch_account demo_env a d))"
  by (simp_all add: ApplyTombstones_def touch_account_def demo_env_mirror)

lemma demo_lookups: "''a1'' \<in> acc_id ` set (accounts demo_mirror)" "tombstones demo_mirror = []"
  "find (\<lambda>c. ch_account c = ''a1'' \<and> ch_tg c = 7) (chats demo_mirror) = Some demo_chat" "ch_id demo_chat = ''k1''"
  "find (\<lambda>c. ch_account c = ''a1'' \<and> ch_tg c = 99) (chats demo_mirror) = None"
  by (simp_all add: demo_mirror_defs demo_account_def)

lemma demo_process: "ProcessUpdate demo_env g ''a1'' demo_delete (demo_worker demo_mirror) = (Inr (), demo_worker demo_deleted)"
proof -
  let ?t = "\<lparr>ts_account = ''a1'', ts_chat = 7, ts_msg = 2, ts_at = 5000000\<rparr>"
  obtain d1 where d1: "ApplyTombstones demo_env ''a1'' ''k1'' (demo_mirror\<lparr>tombstones := [?t]\<rparr>) = (Inr (), d1)"
    using demo_steps(1) by blast
  obtain d2 where d2: "touch_account demo_env ''a1'' d1 = (Inr (), d2)" using demo_steps(2) by blast
  have "demo_deleted = d2" by (simp add: demo_deleted_def d1 d2)
  moreover have "insert_tombstone demo_env ''a1'' 7 2 demo_mirror = (Inr (), demo_mirror\<lparr>tombstones := [?t]\<rparr>)"
    using demo_lookups(1) by (simp add: insert_tombstone_def demo_env_mirror exists_row_def demo_lookups(2)) (simp add: demo_env_def)
  moreover have "known_chat demo_env ''a1'' 7 (demo_mirror\<lparr>tombstones := [?t]\<rparr>) = Some ''k1''"
    by (simp add: known_chat_def demo_env_mirror demo_lookups)
  ultimately show ?thesis
    by (simp add: ProcessUpdate_def update_secret_def update_tombstones_def and_then_def done_with_def demo_delete_def
        update_chat_def ask_db_def query_def update_in_chat_def update_message_def update_kind_def
        on_db_def set_db_def demo_worker_def d1 d2)
qed

theorem deletion_outlives_arrival_witness:
  "\<not> (\<exists>m \<in> set (active_messages demo_deleted). \<exists>c \<in> set (chats demo_deleted).
      m_account m = ''a1'' \<and> m_tg m = 2 \<and> ch_id c = m_chat m \<and> ch_account c = ''a1'' \<and> ch_tg c = 7)"
  using deletion_outlives_arrival [OF demo_process, of 2 "''a1''" demo_deleted]
  by (simp add: demo_delete_def demo_env_mirror demo_worker_def) (simp add: demo_mirror_defs)

definition demo_journal :: journal where
  "demo_journal = [\<lparr>jr_id = 4, jr_account = ''a1'', jr_update = Some demo_delete\<rparr>]"

theorem journal_keeps_order_witness:
  "\<exists>n s1. n \<le> 100 \<and> apply_all (\<lambda>_. demo_env) (\<lambda>_ _. ''x'') (take n (sort_key jr_id demo_journal)) (demo_worker demo_mirror) = Some s1"
proof -
  obtain go j' s' where "update_round (\<lambda>_. demo_env) (\<lambda>_ _. ''x'') demo_journal (demo_worker demo_mirror) = (go, j', s')"
    by (metis prod.exhaust)
  from journal_keeps_order [OF this] show ?thesis by blast
qed

theorem journal_drains_witness:
  "RunUpdates 1 (\<lambda>_ _. demo_env) (\<lambda>_ _ _. ''x'') demo_journal (demo_worker demo_mirror) = ([], demo_worker demo_deleted)"
  by (rule journal_drains) (simp_all add: demo_journal_def demo_process, simp add: demo_env_def)

theorem unknown_chat_stalls_witness:
  "RunUpdates 3 (\<lambda>_ _. demo_env) (\<lambda>_ _ _. ''x'') [\<lparr>jr_id = 4, jr_account = ''a1'', jr_update = Some demo_early\<rparr>]
     (demo_worker demo_mirror) = ([\<lparr>jr_id = 4, jr_account = ''a1'', jr_update = Some demo_early\<rparr>], demo_worker demo_mirror)"
  by (rule unknown_chat_stalls [of _ "\<lparr>jr_id = 4, jr_account = ''a1'', jr_update = Some demo_early\<rparr>" "[]" demo_early])
    (simp_all add: demo_early_def demo_delete_def known_chat_def demo_env_mirror demo_worker_def demo_lookups)

end
