(* ===== verification/Routing.thy ===== *)
theory Routing
  imports Http Chats Media Text
begin

text \<open>
  The API's routes (\<open>internal/httpserver/server.go\<close>) as Go's \<open>ServeMux\<close> matches them, and
  the permission check that stands before every handler (\<open>chat_permissions.go\<close>).  The check
  reads the chat from the decoded path by itself; the mux hands the handler a path value taken
  from the encoded path.  The theorem here is that the two agree.
\<close>

section \<open>Paths\<close>

text \<open>\<open>path.Clean\<close> of a rooted path, on segments, and the mux's \<open>cleanPath\<close>.\<close>

definition clean_segments :: "string list \<Rightarrow> string list" where
  "clean_segments ss =
     foldl (\<lambda>st s. if s = [] \<or> s = ''.'' then st else if s = ''..'' then butlast st else st @ [s]) [] ss"

definition join_path :: "string list \<Rightarrow> string" where
  "join_path ss = (if ss = [] then ''/'' else concat (map (\<lambda>s. CHR ''/'' # s) ss))"

definition cleanPath :: "string \<Rightarrow> string" where
  "cleanPath p =
     (let p = (if p = [] \<or> hd p \<noteq> CHR ''/'' then CHR ''/'' # p else p);
          np = join_path (clean_segments (split_on (CHR ''/'') (tl p)))
      in if last p = CHR ''/'' \<and> np \<noteq> ''/'' then np @ ''/'' else np)"

definition seg_unescape :: "string \<Rightarrow> string" where
  "seg_unescape s = (case unescape EPath s of Some t \<Rightarrow> t | None \<Rightarrow> s)"

definition path_segments :: "string \<Rightarrow> string list" where
  "path_segments p = map seg_unescape (split_on (CHR ''/'') (tl p))"

section \<open>Routes\<close>

datatype api_route =
  RProfile | RSend | RInspect | RChats | RChatSearch | RMessages | RMembers | RSearch
| RContacts | RContactSearch | RMediaURL | RChatMedia

text \<open>The patterns that match the segments: method, handler and the value of the wildcard.\<close>

definition chat_patterns :: "string \<Rightarrow> string \<Rightarrow> (string \<times> api_route \<times> string) list" where
  "chat_patterns x b =
     (if b = ''messages'' then [(''POST'', RSend, x), (''GET'', RMessages, x)]
      else if b = ''members'' then [(''GET'', RMembers, x)]
      else if b = ''media'' then [(''GET'', RChatMedia, x)]
      else [])"

definition plain_patterns :: "string list \<Rightarrow> (string \<times> api_route \<times> string) list" where
  "plain_patterns ss =
     (if ss = [''profile''] then [(''GET'', RProfile, [])]
      else if ss = [''chats''] then [(''GET'', RChats, [])]
      else if ss = [''contacts''] then [(''GET'', RContacts, [])]
      else if ss = [''chats'', ''search''] then [(''GET'', RChatSearch, [])]
      else if ss = [''messages'', ''search''] then [(''GET'', RSearch, [])]
      else if ss = [''contacts'', ''search''] then [(''GET'', RContactSearch, [])]
      else [])"

text \<open>A wildcard does not match the segment of an escaped lone slash.\<close>

definition api_patterns :: "string list \<Rightarrow> (string \<times> api_route \<times> string) list" where
  "api_patterns ss =
     (case ss of
        [v, a, x, b] \<Rightarrow>
          if v \<noteq> ''v1'' \<or> x = ''/'' \<or> x = [] then []
          else if a = ''chats'' then chat_patterns x b
          else if a = ''media'' \<and> b = ''inspect'' then [(''GET'', RInspect, x)]
          else if a = ''media'' \<and> b = ''url'' then [(''GET'', RMediaURL, x)]
          else []
      | v # rest \<Rightarrow> if v = ''v1'' then plain_patterns rest else []
      | [] \<Rightarrow> [])"

definition method_matches :: "string \<Rightarrow> string \<Rightarrow> bool" where
  "method_matches pat m = (m = pat \<or> pat = ''GET'' \<and> m = ''HEAD'')"

text \<open>What the mux answers by itself, or the handler with its path value.\<close>

definition api_mux :: "request \<Rightarrow> response + (api_route \<times> string)" where
  "api_mux r =
     (let p = escaped_path (rq_url r) in
      if cleanPath p \<noteq> p
        then Inl (redirect_to 301 (cleanPath p @ query_text (rq_url r)))
      else (let pats = api_patterns (path_segments p) in
            case filter (\<lambda>(m, _). method_matches m (rq_method r)) pats of
              (m, route, x) # _ \<Rightarrow> Inr (route, x)
            | [] \<Rightarrow> if pats = [] then Inl (reply 404 (JStr ''404 page not found''))
                    else Inl (reply 405 (JStr ''Method Not Allowed''))))"

section \<open>Permissions (chat_permissions.go)\<close>

definition may_chat :: "uuid \<Rightarrow> uuid \<Rightarrow> bool \<Rightarrow> db \<Rightarrow> bool" where
  "may_chat a c send d =
     exists_row (\<lambda>p. cp_account p = a \<and> cp_chat p = c
         \<and> exists_row (\<lambda>x. ch_id x = cp_chat p \<and> ch_account x = cp_account p) (active_chats d)
         \<and> (if send then cp_send p else cp_read p)) (permissions d)"

definition allowChat :: "env \<Rightarrow> string \<Rightarrow> string \<Rightarrow> bool \<Rightarrow> db \<Rightarrow> response option" where
  [handler_defs]: "allowChat e account chat send d =
     (if e_parse e chat = None then Some (reply_error 400 ''invalid chat id'')
      else if e_fail e ''allowChat'' then Some (reply_error 503 ''permission service unavailable'')
      else (case (e_uuid e account, e_uuid e chat) of
          (Some a, Some c) \<Rightarrow>
            if may_chat a c send d then None
            else Some (reply_error 403 ''chat access denied; grant permission at /account'')
        | _ \<Rightarrow> Some (reply_error 503 ''permission service unavailable'')))"

definition allowMedia :: "env \<Rightarrow> string \<Rightarrow> string \<Rightarrow> db \<Rightarrow> response option" where
  [handler_defs]: "allowMedia e account media_id d =
     (if e_parse e media_id = None then Some (reply_error 400 ''invalid media id'')
      else if e_fail e ''allowMedia'' then Some (reply_error 404 ''media unavailable'')
      else (case (e_uuid e account, e_uuid e media_id) of
          (Some a, Some i) \<Rightarrow>
            (case find (\<lambda>(r, m). m_account m = a \<and> md_id r = i) (active_media d) of
               None \<Rightarrow> Some (reply_error 404 ''media unavailable'')
             | Some (r, m) \<Rightarrow> allowChat e account (m_chat m) False d)
        | _ \<Rightarrow> Some (reply_error 404 ''media unavailable'')))"

definition trim_slashes :: "string \<Rightarrow> string" where  \<comment> \<open>strings.Trim(path, "/")\<close>
  "trim_slashes s =
     rev (dropWhile (\<lambda>c. c = CHR ''/'') (rev (dropWhile (\<lambda>c. c = CHR ''/'') s)))"

definition path_parts :: "string \<Rightarrow> string list" where
  "path_parts p = split_on (CHR ''/'') (trim_slashes p)"

text \<open>
  \<open>chatAccess\<close>: None when the request goes on to the mux.  At this point the request has no
  path values of its own, so \<open>PathValue\<close> is empty.
\<close>

definition access_chat :: "request \<Rightarrow> string" where
  "access_chat r =
     (if rq_path r = ''/v1/messages/search'' then query_get r ''chat_id''
      else if has_prefix (rq_path r) ''/v1/chats/'' \<and> 4 \<le> length (path_parts (rq_path r))
        then path_parts (rq_path r) ! 2
      else [])"

definition chatAccess :: "env \<Rightarrow> principal \<Rightarrow> request \<Rightarrow> db \<Rightarrow> response option" where
  [handler_defs]: "chatAccess e p r d =
     (let chat = access_chat r; media_parts = path_parts (rq_path r) in
      if rq_path r = ''/v1/messages/search'' \<and> chat = []
        then Some (reply_error 400 ''chat_id is required; select an allowed chat first'')
      else (case (if has_prefix (rq_path r) ''/v1/media/'' \<and> 3 \<le> length media_parts
                  then allowMedia e (p_account p) (media_parts ! 2) d else None) of
          Some resp \<Rightarrow> Some resp
        | None \<Rightarrow>
            if chat \<noteq> [] then allowChat e (p_account p) chat (rq_method r = ''POST'') d else None))"

section \<open>The check and the mux agree\<close>

lemma split_on_nonempty: "split_on c s \<noteq> []"
  by (induction s) (auto split: list.split)

lemma split_on_sep: "c \<notin> set a \<Longrightarrow> split_on c (a @ c # b) = a # split_on c b"
  by (induction a) (auto split: list.split)

lemma split_on_none: "c \<notin> set a \<Longrightarrow> split_on c a = [a]"
  by (induction a) auto

lemma split_on_join: "s = (case split_on c s of w # ws \<Rightarrow> w @ concat (map (\<lambda>v. c # v) ws) | [] \<Rightarrow> [])"
proof (induction s)
  case (Cons x xs)
  then show ?case using split_on_nonempty [of c xs] by (auto split: list.splits)
qed simp

lemma escape_keeps_path: "\<not> should_escape EPath c \<Longrightarrow> c \<noteq> CHR ''%''"
  by (auto simp: should_escape_def is_alnum_def byte_def)

lemma unescape_escape_path: "unescape EPath (url_escape EPath s) = Some s"
proof (induction s)
  case (Cons c s)
  show ?case
  proof (cases "should_escape EPath c")
    case True
    have d: "byte c div 16 < 16" "byte c mod 16 < 16" using byte_lt [of c] by (simp_all add: div_less_iff_less_mult)
    have "triple_ok EPath (upper_hex (byte c div 16)) (upper_hex (byte c mod 16))"
      using hex_round [OF d(1)] hex_round [OF d(2)] by (simp add: triple_ok_def)
    then show ?thesis
      using True Cons hex_round [OF d(1)] hex_round [OF d(2)] byte_split [of c]
      by (simp add: url_escape_def)
  next
    case False
    then show ?thesis using escape_keeps_path [OF False] Cons by (simp add: url_escape_def)
  qed
qed (simp add: url_escape_def)

lemma unescape_escaped_path: "unescape EPath (escaped_path u) = Some (u_path u)"
  by (simp add: escaped_path_def unescape_escape_path)

text \<open>A slash ends an escape sequence, so unescaping works segment by segment.\<close>

lemma not_hex_slash: "\<not> is_hex (CHR ''/'')"
  by (simp add: is_hex_def byte_def)

lemma unescape_slash:
  "unescape EPath (a @ CHR ''/'' # b) =
     (case (unescape EPath a, unescape EPath b) of
        (Some x, Some y) \<Rightarrow> Some (x @ CHR ''/'' # y)
      | _ \<Rightarrow> None)"
proof (induction a rule: measure_induct_rule [of length])
  case (less a)
  show ?case
  proof (cases a)
    case Nil
    then show ?thesis by (simp split: option.split)
  next
    case (Cons c cs)
    show ?thesis
    proof (cases "c = CHR ''%''")
      case False
      then show ?thesis using less [of cs] Cons by (auto split: option.split)
    next
      case True
      consider "cs = []" | x where "cs = [x]" | x y r where "cs = x # y # r"
        by (cases cs; cases "tl cs") auto
      then show ?thesis
      proof cases
        case 1
        then show ?thesis using True Cons by (cases b) (simp_all add: triple_ok_def not_hex_slash)
      next
        case (2 x)
        then show ?thesis using True Cons by (simp add: triple_ok_def not_hex_slash)
      next
        case (3 x y r)
        then show ?thesis using True Cons less [of r] by (auto split: option.split)
      qed
    qed
  qed
qed

lemma unescape_join:
  "unescape EPath (concat (map (\<lambda>s. CHR ''/'' # s) ss)) = Some t \<Longrightarrow>
   t = concat (map (\<lambda>s. CHR ''/'' # seg_unescape s) ss)"
proof (induction ss arbitrary: t rule: rev_induct)
  case (snoc s ss)
  then show ?case
    by (auto simp: unescape_slash seg_unescape_def split: option.splits)
qed simp

lemma clean_path_form:
  assumes "cleanPath p = p"
  shows "p = concat (map (\<lambda>s. CHR ''/'' # s) (split_on (CHR ''/'') (tl p)))"
proof -
  have h: "\<exists>t. join_path ss = CHR ''/'' # t" for ss by (cases ss) (auto simp: join_path_def)
  obtain q where q: "p = CHR ''/'' # q"
    using assms h by (auto simp: cleanPath_def Let_def split: if_splits) (metis append_Cons h)+
  show ?thesis
    using split_on_join [of q "CHR ''/''"] split_on_nonempty [of "CHR ''/''" q]
    by (auto simp: q split: list.splits)
qed

lemma routed_path:
  assumes "api_mux r = Inr (route, x)"
  shows "rq_path r = concat (map (\<lambda>s. CHR ''/'' # s) (path_segments (escaped_path (rq_url r))))"
proof -
  let ?p = "escaped_path (rq_url r)"
  have "cleanPath ?p = ?p" using assms by (auto simp: api_mux_def Let_def split: if_splits)
  from clean_path_form [OF this] have "unescape EPath (concat (map (\<lambda>s. CHR ''/'' # s) (split_on (CHR ''/'') (tl ?p)))) = Some (rq_path r)"
    using unescape_escaped_path [of "rq_url r"] by simp
  from unescape_join [OF this] show ?thesis by (simp add: path_segments_def comp_def)
qed

lemma routed_segments:
  assumes "api_mux r = Inr (route, x)"
  shows "\<exists>m. (m, route, x) \<in> set (api_patterns (path_segments (escaped_path (rq_url r)))) \<and> method_matches m (rq_method r)"
  using assms by (auto simp: api_mux_def Let_def split: if_splits list.splits)
    (metis (mono_tags, lifting) case_prodD filter_eq_Cons_iff in_set_conv_decomp)+

definition chat_route :: "api_route \<Rightarrow> bool" where
  "chat_route route = (route \<in> {RSend, RMessages, RMembers, RChatMedia})"

lemma plain_no_chat: "(m, route, x) \<in> set (plain_patterns ss) \<Longrightarrow> \<not> chat_route route"
  by (auto simp: plain_patterns_def chat_route_def split: if_splits)

lemma chat_patterns_in:
  assumes "(m, route, y) \<in> set (chat_patterns x b)"
  shows "b \<in> {''messages'', ''members'', ''media''} \<and> y = x \<and> m = (if route = RSend then ''POST'' else ''GET'')"
  using assms by (auto simp: chat_patterns_def split: if_splits)

lemma chat_route_segments:
  assumes "(m, route, x) \<in> set (api_patterns ss)" "chat_route route"
  shows "\<exists>b \<in> {''messages'', ''members'', ''media''}. ss = [''v1'', ''chats'', x, b] \<and> x \<noteq> []
    \<and> m = (if route = RSend then ''POST'' else ''GET'')"
proof -
  obtain v rest where ss: "ss = v # rest" using assms(1) by (cases ss) (auto simp: api_patterns_def)
  show ?thesis
  proof (cases "\<exists>a y b. rest = [a, y, b]")
    case True
    then obtain a y b where ss: "ss = [v, a, y, b]" using ss by blast
    have "a = ''chats''" "v = ''v1''" "y \<noteq> []" "(m, route, x) \<in> set (chat_patterns y b)"
      using assms by (auto simp: ss api_patterns_def chat_route_def split: if_splits)
    then show ?thesis using chat_patterns_in [of m route x y b] ss by blast
  next
    case False
    then have "(m, route, x) \<in> set (plain_patterns rest)"
      using assms(1) by (auto simp: ss api_patterns_def split: list.splits if_splits)
    then show ?thesis using plain_no_chat assms(2) by blast
  qed
qed

lemma trim_slashes_id:
  assumes "b \<noteq> []" "last b \<noteq> CHR ''/''" "c \<noteq> CHR ''/''"
  shows "trim_slashes (CHR ''/'' # c # a @ b) = c # a @ b"
proof -
  obtain y ys where y: "rev b = y # ys" using assms(1) by (cases "rev b") auto
  then have b: "b = rev ys @ [y]" by (metis rev.simps(2) rev_rev_ident)
  have "y \<noteq> CHR ''/''" using assms(2) unfolding b by simp
  then show ?thesis using assms(3) by (simp add: trim_slashes_def b)
qed

lemma chat_parts:
  assumes "CHR ''/'' \<notin> set x" "CHR ''/'' \<notin> set b" "b \<noteq> []"
  shows "path_parts (''/v1/chats/'' @ x @ CHR ''/'' # b) = [''v1'', ''chats'', x, b]"
proof -
  have "last b \<noteq> CHR ''/''" using assms(2,3) last_in_set [of b] by metis
  then have t: "trim_slashes (''/v1/chats/'' @ x @ CHR ''/'' # b) = ''v1/chats/'' @ x @ CHR ''/'' # b"
    using trim_slashes_id [of b "CHR ''v''" "''1/chats/'' @ x @ ''/''"] assms(3) by simp
  have "split_on (CHR ''/'') (x @ CHR ''/'' # b) = [x, b]"
    by (simp only: split_on_sep [OF assms(1)] split_on_none [OF assms(2)])
  then show ?thesis unfolding path_parts_def t by simp
qed

lemma chat_route_checked:
  assumes "api_mux r = Inr (route, x)" "chat_route route" "CHR ''/'' \<notin> set x"
  shows "access_chat r = x"
proof -
  obtain m where m: "(m, route, x) \<in> set (api_patterns (path_segments (escaped_path (rq_url r))))"
    using routed_segments [OF assms(1)] by blast
  from chat_route_segments [OF this assms(2)]
  obtain b where b: "b \<in> {''messages'', ''members'', ''media''}"
    "path_segments (escaped_path (rq_url r)) = [''v1'', ''chats'', x, b]" "x \<noteq> []" by blast
  have p: "rq_path r = ''/v1/chats/'' @ x @ CHR ''/'' # b"
    using routed_path [OF assms(1)] unfolding b(2) by simp
  have nb: "CHR ''/'' \<notin> set b" "b \<noteq> []" using b(1) by auto
  note parts = chat_parts [OF assms(3) nb, folded p]
  have "has_prefix (rq_path r) ''/v1/chats/''" unfolding p has_prefix_def by simp
  moreover have "rq_path r \<noteq> ''/v1/messages/search''" unfolding p by simp
  ultimately show ?thesis by (simp add: access_chat_def parts)
qed

lemma allowChat_may:
  assumes "allowChat e account chat send d = None"
  obtains a c where "e_uuid e account = Some a" "e_uuid e chat = Some c" "may_chat a c send d"
  using assms by (auto simp: allowChat_def split: if_splits option.splits)

text \<open>PostgreSQL reads only hexadecimal digits, hyphens and braces as a uuid.\<close>

definition uuid_char :: "char \<Rightarrow> bool" where
  "uuid_char c = (is_hex c \<or> c \<in> set ''-{}'')"

definition pg_uuid :: "env \<Rightarrow> bool" where
  "pg_uuid e = (\<forall>s u. e_uuid e s = Some u \<longrightarrow> list_all uuid_char s)"

lemma uuid_text:
  assumes "pg_uuid e" "e_uuid e s = Some u"
  shows "CHR ''/'' \<notin> set s"
proof
  assume "CHR ''/'' \<in> set s"
  then have "uuid_char (CHR ''/'')" using assms by (auto simp: pg_uuid_def list_all_iff)
  then show False by (simp add: uuid_char_def not_hex_slash)
qed

lemma uuid_trimmed:
  assumes "pg_uuid e" "e_uuid e s = Some u"
  shows "trim_space s = s"
proof (rule trim_graph)
  have "graph c" if "uuid_char c" for c
    using that by (auto simp: uuid_char_def is_hex_def graph_def Let_def) (simp_all add: byte_def)
  then show "list_all graph s" using assms by (auto simp: pg_uuid_def list_all_iff)
qed

lemma search_route:
  assumes "api_mux r = Inr (RSearch, x)"
  shows "rq_path r = ''/v1/messages/search'' \<and> rq_method r \<noteq> ''POST''"
proof -
  obtain m where m: "(m, RSearch, x) \<in> set (api_patterns (path_segments (escaped_path (rq_url r))))" "method_matches m (rq_method r)"
    using routed_segments [OF assms] by blast
  obtain v rest where ss: "path_segments (escaped_path (rq_url r)) = v # rest"
    using m(1) by (cases "path_segments (escaped_path (rq_url r))") (auto simp: api_patterns_def)
  have "\<not> (\<exists>a y b. rest = [a, y, b])"
    using m(1) by (auto simp: ss api_patterns_def chat_patterns_def split: if_splits)
  then have p: "v = ''v1''" "(m, RSearch, x) \<in> set (plain_patterns rest)"
    using m(1) by (auto simp: ss api_patterns_def split: list.splits if_splits)
  then have "rest = [''messages'', ''search'']" "m = ''GET''" by (auto simp: plain_patterns_def split: if_splits)
  then show ?thesis using routed_path [OF assms] m(2) p(1) ss by (auto simp: method_matches_def)
qed

text \<open>The text from which a chat handler takes its chat.\<close>

definition handler_chat :: "request \<Rightarrow> api_route \<Rightarrow> string \<Rightarrow> string" where
  "handler_chat r route x = (if route = RSearch then query_get r ''chat_id'' else x)"

lemma handlers_guarded:
  assumes "pg_uuid e" "chatAccess e p r d = None" "api_mux r = Inr (route, x)" "chat_route route \<or> route = RSearch"
    and "e_uuid e (handler_chat r route x) = Some c \<or> e_uuid e (trim_space (handler_chat r route x)) = Some c"
  shows "\<exists>a. e_uuid e (p_account p) = Some a \<and> may_chat a c (route = RSend) d"
proof -
  let ?x = "handler_chat r route x"
  have slash: "CHR ''/'' \<in> set ?x \<Longrightarrow> CHR ''/'' \<in> set (trim_space ?x)"
    by (erule trim_keeps) (rule graph_not_space, simp_all add: graph_def byte_def)
  have "CHR ''/'' \<notin> set ?x" using assms(1,5) uuid_text slash by blast
  have x: "access_chat r = ?x" "?x \<noteq> []" "(rq_method r = ''POST'') = (route = RSend)"
  proof (atomize (full), cases "route = RSearch")
    case True
    then show "access_chat r = ?x \<and> ?x \<noteq> [] \<and> (rq_method r = ''POST'') = (route = RSend)"
      using search_route [of r x] assms(2,3)
      by (auto simp: access_chat_def handler_chat_def chatAccess_def Let_def)
  next
    case False
    then have route: "chat_route route" "?x = x" using assms(4) by (auto simp: handler_chat_def)
    obtain m where m: "(m, route, x) \<in> set (api_patterns (path_segments (escaped_path (rq_url r))))" "method_matches m (rq_method r)"
      using routed_segments [OF assms(3)] by blast
    have "x \<noteq> []" and "m = (if route = RSend then ''POST'' else ''GET'')"
      using chat_route_segments [OF m(1) route(1)] by blast+
    then have "(rq_method r = ''POST'') = (route = RSend)" using m(2) by (auto simp: method_matches_def split: if_splits)
    then show "access_chat r = ?x \<and> ?x \<noteq> [] \<and> (rq_method r = ''POST'') = (route = RSend)"
      using chat_route_checked [OF assms(3) route(1)] \<open>CHR ''/'' \<notin> set ?x\<close> \<open>x \<noteq> []\<close> by (simp add: route(2))
  qed
  have "allowChat e (p_account p) ?x (rq_method r = ''POST'') d = None"
    using assms(2) x(2) unfolding chatAccess_def Let_def x(1) by (auto split: if_splits option.splits)
  then obtain a c' where a: "e_uuid e (p_account p) = Some a" "e_uuid e ?x = Some c'" "may_chat a c' (rq_method r = ''POST'') d"
    by (rule allowChat_may)
  moreover have "c' = c" using assms(5) a(2) uuid_trimmed [OF assms(1) a(2)] by simp
  ultimately show ?thesis using x(3) by simp
qed

text \<open>C4: No handler of a chat runs on a chat that the check did not allow: whatever escapes, slashes or
  dots the path holds, when the mux hands a request to a chat handler after \<open>chatAccess\<close> let it
  pass, any chat id the database reads from the handler's path value or query (trimmed or not) is
  an active chat of the token's account on which its user granted the access the method needs.\<close>

theorem chat_handlers_guarded:
  assumes "pg_uuid e" "chatAccess e p r d = None" "api_mux r = Inr (route, x)" "chat_route route \<or> route = RSearch"
    and "e_uuid e (handler_chat r route x) = Some c \<or> e_uuid e (trim_space (handler_chat r route x)) = Some c"
  shows "\<exists>a. e_uuid e (p_account p) = Some a \<and> may_chat a c (route = RSend) d"
  using assms by (rule handlers_guarded)

end
