(* ===== verification/JsonRound.thy ===== *)
theory JsonRound
  imports Mirror
begin

text \<open>
  \<open>json.Unmarshal\<close> reads back what \<open>json.Marshal\<close> printed, for values whose numbers are
  integers, whose strings are printable ASCII without characters that need an escape, and whose
  keys are sorted.  Cursors, tickets and request bodies of the gateway are such values.
\<close>

definition ascii_plain :: "string \<Rightarrow> bool" where
  "ascii_plain s = list_all (\<lambda>c. 32 \<le> byte c \<and> byte c < 128 \<and> byte c \<notin> {34, 38, 60, 62, 92}) s"

fun plain_json :: "json \<Rightarrow> bool" where
  "plain_json JNull = True"
| "plain_json (JBool b) = True"
| "plain_json (JNum t) = (case parse_int 64 t of None \<Rightarrow> False | Some i \<Rightarrow> t = itoa i)"
| "plain_json (JStr s) = ascii_plain s"
| "plain_json (JArr vs) = (\<forall>v \<in> set vs. plain_json v)"
| "plain_json (JObj kvs) =
     (sorted (map fst kvs) \<and> (\<forall>kv \<in> set kvs. case kv of (k, v) \<Rightarrow> ascii_plain k \<and> plain_json v))"

lemma ascii_plain_esc: "ascii_plain s \<Longrightarrow> json_string s = CHR 0x22 # s @ [CHR 0x22]"
proof -
  have "ascii_plain s \<Longrightarrow> json_esc s = s"
    by (induction s) (simp_all add: ascii_plain_def json_esc.simps(2) esc_ascii_def Let_def)
  then show "ascii_plain s \<Longrightarrow> ?thesis" by (simp add: json_string_def)
qed

lemma ascii_plain_body:
  assumes "ascii_plain k" "length k < n" shows "str_body n (k @ CHR 0x22 # s) = Some (k, s)"
proof (rule str_body_plain [OF _ assms(2)])
  show "list_all (\<lambda>c. 32 \<le> byte c \<and> byte c < 128 \<and> c \<noteq> CHR 0x22 \<and> c \<noteq> CHR 0x5C) k"
    using assms(1) unfolding ascii_plain_def by (rule list.pred_mono_strong) (auto simp: byte_def)
qed

text \<open>Text after which a number ends.\<close>

definition num_end :: "string \<Rightarrow> bool" where
  "num_end s = (s = [] \<or> \<not> is_digit (hd s) \<and> hd s \<notin> set ''.eE'')"

lemma num_end_simps [simp]:
  "num_end []" "num_end (CHR '','' # s)" "num_end (CHR ''}'' # s)" "num_end (CHR '']'' # s)"
  using sep_after by (simp_all add: num_end_def is_digit_def byte_def)

lemma no_space [simp]:
  "\<not> json_space (CHR ''{'')" "\<not> json_space (CHR ''}'')" "\<not> json_space (CHR ''['')" "\<not> json_space (CHR '']'')"
  "\<not> json_space (CHR '':'')" "\<not> json_space (CHR '','')" "\<not> json_space (CHR 0x22)" "\<not> json_space (CHR ''n'')"
  "\<not> json_space (CHR ''t'')" "\<not> json_space (CHR ''f'')"
  by code_simp+

definition reads_back :: "json \<Rightarrow> bool" where
  "reads_back v = (\<forall>n s. length (json_marshal v) < n \<longrightarrow> num_end s \<longrightarrow> parse_value n (json_marshal v @ s) = Some (v, s))"

definition member_text :: "string \<times> json \<Rightarrow> string" where
  "member_text kv = json_string (fst kv) @ '':'' @ json_marshal (snd kv)"

lemma intercalate_Cons: "intercalate sep (x # y # ys) = x @ sep @ intercalate sep (y # ys)"
  by (simp add: intercalate_def)

lemma intercalate_one [simp]: "intercalate sep [x] = x"
  by (simp add: intercalate_def)

lemma marshal_head:
  assumes "plain_json v" shows "\<exists>c cs. json_marshal v = c # cs \<and> \<not> json_space c \<and> c \<noteq> CHR '']'' \<and> c \<noteq> CHR ''}''"
proof (cases v)
  case (JNum t)
  then obtain i where i: "t = itoa i" using assms by (auto split: option.splits)
  obtain c cs where c: "itoa i = c # cs" "c = CHR ''-'' \<or> is_digit c" using itoa_head by blast
  then have "45 \<le> byte c \<and> byte c \<le> 57" by (auto simp: is_digit_def byte_def)
  then show ?thesis using c(1) by (auto simp: JNum i json_space_def byte_def)
qed (simp_all add: json_string_def)

lemma reads_scalar: "reads_back JNull" "reads_back (JBool b)" "reads_back (JNum (itoa i))" "ascii_plain t \<Longrightarrow> reads_back (JStr t)"
proof -
  show "reads_back JNull" "reads_back (JBool b)"
    by (auto simp: reads_back_def gr0_conv_Suc skip_ws_Cons has_prefix_def dest!: less_imp_Suc_add)
  show "reads_back (JNum (itoa i))"
    unfolding reads_back_def
  proof (intro allI impI)
    fix n s
    assume n: "length (json_marshal (JNum (itoa i))) < n" "num_end s"
    then obtain m where "n = Suc m" by (cases n) auto
    then show "parse_value n (json_marshal (JNum (itoa i)) @ s) = Some (JNum (itoa i), s)"
      using parse_int_value [of s m i] n(2) by (simp add: num_end_def del: parse_value.simps)
  qed
  assume t: "ascii_plain t"
  have "parse_value (Suc n) (json_marshal (JStr t) @ s) = Some (JStr t, s)" for n s
    using ascii_plain_body [OF t, of "Suc (Suc (length t + length s))" s]
    by (simp add: ascii_plain_esc [OF t] skip_ws_Cons del: str_body.simps)
  then show "reads_back (JStr t)" unfolding reads_back_def by (auto dest!: less_imp_Suc_add simp del: parse_value.simps)
qed

lemma reads_elems:
  assumes "\<forall>v \<in> set vs. reads_back v" "vs \<noteq> []" "length (intercalate '','' (map json_marshal vs)) + 1 < n"
  shows "parse_elems n (intercalate '','' (map json_marshal vs) @ CHR '']'' # s) = Some (vs, s)"
  using assms
proof (induction vs arbitrary: n)
  case (Cons v vs)
  obtain m where n: "n = Suc m" using Cons.prems(3) by (cases n) auto
  show ?case
  proof (cases vs)
    case Nil
    have "parse_value m (json_marshal v @ CHR '']'' # s) = Some (v, CHR '']'' # s)"
      using Cons.prems by (simp add: reads_back_def Nil n)
    then show ?thesis by (simp add: n Nil skip_ws_Cons)
  next
    case (Cons w ws)
    let ?r = "intercalate '','' (map json_marshal vs) @ CHR '']'' # s"
    have t: "intercalate '','' (map json_marshal (v # vs)) @ CHR '']'' # s = json_marshal v @ CHR '','' # ?r"
      by (simp add: Cons intercalate_Cons)
    have "length (json_marshal v) < m" "length (intercalate '','' (map json_marshal vs)) + 1 < m"
      using Cons.prems(3) by (simp_all add: n Cons intercalate_Cons)
    then have "parse_value m (json_marshal v @ CHR '','' # ?r) = Some (v, CHR '','' # ?r)"
      "parse_elems m ?r = Some (vs, s)"
      using Cons.prems(1) Cons.IH [of m] Cons by (simp_all add: reads_back_def)
    then show ?thesis unfolding t by (simp add: n skip_ws_Cons)
  qed
qed simp

lemma reads_member:
  assumes "ascii_plain k" "reads_back v" "length (member_text (k, v)) < n" "num_end s"
  shows "parse_member n (member_text (k, v) @ s) = Some ((k, v), s)"
proof -
  obtain m where n: "n = Suc m" using assms(3) by (cases n) auto
  have "length (json_marshal v) < m" using assms(3) by (simp add: n member_text_def ascii_plain_esc [OF assms(1)])
  then have "parse_value m (json_marshal v @ s) = Some (v, s)" using assms(2,4) by (simp add: reads_back_def)
  then show ?thesis
    using ascii_plain_body [OF assms(1)]
    by (simp add: n member_text_def ascii_plain_esc [OF assms(1)] skip_ws_Cons del: str_body.simps parse_value.simps)
qed

lemma reads_members:
  assumes "\<forall>kv \<in> set kvs. ascii_plain (fst kv) \<and> reads_back (snd kv)" "kvs \<noteq> []"
    "length (intercalate '','' (map member_text kvs)) + 1 < n"
  shows "parse_members n (intercalate '','' (map member_text kvs) @ CHR ''}'' # s) = Some (kvs, s)"
  using assms
proof (induction kvs arbitrary: n)
  case (Cons kv kvs)
  obtain m where n: "n = Suc m" using Cons.prems(3) by (cases n) auto
  obtain k v where kv: "kv = (k, v)" by (cases kv)
  have rb: "ascii_plain k" "reads_back v" using Cons.prems(1) kv by simp_all
  show ?case
  proof (cases kvs)
    case Nil
    have "parse_member m (member_text (k, v) @ CHR ''}'' # s) = Some ((k, v), CHR ''}'' # s)"
      by (rule reads_member [OF rb]) (use Cons.prems(3) in \<open>simp_all add: Nil n kv\<close>)
    then show ?thesis by (simp add: n Nil kv skip_ws_Cons)
  next
    case (Cons w ws)
    let ?r = "intercalate '','' (map member_text kvs) @ CHR ''}'' # s"
    have t: "intercalate '','' (map member_text (kv # kvs)) @ CHR ''}'' # s = member_text (k, v) @ CHR '','' # ?r"
      by (simp add: Cons kv intercalate_Cons)
    have l: "length (member_text (k, v)) < m" "length (intercalate '','' (map member_text kvs)) + 1 < m"
      using Cons.prems(3) by (simp_all add: n kv Cons intercalate_Cons)
    have "parse_member m (member_text (k, v) @ CHR '','' # ?r) = Some ((k, v), CHR '','' # ?r)"
      by (rule reads_member [OF rb l(1)]) simp
    moreover have "parse_members m ?r = Some (kvs, s)"
      using Cons.prems(1) Cons.IH [of m] Cons l(2) by simp
    ultimately show ?thesis unfolding t by (simp add: n kv skip_ws_Cons)
  qed
qed simp

lemma marshal_members:
  assumes "sorted (map fst kvs)"
  shows "json_marshal (JObj kvs) = ''{'' @ intercalate '','' (map member_text kvs) @ ''}''"
proof -
  let ?ts = "map (\<lambda>(k, v). (k, json_marshal v)) kvs"
  have "map fst ?ts = map fst kvs" by (simp add: comp_def case_prod_beta)
  then have "sorted (map fst ?ts)" using assms by (simp only:)
  then have "sort_key fst ?ts = ?ts" by (rule sort_key_id_if_sorted)
  then show ?thesis by (simp add: member_text_def [abs_def] comp_def case_prod_beta)
qed

lemma reads_plain: "plain_json v \<Longrightarrow> reads_back v"
proof (induction v)
  case (JArr vs)
  then have all: "\<forall>v \<in> set vs. reads_back v" by simp
  show ?case
  proof (cases vs)
    case Nil
    then show ?thesis by (auto simp: reads_back_def intercalate_def skip_ws_Cons dest!: less_imp_Suc_add)
  next
    case (Cons w ws)
    obtain c cs where c: "json_marshal w = c # cs" "\<not> json_space c" "c \<noteq> CHR '']''"
      using marshal_head [of w] JArr.prems Cons by auto
    obtain u where u: "intercalate '','' (map json_marshal vs) = c # u"
      by (simp add: Cons intercalate_def c(1))
    show ?thesis
      unfolding reads_back_def
    proof (intro allI impI)
      fix n s
      assume n: "length (json_marshal (JArr vs)) < n" "num_end s"
      then obtain m where m: "n = Suc m" by (cases n) auto
      have "parse_elems m (intercalate '','' (map json_marshal vs) @ CHR '']'' # s) = Some (vs, s)"
        by (rule reads_elems [OF all]) (use n m Cons in simp_all)
      then show "parse_value n (json_marshal (JArr vs) @ s) = Some (JArr vs, s)"
        using c(2,3) by (simp add: m u skip_ws_Cons)
    qed
  qed
next
  case (JObj kvs)
  then have all: "\<forall>kv \<in> set kvs. ascii_plain (fst kv) \<and> reads_back (snd kv)" by (fastforce simp: snds.simps)
  note t = marshal_members [of kvs]
  show ?case
  proof (cases kvs)
    case Nil
    then show ?thesis by (auto simp: reads_back_def intercalate_def skip_ws_Cons dest!: less_imp_Suc_add)
  next
    case (Cons w ws)
    obtain u where u: "intercalate '','' (map member_text kvs) = CHR 0x22 # u"
      by (simp add: Cons intercalate_def member_text_def json_string_def)
    show ?thesis
      unfolding reads_back_def
    proof (intro allI impI)
      fix n s
      assume n: "length (json_marshal (JObj kvs)) < n" "num_end s"
      then obtain m where m: "n = Suc m" by (cases n) auto
      have tx: "json_marshal (JObj kvs) = ''{'' @ intercalate '','' (map member_text kvs) @ ''}''" using t JObj.prems by simp
      have "parse_members m (intercalate '','' (map member_text kvs) @ CHR ''}'' # s) = Some (kvs, s)"
        by (rule reads_members [OF all]) (use n m Cons tx in simp_all)
      then show "parse_value n (json_marshal (JObj kvs) @ s) = Some (JObj kvs, s)"
        unfolding tx by (simp add: m u skip_ws_Cons)
    qed
  qed
qed (auto simp: reads_scalar split: option.splits)

lemma unmarshal_marshal: "plain_json v \<Longrightarrow> unmarshal (json_marshal v) = Some v"
  using reads_plain [of v, unfolded reads_back_def, rule_format, of "json_fuel (json_marshal v)" "[]"]
  by (simp add: unmarshal_def json_fuel_def skip_ws_def)

lemma decode_marshal:
  assumes "plain_json v" "length (json_marshal v) \<le> n"
  shows "decode_body n (json_marshal v) = Some v"
  using reads_plain [OF assms(1), unfolded reads_back_def, rule_format, of "json_fuel (json_marshal v)" "[]"] assms(2)
  by (simp add: decode_body_def json_fuel_def)

end
