(* ===== verification/Sending.thy ===== *)
theory Sending
  imports Telegram Routing JsonRound MessageTheorems WebAuth "HOL-Library.Multiset"
begin

text \<open>
  \<open>internal/httpserver/send.go\<close>: sending a message.  The handler is cut where other requests
  can run in between: it reserves the request id, then passes the limiter, the audit log and
  the permission check, then hands the text to Telegram, then stores the outcome.
\<close>

section \<open>The reservation\<close>

datatype sender =
  NoSession          \<comment> \<open>no session source, or \<open>sessions.Get\<close> failed\<close>
| ReadOnly           \<comment> \<open>the session is no \<open>MessageSender\<close>\<close>
| Sender "int \<Rightarrow> string \<Rightarrow> int result"   \<comment> \<open>\<open>SendText\<close>\<close>

record reservation =
  rv_account :: uuid
  rv_client :: uuid
  rv_request :: uuid
  rv_tg :: int
  rv_text :: string
  rv_request_text :: string  \<comment> \<open>\<open>in.RequestID\<close> as spelled\<close>

definition rv_key :: "reservation \<Rightarrow> uuid \<times> uuid \<times> uuid" where
  "rv_key v = (rv_account v, rv_client v, rv_request v)"

definition send_key :: "send_row \<Rightarrow> uuid \<times> uuid \<times> uuid" where
  "send_key q = (sq_account q, sq_client q, sq_request q)"

definition text_error :: response where
  "text_error = reply_error 400 ''text must contain 1 to 4096 characters''"

definition send_input :: "request \<Rightarrow> (string \<times> string) option" where
  "send_input r =
     (case Option.bind (decode_body 32768 (rq_body r)) members_of of
        None \<Rightarrow> None
      | Some m \<Rightarrow>
          if unknown_field [''text'', ''request_id''] m then None
          else (case (struct_field ''text'' dec_str [] m, struct_field ''request_id'' dec_str [] m) of
              (Some t, Some q) \<Rightarrow>
                if blank t \<or> \<not> valid_utf8 t \<or> 4096 < rune_count t then None else Some (t, q)
            | _ \<Rightarrow> None))"

definition body_hash :: "env \<Rightarrow> string \<Rightarrow> string \<Rightarrow> bytes" where
  "body_hash e chat text = e_sha e (chat @ [CHR 0x00] @ text)"

text \<open>The replies to a request id that was used before.\<close>

definition send_replay :: "env \<Rightarrow> send_row option \<Rightarrow> bytes \<Rightarrow> string \<Rightarrow> response" where
  "send_replay e row h q =
     (if e_fail e ''send.lookup'' then reply_error 503 ''send lookup unavailable''
      else (case row of
          None \<Rightarrow> reply_error 503 ''send lookup unavailable''
        | Some x \<Rightarrow>
            if sq_body x \<noteq> h then reply_error 409 ''request_id already used for another message''
            else if sq_status x \<noteq> SendAccepted
              then reply_error 409 ''delivery is pending or unknown; do not resend with a new request_id''
            else reply 200 (JObj [(''request_id'', JStr q), (''status'', JStr ''accepted''),
                   (''telegram_message_id'', case sq_message x of None \<Rightarrow> JNull | Some i \<Rightarrow> jint i)])))"

text \<open>The chat to send to: its row's id, account and Telegram id.\<close>

definition send_chat :: "env \<Rightarrow> principal \<Rightarrow> string \<Rightarrow> db \<Rightarrow> (uuid \<times> uuid \<times> int) option" where
  "send_chat e p chat d =
     (if e_fail e ''send.chat'' then None
      else case (e_uuid e chat, e_uuid e (p_account p)) of
        (Some k, Some a) \<Rightarrow>
          map_option (\<lambda>x. (k, a, ch_tg x)) (find (\<lambda>x. ch_id x = k \<and> ch_account x = a) (active_chats d))
      | _ \<Rightarrow> None)"

definition cooling :: "env \<Rightarrow> principal \<Rightarrow> world \<Rightarrow> bool" where
  "cooling e p w =
     (case AccountCooldown e \<lfloor>wd_time w * 1000\<rfloor> (p_account p) (wd_redis w) of
        Inl err \<Rightarrow> True
      | Inr delay \<Rightarrow> 0 < delay)"

definition send_reserve ::
    "env \<Rightarrow> sender \<Rightarrow> principal \<Rightarrow> request \<Rightarrow> world \<Rightarrow> (response + reservation) \<times> world" where
  [handler_defs]: "send_reserve e snd_cap p r w =
     (let d = wd_db w; chat = rq_wild r ''chatID'' in
      case requireScope p ''messages:send'' of
        Some resp \<Rightarrow> (Inl resp, w)
      | None \<Rightarrow>
      (case send_input r of
        None \<Rightarrow> (Inl text_error, w)
      | Some (t, q) \<Rightarrow>
        if e_parse e q = None
          then (Inl (reply_error 400 ''request_id must be a UUID; reuse the same UUID when retrying''), w)
        else (case send_chat e p chat d of
            None \<Rightarrow> (Inl (reply_error 404 ''chat unavailable''), w)
          | Some (k, a, tg) \<Rightarrow>
            if snd_cap = NoSession then (Inl (reply_error 503 ''Telegram unavailable''), w)
            else if snd_cap = ReadOnly then (Inl (reply_error 503 ''sending unavailable''), w)
            else if cooling e p w
              then (Inl (reply_error 429 ''Telegram cooldown; retry later with the same request_id''), w)
            else if e_fail e ''send.reserve''
              then (Inl (reply_error 503 ''send request could not be recorded''), w)
            else (case (e_uuid e (p_client p), e_uuid e q) of
                (Some c, Some i) \<Rightarrow>
                  (case find (\<lambda>x. send_key x = (a, c, i)) (sends d) of
                     Some x \<Rightarrow> (Inl (send_replay e (Some x) (body_hash e chat t) q), w)
                   | None \<Rightarrow>
                       if a \<notin> acc_id ` set (accounts d) \<or> c \<notin> gc_id ` set (clients d)
                         then (Inl (reply_error 503 ''send request could not be recorded''), w)
                       else (Inr \<lparr>rv_account = a, rv_client = c, rv_request = i, rv_tg = tg, rv_text = t,
                                  rv_request_text = q\<rparr>,
                             w\<lparr>wd_db := d\<lparr>sends := sends d @
                                [\<lparr>sq_account = a, sq_client = c, sq_request = i, sq_chat = k,
                                  sq_body = body_hash e chat t, sq_status = SendPending, sq_message = None\<rparr>]\<rparr>\<rparr>))
              | _ \<Rightarrow> (Inl (reply_error 503 ''send request could not be recorded''), w)))))"

section \<open>After the reservation\<close>

definition send_limit :: limit where
  "send_limit = \<lparr>l_capacity = 5, l_refill = 1 / 10, l_cost = 1\<rparr>"

text \<open>The limiter, the audit entry and the second permission check; None lets the message out.\<close>

definition send_admit ::
    "env \<Rightarrow> principal \<Rightarrow> request \<Rightarrow> reservation \<Rightarrow> world \<Rightarrow> response option \<times> world" where
  [handler_defs]: "send_admit e p r v w =
     (case limit_check e (''rl:send:'' @ p_account p) send_limit w of
        (res, w) \<Rightarrow>
          if (case res of Inl err \<Rightarrow> True | Inr l \<Rightarrow> \<not> r_allowed l)
          then (Some (reply_error 429 ''send rate limit exceeded; retry later with the same request_id''),
                if e_fail e ''send.release'' then w
                else w\<lparr>wd_db := (wd_db w)\<lparr>sends := delete_where (\<lambda>x. send_key x = rv_key v) (sends (wd_db w))\<rparr>\<rparr>)
          else (case auditRead e r p ''TELEGRAM_SEND_REQUESTED'' ''chat'' (rq_wild r ''chatID'')
                       (JObj [(''request_id'', JStr (rv_request_text v))]) (wd_db w) of
              (Some resp, d) \<Rightarrow> (Some resp, w\<lparr>wd_db := d\<rparr>)
            | (None, d) \<Rightarrow>
                (allowChat e (p_account p) (rq_wild r ''chatID'') True d, w\<lparr>wd_db := d\<rparr>)))"

text \<open>What is stored and answered after Telegram's outcome; a failed send stores the id 0.\<close>

definition send_finish ::
    "env \<Rightarrow> principal \<Rightarrow> reservation \<Rightarrow> int result \<Rightarrow> world \<Rightarrow> response \<times> world" where
  [handler_defs]: "send_finish e p v outcome w =
     (let w1 = (case outcome of
                  Inr i \<Rightarrow> w
                | Inl err \<Rightarrow>
                    (case AsFloodWait err of
                       None \<Rightarrow> w
                     | Some t \<Rightarrow> w\<lparr>wd_redis := snd (SetAccountCooldown e \<lfloor>wd_time w * 1000\<rfloor> (p_account p) t (wd_redis w))\<rparr>));
          status = (if isl outcome then SendUnknown else SendAccepted);
          i = (case outcome of Inl err \<Rightarrow> 0 | Inr i \<Rightarrow> i);
          w2 = (if e_fail e ''send.save'' then w1
                else w1\<lparr>wd_db := (wd_db w1)\<lparr>sends :=
                       update_where (\<lambda>x. send_key x = rv_key v)
                         (\<lambda>x. x\<lparr>sq_status := status, sq_message := Some i\<rparr>) (sends (wd_db w1))\<rparr>\<rparr>)
      in if isl outcome \<or> e_fail e ''send.save''
         then (reply_error 502 ''delivery unknown; check Telegram and reuse this request_id, never automatically resend'', w2)
         else (reply 202 (JObj [(''note'', JStr ''Telegram accepted the message; final delivery is not confirmed.''),
                 (''request_id'', JStr (rv_request_text v)), (''status'', JStr ''accepted''),
                 (''telegram_message_id'', jint i)]), w2))"

text \<open>The handler, with the message it hands to Telegram, if any.\<close>

definition sendMessage ::
    "env \<Rightarrow> sender \<Rightarrow> principal \<Rightarrow> request \<Rightarrow> world \<Rightarrow> response \<times> world \<times> reservation option" where
  [handler_defs]: "sendMessage e snd_cap p r w =
     (case send_reserve e snd_cap p r w of
        (Inl resp, w) \<Rightarrow> (resp, w, None)
      | (Inr v, w) \<Rightarrow>
          (case send_admit e p r v w of
             (Some resp, w) \<Rightarrow> (resp, w, None)
           | (None, w) \<Rightarrow>
               (case snd_cap of
                  Sender f \<Rightarrow>
                    (case send_finish e p v (f (rv_tg v) (rv_text v)) w of
                       (resp, w) \<Rightarrow> (resp, w, Some v))
                | _ \<Rightarrow> (reply_error 503 ''sending unavailable'', w, None))))"

section \<open>Concurrent requests\<close>

text \<open>
  The requests in flight, by how far they are, and the history of what went to Telegram.  A
  crash forgets the requests in flight and nothing else.
\<close>

record send_sys =
  sy_world :: world
  sy_reserved :: "reservation list"
  sy_admitted :: "reservation list"
  sy_waiting :: "reservation list"
  sy_history :: "reservation list"

inductive send_step :: "send_sys \<Rightarrow> send_sys \<Rightarrow> bool" where
  reserve: "send_reserve e f p r (sy_world s) = (Inr v, w) \<Longrightarrow>
    send_step s (s\<lparr>sy_world := w, sy_reserved := v # sy_reserved s\<rparr>)"
| refuse: "send_reserve e f p r (sy_world s) = (Inl resp, w) \<Longrightarrow> send_step s (s\<lparr>sy_world := w\<rparr>)"
| admit: "v \<in> set (sy_reserved s) \<Longrightarrow> send_admit e p r v (sy_world s) = (None, w) \<Longrightarrow>
    send_step s (s\<lparr>sy_world := w, sy_reserved := remove1 v (sy_reserved s), sy_admitted := v # sy_admitted s\<rparr>)"
| deny: "v \<in> set (sy_reserved s) \<Longrightarrow> send_admit e p r v (sy_world s) = (Some resp, w) \<Longrightarrow>
    send_step s (s\<lparr>sy_world := w, sy_reserved := remove1 v (sy_reserved s)\<rparr>)"
| dispatch: "v \<in> set (sy_admitted s) \<Longrightarrow>
    send_step s (s\<lparr>sy_admitted := remove1 v (sy_admitted s), sy_waiting := v # sy_waiting s,
                   sy_history := v # sy_history s\<rparr>)"
| finish: "v \<in> set (sy_waiting s) \<Longrightarrow> send_finish e p v outcome (sy_world s) = (resp, w) \<Longrightarrow>
    send_step s (s\<lparr>sy_world := w, sy_waiting := remove1 v (sy_waiting s)\<rparr>)"
| crash: "send_step s (s\<lparr>sy_reserved := [], sy_admitted := [], sy_waiting := []\<rparr>)"
| other: "sends (wd_db w) = sends (wd_db (sy_world s)) \<Longrightarrow> send_step s (s\<lparr>sy_world := w\<rparr>)"

inductive_cases send_stepE: "send_step s s'"

definition send_inv :: "send_sys \<Rightarrow> bool" where
  "send_inv s =
     (let ks = map rv_key (sy_reserved s @ sy_admitted s @ sy_history s)
      in distinct ks \<and> set ks \<subseteq> send_key ` set (sends (wd_db (sy_world s))))"

section \<open>Effects\<close>

lemma limit_check_db [simp]: "wd_db (snd (limit_check e k l w)) = wd_db w"
  by (simp add: limit_check_def split: prod.split)

lemma limit_checkD: "limit_check e k l w = (res, w') \<Longrightarrow> wd_db w' = wd_db w"
  using limit_check_db [of e k l w] by simp

lemma auditRead_keeps:
  assumes "auditRead e r p a t i m d = (x, d')"
  shows "sends d' = sends d" "permissions d' = permissions d" "chats d' = chats d"
proof -
  let ?w = "Write e (read_event e r p a t i m) d"
  have "d' = snd ?w" using assms by (auto simp: auditRead_def split: prod.splits sum.splits)
  then show "sends d' = sends d" "permissions d' = permissions d" "chats d' = chats d"
    by (simp_all add: audit_only)
qed

lemma reserve_refused: "send_reserve e f p r w = (Inl resp, w') \<Longrightarrow> w' = w"
  unfolding send_reserve_def Let_def
  by (auto split: option.splits if_splits prod.splits)

text \<open>What a successful reservation says.\<close>

lemma reserve_new:
  assumes "send_reserve e f p r w = (Inr v, w')"
  obtains t q k x where "send_input r = Some (t, q)" "HasScope (p_scopes p) ''messages:send''"
    "e_uuid e (rq_wild r ''chatID'') = Some k" "e_uuid e (p_account p) = Some (rv_account v)"
    "e_uuid e (p_client p) = Some (rv_client v)" "e_uuid e q = Some (rv_request v)"
    "x \<in> set (active_chats (wd_db w))" "ch_id x = k" "ch_account x = rv_account v" "ch_tg x = rv_tg v"
    "rv_text v = t" "rv_request_text v = q" "\<exists>g. f = Sender g"
    "rv_key v \<notin> send_key ` set (sends (wd_db w))"
    "w' = w\<lparr>wd_db := (wd_db w)\<lparr>sends := sends (wd_db w) @
        [\<lparr>sq_account = rv_account v, sq_client = rv_client v, sq_request = rv_request v, sq_chat = k,
          sq_body = body_hash e (rq_wild r ''chatID'') t, sq_status = SendPending, sq_message = None\<rparr>]\<rparr>\<rparr>"
proof -
  have scope: "requireScope p ''messages:send'' = None"
    using assms by (auto simp: send_reserve_def Let_def split: option.splits)
  obtain t q where inp: "send_input r = Some (t, q)"
    using assms scope by (auto simp: send_reserve_def Let_def split: option.splits)
  obtain k a tg where look: "send_chat e p (rq_wild r ''chatID'') (wd_db w) = Some (k, a, tg)"
    using assms scope inp unfolding send_reserve_def Let_def
    by (cases "send_chat e p (rq_wild r ''chatID'') (wd_db w)") (auto split: if_splits)
  then obtain x where x: "e_uuid e (rq_wild r ''chatID'') = Some k" "e_uuid e (p_account p) = Some a"
    "find (\<lambda>x. ch_id x = k \<and> ch_account x = a) (active_chats (wd_db w)) = Some x" "ch_tg x = tg"
    by (auto simp: send_chat_def split: if_splits option.splits)
  note found = find_in_set [OF x(3)]
  obtain c i where ci: "e_uuid e (p_client p) = Some c" "e_uuid e q = Some i"
    using assms scope inp look unfolding send_reserve_def Let_def
    by (auto split: if_splits option.splits)
  have fresh: "find (\<lambda>x. send_key x = (a, c, i)) (sends (wd_db w)) = None"
    using assms scope inp look ci unfolding send_reserve_def Let_def
    by (auto split: if_splits option.splits)
  have v: "v = \<lparr>rv_account = a, rv_client = c, rv_request = i, rv_tg = tg, rv_text = t, rv_request_text = q\<rparr>"
    "w' = w\<lparr>wd_db := (wd_db w)\<lparr>sends := sends (wd_db w) @
        [\<lparr>sq_account = a, sq_client = c, sq_request = i, sq_chat = k,
          sq_body = body_hash e (rq_wild r ''chatID'') t, sq_status = SendPending, sq_message = None\<rparr>]\<rparr>\<rparr>"
    "f \<noteq> NoSession" "f \<noteq> ReadOnly"
    using assms scope inp look ci fresh unfolding send_reserve_def Let_def
    by (auto split: if_splits)
  have "\<exists>g. f = Sender g" using v(3,4) by (cases f) auto
  moreover have "rv_key v \<notin> send_key ` set (sends (wd_db w))"
    using fresh by (auto simp: v(1) rv_key_def find_None_iff)
  moreover have "HasScope (p_scopes p) ''messages:send''" using scope by (simp add: requireScope_def split: if_splits)
  ultimately show thesis using that [of t q k x] inp x ci v found by (simp add: v(1))
qed

lemma admit_sends:
  assumes "send_admit e p r v w = (x, w')"
  shows "sends (wd_db w') = sends (wd_db w)
     \<or> x \<noteq> None \<and> sends (wd_db w') = delete_where (\<lambda>q. send_key q = rv_key v) (sends (wd_db w))"
proof -
  obtain res w1 where l: "limit_check e (''rl:send:'' @ p_account p) send_limit w = (res, w1)" by fastforce
  have k: "wd_db w1 = wd_db w" by (rule limit_checkD [OF l])
  obtain y d1 where a: "auditRead e r p ''TELEGRAM_SEND_REQUESTED'' ''chat'' (rq_wild r ''chatID'')
      (JObj [(''request_id'', JStr (rv_request_text v))]) (wd_db w) = (y, d1)" by fastforce
  show ?thesis
    using assms k auditRead_keeps(1) [OF a] unfolding send_admit_def l
    by (cases y) (auto simp: a split: if_splits)
qed

lemma finish_sends:
  assumes "send_finish e p v outcome w = (resp, w')"
  shows "sends (wd_db w') = sends (wd_db w)
     \<or> (\<exists>st i. sends (wd_db w') = update_where (\<lambda>x. send_key x = rv_key v)
           (\<lambda>x. x\<lparr>sq_status := st, sq_message := Some i\<rparr>) (sends (wd_db w)))"
proof -
  let ?w1 = "case outcome of Inr i \<Rightarrow> w
      | Inl err \<Rightarrow> (case AsFloodWait err of None \<Rightarrow> w
         | Some t \<Rightarrow> w\<lparr>wd_redis := snd (SetAccountCooldown e \<lfloor>wd_time w * 1000\<rfloor> (p_account p) t (wd_redis w))\<rparr>)"
  have "wd_db ?w1 = wd_db w" by (auto split: sum.split option.split)
  then show ?thesis
    using assms unfolding send_finish_def Let_def
    by (cases "e_fail e ''send.save''")
      (auto split: if_splits intro!: exI [of _ "if isl outcome then SendUnknown else SendAccepted"])
qed

section \<open>At most once\<close>

lemma same_keys:
  assumes "mset xs = mset ys"
  shows "distinct (map f xs) = distinct (map f ys)" "set (map f xs) = set (map f ys)"
  using assms mset_eq_imp_distinct_iff [of "map f xs" "map f ys"] mset_eq_setD [of xs ys] by simp_all

lemma send_inv_move:
  assumes "send_inv s" "sends (wd_db (sy_world s')) = sends (wd_db (sy_world s))"
    "mset (sy_reserved s' @ sy_admitted s' @ sy_history s') = mset (sy_reserved s @ sy_admitted s @ sy_history s)"
  shows "send_inv s'"
  using assms(1,2) same_keys [OF assms(3), of rv_key] unfolding send_inv_def Let_def by simp

lemma send_step_inv: "send_step s s' \<Longrightarrow> send_inv s \<Longrightarrow> send_inv s'"
proof (induction rule: send_step.induct)
  case (reserve e f p r s v w)
  obtain row where "sends (wd_db w) = sends (wd_db (sy_world s)) @ [row]" "send_key row = rv_key v"
    "rv_key v \<notin> send_key ` set (sends (wd_db (sy_world s)))"
    by (rule reserve_new [OF reserve(1)]) (auto simp: send_key_def rv_key_def)
  then show ?case using reserve(2) by (auto simp: send_inv_def Let_def)
next
  case (refuse e f p r s resp w)
  then show ?case using reserve_refused [OF refuse(1)] by (simp add: send_inv_def)
next
  case (admit v s e p r w)
  show ?case
    by (rule send_inv_move [OF admit(3)]) (use admit_sends [OF admit(2)] admit(1) in simp_all)
next
  case (deny v s e p r resp w)
  let ?ks = "\<lambda>R. map rv_key (R @ sy_admitted s @ sy_history s)"
  have m: "mset (sy_reserved s @ sy_admitted s @ sy_history s) = mset (v # remove1 v (sy_reserved s) @ sy_admitted s @ sy_history s)"
    using deny(1) by simp
  note eq = same_keys [OF m, of rv_key]
  have d: "distinct (rv_key v # ?ks (remove1 v (sy_reserved s)))"
    and sub: "set (rv_key v # ?ks (remove1 v (sy_reserved s))) \<subseteq> send_key ` set (sends (wd_db (sy_world s)))"
    using deny(3) unfolding send_inv_def Let_def eq by simp_all
  have "set (?ks (remove1 v (sy_reserved s))) \<subseteq> send_key ` set (sends (wd_db w))"
    using admit_sends [OF deny(2)]
  proof
    assume "Some resp \<noteq> None \<and> sends (wd_db w) = delete_where (\<lambda>q. send_key q = rv_key v) (sends (wd_db (sy_world s)))"
    then have "send_key ` set (sends (wd_db w)) = send_key ` set (sends (wd_db (sy_world s))) - {rv_key v}"
      by (auto simp: delete_where_def)
    then show ?thesis using d sub by (simp only:) auto
  qed (use sub in simp)
  then show ?case using d by (simp add: send_inv_def Let_def)
next
  case (dispatch v s)
  show ?case by (rule send_inv_move [OF dispatch(2)]) (use dispatch(1) in simp_all)
next
  case (finish v s e p outcome resp w)
  have "map send_key (sends (wd_db w)) = map send_key (sends (wd_db (sy_world s)))"
    using finish_sends [OF finish(2)]
  proof (elim disjE exE)
    fix st i assume u: "sends (wd_db w) = update_where (\<lambda>x. send_key x = rv_key v)
           (\<lambda>x. x\<lparr>sq_status := st, sq_message := Some i\<rparr>) (sends (wd_db (sy_world s)))"
    show ?thesis unfolding u by (rule map_key_update_where) (simp add: send_key_def)
  qed simp
  then have "send_key ` set (sends (wd_db w)) = send_key ` set (sends (wd_db (sy_world s)))" by (metis set_map)
  then show ?case using finish(3) by (simp add: send_inv_def)
next
  case (crash s)
  then show ?case by (auto simp: send_inv_def Let_def)
next
  case (other w s)
  then show ?case by (simp add: send_inv_def)
qed

definition start_sending :: "world \<Rightarrow> send_sys" where
  "start_sending w = \<lparr>sy_world = w, sy_reserved = [], sy_admitted = [], sy_waiting = [], sy_history = []\<rparr>"

text \<open>C2: A message is handed to Telegram at most once: whatever requests run concurrently, in whatever
  order their parts interleave, and however often the process crashes and forgets them, no
  request id of a client and account is ever dispatched twice.\<close>

theorem send_at_most_once:
  assumes "send_step\<^sup>*\<^sup>* (start_sending w) s"
  shows "distinct (map rv_key (sy_history s))"
proof -
  have "send_inv s"
    using assms
  proof (induction rule: rtranclp_induct)
    case base
    show ?case by (simp add: send_inv_def start_sending_def)
  next
    case (step y z)
    show ?case by (rule send_step_inv [OF step(2,3)])
  qed
  then show ?thesis by (simp add: send_inv_def Let_def)
qed

text \<open>C3: Whoever is refused sends nothing, and what is sent was allowed: the handler hands a message to
  Telegram only for a token with the scope \<open>messages:send\<close>, to an active chat of its account
  on which the user granted sending, with a text of 1 to 4096 characters, under a request id
  that was new; the text and the chat are those of the request.\<close>

theorem send_authorized:
  assumes "sendMessage e f p r w = (resp, w', Some v)"
  shows "HasScope (p_scopes p) ''messages:send''
    \<and> (\<exists>a c x q. e_uuid e (p_account p) = Some a \<and> e_uuid e (rq_wild r ''chatID'') = Some c
        \<and> x \<in> set (active_chats (wd_db w)) \<and> ch_id x = c \<and> ch_account x = a \<and> ch_tg x = rv_tg v
        \<and> may_chat a c True (wd_db w) \<and> send_input r = Some (rv_text v, q))
    \<and> \<not> blank (rv_text v) \<and> rune_count (rv_text v) \<le> 4096
    \<and> rv_key v \<notin> send_key ` set (sends (wd_db w)) \<and> rv_key v \<in> send_key ` set (sends (wd_db w'))"
proof -
  obtain w1 where r1: "send_reserve e f p r w = (Inr v, w1)"
    using assms by (auto simp: sendMessage_def split: sum.splits prod.splits option.splits sender.splits)
  obtain w2 where a: "send_admit e p r v w1 = (None, w2)"
    using assms r1 by (auto simp: sendMessage_def split: prod.splits option.splits)
  obtain g outcome where fin: "send_finish e p v outcome w2 = (resp, w')"
    using assms r1 a by (auto simp: sendMessage_def split: sender.splits prod.splits)
  show ?thesis
  proof (rule reserve_new [OF r1], goal_cases)
    case (1 t q k x)
    obtain res w3 y d3 where l: "limit_check e (''rl:send:'' @ p_account p) send_limit w1 = (res, w3)"
      and au: "auditRead e r p ''TELEGRAM_SEND_REQUESTED'' ''chat'' (rq_wild r ''chatID'')
        (JObj [(''request_id'', JStr (rv_request_text v))]) (wd_db w3) = (y, d3)" by fastforce
    have "allowChat e (p_account p) (rq_wild r ''chatID'') True d3 = None"
      using a unfolding send_admit_def l by (cases y) (auto simp: au split: if_splits)
    then obtain a' c' where may: "e_uuid e (p_account p) = Some a'" "e_uuid e (rq_wild r ''chatID'') = Some c'" "may_chat a' c' True d3"
      by (rule allowChat_may)
    have "permissions d3 = permissions (wd_db w)" "chats d3 = chats (wd_db w)"
      using auditRead_keeps [OF au] limit_checkD [OF l] 1(15) by simp_all
    then have "may_chat a' c' True (wd_db w)" using may(3) by (simp add: may_chat_def active_chats_def)
    moreover have "rv_key v \<in> send_key ` set (sends (wd_db w'))"
    proof -
      have "rv_key v \<in> send_key ` set (sends (wd_db w1))" using 1(15) by (simp add: send_key_def rv_key_def)
      moreover have "sends (wd_db w2) = sends (wd_db w1)" using admit_sends [OF a] by simp
      moreover have "send_key ` set (sends (wd_db w')) = send_key ` set (sends (wd_db w2))"
        using finish_sends [OF fin]
      proof (elim disjE exE)
        fix st i assume u: "sends (wd_db w') = update_where (\<lambda>x. send_key x = rv_key v)
           (\<lambda>x. x\<lparr>sq_status := st, sq_message := Some i\<rparr>) (sends (wd_db w2))"
        have "map send_key (sends (wd_db w')) = map send_key (sends (wd_db w2))"
          unfolding u by (rule map_key_update_where) (simp add: send_key_def)
        then show ?thesis by (metis set_map)
      qed simp
      ultimately show ?thesis by simp
    qed
    moreover have "\<not> blank t" "rune_count t \<le> 4096"
      using 1(1) by (auto simp: send_input_def split: option.splits if_splits)
    ultimately show ?case using 1 may(1,2) by auto
  qed
qed

section \<open>Concrete inputs\<close>

definition demo_send_env :: env where
  "demo_send_env = demo_env\<lparr>e_uuid := (\<lambda>s. if list_all uuid_char s then Some s else None)\<rparr>"

definition demo_send_db :: db where
  "demo_send_db = demo_db\<lparr>chats := [demo_chat\<lparr>ch_id := ''b1''\<rparr>],
     permissions := [\<lparr>cp_account = ''a1'', cp_chat = ''b1'', cp_read = True, cp_send = True, cp_updated = 1\<rparr>]\<rparr>"

definition demo_sender :: principal where
  "demo_sender = \<lparr>p_user = ''u1'', p_client = ''c1'', p_type = MCP, p_account = ''a1'',
     p_scopes = [''messages:send'']\<rparr>"

definition demo_send_body :: json where
  "demo_send_body = JObj [(''request_id'', JStr ''d1''), (''text'', JStr ''hi'')]"

definition demo_send_request :: "string \<Rightarrow> request" where
  "demo_send_request meth =
     \<lparr>rq_method = meth, rq_url = no_url\<lparr>u_path := ''/v1/chats/b1/messages''\<rparr>, rq_host = [], rq_header = (\<lambda>_. []),
      rq_cookie = (\<lambda>_. None), rq_remote = ''r'', rq_body = json_marshal demo_send_body, rq_form = None,
      rq_basic = None, rq_wild = (\<lambda>n. if n = ''chatID'' then ''b1'' else [])\<rparr>"

lemma demo_send_ids: "e_uuid demo_send_env ''a1'' = Some ''a1''" "e_uuid demo_send_env ''b1'' = Some ''b1''"
  "e_uuid demo_send_env ''c1'' = Some ''c1''" "e_uuid demo_send_env ''d1'' = Some ''d1''"
  "e_parse demo_send_env s = Some s" "\<not> e_fail demo_send_env l" "pg_uuid demo_send_env"
proof -
  have "list_all uuid_char ''a1''" "list_all uuid_char ''b1''" "list_all uuid_char ''c1''" "list_all uuid_char ''d1''"
    by code_simp+
  then show "e_uuid demo_send_env ''a1'' = Some ''a1''" "e_uuid demo_send_env ''b1'' = Some ''b1''"
    "e_uuid demo_send_env ''c1'' = Some ''c1''" "e_uuid demo_send_env ''d1'' = Some ''d1''"
    "e_parse demo_send_env s = Some s" "\<not> e_fail demo_send_env l" "pg_uuid demo_send_env"
    by (simp_all add: demo_send_env_def demo_env_def pg_uuid_def)
qed

lemma demo_may_send: "may_chat ''a1'' ''b1'' send demo_send_db"
  by (cases send) (simp_all add: may_chat_def exists_row_def active_chats_def demo_send_db_def demo_chat_def)

lemma demo_allowed: "allowChat demo_send_env ''a1'' ''b1'' send demo_send_db = None"
  by (simp add: allowChat_def demo_send_ids demo_may_send)

lemma demo_chat_access: "chatAccess demo_send_env demo_sender (demo_send_request meth) demo_send_db = None"
proof -
  have p: "path_parts ''/v1/chats/b1/messages'' = [''v1'', ''chats'', ''b1'', ''messages'']" by code_simp
  have "access_chat (demo_send_request meth) = ''b1''"
    by (simp add: access_chat_def demo_send_request_def no_url_def has_prefix_def p)
  then show ?thesis
    using demo_allowed [of "rq_method (demo_send_request meth) = ''POST''"]
    by (simp add: chatAccess_def demo_sender_def) (simp add: demo_send_request_def no_url_def has_prefix_def)
qed

theorem chat_handlers_guarded_witness:
  "\<exists>a. e_uuid demo_send_env ''a1'' = Some a \<and> may_chat a ''b1'' True demo_send_db"
proof -
  have "escaped_path (rq_url (demo_send_request ''POST'')) = ''/v1/chats/b1/messages''"
    "cleanPath ''/v1/chats/b1/messages'' = ''/v1/chats/b1/messages''"
    "path_segments ''/v1/chats/b1/messages'' = [''v1'', ''chats'', ''b1'', ''messages'']"
    by code_simp+
  then have "api_mux (demo_send_request ''POST'') = Inr (RSend, ''b1'')"
    by (simp add: api_mux_def api_patterns_def chat_patterns_def method_matches_def) (simp add: demo_send_request_def)
  from chat_handlers_guarded [OF demo_send_ids(7) demo_chat_access this, of "''b1''"]
  show ?thesis by (simp add: chat_route_def handler_chat_def demo_send_ids demo_sender_def)
qed


definition demo_send_world :: world where
  "demo_send_world = \<lparr>wd_db = demo_send_db, wd_redis = empty_redis, wd_time = 1000\<rparr>"

definition demo_reservation :: reservation where
  "demo_reservation = \<lparr>rv_account = ''a1'', rv_client = ''c1'', rv_request = ''d1'', rv_tg = 7, rv_text = ''hi'',
     rv_request_text = ''d1''\<rparr>"

lemma demo_send_input: "send_input (demo_send_request meth) = Some (''hi'', ''d1'')"
proof -
  have d: "decode_body 32768 (json_marshal demo_send_body) = Some demo_send_body"
  proof (rule decode_marshal)
    show "plain_json demo_send_body" by code_simp
    show "length (json_marshal demo_send_body) \<le> 32768" by code_simp
  qed
  have f: "fold_key ''text'' = ''TEXT''" "fold_key ''request_id'' = ''REQUEST_ID''" by code_simp+
  have t: "\<not> blank ''hi''" "valid_utf8 ''hi''" "rune_count ''hi'' = 2" by code_simp+
  show ?thesis
    by (simp add: send_input_def demo_send_request_def d)
      (simp add: demo_send_body_def unknown_field_def struct_field_def field_value_def f t)
qed

lemma demo_reserve:
  "\<exists>w. send_reserve demo_send_env (Sender g) demo_sender (demo_send_request ''POST'') demo_send_world = (Inr demo_reservation, w)
     \<and> wd_redis w = empty_redis \<and> accounts (wd_db w) = accounts demo_send_db
     \<and> chats (wd_db w) = chats demo_send_db \<and> permissions (wd_db w) = permissions demo_send_db"
proof -
  have scope: "requireScope demo_sender ''messages:send'' = None"
    by (simp add: requireScope_def demo_sender_def)
  have c: "\<not> cooling demo_send_env demo_sender demo_send_world"
  proof -
    have "\<not> blank ''a1''" by code_simp
    then show ?thesis
      by (simp add: cooling_def AccountCooldown_def demo_sender_def demo_send_ids demo_send_world_def empty_redis_def pttl_def)
  qed
  have k: "send_chat demo_send_env demo_sender ''b1'' demo_send_db = Some (''b1'', ''a1'', 7)"
    by (simp add: send_chat_def demo_send_ids demo_sender_def active_chats_def) (simp add: demo_send_db_def demo_chat_def)
  have rows: "sends demo_send_db = []" "''a1'' \<in> acc_id ` set (accounts demo_send_db)" "''c1'' \<in> gc_id ` set (clients demo_send_db)"
    by (simp_all add: demo_send_db_def demo_db_def empty_db_def demo_account_def)
  have p: "p_account demo_sender = ''a1''" "p_client demo_sender = ''c1''" by (simp_all add: demo_sender_def)
  have k': "send_chat demo_send_env demo_sender ''b1'' (wd_db demo_send_world) = Some (''b1'', ''a1'', 7)"
    "wd_db demo_send_world = demo_send_db"
    using k by (simp_all add: demo_send_world_def)
  have w: "rq_wild (demo_send_request ''POST'') ''chatID'' = ''b1''" by (simp add: demo_send_request_def)
  show ?thesis
    unfolding send_reserve_def Let_def w scope demo_send_input
    using rows(2,3) c
    by (simp add: demo_send_ids k k'(2) rows(1) p demo_reservation_def) (simp add: demo_send_world_def)
qed

lemma demo_admit:
  assumes "wd_redis w = empty_redis" "accounts (wd_db w) = accounts demo_send_db"
    "chats (wd_db w) = chats demo_send_db" "permissions (wd_db w) = permissions demo_send_db"
  shows "\<exists>w'. send_admit demo_send_env demo_sender (demo_send_request ''POST'') demo_reservation w = (None, w')"
proof -
  have nb: "\<not> blank (''rl:send:'' @ ''a1'')" by code_simp
  obtain l w1 where l: "limit_check demo_send_env (''rl:send:'' @ ''a1'') send_limit w = (Inr l, w1)" "r_allowed l"
    using nb assms(1)
    by (simp add: limit_check_def Allow_def Let_def token_bucket_script_def refilled_def live_bucket_def
        empty_redis_def send_limit_def demo_send_ids)
  note db = limit_checkD [OF l(1)]
  let ?ev = "read_event demo_send_env (demo_send_request ''POST'') demo_sender ''TELEGRAM_SEND_REQUESTED'' ''chat''
      ''b1'' (JObj [(''request_id'', JStr ''d1'')])"
  have "remoteIP demo_send_env ''r'' = []" by (simp add: demo_send_env_def demo_env_def) code_simp
  then have ip: "ev_ip ?ev = []" by (simp add: read_event_def demo_send_request_def)
  have v: "validate_event ?ev = Inr ()"
  proof -
    have "\<not> blank ''TELEGRAM_SEND_REQUESTED''" "\<not> blank ''chat''" by code_simp+
    then show ?thesis by (simp add: validate_event_def read_event_def demo_sender_def actor_types_def)
  qed
  have "\<exists>d'. Write demo_send_env ?ev (wd_db w1) = (Inr (), d')"
  proof (rule Write_ok [OF v _ _ ip])
    show "e_fail demo_send_env = no_faults" by (simp add: demo_send_env_def demo_env_def)
    show "''a1'' \<in> acc_id ` set (accounts (wd_db w1))"
      using assms(2) db by (simp add: demo_send_db_def demo_db_def demo_account_def)
  qed (simp_all add: read_event_def demo_sender_def demo_send_ids)
  then obtain d' where d': "Write demo_send_env ?ev (wd_db w1) = (Inr (), d')" by blast
  then have a: "auditRead demo_send_env (demo_send_request ''POST'') demo_sender ''TELEGRAM_SEND_REQUESTED'' ''chat''
      ''b1'' (JObj [(''request_id'', JStr ''d1'')]) (wd_db w1) = (None, d')" by (simp add: auditRead_def)
  have "permissions d' = permissions demo_send_db" "chats d' = chats demo_send_db"
    using auditRead_keeps [OF a] assms(3,4) db by simp_all
  then have "may_chat ''a1'' ''b1'' True d'"
    using demo_may_send [of True] by (simp add: may_chat_def active_chats_def)
  then have "allowChat demo_send_env ''a1'' ''b1'' True d' = None" by (simp add: allowChat_def demo_send_ids)
  moreover have "rq_wild (demo_send_request ''POST'') ''chatID'' = ''b1''" "p_account demo_sender = ''a1''"
    "rv_request_text demo_reservation = ''d1''"
    by (simp_all add: demo_send_request_def demo_sender_def demo_reservation_def)
  ultimately show ?thesis using l a by (simp add: send_admit_def)
qed

theorem send_at_most_once_witness:
  "\<exists>s. send_step\<^sup>*\<^sup>* (start_sending demo_send_world) s \<and> sy_history s = [demo_reservation]
     \<and> distinct (map rv_key (sy_history s))"
proof -
  obtain w where w: "send_reserve demo_send_env (Sender (\<lambda>_ _. Inr 9)) demo_sender (demo_send_request ''POST'') demo_send_world
      = (Inr demo_reservation, w)" "wd_redis w = empty_redis" "accounts (wd_db w) = accounts demo_send_db"
    "chats (wd_db w) = chats demo_send_db" "permissions (wd_db w) = permissions demo_send_db"
    using demo_reserve by blast
  obtain w2 where w2: "send_admit demo_send_env demo_sender (demo_send_request ''POST'') demo_reservation w = (None, w2)"
    using demo_admit [OF w(2-5)] by blast
  let ?s0 = "start_sending demo_send_world"
  let ?s1 = "?s0\<lparr>sy_world := w, sy_reserved := demo_reservation # sy_reserved ?s0\<rparr>"
  let ?s2 = "?s1\<lparr>sy_world := w2, sy_reserved := remove1 demo_reservation (sy_reserved ?s1), sy_admitted := demo_reservation # sy_admitted ?s1\<rparr>"
  let ?s3 = "?s2\<lparr>sy_admitted := remove1 demo_reservation (sy_admitted ?s2), sy_waiting := demo_reservation # sy_waiting ?s2,
                   sy_history := demo_reservation # sy_history ?s2\<rparr>"
  have a: "send_step ?s0 ?s1" by (rule send_step.reserve) (use w(1) in \<open>simp add: start_sending_def\<close>)
  have b: "send_step ?s1 ?s2" by (rule send_step.admit) (use w2 in simp_all)
  have c: "send_step ?s2 ?s3" by (rule send_step.dispatch) simp
  have "send_step\<^sup>*\<^sup>* ?s0 ?s3"
    by (rule converse_rtranclp_into_rtranclp [where r = send_step, OF a])
      (rule converse_rtranclp_into_rtranclp [where r = send_step, OF b], rule r_into_rtranclp [where r = send_step, OF c])
  from send_at_most_once [OF this] \<open>send_step\<^sup>*\<^sup>* ?s0 ?s3\<close> show ?thesis
    by (intro exI [of _ ?s3]) (simp add: start_sending_def)
qed

theorem send_authorized_witness:
  "\<exists>resp w'. sendMessage demo_send_env (Sender (\<lambda>_ _. Inr 9)) demo_sender (demo_send_request ''POST'') demo_send_world
      = (resp, w', Some demo_reservation)
    \<and> HasScope (p_scopes demo_sender) ''messages:send'' \<and> rv_key demo_reservation \<in> send_key ` set (sends (wd_db w'))"
proof -
  obtain w where w: "send_reserve demo_send_env (Sender (\<lambda>_ _. Inr 9)) demo_sender (demo_send_request ''POST'') demo_send_world
      = (Inr demo_reservation, w)" "wd_redis w = empty_redis" "accounts (wd_db w) = accounts demo_send_db"
    "chats (wd_db w) = chats demo_send_db" "permissions (wd_db w) = permissions demo_send_db"
    using demo_reserve by blast
  obtain w2 where w2: "send_admit demo_send_env demo_sender (demo_send_request ''POST'') demo_reservation w = (None, w2)"
    using demo_admit [OF w(2-5)] by blast
  obtain resp w3 where w3: "send_finish demo_send_env demo_sender demo_reservation (Inr 9) w2 = (resp, w3)" by fastforce
  have run: "sendMessage demo_send_env (Sender (\<lambda>_ _. Inr 9)) demo_sender (demo_send_request ''POST'') demo_send_world
      = (resp, w3, Some demo_reservation)"
    using w(1) w2 w3 by (simp add: sendMessage_def)
  from send_authorized [OF this] run show ?thesis by blast
qed

end
