(* ===== verification/Decode.thy ===== *)
theory Decode
  imports Updates
begin

text \<open>
  TDLib's JSON values (\<open>internal/tdlib/rpc.go\<close>: \<open>obj\<close>, \<open>arr\<close>, \<open>str\<close>, \<open>num\<close>, \<open>yes\<close>) and their
  decoding into the values of a session (\<open>decode.go\<close>).  A value that may be missing is an
  option; of an object's members with one name the last counts, as in a Go map.
\<close>

section \<open>Access to decoded JSON (rpc.go)\<close>

fun json_lookup :: "string \<Rightarrow> json \<Rightarrow> json option" where
  "json_lookup k (JObj m) = map_of (rev m) k"
| "json_lookup k v = None"

definition obj :: "json option \<Rightarrow> json" where
  "obj v = (case v of Some (JObj m) \<Rightarrow> JObj m | _ \<Rightarrow> JObj [])"

definition arr :: "json option \<Rightarrow> json list option" where  \<comment> \<open>None is the nil slice\<close>
  "arr v = (case v of Some (JArr xs) \<Rightarrow> Some xs | _ \<Rightarrow> None)"

definition str :: "json option \<Rightarrow> string" where
  "str v = (case v of Some (JStr s) \<Rightarrow> s | _ \<Rightarrow> [])"

definition yes :: "json option \<Rightarrow> bool" where
  "yes v = (v = Some (JBool True))"

text \<open>\<open>strconv.ParseInt\<close> with its error ignored: out of range it gives the nearest bound.\<close>

definition parse_int_value :: "string \<Rightarrow> int" where
  "parse_int_value s =
     (case parse_int 64 s of
        Some i \<Rightarrow> i
      | None \<Rightarrow>
          (let ds = (if s \<noteq> [] \<and> hd s \<in> {CHR ''-'', CHR ''+''} then tl s else s) in
           if ds = [] \<or> \<not> list_all is_digit ds then 0
           else if hd s = CHR ''-'' then - (2 ^ 63) else 2 ^ 63 - 1))"

definition num :: "json option \<Rightarrow> int" where
  "num v = (case v of Some (JNum t) \<Rightarrow> parse_int_value t | Some (JStr s) \<Rightarrow> parse_int_value s | _ \<Rightarrow> 0)"

definition elems :: "json option \<Rightarrow> json list" where
  "elems v = (case arr v of None \<Rightarrow> [] | Some xs \<Rightarrow> xs)"

text \<open>\<open>v[k]\<close> for an object or a nil map.\<close>

abbreviation fld :: "json \<Rightarrow> string \<Rightarrow> json option" where
  "fld v k \<equiv> json_lookup k v"

definition or_null :: "json option \<Rightarrow> json" where
  "or_null v = (case v of None \<Rightarrow> JNull | Some x \<Rightarrow> x)"

definition username :: "json \<Rightarrow> string" where
  "username v =
     (case find (\<lambda>s. str (Some s) \<noteq> []) (elems (fld (obj (fld v ''usernames'')) ''active_usernames'')) of
        None \<Rightarrow> []
      | Some s \<Rightarrow> str (Some s))"

definition json_null_object :: json where  \<comment> \<open>a nil map\<close>
  "json_null_object = JObj []"

definition unix :: "int \<Rightarrow> time" where
  "unix s = s * 1000000"

text \<open>The wrap-around of \<open>int64\<close>.\<close>

definition wrap64 :: "int \<Rightarrow> int" where
  "wrap64 i = (i + 2 ^ 63) mod 2 ^ 64 - 2 ^ 63"

section \<open>Errors\<close>

definition trim_dots :: "string \<Rightarrow> string" where  \<comment> \<open>\<open>strings.Trim(w, ".,")\<close>\<close>
  "trim_dots w =
     (let p = (\<lambda>c. c = CHR ''.'' \<or> c = CHR '','')
      in rev (dropWhile p (rev (dropWhile p w))))"

definition flood_seconds :: "string \<Rightarrow> int" where
  "flood_seconds message =
     (let n = foldl (\<lambda>acc w. case parse_int 64 (trim_dots w) of
                        Some n \<Rightarrow> if 0 < n then n else acc
                      | None \<Rightarrow> acc) 0 (Prelude.fields message)
      in if n \<le> 0 then 60 else n)"

definition tdError :: "json \<Rightarrow> go_err" where
  "tdError v =
     (let code = num (fld v ''code''); message = str (fld v ''message'')
      in if code = 429 then FloodWait (wrap64 (flood_seconds message * second_ns)) (TdErr code message)
         else TdErr code message)"

section \<open>Messages (decode.go)\<close>

text \<open>
  \<open>sanitizedContent\<close>: a file is reduced to its size and unique id; local paths and phone
  numbers are dropped at every depth.
\<close>

fun sanitizedContent :: "json \<Rightarrow> json"
  and sanitized_members :: "(string \<times> json) list \<Rightarrow> (string \<times> json) list"
  and sanitized_elements :: "json list \<Rightarrow> json list" where
  "sanitizedContent (JObj m) =
     (if str (json_lookup ''@type'' (JObj m)) = ''file''
      then JObj [(''@type'', JStr ''file''), (''size'', or_null (json_lookup ''size'' (JObj m))),
                 (''unique_id'', or_null (fld (obj (json_lookup ''remote'' (JObj m))) ''unique_id''))]
      else JObj (sanitized_members m))"
| "sanitizedContent (JArr xs) = JArr (sanitized_elements xs)"
| "sanitizedContent v = v"
| "sanitized_members [] = []"
| "sanitized_members ((k, v) # m) =
     (if k = ''local'' \<or> k = ''phone_number'' then sanitized_members m
      else (k, sanitizedContent v) # sanitized_members m)"
| "sanitized_elements [] = []"
| "sanitized_elements (v # vs) = sanitizedContent v # sanitized_elements vs"

definition decodeFile :: "json \<Rightarrow> string \<Rightarrow> string \<Rightarrow> string \<Rightarrow> tg_media" where
  "decodeFile v ty mime name =
     \<lparr>tm_type = ty, tm_file = num (fld v ''id''), tm_unique = str (fld (obj (fld v ''remote'')) ''unique_id''),
      tm_mime = mime, tm_name = name, tm_size = Some (num (fld v ''size''))\<rparr>"

text \<open>The size of a photo with the largest area; areas are products of \<open>int64\<close>.\<close>

definition photo_area :: "json \<Rightarrow> int" where
  "photo_area p = wrap64 (num (fld p ''width'') * num (fld p ''height''))"

definition best_photo :: "json list \<Rightarrow> json" where
  "best_photo sizes =
     foldl (\<lambda>best raw. let p = obj (Some raw) in if photo_area best < photo_area p then p else best)
       json_null_object sizes"

definition media_kinds :: "string list" where
  "media_kinds = [''messageVideo'', ''messageDocument'', ''messageAudio'', ''messageVoiceNote'', ''messageVideoNote'',
                  ''messageAnimation'', ''messageSticker'']"

definition trim_prefix :: "string \<Rightarrow> string \<Rightarrow> string" where
  "trim_prefix s p = (if has_prefix s p then drop (length p) s else s)"

definition media_key :: "string \<Rightarrow> string" where
  "media_key kind =
     (let key = trim_prefix kind ''message'';
          key = to_lower (take 1 key) @ drop 1 key
      in if key = ''voiceNote'' then ''voice_note'' else if key = ''videoNote'' then ''video_note'' else key)"

definition content_media :: "json \<Rightarrow> tg_media list" where
  "content_media c =
     (let kind = str (fld c ''@type'') in
      if kind = ''messagePhoto'' then
        (let best = best_photo (elems (fld (obj (fld c ''photo'')) ''sizes'')) in
         if best \<noteq> JObj [] then [decodeFile (obj (fld best ''photo'')) ''photo'' ''image/jpeg'' ''photo.jpg''] else [])
      else if kind \<in> set media_kinds then
        (let key = media_key kind; item = obj (fld c key);
             inner = (if key = ''voice_note'' then obj (fld item ''voice'')
                      else if key = ''video_note'' then obj (fld item ''video'') else obj (fld item key));
             mime = str (fld item ''mime_type'')
         in if inner \<noteq> JObj [] then
              [decodeFile inner key (if mime = [] then ''application/octet-stream'' else mime) (str (fld item ''file_name''))]
            else [])
      else [])"

definition content_text :: "json \<Rightarrow> json" where
  "content_text c = (if obj (fld c ''text'') = JObj [] then obj (fld c ''caption'') else obj (fld c ''text''))"

definition decodeContent :: "json \<Rightarrow> string option \<times> json list option \<times> tg_media list" where
  "decodeContent c =
     (let formatted = content_text c in
      (case fld formatted ''text'' of Some (JStr t) \<Rightarrow> Some t | _ \<Rightarrow> None,
       arr (fld formatted ''entities''), content_media c))"

definition decodeMessage :: "json \<Rightarrow> tg_message" where
  "decodeMessage v =
     (let c = obj (fld v ''content'');
          ty = trim_prefix (str (fld c ''@type'')) ''message'';
          sender = obj (fld v ''sender_id'');
          origin = str (fld sender ''@type'');
          edit = num (fld v ''edit_date'');
          answer = num (fld (obj (fld v ''reply_to'')) ''message_id'');
          forward = obj (fld v ''forward_info'')
      in case decodeContent c of (text, entities, media) \<Rightarrow>
        \<lparr>tg_id = num (fld v ''id''),
         tg_sender = (if origin = ''messageSenderUser'' then Some (num (fld sender ''user_id'')) else None),
         tg_sender_chat = (if origin = ''messageSenderChat'' then Some (num (fld sender ''chat_id'')) else None),
         tg_type = (if ty = [] then ''Unknown'' else ty),
         tg_content = text, tg_entities = entities,
         tg_reply = (if answer \<noteq> 0 then Some answer else None),
         tg_forward = (if forward \<noteq> JObj [] then Some forward else None),
         tg_meta = Some (JObj [(''content'', sanitizedContent c), (''is_outgoing'', JBool (yes (fld v ''is_outgoing''))),
                               (''media_album_id'', or_null (fld v ''media_album_id''))]),
         tg_sent = unix (num (fld v ''date'')),
         tg_edited = (if 0 < edit then Some (unix edit) else None),
         tg_media = media\<rparr>)"

end
