(* ===== verification/Sync.thy ===== *)
theory Sync
  imports Decode SyncState
begin

text \<open>
  The jobs of the worker (\<open>internal/worker\<close>): the limits before a Telegram call and the
  handling of its errors (\<open>processor.go\<close>), the lease around a job (\<open>synclease.go\<close>), and the
  handlers of chat lists (\<open>bootstrap.go\<close>), history, members, contacts and media.
  A handler gets the environment, the fresh ids, the worker's id and the outcome of
  \<open>sessions.Get\<close>.
\<close>

section \<open>Actions on the world\<close>

definition on_world :: "(world, 'a) act \<Rightarrow> (worker, 'a) act" where
  "on_world f = (\<lambda>s. case f (wk_world s) of (r, w) \<Rightarrow> (r, s\<lparr>wk_world := w\<rparr>))"

definition named :: "string \<Rightarrow> ('s, 'a) act \<Rightarrow> ('s, 'a) act" where  \<comment> \<open>\<open>fmt.Errorf("m: %w")\<close>\<close>
  "named m f = (\<lambda>s. case f s of (Inl e, s') \<Rightarrow> (Inl (Wrapped m e), s') | (Inr x, s') \<Rightarrow> (Inr x, s'))"

definition given :: "'a result \<Rightarrow> ('s, 'a) act" where
  "given r = (\<lambda>s. (r, s))"

definition ms_now :: "world \<Rightarrow> int" where
  "ms_now w = \<lfloor>wd_time w * 1000\<rfloor>"

section \<open>Before and after a Telegram call (processor.go)\<close>

definition read_cooldown :: "env \<Rightarrow> string \<Rightarrow> (world, duration) act" where
  "read_cooldown e account = query (\<lambda>w. AccountCooldown e (ms_now w) account (wd_redis w))"

definition beforeTelegram :: "env \<Rightarrow> string \<Rightarrow> string \<Rightarrow> limit \<Rightarrow> (world, unit) act" where
  "beforeTelegram e account meth pol =
     and_then (named ''read Telegram cooldown'' (read_cooldown e account)) (\<lambda>cooldown.
       if 0 < cooldown then fail_with (RetryAfter cooldown (Msg ''Telegram account is in FLOOD_WAIT cooldown''))
       else and_then (named ''apply Telegram account rate limit''
                        (limit_check e (TelegramAccountKey account) (pol_account DefaultPolicies))) (\<lambda>r.
         if \<not> r_allowed r
           then fail_with (RetryAfter (minimumRetry (r_retry r)) (Msg ''Telegram account rate limit reached''))
         else and_then (named ''apply Telegram method rate limit''
                          (limit_check e (TelegramMethodKey account meth) pol)) (\<lambda>r.
           if \<not> r_allowed r
             then fail_with (RetryAfter (minimumRetry (r_retry r)) (Msg ''Telegram method rate limit reached''))
           else done_with ())))"

fun as_td :: "go_err \<Rightarrow> int option" where  \<comment> \<open>the code of the first \<open>tdlib.Error\<close> of the chain\<close>
  "as_td (TdErr code m) = Some code"
| "as_td (Wrapped m e) = as_td e"
| "as_td (RetryErr t e) = as_td e"
| "as_td (PermErr e) = as_td e"
| "as_td (FloodWait t e) = as_td e"
| "as_td e = None"

definition td_permanent :: "go_err \<Rightarrow> bool" where
  "td_permanent err = (case as_td err of None \<Rightarrow> False | Some code \<Rightarrow> code \<in> {400, 403, 404})"

text \<open>What the handler returns for an error of a Telegram call.\<close>

definition telegramError :: "env \<Rightarrow> string \<Rightarrow> go_err \<Rightarrow> (world, 'a) act" where
  "telegramError e account err w =
     (case AsFloodWait err of
        Some t \<Rightarrow>
          (case SetAccountCooldown e (ms_now w) account (t + second_ns) (wd_redis w) of
             (Inl c, r) \<Rightarrow>
               (Inl (Wrapped (''persist Telegram FLOOD_WAIT cooldown after '' @ err_text err) c), w\<lparr>wd_redis := r\<rparr>)
           | (Inr stored, r) \<Rightarrow> (Inl (RetryAfter stored err), w\<lparr>wd_redis := r\<rparr>))
      | None \<Rightarrow> (Inl (if td_permanent err then Permanent err else err), w))"

definition telegram :: "env \<Rightarrow> string \<Rightarrow> 'a result \<Rightarrow> (worker, 'a) act" where
  "telegram e account r = (case r of Inl err \<Rightarrow> on_world (telegramError e account err) | Inr x \<Rightarrow> done_with x)"

definition system_event :: "string \<Rightarrow> string \<Rightarrow> string \<Rightarrow> string \<Rightarrow> string \<Rightarrow> json \<Rightarrow> event" where
  "system_event w account action ty rid meta =
     \<lparr>ev_account = Some account, ev_actor_type = ''SYSTEM'', ev_actor = w, ev_action = action,
      ev_resource_type = ty, ev_resource = rid, ev_ip = [], ev_agent = [], ev_request = None,
      ev_meta = meta, ev_created = zero_time\<rparr>"

definition writeAudit ::
    "env \<Rightarrow> string \<Rightarrow> string \<Rightarrow> string \<Rightarrow> string \<Rightarrow> string \<Rightarrow> json \<Rightarrow> (worker, unit) act" where
  "writeAudit e w account action ty rid meta = on_db (Write e (system_event w account action ty rid meta))"

section \<open>Leases (synclease.go)\<close>

definition syncLeaseTTL :: duration where
  "syncLeaseTTL = 120 * second_ns"

definition acquireSyncLease ::
    "env \<Rightarrow> uuids \<Rightarrow> string \<Rightarrow> string \<Rightarrow> string option \<Rightarrow> string \<Rightarrow> (worker, sync_lease) act" where
  "acquireSyncLease e g w account chat ty =
     and_then (named ''ensure sync state'' (on_db (Ensure e (g [0]) account chat ty))) (\<lambda>st.
     and_then (named ''acquire sync lease'' (on_db (SyncState.Acquire e (g [1]) (ss_id st) w syncLeaseTTL))) (\<lambda>l.
       case l of
         None \<Rightarrow> fail_with (RetryAfter (2 * second_ns) (Msg ''sync state is owned by another worker''))
       | Some l \<Rightarrow> done_with l))"

definition failSync :: "env \<Rightarrow> sync_lease \<Rightarrow> go_err \<Rightarrow> (worker, 'a) act" where
  "failSync e l cause s =
     (let t = (case RetryDelay cause of Some d \<Rightarrow> d | None \<Rightarrow> 15 * second_ns) in
      (case on_db (Fail e l (Some (err_text cause)) t) s of
         (Inl err, s') \<Rightarrow> (Inl (Wrapped (err_text cause @ ''; persist sync failure'') err), s')
       | (Inr _, s') \<Rightarrow> (Inl cause, s')))"

text \<open>The part of a handler whose errors go to \<open>failSync\<close>.\<close>

definition leased :: "env \<Rightarrow> sync_lease \<Rightarrow> (worker, 'a) act \<Rightarrow> (worker, 'a) act" where
  "leased e l f = (\<lambda>s. case f s of (Inl cause, s') \<Rightarrow> failSync e l cause s' | (Inr x, s') \<Rightarrow> (Inr x, s'))"

definition allowed_call :: "env \<Rightarrow> string \<Rightarrow> string \<Rightarrow> limit \<Rightarrow> session result \<Rightarrow> (worker, session) act" where
  "allowed_call e account meth pol sess =
     and_then (on_world (beforeTelegram e account meth pol)) (\<lambda>_. given sess)"

section \<open>History (history.go)\<close>

definition lower :: "int option \<Rightarrow> int \<Rightarrow> int option" where
  "lower x i = (case x of None \<Rightarrow> Some i | Some j \<Rightarrow> Some (if i < j then i else j))"

definition higher :: "int option \<Rightarrow> int \<Rightarrow> int option" where
  "higher x i = (case x of None \<Rightarrow> Some i | Some j \<Rightarrow> Some (if j < i then i else j))"

text \<open>The items of a page: whether a known message was reached, the oldest and the newest id.\<close>

fun history_items ::
    "env \<Rightarrow> uuids \<Rightarrow> string \<Rightarrow> string \<Rightarrow> int \<Rightarrow> nat \<Rightarrow> tg_message list \<Rightarrow> int option \<Rightarrow> int option
       \<Rightarrow> (worker, bool \<times> int option \<times> int option) act" where
  "history_items e g account chat stop k [] lo hi = done_with (False, lo, hi)"
| "history_items e g account chat stop k (m # ms) lo hi =
     (if 0 < stop \<and> tg_id m \<le> stop then done_with (True, lo, hi)
      else if tg_id m = 0 \<or> tg_sent m = zero_time
        then fail_with (Permanent (Msg ''Telegram history returned an invalid message''))
      else and_then (StoreMessage e (branch k g) False account chat m) (\<lambda>_.
             history_items e g account chat stop (Suc k) ms (lower lo (tg_id m)) (higher hi (tg_id m))))"

definition history_continue ::
    "env \<Rightarrow> uuids \<Rightarrow> string \<Rightarrow> history_job \<Rightarrow> bool \<Rightarrow> tg_message list \<Rightarrow> int option \<Rightarrow> (worker, int) act" where
  "history_continue e g account j reached items lo =
     (case (if \<not> reached \<and> items \<noteq> [] then lo else None) of
        None \<Rightarrow> done_with 0
      | Some b \<Rightarrow>
          if b = hj_before j then fail_with (Permanent (Msg ''Telegram history pagination did not advance''))
          else and_then (on_bus (EnqueueChatHistory e (g [0]) account (j\<lparr>hj_before := b\<rparr>))) (\<lambda>_. done_with b))"

definition history_page ::
    "env \<Rightarrow> uuids \<Rightarrow> session result \<Rightarrow> string \<Rightarrow> history_job \<Rightarrow> sync_lease \<Rightarrow> (worker, int \<times> nat) act" where
  "history_page e g sess account j l =
     and_then (allowed_call e account ''chat_history'' (pol_history DefaultPolicies) sess) (\<lambda>se.
     and_then (telegram e account (se_history se (hj_tg j) (hj_before j) (hj_size j))) (\<lambda>items.
     and_then (history_items e (branch 0 g) account (hj_chat j) (hj_stop j) 0 items None None) (\<lambda>(reached, lo, hi).
     and_then (history_continue e (branch 1 g) account j reached items lo) (\<lambda>nxt.
     and_then (on_db (Progress e l (Some (JObj [(''before_message_id'', jint nxt), (''page_count'', jint (int (length items)))]))
                        lo hi))
       (\<lambda>_. done_with (nxt, length items))))))"

definition handleChatHistory ::
    "env \<Rightarrow> uuids \<Rightarrow> string \<Rightarrow> session result \<Rightarrow> string \<Rightarrow> history_job \<Rightarrow> (worker, unit) act" where
  "handleChatHistory e g w sess account j =
     (let chat = trim_space (hj_chat j) in
      if chat = [] \<or> hj_tg j = 0
        then fail_with (Permanent (Msg ''chat id and Telegram chat id are required''))
      else (let j = j\<lparr>hj_chat := chat, hj_size := clamp 100 100 (hj_size j)\<rparr> in
        and_then (acquireSyncLease e (branch 0 g) w account (Some chat) ''history'') (\<lambda>l.
        and_then (leased e l (history_page e (branch 1 g) sess account j l)) (\<lambda>(nxt, n).
        and_then (on_db (Complete e l)) (\<lambda>_.
        writeAudit e w account ''TELEGRAM_CHAT_HISTORY_SYNCED'' ''chat'' chat
          (JObj [(''before_message_id'', jint (hj_before j)), (''count'', jint (int n)), (''has_more'', JBool (nxt \<noteq> 0)),
                 (''next_before_message'', jint nxt)]))))))"

section \<open>Contacts (contacts.go)\<close>

definition contact_of :: "tg_contact \<Rightarrow> contact_info" where
  "contact_of c =
     \<lparr>ki_id = [], ki_tg = tn_user c, ki_first = optionalString (tn_first c), ki_last = optionalString (tn_last c),
      ki_username = optionalString (tn_username c), ki_mutual = tn_mutual c, ki_meta = tn_meta c\<rparr>"

definition contacts_snapshot ::
    "env \<Rightarrow> uuids \<Rightarrow> session result \<Rightarrow> string \<Rightarrow> sync_lease \<Rightarrow> (worker, nat \<times> nat) act" where
  "contacts_snapshot e g sess account l =
     and_then (allowed_call e account ''list_contacts'' (pol_search DefaultPolicies) sess) (\<lambda>se.
     and_then (telegram e account (se_contacts se)) (\<lambda>items.
     and_then (each 0 (\<lambda>k c. on_db (Contacts.Upsert e (g [k]) account (contact_of c) (tn_phone c))) items) (\<lambda>_.
     and_then (on_db (Contacts.MarkMissingDeleted e account (map tn_user items))) (\<lambda>removed.
     and_then (on_db (Progress e l (Some (JObj [(''count'', jint (int (length items)))])) None None)) (\<lambda>_.
     done_with (length items, removed))))))"

definition handleContacts ::
    "env \<Rightarrow> uuids \<Rightarrow> string \<Rightarrow> session result \<Rightarrow> string \<Rightarrow> (worker, unit) act" where
  "handleContacts e g w sess account =
     and_then (acquireSyncLease e (branch 0 g) w account None ''contacts'') (\<lambda>l.
     and_then (leased e l (contacts_snapshot e (branch 1 g) sess account l)) (\<lambda>(n, removed).
     and_then (on_db (Complete e l)) (\<lambda>_.
     writeAudit e w account ''TELEGRAM_CONTACTS_SYNCED'' ''telegram_account'' account
       (JObj [(''count'', jint (int n)), (''soft_deleted'', jint (int removed))]))))"

section \<open>Members (members.go)\<close>

definition member_of :: "tg_member \<Rightarrow> member_info" where
  "member_of m =
     \<lparr>bi_id = [], bi_peer_type = te_peer_type m, bi_peer = te_peer m, bi_first = optionalString (te_first m),
      bi_last = optionalString (te_last m), bi_username = optionalString (te_username m),
      bi_role = optionalString (te_role m), bi_meta = te_meta m, bi_last_seen = zero_time\<rparr>"

text \<open>When the snapshot began: now for its first page, as recorded in the state for the others.\<close>

definition snapshot_start :: "env \<Rightarrow> members_job \<Rightarrow> sync_state \<Rightarrow> time result" where
  "snapshot_start e j st =
     (if blank (mj_cursor j) then Inr (e_clock e)
      else (case json_lookup ''snapshot_started_at'' (ss_cursor st) of
          Some (JStr v) \<Rightarrow>
            if blank v then Inl (Permanent (Msg ''member snapshot cursor is missing start time''))
            else (case parse_rfc3339 v of
                None \<Rightarrow> Inl (Permanent (Wrapped ''parse member snapshot start time'' (Msg ''time'')))
              | Some t \<Rightarrow> Inr t)
        | _ \<Rightarrow> Inl (Permanent (Msg ''member snapshot cursor is missing start time''))))"

definition members_page ::
    "env \<Rightarrow> uuids \<Rightarrow> session result \<Rightarrow> string \<Rightarrow> members_job \<Rightarrow> sync_lease \<Rightarrow> time \<Rightarrow> (worker, nat \<times> string) act" where
  "members_page e g sess account j l start =
     and_then (allowed_call e account ''list_members'' (pol_search DefaultPolicies) sess) (\<lambda>se.
     and_then (telegram e account (se_members se (mj_tg j) (mj_cursor j) (mj_limit j))) (\<lambda>page.
     and_then (each 0 (\<lambda>k m. on_db (Members.Upsert e (g [k]) account (mj_chat j) (member_of m))) (mpg_items page)) (\<lambda>_.
       (let nxt = trim_space (mpg_next page) in
        and_then (on_db (Progress e l (Some (JObj [(''next_cursor'', JStr nxt), (''snapshot_started_at'', JStr (rfc3339_nano start))]))
                           None None)) (\<lambda>_.
        and_then (if nxt \<noteq> []
                  then on_bus (EnqueueChatMembersPage e (g [0, 0]) account (j\<lparr>mj_cursor := nxt\<rparr>))
                  else and_then (on_db (Members.MarkNotSeenSince e account (mj_chat j) start)) (\<lambda>_. done_with ()))
          (\<lambda>_. done_with (length (mpg_items page), nxt)))))))"

definition handleChatMembers ::
    "env \<Rightarrow> uuids \<Rightarrow> string \<Rightarrow> session result \<Rightarrow> string \<Rightarrow> members_job \<Rightarrow> (worker, unit) act" where
  "handleChatMembers e g w sess account j =
     (let chat = trim_space (mj_chat j) in
      if chat = [] \<or> mj_tg j = 0
        then fail_with (Permanent (Msg ''chat id and Telegram chat id are required''))
      else (let j = j\<lparr>mj_chat := chat, mj_limit := clamp 200 200 (mj_limit j)\<rparr> in
        and_then (on_db (Ensure e (g [0]) account (Some chat) ''members'')) (\<lambda>st.
        and_then (given (snapshot_start e j st)) (\<lambda>start.
        and_then (on_db (SyncState.Acquire e (g [1]) (ss_id st) w syncLeaseTTL)) (\<lambda>lease.
          case lease of
            None \<Rightarrow> fail_with (RetryAfter (2 * second_ns) (Msg ''member sync is owned by another worker''))
          | Some l \<Rightarrow>
              and_then (leased e l (members_page e (branch 2 g) sess account j l start)) (\<lambda>(n, nxt).
              and_then (on_db (Complete e l)) (\<lambda>_.
              writeAudit e w account ''TELEGRAM_CHAT_MEMBERS_SYNCED'' ''chat'' chat
                (JObj [(''count'', jint (int n)), (''has_more'', JBool (nxt \<noteq> []))]))))))))"

section \<open>Chat lists (bootstrap.go)\<close>

text \<open>
  The position a chat's history goes on from is a JSON number, which \<open>encoding/json\<close> reads as
  a float64: beyond 53 bits it is rounded to even.  The database prints numbers without exponent.
\<close>

fun bit_width :: "nat \<Rightarrow> nat" where
  "bit_width n = (if n = 0 then 0 else Suc (bit_width (n div 2)))"

declare bit_width.simps [simp del]

definition float53 :: "int \<Rightarrow> int" where
  "float53 i =
     (let m = nat \<bar>i\<bar>; u = 2 ^ (bit_width m - 53); q = m div u; r = m mod u;
          q' = (if u < 2 * r \<or> (2 * r = u \<and> odd q) then q + 1 else q)
      in (if i < 0 then -1 else 1) * int (q' * u))"

definition json_position :: "json option \<Rightarrow> int" where
  "json_position v =
     (case v of
        Some (JNum t) \<Rightarrow> (case parse_int 64 (takeWhile (\<lambda>c. c \<noteq> CHR ''.'') t) of None \<Rightarrow> 0 | Some i \<Rightarrow> float53 i)
      | _ \<Rightarrow> 0)"

definition history_plan :: "sync_state \<Rightarrow> int \<times> int" where  \<comment> \<open>before and stop\<close>
  "history_plan st =
     (let b = json_position (json_lookup ''before_message_id'' (ss_cursor st))
      in (b, if b = 0 then (case ss_newest st of None \<Rightarrow> 0 | Some i \<Rightarrow> i) else 0))"

definition shouldSyncMembers :: "string \<Rightarrow> bool" where
  "shouldSyncMembers ty = (to_lower (trim_space ty) \<in> set [''group'', ''supergroup'', ''channel''])"

definition bootstrap_chat :: "env \<Rightarrow> uuids \<Rightarrow> string \<Rightarrow> tg_chat \<Rightarrow> (worker, unit) act" where
  "bootstrap_chat e g account c =
     and_then (on_db (Chats.Upsert e (g [0]) (chat_of account (trim_space (tc_type c)) c))) (\<lambda>i.
     and_then (on_db (Ensure e (g [1]) account (Some i) ''history'')) (\<lambda>st.
     and_then (case history_plan st of (pos, stop) \<Rightarrow>
                 on_bus (EnqueueChatHistory e (g [2]) account
                   \<lparr>hj_stop = stop, hj_chat = i, hj_tg = tc_id c, hj_before = pos, hj_size = 100\<rparr>)) (\<lambda>_.
       if shouldSyncMembers (tc_type c)
       then on_bus (EnqueueChatMembers e (g [3]) account
              \<lparr>mj_chat = i, mj_tg = tc_id c, mj_cursor = [], mj_limit = 200\<rparr>)
       else done_with ())))"

definition bootstrap_profile :: "env \<Rightarrow> session \<Rightarrow> string \<Rightarrow> (worker, unit) act" where
  "bootstrap_profile e se account =
     and_then (on_world (beforeTelegram e account ''profile'' (pol_history DefaultPolicies))) (\<lambda>_.
     and_then (telegram e account (se_profile se)) (\<lambda>p.
     and_then (on_db (Activate e account (pr_user p) (pr_display p) (pr_username p))) (\<lambda>_. done_with ())))"

definition bootstrap_page ::
    "env \<Rightarrow> uuids \<Rightarrow> session result \<Rightarrow> string \<Rightarrow> bootstrap_job \<Rightarrow> sync_lease \<Rightarrow> (worker, chat_page) act" where
  "bootstrap_page e g sess account j l =
     and_then (given sess) (\<lambda>se.
     and_then (if blank (bj_cursor j) then bootstrap_profile e se account else done_with ()) (\<lambda>_.
     and_then (on_world (beforeTelegram e account ''list_chats'' (pol_history DefaultPolicies))) (\<lambda>_.
     and_then (telegram e account (se_chats se (bj_cursor j) 100)) (\<lambda>page.
     and_then (each 0 (\<lambda>k c. bootstrap_chat e (branch k g) account c) (cpg_items page)) (\<lambda>_.
     and_then (if blank (bj_cursor j) then on_bus (EnqueueContactsSync e (g [0]) account) else done_with ()) (\<lambda>_.
     and_then (if trim_space (cpg_next page) \<noteq> []
               then on_bus (EnqueueAccountBootstrapPage e (g [1]) account (trim_space (cpg_next page)))
               else done_with ()) (\<lambda>_.
     and_then (on_db (Progress e l (Some (JObj [(''next_cursor'', JStr (cpg_next page))])) None None))
       (\<lambda>_. done_with page))))))))"

definition handleAccountBootstrap ::
    "env \<Rightarrow> uuids \<Rightarrow> string \<Rightarrow> session result \<Rightarrow> string \<Rightarrow> bootstrap_job \<Rightarrow> (worker, unit) act" where
  "handleAccountBootstrap e g w sess account j =
     and_then (acquireSyncLease e (branch 0 g) w account None ''chats'') (\<lambda>l.
     and_then (leased e l (bootstrap_page e (branch 1 g) sess account j l)) (\<lambda>page.
     and_then (on_db (Complete e l)) (\<lambda>_.
     writeAudit e w account ''TELEGRAM_CHATS_SYNCED'' ''telegram_account'' account
       (JObj [(''count'', jint (int (length (cpg_items page)))), (''force'', JBool (bj_force j)),
              (''has_more'', JBool (cpg_next page \<noteq> [])), (''used_cursor'', JBool (bj_cursor j \<noteq> []))]))))"

section \<open>Media downloads (media.go)\<close>

definition maxMediaDownloadAttempts :: int where
  "maxMediaDownloadAttempts = 5"

definition too_many_attempts :: go_err where
  "too_many_attempts = Permanent (Msg (''media download exceeded '' @ itoa maxMediaDownloadAttempts @ '' attempts''))"

definition on_media :: "(store \<times> db \<Rightarrow> 'a result \<times> store \<times> db) \<Rightarrow> (worker, 'a) act" where
  "on_media f = (\<lambda>s. case f (wk_store s, wk_db s) of (r, st, d) \<Rightarrow> (r, set_db d (s\<lparr>wk_store := st\<rparr>)))"

text \<open>A step whose error also marks the download failed; the outcome of that is dropped.\<close>

definition marking :: "env \<Rightarrow> string \<Rightarrow> (worker, 'a) act \<Rightarrow> (worker, 'a) act" where
  "marking e media_id f =
     (\<lambda>s. case f s of
        (Inl err, s') \<Rightarrow> (Inl err, snd (on_db (MarkFailed e media_id (Some (err_text err))) s'))
      | (Inr x, s') \<Rightarrow> (Inr x, s'))"

text \<open>The job when the claim was not given.\<close>

definition media_not_claimed :: "env \<Rightarrow> string \<Rightarrow> media_job \<Rightarrow> (worker, unit) act" where
  "media_not_claimed e account j =
     (\<lambda>s. case GetForWorker e account (dj_media j) (wk_db s) of
        Inr item \<Rightarrow>
          if mi_status item = MReady then (Inr (), s)
          else if maxMediaDownloadAttempts \<le> mi_attempts item then (Inl too_many_attempts, s)
          else (Inl (RetryAfter (30 * second_ns) (Msg ''media download is currently owned by another worker'')), s)
      | Inl _ \<Rightarrow>
          (Inl (RetryAfter (30 * second_ns) (Msg ''media download is currently owned by another worker'')), s))"

definition media_file :: "env \<Rightarrow> session \<Rightarrow> string \<Rightarrow> media_item \<Rightarrow> int \<Rightarrow> (worker, int) act" where
  "media_file e se account item f =
     (case se_resolve se of
        None \<Rightarrow> done_with f
      | Some resolve \<Rightarrow>
          marking e (mi_id item)
            (and_then (ask_db (\<lambda>d. case DownloadSource e account (mi_id item) d of
                         Inl NoRows \<Rightarrow> Inl (Permanent (Msg ''media source message is unavailable''))
                       | r \<Rightarrow> r)) (\<lambda>(chat, msg).
             telegram e account (resolve chat msg (or_empty (mi_unique item)) (mi_type item)))))"

definition media_fetch :: "env \<Rightarrow> session \<Rightarrow> string \<Rightarrow> media_job \<Rightarrow> int \<Rightarrow> (worker, download) act" where
  "media_fetch e se account j f =
     marking e (dj_media j)
       (and_then (telegram e account (se_file se f)) (\<lambda>dl.
          if dl_reader dl = None then fail_with (Msg ''Telegram download returned no reader'')
          else if dl_size dl < 0 then fail_with (Msg ''Telegram download returned invalid file size'')
          else done_with dl))"

definition media_claimed ::
    "env \<Rightarrow> putter \<Rightarrow> string \<Rightarrow> session \<Rightarrow> string \<Rightarrow> media_job \<Rightarrow> media_item \<Rightarrow> int \<Rightarrow> (worker, unit) act" where
  "media_claimed e put w se account j item f =
     and_then (media_file e se account item f) (\<lambda>f.
     and_then (media_fetch e se account j f) (\<lambda>dl.
     and_then (marking e (dj_media j)
                 (on_media (StoreDownload e put account (dj_media j) (dl_reader dl) (dl_size dl) (dl_type dl)))) (\<lambda>_.
     writeAudit e w account ''TELEGRAM_MEDIA_STORED'' ''media'' (dj_media j)
       (JObj [(''message_id'', JStr (dj_message j)), (''size'', jint (dl_size dl)),
              (''telegram_file_id'', jint (dj_file j))]))))"

definition media_wanted ::
    "env \<Rightarrow> putter \<Rightarrow> string \<Rightarrow> session result \<Rightarrow> string \<Rightarrow> media_job \<Rightarrow> media_item \<Rightarrow> int \<Rightarrow> (worker, unit) act" where
  "media_wanted e put w sess account j item f =
     and_then (on_world (beforeTelegram e account ''download_file'' (pol_media DefaultPolicies))) (\<lambda>_.
       (case sess of
          Inl err \<Rightarrow> fail_with (RetryAfter (10 * second_ns) err)
        | Inr se \<Rightarrow>
            and_then (on_db (ClaimDownloadRecoverable e (dj_media j) maxMediaDownloadAttempts)) (\<lambda>claimed.
              if \<not> claimed then media_not_claimed e account j
              else media_claimed e put w se account j item f)))"

definition handleMediaDownload ::
    "env \<Rightarrow> putter \<Rightarrow> string \<Rightarrow> session result \<Rightarrow> string \<Rightarrow> media_job \<Rightarrow> (worker, unit) act" where
  "handleMediaDownload e put w sess account j =
     (if dj_media j = [] \<or> dj_message j = [] \<or> dj_file j = 0
        then fail_with (Permanent (Msg ''media id, message id and Telegram file id are required''))
      else and_then (ask_db (GetForWorker e account (dj_media j))) (\<lambda>item.
        if mi_message item \<noteq> dj_message j
          then fail_with (Permanent (Msg ''media job message id does not match stored media''))
        else (case mi_file item of
            None \<Rightarrow> fail_with (Permanent (Msg ''media has no Telegram file id''))
          | Some f \<Rightarrow>
              if mi_status item = MReady then done_with ()
              else if mi_status item = MSkipped
                then fail_with (Permanent (Msg ''media is marked as non-downloadable''))
              else if maxMediaDownloadAttempts \<le> mi_attempts item then fail_with too_many_attempts
              else media_wanted e put w sess account j item f)))"

section \<open>Jobs (Handle)\<close>

definition permanently :: "'a result \<Rightarrow> 'a result" where
  "permanently r = (case r of Inl err \<Rightarrow> Inl (Permanent err) | Inr x \<Rightarrow> Inr x)"

definition account_served :: "env \<Rightarrow> string \<Rightarrow> db \<Rightarrow> account result" where
  "account_served e account d =
     (case Accounts.GetActive e account d of
        Inl err \<Rightarrow> Inl (if errors_is err NoRows then Permanent (Msg ''Telegram account is unavailable'') else err)
      | Inr a \<Rightarrow> Inr a)"

definition Handle ::
    "env \<Rightarrow> uuids \<Rightarrow> putter \<Rightarrow> string \<Rightarrow> (string \<Rightarrow> session result) \<Rightarrow> envelope \<Rightarrow> (worker, unit) act" where
  "Handle e g put w live v =
     and_then (given (permanently (Validate v))) (\<lambda>_.
     and_then (ask_db (account_served e (en_account v))) (\<lambda>_.
       (let account = en_account v; sess = live account in
        if en_kind v = KindAccountBootstrap then
          and_then (given (permanently (decode_bootstrap (en_payload v)))) (handleAccountBootstrap e g w sess account)
        else if en_kind v = KindContactsSync then
          and_then (given (permanently (decode_contacts (en_payload v)))) (\<lambda>_. handleContacts e g w sess account)
        else if en_kind v = KindChatHistory then
          and_then (given (permanently (decode_history (en_payload v)))) (handleChatHistory e g w sess account)
        else if en_kind v = KindChatMembers then
          and_then (given (permanently (decode_members (en_payload v)))) (handleChatMembers e g w sess account)
        else if en_kind v = KindMediaDownload then
          and_then (given (permanently (decode_media (en_payload v)))) (handleMediaDownload e put w sess account)
        else fail_with (Permanent (Msg (''unsupported job kind '' @ quoted (en_kind v)))))))"

end
