(* ===== verification/TdSession.thy ===== *)
theory TdSession
  imports Decode
begin

text \<open>
  A session on the native client (\<open>internal/tdlib/session.go\<close>, \<open>search.go\<close>, \<open>send.go\<close>).
  TDLib itself is a parameter: what it delivers mark it answers a request, and the answer.
\<close>

section \<open>The client and the state of a session\<close>

text \<open>
  \<open>lib_call n q\<close>: the updates received mark the answer of the \<open>n\<close>th request \<open>q\<close>, and that
  answer, None when the context ends first.  \<open>lib_persist\<close> tells whether \<open>OnUpdate\<close> succeeds.
  \<open>lib_file\<close> resolves the symbolic links of a path and opens the file: the components of the
  path and the content.  \<open>lib_mac\<close> is HMAC-SHA256 under a key.
\<close>

record tdlib =
  lib_call :: "nat \<Rightarrow> json \<Rightarrow> json list \<times> json option"
  lib_persist :: "(update \<Rightarrow> bool) option"
  lib_file :: "string \<Rightarrow> (string list \<times> bytes) result"
  lib_mac :: "bytes \<Rightarrow> bytes \<Rightarrow> bytes"

record td_options =
  to_account :: string
  to_api_id :: int
  to_api_hash :: string
  to_key :: bytes
  to_dir :: "string list"  \<comment> \<open>the components of the absolute directory\<close>

record td =
  td_auth :: json
  td_users :: "int \<Rightarrow> json option"
  td_chats :: "int \<Rightarrow> json option"
  td_groups :: "int \<Rightarrow> json option"
  td_seq :: nat
  td_error :: string
  td_open :: bool
  td_ready :: bool
  td_inits :: nat  \<comment> \<open>how often \<open>initialize\<close> was started\<close>
  td_journal :: "update list"  \<comment> \<open>what \<open>OnUpdate\<close> accepted\<close>

definition filepath_base :: "string \<Rightarrow> string" where
  "filepath_base p =
     (let q = rev (dropWhile (\<lambda>c. c = CHR ''/'') (rev p))
      in if p = [] then ''.'' else if q = [] then ''/'' else rev (takeWhile (\<lambda>c. c \<noteq> CHR ''/'') (rev q)))"

text \<open>\<open>Open\<close>: the checks, and the session it makes.\<close>

definition Open :: "td_options \<Rightarrow> td result" where
  "Open opt =
     (if to_api_id opt \<le> 0 \<or> to_api_hash opt = [] \<or> length (to_key opt) \<noteq> 32
        then Inl (Msg ''Telegram API ID, API hash and a 32-byte session key are required'')
      else if to_account opt = [] \<or> filepath_base (to_account opt) \<noteq> to_account opt
        then Inl (Msg ''invalid account ID'')
      else Inr \<lparr>td_auth = JObj [(''@type'', JStr ''starting'')], td_users = Map.empty, td_chats = Map.empty,
                td_groups = Map.empty, td_seq = 0, td_error = [], td_open = True, td_ready = False, td_inits = 0,
                td_journal = []\<rparr>)"

section \<open>Updates\<close>

definition put_member :: "string \<Rightarrow> json \<Rightarrow> json \<Rightarrow> json" where
  "put_member k x v =
     (case v of JObj m \<Rightarrow> JObj (filter (\<lambda>(k', _). k' \<noteq> k) m @ [(k, x)]) | _ \<Rightarrow> JObj [(k, x)])"

definition td_chat :: "td \<Rightarrow> json \<Rightarrow> tg_chat" where  \<comment> \<open>\<open>chat\<close>\<close>
  "td_chat s v =
     (let t = obj (fld v ''type''); ty = str (fld t ''@type''); last_message = obj (fld v ''last_message'');
          i = num (fld last_message ''id'') in
      \<lparr>tc_id = num (fld v ''id''),
       tc_type = (if ty = ''chatTypeSecret'' then ''secret''
                  else if ty = ''chatTypeBasicGroup'' then ''group''
                  else if ty = ''chatTypeSupergroup'' then (if yes (fld t ''is_channel'') then ''channel'' else ''supergroup'')
                  else ''private''),
       tc_title = str (fld v ''title''),
       tc_username = (if ty = ''chatTypeSupergroup''
                      then (case td_groups s (num (fld t ''supergroup_id'')) of None \<Rightarrow> [] | Some g \<Rightarrow> username g)
                      else if ty = ''chatTypePrivate''
                      then (case td_users s (num (fld t ''user_id'')) of None \<Rightarrow> [] | Some u \<Rightarrow> username u)
                      else []),
       tc_meta = Some (JObj [(''type'', t)]),
       tc_last_id = (if i \<noteq> 0 then Some i else None),
       tc_last_at = (if i \<noteq> 0 then Some (unix (num (fld last_message ''date''))) else None)\<rparr>)"

definition empty_event :: "json \<Rightarrow> update" where
  "empty_event v =
     \<lparr>up_kind = str (fld v ''@type''), up_tg = num (fld v ''chat_id''), up_chat = None, up_message = None,
      up_id = num (fld v ''message_id''), up_ids = [], up_content = None, up_entities = None, up_media = [],
      up_edited = None, up_permanent = False\<rparr>"

definition event_by_kind :: "td \<Rightarrow> json \<Rightarrow> update" where
  "event_by_kind s v =
     (let u = empty_event v in
      if up_kind u = ''updateNewChat'' then
        (let c = td_chat s (obj (fld v ''chat'')) in u\<lparr>up_chat := Some c, up_tg := tc_id c\<rparr>)
      else if up_kind u = ''updateNewMessage'' then
        (let m = obj (fld v ''message'') in u\<lparr>up_tg := num (fld m ''chat_id''), up_message := Some (decodeMessage m)\<rparr>)
      else if up_kind u = ''updateMessageContent'' then
        (case decodeContent (obj (fld v ''new_content'')) of
           (text, entities, media) \<Rightarrow> u\<lparr>up_content := text, up_entities := entities, up_media := media\<rparr>)
      else if up_kind u = ''updateMessageEdited'' then
        u\<lparr>up_edited := Some (unix (num (fld v ''edit_date'')))\<rparr>
      else if up_kind u = ''updateDeleteMessages'' then
        u\<lparr>up_permanent := yes (fld v ''is_permanent'') \<and> \<not> yes (fld v ''from_cache''),
          up_ids := map (\<lambda>i. num (Some i)) (elems (fld v ''message_ids''))\<rparr>
      else u)"

definition Event :: "td \<Rightarrow> json \<Rightarrow> update" where
  "Event s v =
     (let u = event_by_kind s v in
      if up_chat u = None then u\<lparr>up_chat := map_option (td_chat s) (td_chats s (up_tg u))\<rparr> else u)"

definition isDataUpdate :: "string \<Rightarrow> bool" where
  "isDataUpdate kind =
     (kind \<in> set [''updateNewMessage'', ''updateMessageContent'', ''updateMessageEdited'', ''updateDeleteMessages'',
                   ''updateNewChat'', ''updateChatTitle'', ''updateChatLastMessage''])"

definition changed_chat :: "td \<Rightarrow> json \<Rightarrow> string \<Rightarrow> td" where
  "changed_chat s v kind =
     (let i = num (fld v ''chat_id'');
          c = (case td_chats s i of None \<Rightarrow> JObj [] | Some x \<Rightarrow> x);
          c = (if kind = ''updateChatTitle'' then put_member ''title'' (or_null (fld v ''title'')) c else c);
          c = (if kind = ''updateChatLastMessage'' then put_member ''last_message'' (or_null (fld v ''last_message'')) c
               else c)
      in s\<lparr>td_chats := (td_chats s)(i \<mapsto> c)\<rparr>)"

definition cached :: "json \<Rightarrow> td \<Rightarrow> td" where
  "cached v s =
     (let kind = str (fld v ''@type'') in
      if kind = ''updateUser'' then
        (let u = obj (fld v ''user'') in s\<lparr>td_users := (td_users s)(num (fld u ''id'') \<mapsto> u)\<rparr>)
      else if kind = ''updateNewChat'' then
        (let c = obj (fld v ''chat'') in s\<lparr>td_chats := (td_chats s)(num (fld c ''id'') \<mapsto> c)\<rparr>)
      else if kind = ''updateSupergroup'' then
        (let g = obj (fld v ''supergroup'') in s\<lparr>td_groups := (td_groups s)(num (fld g ''id'') \<mapsto> g)\<rparr>)
      else if kind \<in> {''updateChatTitle'', ''updateChatLastMessage'', ''updateChatPosition''} then changed_chat s v kind
      else if kind = ''updateAuthorizationState'' then s\<lparr>td_auth := obj (fld v ''authorization_state'')\<rparr>
      else s)"

definition auth_changed :: "td \<Rightarrow> td" where
  "auth_changed s =
     (let st = str (fld (td_auth s) ''@type'') in
      if st = ''authorizationStateWaitTdlibParameters'' then s\<lparr>td_inits := td_inits s + 1\<rparr>
      else if st = ''authorizationStateReady'' then s\<lparr>td_ready := True\<rparr>
      else if st = ''authorizationStateClosed'' then s\<lparr>td_open := False\<rparr>
      else s)"

text \<open>\<open>update\<close>: what the receiver does with a value that answers no request.\<close>

definition td_update :: "tdlib \<Rightarrow> json \<Rightarrow> td \<Rightarrow> td" where
  "td_update lib v s =
     (let kind = str (fld v ''@type'');
          s = cached v s;
          s = (if kind = ''updateAuthorizationState'' then auth_changed s else s)
      in (case lib_persist lib of
            None \<Rightarrow> s
          | Some persist \<Rightarrow>
              if \<not> isDataUpdate kind then s
              else if persist (Event s v) then s\<lparr>td_journal := td_journal s @ [Event s v]\<rparr>
              else s\<lparr>td_error := ''failed to persist Telegram update'', td_open := False\<rparr>))"

section \<open>Requests\<close>

text \<open>\<open>rpc.call\<close>.\<close>

definition td_call :: "tdlib \<Rightarrow> json \<Rightarrow> (td, json) act" where
  "td_call lib q s =
     (let n = td_seq s + 1; s = s\<lparr>td_seq := n\<rparr> in
      if \<not> td_open s then (Inl (Msg ''TDLib client closed''), s)
      else (case lib_call lib n (put_member ''@extra'' (JStr (nat_dec n)) q) of
          (us, answer) \<Rightarrow>
            (case answer of
               None \<Rightarrow> Inl CtxDone
             | Some v \<Rightarrow> if str (fld v ''@type'') = ''error'' then Inl (tdError v) else Inr v,
             fold (td_update lib) us s)))"

text \<open>A request, by its type and its other members.\<close>

definition td_request :: "string \<Rightarrow> (string \<times> json) list \<Rightarrow> json" where
  "td_request ty m = JObj ((''@type'', JStr ty) # m)"

definition td_ask :: "tdlib \<Rightarrow> string \<Rightarrow> (string \<times> json) list \<Rightarrow> (td, json) act" where
  "td_ask lib ty m = td_call lib (td_request ty m)"

definition path_text :: "string list \<Rightarrow> string" where  \<comment> \<open>an absolute path\<close>
  "path_text p = concat (map (\<lambda>c. CHR ''/'' # c) p)"

definition b64_std_encode :: "bytes \<Rightarrow> string" where  \<comment> \<open>\<open>base64.StdEncoding\<close>\<close>
  "b64_std_encode s =
     map (\<lambda>c. if c = CHR ''-'' then CHR ''+'' else if c = CHR ''_'' then CHR ''/'' else c) (b64_encode s)
     @ replicate ((3 - length s mod 3) mod 3) (CHR ''='')"

definition initialize :: "tdlib \<Rightarrow> td_options \<Rightarrow> td \<Rightarrow> td" where
  "initialize lib opt s =
     (let dir = to_dir opt @ [to_account opt];
          key = lib_mac lib (to_key opt) (''telegram-gateway/tdlib/'' @ to_account opt) in
      case td_ask lib ''setTdlibParameters''
             [(''api_id'', jint (to_api_id opt)), (''api_hash'', JStr (to_api_hash opt)),
              (''database_directory'', JStr (path_text (dir @ [''database'']))),
              (''files_directory'', JStr (path_text (dir @ [''files'']))),
              (''database_encryption_key'', JStr (b64_std_encode key)),
              (''use_file_database'', JBool True), (''use_chat_info_database'', JBool True),
              (''use_message_database'', JBool True), (''use_secret_chats'', JBool False),
              (''system_language_code'', JStr ''en''), (''device_model'', JStr ''Telegram Gateway''),
              (''system_version'', JStr ''Linux''), (''application_version'', JStr ''1.0.0'')] s of
        (Inl err, s') \<Rightarrow> s'\<lparr>td_error := err_text err\<rparr>
      | (Inr v, s') \<Rightarrow> s')"

definition State :: "td \<Rightarrow> json" where
  "State s =
     JObj ([(''state'', JStr (str (fld (td_auth s) ''@type''))), (''error'', JStr (td_error s))]
           @ [(k, v). k \<leftarrow> [''password_hint'', ''link'', ''code_info'', ''recovery_email_address_pattern''],
                v \<leftarrow> (case fld (td_auth s) k of None \<Rightarrow> [] | Some v \<Rightarrow> [v])])"

definition IsReady :: "td \<Rightarrow> bool" where
  "IsReady s = (str (fld (td_auth s) ''@type'') = ''authorizationStateReady'')"

definition auth_request :: "string \<Rightarrow> string \<Rightarrow> json option" where
  "auth_request action v =
     (if action = ''phone'' then Some (td_request ''setAuthenticationPhoneNumber'' [(''phone_number'', JStr v)])
      else if action = ''code'' then Some (td_request ''checkAuthenticationCode'' [(''code'', JStr v)])
      else if action = ''password'' then Some (td_request ''checkAuthenticationPassword'' [(''password'', JStr v)])
      else if action = ''email'' then Some (td_request ''setAuthenticationEmailAddress'' [(''email_address'', JStr v)])
      else if action = ''email_code'' then
        Some (td_request ''checkAuthenticationEmailCode''
                [(''code'', td_request ''emailAddressAuthenticationCode'' [(''code'', JStr v)])])
      else if action = ''qr'' then Some (td_request ''requestQrCodeAuthentication'' [(''other_user_ids'', JArr [])])
      else None)"

definition Authorize :: "tdlib \<Rightarrow> string \<Rightarrow> string \<Rightarrow> (td, unit) act" where
  "Authorize lib action v =
     (case auth_request action v of
        None \<Rightarrow> fail_with (Msg ''unsupported authentication action'')
      | Some q \<Rightarrow> and_then (td_call lib q) (\<lambda>_. done_with ()))"

definition Close :: "tdlib \<Rightarrow> td \<Rightarrow> td" where
  "Close lib s = (snd (td_ask lib ''close'' [] s))\<lparr>td_open := False\<rparr>"

definition Profile :: "tdlib \<Rightarrow> (td, profile) act" where
  "Profile lib =
     and_then (td_ask lib ''getMe'' []) (\<lambda>v.
       done_with \<lparr>pr_user = num (fld v ''id''),
                  pr_display = str (fld v ''first_name'') @ '' '' @ str (fld v ''last_name''),
                  pr_username = username v\<rparr>)"

section \<open>Chats\<close>

definition chat_list :: "int \<Rightarrow> json" where
  "chat_list l = JObj [(''@type'', JStr (if l = 1 then ''chatListArchive'' else ''chatListMain''))]"

definition chat_cursor :: "int \<Rightarrow> int \<Rightarrow> string" where
  "chat_cursor l k = itoa l @ '':'' @ itoa k"

text \<open>\<open>loadChats\<close>: whether the list is exhausted.\<close>

definition load_chats :: "tdlib \<Rightarrow> int \<Rightarrow> int \<Rightarrow> (td, bool) act" where
  "load_chats lib l n s =
     (case td_ask lib ''loadChats'' [(''chat_list'', chat_list l), (''limit'', jint n)] s of
        (Inr v, s') \<Rightarrow> (Inr False, s')
      | (Inl (TdErr code m), s') \<Rightarrow> (if code = 404 then Inr True else Inl (TdErr code m), s')
      | (Inl err, s') \<Rightarrow> (Inl err, s'))"

definition open_chats :: "td \<Rightarrow> json list \<Rightarrow> tg_chat list" where
  "open_chats s ids =
     [td_chat s c. i \<leftarrow> ids, c \<leftarrow> (case td_chats s (num (Some i)) of None \<Rightarrow> [] | Some c \<Rightarrow> [c]),
        str (fld (obj (fld c ''type'')) ''@type'') \<noteq> ''chatTypeSecret'']"

text \<open>The page of a list of ids from an offset, and the cursor after it.\<close>

definition next_chat_cursor :: "bool \<Rightarrow> int \<Rightarrow> int \<Rightarrow> int \<Rightarrow> int \<Rightarrow> int \<Rightarrow> string" where
  "next_chat_cursor exhausted l offset n count stop =
     (if \<not> exhausted \<or> stop < count \<or> stop - offset = n then chat_cursor l stop
      else if l = 0 then ''1:0'' else [])"

definition chats_of_page :: "bool \<Rightarrow> int \<Rightarrow> int \<Rightarrow> int \<Rightarrow> json list \<Rightarrow> td \<Rightarrow> chat_page result" where
  "chats_of_page exhausted l offset n ids s =
     (let count = int (length ids); stop = min count (offset + n) in
      if stop = offset \<and> \<not> exhausted then Inl ChatListLoading
      else Inr \<lparr>cpg_items = open_chats s (take (nat (stop - offset)) (drop (nat offset) ids)),
                cpg_next = next_chat_cursor exhausted l offset n count stop\<rparr>)"

definition chat_limit :: "int \<Rightarrow> int" where
  "chat_limit n = (if n < 1 \<or> 100 < n then 100 else n)"

definition ListChats :: "tdlib \<Rightarrow> string \<Rightarrow> int \<Rightarrow> (td, chat_page) act" where
  "ListChats lib cur n =
     (case ParseChatCursor cur of
        Inl err \<Rightarrow> fail_with err
      | Inr (l, offset) \<Rightarrow>
          and_then (load_chats lib l (chat_limit n)) (\<lambda>exhausted.
          and_then (td_ask lib ''getChats'' [(''chat_list'', chat_list l), (''limit'', jint (offset + chat_limit n))]) (\<lambda>v.
          query (chats_of_page exhausted l offset (chat_limit n) (elems (fld v ''chat_ids''))))))"

section \<open>Messages\<close>

definition GetChatHistory :: "tdlib \<Rightarrow> int \<Rightarrow> int \<Rightarrow> int \<Rightarrow> (td, tg_message list) act" where
  "GetChatHistory lib chat mark n =
     and_then (td_ask lib ''getChatHistory''
                 [(''chat_id'', jint chat), (''from_message_id'', jint mark), (''offset'', jint 0), (''limit'', jint n),
                  (''only_local'', JBool False)]) (\<lambda>v.
       done_with [decodeMessage (obj (Some raw)). raw \<leftarrow> elems (fld v ''messages''),
                    \<not> (mark \<noteq> 0 \<and> mark \<le> num (fld (obj (Some raw)) ''id''))])"

definition SearchChatMessages :: "tdlib \<Rightarrow> int \<Rightarrow> string \<Rightarrow> int \<Rightarrow> (td, tg_message list) act" where
  "SearchChatMessages lib chat q n =
     and_then (td_ask lib ''searchChatMessages''
                 [(''chat_id'', jint chat), (''query'', JStr q), (''from_message_id'', jint 0), (''offset'', jint 0),
                  (''limit'', jint n)]) (\<lambda>v.
       done_with [decodeMessage (obj (Some raw)). raw \<leftarrow> elems (fld v ''messages''),
                    num (fld (obj (Some raw)) ''chat_id'') = chat])"

definition get_chat :: "tdlib \<Rightarrow> int \<Rightarrow> (td, json) act" where
  "get_chat lib i = td_ask lib ''getChat'' [(''chat_id'', jint i)]"

definition SearchChats :: "tdlib \<Rightarrow> string \<Rightarrow> int \<Rightarrow> (td, tg_chat list) act" where
  "SearchChats lib q n =
     and_then (td_ask lib ''searchChatsOnServer'' [(''query'', JStr q), (''limit'', jint n)]) (\<lambda>v.
     and_then (each 0 (\<lambda>_ i. and_then (get_chat lib (num (Some i))) (\<lambda>c. query (\<lambda>s. Inr (td_chat s c))))
                 (elems (fld v ''chat_ids'')))
       (\<lambda>cs. done_with (filter (\<lambda>c. tc_type c \<noteq> ''secret'') cs)))"

definition SearchMessages :: "tdlib \<Rightarrow> string \<Rightarrow> int \<Rightarrow> (td, (tg_chat \<times> tg_message) list) act" where
  "SearchMessages lib q n =
     and_then (td_ask lib ''searchMessages'' [(''query'', JStr q), (''offset'', JStr []), (''limit'', jint n)]) (\<lambda>v.
     and_then (each 0 (\<lambda>_ raw.
                 and_then (get_chat lib (num (fld (obj (Some raw)) ''chat_id''))) (\<lambda>c.
                   query (\<lambda>s. Inr (td_chat s c, decodeMessage (obj (Some raw))))))
                 (elems (fld v ''messages'')))
       (\<lambda>ms. done_with (filter (\<lambda>(c, m). tc_type c \<noteq> ''secret'') ms)))"

definition SendText :: "tdlib \<Rightarrow> int \<Rightarrow> string \<Rightarrow> (td, int) act" where
  "SendText lib chat text =
     (if blank text \<or> 4096 < rune_count text then fail_with (Msg ''text must contain 1 to 4096 characters'')
      else and_then (td_ask lib ''sendMessage''
             [(''chat_id'', jint chat),
              (''input_message_content'', td_request ''inputMessageText''
                 [(''text'', td_request ''formattedText'' [(''text'', JStr text), (''entities'', JArr [])]),
                  (''clear_draft'', JBool False)])]) (\<lambda>v.
         if num (fld v ''id'') = 0 then fail_with (Msg ''Telegram did not return a message id'')
         else done_with (num (fld v ''id''))))"

section \<open>People\<close>

definition contact_of_user :: "tdlib \<Rightarrow> td_options \<Rightarrow> int \<Rightarrow> json \<Rightarrow> tg_contact" where
  "contact_of_user lib opt i u =
     \<lparr>tn_user = i, tn_first = str (fld u ''first_name''), tn_last = str (fld u ''last_name''),
      tn_username = username u, tn_phone = lib_mac lib (to_key opt) (str (fld u ''phone_number'')),
      tn_mutual = yes (fld u ''is_mutual_contact''), tn_meta = None\<rparr>"

fun contacts_of :: "tdlib \<Rightarrow> td_options \<Rightarrow> td \<Rightarrow> json list \<Rightarrow> tg_contact list result" where
  "contacts_of lib opt s [] = Inr []"
| "contacts_of lib opt s (i # ids) =
     (case td_users s (num (Some i)) of
        None \<Rightarrow> Inl (Msg ''Telegram contact cache incomplete'')
      | Some u \<Rightarrow>
          (case contacts_of lib opt s ids of
             Inl err \<Rightarrow> Inl err
           | Inr cs \<Rightarrow> Inr (contact_of_user lib opt (num (Some i)) u # cs)))"

definition ListContacts :: "tdlib \<Rightarrow> td_options \<Rightarrow> (td, tg_contact list) act" where
  "ListContacts lib opt =
     and_then (td_ask lib ''getContacts'' []) (\<lambda>v.
       query (\<lambda>s. contacts_of lib opt s (elems (fld v ''user_ids''))))"

definition member_offset :: "string \<Rightarrow> int result" where
  "member_offset cur =
     (if cur = [] then Inr 0
      else (case parse_int 64 cur of
          None \<Rightarrow> Inl (Msg ''invalid member cursor'')
        | Some n \<Rightarrow> if n < 0 then Inl (Msg ''invalid member cursor'') else Inr n))"

definition chat_object :: "tdlib \<Rightarrow> int \<Rightarrow> (td, json) act" where
  "chat_object lib chat s = (case td_chats s chat of Some c \<Rightarrow> (Inr c, s) | None \<Rightarrow> get_chat lib chat s)"

definition member_query :: "tdlib \<Rightarrow> json \<Rightarrow> int \<Rightarrow> int \<Rightarrow> (td, json) act" where
  "member_query lib t offset n =
     (if str (fld t ''@type'') = ''chatTypeBasicGroup'' then
        td_ask lib ''getBasicGroupFullInfo'' [(''basic_group_id'', jint (num (fld t ''basic_group_id'')))]
      else if str (fld t ''@type'') = ''chatTypeSupergroup'' then
        td_ask lib ''getSupergroupMembers''
          [(''supergroup_id'', jint (num (fld t ''supergroup_id''))),
           (''filter'', JObj [(''@type'', JStr ''supergroupMembersFilterRecent'')]), (''offset'', jint offset), (''limit'', jint n)]
      else fail_with (Msg ''this chat has no member list''))"

definition member_of_sender :: "td \<Rightarrow> json \<Rightarrow> tg_member" where
  "member_of_sender s raw =
     (let m = obj (Some raw); sender = obj (fld m ''member_id'');
          is_chat = (str (fld sender ''@type'') = ''messageSenderChat'');
          i = num (fld sender (if is_chat then ''chat_id'' else ''user_id''));
          u = (case (if is_chat then td_chats s i else td_users s i) of None \<Rightarrow> json_null_object | Some u \<Rightarrow> u) in
      \<lparr>te_peer_type = (if is_chat then ''chat'' else ''user''), te_peer = i, te_first = str (fld u ''first_name''),
       te_last = str (fld u ''last_name''), te_username = username u,
       te_role = str (fld (obj (fld m ''status'')) ''@type''), te_meta = None\<rparr>)"

definition members_page_of :: "json \<Rightarrow> int \<Rightarrow> json \<Rightarrow> td \<Rightarrow> member_page" where
  "members_page_of t offset v s =
     (let ms = elems (fld v ''members''); stop = offset + int (length ms) in
      \<lparr>mpg_items = map (member_of_sender s) ms,
       mpg_next = (if str (fld t ''@type'') = ''chatTypeSupergroup'' \<and> ms \<noteq> [] \<and> stop < num (fld v ''total_count'')
                   then itoa stop else [])\<rparr>)"

definition ListMembers :: "tdlib \<Rightarrow> int \<Rightarrow> string \<Rightarrow> int \<Rightarrow> (td, member_page) act" where
  "ListMembers lib chat cur n =
     (case member_offset cur of
        Inl err \<Rightarrow> fail_with err
      | Inr offset \<Rightarrow>
          and_then (chat_object lib chat) (\<lambda>c.
            (let t = obj (fld c ''type'') in
             and_then (member_query lib t offset n) (\<lambda>v. query (\<lambda>s. Inr (members_page_of t offset v s))))))"

section \<open>Files\<close>

definition ResolveMessageFile :: "tdlib \<Rightarrow> int \<Rightarrow> int \<Rightarrow> string \<Rightarrow> string \<Rightarrow> (td, int) act" where
  "ResolveMessageFile lib chat i unique ty =
     and_then (chat_object lib chat) (\<lambda>_.
     and_then (td_ask lib ''getMessage'' [(''chat_id'', jint chat), (''message_id'', jint i)]) (\<lambda>v.
       (case find (\<lambda>a. tm_type a = ty \<and> (unique = [] \<or> tm_unique a = unique) \<and> tm_file a \<noteq> 0)
               (tg_media (decodeMessage v)) of
          Some a \<Rightarrow> done_with (tm_file a)
        | None \<Rightarrow> fail_with (TdErr 404 ''message attachment is unavailable''))))"

text \<open>\<open>filepath.Rel\<close> of two absolute paths, given by their components.\<close>

fun rel_path :: "string list \<Rightarrow> string list \<Rightarrow> string list" where
  "rel_path (b # bs) (t # ts) =
     (if b = t then rel_path bs ts else replicate (length (b # bs)) ''..'' @ t # ts)"
| "rel_path bs ts = replicate (length bs) ''..'' @ ts"

definition rel_text :: "string list \<Rightarrow> string" where
  "rel_text p = (case p of [] \<Rightarrow> ''.'' | c # cs \<Rightarrow> c @ path_text cs)"

definition escaped :: "string \<Rightarrow> bool" where
  "escaped rel = (rel = ''..'' \<or> 3 < length rel \<and> take 3 rel = ''../'')"

text \<open>\<open>ended\<close> tells whether the caller's context has ended.\<close>

definition DownloadFile :: "tdlib \<Rightarrow> td_options \<Rightarrow> bool \<Rightarrow> int \<Rightarrow> (td, download) act" where
  "DownloadFile lib opt ended i s =
     (case td_ask lib ''downloadFile''
             [(''file_id'', jint i), (''priority'', jint 1), (''offset'', jint 0), (''limit'', jint 0),
              (''synchronous'', JBool True)] s of
        (Inl err, s') \<Rightarrow>
          (Inl err,
           if ended then snd (td_ask lib ''cancelDownloadFile'' [(''file_id'', jint i), (''only_if_pending'', JBool False)] s')
           else s')
      | (Inr v, s') \<Rightarrow>
          (let local = obj (fld v ''local'') in
           if \<not> yes (fld local ''is_downloading_completed'')
             then (Inl (Msg ''Telegram file download incomplete''), s')
           else (case lib_file lib (str (fld local ''path'')) of
               Inl err \<Rightarrow> (Inl err, s')
             | Inr (actual, content) \<Rightarrow>
                 if escaped (rel_text (rel_path (to_dir opt @ [to_account opt, ''files'']) actual))
                   then (Inl (Msg ''Telegram file escaped session directory''), s')
                 else (Inr \<lparr>dl_reader = Some content, dl_size = int (length content),
                            dl_type = ''application/octet-stream''\<rparr>, s'))))"

section \<open>The session as workers use it\<close>

text \<open>The outcome of each call when it is made in the given state.\<close>

definition td_session :: "tdlib \<Rightarrow> td_options \<Rightarrow> bool \<Rightarrow> td \<Rightarrow> session" where
  "td_session lib opt ended s =
     \<lparr>se_profile = fst (Profile lib s),
      se_chats = (\<lambda>c n. fst (ListChats lib c n s)),
      se_history = (\<lambda>chat mark n. fst (GetChatHistory lib chat mark n s)),
      se_contacts = fst (ListContacts lib opt s),
      se_members = (\<lambda>chat c n. fst (ListMembers lib chat c n s)),
      se_file = (\<lambda>i. fst (DownloadFile lib opt ended i s)),
      se_resolve = Some (\<lambda>chat i unique ty. fst (ResolveMessageFile lib chat i unique ty s)),
      se_search_chats = Some (\<lambda>q n. fst (SearchChats lib q n s)),
      se_search_messages = Some (\<lambda>chat q n. fst (SearchChatMessages lib chat q n s))\<rparr>"

end
