(* ===== verification/TdTheorems.thy ===== *)
theory TdTheorems
  imports TdSession Routing
begin

text \<open>
  What the native session guarantees: no private data in stored content, no file from outside
  its directory, no secret chat, and chat pages that advance.
\<close>

section \<open>Content\<close>

text \<open>Nothing of an object but a file's three members, or no path and no phone number at any depth.\<close>

fun clean :: "json \<Rightarrow> bool"
  and clean_members :: "(string \<times> json) list \<Rightarrow> bool"
  and clean_elements :: "json list \<Rightarrow> bool" where
  "clean (JObj m) =
     (if str (json_lookup ''@type'' (JObj m)) = ''file'' then map fst m = [''@type'', ''size'', ''unique_id'']
      else clean_members m)"
| "clean (JArr xs) = clean_elements xs"
| "clean v = True"
| "clean_members [] = True"
| "clean_members ((k, v) # m) = (k \<noteq> ''local'' \<and> k \<noteq> ''phone_number'' \<and> clean v \<and> clean_members m)"
| "clean_elements [] = True"
| "clean_elements (v # vs) = (clean v \<and> clean_elements vs)"

lemma sanitized_lookup:
  "k \<noteq> ''local'' \<Longrightarrow> k \<noteq> ''phone_number'' \<Longrightarrow>
   map_of (rev (sanitized_members m)) k = map_option sanitizedContent (map_of (rev m) k)"
proof (induction m)
  case (Cons x m)
  obtain a v where x: "x = (a, v)" by (cases x)
  show ?case using Cons by (auto simp: x map_add_def split: option.splits)
qed simp

lemma sanitized_string: "sanitizedContent v = JStr s \<longleftrightarrow> v = JStr s"
  by (cases v) auto

lemma str_sanitized: "str (map_option sanitizedContent v) = str v"
proof (cases v)
  case (Some x)
  then show ?thesis by (cases x) (auto simp: str_def)
qed (simp add: str_def)

lemma sanitized_clean:
  "clean (sanitizedContent v)" "clean_members (sanitized_members m)" "clean_elements (sanitized_elements xs)"
proof (induction v and m and xs rule: sanitizedContent_sanitized_members_sanitized_elements.induct)
  case (1 m)
  show ?case
  proof (cases "str (json_lookup ''@type'' (JObj m)) = ''file''")
    case True
    then show ?thesis by (simp add: str_def)
  next
    case False
    then have "str (json_lookup ''@type'' (JObj (sanitized_members m))) \<noteq> ''file''"
      using sanitized_lookup [of "''@type''" m] by (simp add: str_sanitized)
    then show ?thesis using 1 False by (simp del: json_lookup.simps)
  qed
qed auto

text \<open>The content of a message that is stored in its metadata carries no local path and no phone
  number at any depth, and of a file only its size and its unique id.\<close>

theorem stored_content_stripped:
  "\<exists>c outgoing album. clean c \<and> tg_meta (decodeMessage v)
     = Some (JObj [(''content'', c), (''is_outgoing'', outgoing), (''media_album_id'', album)])"
proof -
  have "clean (sanitizedContent (obj (fld v ''content'')))" by (rule sanitized_clean)
  then show ?thesis by (auto simp: decodeMessage_def Let_def split: prod.split)
qed

section \<open>Files\<close>

lemma replicate_dots_text: "rel_text (''..'' # p) = ''..'' \<or> take 3 (rel_text (''..'' # p)) = ''../'' \<and> (3 < length (rel_text (''..'' # p)) \<or> p = [[]])"
  by (cases p) (auto simp: rel_text_def path_text_def)

lemma rel_inside:
  assumes "\<not> escaped (rel_text (rel_path b t))" "[] \<notin> set t"
  shows "take (length b) t = b"
  using assms
proof (induction b arbitrary: t)
  case (Cons b bs)
  have out: "escaped (rel_text (''..'' # p))" if "p \<noteq> [[]]" for p
    using replicate_dots_text [of p] that by (auto simp: escaped_def)
  show ?case
  proof (cases t)
    case Nil
    have "replicate (length bs) ''..'' \<noteq> [[]]" by (cases bs) auto
    then show ?thesis using out Cons.prems(1) by (simp add: Nil)
  next
    case t: (Cons c ts)
    show ?thesis
    proof (cases "b = c")
      case True
      then show ?thesis using Cons t by simp
    next
      case False
      have "replicate (length bs) ''..'' @ c # ts \<noteq> [[]]" using Cons.prems(2) t by (cases bs) auto
      then show ?thesis using out Cons.prems(1) False by (simp add: t)
    qed
  qed
qed simp

text \<open>C38: A download never serves a file from outside the session's own directory, wherever the path
  TDLib reports and its symbolic links lead.\<close>

theorem download_contained:
  assumes "DownloadFile lib opt ended i s = (Inr dl, s')"
    and "\<forall>p c content. lib_file lib p = Inr (c, content) \<longrightarrow> [] \<notin> set c"
  shows "\<exists>p rest. lib_file lib p = Inr (to_dir opt @ [to_account opt, ''files''] @ rest, the (dl_reader dl))
    \<and> dl_size dl = int (length (the (dl_reader dl)))"
proof -
  obtain v where v: "fst (td_ask lib ''downloadFile''
             [(''file_id'', jint i), (''priority'', jint 1), (''offset'', jint 0), (''limit'', jint 0),
              (''synchronous'', JBool True)] s) = Inr v"
    using assms(1) by (auto simp: DownloadFile_def split: prod.splits sum.splits)
  let ?p = "str (fld (obj (fld v ''local'')) ''path'')"
  obtain c content where f: "lib_file lib ?p = Inr (c, content)"
      "\<not> escaped (rel_text (rel_path (to_dir opt @ [to_account opt, ''files'']) c))"
      "dl_reader dl = Some content" "dl_size dl = int (length content)"
    using assms(1) v by (auto simp: DownloadFile_def Let_def split: prod.splits sum.splits if_splits)
  have "take (length (to_dir opt @ [to_account opt, ''files''])) c = to_dir opt @ [to_account opt, ''files'']"
    by (rule rel_inside [OF f(2)]) (use assms(2) f(1) in blast)
  then have "c = to_dir opt @ [to_account opt, ''files''] @ drop (length (to_dir opt @ [to_account opt, ''files''])) c"
    by (metis append.assoc append_take_drop_id)
  then show ?thesis using f by (metis option.sel)
qed

section \<open>Secret chats\<close>

lemma td_chat_secret: "tc_type (td_chat s c) = ''secret'' \<longleftrightarrow> str (fld (obj (fld c ''type'')) ''@type'') = ''chatTypeSecret''"
  by (simp add: td_chat_def Let_def)

lemma open_chats_not_secret: "list_all (\<lambda>c. tc_type c \<noteq> ''secret'') (open_chats s ids)"
  by (auto simp: open_chats_def list_all_iff td_chat_secret split: option.splits)

lemma ListChatsD:
  assumes "ListChats lib c n s = (Inr page, s')"
  shows "\<exists>l offset ex ids. ParseChatCursor c = Inr (l, offset) \<and> chats_of_page ex l offset (chat_limit n) ids s' = Inr page"
  using assms
  by (fastforce simp: ListChats_def and_then_ok split: sum.splits prod.splits)

lemma filter_each:
  assumes "and_then m (\<lambda>cs. done_with (filter p cs)) s = (Inr xs, s')"
  shows "list_all p xs"
  using assms by (auto simp: and_then_ok list_all_iff)

lemma SearchChats_not_secret:
  assumes "SearchChats lib q n s = (Inr cs, s')"
  shows "list_all (\<lambda>c. tc_type c \<noteq> ''secret'') cs"
  using assms unfolding SearchChats_def and_then_ok [of "td_ask l a b" for l a b] by (blast dest: filter_each)

lemma SearchMessages_not_secret:
  assumes "SearchMessages lib q n s = (Inr ms, s')"
  shows "list_all (\<lambda>(c, m). tc_type c \<noteq> ''secret'') ms"
  using assms unfolding SearchMessages_def and_then_ok [of "td_ask l a b" for l a b] by (blast dest: filter_each)

lemma ListChats_not_secret:
  assumes "ListChats lib c n s = (Inr page, s')"
  shows "list_all (\<lambda>c. tc_type c \<noteq> ''secret'') (cpg_items page)"
  using ListChatsD [OF assms] by (auto simp: chats_of_page_def Let_def open_chats_not_secret split: if_splits)

section \<open>Chat pages\<close>

lemma digits_no_colon: "CHR '':'' \<notin> set (nat_dec n)"
proof
  assume "CHR '':'' \<in> set (nat_dec n)"
  then have "is_digit (CHR '':'')" using nat_dec_digits [of n] by (auto simp: list_all_iff)
  then show False by (simp add: is_digit_def byte_def)
qed

lemma itoa_no_colon: "CHR '':'' \<notin> set (itoa i)"
  using digits_no_colon by (auto simp: itoa_def)

lemma parse_chat_cursor:
  assumes "l = 0 \<or> l = 1" "0 \<le> k" "k < 2 ^ 63"
  shows "ParseChatCursor (chat_cursor l k) = (if k \<le> 100000 then Inr (l, k) else Inl (Msg ''invalid chat cursor''))"
proof -
  have "split_on (CHR '':'') (chat_cursor l k) = [itoa l, itoa k]"
    using itoa_no_colon by (simp add: chat_cursor_def split_on_sep split_on_none)
  moreover have "parse_int 64 (itoa l) = Some l" "parse_int 64 (itoa k) = Some k"
    by (rule parse_int_itoa; use assms in auto)+
  moreover have "chat_cursor l k \<noteq> []" by (simp add: chat_cursor_def)
  ultimately show ?thesis using assms by (auto simp: ParseChatCursor_def)
qed

text \<open>Chat pages advance: the cursor a page ends with differs from the one it was asked with, and no
  page or search result contains a secret chat.\<close>

theorem chat_pages_advance:
  assumes "ListChats lib c n s = (Inr page, s')"
  shows "cpg_next page \<noteq> c \<and> list_all (\<lambda>x. tc_type x \<noteq> ''secret'') (cpg_items page)"
proof -
  obtain l offset ex ids where p: "ParseChatCursor c = Inr (l, offset)"
      "chats_of_page ex l offset (chat_limit n) ids s' = Inr page"
    using ListChatsD [OF assms(1)] by blast
  have lo: "l = 0 \<or> l = 1" "0 \<le> offset" "offset \<le> 100000"
    using p(1) by (auto simp: ParseChatCursor_def split: if_splits list.splits option.splits)
  let ?stop = "min (int (length ids)) (offset + chat_limit n)"
  have lim: "1 \<le> chat_limit n" "chat_limit n \<le> 100" by (simp_all add: chat_limit_def)
  have nxt: "cpg_next page = next_chat_cursor ex l offset (chat_limit n) (int (length ids)) ?stop"
      "?stop \<noteq> offset \<or> ex"
    using p(2) by (auto simp: chats_of_page_def Let_def split: if_splits)
  have "cpg_next page \<noteq> c"
  proof
    assume c: "cpg_next page = c"
    consider (within) "c = chat_cursor l ?stop" "\<not> ex \<or> ?stop < int (length ids) \<or> ?stop - offset = chat_limit n"
      | (archive) "c = ''1:0''" "l = 0" | (over) "c = []" "l \<noteq> 0"
      using c nxt(1) by (auto simp: next_chat_cursor_def split: if_splits)
    then show False
    proof cases
      case within
      have "ParseChatCursor c = (if ?stop \<le> 100000 then Inr (l, ?stop) else Inl (Msg ''invalid chat cursor''))"
        unfolding within(1) by (rule parse_chat_cursor) (use lo lim in auto)
      then have "?stop = offset" using p(1) by (auto split: if_splits)
      then show False using within(2) nxt(2) lim by linarith
    next
      case archive
      have "ParseChatCursor ''1:0'' = Inr (1, 0)" by code_simp
      then show False using archive p(1) by simp
    next
      case over
      then show False using p(1) by (simp add: ParseChatCursor_def)
    qed
  qed
  then show ?thesis using ListChats_not_secret [OF assms(1)] by simp
qed

text \<open>C39: Secret chats are never mirrored: neither a chat page, a chat search nor a message search of
  the native client yields one, and an update about one changes nothing.\<close>

theorem secret_chats_unseen:
  shows "(case fst (ListChats lib c n s) of Inr page \<Rightarrow> list_all (\<lambda>x. tc_type x \<noteq> ''secret'') (cpg_items page) | _ \<Rightarrow> True)
    \<and> (case fst (SearchChats lib q n s) of Inr cs \<Rightarrow> list_all (\<lambda>x. tc_type x \<noteq> ''secret'') cs | _ \<Rightarrow> True)
    \<and> (case fst (SearchMessages lib q n s) of Inr ms \<Rightarrow> list_all (\<lambda>(x, m). tc_type x \<noteq> ''secret'') ms | _ \<Rightarrow> True)
    \<and> ((case up_chat (Event s v) of Some x \<Rightarrow> tc_type x \<noteq> ''secret'' | None \<Rightarrow> True)
       \<or> ProcessUpdate e g account (Event s v) w = (Inr (), w))"
proof -
  have "ProcessUpdate e g account (Event s v) w = (Inr (), w)"
    if "\<not> (case up_chat (Event s v) of Some x \<Rightarrow> tc_type x \<noteq> ''secret'' | None \<Rightarrow> True)"
    using that by (auto simp: ProcessUpdate_def update_secret_def done_with_def split: option.splits)
  moreover have "case fst (ListChats lib c n s) of Inr page \<Rightarrow> list_all (\<lambda>x. tc_type x \<noteq> ''secret'') (cpg_items page) | _ \<Rightarrow> True"
    using ListChats_not_secret by (auto split: sum.split) (metis prod.collapse)
  moreover have "case fst (SearchChats lib q n s) of Inr cs \<Rightarrow> list_all (\<lambda>x. tc_type x \<noteq> ''secret'') cs | _ \<Rightarrow> True"
    using SearchChats_not_secret by (auto split: sum.split) (metis prod.collapse)
  moreover have "case fst (SearchMessages lib q n s) of Inr ms \<Rightarrow> list_all (\<lambda>(x, m). tc_type x \<noteq> ''secret'') ms | _ \<Rightarrow> True"
    using SearchMessages_not_secret by (auto split: sum.split) (metis prod.collapse)
  ultimately show ?thesis by blast
qed

section \<open>Concrete runs\<close>

definition demo_answer :: "json \<Rightarrow> json" where
  "demo_answer q =
     (let ty = str (fld q ''@type'') in
      if ty = ''loadChats'' then td_request ''error'' [(''code'', JNum ''404''), (''message'', JStr ''Not Found'')]
      else if ty = ''getChats'' then td_request ''chats'' [(''chat_ids'', JArr [JNum ''5''])]
      else if ty = ''downloadFile'' then
        td_request ''file'' [(''local'', td_request ''localFile''
          [(''is_downloading_completed'', JBool True), (''path'', JStr ''/d/a1/files/x'')])]
      else td_request ''ok'' [])"

definition demo_lib :: tdlib where
  "demo_lib = \<lparr>lib_call = (\<lambda>n q. ([], Some (demo_answer q))), lib_persist = None,
     lib_file = (\<lambda>p. Inr ([''d'', ''a1'', ''files'', ''x''], ''content'')), lib_mac = (\<lambda>k m. m)\<rparr>"

definition demo_options :: td_options where
  "demo_options = \<lparr>to_account = ''a1'', to_api_id = 1, to_api_hash = ''h'', to_key = replicate 32 (CHR ''k''), to_dir = [''d'']\<rparr>"

definition demo_td :: td where
  "demo_td = \<lparr>td_auth = JObj [(''@type'', JStr ''authorizationStateReady'')],
     td_users = Map.empty,
     td_chats = [5 \<mapsto> JObj [(''id'', JNum ''5''), (''type'', JObj [(''@type'', JStr ''chatTypePrivate'')]), (''title'', JStr ''Ann'')]],
     td_groups = Map.empty, td_seq = 0, td_error = [], td_open = True, td_ready = True, td_inits = 1, td_journal = []\<rparr>"

lemmas demo_td_defs = demo_td_def demo_lib_def demo_options_def demo_answer_def td_ask_def td_call_def td_request_def
  put_member_def str_def

lemma demo_page: "ListChats demo_lib ''0:0'' 100 demo_td = (Inr \<lparr>cpg_items = [td_chat demo_td (the (td_chats demo_td 5))], cpg_next = ''1:0''\<rparr>, demo_td\<lparr>td_seq := 2\<rparr>)"
proof -
  have c: "ParseChatCursor ''0:0'' = Inr (0, 0)" "num (Some (JNum ''404'')) = 404" "num (Some (JNum ''5'')) = 5" "chat_limit 100 = 100"
    by code_simp+
  show ?thesis
    unfolding ListChats_def c
    by (simp add: and_then_def load_chats_def demo_td_defs tdError_def c chats_of_page_def elems_def arr_def open_chats_def
        next_chat_cursor_def Let_def td_chat_def query_def obj_def)
qed

theorem chat_pages_advance_witness: "''1:0'' \<noteq> ''0:0'' \<and> tc_type (td_chat demo_td (the (td_chats demo_td 5))) \<noteq> ''secret''"
  using chat_pages_advance [OF demo_page] by simp

lemma demo_download: "DownloadFile demo_lib demo_options False 7 demo_td
  = (Inr \<lparr>dl_reader = Some ''content'', dl_size = 7, dl_type = ''application/octet-stream''\<rparr>, demo_td\<lparr>td_seq := 1\<rparr>)"
  by (simp add: DownloadFile_def demo_td_defs yes_def obj_def escaped_def rel_text_def)

theorem download_contained_witness:
  "\<exists>p rest. lib_file demo_lib p = Inr ([''d'', ''a1'', ''files''] @ rest, ''content'')"
  using download_contained [OF demo_download] by (simp add: demo_lib_def demo_options_def)

end
