(* ===== verification/Crawls.thy ===== *)
theory Crawls
  imports Sync TdTheorems
begin

text \<open>
  Chains of jobs: what the publisher writes into a job is what the worker reads, and the jobs of
  a history crawl, each queued by the one before it, come to an end.
\<close>

section \<open>Actions\<close>

lemma keeps_then_on:
  assumes "transp R" "keeps R m" "\<And>s x s'. m s = (Inr x, s') \<Longrightarrow> keeps R (f x)"
  shows "keeps R (and_then m f)"
  unfolding keeps_def
proof
  fix s
  obtain r s' where m: "m s = (r, s')" by fastforce
  have "R s s'" by (rule keepsD [OF assms(2) m])
  moreover have "R s' (snd (f x s'))" if "r = Inr x" for x
    using assms(3) [of s x s'] m that by (simp add: keeps_def)
  ultimately show "R s (snd (and_then m f s))"
    using assms(1) by (auto simp: and_then_def m split: sum.split elim: transpE)
qed

lemma given_eq [simp]: "given r s = (r', s') \<longleftrightarrow> r' = r \<and> s' = s"
  by (auto simp: given_def)

lemma telegram_ok: "telegram e account r s = (Inr x, s') \<Longrightarrow> r = Inr x \<and> s' = s"
  by (auto simp: telegram_def on_world_def telegramError_def split: sum.splits option.splits prod.splits)

section \<open>History crawls end\<close>

text \<open>What a job adds to the bus; a history job among it asks for older messages.\<close>

definition older_job :: "history_job \<Rightarrow> publication \<Rightarrow> bool" where
  "older_job j p =
     (en_kind (pb_env p) = KindChatHistory \<longrightarrow>
       (\<exists>b n. en_payload (pb_env p) = Some (history_json (j\<lparr>hj_before := b, hj_size := n\<rparr>))
         \<and> b \<noteq> 0 \<and> (hj_before j = 0 \<or> b < hj_before j)))"

definition crawls :: "history_job \<Rightarrow> worker \<Rightarrow> worker \<Rightarrow> bool" where
  "crawls j s s' = (\<exists>ps. wk_bus s' = wk_bus s @ ps \<and> list_all (older_job j) ps)"

lemma crawls_refl: "reflp (crawls j)" and crawls_trans: "transp (crawls j)"
proof -
  show "reflp (crawls j)" by (auto simp: reflp_def crawls_def)
  show "transp (crawls j)"
    unfolding transp_def crawls_def by (metis append.assoc list_all_append)
qed

lemma crawls_same: "wk_bus (s' :: worker) = wk_bus (s :: worker) \<Longrightarrow> crawls j s s'"
  by (simp add: crawls_def)

lemma keeps_bus_same:
  "keeps (crawls j) (on_db f)" "keeps (crawls j) (on_world h)" "keeps (crawls j) (given r)"
  by (auto simp: keeps_def on_db_def on_world_def given_def set_db_def split: prod.split intro: crawls_same)

lemma keeps_telegram: "keeps (crawls j) (telegram e account r)"
  by (cases r) (simp_all add: telegram_def keeps_bus_same keeps_simple [OF crawls_refl])

lemma enqueue_crawls:
  assumes "kind = KindChatHistory \<Longrightarrow> \<exists>b n. payload = history_json (j\<lparr>hj_before := b, hj_size := n\<rparr>)
         \<and> b \<noteq> 0 \<and> (hj_before j = 0 \<or> b < hj_before j)"
  shows "keeps (crawls j) (on_bus (enqueue e rnd kind account dedup payload))"
  unfolding keeps_def
proof
  fix s :: worker
  obtain r b' where q: "enqueue e rnd kind account dedup payload (wk_bus s) = (r, b')" by fastforce
  show "crawls j s (snd (on_bus (enqueue e rnd kind account dedup payload) s))"
    using enqueue_bus [OF q] assms by (auto simp: on_bus_def q crawls_def older_job_def)
qed

lemma keeps_fail_bus: "keeps (crawls j) (on_bus (fail_with err))"
  by (auto simp: keeps_def on_bus_def fail_with_def intro: crawls_same)

lemma on_bus_if: "on_bus (\<lambda>b. (if c then f else h) b) = (if c then on_bus f else on_bus h)"
  by simp

lemma enqueue_media_crawls: "keeps (crawls j) (on_bus (EnqueueMediaDownload e rnd account m))"
  unfolding EnqueueMediaDownload_def
  by (auto simp: keeps_fail_bus intro!: enqueue_crawls simp: kind_defs)

lemmas crawl_ops = keeps_bus_same keeps_telegram enqueue_media_crawls keeps_simple [OF crawls_refl]
  keeps_then [OF crawls_trans] keeps_each [OF crawls_refl crawls_trans]

lemma register_crawls: "keeps (crawls j) (registerMedia e g od account i ms)"
  unfolding registerMedia_def by (auto intro!: crawl_ops)

lemma store_crawls: "keeps (crawls j) (StoreMessage e g od account chat m)"
  unfolding StoreMessage_def by (intro crawl_ops register_crawls)

lemma items_crawls: "keeps (crawls j) (history_items e g account chat stop k ms lo hi)"
  by (induction ms arbitrary: k lo hi) (auto intro!: crawl_ops store_crawls)

lemma items_lowest:
  "history_items e g account chat stop k ms lo hi s = (Inr (x, lo', hi'), s') \<Longrightarrow>
   lo' = lo \<or> (\<exists>b. lo' = Some b \<and> (\<exists>m \<in> set ms. tg_id m = b \<and> b \<noteq> 0))"
proof (induction ms arbitrary: k lo hi s)
  case (Cons m ms)
  show ?case
  proof (cases "0 < stop \<and> tg_id m \<le> stop \<or> tg_id m = 0 \<or> tg_sent m = zero_time")
    case True
    then show ?thesis using Cons.prems by (auto split: if_splits)
  next
    case False
    then have nz: "tg_id m \<noteq> 0" by blast
    obtain s1 where "history_items e g account chat stop (Suc k) ms (lower lo (tg_id m)) (higher hi (tg_id m)) s1
        = (Inr (x, lo', hi'), s')"
      using Cons.prems False by (auto simp: and_then_ok)
    from Cons.IH [OF this] show ?thesis
      using nz by (auto simp: lower_def split: option.splits if_splits)
  qed
qed simp

lemma continue_crawls:
  assumes "\<And>b. lo = Some b \<Longrightarrow> b \<noteq> 0 \<and> (hj_before j = 0 \<or> b < hj_before j)"
  shows "keeps (crawls j) (history_continue e g account j reached items lo)"
proof -
  have "keeps (crawls j) (on_bus (EnqueueChatHistory e (g [0]) account (j\<lparr>hj_before := b\<rparr>)))" if "lo = Some b" for b
  proof -
    have "keeps (crawls j) (on_bus (enqueue e (g [0]) KindChatHistory account key
        (history_json (j\<lparr>hj_before := b, hj_size := n\<rparr>))))" for key n
      by (rule enqueue_crawls) (use assms [OF that] in blast)
    then show ?thesis unfolding EnqueueChatHistory_def Let_def by (auto simp: keeps_fail_bus)
  qed
  then show ?thesis
    unfolding history_continue_def by (auto intro!: crawl_ops split: option.split)
qed

lemma native_history_older:
  assumes "fst (GetChatHistory lib chat b n td) = Inr items" "m \<in> set items" "b \<noteq> 0"
  shows "tg_id m < b"
proof -
  have id: "tg_id (decodeMessage v) = num (fld v ''id'')" for v
    by (simp add: decodeMessage_def Let_def split: prod.split)
  obtain td' where "GetChatHistory lib chat b n td = (Inr items, td')" using assms(1) by (metis prod.collapse)
  then show ?thesis using assms(2,3) by (auto simp: GetChatHistory_def and_then_ok id)
qed

lemma page_crawls:
  assumes "sess = Inr (td_session lib opt ended td)"
  shows "keeps (crawls j) (history_page e g sess account j l)"
proof -
  have items: "keeps (crawls j) (and_then (history_items e (branch 0 g) account (hj_chat j) (hj_stop j) 0 items None None)
      (\<lambda>(reached, lo, hi). and_then (history_continue e (branch 1 g) account j reached items lo) (rest lo hi)))"
    if "\<And>m. m \<in> set items \<Longrightarrow> hj_before j \<noteq> 0 \<Longrightarrow> tg_id m < hj_before j"
      "\<And>lo hi x. keeps (crawls j) (rest lo hi x)" for items rest
  proof (rule keeps_then_on [OF crawls_trans items_crawls])
    fix s x s'
    assume "history_items e (branch 0 g) account (hj_chat j) (hj_stop j) 0 items None None s = (Inr x, s')"
    then show "keeps (crawls j) (case x of (reached, lo, hi) \<Rightarrow>
        and_then (history_continue e (branch 1 g) account j reached items lo) (rest lo hi))"
      using items_lowest that(1)
      by (cases x) (fastforce intro!: keeps_then [OF crawls_trans] continue_crawls that(2))
  qed
  show ?thesis
    unfolding history_page_def
  proof (rule keeps_then_on [OF crawls_trans])
    show "keeps (crawls j) (allowed_call e account ''chat_history'' (pol_history DefaultPolicies) sess)"
      unfolding allowed_call_def by (intro crawl_ops)
    fix s1 se s1'
    assume "allowed_call e account ''chat_history'' (pol_history DefaultPolicies) sess s1 = (Inr se, s1')"
    then have se: "se = td_session lib opt ended td" by (auto simp: allowed_call_def and_then_ok assms)
    show "keeps (crawls j) (and_then (telegram e account (se_history se (hj_tg j) (hj_before j) (hj_size j)))
      (\<lambda>ms. and_then (history_items e (branch 0 g) account (hj_chat j) (hj_stop j) 0 ms None None)
      (\<lambda>(reached, lo, hi). and_then (history_continue e (branch 1 g) account j reached ms lo)
        (\<lambda>nxt. and_then (on_db (Progress e l (Some (JObj [(''before_message_id'', jint nxt),
                  (''page_count'', jint (int (length ms)))])) lo hi)) (\<lambda>_. done_with (nxt, length ms))))))"
    proof (rule keeps_then_on [OF crawls_trans keeps_telegram])
      fix s2 ms s2'
      assume "telegram e account (se_history se (hj_tg j) (hj_before j) (hj_size j)) s2 = (Inr ms, s2')"
      then have "fst (GetChatHistory lib (hj_tg j) (hj_before j) (hj_size j) td) = Inr ms"
        by (auto simp: se td_session_def dest!: telegram_ok)
      then show "keeps (crawls j) (and_then (history_items e (branch 0 g) account (hj_chat j) (hj_stop j) 0 ms None None)
        (\<lambda>(reached, lo, hi). and_then (history_continue e (branch 1 g) account j reached ms lo)
          (\<lambda>nxt. and_then (on_db (Progress e l (Some (JObj [(''before_message_id'', jint nxt),
                  (''page_count'', jint (int (length ms)))])) lo hi)) (\<lambda>_. done_with (nxt, length ms)))))"
        by (intro items native_history_older crawl_ops) auto
    qed
  qed
qed

lemma keeps_failSync: "keeps (crawls j) (failSync e l cause)"
  unfolding keeps_def
proof
  fix s :: worker
  obtain r s' where f: "on_db (Fail e l (Some (err_text cause))
      (case RetryDelay cause of Some d \<Rightarrow> d | None \<Rightarrow> 15 * second_ns)) s = (r, s')" by fastforce
  have "wk_bus s' = wk_bus s" using f by (auto simp: on_db_def set_db_def split: prod.splits)
  then show "crawls j s (snd (failSync e l cause s))"
    by (cases r) (auto simp: failSync_def f crawls_def)
qed

lemma keeps_leased:
  assumes "keeps (crawls j) f"
  shows "keeps (crawls j) (leased e l f)"
  unfolding keeps_def
proof
  fix s :: worker
  obtain r s' where f: "f s = (r, s')" by fastforce
  have 1: "crawls j s s'" by (rule keepsD [OF assms f])
  show "crawls j s (snd (leased e l f s))"
    using 1 by (cases r) (auto simp: leased_def f intro: transpD [OF crawls_trans 1] keeps_failSync [unfolded keeps_def, rule_format])
qed

lemma keeps_named: "keeps R f \<Longrightarrow> keeps R (named m f)"
  by (auto simp: keeps_def named_def split: prod.split sum.split) (metis snd_conv)+

lemma history_crawls:
  "keeps (crawls (j\<lparr>hj_chat := trim_space (hj_chat j), hj_size := clamp 100 100 (hj_size j)\<rparr>))
     (handleChatHistory e g w (Inr (td_session lib opt ended td)) account j)"
proof -
  have a: "keeps (crawls k) (acquireSyncLease e h w account chat ty)" for k h chat ty
    unfolding acquireSyncLease_def
    by (auto intro!: crawl_ops keeps_named split: option.split)
  show ?thesis
    unfolding handleChatHistory_def Let_def writeAudit_def
    by (auto intro!: crawl_ops a keeps_leased page_crawls)
qed

section \<open>Payloads\<close>

lemma struct_field_Nil: "struct_field name dec zero [] = Some zero"
  by (simp add: struct_field_def)

lemma struct_field_Cons:
  "struct_field name dec zero ((k, v) # m) =
     (if fold_key k = fold_key name
      then (case field_value dec zero v of None \<Rightarrow> None | Some x \<Rightarrow> struct_field name dec x m)
      else struct_field name dec zero m)"
proof -
  have "foldl (\<lambda>acc (k, v). if fold_key k = fold_key name
                         then (case acc of None \<Rightarrow> None | Some old \<Rightarrow> field_value dec old v)
                         else acc) None m = None" for m :: "(string \<times> json) list"
    by (induction m) auto
  then show ?thesis by (auto simp: struct_field_def split: option.split)
qed

lemma payload_keys:
  "fold_key ''chat_id'' = ''CHAT_ID''" "fold_key ''telegram_chat_id'' = ''TELEGRAM_CHAT_ID''"
  "fold_key ''before_message_id'' = ''BEFORE_MESSAGE_ID''" "fold_key ''requested_page_size'' = ''REQUESTED_PAGE_SIZE''"
  "fold_key ''stop_after_message_id'' = ''STOP_AFTER_MESSAGE_ID''" "fold_key ''cursor'' = ''CURSOR''"
  "fold_key ''limit'' = ''LIMIT''" "fold_key ''media_id'' = ''MEDIA_ID''" "fold_key ''message_id'' = ''MESSAGE_ID''"
  "fold_key ''telegram_file_id'' = ''TELEGRAM_FILE_ID''" "fold_key ''force'' = ''FORCE''"
  by code_simp+

definition int64 :: "int \<Rightarrow> bool" where
  "int64 i = (- (2 ^ 63) \<le> i \<and> i < 2 ^ 63)"

lemma parse_itoa: "parse_int 64 (itoa i) = (if int64 i then Some i else None)"
proof (cases "int64 i")
  case True
  then show ?thesis by (simp add: int64_def parse_int_itoa)
next
  case out: False
  show ?thesis
  proof (cases "i < 0")
    case True
    then show ?thesis
      using out nat_dec_digits nat_dec_nonempty by (simp add: parse_int_def itoa_def dec_val_nat_dec int64_def)
  next
    case False
    obtain c cs where c: "nat_dec (nat i) = c # cs"
      using nat_dec_nonempty by (cases "nat_dec (nat i)") auto
    have "list_all is_digit (c # cs)" "dec_val (c # cs) = nat i"
      using nat_dec_digits dec_val_nat_dec unfolding c [symmetric] by blast+
    then show ?thesis
      using False out nat_dec_head [OF c] by (simp add: parse_int_def itoa_def c int64_def)
  qed
qed

lemma dec_jint: "field_value dec_int x (jint i) = (if int64 i then Some i else None)"
  by (simp add: field_value_def jint_def parse_itoa)

lemma dec_values:
  "field_value dec_str x (JStr s) = Some s" "field_value dec_bool y (JBool b) = Some b"
  by (simp_all add: field_value_def)

lemmas payload_simps = payload_members_def struct_field_Nil struct_field_Cons payload_keys dec_jint dec_values

text \<open>What the publisher puts into a job is what the worker reads out of it, for jobs of all kinds with
  integers of 64 bits; fields that are left out when zero are read back as zero.\<close>

theorem payloads_survive:
  "decode_bootstrap (Some (bootstrap_json b)) = Inr b
   \<and> (list_all int64 [hj_stop h, hj_tg h, hj_before h, hj_size h] \<longrightarrow> decode_history (Some (history_json h)) = Inr h)
   \<and> (list_all int64 [mj_tg m, mj_limit m] \<longrightarrow> decode_members (Some (members_json m)) = Inr m)
   \<and> (int64 (dj_file d) \<longrightarrow> decode_media (Some (media_json d)) = Inr d)"
proof -
  have z: "int64 0" by (simp add: int64_def)
  have "decode_bootstrap (Some (bootstrap_json b)) = Inr b"
    by (cases b) (simp add: decode_bootstrap_def bootstrap_json_def omit_empty_def payload_simps)
  moreover have "decode_history (Some (history_json h)) = Inr h"
    if "list_all int64 [hj_stop h, hj_tg h, hj_before h, hj_size h]"
    using that by (cases h) (simp add: decode_history_def history_json_def omit_zero_def payload_simps)
  moreover have "decode_members (Some (members_json m)) = Inr m" if "list_all int64 [mj_tg m, mj_limit m]"
    using that by (cases m) (simp add: decode_members_def members_json_def omit_empty_def payload_simps)
  moreover have "decode_media (Some (media_json d)) = Inr d" if "int64 (dj_file d)"
    using that by (cases d) (simp add: decode_media_def media_json_def payload_simps)
  ultimately show ?thesis by blast
qed

lemma decode_older:
  assumes "decode_history (Some (history_json k)) = Inr j'" "hj_before k \<noteq> 0"
  shows "hj_before j' = hj_before k \<and> int64 (hj_before k)"
  using assms
  by (auto simp: decode_history_def history_json_def omit_zero_def payload_simps split: if_splits)

text \<open>The history jobs that a job leads to, in any state, at any time and whatever TDLib answers.\<close>

definition leads_to :: "history_job \<Rightarrow> history_job \<Rightarrow> bool" where
  "leads_to j j' =
     (\<exists>e g w lib opt ended td account s r s' p.
        handleChatHistory e g w (Inr (td_session lib opt ended td)) account j s = (r, s')
        \<and> p \<in> set (drop (length (wk_bus s)) (wk_bus s')) \<and> en_kind (pb_env p) = KindChatHistory
        \<and> decode_history (en_payload (pb_env p)) = Inr j')"

lemma leads_to_older:
  assumes "leads_to j j'"
  shows "int64 (hj_before j') \<and> hj_before j' \<noteq> 0 \<and> (hj_before j = 0 \<or> hj_before j' < hj_before j)"
proof -
  obtain e g w lib opt ended td account s r s' p where
    run: "handleChatHistory e g w (Inr (td_session lib opt ended td)) account j s = (r, s')"
      "p \<in> set (drop (length (wk_bus s)) (wk_bus s'))" "en_kind (pb_env p) = KindChatHistory"
      "decode_history (en_payload (pb_env p)) = Inr j'"
    using assms unfolding leads_to_def by blast
  have "crawls (j\<lparr>hj_chat := trim_space (hj_chat j), hj_size := clamp 100 100 (hj_size j)\<rparr>) s s'"
    by (rule keepsD [OF history_crawls run(1)])
  then have "older_job (j\<lparr>hj_chat := trim_space (hj_chat j), hj_size := clamp 100 100 (hj_size j)\<rparr>) p"
    using run(2) by (auto simp: crawls_def list_all_iff)
  then obtain b n where b: "en_payload (pb_env p) = Some (history_json
      (j\<lparr>hj_chat := trim_space (hj_chat j), hj_before := b, hj_size := n\<rparr>))"
      "b \<noteq> 0" "hj_before j = 0 \<or> b < hj_before j"
    using run(3) by (auto simp: older_job_def)
  then show ?thesis using decode_older [OF run(4) [unfolded b(1)]] by simp
qed

text \<open>C37: A history crawl ends: no chain of history jobs, each queued by the one before it, goes on for
  ever, whatever TDLib answers; every job asks for messages older than its predecessor.\<close>

theorem history_crawl_ends: "wfp (\<lambda>j' j. leads_to j j')"
proof -
  define rank :: "history_job \<Rightarrow> nat" where "rank j = (if hj_before j = 0 then 2 ^ 64 + 1 else nat (hj_before j + 2 ^ 63 + 1))" for j
  have "rank j' < rank j" if "leads_to j j'" for j j'
    using leads_to_older [OF that] by (auto simp: rank_def int64_def)
  then show ?thesis by (intro wfp_if_convertible_to_nat [of _ rank]) blast
qed

theorem payloads_survive_witness:
  "decode_history (Some (history_json \<lparr>hj_stop = 0, hj_chat = ''c1'', hj_tg = -100, hj_before = 7, hj_size = 100\<rparr>))
     = Inr \<lparr>hj_stop = 0, hj_chat = ''c1'', hj_tg = -100, hj_before = 7, hj_size = 100\<rparr>"
  using payloads_survive [of undefined "\<lparr>hj_stop = 0, hj_chat = ''c1'', hj_tg = -100, hj_before = 7, hj_size = 100\<rparr>"]
  by (simp add: int64_def)

end
