(* ===== verification/JobTheorems.thy ===== *)
theory JobTheorems
  imports Sync TdTheorems MediaTheorems
begin

text \<open>
  What every job of the worker does with the limiter's cooldown and with its lease: a cooldown lasts
  and refuses every call, and no job leaves a lease behind.
\<close>

section \<open>Flood waits\<close>

text \<open>What other requests and jobs do to the limiter's state.\<close>

inductive redis_step :: "redis \<Rightarrow> redis \<Rightarrow> bool" where
  allow: "redis_step s (snd (Allow e now key l s))"
| cooldown: "redis_step s (snd (SetAccountCooldown e now account d s))"

definition cooling_until :: "string \<Rightarrow> int \<Rightarrow> redis \<Rightarrow> bool" where
  "cooling_until account t s = (case cooldowns s (cooldown_key account) of None \<Rightarrow> False | Some x \<Rightarrow> t \<le> x)"

lemma Allow_cooldowns: "cooldowns (snd (Allow e now key l s)) = cooldowns s"
  by (auto simp: Allow_def Let_def split: prod.split)

lemma cooldown_lasts:
  assumes "redis_step s s'" "cooling_until account t s"
  shows "cooling_until account t s'"
  using assms
proof (induction rule: redis_step.induct)
  case (cooldown s e now a d)
  have "cooldown_key a = cooldown_key account \<longleftrightarrow> a = account" by (simp add: cooldown_key_def)
  then show ?case
    using cooldown
    by (auto simp: SetAccountCooldown_def cooling_until_def cooldown_script_def pttl_def Let_def
        split: prod.split option.splits if_splits)
qed (simp add: cooling_until_def Allow_cooldowns)

lemma cooldowns_last: "redis_step\<^sup>*\<^sup>* s s' \<Longrightarrow> cooling_until account t s \<Longrightarrow> cooling_until account t s'"
  by (induction rule: rtranclp_induct) (auto dest: cooldown_lasts)

lemma cooling_refuses:
  assumes "cooling_until account t (wd_redis w)" "ms_now w < t"
  shows "\<exists>err. beforeTelegram e account meth l w = (Inl err, w)"
proof -
  obtain x where x: "cooldowns (wd_redis w) (cooldown_key account) = Some x" "ms_now w < x"
    using assms by (auto simp: cooling_until_def split: option.splits)
  then have "(\<exists>err. AccountCooldown e (ms_now w) account (wd_redis w) = Inl err)
      \<or> (\<exists>d. AccountCooldown e (ms_now w) account (wd_redis w) = Inr d \<and> 0 < d)"
    by (simp add: AccountCooldown_def pttl_def)
  then show ?thesis
    by (auto simp: beforeTelegram_def and_then_def named_def read_cooldown_def query_def fail_with_def)
qed

lemma flood_stored:
  assumes "AsFloodWait err = Some t" "\<not> blank account" "\<not> e_fail e ''SetAccountCooldown''"
    and "telegramError e account err w = (Inl x, w')"
  shows "cooling_until account (ms_now w + (t + second_ns) div 1000000) (wd_redis w')
    \<and> (\<exists>d. x = RetryAfter d err \<and> t + second_ns - 1000000 < d)"
proof -
  have t: "0 < t"
    using assms(1) by (induction err) (auto split: if_splits)
  let ?ms = "(t + second_ns) div 1000000"
  have ms: "1 \<le> ?ms" "t + second_ns - 1000000 < ?ms * 1000000" using t by (auto simp: second_ns_def)
  obtain v c where c: "cooldown_script ?ms (ms_now w) (cooldowns (wd_redis w) (cooldown_key account)) = (v, c)"
    by fastforce
  have v: "?ms \<le> v" "\<exists>y. c = Some y \<and> ms_now w + ?ms \<le> y"
    using c ms(1) by (auto simp: cooldown_script_def pttl_def Let_def split: if_splits option.splits)
  have "SetAccountCooldown e (ms_now w) account (t + second_ns) (wd_redis w)
      = (Inr (v * 1000000), (wd_redis w)\<lparr>cooldowns := (cooldowns (wd_redis w))(cooldown_key account := c)\<rparr>)"
    using assms(2,3) t ms c by (simp add: SetAccountCooldown_def second_ns_def Let_def)
  then have "x = RetryAfter (v * 1000000) err"
      "wd_redis w' = (wd_redis w)\<lparr>cooldowns := (cooldowns (wd_redis w))(cooldown_key account := c)\<rparr>"
    using assms(1,4) by (auto simp: telegramError_def)
  then show ?thesis
    using v ms by (auto simp: cooling_until_def intro!: exI [of _ "v * 1000000"])
qed

section \<open>Leases\<close>

text \<open>The rows that carry the lease's token are the ones the lease holds.\<close>

definition held_only :: "sync_lease \<Rightarrow> db \<Rightarrow> bool" where
  "held_only l d = list_all (\<lambda>r. ss_token r = Some (sl_token l) \<longrightarrow> holds l r) (sync_states d)"

definition lease_frame :: "sync_lease \<Rightarrow> db \<Rightarrow> db \<Rightarrow> bool" where
  "lease_frame l d d' = (held_only l d \<longrightarrow> held_only l d')"

definition released :: "uuid \<Rightarrow> db \<Rightarrow> bool" where
  "released t d = list_all (\<lambda>r. ss_token r \<noteq> Some t) (sync_states d)"

lemma lease_frame_refl: "reflp (lease_frame l)" and lease_frame_trans: "transp (lease_frame l)"
  by (auto simp: lease_frame_def reflp_def transp_def)

lemma frame_same: "(\<And>d. sync_states (snd (f d)) = sync_states d) \<Longrightarrow> keeps (lease_frame l) f"
  by (simp add: keeps_def lease_frame_def held_only_def)

lemma state_frames:
  "sync_states (snd (Messages.Upsert e i m d)) = sync_states d"
  "sync_states (snd (ApplyTombstones e a c d)) = sync_states d"
  "sync_states (snd (Chats.Upsert e i ch d)) = sync_states d"
  "sync_states (snd (Contacts.MarkMissingDeleted e a seen d)) = sync_states d"
  "sync_states (snd (Contacts.Upsert e i a k ph d)) = sync_states d"
  "sync_states (snd (Members.Upsert e i a c mb d)) = sync_states d"
  "sync_states (snd (Members.MarkNotSeenSince e a c started d)) = sync_states d"
  "sync_states (snd (Activate e a tg dn un d)) = sync_states d"
  by (auto simp: Messages.Upsert_def upsert_message_def ApplyTombstones_def Chats.Upsert_def upsert_chat_def
      Contacts.MarkMissingDeleted_def Contacts.Upsert_def upsert_contact_def Members.Upsert_def upsert_member_def
      MarkNotSeenSince_def delete_members_def Activate_def Let_def split: option.split sum.split prod.split)

lemma register_frame: "sync_states (snd (RegisterPending e i k msg fl u mi na fs d)) = sync_states d"
  by (auto simp: RegisterPending_def insert_media_def Let_def split: option.split sum.split prod.split)

lemma audit_frame: "sync_states (snd (Write e ev d)) = sync_states d"
  by (auto simp: Write_def insert_audit_def Let_def split: option.split sum.split prod.split)

lemma Ensure_rows:
  "sync_states (snd (Ensure e i a c ty d)) = sync_states d
   \<or> (\<exists>n. ss_id n \<notin> ss_id ` set (sync_states d) \<and> ss_token n = None
        \<and> sync_states (snd (Ensure e i a c ty d)) = sync_states d @ [n])"
  by (auto simp: Ensure_def insert_state_def new_state_def Let_def split: option.split sum.split prod.split)

lemma ensure_frame: "keeps (lease_frame l) (Ensure e i a c ty)"
  unfolding keeps_def lease_frame_def held_only_def
proof (intro allI impI)
  fix d :: db
  assume "list_all (\<lambda>r. ss_token r = Some (sl_token l) \<longrightarrow> holds l r) (sync_states d)"
  then show "list_all (\<lambda>r. ss_token r = Some (sl_token l) \<longrightarrow> holds l r) (sync_states (snd (Ensure e i a c ty d)))"
    using Ensure_rows [of e i a c ty d] by auto
qed

lemma exec_frame:
  assumes "\<And>r. ss_token r = Some (sl_token l) \<Longrightarrow> holds l r \<Longrightarrow> ss_token (f r) = Some (sl_token l) \<Longrightarrow> holds l (f r)"
    "\<And>r. p r \<Longrightarrow> holds l r"
  shows "keeps (lease_frame l) (lease_exec e lab what p f)"
  using assms
  by (auto simp: keeps_def lease_frame_def held_only_def lease_exec_def list_all_iff update_where_def holds_def)

lemma progress_frame: "keeps (lease_frame l) (Progress e l cur o1 n1)"
  unfolding Progress_def Let_def
  by (rule exec_frame) (auto simp: holds_def progress_row_def)

abbreviation "lease_safe l \<equiv> db_rel (lease_frame l)"

lemmas lease_rel = db_rel_refl [OF lease_frame_refl] db_rel_trans [OF lease_frame_trans]

lemma keeps_world_frame: "(\<And>w. wd_db (snd (f w)) = wd_db w) \<Longrightarrow> keeps (lease_safe l) (on_world f)"
  by (auto simp: keeps_def on_world_def db_rel_def lease_frame_def split: prod.split) (metis snd_conv)

lemma before_db: "wd_db (snd (beforeTelegram e account meth pl w)) = wd_db w"
  by (auto simp: beforeTelegram_def and_then_def named_def read_cooldown_def query_def fail_with_def done_with_def
      limit_check_def split: prod.split sum.split)

lemma telegram_error_db: "wd_db (snd (telegramError e account err w)) = wd_db w"
  by (auto simp: telegramError_def split: option.split prod.split sum.split)

lemma keeps_given: "reflp R \<Longrightarrow> keeps R (given r)"
  by (simp add: keeps_def given_def reflp_def)

lemmas frame_ops = keeps_on_db [OF frame_same] keeps_on_db [OF ensure_frame] keeps_on_db [OF progress_frame]
  keeps_on_bus [OF lease_frame_refl] keeps_ask [OF lease_frame_refl]
  keeps_simple [OF lease_rel(1)] keeps_given [OF lease_rel(1)]
  keeps_then [OF lease_rel(2)] keeps_each [OF lease_rel]
  keeps_world_frame [OF before_db] state_frames register_frame audit_frame

lemma telegram_frame: "keeps (lease_safe l) (telegram e account r)"
  by (cases r) (auto simp: telegram_def intro!: frame_ops keeps_world_frame telegram_error_db)

lemma call_frame: "keeps (lease_safe l) (allowed_call e account meth pl sess)"
  unfolding allowed_call_def by (intro frame_ops)

lemma store_frame: "keeps (lease_safe l) (StoreMessage e g od account chat m)"
  unfolding StoreMessage_def registerMedia_def
  by (intro frame_ops) (auto intro!: frame_ops)

lemma items_frame: "keeps (lease_safe l) (history_items e g account chat stop k ms lo hi)"
  by (induction ms arbitrary: k lo hi) (auto intro!: frame_ops store_frame)

lemma history_frame: "keeps (lease_safe l) (history_page e g sess account j l)"
  unfolding history_page_def history_continue_def
  by (auto intro!: frame_ops call_frame telegram_frame items_frame split: option.split)

lemma contacts_frame: "keeps (lease_safe l) (contacts_snapshot e g sess account l)"
  unfolding contacts_snapshot_def by (auto intro!: frame_ops call_frame telegram_frame)

lemma members_frame: "keeps (lease_safe l) (members_page e g sess account j l start)"
  unfolding members_page_def Let_def by (auto intro!: frame_ops call_frame telegram_frame)

lemma bootstrap_frame: "keeps (lease_safe l) (bootstrap_page e g sess account j l)"
  unfolding bootstrap_page_def bootstrap_profile_def bootstrap_chat_def
  by (auto intro!: frame_ops telegram_frame split: prod.split)

lemma exec_releases:
  assumes "held_only l d" "\<not> e_fail e lab" "\<And>r. ss_token (f r) = None"
  shows "released (sl_token l) (snd (lease_exec e lab what (holds l) f d))"
  using assms
  by (auto simp: lease_exec_def released_def held_only_def list_all_iff update_where_def affected_def filter_empty_conv)

text \<open>How a failure to give up the lease is reported: the statement that does it failed.\<close>

definition unsaved :: "go_err \<Rightarrow> bool" where
  "unsaved x = (\<exists>m err. x = Wrapped (m @ ''; persist sync failure'') err)"

definition reported :: "'a result \<Rightarrow> bool" where
  "reported r = (\<exists>x. r = Inl x \<and> (unsaved x \<or> (\<exists>err. x = Wrapped ''complete sync state'' err)))"

lemma Fail_releases:
  assumes "held_only l d" "Fail e l c t d = (z, d')"
  shows "released (sl_token l) d' \<or> z \<noteq> Inr ()"
proof (cases "pg_text (fail_message c) \<and> \<not> e_fail e ''Fail''")
  case True
  have "released (sl_token l) (snd (lease_exec e ''Fail'' ''fail sync state'' (holds l) (fail_row (e_now e) m ra) d))" for m ra
    using True by (intro exec_releases [OF assms(1)]) (simp_all add: fail_row_def)
  moreover have "Fail e l c t d = lease_exec e ''Fail'' ''fail sync state'' (holds l)
      (fail_row (e_now e) (fail_message c) (if t < 0 then 0 else t)) d"
    using True by (simp add: Fail_def)
  ultimately have "released (sl_token l) (snd (Fail e l c t d))" by simp
  then show ?thesis by (simp add: assms(2))
next
  case False
  then show ?thesis using assms(2) by (auto simp: Fail_def lease_exec_def Let_def split: if_splits)
qed

lemma wk_set_db [simp]: "wk_db (set_db d s) = d"
  by (simp add: set_db_def)

lemma failSync_releases:
  assumes "held_only l (wk_db s)"
  shows "released (sl_token l) (wk_db (snd (failSync e l cause s))) \<or> reported (fst (failSync e l cause s))"
proof -
  let ?t = "case RetryDelay cause of Some d \<Rightarrow> d | None \<Rightarrow> 15 * second_ns"
  obtain z d where z: "Fail e l (Some (err_text cause)) ?t (wk_db s) = (z, d)" by fastforce
  have "released (sl_token l) d \<or> z \<noteq> Inr ()" by (rule Fail_releases [OF assms z])
  then show ?thesis
    by (cases z) (auto simp: failSync_def on_db_def z reported_def unsaved_def)
qed

lemma failSync_error: "\<exists>err. failSync e l cause s = (Inl err, snd (failSync e l cause s))"
  by (auto simp: failSync_def split: prod.split sum.split)

lemma leased_end:
  assumes body: "keeps (lease_safe l) f" "held_only l (wk_db s)"
  shows "released (sl_token l) (wk_db (snd (and_then (leased e l f)
        (\<lambda>x. and_then (on_db (Complete e l)) (\<lambda>_. writeAudit e w a act ty rid (meta x))) s)))
    \<or> reported (fst (and_then (leased e l f)
        (\<lambda>x. and_then (on_db (Complete e l)) (\<lambda>_. writeAudit e w a act ty rid (meta x))) s))"
proof -
  obtain q s1 where f: "f s = (q, s1)" by fastforce
  have h: "held_only l (wk_db s1)"
    using keepsD [OF body(1) f] body(2) by (simp add: db_rel_def lease_frame_def)
  show ?thesis
  proof (cases q)
    case (Inl cause)
    have same: "leased e l f s = failSync e l cause s1" by (simp add: leased_def f Inl)
    have "\<exists>err. leased e l f s = (Inl err, snd (leased e l f s))" unfolding same by (rule failSync_error)
    then obtain err s2 where s2: "leased e l f s = (Inl err, s2)" by blast
    have "released (sl_token l) (wk_db (snd (leased e l f s))) \<or> reported (fst (leased e l f s))"
      unfolding same by (rule failSync_releases [OF h])
    then have "released (sl_token l) (wk_db s2) \<or> reported (Inl err :: 'a result)" by (simp add: s2)
    then show ?thesis by (simp add: and_then_def s2 reported_def)
  next
    case (Inr x)
    obtain z d where z: "Complete e l (wk_db s1) = (z, d)" by fastforce
    show ?thesis
    proof (cases "e_fail e ''Complete''")
      case True
      then show ?thesis
        by (auto simp: and_then_def leased_def f Inr on_db_def Complete_def lease_exec_def reported_def)
    next
      case False
      have "released (sl_token l) (snd (Complete e l (wk_db s1)))"
        unfolding Complete_def by (rule exec_releases [OF h False]) (simp add: complete_row_def)
      then have rel: "released (sl_token l) d" by (simp add: z)
      obtain y d2 where y: "Write e (system_event w a act ty rid (meta x)) d = (y, d2)" by fastforce
      have "sync_states d2 = sync_states d"
        using audit_frame [of e "system_event w a act ty rid (meta x)" d] by (simp add: y)
      then have "released (sl_token l) d2" using rel by (simp add: released_def)
      then show ?thesis
        using rel by (cases z) (simp_all add: and_then_def leased_def f Inr on_db_def z writeAudit_def y)
    qed
  qed
qed

lemma acquired_held:
  assumes "SyncState.Acquire e t i w ttl d = (Inr (Some l), d')"
    and "released t d" "distinct (map ss_id (sync_states d))"
  shows "sl_token l = t \<and> held_only l d'"
proof -
  have t: "sl_token l = t" using assms(1) by (auto simp: SyncState.Acquire_def Let_def split: if_splits option.splits)
  obtain s where s: "s \<in> set (sync_states d)" "ss_id s = sl_state l" "state_free (e_now e) s"
      "sl_gen l = ss_generation s + 1"
      "d' = d\<lparr>sync_states := update_where (\<lambda>s. ss_id s = sl_state l \<and> state_free (e_now e) s)
               (acquire_row (e_now e) (sl_owner l) (sl_token l) (sl_expires l)) (sync_states d)\<rparr>"
    using sync_AcquireD [OF assms(1)] by blast
  have one: "x = s" if "x \<in> set (sync_states d)" "ss_id x = sl_state l" for x
    using assms(3) s(1,2) that by (auto simp: distinct_map inj_on_def)
  have "holds l r" if r: "r \<in> set (sync_states d')" "ss_token r = Some (sl_token l)" for r
  proof -
    obtain x where x: "x \<in> set (sync_states d)"
      "r = (if ss_id x = sl_state l \<and> state_free (e_now e) x
            then acquire_row (e_now e) (sl_owner l) (sl_token l) (sl_expires l) x else x)"
      using r(1) s(5) by (auto simp: update_where_def)
    then show ?thesis
      using r(2) assms(2) t one [OF x(1)] s(4)
      by (auto simp: released_def list_all_iff acquire_row_def holds_def split: if_splits)
  qed
  then show ?thesis using t by (simp add: held_only_def list_all_iff)
qed

lemma not_acquired:
  "SyncState.Acquire e t i w ttl d = (r, d') \<Longrightarrow> (\<And>l. r \<noteq> Inr (Some l)) \<Longrightarrow> d' = d"
  by (auto simp: SyncState.Acquire_def Let_def split: if_splits option.splits)

lemma Ensure_keeps:
  "released t d \<Longrightarrow> released t (snd (Ensure e i a c ty d))"
  "distinct (map ss_id (sync_states d)) \<Longrightarrow> distinct (map ss_id (sync_states (snd (Ensure e i a c ty d))))"
  using Ensure_rows [of e i a c ty d] by (auto simp: released_def)

text \<open>What a job that takes a lease with token \<open>t\<close> leaves behind.\<close>

definition gives_up :: "uuid \<Rightarrow> (worker, 'a) act \<Rightarrow> bool" where
  "gives_up t h = (\<forall>s. distinct (map ss_id (sync_states (wk_db s))) \<and> released t (wk_db s)
     \<longrightarrow> released t (wk_db (snd (h s))) \<or> reported (fst (h s)))"

lemma gives_up_fail: "gives_up t (fail_with err)"
  by (simp add: gives_up_def fail_with_def)

text \<open>The body of a job once its scope is known; \<open>A\<close> is \<open>Acquire\<close>, perhaps with another error.\<close>

definition leased_job ::
    "env \<Rightarrow> (worker, sync_lease option) act \<Rightarrow> go_err \<Rightarrow> (sync_lease \<Rightarrow> (worker, 'a) act)
       \<Rightarrow> ('a \<Rightarrow> (worker, unit) act) \<Rightarrow> (worker, unit) act" where
  "leased_job e A busy f k =
     and_then A (\<lambda>lease. case lease of
         None \<Rightarrow> fail_with busy
       | Some l \<Rightarrow> and_then (leased e l (f l)) (\<lambda>x. and_then (on_db (Complete e l)) (\<lambda>_. k x)))"

definition acquires :: "env \<Rightarrow> uuid \<Rightarrow> (worker, sync_lease option) act \<Rightarrow> bool" where
  "acquires e t A = (\<exists>i w ttl. \<forall>s z s'. A s = (z, s') \<longrightarrow>
     (\<exists>q d. SyncState.Acquire e t i w ttl (wk_db s) = (q, d) \<and> s' = set_db d s
        \<and> (\<forall>l. z = Inr l \<longleftrightarrow> q = Inr l)))"

lemma acquires_plain: "acquires e t (on_db (SyncState.Acquire e t i w ttl))"
  unfolding acquires_def by (intro exI [of _ i] exI [of _ w] exI [of _ ttl]) (auto simp: on_db_def split: prod.splits)

lemma acquires_named: "acquires e t (named m (on_db (SyncState.Acquire e t i w ttl)))"
  unfolding acquires_def
  by (intro exI [of _ i] exI [of _ w] exI [of _ ttl]) (auto simp: on_db_def named_def split: prod.splits sum.splits)

lemma gives_up_leased:
  assumes A: "acquires e t A" and f: "\<And>l. keeps (lease_safe l) (f l)"
  shows "gives_up t (leased_job e A busy f (\<lambda>x. writeAudit e w a act ty rid (meta x)))" (is "gives_up t ?h")
  unfolding gives_up_def
proof (intro allI impI, elim conjE)
  fix s :: worker
  assume d: "distinct (map ss_id (sync_states (wk_db s)))" "released t (wk_db s)"
  obtain z s' where z: "A s = (z, s')" by fastforce
  obtain i w' ttl q d2 where q: "SyncState.Acquire e t i w' ttl (wk_db s) = (q, d2)" "s' = set_db d2 s"
      "\<forall>l. z = Inr l \<longleftrightarrow> q = Inr l"
    using A z unfolding acquires_def by blast
  show "released t (wk_db (snd (?h s))) \<or> reported (fst (?h s))"
  proof (cases "\<exists>l. z = Inr (Some l)")
    case True
    then obtain l where l: "z = Inr (Some l)" "q = Inr (Some l)" using q(3) by blast
    have t: "sl_token l = t" "held_only l d2" using acquired_held [OF q(1) [unfolded l(2)] d(2,1)] by auto
    let ?k = "and_then (leased e l (f l)) (\<lambda>x. and_then (on_db (Complete e l)) (\<lambda>_. writeAudit e w a act ty rid (meta x)))"
    have "?h s = ?k s'" using z by (simp add: leased_job_def and_then_def l)
    moreover have "released (sl_token l) (wk_db (snd (?k s'))) \<or> reported (fst (?k s'))"
      by (rule leased_end [OF f]) (simp add: t q(2))
    ultimately show ?thesis using t(1) by simp
  next
    case False
    then have "d2 = wk_db s" using not_acquired [OF q(1)] q(3) by blast
    moreover have "wk_db (snd (?h s)) = d2"
      using z q(2) False by (cases z) (auto simp: leased_job_def and_then_def fail_with_def split: option.splits)
    ultimately show ?thesis using d(2) by simp
  qed
qed

lemma gives_up_first:
  assumes "\<And>s. wk_db (snd (E s)) = snd (Ensure e i a c ty (wk_db s))" "\<And>st. gives_up t (k st)"
  shows "gives_up t (and_then E k)"
  unfolding gives_up_def
proof (intro allI impI, elim conjE)
  fix s :: worker
  assume d: "distinct (map ss_id (sync_states (wk_db s)))" "released t (wk_db s)"
  obtain z s' where z: "E s = (z, s')" by fastforce
  have "wk_db s' = snd (Ensure e i a c ty (wk_db s))" using assms(1) [of s] by (simp add: z)
  then have "distinct (map ss_id (sync_states (wk_db s')))" "released t (wk_db s')"
    using Ensure_keeps d by simp_all
  then show "released t (wk_db (snd (and_then E k s))) \<or> reported (fst (and_then E k s))"
    using assms(2) by (cases z) (simp_all add: and_then_def z gives_up_def)
qed

lemma gives_up_ensure:
  assumes "\<And>st. gives_up t (k st)"
  shows "gives_up t (and_then (named m (on_db (Ensure e i a c ty))) k)" "gives_up t (and_then (on_db (Ensure e i a c ty)) k)"
  by (rule gives_up_first [where e = e and i = i and a = a and c = c and ty = ty, OF _ assms];
      simp add: on_db_def named_def split: prod.split sum.split)+

lemma gives_up_given:
  assumes "\<And>x. gives_up t (k x)"
  shows "gives_up t (and_then (given r) k)"
  using assms by (cases r) (simp_all add: gives_up_def and_then_def given_def)

lemma acquire_then:
  "and_then (acquireSyncLease e g w account chat ty) (\<lambda>l. and_then (leased e l (f l)) (\<lambda>x. and_then (on_db (Complete e l)) (\<lambda>_. k x)))
   = and_then (named ''ensure sync state'' (on_db (Ensure e (g [0]) account chat ty)))
       (\<lambda>st. leased_job e (named ''acquire sync lease'' (on_db (SyncState.Acquire e (g [1]) (ss_id st) w syncLeaseTTL)))
          (RetryAfter (2 * second_ns) (Msg ''sync state is owned by another worker'')) f k)"
  by (rule ext)
    (auto simp: acquireSyncLease_def leased_job_def and_then_def fail_with_def done_with_def split: prod.split sum.split option.split)

lemmas job_frames = bootstrap_frame history_frame contacts_frame members_frame

lemma gives_up_job:
  assumes "\<And>l. keeps (lease_safe l) (f l)"
  shows "gives_up (g [1]) (and_then (acquireSyncLease e g w account chat ty) (\<lambda>l. and_then (leased e l (f l))
      (\<lambda>x. and_then (on_db (Complete e l)) (\<lambda>_. writeAudit e w a act ty' rid (meta x)))))"
  unfolding acquire_then by (intro gives_up_ensure gives_up_leased acquires_named assms)

lemma gives_up_members: "gives_up (g [1]) (handleChatMembers e g w sess account j)"
proof -
  have "gives_up (g [1]) (leased_job e (on_db (SyncState.Acquire e (g [1]) (ss_id st) w syncLeaseTTL))
      (RetryAfter (2 * second_ns) (Msg ''member sync is owned by another worker''))
      (\<lambda>l. members_page e (branch 2 g) sess account k l start)
      (\<lambda>x. writeAudit e w account ''TELEGRAM_CHAT_MEMBERS_SYNCED'' ''chat'' c
                (JObj [(''count'', jint (int (fst x))), (''has_more'', JBool (snd x \<noteq> []))])))" for st k start c
    by (intro gives_up_leased acquires_plain members_frame)
  then show ?thesis
    unfolding leased_job_def
    by (auto simp: handleChatMembers_def case_prod_unfold Let_def gives_up_fail intro!: gives_up_ensure gives_up_given)
qed

text \<open>C36: No job leaves a lease behind: whatever fails in a bootstrap, history, contacts or members job,
  the scope it leased is free again when the job returns, unless the very statement that gives it up
  (completing the scope after success, recording the failure otherwise) failed, which is the job's error.
\<close>

theorem no_lease_left:
  shows "gives_up (g [0, 1]) (handleAccountBootstrap e g w sess account b)
    \<and> gives_up (g [0, 1]) (handleChatHistory e g w sess account h)
    \<and> gives_up (g [0, 1]) (handleContacts e g w sess account)
    \<and> gives_up (g [1]) (handleChatMembers e g w sess account j)"
proof -
  have b: "branch 0 g [1] = g [0, 1]" by (simp add: branch_def)
  note job = gives_up_job [of _ "branch 0 g" e, unfolded b]
  have 1: "gives_up (g [0, 1]) (handleAccountBootstrap e g w sess account b)"
    unfolding handleAccountBootstrap_def by (rule job [OF bootstrap_frame])
  have 2: "gives_up (g [0, 1]) (handleContacts e g w sess account)"
    unfolding handleContacts_def case_prod_unfold by (rule job [OF contacts_frame])
  have 3: "gives_up (g [0, 1]) (handleChatHistory e g w sess account h)"
    unfolding handleChatHistory_def case_prod_unfold Let_def
    by (auto simp: gives_up_fail simp del: One_nat_def intro!: job [OF history_frame])
  show ?thesis using 1 2 3 gives_up_members by blast
qed

text \<open>A worker on which jobs are run.\<close>

definition idle_worker :: worker where
  "idle_worker = \<lparr>wk_world = \<lparr>wd_db = demo_db, wd_redis = empty_redis, wd_time = 100\<rparr>, wk_bus = [], wk_store = Map.empty\<rparr>"

end
