(* ===== verification/FloodTheorems.thy ===== *)
theory FloodTheorems
  imports JobTheorems
begin

text \<open>
  Flood waits, for whole jobs.  A job calls Telegram only through the outcomes of its session, so it
  makes no call whose answer it uses if two sessions with any other outcomes give the same run:
  \<open>deaf\<close> relates such runs while an account cools down.  \<open>met\<close> relates the run with a session that
  answers every call with a flood wait to any other: they agree until the first call.
\<close>

section \<open>While the account cools down\<close>

definition cold :: "string \<Rightarrow> worker \<Rightarrow> bool" where
  "cold account s = (\<exists>t. cooling_until account t (wd_redis (wk_world s)) \<and> ms_now (wk_world s) < t)"

definition deaf :: "string \<Rightarrow> (worker, 'a) act \<Rightarrow> (worker, 'a) act \<Rightarrow> bool" where
  "deaf account f f' = (\<forall>s. cold account s \<longrightarrow> f s = f' s \<and> cold account (snd (f s)))"

text \<open>Steps that leave the limiter and the time as they are.\<close>

definition idle :: "(worker, 'a) act \<Rightarrow> bool" where
  "idle f = (\<forall>s. wd_redis (wk_world (snd (f s))) = wd_redis (wk_world s) \<and> wd_time (wk_world (snd (f s))) = wd_time (wk_world s))"

lemma idle_ops:
  "idle (on_db q)" "idle (on_bus b)" "idle (ask_db a)" "idle (given r)" "idle (done_with x)" "idle (fail_with err)"
  by (simp_all add: idle_def on_db_def on_bus_def ask_db_def query_def given_def done_with_def fail_with_def set_db_def split: prod.split)

lemma idle_named: "idle f \<Longrightarrow> idle (named m f)"
  unfolding idle_def by (intro allI) (simp add: named_def split: prod.split sum.split, metis snd_conv)

lemma deaf_idle: "idle f \<Longrightarrow> deaf account f f"
  by (simp add: deaf_def idle_def cold_def ms_now_def)

lemma deaf_then:
  assumes "deaf account f f'" "\<And>x. deaf account (k x) (k' x)"
  shows "deaf account (and_then f k) (and_then f' k')"
  unfolding deaf_def
proof (intro allI impI)
  fix s assume c: "cold account s"
  obtain r s1 where f: "f s = (r, s1)" by fastforce
  then have "f' s = (r, s1)" "cold account s1" using assms(1) c unfolding deaf_def by (metis snd_conv)+
  then show "and_then f k s = and_then f' k' s \<and> cold account (snd (and_then f k s))"
  proof (cases r)
    case (Inr x)
    then show ?thesis using assms(2) [of x] f \<open>f' s = (r, s1)\<close> \<open>cold account s1\<close> unfolding deaf_def and_then_def by simp metis
  qed (simp add: and_then_def f \<open>f' s = (r, s1)\<close> \<open>cold account s1\<close>)
qed

lemma deaf_before: "deaf account (and_then (on_world (beforeTelegram e account meth pol)) k) (and_then (on_world (beforeTelegram e account meth pol)) k')"
  unfolding deaf_def
proof (intro allI impI)
  fix s assume c: "cold account s"
  then obtain err where "beforeTelegram e account meth pol (wk_world s) = (Inl err, wk_world s)"
    using cooling_refuses unfolding cold_def by blast
  then show "and_then (on_world (beforeTelegram e account meth pol)) k s = and_then (on_world (beforeTelegram e account meth pol)) k' s
      \<and> cold account (snd (and_then (on_world (beforeTelegram e account meth pol)) k s))"
    using c by (simp add: and_then_def on_world_def)
qed

lemma call_then:
  "and_then (allowed_call e account meth pol (Inr se)) k = and_then (on_world (beforeTelegram e account meth pol)) (\<lambda>_. k se)"
  by (rule ext) (simp add: allowed_call_def and_then_def given_def split: prod.split sum.split)

lemma given_then: "and_then (given (Inr x)) k = k x"
  by (rule ext) (simp add: and_then_def given_def)

lemma failSync_idle: "idle (failSync e l cause)"
  by (simp add: idle_def failSync_def on_db_def set_db_def split: prod.split sum.split)

lemma deaf_leased:
  assumes "deaf account f f'"
  shows "deaf account (leased e l f) (leased e l f')"
  unfolding deaf_def
proof (intro allI impI)
  fix s assume c: "cold account s"
  obtain r s1 where f: "f s = (r, s1)" by fastforce
  then have "f' s = (r, s1)" "cold account s1" using assms c unfolding deaf_def by (metis snd_conv)+
  then show "leased e l f s = leased e l f' s \<and> cold account (snd (leased e l f s))"
  proof (cases r)
    case (Inl x)
    have "cold account (snd (failSync e l x s1))"
      using deaf_idle [OF failSync_idle, of account e l x] \<open>cold account s1\<close> unfolding deaf_def by blast
    then show ?thesis by (simp add: leased_def f Inl \<open>f' s = (r, s1)\<close>)
  qed (simp add: leased_def f \<open>f' s = (r, s1)\<close> \<open>cold account s1\<close>)
qed

lemma audit_idle: "idle (writeAudit e w a act ty rid meta)"
  unfolding writeAudit_def by (rule idle_ops)

lemmas deaf_steps = deaf_idle [OF idle_ops(1)] deaf_idle [OF idle_ops(2)] deaf_idle [OF idle_ops(3)] deaf_idle [OF idle_ops(4)]
  deaf_idle [OF idle_ops(5)] deaf_idle [OF idle_ops(6)] deaf_idle [OF idle_named [OF idle_ops(1)]] deaf_idle [OF audit_idle]

lemma deaf_acquire: "deaf account (acquireSyncLease e g w a chat ty) (acquireSyncLease e g w a chat ty)"
  unfolding acquireSyncLease_def by (intro deaf_then deaf_steps) (auto intro: deaf_steps split: option.split)

lemma deaf_bootstrap:
  "deaf account (handleAccountBootstrap e g w (Inr se) account j) (handleAccountBootstrap e g w (Inr se') account j)"
proof -
  have "deaf account (bootstrap_page e g (Inr se) account j l) (bootstrap_page e g (Inr se') account j l)" for g l
    unfolding bootstrap_page_def given_then bootstrap_profile_def
    by (intro deaf_then deaf_before) (auto intro: deaf_before deaf_steps)
  then show ?thesis
    unfolding handleAccountBootstrap_def by (intro deaf_then deaf_acquire deaf_leased deaf_steps)
qed

lemma deaf_history: "deaf account (handleChatHistory e g w (Inr se) account j) (handleChatHistory e g w (Inr se') account j)"
proof -
  have "deaf account (history_page e g (Inr se) account j l) (history_page e g (Inr se') account j l)" for g j l
    unfolding history_page_def call_then by (rule deaf_before)
  then show ?thesis
    unfolding handleChatHistory_def Let_def
    by (auto intro!: deaf_then deaf_acquire deaf_leased deaf_steps)
qed

lemma deaf_contacts: "deaf account (handleContacts e g w (Inr se) account) (handleContacts e g w (Inr se') account)"
proof -
  have "deaf account (contacts_snapshot e g (Inr se) account l) (contacts_snapshot e g (Inr se') account l)" for g l
    unfolding contacts_snapshot_def call_then by (rule deaf_before)
  then show ?thesis
    unfolding handleContacts_def by (auto intro!: deaf_then deaf_acquire deaf_leased deaf_steps)
qed

lemma deaf_members: "deaf account (handleChatMembers e g w (Inr se) account j) (handleChatMembers e g w (Inr se') account j)"
proof -
  have "deaf account (members_page e g (Inr se) account j l start) (members_page e g (Inr se') account j l start)" for g j l start
    unfolding members_page_def call_then by (rule deaf_before)
  then show ?thesis
    unfolding handleChatMembers_def Let_def
    by (auto intro!: deaf_then deaf_leased deaf_steps split: option.split)
qed

lemma deaf_media: "deaf account (handleMediaDownload e put w (Inr se) account j) (handleMediaDownload e put w (Inr se') account j)"
  unfolding handleMediaDownload_def media_wanted_def
  by (auto intro!: deaf_then deaf_before deaf_steps split: option.split)

lemma deaf_Handle:
  assumes "live (en_account v) = Inr se" "live' (en_account v) = Inr se'"
  shows "deaf (en_account v) (Handle e g put w live v) (Handle e g put w live' v)"
  unfolding Handle_def Let_def assms
  by (auto intro!: deaf_then deaf_steps deaf_bootstrap deaf_history deaf_contacts deaf_members deaf_media)

section \<open>The job that meets the flood wait\<close>

text \<open>A job with such an error is delivered again only after \<open>n\<close> seconds.\<close>

definition late :: "int \<Rightarrow> go_err \<Rightarrow> bool" where
  "late n x = (fst (disposition (Some x)) = AckRetry \<and> n * second_ns < snd (disposition (Some x)))"

definition warned :: "string \<Rightarrow> int \<Rightarrow> worker \<Rightarrow> bool" where
  "warned account n s = cooling_until account (ms_now (wk_world s) + n * 1000 + 1000) (wd_redis (wk_world s))"

definition met :: "string \<Rightarrow> int \<Rightarrow> (worker, 'a) act \<Rightarrow> (worker, 'a) act \<Rightarrow> bool" where
  "met account n f f' = (\<forall>s. f s = f' s \<or> (\<exists>x s'. f s = (Inl x, s') \<and> (late n x \<or> unsaved x) \<and> warned account n s'))"

lemma met_refl: "met account n f f"
  by (simp add: met_def)

lemma met_then:
  assumes "met account n f f'" "\<And>x. met account n (k x) (k' x)"
  shows "met account n (and_then f k) (and_then f' k')"
  unfolding met_def
proof
  fix s
  consider "f s = f' s" | x s1 where "f s = (Inl x, s1)" "late n x \<or> unsaved x" "warned account n s1"
    using assms(1) unfolding met_def by blast
  then show "and_then f k s = and_then f' k' s
    \<or> (\<exists>x s'. and_then f k s = (Inl x, s') \<and> (late n x \<or> unsaved x) \<and> warned account n s')"
  proof cases
    case 1
    obtain r s1 where f: "f s = (r, s1)" "f' s = (r, s1)" using 1 by fastforce
    show ?thesis using assms(2) unfolding met_def by (cases r) (simp_all add: and_then_def f)
  qed (simp add: and_then_def)
qed

lemma warned_idle: "idle f \<Longrightarrow> warned account n s \<Longrightarrow> warned account n (snd (f s))"
  by (simp add: warned_def idle_def ms_now_def)

lemma met_leased:
  assumes "met account n f f'"
  shows "met account n (leased e l f) (leased e l f')"
  unfolding met_def
proof
  fix s
  consider "f s = f' s" | x s1 where "f s = (Inl x, s1)" "late n x \<or> unsaved x" "warned account n s1"
    using assms unfolding met_def by blast
  then show "leased e l f s = leased e l f' s
    \<or> (\<exists>x s'. leased e l f s = (Inl x, s') \<and> (late n x \<or> unsaved x) \<and> warned account n s')"
  proof cases
    case (2 x s1)
    let ?fail = "on_db (Fail e l (Some (err_text x)) (case RetryDelay x of Some d \<Rightarrow> d | None \<Rightarrow> 15 * second_ns))"
    obtain z s2 where z: "?fail s1 = (z, s2)" by fastforce
    then have "warned account n s2" using warned_idle [OF idle_ops(1) 2(3)] by (metis snd_conv)
    then show ?thesis
      using 2(1,2) z by (cases z) (auto simp: leased_def failSync_def unsaved_def)
  qed (simp add: leased_def)
qed

lemma met_marking:
  assumes "met account n f f'"
  shows "met account n (marking e i f) (marking e i f')"
  unfolding met_def
proof
  fix s
  consider "f s = f' s" | x s1 where "f s = (Inl x, s1)" "late n x \<or> unsaved x" "warned account n s1"
    using assms unfolding met_def by blast
  then show "marking e i f s = marking e i f' s
    \<or> (\<exists>x s'. marking e i f s = (Inl x, s') \<and> (late n x \<or> unsaved x) \<and> warned account n s')"
  proof cases
    case (2 x s1)
    have "marking e i f s = (Inl x, snd (on_db (MarkFailed e i (Some (err_text x))) s1))" by (simp add: marking_def 2(1))
    then show ?thesis using warned_idle [OF idle_ops(1) 2(3)] 2(2) by blast
  qed (simp add: marking_def)
qed

text \<open>An answer of TDLib with code 429 and a number of seconds.\<close>

definition flood :: "int \<Rightarrow> 'a result \<Rightarrow> bool" where
  "flood n r = (\<exists>resp. r = Inl (tdError resp) \<and> num (fld resp ''code'') = 429 \<and> n = flood_seconds (str (fld resp ''message'')))"

definition flooding :: "int \<Rightarrow> session \<Rightarrow> bool" where
  "flooding n se =
     (flood n (se_profile se) \<and> (\<forall>c l. flood n (se_chats se c l)) \<and> (\<forall>c b l. flood n (se_history se c b l))
      \<and> flood n (se_contacts se) \<and> (\<forall>c k l. flood n (se_members se c k l)) \<and> (\<forall>f. flood n (se_file se f))
      \<and> (case se_resolve se of None \<Rightarrow> True | Some q \<Rightarrow> \<forall>c m u k. flood n (q c m u k)))"

lemma telegram_flooded:
  assumes "flood n r" "n < 2 ^ 32" "\<not> blank account" "\<not> e_fail e ''SetAccountCooldown''"
  shows "\<exists>x s'. telegram e account r s = (Inl x, s') \<and> late n x \<and> warned account n s'"
proof -
  obtain resp where resp: "r = Inl (tdError resp)" "num (fld resp ''code'') = 429" "n = flood_seconds (str (fld resp ''message''))"
    using assms(1) by (auto simp: flood_def)
  have n: "0 < n" "n * second_ns < 2 ^ 63" using resp(3) assms(2) by (auto simp: flood_seconds_def Let_def second_ns_def)
  then have w: "wrap64 (n * second_ns) = n * second_ns" by (simp add: wrap64_def second_ns_def)
  have err: "tdError resp = FloodWait (n * second_ns) (TdErr 429 (str (fld resp ''message'')))"
    using resp(2,3) w by (simp add: tdError_def Let_def)
  have fw: "AsFloodWait (tdError resp) = Some (n * second_ns)" "\<not> IsPermanent (tdError resp)"
    using n unfolding err by (auto simp: second_ns_def)
  have until: "(n * second_ns + second_ns) div 1000000 = n * 1000 + 1000" by (simp add: second_ns_def)
  obtain x w' where w': "telegramError e account (tdError resp) (wk_world s) = (Inl x :: 'a result, w')"
    using fw(1) that
    by (cases "SetAccountCooldown e (ms_now (wk_world s)) account (n * second_ns + second_ns) (wd_redis (wk_world s))",
        cases "fst (SetAccountCooldown e (ms_now (wk_world s)) account (n * second_ns + second_ns) (wd_redis (wk_world s)))")
      (auto simp: telegramError_def)
  have "wd_time w' = wd_time (wk_world s)"
    using w' fw(1) by (auto simp: telegramError_def split: prod.splits sum.splits)
  moreover note st = flood_stored [OF fw(1) assms(3,4) w']
  moreover obtain d where d: "x = RetryAfter d (tdError resp)" "n * second_ns + second_ns - 1000000 < d" using st by blast
  then have "late n x"
    using fw(2) by (simp add: late_def disposition_def retry_at_least) (simp add: RetryAfter_def second_ns_def)
  ultimately show ?thesis
    using w' resp(1) until by (simp add: telegram_def on_world_def warned_def ms_now_def add.assoc)
qed

lemma met_telegram:
  "flood n r \<Longrightarrow> n < 2 ^ 32 \<Longrightarrow> \<not> blank account \<Longrightarrow> \<not> e_fail e ''SetAccountCooldown''
     \<Longrightarrow> met account n (telegram e account r) f'"
  unfolding met_def using telegram_flooded by blast

text \<open>
  A session that answers every call with a flood wait, any other session of the same kind, and a
  Redis that takes the cooldown.
\<close>

definition warning :: "env \<Rightarrow> string \<Rightarrow> int \<Rightarrow> session \<Rightarrow> session \<Rightarrow> bool" where
  "warning e account n se se' =
     (flooding n se \<and> n < 2 ^ 32 \<and> (se_resolve se = None) = (se_resolve se' = None)
      \<and> \<not> blank account \<and> \<not> e_fail e ''SetAccountCooldown'')"

lemma met_call:
  assumes "warning e account n se se'" "flood n r"
  shows "met account n (and_then (telegram e account r) k) (and_then (telegram e account r') k')"
proof -
  have "met account n (telegram e account r) f'" for f'
    by (rule met_telegram) (use assms in \<open>simp_all add: warning_def\<close>)
  then show ?thesis unfolding met_def by (auto simp: and_then_def split: prod.split sum.split) (metis Inl_inject Inr_not_Inl prod.inject)+
qed

lemma flooding_calls:
  assumes "warning e account n se se'"
  shows "flood n (se_profile se)" "flood n (se_chats se c l)" "flood n (se_history se ch b l)" "flood n (se_contacts se)"
    "flood n (se_members se ch k m)" "flood n (se_file se f)" "se_resolve se = Some q \<Longrightarrow> flood n (q ch msg u kind)"
  using assms by (auto simp: warning_def flooding_def)

lemma met_bootstrap:
  assumes w: "warning e account n se se'"
  shows "met account n (handleAccountBootstrap e g w1 (Inr se) account j) (handleAccountBootstrap e g w1 (Inr se') account j)"
proof -
  have "met account n (bootstrap_page e g (Inr se) account j l) (bootstrap_page e g (Inr se') account j l)" for g l
    unfolding bootstrap_page_def given_then bootstrap_profile_def
    by (intro met_then met_call [OF w] flooding_calls [OF w] met_refl)
      (auto intro: met_then met_call [OF w] flooding_calls [OF w] met_refl)
  then show ?thesis
    unfolding handleAccountBootstrap_def by (intro met_then met_leased met_refl)
qed

lemma met_history:
  assumes w: "warning e account n se se'"
  shows "met account n (handleChatHistory e g w1 (Inr se) account j) (handleChatHistory e g w1 (Inr se') account j)"
proof -
  have "met account n (history_page e g (Inr se) account j l) (history_page e g (Inr se') account j l)" for g j l
    unfolding history_page_def call_then by (intro met_then [OF met_refl] met_call [OF w] flooding_calls [OF w])
  then show ?thesis
    unfolding handleChatHistory_def Let_def by (auto intro!: met_then met_leased met_refl)
qed

lemma met_contacts:
  assumes w: "warning e account n se se'"
  shows "met account n (handleContacts e g w1 (Inr se) account) (handleContacts e g w1 (Inr se') account)"
proof -
  have "met account n (contacts_snapshot e g (Inr se) account l) (contacts_snapshot e g (Inr se') account l)" for g l
    unfolding contacts_snapshot_def call_then by (intro met_then [OF met_refl] met_call [OF w] flooding_calls [OF w])
  then show ?thesis
    unfolding handleContacts_def by (auto intro!: met_then met_leased met_refl)
qed

lemma met_members:
  assumes w: "warning e account n se se'"
  shows "met account n (handleChatMembers e g w1 (Inr se) account j) (handleChatMembers e g w1 (Inr se') account j)"
proof -
  have "met account n (members_page e g (Inr se) account j l start) (members_page e g (Inr se') account j l start)" for g j l start
    unfolding members_page_def call_then by (intro met_then [OF met_refl] met_call [OF w] flooding_calls [OF w])
  then show ?thesis
    unfolding handleChatMembers_def Let_def by (auto intro!: met_then met_leased met_refl split: option.split)
qed

lemma met_media:
  assumes w: "warning e account n se se'"
  shows "met account n (handleMediaDownload e put w1 (Inr se) account j) (handleMediaDownload e put w1 (Inr se') account j)"
proof -
  have "met account n (media_fetch e se account j f) (media_fetch e se' account j f)" for f
    unfolding media_fetch_def by (intro met_marking met_call [OF w] flooding_calls [OF w])
  moreover have "met account n (telegram e account (q c m u k)) (telegram e account (q' c m u k))"
    if "se_resolve se = Some q" for q q' :: "int \<Rightarrow> int \<Rightarrow> string \<Rightarrow> string \<Rightarrow> int result" and c m u k
    by (rule met_telegram) (use w flooding_calls(7) [OF w that] in \<open>simp_all add: warning_def\<close>)
  then have "met account n (media_file e se account item f) (media_file e se' account item f)" for item f
    using w unfolding media_file_def warning_def
    by (cases "se_resolve se"; cases "se_resolve se'") (auto intro!: met_marking met_then met_refl)
  ultimately show ?thesis
    unfolding handleMediaDownload_def media_wanted_def media_claimed_def
    by (auto intro!: met_then met_refl split: option.split)
qed

lemma met_Handle:
  assumes "warning e (en_account v) n se se'" "live (en_account v) = Inr se" "live' (en_account v) = Inr se'"
  shows "met (en_account v) n (Handle e g put w live v) (Handle e g put w live' v)"
  unfolding Handle_def Let_def assms(2,3)
  by (auto intro!: met_then met_refl met_bootstrap met_history met_contacts met_members met_media assms(1))

text \<open>C18: A flood wait is respected by every job of the worker.  Take a run of any job whose session answers
  each call with 429 and \<open>n\<close> seconds, and suppose that an answer mattered: with some other session of
  the same kind the job runs differently.  Then the job fails, and is delivered again only after more
  than \<open>n\<close> seconds, unless recording the failure in the database failed, too.  And until one second
  more than \<open>n\<close> has passed, whatever jobs and requests do to the limiter meanwhile, no job of any kind
  uses any answer of Telegram for the account: its run is the same for all sessions.
\<close>

theorem flood_wait_respected:
  assumes w: "warning e (en_account v) n se se'" "live (en_account v) = Inr se" "live' (en_account v) = Inr se'"
    and run: "Handle e g put w1 live v s = (r, s')" and called: "Handle e g put w1 live' v s \<noteq> (r, s')"
    and between: "redis_step\<^sup>*\<^sup>* (wd_redis (wk_world s')) (wd_redis (wk_world s2))"
    and soon: "ms_now (wk_world s2) < ms_now (wk_world s') + n * 1000 + 1000"
    and other: "en_account v2 = en_account v" "live1 (en_account v) = Inr se1" "live2 (en_account v) = Inr se2"
  shows "(\<exists>x. r = Inl x \<and> (late n x \<or> unsaved x))
    \<and> Handle e2 g2 put2 w2 live1 v2 s2 = Handle e2 g2 put2 w2 live2 v2 s2"
proof -
  have m: "(\<exists>x. r = Inl x \<and> (late n x \<or> unsaved x)) \<and> warned (en_account v) n s'"
    using met_Handle [of e v n se se' live live' g put w1, OF w] run called unfolding met_def by (metis prod.inject)
  then have "cooling_until (en_account v) (ms_now (wk_world s') + n * 1000 + 1000) (wd_redis (wk_world s2))"
    using cooldowns_last [OF between] by (simp add: warned_def)
  then have "cold (en_account v2) s2" using soon other(1) by (auto simp: cold_def)
  moreover have "deaf (en_account v2) (Handle e2 g2 put2 w2 live1 v2) (Handle e2 g2 put2 w2 live2 v2)"
    by (rule deaf_Handle) (use other in simp_all)
  ultimately show ?thesis using m unfolding deaf_def by blast
qed

section \<open>Concrete runs\<close>

definition demo_flood :: json where
  "demo_flood = td_request ''error'' [(''code'', JNum ''429''), (''message'', JStr ''Too Many Requests: retry after 5'')]"

text \<open>Two sessions: one answers every call with a flood wait, the other lists no contacts.\<close>

definition demo_flooded :: session where
  "demo_flooded = \<lparr>se_profile = Inl (tdError demo_flood), se_chats = (\<lambda>c l. Inl (tdError demo_flood)),
     se_history = (\<lambda>c b l. Inl (tdError demo_flood)), se_contacts = Inl (tdError demo_flood),
     se_members = (\<lambda>c k l. Inl (tdError demo_flood)), se_file = (\<lambda>f. Inl (tdError demo_flood)),
     se_resolve = None, se_search_chats = None, se_search_messages = None\<rparr>"

definition demo_answering :: session where
  "demo_answering = demo_flooded\<lparr>se_contacts := Inr []\<rparr>"

definition demo_contacts_job :: envelope where
  "demo_contacts_job = \<lparr>en_version = 1, en_job = ''j1'', en_kind = ''contacts.sync'', en_account = ''a1'',
     en_dedup = ''d1'', en_at = 1, en_payload = Some (JObj [])\<rparr>"

definition demo_job :: "session \<Rightarrow> unit result \<times> worker" where
  "demo_job se = Handle demo_env (\<lambda>p. ''g'') (\<lambda>k b n m. Inl []) ''w1'' (\<lambda>_. Inr se) demo_contacts_job idle_worker"

lemma demo_warning: "warning demo_env ''a1'' 5 demo_flooded demo_answering"
proof -
  have "num (fld demo_flood ''code'') = 429 \<and> 5 = flood_seconds (str (fld demo_flood ''message'')) \<and> \<not> blank ''a1''" by code_simp
  then show ?thesis
    by (auto simp: warning_def flooding_def flood_def demo_flooded_def demo_answering_def demo_env_def)
qed

lemma demo_dispatch: "demo_job se = handleContacts demo_env (\<lambda>p. ''g'') ''w1'' (Inr se) ''a1'' idle_worker"
proof -
  have "Validate demo_contacts_job = Inr ()" "decode_contacts (Some (JObj [])) = Inr ()" by code_simp+
  moreover obtain a where "account_served demo_env ''a1'' (wk_db idle_worker) = Inr a"
  proof -
    have "\<not> (case account_served demo_env ''a1'' (wk_db idle_worker) of Inl err \<Rightarrow> True | Inr a \<Rightarrow> False)" by code_simp
    then show ?thesis using that by (auto split: sum.splits)
  qed
  ultimately show ?thesis
    by (simp add: demo_job_def Handle_def Let_def and_then_def given_def permanently_def ask_db_def query_def demo_contacts_job_def kind_defs)
qed

text \<open>The job of the answering session leaves the cooldown alone; the other one sets it.\<close>

definition still :: "(worker, 'a) act \<Rightarrow> bool" where
  "still f = (\<forall>s. cooldowns (wd_redis (wk_world (snd (f s)))) = cooldowns (wd_redis (wk_world s)))"

lemma still_idle: "idle f \<Longrightarrow> still f"
  by (simp add: idle_def still_def)

lemma still_then: "still f \<Longrightarrow> (\<And>x. still (k x)) \<Longrightarrow> still (and_then f k)"
  unfolding still_def and_then_def by (intro allI) (simp split: prod.split sum.split, metis snd_conv)

lemma Allow_still: "Allow e now key l s = (r, s') \<Longrightarrow> cooldowns s' = cooldowns s"
  using Allow_cooldowns [of e now key l s] by simp

lemma check_still: "limit_check e key l w = (r, w') \<Longrightarrow> cooldowns (wd_redis w') = cooldowns (wd_redis w)"
  by (auto simp: limit_check_def dest: Allow_still split: prod.splits sum.splits)

lemma before_still: "beforeTelegram e account meth pol w = (r, w') \<Longrightarrow> cooldowns (wd_redis w') = cooldowns (wd_redis w)"
  by (auto simp: beforeTelegram_def and_then_def named_def read_cooldown_def query_def fail_with_def done_with_def
      dest!: check_still split: prod.splits sum.splits if_splits)

lemma still_before: "still (on_world (beforeTelegram e account meth pol))"
  by (auto simp: still_def on_world_def dest: before_still split: prod.split)

lemma still_leased:
  assumes "still f"
  shows "still (leased e l f)"
  unfolding still_def
proof
  fix s
  obtain r s1 where f: "f s = (r, s1)" by fastforce
  have 1: "cooldowns (wd_redis (wk_world s1)) = cooldowns (wd_redis (wk_world s))"
    using assms f unfolding still_def by (metis snd_conv)
  have 2: "cooldowns (wd_redis (wk_world (snd (failSync e l c s1)))) = cooldowns (wd_redis (wk_world s1))" for c
    using still_idle [OF failSync_idle] unfolding still_def by blast
  show "cooldowns (wd_redis (wk_world (snd (leased e l f s)))) = cooldowns (wd_redis (wk_world s))"
    using 1 2 by (cases r) (simp_all add: leased_def f)
qed

lemma still_each: "(\<And>k x. still (f k x)) \<Longrightarrow> still (each i f xs)"
  by (induction xs arbitrary: i) (auto intro!: still_then still_idle [OF idle_ops(5)])

lemmas still_ops = idle_ops [THEN still_idle] still_idle [OF idle_named [OF idle_ops(1)]] still_idle [OF audit_idle]

lemma demo_answering_still: "still (handleContacts e g w (Inr demo_answering) account)"
  unfolding handleContacts_def contacts_snapshot_def call_then acquireSyncLease_def
  by (auto intro!: still_then still_before still_leased still_each still_ops split: option.split simp: demo_answering_def telegram_def)

definition demo_acquired :: "sync_lease result \<times> worker" where
  "demo_acquired = acquireSyncLease demo_env (branch 0 (\<lambda>p. ''g'')) ''w1'' ''a1'' None ''contacts'' idle_worker"

lemma demo_flooded_warned: "warned ''a1'' 5 (snd (demo_job demo_flooded))"
proof -
  obtain l s1 where l: "demo_acquired = (Inr l, s1)"
  proof -
    have "\<not> (case fst demo_acquired of Inl err \<Rightarrow> True | Inr l \<Rightarrow> False)" by code_simp
    then obtain l where "fst demo_acquired = Inr l" by (cases "fst demo_acquired") simp_all
    then show ?thesis using that by (metis prod.collapse)
  qed
  obtain s2 where s2: "on_world (beforeTelegram demo_env ''a1'' ''list_contacts'' (pol_search DefaultPolicies)) s1 = (Inr (), s2)"
  proof -
    have "fst (beforeTelegram demo_env ''a1'' ''list_contacts'' (pol_search DefaultPolicies) (wk_world (snd demo_acquired))) = Inr ()"
      by code_simp
    then obtain w where "beforeTelegram demo_env ''a1'' ''list_contacts'' (pol_search DefaultPolicies) (wk_world s1) = (Inr (), w)"
      unfolding l snd_conv by (metis prod.collapse)
    then show ?thesis using that by (simp add: on_world_def)
  qed
  have fl: "flood 5 (se_contacts demo_flooded)" using demo_warning by (simp add: warning_def flooding_def)
  obtain x s3 where x: "telegram demo_env ''a1'' (se_contacts demo_flooded) s2 = (Inl x, s3)" "warned ''a1'' 5 s3"
    using telegram_flooded [OF fl, of "''a1''" demo_env s2] demo_warning by (auto simp: warning_def)
  let ?body = "contacts_snapshot demo_env (branch 1 (\<lambda>p. ''g'')) (Inr demo_flooded) ''a1'' l"
  have b: "?body s1 = (Inl x, s3)"
    unfolding contacts_snapshot_def call_then by (simp add: and_then_def s2 x(1))
  have "warned ''a1'' 5 (snd (failSync demo_env l x s3))" by (rule warned_idle [OF failSync_idle x(2)])
  moreover obtain y where "failSync demo_env l x s3 = (Inl y :: (nat \<times> nat) result, snd (failSync demo_env l x s3 :: (nat \<times> nat) result \<times> worker))"
    using failSync_error by blast
  then have "leased demo_env l ?body s1 = (Inl y, snd (failSync demo_env l x s3 :: (nat \<times> nat) result \<times> worker))"
    unfolding leased_def b by simp
  ultimately show ?thesis
    using l by (simp add: demo_dispatch handleContacts_def demo_acquired_def and_then_def)
qed

lemma demo_jobs_differ: "demo_job demo_answering \<noteq> demo_job demo_flooded"
proof
  assume eq: "demo_job demo_answering = demo_job demo_flooded"
  have "cooldowns (wd_redis (wk_world (snd (demo_job demo_answering)))) = Map.empty"
    using demo_answering_still unfolding still_def demo_dispatch by (simp add: idle_worker_def empty_redis_def)
  then show False using demo_flooded_warned unfolding eq [symmetric] by (simp add: warned_def cooling_until_def)
qed

theorem flood_wait_respected_witness:
  "\<exists>x s'. demo_job demo_flooded = (Inl x, s') \<and> (late 5 x \<or> unsaved x)
     \<and> Handle demo_env (\<lambda>p. ''h'') (\<lambda>k b n m. Inl []) ''w2'' (\<lambda>_. Inr demo_answering) demo_contacts_job s'
       = Handle demo_env (\<lambda>p. ''h'') (\<lambda>k b n m. Inl []) ''w2'' (\<lambda>_. Inr demo_flooded) demo_contacts_job s'"
proof -
  obtain r s' where run: "demo_job demo_flooded = (r, s')" by fastforce
  have acc: "en_account demo_contacts_job = ''a1''" by (simp add: demo_contacts_job_def)
  have called: "demo_job demo_answering \<noteq> (r, s')" using demo_jobs_differ run by simp
  show ?thesis
    using flood_wait_respected [of demo_env demo_contacts_job 5 demo_flooded demo_answering "\<lambda>_. Inr demo_flooded" "\<lambda>_. Inr demo_answering"
        "\<lambda>p. ''g''" "\<lambda>k b n m. Inl []" "''w1''" idle_worker r s' s' demo_contacts_job "\<lambda>_. Inr demo_answering" demo_answering
        "\<lambda>_. Inr demo_flooded" demo_flooded demo_env "\<lambda>p. ''h''" "\<lambda>k b n m. Inl []" "''w2''"]
      demo_warning run called by (auto simp: acc demo_job_def)
qed

end
