(* ===== verification/OnDemand.thy ===== *)
theory OnDemand
  imports JobTheorems
begin

text \<open>
  Reads on demand (\<open>internal/worker/ondemand.go\<close>): the API asks Telegram in the caller's own
  time, 45 seconds at most, and queues nothing.  A call that a limit refuses is waited for and
  made again, so time passes within a read: \<open>E\<close> gives the environment at each time of the
  worker's clock and \<open>live\<close> the account's session.  The lock of the account is held throughout.
\<close>

section \<open>Time\<close>

definition clock :: "worker \<Rightarrow> rat" where
  "clock s = wd_time (wk_world s)"

definition pass_time :: "rat \<Rightarrow> worker \<Rightarrow> worker" where
  "pass_time t s = s\<lparr>wk_world := (wk_world s)\<lparr>wd_time := clock s + t\<rparr>\<rparr>"

definition timed :: "(rat \<Rightarrow> 'a) \<Rightarrow> ('a \<Rightarrow> (worker, 'b) act) \<Rightarrow> (worker, 'b) act" where
  "timed E f = (\<lambda>s. f (E (clock s)) s)"

definition nanos :: "duration \<Rightarrow> rat" where
  "nanos d = of_int d / 1000000000"

lemma beforeTelegram_time: "wd_time (snd (beforeTelegram e account meth l w)) = wd_time w"
  by (auto simp: beforeTelegram_def and_then_def named_def read_cooldown_def query_def fail_with_def done_with_def
      limit_check_def split: prod.split sum.split)

lemma RetryDelay_pos: "RetryDelay err = Some d \<Longrightarrow> 0 < d"
  by (induction err) (auto split: if_splits)

lemma ceiling_less:
  assumes "0 < d" "nanos d < x"
  shows "nat \<lceil>(x - nanos d) * 1000000000\<rceil> < nat \<lceil>x * 1000000000\<rceil>"
proof -
  have "(x - nanos d) * 1000000000 = x * 1000000000 - of_int d" by (simp add: nanos_def algebra_simps)
  then have c: "\<lceil>(x - nanos d) * 1000000000\<rceil> = \<lceil>x * 1000000000\<rceil> - d" by (metis ceiling_diff_of_int)
  have "0 < nanos d" using assms(1) by (simp add: nanos_def)
  then have "0 < \<lceil>x * 1000000000\<rceil>" using assms(2) by simp
  then show ?thesis using c assms(1) by linarith
qed

section \<open>Calls that wait\<close>

definition call_policy :: "string \<Rightarrow> limit" where
  "call_policy meth =
     (if meth = ''search_chats'' \<or> meth = ''search_messages'' then pol_search DefaultPolicies else pol_history DefaultPolicies)"

definition od_before :: "(rat \<Rightarrow> env) \<Rightarrow> string \<Rightarrow> string \<Rightarrow> (worker, unit) act" where
  "od_before E account meth = timed E (\<lambda>e. on_world (beforeTelegram e account meth (call_policy meth)))"

lemma od_before_clock: "od_before E account meth s = (r, s') \<Longrightarrow> clock s' = clock s"
  using beforeTelegram_time by (auto simp: od_before_def timed_def on_world_def clock_def split: prod.splits) (metis snd_conv)

text \<open>\<open>call\<close>: ends because every wait is within the deadline.\<close>

function od_call :: "(rat \<Rightarrow> env) \<Rightarrow> string \<Rightarrow> string \<Rightarrow> rat \<Rightarrow> (worker, unit) act" where
  "od_call E account meth deadline s =
     (case od_before E account meth s of
        (Inr x, s') \<Rightarrow> (Inr x, s')
      | (Inl err, s') \<Rightarrow>
          (case RetryDelay err of
             None \<Rightarrow> (Inl err, s')
           | Some d \<Rightarrow>
               if deadline - clock s' \<le> nanos d then (Inl err, s')
               else od_call E account meth deadline (pass_time (nanos d) s')))"
  by pat_completeness auto
termination
proof (relation "measure (\<lambda>(E, account, meth, deadline, s). nat \<lceil>(deadline - clock s) * 1000000000\<rceil>)", simp, goal_cases)
  case (1 E account meth deadline s x s' err d)
  have c: "clock s' = clock s" using od_before_clock 1 by metis
  have "clock (pass_time (nanos d) s') = clock s + nanos d" by (simp add: pass_time_def clock_def c [unfolded clock_def])
  then show ?case
    using ceiling_less [OF RetryDelay_pos [OF 1(3)], of "deadline - clock s"] 1(4) c
    by (simp add: algebra_simps)
qed

declare od_call.simps [simp del]

lemma od_call_clock:
  "od_call E account meth deadline s = (r, s') \<Longrightarrow> clock s \<le> clock s' \<and> clock s' \<le> max deadline (clock s)"
proof (induction E account meth deadline s arbitrary: r s' rule: od_call.induct)
  case (1 E account meth deadline s)
  obtain q s1 where q: "od_before E account meth s = (q, s1)" by fastforce
  have c: "clock s1 = clock s" by (rule od_before_clock [OF q])
  show ?case
  proof (cases "\<exists>err d. q = Inl err \<and> RetryDelay err = Some d \<and> nanos d < deadline - clock s1")
    case True
    then obtain err d where d: "q = Inl err" "RetryDelay err = Some d" "nanos d < deadline - clock s1" by blast
    have p: "clock (pass_time (nanos d) s1) = clock s + nanos d" "0 < nanos d"
      using RetryDelay_pos [OF d(2)] by (simp_all add: pass_time_def clock_def c [unfolded clock_def] nanos_def)
    have "od_call E account meth deadline (pass_time (nanos d) s1) = (r, s')"
      using "1.prems" d by (simp add: od_call.simps [of _ _ _ _ s] q)
    then have "clock (pass_time (nanos d) s1) \<le> clock s' \<and> clock s' \<le> max deadline (clock (pass_time (nanos d) s1))"
      using "1.IH" [OF q [symmetric] d(1) d(2)] d(3) by simp
    then show ?thesis using p d(3) c by (simp add: max_def split: if_splits)
  next
    case False
    then have "s' = s1"
      using "1.prems" by (auto simp: od_call.simps [of _ _ _ _ s] q split: sum.splits option.splits if_splits)
    then show ?thesis using c by simp
  qed
qed

section \<open>The values of a read (client.go)\<close>

record read_request =
  od_kind :: string
  od_chat :: string
  od_media :: string
  od_query :: string
  od_cursor :: string
  od_limit :: int
  od_mark :: int  \<comment> \<open>\<open>BeforeMessageID\<close>\<close>

record read_result =
  ot_messages :: "uuid list"
  ot_chats :: "uuid list"
  ot_next :: string

definition no_result :: read_result where
  "no_result = \<lparr>ot_messages = [], ot_chats = [], ot_next = []\<rparr>"

type_synonym live = "rat \<Rightarrow> session result"

definition od_ask :: "(rat \<Rightarrow> env) \<Rightarrow> live \<Rightarrow> string \<Rightarrow> (session \<Rightarrow> 'a result) \<Rightarrow> (worker, 'a) act" where
  "od_ask E live account f =
     (\<lambda>s. timed E (\<lambda>e. telegram e account (case live (clock s) of Inl err \<Rightarrow> Inl err | Inr se \<Rightarrow> f se)) s)"

section \<open>Storing what was read\<close>

definition storeChat :: "(rat \<Rightarrow> env) \<Rightarrow> uuids \<Rightarrow> string \<Rightarrow> tg_chat \<Rightarrow> (worker, uuid) act" where
  "storeChat E g account c = timed E (\<lambda>e. on_db (Chats.Upsert e (g [0]) (chat_of account (tc_type c) c)))"

definition stored_id :: "env \<Rightarrow> string \<Rightarrow> string \<Rightarrow> int \<Rightarrow> db \<Rightarrow> uuid result" where
  "stored_id e account chat i d =
     (if e_fail e ''ondemand.message'' then Inl (DbErr ''select'')
      else (case the_message e account chat i of
          None \<Rightarrow> Inl (DbErr ''invalid uuid'')
        | Some p \<Rightarrow> (case find p (messages d) of None \<Rightarrow> Inl NoRows | Some m \<Rightarrow> Inr (m_id m))))"

definition storeMessage :: "(rat \<Rightarrow> env) \<Rightarrow> uuids \<Rightarrow> string \<Rightarrow> string \<Rightarrow> tg_message \<Rightarrow> (worker, uuid) act" where
  "storeMessage E g account chat m =
     timed E (\<lambda>e. and_then (StoreMessage e g True account chat m) (\<lambda>_. ask_db (stored_id e account chat (tg_id m))))"

section \<open>Chats\<close>

text \<open>One page; an error of the list that has not loaded yet is waited for.\<close>

definition od_chat_page ::
    "(rat \<Rightarrow> env) \<Rightarrow> uuids \<Rightarrow> string \<Rightarrow> string \<Rightarrow> chat_page result \<Rightarrow> (worker, read_result) act" where
  "od_chat_page E g account c r =
     and_then (timed E (\<lambda>e. telegram e account r)) (\<lambda>page.
     and_then (each 0 (\<lambda>k x. storeChat E (branch k g) account x) (cpg_items page)) (\<lambda>ids.
       if cpg_next page \<noteq> [] \<and> cpg_next page = c then fail_with (Msg ''chat pagination did not advance'')
       else done_with (no_result\<lparr>ot_chats := ids, ot_next := cpg_next page\<rparr>)))"

definition chats_now :: "live \<Rightarrow> string \<Rightarrow> int \<Rightarrow> worker \<Rightarrow> chat_page result" where
  "chats_now live c n s = (case live (clock s) of Inl err \<Rightarrow> Inl err | Inr se \<Rightarrow> se_chats se c n)"

definition loading :: "chat_page result \<Rightarrow> bool" where
  "loading r = (case r of Inl err \<Rightarrow> errors_is err ChatListLoading | Inr _ \<Rightarrow> False)"

function od_chats ::
    "(rat \<Rightarrow> env) \<Rightarrow> live \<Rightarrow> uuids \<Rightarrow> string \<Rightarrow> string \<Rightarrow> int \<Rightarrow> rat \<Rightarrow> (worker, read_result) act" where
  "od_chats E live g account c n deadline s =
     (case od_call E account ''list_chats'' deadline s of
        (Inl err, s') \<Rightarrow> (Inl err, s')
      | (Inr x, s') \<Rightarrow>
          if \<not> loading (chats_now live c n s') then od_chat_page E g account c (chats_now live c n s') s'
          else if deadline - clock s' \<le> 15 / 100 then (Inl CtxDone, pass_time (max 0 (deadline - clock s')) s')
          else od_chats E live g account c n deadline (pass_time (15 / 100) s'))"
  by pat_completeness auto
termination
proof (relation "measure (\<lambda>(E, live, g, account, c, n, deadline, s). nat \<lceil>(deadline - clock s) * 1000000000\<rceil>)",
    simp, goal_cases)
  case (1 E live g account c n deadline s x s' u)
  have c: "clock s \<le> clock s'" using od_call_clock 1 by metis
  have p: "deadline - clock (pass_time (15 / 100) s') = deadline - clock s' - nanos 150000000"
    by (simp add: pass_time_def clock_def nanos_def)
  have "nat \<lceil>(deadline - clock s' - nanos 150000000) * 1000000000\<rceil> < nat \<lceil>(deadline - clock s') * 1000000000\<rceil>"
    by (rule ceiling_less) (use 1 in \<open>simp_all add: nanos_def\<close>)
  also have "\<dots> \<le> nat \<lceil>(deadline - clock s) * 1000000000\<rceil>"
    using c by (intro nat_mono ceiling_mono mult_right_mono) auto
  finally have "nat \<lceil>(deadline - clock (pass_time (15 / 100) s')) * 1000000000\<rceil>
      < nat \<lceil>(deadline - clock s) * 1000000000\<rceil>"
    unfolding p .
  then show ?case by simp
qed

declare od_chats.simps [simp del]

section \<open>Members\<close>

text \<open>\<open>pages\<close> is how many pages the deadline leaves time for.\<close>

fun od_members ::
    "nat \<Rightarrow> (rat \<Rightarrow> env) \<Rightarrow> live \<Rightarrow> uuids \<Rightarrow> string \<Rightarrow> string \<Rightarrow> int \<Rightarrow> time \<Rightarrow> string \<Rightarrow> rat
       \<Rightarrow> (worker, read_result) act" where
  "od_members 0 E live g account chat tg started c deadline = fail_with CtxDone"
| "od_members (Suc pages) E live g account chat tg started c deadline =
     and_then (od_call E account ''list_members'' deadline) (\<lambda>_.
     and_then (od_ask E live account (\<lambda>se. se_members se tg c 200)) (\<lambda>page.
     and_then (each 0 (\<lambda>k m. timed E (\<lambda>e. on_db (Members.Upsert e (g [pages, k]) account chat (member_of m))))
                 (mpg_items page)) (\<lambda>_.
       if mpg_next page = [] then
         and_then (timed E (\<lambda>e. on_db (Members.MarkNotSeenSince e account chat started))) (\<lambda>_. done_with no_result)
       else if mpg_next page = c then fail_with (Msg ''member pagination did not advance'')
       else od_members pages E live g account chat tg started (mpg_next page) deadline)))"

section \<open>Messages\<close>

text \<open>The messages of a page: the ids collected so far, and the oldest message read.\<close>

fun od_items ::
    "(rat \<Rightarrow> env) \<Rightarrow> uuids \<Rightarrow> string \<Rightarrow> string \<Rightarrow> int \<Rightarrow> int \<Rightarrow> tg_message list \<Rightarrow> uuid list \<Rightarrow> int
       \<Rightarrow> (worker, uuid list \<times> int) act" where
  "od_items E g account chat n b [] ids nxt = done_with (ids, nxt)"
| "od_items E g account chat n b (m # ms) ids nxt =
     (if tg_id m = 0 \<or> b \<noteq> 0 \<and> b \<le> tg_id m then od_items E g account chat n b ms ids nxt
      else and_then (storeMessage E (branch (length ids) g) account chat m) (\<lambda>i.
        (let ids' = ids @ [i]; nxt' = (if nxt = 0 \<or> tg_id m < nxt then tg_id m else nxt) in
         if int (length ids') = n + 1 then done_with (ids', nxt')
         else od_items E g account chat n b ms ids' nxt')))"

definition page_count :: "int \<Rightarrow> int \<Rightarrow> nat \<Rightarrow> int" where
  "page_count n b k = (let c = min 100 (n + 1 - int k) in if b \<noteq> 0 then min 100 (c + 1) else c)"

text \<open>One round of the loop; None when Telegram has no more messages.\<close>

definition od_page ::
    "(rat \<Rightarrow> env) \<Rightarrow> live \<Rightarrow> uuids \<Rightarrow> string \<Rightarrow> string \<Rightarrow> int \<Rightarrow> int \<Rightarrow> rat \<Rightarrow> uuid list \<Rightarrow> int
       \<Rightarrow> (worker, (uuid list \<times> int) option) act" where
  "od_page E live g account chat tg n deadline ids b =
     and_then (od_call E account ''chat_history'' deadline) (\<lambda>_.
     and_then (od_ask E live account (\<lambda>se. se_history se tg b (page_count n b (length ids)))) (\<lambda>items.
       if items = [] then done_with None
       else and_then (od_items E g account chat n b items ids b) (\<lambda>(ids', nxt).
         if nxt = b then fail_with (Msg ''history pagination did not advance'')
         else done_with (Some (ids', nxt)))))"

lemma od_items_grow:
  "od_items E g account chat n b ms ids nxt s = (Inr (ids', nxt'), s') \<Longrightarrow>
   length ids \<le> length ids' \<and> (length ids' = length ids \<longrightarrow> nxt' = nxt)
   \<and> (int (length ids) \<le> n \<longrightarrow> int (length ids') \<le> n + 1)"
proof (induction ms arbitrary: ids nxt s)
  case (Cons m ms)
  show ?case
  proof (cases "tg_id m = 0 \<or> b \<noteq> 0 \<and> b \<le> tg_id m")
    case True
    then show ?thesis using Cons by simp
  next
    case False
    let ?nxt = "if nxt = 0 \<or> tg_id m < nxt then tg_id m else nxt"
    obtain i s1 where st: "storeMessage E (branch (length ids) g) account chat m s = (Inr i, s1)"
      and r: "(if int (length ids) + 1 = n + 1 then done_with (ids @ [i], ?nxt)
           else od_items E g account chat n b ms (ids @ [i]) ?nxt) s1 = (Inr (ids', nxt'), s')"
      using Cons.prems False by (auto simp: and_then_ok Let_def)
    show ?thesis
    proof (cases "int (length ids) = n")
      case True
      then show ?thesis using r by auto
    next
      case other: False
      then have "od_items E g account chat n b ms (ids @ [i]) ?nxt s1 = (Inr (ids', nxt'), s')" using r by simp
      from Cons.IH [OF this] show ?thesis using other by auto
    qed
  qed
qed simp

lemma od_page_grow:
  assumes "od_page E live g account chat tg n deadline ids b s = (Inr (Some (ids', nxt)), s')"
  shows "length ids < length ids' \<and> (int (length ids) \<le> n \<longrightarrow> int (length ids') \<le> n + 1)"
proof -
  obtain items s1 where "od_items E g account chat n b items ids b s1 = (Inr (ids', nxt), s')" "nxt \<noteq> b"
    using assms by (auto simp: od_page_def and_then_ok split: if_splits)
  then show ?thesis using od_items_grow by (metis le_neq_implies_less)
qed

function od_messages ::
    "(rat \<Rightarrow> env) \<Rightarrow> live \<Rightarrow> uuids \<Rightarrow> string \<Rightarrow> string \<Rightarrow> int \<Rightarrow> int \<Rightarrow> rat \<Rightarrow> uuid list \<Rightarrow> int
       \<Rightarrow> (worker, read_result) act" where
  "od_messages E live g account chat tg n deadline ids b s =
     (if n + 1 \<le> int (length ids) then (Inr (no_result\<lparr>ot_messages := ids\<rparr>), s)
      else (case od_page E live g account chat tg n deadline ids b s of
          (Inl err, s') \<Rightarrow> (Inl err, s')
        | (Inr None, s') \<Rightarrow> (Inr (no_result\<lparr>ot_messages := ids\<rparr>), s')
        | (Inr (Some (ids', nxt)), s') \<Rightarrow> od_messages E live g account chat tg n deadline ids' nxt s'))"
  by pat_completeness auto
termination
proof (relation "measure (\<lambda>(E, live, g, account, chat, tg, n, deadline, ids, b, s). nat (n + 1 - int (length ids)))",
    simp, goal_cases)
  case (1 E live g account chat tg n deadline ids b s x s' u y ids' nxt)
  then have "od_page E live g account chat tg n deadline ids b s = (Inr (Some (ids', nxt)), s')" by simp
  from od_page_grow [OF this] show ?case using 1(1) by auto
qed

declare od_messages.simps [simp del]

section \<open>The read\<close>

definition od_profile :: "(rat \<Rightarrow> env) \<Rightarrow> live \<Rightarrow> string \<Rightarrow> rat \<Rightarrow> (worker, read_result) act" where
  "od_profile E live account deadline =
     and_then (od_call E account ''profile'' deadline) (\<lambda>_.
     and_then (od_ask E live account se_profile) (\<lambda>p.
     and_then (timed E (\<lambda>e. on_db (Activate e account (pr_user p) (pr_display p) (pr_username p))))
       (\<lambda>_. done_with no_result)))"

definition od_search_chats ::
    "(rat \<Rightarrow> env) \<Rightarrow> live \<Rightarrow> uuids \<Rightarrow> session \<Rightarrow> string \<Rightarrow> string \<Rightarrow> int \<Rightarrow> rat \<Rightarrow> (worker, read_result) act" where
  "od_search_chats E live g se account q n deadline =
     (case se_search_chats se of
        None \<Rightarrow> fail_with (Msg ''Telegram chat search unavailable'')
      | Some f \<Rightarrow>
          and_then (od_call E account ''search_chats'' deadline) (\<lambda>_.
          and_then (od_ask E live account (\<lambda>se. (case se_search_chats se of None \<Rightarrow> f | Some f \<Rightarrow> f) q n)) (\<lambda>cs.
          and_then (each 0 (\<lambda>k c. storeChat E (branch k g) account c) cs) (\<lambda>ids.
          done_with (no_result\<lparr>ot_chats := ids\<rparr>)))))"

definition od_search_messages ::
    "(rat \<Rightarrow> env) \<Rightarrow> live \<Rightarrow> uuids \<Rightarrow> session \<Rightarrow> string \<Rightarrow> string \<Rightarrow> int \<Rightarrow> string \<Rightarrow> int \<Rightarrow> rat
       \<Rightarrow> (worker, read_result) act" where
  "od_search_messages E live g se account chat tg q n deadline =
     (if chat = [] then fail_with (Msg ''chat_id is required'')
      else (case se_search_messages se of
        None \<Rightarrow> fail_with (Msg ''Telegram chat message search unavailable'')
      | Some f \<Rightarrow>
          and_then (od_call E account ''search_messages'' deadline) (\<lambda>_.
          and_then (od_ask E live account (\<lambda>se. (case se_search_messages se of None \<Rightarrow> f | Some f \<Rightarrow> f) tg q n)) (\<lambda>ms.
          and_then (each 0 (\<lambda>k m. storeMessage E (branch k g) account chat m) ms) (\<lambda>ids.
          done_with (no_result\<lparr>ot_messages := ids\<rparr>))))))"

definition od_media_read ::
    "(rat \<Rightarrow> env) \<Rightarrow> putter \<Rightarrow> string \<Rightarrow> live \<Rightarrow> string \<Rightarrow> string \<Rightarrow> (worker, read_result) act" where
  "od_media_read E put w live account media_id =
     timed E (\<lambda>e.
       and_then (ask_db (Media.GetActive e account media_id)) (\<lambda>item.
         (case mi_file item of
            None \<Rightarrow> fail_with (Msg ''media source unavailable'')
          | Some f \<Rightarrow>
              (\<lambda>s. and_then (handleMediaDownload e put w (live (clock s)) account
                      \<lparr>dj_media = mi_id item, dj_message = mi_message item, dj_file = f\<rparr>)
                    (\<lambda>_. done_with no_result) s))))"

definition od_target :: "env \<Rightarrow> string \<Rightarrow> string \<Rightarrow> db \<Rightarrow> int result" where
  "od_target e account chat d =
     (if chat = [] then Inr 0
      else if e_fail e ''ondemand.chat'' then Inl (DbErr ''select'')
      else (case (e_uuid e account, e_uuid e chat) of
          (Some a, Some c) \<Rightarrow>
            (case find (\<lambda>x. ch_account x = a \<and> ch_id x = c) (active_chats d) of
               None \<Rightarrow> Inl NoRows
             | Some x \<Rightarrow> Inr (ch_tg x))
        | _ \<Rightarrow> Inl (DbErr ''invalid uuid'')))"

definition od_read ::
    "(rat \<Rightarrow> env) \<Rightarrow> nat \<Rightarrow> uuids \<Rightarrow> string \<Rightarrow> live \<Rightarrow> string \<Rightarrow> read_request \<Rightarrow> int \<Rightarrow> rat \<Rightarrow> session \<Rightarrow> int
       \<Rightarrow> (worker, read_result) act" where
  "od_read E pages g w live account q n deadline se tg =
     (if od_kind q = ''profile'' then od_profile E live account deadline
      else if od_kind q = ''search_chats'' then od_search_chats E live g se account (od_query q) n deadline
      else if od_kind q = ''chats'' then
        and_then (given (ParseChatCursor (od_cursor q))) (\<lambda>_. od_chats E live g account (od_cursor q) n deadline)
      else if od_kind q = ''contacts'' then
        (\<lambda>s. and_then (timed E (\<lambda>e. handleContacts e g w (live (clock s)) account)) (\<lambda>_. done_with no_result) s)
      else if od_kind q = ''members'' then
        (\<lambda>s. od_members pages E live g account (od_chat q) tg (e_clock (E (clock s))) [] deadline s)
      else if od_kind q = ''messages'' then
        od_messages E live g account (od_chat q) tg n deadline [] (od_mark q)
      else if od_kind q = ''search_messages'' then
        od_search_messages E live g se account (od_chat q) tg (od_query q) n deadline
      else fail_with (Msg ''unsupported on-demand read''))"

definition read_limit :: "int \<Rightarrow> int" where
  "read_limit n = (if n < 1 \<or> 100 < n then 30 else n)"

definition refresh ::
    "(rat \<Rightarrow> env) \<Rightarrow> nat \<Rightarrow> uuids \<Rightarrow> putter \<Rightarrow> string \<Rightarrow> live \<Rightarrow> string \<Rightarrow> read_request \<Rightarrow> rat
       \<Rightarrow> (worker, read_result) act" where
  "refresh E pages g put w live account q deadline =
     and_then (timed E (\<lambda>e. ask_db (Accounts.GetActive e account))) (\<lambda>_.
     and_then (timed E (\<lambda>e. ask_db (od_target e account (od_chat q)))) (\<lambda>tg.
       if od_kind q = ''media'' then od_media_read E put w live account (od_media q)
       else and_then (\<lambda>s. given (live (clock s)) s) (\<lambda>se.
         od_read E pages g w live account q (read_limit (od_limit q)) deadline se tg)))"

text \<open>\<open>Refresh\<close>; \<open>locked\<close> tells whether the account's lock is free before the context ends.\<close>

definition Refresh ::
    "(rat \<Rightarrow> env) \<Rightarrow> nat \<Rightarrow> bool \<Rightarrow> uuids \<Rightarrow> putter \<Rightarrow> string \<Rightarrow> live \<Rightarrow> string \<Rightarrow> read_request
       \<Rightarrow> (worker, read_result) act" where
  "Refresh E pages locked g put w live account q =
     (\<lambda>s. if \<not> locked then (Inl CtxDone, s)
        else and_then (refresh E pages g put w live account q (clock s + 45)) (\<lambda>r.
             and_then (timed E (\<lambda>e. writeAudit e w account ''TELEGRAM_ON_DEMAND_READ'' ''telegram_account'' account
                                 (JObj [(''kind'', JStr (od_kind q))]))) (\<lambda>_. done_with r)) s)"

end
