(* ===== verification/ReadFrame.thy ===== *)
theory ReadFrame
  imports OnDemand
begin

text \<open>
  What holds across a read on demand.  The interface \<open>read_steps\<close> lists the steps a read is made
  of: the two operations that touch messages, those that keep the messages and the tables of
  access control, waiting, and steps outside the database.  A relation between the states of
  the worker that every step respects holds across the whole read.
\<close>

section \<open>Operations that keep messages and access control\<close>

definition kept_tables where
  "kept_tables d = (messages d, permissions d, tokens d, clients d, sessions d, tickets d)"

definition aside :: "db \<Rightarrow> db \<Rightarrow> bool" where
  "aside d d' = (kept_tables d' = kept_tables d)"

lemma kept_tables_simps [simp]:
  "kept_tables (d\<lparr>media_rows := ms\<rparr>) = kept_tables d" "kept_tables (d\<lparr>chats := cs\<rparr>) = kept_tables d"
  "kept_tables (d\<lparr>members := bs\<rparr>) = kept_tables d" "kept_tables (d\<lparr>contacts := ts\<rparr>) = kept_tables d"
  "kept_tables (d\<lparr>sync_states := ss\<rparr>) = kept_tables d" "kept_tables (d\<lparr>audit_logs := als\<rparr>) = kept_tables d"
  "kept_tables (d\<lparr>accounts := as\<rparr>) = kept_tables d"
  by (simp_all add: kept_tables_def)

lemma aside_refl [simp]: "aside d d"
  by (simp add: aside_def)

named_theorems aside_ops

lemma activate_aside [aside_ops]: "aside d (snd (Activate e a t dn u d))"
  by (simp add: aside_def Activate_def Let_def split: option.split)

lemma upsert_chat_kept: "upsert_chat new d = (r, d') \<Longrightarrow> kept_tables d' = kept_tables d"
  by (auto simp: upsert_chat_def split: option.splits if_splits)

lemma chat_aside [aside_ops]: "aside d (snd (Chats.Upsert e i c d))"
  by (auto simp: aside_def Chats.Upsert_def Let_def split: option.split sum.split prod.split dest: upsert_chat_kept)

lemma upsert_member_kept: "upsert_member new d = (r, d') \<Longrightarrow> kept_tables d' = kept_tables d"
  by (auto simp: upsert_member_def split: option.splits if_splits)

lemma member_aside [aside_ops]: "aside d (snd (Members.Upsert e i a c m d))"
  by (auto simp: aside_def Members.Upsert_def Let_def split: option.split sum.split prod.split dest: upsert_member_kept)

lemma mark_members_aside [aside_ops]: "aside d (snd (Members.MarkNotSeenSince e a c t d))"
  by (simp add: aside_def Members.MarkNotSeenSince_def delete_members_def Let_def split: option.split)

lemma upsert_contact_kept: "upsert_contact new d = (r, d') \<Longrightarrow> kept_tables d' = kept_tables d"
  by (auto simp: upsert_contact_def split: option.splits if_splits)

lemma contact_aside [aside_ops]: "aside d (snd (Contacts.Upsert e i a c p d))"
  by (auto simp: aside_def Contacts.Upsert_def Let_def split: option.split sum.split prod.split dest: upsert_contact_kept)

lemma mark_contacts_aside [aside_ops]: "aside d (snd (Contacts.MarkMissingDeleted e a seen d))"
  by (simp add: aside_def Contacts.MarkMissingDeleted_def Let_def split: option.split)

lemma ensure_aside [aside_ops]: "aside d (snd (Ensure e i a c ty d))"
  by (simp add: aside_def Ensure_def insert_state_def Let_def split: option.split sum.split prod.split)

lemma acquire_aside [aside_ops]: "aside d (snd (SyncState.Acquire e tok i own ttl d))"
  by (simp add: aside_def SyncState.Acquire_def Let_def split: option.split)

lemma lease_ops_aside [aside_ops]:
  "aside d (snd (Progress e l cur lo hi d))" "aside d (snd (Fail e l m w d))" "aside d (snd (Complete e l d))"
  by (simp_all add: Progress_def Fail_def Complete_def lease_exec_def aside_def Let_def)

lemma audit_aside [aside_ops]: "aside d (snd (Write e ev d))"
  by (auto simp: aside_def Write_def insert_audit_def Let_def split: option.split sum.split prod.split)

lemma update_media_kept: "update_media e lab what i p f d = (r, d') \<Longrightarrow> kept_tables d' = kept_tables d"
  by (auto simp: update_media_def Let_def split: option.splits if_splits)

lemma insert_media_kept: "insert_media new d = (r, d') \<Longrightarrow> kept_tables d' = kept_tables d"
  by (auto simp: insert_media_def split: if_splits)

lemma register_aside [aside_ops]: "aside d (snd (RegisterPending e i k msg fl u mi na fs d))"
  by (auto simp: aside_def RegisterPending_def insert_media_def Let_def split: option.split sum.split prod.split)

lemma media_aside [aside_ops]:
  "aside d (snd (MarkFailed e i m d))" "aside d (snd (ClaimDownloadRecoverable e i n d))"
  "aside d (snd (MarkReady e i key mime n h d))"
  by (auto simp: aside_def MarkFailed_def ClaimDownloadRecoverable_def MarkReady_def Let_def
      split: sum.split prod.split dest: update_media_kept)
    (metis prod.collapse update_media_kept)

lemma store_aside: "aside d (snd (snd (StoreDownload e put account i rd n mime (st, d))))"
  using media_aside
  by (auto simp: StoreDownload_def Let_def split: option.split sum.split prod.split) (metis snd_conv)+

lemma telegramError_time: "wd_time (snd (telegramError e account err w)) = wd_time w"
  by (auto simp: telegramError_def split: option.split prod.split sum.split)

lemma timed_keeps: "(\<And>e. keeps R (f e)) \<Longrightarrow> keeps R (timed E f)"
  by (simp add: keeps_def timed_def)

lemma here_keeps: "(\<And>x. keeps R (f x)) \<Longrightarrow> keeps R (\<lambda>s. f (h s) s)"
  by (simp add: keeps_def)

section \<open>Reads within an interface\<close>

text \<open>\<open>C\<close> tells which ids fresh message rows may get, \<open>dl\<close> is the deadline.\<close>

locale read_steps =
  fixes R :: "worker \<Rightarrow> worker \<Rightarrow> bool" and C :: "uuid \<Rightarrow> bool" and dl :: rat
  assumes refl: "reflp R" and trans: "transp R"
    and step_aside: "wk_bus s' = wk_bus s \<Longrightarrow> clock s' = clock s \<Longrightarrow> aside (wk_db s) (wk_db s') \<Longrightarrow> R s s'"
    and on_upsert: "C i \<Longrightarrow> keeps R (on_db (Messages.Upsert e i m))"
    and on_tombstones: "keeps R (on_db (ApplyTombstones e account chat))"
    and waits: "0 \<le> t \<Longrightarrow> clock s + t \<le> max dl (clock s) \<Longrightarrow> R s (pass_time t s)"
begin

lemma on_aside:
  assumes "\<And>d. aside d (snd (f d))"
  shows "keeps R (on_db f)"
  unfolding keeps_def
proof
  fix s :: worker
  obtain r d where f: "f (wk_db s) = (r, d)" by fastforce
  then have "aside (wk_db s) d" using assms by (metis snd_conv)
  then show "R s (snd (on_db f s))" by (intro step_aside) (simp_all add: on_db_def f set_db_def clock_def)
qed

lemma on_outside:
  assumes "\<And>w. wd_db (snd (h w)) = wd_db w \<and> wd_time (snd (h w)) = wd_time w"
  shows "keeps R (on_world h)"
  unfolding keeps_def
proof
  fix s :: worker
  show "R s (snd (on_world h s))"
    using assms [of "wk_world s"] by (intro step_aside) (auto simp: on_world_def clock_def split: prod.split)
qed

lemma on_file:
  assumes "\<And>st d. aside d (snd (snd (k (st, d))))"
  shows "keeps R (on_media k)"
  unfolding keeps_def
proof
  fix s :: worker
  obtain r st d where k: "k (wk_store s, wk_db s) = (r, st, d)" using prod_cases3 by blast
  then have "aside (wk_db s) d" using assms by (metis snd_conv)
  then show "R s (snd (on_media k s))" by (intro step_aside) (simp_all add: on_media_def k set_db_def clock_def)
qed

lemma steps_telegram: "keeps R (telegram e account r)"
  by (cases r) (simp_all add: telegram_def on_outside telegram_error_db telegramError_time keeps_simple [OF refl])

lemma keeps_before: "keeps R (on_world (beforeTelegram e account meth pol))"
  by (rule on_outside) (simp add: before_db beforeTelegram_time)

lemma keeps_db: "(\<And>d. aside d (snd (f d))) \<Longrightarrow> keeps R (timed E (\<lambda>e. on_db f))"
  by (rule timed_keeps) (rule on_aside)

lemmas ops = on_aside [OF activate_aside] on_aside [OF chat_aside] on_aside [OF member_aside] on_aside [OF mark_members_aside]
  on_aside [OF contact_aside] on_aside [OF mark_contacts_aside] on_aside [OF ensure_aside] on_aside [OF acquire_aside]
  on_aside [OF lease_ops_aside(1)] on_aside [OF lease_ops_aside(2)] on_aside [OF lease_ops_aside(3)]
  on_aside [OF audit_aside] on_aside [OF register_aside] on_aside [OF media_aside(1)] on_aside [OF media_aside(2)]
  on_file [OF store_aside] keeps_simple [OF refl] keeps_given [OF refl] keeps_then [OF trans]
  keeps_each [OF refl trans] on_upsert on_tombstones keeps_before steps_telegram timed_keeps

lemma keeps_ask_db: "keeps R (ask_db q)"
  unfolding ask_db_def by (rule keeps_simple(3) [OF refl])

lemma call_step: "t = dl \<Longrightarrow> R s (snd (od_call E account meth t s))"
proof (induction E account meth t s rule: od_call.induct)
  case (1 E account meth t s)
  note at = waits [folded "1.prems"]
  obtain q s1 where q: "od_before E account meth s = (q, s1)" by fastforce
  have p: "R s s1"
    using keepsD [OF timed_keeps [OF keeps_before] q [unfolded od_before_def]] .
  show ?case
  proof (cases "\<exists>err d. q = Inl err \<and> RetryDelay err = Some d \<and> nanos d < t - clock s1")
    case True
    then obtain err d where d: "q = Inl err" "RetryDelay err = Some d" "nanos d < t - clock s1" by blast
    have "R (pass_time (nanos d) s1) (snd (od_call E account meth t (pass_time (nanos d) s1)))"
      using "1.IH" [OF q [symmetric] d(1) d(2) _ "1.prems"] d(3) by simp
    moreover have "od_call E account meth t s = od_call E account meth t (pass_time (nanos d) s1)"
      using d by (simp add: od_call.simps [of _ _ _ _ s] q)
    moreover have "R s1 (pass_time (nanos d) s1)"
      using RetryDelay_pos [OF d(2)] d(3) by (intro at) (simp_all add: nanos_def)
    ultimately show ?thesis using p transpD [OF trans] by metis
  next
    case False
    then have "snd (od_call E account meth t s) = s1"
      by (auto simp: od_call.simps [of _ _ _ _ s] q split: sum.splits option.splits)
    then show ?thesis using p by simp
  qed
qed

lemma keeps_call: "keeps R (od_call E account meth dl)"
  by (simp add: keeps_def call_step)

lemma steps_ask: "keeps R (od_ask E live account f)"
  by (simp add: od_ask_def timed_def keeps_def steps_telegram [unfolded keeps_def, rule_format])

lemma keeps_store: "(\<And>p. C (g p)) \<Longrightarrow> keeps R (StoreMessage e g True account chat m)"
  unfolding StoreMessage_def registerMedia_def by (auto intro!: ops)

lemma keeps_store_message: "(\<And>p. C (g p)) \<Longrightarrow> keeps R (storeMessage E g account chat m)"
  unfolding storeMessage_def by (intro timed_keeps keeps_then [OF trans] keeps_store keeps_ask_db)

lemma keeps_store_chat: "keeps R (storeChat E g account c)"
  unfolding storeChat_def by (intro timed_keeps on_aside chat_aside)

lemmas keeps_stores = keeps_store_message keeps_store_chat

lemma keeps_items: "(\<And>p. C (g p)) \<Longrightarrow> keeps R (od_items E g account chat n b ms ids nxt)"
  by (induction ms arbitrary: ids nxt) (auto intro!: ops keeps_stores simp: Let_def branch_def)

lemma keeps_page: "(\<And>p. C (g p)) \<Longrightarrow> keeps R (od_page E live g account chat tg n dl ids b)"
  unfolding od_page_def by (auto intro!: ops keeps_call steps_ask keeps_items split: prod.split)

lemma messages_step:
  "t = dl \<Longrightarrow> (\<And>p. C (g p)) \<Longrightarrow> R s (snd (od_messages E live g account chat tg n t ids b s))"
proof (induction E live g account chat tg n t ids b s rule: od_messages.induct)
  case (1 E live g account chat tg n t ids b s)
  obtain q s1 where q: "od_page E live g account chat tg n t ids b s = (q, s1)" by fastforce
  have p: "R s s1" using keepsD [OF keeps_page [folded "1.prems"(1)] q] "1.prems"(2) .
  show ?case
  proof (cases "n + 1 \<le> int (length ids)")
    case True
    then show ?thesis using refl by (simp add: od_messages.simps [of _ _ _ _ _ _ _ _ _ _ s] reflp_def)
  next
    case False
    show ?thesis
    proof (cases "\<exists>ids' nxt. q = Inr (Some (ids', nxt))")
      case True
      then obtain ids' nxt where r: "q = Inr (Some (ids', nxt))" by blast
      have "R s1 (snd (od_messages E live g account chat tg n t ids' nxt s1))"
        by (rule "1.IH" [OF False q [symmetric] r]) (simp_all add: "1.prems")
      then show ?thesis
        using False p transpD [OF trans p] by (simp add: od_messages.simps [of _ _ _ _ _ _ _ _ _ _ s] q r)
    next
      case none: False
      then have "snd (od_messages E live g account chat tg n t ids b s) = s1"
        using False by (auto simp: od_messages.simps [of _ _ _ _ _ _ _ _ _ _ s] q split: sum.splits option.splits)
      then show ?thesis using p by simp
    qed
  qed
qed

lemma keeps_messages: "(\<And>p. C (g p)) \<Longrightarrow> keeps R (od_messages E live g account chat tg n dl ids b)"
  by (simp add: keeps_def messages_step)

lemma keeps_members: "keeps R (od_members pages E live g account chat tg started c dl)"
  by (induction pages arbitrary: c) (auto intro!: ops keeps_call steps_ask)

lemma keeps_chat_page: "keeps R (od_chat_page E g account c r)"
  unfolding od_chat_page_def by (auto intro!: ops keeps_store_chat)

lemma chats_step:
  "t = dl \<Longrightarrow> R s (snd (od_chats E live g account c n t s))"
proof (induction E live g account c n t s rule: od_chats.induct)
  case (1 E live g account c n t s)
  note at = waits [folded "1.prems"]
  obtain q s1 where q: "od_call E account ''list_chats'' t s = (q, s1)" by fastforce
  have p: "R s s1" using keepsD [OF keeps_call [folded "1.prems"] q] .
  note step = od_chats.simps [of E live g account c n t s, unfolded q prod.case]
  show ?case
  proof (cases q)
    case (Inl err)
    then show ?thesis using p unfolding step by simp
  next
    case (Inr u)
    show ?thesis
    proof (cases "loading (chats_now live c n s1)")
      case False
      have "R s1 (snd (od_chat_page E g account c (chats_now live c n s1) s1))"
        using keeps_chat_page [unfolded keeps_def] by blast
      from transpD [OF trans p this] show ?thesis unfolding step Inr using False by simp
    next
      case True
      show ?thesis
      proof (cases "t - clock s1 \<le> 15 / 100")
        case over: True
        have "R s1 (pass_time (max 0 (t - clock s1)) s1)" by (rule at) auto
        from transpD [OF trans p this] show ?thesis unfolding step Inr using True over by simp
      next
        case again: False
        have "R s1 (pass_time (15 / 100) s1)" by (rule at) (use again in auto)
        from transpD [OF trans p this]
        have a: "R s (pass_time (15 / 100) s1)" .
        have "R (pass_time (15 / 100) s1) (snd (od_chats E live g account c n t (pass_time (15 / 100) s1)))"
          by (rule "1.IH" [OF q [symmetric] Inr]) (use True again "1.prems" in auto)
        from transpD [OF trans a this] show ?thesis unfolding step Inr using True again by simp
      qed
    qed
  qed
qed

lemma keeps_chats: "keeps R (od_chats E live g account c n dl)"
  by (simp add: keeps_def chats_step)

lemma steps_named: "keeps R f \<Longrightarrow> keeps R (named m f)"
  by (auto simp: keeps_def named_def split: prod.split sum.split) (metis snd_conv)+

lemma steps_failSync: "keeps R (failSync e l cause)"
  unfolding keeps_def
proof
  fix s :: worker
  obtain r s1 where f: "on_db (Fail e l (Some (err_text cause)) (case RetryDelay cause of Some d \<Rightarrow> d | None \<Rightarrow> 15 * second_ns)) s = (r, s1)"
    by fastforce
  have "R s s1" by (rule keepsD [OF on_aside [OF lease_ops_aside(2)] f])
  then show "R s (snd (failSync e l cause s))"
    by (cases r) (simp_all add: failSync_def Let_def f)
qed

lemma steps_leased:
  assumes "keeps R f"
  shows "keeps R (leased e l f)"
  unfolding keeps_def
proof
  fix s :: worker
  obtain r s1 where f: "f s = (r, s1)" by fastforce
  have "R s s1" by (rule keepsD [OF assms f])
  then show "R s (snd (leased e l f s))"
    by (cases r) (auto simp: leased_def f steps_failSync [unfolded keeps_def, rule_format] intro: transpD [OF trans])
qed

lemmas mark_step = on_aside [OF media_aside(1)]

lemma keeps_marking:
  assumes "keeps R f"
  shows "keeps R (marking e i f)"
  unfolding keeps_def
proof
  fix s :: worker
  obtain r s1 where f: "f s = (r, s1)" by fastforce
  have "R s s1" by (rule keepsD [OF assms f])
  then show "R s (snd (marking e i f s))"
    by (cases r) (auto simp: marking_def f mark_step [unfolded keeps_def, rule_format] intro: transpD [OF trans])
qed

lemmas job_ops = ops steps_named steps_leased keeps_marking keeps_ask_db

lemma keeps_contacts: "keeps R (handleContacts e g w sess account)"
  unfolding handleContacts_def acquireSyncLease_def contacts_snapshot_def allowed_call_def writeAudit_def
  by (auto intro!: job_ops split: option.split)

lemma keeps_not_claimed: "keeps R (media_not_claimed e account j)"
  by (auto simp: keeps_def media_not_claimed_def intro: reflpD [OF refl] split: sum.split)

lemma keeps_claimed: "keeps R (media_claimed e put w se account j item f)"
  unfolding media_claimed_def media_fetch_def media_file_def writeAudit_def
  by (auto intro!: job_ops split: option.split)

lemma keeps_media: "keeps R (handleMediaDownload e put w sess account j)"
  unfolding handleMediaDownload_def media_wanted_def
  by (auto intro!: job_ops keeps_not_claimed keeps_claimed split: option.split sum.split)

lemma keeps_reads:
  assumes "\<And>p. C (g p)"
  shows "keeps R (od_profile E live account dl)"
    and "keeps R (od_search_chats E live g se account t n dl)"
    and "keeps R (od_search_messages E live g se account chat tg t n dl)"
  using assms unfolding od_profile_def od_search_chats_def od_search_messages_def
  by (auto intro!: job_ops keeps_call steps_ask keeps_stores simp: branch_def split: option.split)

lemma keeps_later_media:
  "keeps R (\<lambda>s. and_then (handleMediaDownload e put w (live (clock s)) account j) (\<lambda>_. done_with r) s)"
  by (rule here_keeps) (intro keeps_then [OF trans] keeps_media keeps_simple [OF refl])

lemma keeps_media_read: "keeps R (od_media_read E put w live account media)"
  unfolding od_media_read_def
  by (intro timed_keeps keeps_then [OF trans] keeps_ask_db)
    (auto intro: job_ops keeps_later_media split: option.split)

lemma keeps_read:
  assumes fresh: "\<And>p. C (g p)"
  shows "keeps R (od_read E pages g w live account q n dl se tg)"
proof -
  have "keeps R (\<lambda>s. and_then (timed E (\<lambda>e. handleContacts e g w (live (clock s)) account))
      (\<lambda>_. done_with no_result) s)"
    by (rule here_keeps) (intro job_ops keeps_contacts)
  moreover have "keeps R (\<lambda>s. od_members pages E live g account (od_chat q) tg (e_clock (E (clock s))) [] dl s)"
    by (rule here_keeps) (rule keeps_members)
  ultimately show ?thesis
    unfolding od_read_def
    using fresh
    by (auto intro: keeps_then [OF trans keeps_given [OF refl]] keeps_reads keeps_chats keeps_messages job_ops)
qed

lemma keeps_refresh:
  assumes fresh: "\<And>p. C (g p)"
  shows "keeps R (refresh E pages g put w live account q dl)"
proof -
  have "keeps R (\<lambda>s. given (live (clock s)) s)" by (rule here_keeps) (rule keeps_given [OF refl])
  then show ?thesis
    unfolding refresh_def
    using fresh by (auto intro!: keeps_then [OF trans] timed_keeps keeps_ask_db keeps_media_read keeps_read)
qed

lemma Refresh_keeps:
  assumes "Refresh E pages locked g put w live account q s = (r, s')" "dl = clock s + 45" "\<And>p. C (g p)"
  shows "R s s'"
proof -
  let ?run = "and_then (refresh E pages g put w live account q dl) (\<lambda>r.
    and_then (timed E (\<lambda>e. writeAudit e w account ''TELEGRAM_ON_DEMAND_READ'' ''telegram_account'' account
        (JObj [(''kind'', JStr (od_kind q))]))) (\<lambda>_. done_with r))"
  have "keeps R ?run"
    unfolding writeAudit_def using assms(3) by (auto intro!: keeps_refresh job_ops)
  then show ?thesis
    using assms(1) reflpD [OF refl, of s]
    by (auto simp: Refresh_def keeps_def assms(2) split: if_splits) (metis snd_conv)
qed

end

end
