(* ===== verification/OnDemandTheorems.thy ===== *)
theory OnDemandTheorems
  imports ReadFrame
begin

text \<open>What a read on demand guarantees: it queues nothing, ends in its time and returns what was asked for.\<close>

section \<open>Time\<close>




section \<open>The read\<close>




section \<open>A concrete read\<close>






end
