(* ===== verification/Reads.thy ===== *)
theory Reads
  imports OnDemand Sending
begin

text \<open>
  The API's read handlers (\<open>internal/httpserver/api.go\<close>, \<open>people.go\<close>, \<open>profile_media.go\<close>,
  \<open>ondemand.go\<close>, \<open>demand_chats.go\<close>, \<open>chat_permissions.go\<close>) and their composition with the
  bearer check, the chat check and the mux (\<open>server.go\<close>).  A handler that refreshes from
  Telegram may take long, so it gets the environment of each moment, \<open>E\<close>.
\<close>

section \<open>Handlers as steps\<close>

text \<open>A step of a handler goes on with a value or answers the request.\<close>

type_synonym 'a web = "worker \<Rightarrow> (response + 'a) \<times> worker"

definition web_then :: "'a web \<Rightarrow> ('a \<Rightarrow> 'b web) \<Rightarrow> 'b web" where
  "web_then m f = (\<lambda>s. case m s of (Inl r, s') \<Rightarrow> (Inl r, s') | (Inr x, s') \<Rightarrow> f x s')"

definition web_done :: "'a \<Rightarrow> 'a web" where
  "web_done x = (\<lambda>s. (Inr x, s))"

definition refuse :: "response \<Rightarrow> 'a web" where
  "refuse r = (\<lambda>s. (Inl r, s))"

definition pass_check :: "response option \<Rightarrow> unit web" where
  "pass_check c = (case c of None \<Rightarrow> web_done () | Some r \<Rightarrow> refuse r)"

definition need :: "response \<Rightarrow> 'a option \<Rightarrow> 'a web" where
  "need r x = (case x of None \<Rightarrow> refuse r | Some y \<Rightarrow> web_done y)"

definition at_once :: "(rat \<Rightarrow> env) \<Rightarrow> (env \<Rightarrow> 'a web) \<Rightarrow> 'a web" where
  "at_once E f = (\<lambda>s. f (E (clock s)) s)"

text \<open>A read of the database; \<open>err\<close> is the answer to an error.\<close>

definition web_read :: "(go_err \<Rightarrow> response) \<Rightarrow> (db \<Rightarrow> 'a result) \<Rightarrow> 'a web" where
  "web_read err q = (\<lambda>s. case q (wk_db s) of Inl x \<Rightarrow> (Inl (err x), s) | Inr y \<Rightarrow> (Inr y, s))"

definition audited ::
    "(rat \<Rightarrow> env) \<Rightarrow> request \<Rightarrow> principal \<Rightarrow> string \<Rightarrow> string \<Rightarrow> string \<Rightarrow> json \<Rightarrow> unit web" where
  "audited E r p action ty rid meta =
     at_once E (\<lambda>e s. case auditRead e r p action ty rid meta (wk_db s) of
        (Some resp, d) \<Rightarrow> (Inl resp, set_db d s)
      | (None, d) \<Rightarrow> (Inr (), set_db d s))"

definition answer_web :: "response web \<Rightarrow> worker \<Rightarrow> response \<times> worker" where
  "answer_web m s = (case m s of (Inl r, s') \<Rightarrow> (r, s') | (Inr r, s') \<Rightarrow> (r, s'))"

section \<open>Refreshing (ondemand.go)\<close>

type_synonym sync = "(string \<Rightarrow> read_request \<Rightarrow> (worker, read_result) act) option"

definition refresh_error :: "go_err \<Rightarrow> response" where
  "refresh_error err =
     (if errors_is err NoRows then reply_error 404 ''resource not found''
      else reply_error 503 ''Telegram refresh unavailable; retry shortly'')"

definition on_demand_header :: "response \<Rightarrow> response" where
  "on_demand_header r = r\<lparr>rs_headers := (''X-Telegram-Sync'', ''on-demand'') # rs_headers r\<rparr>"

text \<open>\<open>refreshRead\<close>, with what the handler does after it.\<close>

definition refreshRead ::
    "sync \<Rightarrow> string \<Rightarrow> read_request \<Rightarrow> (read_result \<Rightarrow> response web) \<Rightarrow> response web" where
  "refreshRead sync account q k =
     (case sync of
        None \<Rightarrow> k no_result
      | Some f \<Rightarrow> (\<lambda>s. case f account q s of
            (Inl err, s') \<Rightarrow> (Inl (refresh_error err), s')
          | (Inr fresh, s') \<Rightarrow> (case k fresh s' of (x, s'') \<Rightarrow> (map_sum on_demand_header on_demand_header x, s''))))"

definition ask_for :: "string \<Rightarrow> int \<Rightarrow> read_request" where
  "ask_for kind limit =
     \<lparr>od_kind = kind, od_chat = [], od_media = [], od_query = [], od_cursor = [], od_limit = limit, od_mark = 0\<rparr>"

section \<open>Values in answers\<close>

definition some_member :: "string \<Rightarrow> ('a \<Rightarrow> json) \<Rightarrow> 'a option \<Rightarrow> (string \<times> json) list" where  \<comment> \<open>\<open>omitempty\<close>\<close>
  "some_member k f x = (case x of None \<Rightarrow> [] | Some y \<Rightarrow> [(k, f y)])"

definition full_object :: "json option \<Rightarrow> json option" where  \<comment> \<open>an empty map is left out\<close>
  "full_object x = (if x = Some (JObj []) then None else x)"

definition message_json :: "msg \<Rightarrow> json" where
  "message_json m = JObj (
     [(''id'', JStr (ms_id m)), (''account_id'', JStr (ms_account m)), (''chat_id'', JStr (ms_chat m)),
      (''telegram_message_id'', jint (ms_tg m))]
     @ some_member ''sender_telegram_id'' jint (ms_sender m)
     @ some_member ''sender_chat_id'' jint (ms_sender_chat m)
     @ [(''message_type'', JStr (ms_type m))]
     @ some_member ''content'' JStr (ms_content m)
     @ some_member ''content_entities'' JArr (if ms_entities m = Some [] then None else ms_entities m)
     @ some_member ''reply_to_message_id'' jint (ms_reply m)
     @ some_member ''forward_info'' (\<lambda>j. j) (full_object (ms_forward m))
     @ some_member ''raw_metadata'' (\<lambda>j. j) (full_object (ms_meta m))
     @ [(''sent_at'', JStr (rfc3339_nano (ms_sent m)))]
     @ some_member ''edited_at'' (\<lambda>t. JStr (rfc3339_nano t)) (ms_edited m))"

definition contact_json :: "contact_info \<Rightarrow> json" where
  "contact_json c = JObj (
     [(''id'', JStr (ki_id c)), (''telegram_user_id'', jint (ki_tg c))]
     @ some_member ''first_name'' JStr (ki_first c) @ some_member ''last_name'' JStr (ki_last c)
     @ some_member ''username'' JStr (ki_username c) @ [(''is_mutual'', JBool (ki_mutual c))]
     @ some_member ''metadata'' (\<lambda>j. j) (full_object (ki_meta c)))"

definition member_json :: "member_info \<Rightarrow> json" where
  "member_json m = JObj (
     [(''id'', JStr (bi_id m)), (''peer_type'', JStr (bi_peer_type m)), (''telegram_peer_id'', jint (bi_peer m))]
     @ some_member ''first_name'' JStr (bi_first m) @ some_member ''last_name'' JStr (bi_last m)
     @ some_member ''username'' JStr (bi_username m) @ some_member ''role'' JStr (bi_role m)
     @ some_member ''metadata'' (\<lambda>j. j) (full_object (bi_meta m))
     @ [(''last_seen_at'', JStr (rfc3339_nano (bi_last_seen m)))])"

definition chat_json :: "chat_info \<Rightarrow> json" where
  "chat_json c = JObj (
     [(''id'', JStr (ci_id c)), (''account_id'', JStr (ci_account c)), (''telegram_chat_id'', jint (ci_tg c)),
      (''chat_type'', JStr (ci_type c))]
     @ some_member ''title'' JStr (ci_title c) @ some_member ''username'' JStr (ci_username c)
     @ some_member ''photo_object_key'' JStr (ci_photo c) @ some_member ''metadata'' (\<lambda>j. j) (full_object (ci_meta c))
     @ some_member ''last_message_id'' jint (ci_last_id c)
     @ some_member ''last_message_at'' (\<lambda>t. JStr (rfc3339_nano t)) (ci_last_at c))"

definition counted :: "json list \<Rightarrow> (string \<times> json) list" where
  "counted items = [(''count'', jint (int (length items))), (''data'', JArr items)]"

definition failed_read :: "string \<Rightarrow> go_err \<Rightarrow> response" where
  "failed_read m = (\<lambda>_. reply_error 500 m)"

section \<open>Messages (api.go)\<close>

definition read_cursor :: "request \<Rightarrow> cursor option web" where
  "read_cursor r =
     (let raw = trim_space (query_get r ''cursor'') in
      if raw = [] then web_done None
      else (case DecodeCursor raw of
          Inl err \<Rightarrow> refuse (reply_error 400 ''invalid cursor'')
        | Inr c \<Rightarrow> web_done (Some c)))"

definition fresh_page :: "int \<Rightarrow> msg list \<Rightarrow> page result" where
  "fresh_page n items =
     (if int (length items) \<le> n then Inr \<lparr>pg_items = items, pg_next = []\<rparr>
      else (let kept = take (nat n) items; final = last kept in
            case EncodeCursor \<lparr>cu_sent = ms_sent final, cu_tg = ms_tg final\<rparr> of
              Inl err \<Rightarrow> Inl err
            | Inr nxt \<Rightarrow> Inr \<lparr>pg_items = kept, pg_next = nxt\<rparr>))"

definition message_page ::
    "env \<Rightarrow> bool \<Rightarrow> string \<Rightarrow> string \<Rightarrow> cursor option \<Rightarrow> int \<Rightarrow> uuid list \<Rightarrow> db \<Rightarrow> page result" where
  "message_page e synced account chat c n ids d =
     (if synced then (case ListActiveByIDs e account ids d of Inl err \<Rightarrow> Inl err | Inr items \<Rightarrow> fresh_page n items)
      else ListActivePageByChat e account chat c n d)"

definition listMessages :: "(rat \<Rightarrow> env) \<Rightarrow> sync \<Rightarrow> principal \<Rightarrow> request \<Rightarrow> response web" where
  "listMessages E sync p r =
     (let chat = trim_space (rq_wild r ''chatID'') in
      web_then (pass_check (requireScope p ''messages:read'')) (\<lambda>_.
      web_then (at_once E (\<lambda>e. need (reply_error 400 ''chat id is required'') (e_parse e chat))) (\<lambda>_.
      web_then (need limit_error (parseLimit r)) (\<lambda>n.
      web_then (read_cursor r) (\<lambda>c.
        refreshRead sync (p_account p)
          ((ask_for ''messages'' n)\<lparr>od_chat := chat, od_mark := (case c of None \<Rightarrow> 0 | Some k \<Rightarrow> cu_tg k)\<rparr>) (\<lambda>fresh.
        web_then (at_once E (\<lambda>e. web_read (failed_read ''failed to list messages'')
            (message_page e (sync \<noteq> None) (p_account p) chat c n (ot_messages fresh)))) (\<lambda>pg.
        web_then (audited E r p ''API_MESSAGES_READ'' ''chat'' chat
            (JObj [(''count'', jint (int (length (pg_items pg)))), (''has_more'', JBool (pg_next pg \<noteq> [])),
                   (''used_cursor'', JBool (c \<noteq> None))])) (\<lambda>_.
        web_done (reply 200 (JObj (counted (map message_json (pg_items pg)) @ [(''next_cursor'', JStr (pg_next pg))])))))))))))"

definition found_messages ::
    "env \<Rightarrow> locale_rules \<Rightarrow> bool \<Rightarrow> string \<Rightarrow> string \<Rightarrow> string \<Rightarrow> int \<Rightarrow> uuid list \<Rightarrow> db \<Rightarrow> msg list result" where
  "found_messages e lc synced account chat q n ids d =
     (if synced then ListActiveByIDs e account ids d else SearchActiveChat e lc account chat q n d)"

definition search_query :: "request \<Rightarrow> string web" where
  "search_query r =
     (let q = trim_space (query_get r ''q'') in
      if q = [] then refuse (reply_error 400 ''q is required'') else web_done q)"

definition searchMessages ::
    "(rat \<Rightarrow> env) \<Rightarrow> locale_rules \<Rightarrow> sync \<Rightarrow> principal \<Rightarrow> request \<Rightarrow> response web" where
  "searchMessages E lc sync p r =
     (let chat = query_get r ''chat_id'' in
      web_then (pass_check (requireScope p ''messages:search'')) (\<lambda>_.
      web_then (search_query r) (\<lambda>q.
      web_then (need limit_error (parseLimit r)) (\<lambda>n.
        refreshRead sync (p_account p) ((ask_for ''search_messages'' n)\<lparr>od_chat := chat, od_query := q\<rparr>) (\<lambda>fresh.
        web_then (at_once E (\<lambda>e. web_read (failed_read ''failed to search messages'')
            (found_messages e lc (sync \<noteq> None) (p_account p) chat q n (ot_messages fresh)))) (\<lambda>items.
        web_then (audited E r p ''API_MESSAGES_SEARCH'' ''message_collection'' []
            (JObj [(''count'', jint (int (length items)))])) (\<lambda>_.
        web_done (reply 200 (JObj (counted (map message_json items)))))))))))"

section \<open>People and the profile\<close>

definition status_text :: "acc_status \<Rightarrow> string" where
  "status_text x =
     (case x of Pending \<Rightarrow> ''pending'' | Active \<Rightarrow> ''active'' | Disconnected \<Rightarrow> ''disconnected'' | Blocked \<Rightarrow> ''blocked'')"

definition or_null :: "('a \<Rightarrow> json) \<Rightarrow> 'a option \<Rightarrow> json" where
  "or_null f x = (case x of None \<Rightarrow> JNull | Some y \<Rightarrow> f y)"

definition profile_json :: "account \<Rightarrow> json" where
  "profile_json a = JObj
     [(''account_id'', JStr (acc_id a)),
      (''connected_at'', or_null (\<lambda>t. JStr (rfc3339_nano t)) (acc_connected a)),
      (''display_name'', or_null JStr (acc_display a)),
      (''last_update_at'', or_null (\<lambda>t. JStr (rfc3339_nano t)) (acc_last_update a)),
      (''status'', JStr (status_text (acc_status a))),
      (''telegram_user_id'', or_null jint (acc_tg a)),
      (''username'', or_null JStr (acc_username a))]"

definition profile_error :: "go_err \<Rightarrow> response" where
  "profile_error err =
     (if errors_is err NoRows then reply_error 404 ''Telegram account not found''
      else reply_error 500 ''failed to read Telegram profile'')"

definition profile :: "(rat \<Rightarrow> env) \<Rightarrow> sync \<Rightarrow> principal \<Rightarrow> request \<Rightarrow> response web" where
  "profile E sync p r =
     web_then (pass_check (requireScope p ''profile:read'')) (\<lambda>_.
       refreshRead sync (p_account p) (ask_for ''profile'' 0) (\<lambda>_.
       web_then (at_once E (\<lambda>e. web_read profile_error (Accounts.GetActive e (p_account p)))) (\<lambda>a.
       web_then (audited E r p ''API_PROFILE_READ'' ''telegram_account'' (p_account p) (JObj [])) (\<lambda>_.
       web_done (reply 200 (JObj [(''data'', profile_json a)]))))))"

definition searchContacts ::
    "(rat \<Rightarrow> env) \<Rightarrow> locale_rules \<Rightarrow> sync \<Rightarrow> principal \<Rightarrow> request \<Rightarrow> response web" where
  "searchContacts E lc sync p r =
     web_then (pass_check (requireScope p ''contacts:read'')) (\<lambda>_.
     web_then (search_query r) (\<lambda>q.
     web_then (need limit_error (parseLimit r)) (\<lambda>n.
       refreshRead sync (p_account p) (ask_for ''contacts'' n) (\<lambda>_.
       web_then (at_once E (\<lambda>e. web_read (failed_read ''failed to search contacts'')
           (Contacts.SearchActive e lc (p_account p) q n))) (\<lambda>items.
       web_then (audited E r p ''API_CONTACTS_SEARCH'' ''contact_collection'' []
           (JObj [(''count'', jint (int (length items)))])) (\<lambda>_.
       web_done (reply 200 (JObj (counted (map contact_json items))))))))))"

text \<open>Handlers that no route reaches: \<open>listContacts\<close>, \<open>listChatMembers\<close>, \<open>listChats\<close>, \<open>searchChats\<close>.\<close>

definition listContacts :: "(rat \<Rightarrow> env) \<Rightarrow> locale_rules \<Rightarrow> principal \<Rightarrow> request \<Rightarrow> response web" where
  "listContacts E lc p r =
     web_then (pass_check (requireScope p ''contacts:read'')) (\<lambda>_.
     web_then (need limit_error (parseLimit r)) (\<lambda>n.
     web_then (at_once E (\<lambda>e. web_read (failed_read ''failed to list contacts'')
         (Contacts.ListActive e lc (p_account p) n))) (\<lambda>items.
     web_then (audited E r p ''API_CONTACTS_READ'' ''contact_collection'' []
         (JObj [(''count'', jint (int (length items)))])) (\<lambda>_.
     web_done (reply 200 (JObj (counted (map contact_json items))))))))"

definition listChatMembers :: "(rat \<Rightarrow> env) \<Rightarrow> locale_rules \<Rightarrow> principal \<Rightarrow> request \<Rightarrow> response web" where
  "listChatMembers E lc p r =
     (let chat = trim_space (rq_wild r ''chatID'') in
      web_then (pass_check (requireScope p ''members:read'')) (\<lambda>_.
      web_then (need (reply_error 400 ''chat id is required'') (if chat = [] then None else Some ())) (\<lambda>_.
      web_then (need limit_error (parseLimit r)) (\<lambda>n.
      web_then (at_once E (\<lambda>e. web_read (failed_read ''failed to list chat members'')
          (Members.ListActive e lc (p_account p) chat n))) (\<lambda>items.
      web_then (audited E r p ''API_CHAT_MEMBERS_READ'' ''chat'' chat
          (JObj [(''count'', jint (int (length items)))])) (\<lambda>_.
      web_done (reply 200 (JObj (counted (map member_json items))))))))))"

definition chats_read ::
    "(rat \<Rightarrow> env) \<Rightarrow> principal \<Rightarrow> request \<Rightarrow> string \<Rightarrow> chat_info list \<Rightarrow> response web" where
  "chats_read E p r action items =
     web_then (audited E r p action ''chat_collection'' [] (JObj [(''count'', jint (int (length items)))])) (\<lambda>_.
     web_done (reply 200 (JObj (counted (map chat_json items)))))"

definition listChats :: "(rat \<Rightarrow> env) \<Rightarrow> principal \<Rightarrow> request \<Rightarrow> response web" where
  "listChats E p r =
     web_then (pass_check (requireScope p ''chats:list'')) (\<lambda>_.
     web_then (need limit_error (parseLimit r)) (\<lambda>n.
     web_then (at_once E (\<lambda>e. web_read (failed_read ''failed to list chats'') (Chats.ListActive e (p_account p) n)))
       (chats_read E p r ''API_CHATS_READ'')))"

end
