(* ===== verification/Collections.thy ===== *)
theory Collections
  imports Reads TdSession
begin

text \<open>
  The collections of the API: the chats an owner allowed (\<open>chat_permissions.go\<close>), the paged
  views (\<open>paging.go\<close>), chats on demand (\<open>demand_chats.go\<close>) and the download links of attachments
  (\<open>media_download.go\<close>, \<open>profile_media.go\<close>); and the API as a whole (\<open>server.go\<close>).
\<close>

section \<open>Allowed chats (chat_permissions.go)\<close>

definition strpos :: "string \<Rightarrow> string \<Rightarrow> bool" where  \<comment> \<open>\<open>strpos(s, q) > 0\<close>\<close>
  "strpos s q = list_ex (\<lambda>i. take (length q) (drop i s) = q) [0..<Suc (length s)]"

text \<open>The chats of an account with the permission of each, after \<open>after\<close>, that match \<open>q\<close>.\<close>

definition permission_of :: "chat \<Rightarrow> db \<Rightarrow> permission option" where
  "permission_of c d = find (\<lambda>p. cp_chat p = ch_id c \<and> cp_account p = ch_account c) (permissions d)"

definition granted :: "permission option \<Rightarrow> bool" where
  "granted p = (case p of None \<Rightarrow> False | Some p \<Rightarrow> cp_read p \<or> cp_send p)"

definition chat_title_matches :: "locale_rules \<Rightarrow> string \<Rightarrow> chat \<Rightarrow> bool" where
  "chat_title_matches lc q c =
     (q = [] \<or> strpos (lc_lower lc (or_empty (ch_title c) @ '' '' @ or_empty (ch_username c))) (lc_lower lc q))"

definition allowed_rows ::
    "locale_rules \<Rightarrow> uuid \<Rightarrow> uuid option \<Rightarrow> string \<Rightarrow> int \<Rightarrow> db \<Rightarrow> (chat \<times> permission option) list" where
  "allowed_rows lc a after q n d =
     map (\<lambda>c. (c, permission_of c d))
       (order_by ch_id n (filter (\<lambda>c. ch_account c = a \<and> granted (permission_of c d)
             \<and> (case after of None \<Rightarrow> True | Some k \<Rightarrow> k < ch_id c) \<and> chat_title_matches lc q c) (active_chats d)))"

definition allowed_json :: "chat \<times> permission option \<Rightarrow> json" where
  "allowed_json x = (case x of (c, p) \<Rightarrow> JObj
     [(''id'', JStr (ch_id c)), (''title'', or_null JStr (ch_title c)), (''can_read'', JBool (case p of None \<Rightarrow> False | Some p \<Rightarrow> cp_read p)),
      (''can_send'', JBool (case p of None \<Rightarrow> False | Some p \<Rightarrow> cp_send p)), (''username'', or_null JStr (ch_username c)),
      (''chat_type'', JStr (ch_type c))])"

definition query_allowed ::
    "env \<Rightarrow> locale_rules \<Rightarrow> string \<Rightarrow> string option \<Rightarrow> string \<Rightarrow> int \<Rightarrow> db \<Rightarrow> (chat \<times> permission option) list result" where
  "query_allowed e lc account after q n d =
     (if e_fail e ''allowedChats'' \<or> \<not> pg_text q then Inl (DbErr ''select'')
      else (case (e_uuid e account, after) of
          (Some a, None) \<Rightarrow> Inr (allowed_rows lc a None q n d)
        | (Some a, Some k) \<Rightarrow>
            (case e_uuid e k of None \<Rightarrow> Inl (DbErr ''invalid uuid'') | Some u \<Rightarrow> Inr (allowed_rows lc a (Some u) q n d))
        | _ \<Rightarrow> Inl (DbErr ''invalid uuid'')))"

definition id_cursor :: "(rat \<Rightarrow> env) \<Rightarrow> request \<Rightarrow> string option web" where
  "id_cursor E r =
     (let c = query_get r ''cursor'' in
      if c = [] then web_done None
      else at_once E (\<lambda>e. if e_parse e c = None then refuse (reply_error 400 ''invalid cursor'') else web_done (Some c)))"

definition allowedChats :: "(rat \<Rightarrow> env) \<Rightarrow> locale_rules \<Rightarrow> principal \<Rightarrow> request \<Rightarrow> response web" where
  "allowedChats E lc p r =
     web_then (pass_check (requireScope p (if rq_path r = ''/v1/chats/search'' then ''chat:read'' else ''chats:list''))) (\<lambda>_.
     web_then (need limit_error (parseLimit r)) (\<lambda>n.
     web_then (id_cursor E r) (\<lambda>after.
     web_then (at_once E (\<lambda>e. web_read (failed_read ''chat lookup failed'')
         (query_allowed e lc (p_account p) after (trim_space (query_get r ''q'')) (n + 1)))) (\<lambda>rows.
       (let kept = take (nat n) rows;
            nxt = (if n < int (length rows) then ch_id (fst (rows ! (nat n - 1))) else []) in
        web_then (audited E r p ''API_ALLOWED_CHATS_READ'' ''chat_collection'' []
            (JObj [(''count'', jint (int (length kept)))])) (\<lambda>_.
        web_done (reply 200 (JObj (counted (map allowed_json kept) @ [(''next_cursor'', JStr nxt)])))))))))"

section \<open>Paged views (paging.go)\<close>

text \<open>
  The views are PostgreSQL's: of a row the model knows its id, its account and chat, the value
  of the order expression and what \<open>to_jsonb\<close> makes of it.
\<close>

record view_row =
  vr_id :: uuid
  vr_account :: uuid
  vr_chat :: "uuid option"
  vr_at :: time
  vr_json :: "(string \<times> json) list"

type_synonym views = "string \<Rightarrow> db \<Rightarrow> view_row list"

definition hidden_columns :: "string list" where
  "hidden_columns = [''phone_hash'', ''object_key'', ''telegram_file_id'', ''unique_file_key'', ''sha256'',
     ''last_error'', ''deleted'', ''deleted_at'']"

definition without :: "string list \<Rightarrow> (string \<times> json) list \<Rightarrow> json" where
  "without ks m = JObj (filter (\<lambda>x. fst x \<notin> set ks) m)"

record page_cursor =
  pc_id :: string
  pc_at :: time

definition page_cursor_text :: "page_cursor \<Rightarrow> string" where
  "page_cursor_text c = b64_encode (json_marshal (JObj [(''id'', JStr (pc_id c)), (''at'', JStr (rfc3339_nano (pc_at c)))]))"

definition read_page_cursor :: "env \<Rightarrow> string \<Rightarrow> page_cursor option" where
  "read_page_cursor e raw =
     (case Option.bind (Option.bind (b64_decode raw) unmarshal) members_of of
        None \<Rightarrow> None
      | Some m \<Rightarrow>
          (case (struct_field ''id'' dec_str [] m, struct_field ''at'' dec_time zero_time m) of
             (Some i, Some t) \<Rightarrow>
               if t = zero_time \<or> e_parse e i = None then None else Some \<lparr>pc_id = i, pc_at = t\<rparr>
           | _ \<Rightarrow> None))"

definition page_start :: "(rat \<Rightarrow> env) \<Rightarrow> request \<Rightarrow> page_cursor option web" where
  "page_start E r =
     (let raw = query_get r ''cursor'' in
      if raw = [] then web_done None
      else at_once E (\<lambda>e. web_then (need (reply_error 400 ''invalid cursor'') (read_page_cursor e raw)) (\<lambda>c. web_done (Some c))))"

definition view_rows ::
    "uuid \<Rightarrow> uuid option \<Rightarrow> (time \<times> uuid) option \<Rightarrow> int \<Rightarrow> view_row list \<Rightarrow> view_row list" where
  "view_rows a chat start n rows =
     order_by_desc (\<lambda>v. (vr_at v, vr_id v)) n
       (filter (\<lambda>v. vr_account v = a \<and> (chat \<noteq> None \<longrightarrow> vr_chat v = chat)
           \<and> (case start of None \<Rightarrow> True | Some k \<Rightarrow> (vr_at v, vr_id v) < k)) rows)"

definition read_uuid :: "env \<Rightarrow> string option \<Rightarrow> uuid option option" where  \<comment> \<open>a parameter that may be NULL\<close>
  "read_uuid e x = (case x of None \<Rightarrow> Some None | Some s \<Rightarrow> map_option Some (e_uuid e s))"

definition query_view ::
    "env \<Rightarrow> views \<Rightarrow> string \<Rightarrow> string \<Rightarrow> string option \<Rightarrow> page_cursor option \<Rightarrow> int \<Rightarrow> db \<Rightarrow> view_row list result" where
  "query_view e views view account chat start n d =
     (if e_fail e ''paged'' then Inl (DbErr ''select'')
      else (case (e_uuid e account, read_uuid e chat, read_uuid e (map_option pc_id start)) of
          (Some a, Some k, Some i) \<Rightarrow>
            Inr (view_rows a k (case (start, i) of (Some c, Some u) \<Rightarrow> Some (pc_at c, u) | _ \<Rightarrow> None) n (views view d))
        | _ \<Rightarrow> Inl (DbErr ''invalid uuid'')))"

definition view_kind :: "string \<Rightarrow> string" where
  "view_kind view =
     (if view = ''active_chats'' then ''chats'' else if view = ''active_contacts'' then ''contacts''
      else if view = ''active_chat_members'' then ''members'' else ''messages'')"

definition known_views :: "string list" where
  "known_views = [''active_chats'', ''active_contacts'', ''active_chat_members'', ''active_message_media'']"

definition view_page ::
    "(rat \<Rightarrow> env) \<Rightarrow> principal \<Rightarrow> request \<Rightarrow> string \<Rightarrow> int \<Rightarrow> view_row list \<Rightarrow> response web" where
  "view_page E p r view n rows =
     (let kept = take (nat n) rows;
          nxt = (if n < int (length rows)
                 then (let v = rows ! (nat n - 1) in page_cursor_text \<lparr>pc_id = vr_id v, pc_at = vr_at v\<rparr>) else []) in
      web_then (audited E r p ''API_COLLECTION_READ'' view (rq_wild r ''chatID'')
          (JObj [(''count'', jint (int (length kept)))])) (\<lambda>_.
      web_done (reply 200 (JObj (counted (map (\<lambda>v. without hidden_columns (vr_json v)) kept) @ [(''next_cursor'', JStr nxt)])))))"

definition paged ::
    "(rat \<Rightarrow> env) \<Rightarrow> views \<Rightarrow> sync \<Rightarrow> (int \<Rightarrow> response web) \<Rightarrow> string \<Rightarrow> string \<Rightarrow> bool \<Rightarrow> principal \<Rightarrow> request
       \<Rightarrow> response web" where
  "paged E views sync demand scope view by_chat p r =
     (let chat = rq_wild r ''chatID'' in
      web_then (pass_check (requireScope p scope)) (\<lambda>_.
      web_then (need limit_error (parseLimit r)) (\<lambda>n.
      if view = ''active_chats'' \<and> sync \<noteq> None then demand n
      else web_then (page_start E r) (\<lambda>start.
      web_then (need (reply_error 500 ''invalid collection'') (if view \<in> set known_views then Some () else None)) (\<lambda>_.
      web_then (at_once E (\<lambda>e. need (reply_error 400 ''invalid chat id'')
          (if by_chat \<and> e_parse e chat = None then None else Some ()))) (\<lambda>_.
        refreshRead sync (p_account p) ((ask_for (view_kind view) n)\<lparr>od_chat := chat\<rparr>) (\<lambda>_.
        web_then (at_once E (\<lambda>e. web_read (failed_read ''collection lookup failed'')
            (query_view e views view (p_account p) (if by_chat then Some chat else None) start (n + 1)))) (\<lambda>rows.
        view_page E p r view n rows))))))))"

section \<open>Chats on demand (demand_chats.go)\<close>

definition demand_cursor_text :: "string \<Rightarrow> string \<Rightarrow> string" where
  "demand_cursor_text account pos =
     b64_encode (json_marshal (JObj [(''v'', jint 1), (''a'', JStr account), (''p'', JStr pos)]))"

text \<open>A cursor is taken back only from the account it was given to.\<close>

definition read_demand_cursor :: "string \<Rightarrow> string \<Rightarrow> string option" where
  "read_demand_cursor account raw =
     (if 1024 < length raw then None
      else (case Option.bind (Option.bind (b64_decode raw) unmarshal) members_of of
        None \<Rightarrow> None
      | Some m \<Rightarrow>
          (case (struct_field ''v'' dec_int 0 m, struct_field ''a'' dec_str [] m, struct_field ''p'' dec_str [] m) of
             (Some v, Some a, Some pos) \<Rightarrow> if v = 1 \<and> a = account \<and> pos \<noteq> [] then Some pos else None
           | _ \<Rightarrow> None)))"

definition demand_start :: "principal \<Rightarrow> request \<Rightarrow> string web" where
  "demand_start p r =
     (let raw = query_get r ''cursor'' in
      if raw = [] then web_done []
      else web_then (need (reply_error 400 ''invalid cursor; restart list_chats without a cursor'')
             (read_demand_cursor (p_account p) raw)) (\<lambda>pos.
           case ParseChatCursor pos of
             Inl err \<Rightarrow> refuse (reply_error 400 ''invalid cursor'')
           | Inr x \<Rightarrow> web_done pos))"

definition fresh_chats ::
    "env \<Rightarrow> (chat \<Rightarrow> (string \<times> json) list) \<Rightarrow> string \<Rightarrow> uuid list \<Rightarrow> db \<Rightarrow> json list result" where
  "fresh_chats e row account ids d =
     (if ids = [] then Inr []
      else if e_fail e ''writeFreshChats'' then Inl (DbErr ''select'')
      else (case (e_uuid e account, those (map (e_uuid e) ids)) of
          (Some a, Some us) \<Rightarrow>
            Inr (map (\<lambda>c. without [''deleted'', ''deleted_at'', ''photo_object_key''] (row c))
              (concat (map (\<lambda>u. filter (\<lambda>c. ch_account c = a \<and> ch_id c = u) (active_chats d)) (rev (remdups (rev us))))))
        | _ \<Rightarrow> Inl (DbErr ''invalid uuid'')))"

definition writeFreshChats ::
    "(rat \<Rightarrow> env) \<Rightarrow> (chat \<Rightarrow> (string \<times> json) list) \<Rightarrow> principal \<Rightarrow> request \<Rightarrow> string \<Rightarrow> read_result
       \<Rightarrow> response web" where
  "writeFreshChats E row p r action fresh =
     web_then (at_once E (\<lambda>e. web_read (failed_read ''chat lookup failed'')
         (fresh_chats e row (p_account p) (ot_chats fresh)))) (\<lambda>items.
       (let nxt = (if ot_next fresh = [] then [] else demand_cursor_text (p_account p) (ot_next fresh)) in
        web_then (audited E r p action ''chat_collection'' []
            (JObj [(''count'', jint (int (length items))), (''has_more'', JBool (nxt \<noteq> []))])) (\<lambda>_.
        web_done (reply 200 (JObj (counted items @ [(''next_cursor'', JStr nxt)]))))))"

definition demandChats ::
    "(rat \<Rightarrow> env) \<Rightarrow> (chat \<Rightarrow> (string \<times> json) list) \<Rightarrow> sync \<Rightarrow> principal \<Rightarrow> request \<Rightarrow> int \<Rightarrow> response web" where
  "demandChats E row sync p r n =
     web_then (demand_start p r) (\<lambda>pos.
       refreshRead sync (p_account p) ((ask_for ''chats'' n)\<lparr>od_cursor := pos\<rparr>)
         (writeFreshChats E row p r ''API_CHATS_READ''))"

definition searchChats ::
    "(rat \<Rightarrow> env) \<Rightarrow> locale_rules \<Rightarrow> (chat \<Rightarrow> (string \<times> json) list) \<Rightarrow> sync \<Rightarrow> principal \<Rightarrow> request
       \<Rightarrow> response web" where
  "searchChats E lc row sync p r =
     web_then (pass_check (requireScope p ''chat:read'')) (\<lambda>_.
     web_then (search_query r) (\<lambda>q.
     web_then (need limit_error (parseLimit r)) (\<lambda>n.
       if sync \<noteq> None
       then refreshRead sync (p_account p) ((ask_for ''search_chats'' n)\<lparr>od_query := q\<rparr>)
              (writeFreshChats E row p r ''API_CHATS_SEARCH'')
       else web_then (at_once E (\<lambda>e. web_read (failed_read ''failed to search chats'')
              (Chats.SearchActive e lc (p_account p) q n)))
            (chats_read E p r ''API_CHATS_SEARCH''))))"

section \<open>Attachments (media_download.go, profile_media.go)\<close>

definition ready_error :: "go_err \<Rightarrow> response" where
  "ready_error err =
     (if errors_is err MediaNotReady then reply_error 409 ''media is not ready''
      else if errors_is err NoRows then reply_error 404 ''media not found''
      else reply_error 500 ''media lookup failed'')"

definition five_minutes :: time where
  "five_minutes = 5 * 60 * 1000000"

definition insert_ticket :: "env \<Rightarrow> ticket \<Rightarrow> db \<Rightarrow> db option" where
  "insert_ticket e t d =
     (if e_fail e ''mediaTicket'' \<or> tk_hash t \<in> tk_hash ` set (tickets d)
         \<or> tk_token t \<notin> at_hash ` set (tokens d) \<or> tk_media t \<notin> md_id ` set (media_rows d)
      then None else Some (d\<lparr>tickets := tickets d @ [t]\<rparr>))"

definition store_ticket :: "env \<Rightarrow> request \<Rightarrow> string \<Rightarrow> string \<Rightarrow> unit web" where
  "store_ticket e r media_id secret =
     (\<lambda>s. case map_option (\<lambda>i. insert_ticket e
             \<lparr>tk_hash = e_sha e secret,
              tk_token = e_sha e (case bearerToken (rq_header r ''Authorization'') of None \<Rightarrow> [] | Some t \<Rightarrow> t),
              tk_media = i, tk_expires = e_clock e + five_minutes\<rparr> (wk_db s)) (e_uuid e media_id) of
        Some (Some d) \<Rightarrow> (Inr (), set_db d s)
      | _ \<Rightarrow> (Inl (reply_error 500 ''could not create link''), s))"

text \<open>\<open>mediaTicket\<close>; \<open>rnd\<close> are the 32 random bytes of the link, None when the source fails.\<close>

definition mediaTicket ::
    "(rat \<Rightarrow> env) \<Rightarrow> string \<Rightarrow> bytes option \<Rightarrow> sync \<Rightarrow> principal \<Rightarrow> request \<Rightarrow> response web" where
  "mediaTicket E base rnd sync p r =
     (let i = rq_wild r ''mediaID'' in
      web_then (pass_check (requireScope p ''media:read'')) (\<lambda>_.
        refreshRead sync (p_account p) ((ask_for ''media'' 0)\<lparr>od_media := i\<rparr>) (\<lambda>_.
        web_then (at_once E (\<lambda>e. web_read ready_error (CheckReady e (p_account p) i))) (\<lambda>_.
        web_then (need (reply_error 500 ''could not create link'') (map_option b64_encode rnd)) (\<lambda>secret.
        at_once E (\<lambda>e.
        web_then (audited (\<lambda>_. e) r p ''API_MEDIA_URL_CREATED'' ''media'' i (JObj [])) (\<lambda>_.
        web_then (store_ticket e r i secret) (\<lambda>_.
        web_done (reply 200 (JObj [(''data'', JObj [(''expires_at'', JStr (rfc3339_nano (e_clock e + five_minutes))),
                                            (''url'', JStr (base @ ''/media/'' @ secret))])]))))))))))"

text \<open>The rows of the join in \<open>downloadTicket\<close>: the ticket with its token.\<close>

definition ticket_token :: "env \<Rightarrow> bytes \<Rightarrow> db \<Rightarrow> (ticket \<times> token_row) option" where
  "ticket_token e h d =
     (case find (\<lambda>t. tk_hash t = h \<and> e_now e < tk_expires t) (tickets d) of
        None \<Rightarrow> None
      | Some t \<Rightarrow> map_option (\<lambda>a. (t, a))
          (find (\<lambda>a. at_hash a = tk_token t \<and> token_live e d a \<and> ''media:read'' \<in> set (at_scopes a)) (tokens d)))"

record served =
  sv_body :: bytes
  sv_type :: string
  sv_name :: string

text \<open>\<open>downloadTicket\<close>, which no bearer check stands before: an error, or the file.\<close>

definition downloadTicket :: "env \<Rightarrow> request \<Rightarrow> served web" where
  "downloadTicket e r =
     (\<lambda>s. case (if e_fail e ''downloadTicket'' then None else ticket_token e (e_sha e (rq_wild r ''ticket'')) (wk_db s)) of
        None \<Rightarrow> (Inl (reply_error 404 ''link expired or unavailable''), s)
      | Some (t, a) \<Rightarrow>
          web_then (pass_check (allowMedia e (at_account a) (tk_media t) (wk_db s))) (\<lambda>_.
          web_then (\<lambda>s. (case OpenRead e (at_account a) (tk_media t) (wk_store s, wk_db s) of
                     Inl err \<Rightarrow> (Inl (reply_error 404 ''media unavailable''), s)
                   | Inr f \<Rightarrow> (Inr f, s))) (\<lambda>(body, n, mime, name).
          web_then (audited (\<lambda>_. e) r
              \<lparr>p_user = [], p_client = at_client a, p_type = API, p_account = at_account a, p_scopes = []\<rparr>
              ''API_MEDIA_DOWNLOADED'' ''media'' (tk_media t) (JObj [])) (\<lambda>_.
          web_done \<lparr>sv_body = body, sv_type = mime,
             sv_name = filepath_base (map (\<lambda>c. if c = CHR 0x5C then CHR ''/'' else c) name)\<rparr>))) s)"

text \<open>\<open>mediaReadURL\<close>, which no route reaches.\<close>

definition url_error :: "go_err \<Rightarrow> response" where
  "url_error err =
     (if errors_is err NoRows then reply_error 404 ''media not found''
      else if errors_is err MediaNotReady then reply_error 409 ''media is not ready''
      else reply_error 500 ''failed to create media read url'')"

definition mediaReadURL ::
    "(rat \<Rightarrow> env) \<Rightarrow> (string \<Rightarrow> string \<Rightarrow> string result) \<Rightarrow> principal \<Rightarrow> request \<Rightarrow> response web" where
  "mediaReadURL E presign p r =
     (let i = trim_space (rq_wild r ''mediaID'') in
      web_then (pass_check (requireScope p ''media:read'')) (\<lambda>_.
      web_then (need (reply_error 400 ''media id is required'') (if i = [] then None else Some ())) (\<lambda>_.
      web_then (at_once E (\<lambda>e. web_read url_error (CreateReadURL e presign (p_account p) i))) (\<lambda>(u, t).
      web_then (audited E r p ''API_MEDIA_URL_CREATED'' ''media'' i
          (JObj [(''expires_at'', JStr (rfc3339_nano t))])) (\<lambda>_.
      web_done (reply 200 (JObj [(''data'', JObj [(''url'', JStr u), (''expires_at'', JStr (rfc3339_nano t))])])))))))"

section \<open>The API (server.go)\<close>

text \<open>\<open>authenticate\<close> up to its handler.\<close>

definition admit_bearer :: "env \<Rightarrow> string \<Rightarrow> request \<Rightarrow> world \<Rightarrow> (response + principal) \<times> world" where
  "admit_bearer e base r w =
     (let deny = (\<lambda>resp. resp\<lparr>rs_headers := challenge_header base @ rs_headers resp\<rparr>) in
      case bearerToken (rq_header r ''Authorization'') of
        None \<Rightarrow> (Inl (deny (reply_error 401 ''unauthorized'')), w)
      | Some tok \<Rightarrow>
          (case AuthenticateBearer e tok (wd_db w) of
             Inl err \<Rightarrow>
               if errors_is err InvalidBearer then (Inl (deny (reply_error 401 ''unauthorized'')), w)
               else (Inl (deny (reply_error 503 ''authentication service unavailable'')), w)
           | Inr p \<Rightarrow>
               (case allowRequest e p w of
                  (Some resp, w') \<Rightarrow> (Inl (deny resp), w')
                | (None, w') \<Rightarrow> (Inr p, w'))))"

lemma authenticate_admits:
  "authenticate e base handler r w =
     (case admit_bearer e base r w of (Inl resp, w') \<Rightarrow> (resp, w') | (Inr p, w') \<Rightarrow> handler p r w')"
  by (simp add: authenticate_def admit_bearer_def Let_def split: option.split sum.split prod.split)

definition route_values :: "api_route \<Rightarrow> string \<Rightarrow> string \<Rightarrow> string" where
  "route_values route x = (\<lambda>k.
     if chat_route route \<and> k = ''chatID'' then x
     else if route \<in> {RInspect, RMediaURL} \<and> k = ''mediaID'' then x else [])"

text \<open>What the API is made of besides the database.\<close>

record api =
  ap_env :: "rat \<Rightarrow> env"
  ap_locale :: locale_rules
  ap_views :: views
  ap_chat_row :: "chat \<Rightarrow> (string \<times> json) list"
  ap_sync :: sync
  ap_base :: string
  ap_random :: "bytes option"
  ap_sender :: sender
  ap_inspect :: "principal \<Rightarrow> request \<Rightarrow> response web"  \<comment> \<open>\<open>inspectMedia\<close>, not modelled\<close>

definition api_view :: "api \<Rightarrow> string \<Rightarrow> string \<Rightarrow> bool \<Rightarrow> principal \<Rightarrow> request \<Rightarrow> response web" where
  "api_view a scope view by_chat p r =
     paged (ap_env a) (ap_views a) (ap_sync a) (demandChats (ap_env a) (ap_chat_row a) (ap_sync a) p r) scope view by_chat p r"

definition send_web :: "api \<Rightarrow> principal \<Rightarrow> request \<Rightarrow> response web" where
  "send_web a p r =
     (\<lambda>s. case sendMessage (ap_env a (clock s)) (ap_sender a) p r (wk_world s) of
        (resp, w, sent) \<Rightarrow> (Inr resp, s\<lparr>wk_world := w\<rparr>))"

fun api_handler :: "api \<Rightarrow> api_route \<Rightarrow> principal \<Rightarrow> request \<Rightarrow> response web" where
  "api_handler a RProfile p r = profile (ap_env a) (ap_sync a) p r"
| "api_handler a RSend p r = send_web a p r"
| "api_handler a RInspect p r = ap_inspect a p r"
| "api_handler a RChats p r = allowedChats (ap_env a) (ap_locale a) p r"
| "api_handler a RChatSearch p r = allowedChats (ap_env a) (ap_locale a) p r"
| "api_handler a RMessages p r = listMessages (ap_env a) (ap_sync a) p r"
| "api_handler a RMembers p r = api_view a ''members:read'' ''active_chat_members'' True p r"
| "api_handler a RSearch p r = searchMessages (ap_env a) (ap_locale a) (ap_sync a) p r"
| "api_handler a RContacts p r = api_view a ''contacts:read'' ''active_contacts'' False p r"
| "api_handler a RContactSearch p r = searchContacts (ap_env a) (ap_locale a) (ap_sync a) p r"
| "api_handler a RMediaURL p r = mediaTicket (ap_env a) (ap_base a) (ap_random a) (ap_sync a) p r"
| "api_handler a RChatMedia p r = api_view a ''media:read'' ''active_message_media'' True p r"

definition protectedAPI :: "api \<Rightarrow> request \<Rightarrow> worker \<Rightarrow> response \<times> worker" where
  "protectedAPI a r s =
     (let e = ap_env a (clock s) in
      case admit_bearer e (ap_base a) r (wk_world s) of
        (Inl resp, w) \<Rightarrow> (resp, s\<lparr>wk_world := w\<rparr>)
      | (Inr p, w) \<Rightarrow>
          (case chatAccess e p r (wd_db w) of
             Some resp \<Rightarrow> (resp, s\<lparr>wk_world := w\<rparr>)
           | None \<Rightarrow>
               (case api_mux r of
                  Inl resp \<Rightarrow> (resp, s\<lparr>wk_world := w\<rparr>)
                | Inr (route, x) \<Rightarrow>
                    answer_web (api_handler a route p (r\<lparr>rq_wild := route_values route x\<rparr>)) (s\<lparr>wk_world := w\<rparr>))))"

end
