(* ===== verification/AccountPages.thy ===== *)
theory AccountPages
  imports Collections OAuth
begin

text \<open>
  The owner's account page (\<open>internal/httpserver/account.go\<close> and the browser's side of
  \<open>chat_permissions.go\<close>): a browser session and its CSRF token stand before every change.
\<close>

section \<open>The browser's user\<close>

definition rq_quote :: string where  \<comment> \<open>U+2019\<close>
  "rq_quote = [CHR 0xE2, CHR 0x80, CHR 0x99]"

definition browser_limit :: limit where
  "browser_limit = \<lparr>l_capacity = 30, l_refill = 1, l_cost = 1\<rparr>"

definition under_limit :: "env \<Rightarrow> string \<Rightarrow> limit \<Rightarrow> response \<Rightarrow> unit web" where
  "under_limit e key l over s =
     (case limit_check e key l (wk_world s) of
        (res, w) \<Rightarrow>
          (if (case res of Inl err \<Rightarrow> True | Inr x \<Rightarrow> \<not> r_allowed x) then Inl over else Inr (), s\<lparr>wk_world := w\<rparr>))"

definition browserPrincipal :: "env \<Rightarrow> string \<Rightarrow> request \<Rightarrow> browser_principal web" where
  "browserPrincipal e base r =
     web_then (web_read (\<lambda>_. reply_error 401 ''Telegram akkauntingizga kiring.'') (Authenticate e base r)) (\<lambda>p.
     web_then (pass_check (if rq_method r \<noteq> ''GET'' \<and> \<not> CheckCSRF base r p
         then Some (reply_error 403 (''Sahifani yangilab qayta urinib ko'' @ lq @ ''ring.'')) else None)) (\<lambda>_.
     web_then (under_limit e (''rl:browser:'' @ bp_account p) browser_limit
         (reply_error 429 (''Biroz kutib qayta urinib ko'' @ lq @ ''ring.''))) (\<lambda>_.
     web_done p)))"

definition page_body :: "request \<Rightarrow> (string \<times> json) list option" where
  "page_body r = Option.bind (decode_body 16384 (rq_body r)) members_of"

definition bad_body :: response where
  "bad_body = reply_error 400 (''Noto'' @ lq @ ''g'' @ lq @ ''ri so'' @ lq @ ''rov.'')"

definition browser_event :: "browser_principal \<Rightarrow> string \<Rightarrow> string \<Rightarrow> event" where
  "browser_event p action client =
     \<lparr>ev_account = Some (bp_account p), ev_actor_type = ''SYSTEM'', ev_actor = ''browser-user:'' @ bp_user p,
      ev_action = action, ev_resource_type = ''gateway_client'', ev_resource = client, ev_ip = [],
      ev_agent = [], ev_request = None, ev_meta = JObj [], ev_created = zero_time\<rparr>"

definition write_audit :: "env \<Rightarrow> event \<Rightarrow> response \<Rightarrow> unit web" where
  "write_audit e ev failed s =
     (case Write e ev (wk_db s) of
        (Inl err, d) \<Rightarrow> (Inl failed, set_db d s)
      | (Inr _, d) \<Rightarrow> (Inr (), set_db d s))"

text \<open>An operation of a repository.\<close>

definition web_op :: "(go_err \<Rightarrow> response) \<Rightarrow> (db \<Rightarrow> 'a result \<times> db) \<Rightarrow> 'a web" where
  "web_op err f s =
     (case f (wk_db s) of
        (Inl x, d) \<Rightarrow> (Inl (err x), set_db d s)
      | (Inr y, d) \<Rightarrow> (Inr y, set_db d s))"

section \<open>Permissions (chat_permissions.go)\<close>

definition permission_body :: "request \<Rightarrow> (bool \<times> bool) option" where
  "permission_body r =
     (case page_body r of
        None \<Rightarrow> None
      | Some m \<Rightarrow>
          if unknown_field [''can_read'', ''can_send''] m then None
          else (case (struct_field ''can_read'' dec_bool False m, struct_field ''can_send'' dec_bool False m) of
              (Some x, Some y) \<Rightarrow> Some (x, y)
            | _ \<Rightarrow> None))"

definition permission_key :: "permission \<Rightarrow> uuid \<times> uuid" where
  "permission_key p = (cp_account p, cp_chat p)"

definition merge_permission :: "permission \<Rightarrow> permission \<Rightarrow> permission" where
  "merge_permission new old = old\<lparr>cp_read := cp_read new, cp_send := cp_send new, cp_updated := cp_updated new\<rparr>"

text \<open>The upsert, and the number of rows it touched.\<close>

definition set_permission :: "env \<Rightarrow> string \<Rightarrow> string \<Rightarrow> bool \<times> bool \<Rightarrow> db \<Rightarrow> nat result \<times> db" where
  "set_permission e account chat flags d =
     (if e_fail e ''accountPermission'' then (Inl (DbErr ''insert''), d)
      else (case (e_uuid e account, e_uuid e chat) of
          (Some a, Some c) \<Rightarrow>
            if exists_row (\<lambda>x. ch_account x = a \<and> ch_id x = c) (active_chats d)
            then (Inr 1, d\<lparr>permissions := upsert permission_key merge_permission
                     \<lparr>cp_account = a, cp_chat = c, cp_read = fst flags, cp_send = snd flags, cp_updated = e_now e\<rparr>
                     (permissions d)\<rparr>)
            else (Inr 0, d)
        | _ \<Rightarrow> (Inl (DbErr ''invalid uuid''), d)))"

definition browser_reader :: "browser_principal \<Rightarrow> principal" where
  "browser_reader p =
     \<lparr>p_user = [], p_client = ''browser-user:'' @ bp_user p, p_type = API, p_account = bp_account p, p_scopes = []\<rparr>"

definition accountPermission :: "env \<Rightarrow> string \<Rightarrow> request \<Rightarrow> response web" where
  "accountPermission e base r =
     (let chat = rq_wild r ''chatID'' in
      web_then (browserPrincipal e base r) (\<lambda>p.
      web_then (need (reply_error 400 (''Chat noto'' @ lq @ ''g'' @ lq @ ''ri.'')) (e_parse e chat)) (\<lambda>_.
      web_then (need bad_body (permission_body r)) (\<lambda>flags.
      web_then (web_op (\<lambda>_. reply_error 500 ''Ruxsat saqlanmadi.'') (set_permission e (bp_account p) chat flags)) (\<lambda>n.
      web_then (pass_check (if n \<noteq> 1 then Some (reply_error 404 ''Chat topilmadi.'') else None)) (\<lambda>_.
      web_then (audited (\<lambda>_. e) r (browser_reader p) ''CHAT_PERMISSION_CHANGED'' ''chat'' chat
          (JObj [(''can_read'', JBool (fst flags)), (''can_send'', JBool (snd flags))])) (\<lambda>_.
      web_done (reply 200 (JObj [(''can_read'', JBool (fst flags)), (''can_send'', JBool (snd flags))])))))))))"

section \<open>The owner's chats\<close>

definition chats_request :: "request \<Rightarrow> read_request option" where
  "chats_request r =
     (case page_body r of
        None \<Rightarrow> None
      | Some m \<Rightarrow>
          (case (struct_field ''cursor'' dec_str [] m, struct_field ''query'' dec_str [] m) of
             (Some c, Some q) \<Rightarrow>
               Some ((ask_for (if blank q then ''chats'' else ''search_chats'') 50)
                       \<lparr>od_cursor := c, od_query := trim_space q\<rparr>)
           | _ \<Rightarrow> None))"

definition owner_chat_json :: "db \<Rightarrow> chat \<Rightarrow> json" where
  "owner_chat_json d c =
     (let p = permission_of c d in JObj
        [(''can_read'', JBool (case p of None \<Rightarrow> False | Some p \<Rightarrow> cp_read p)),
         (''can_send'', JBool (case p of None \<Rightarrow> False | Some p \<Rightarrow> cp_send p)), (''id'', JStr (ch_id c)),
         (''title'', JStr (case ch_title c of Some t \<Rightarrow> t | None \<Rightarrow> (case ch_username c of Some u \<Rightarrow> u | None \<Rightarrow> ''Chat''))),
         (''type'', JStr (ch_type c))])"

text \<open>\<open>ORDER BY c.title NULLS LAST, c.id\<close>.\<close>

definition owner_chats :: "env \<Rightarrow> locale_rules \<Rightarrow> string \<Rightarrow> db \<Rightarrow> json list result" where
  "owner_chats e lc account d =
     (if e_fail e ''accountChats'' then Inl (DbErr ''select'')
      else (case e_uuid e account of
          None \<Rightarrow> Inl (DbErr ''invalid uuid'')
        | Some a \<Rightarrow> Inr (map (owner_chat_json d)
            (sort_key (\<lambda>c. (ch_title c = None, lc_key lc (or_empty (ch_title c)), ch_id c))
              (filter (\<lambda>c. ch_account c = a) (active_chats d))))))"

definition owner_chats_reply :: "(rat \<Rightarrow> env) \<Rightarrow> locale_rules \<Rightarrow> string \<Rightarrow> string \<Rightarrow> response web" where
  "owner_chats_reply E lc account nxt =
     web_then (at_once E (\<lambda>e. web_read (\<lambda>_. reply_error 500 (''Chatlarni olish imkoni bo'' @ lq @ ''lmadi.''))
         (owner_chats e lc account))) (\<lambda>items.
     web_done (reply 200 (JObj [(''data'', JArr items), (''next_cursor'', JStr nxt)])))"

definition accountChats :: "(rat \<Rightarrow> env) \<Rightarrow> locale_rules \<Rightarrow> sync \<Rightarrow> string \<Rightarrow> request \<Rightarrow> response web" where
  "accountChats E lc sync base r =
     web_then (at_once E (\<lambda>e. browserPrincipal e base r)) (\<lambda>p.
       if rq_method r = ''POST''
       then web_then (need bad_body (chats_request r)) (\<lambda>q.
              refreshRead sync (bp_account p) q (\<lambda>fresh. owner_chats_reply E lc (bp_account p) (ot_next fresh)))
       else owner_chats_reply E lc (bp_account p) [])"

section \<open>The owner's data\<close>

text \<open>The counts shown, and the clients that ever held a token on the account.\<close>

definition account_counts :: "uuid \<Rightarrow> db \<Rightarrow> json" where
  "account_counts a d = JObj
     [(''chats'', jint (int (length (filter (\<lambda>c. ch_account c = a) (active_chats d))))),
      (''contacts'', jint (int (length (filter (\<lambda>c. ct_account c = a) (active_contacts d))))),
      (''media'', jint (int (length (filter (\<lambda>(r, m). m_account m = a \<and> md_status r = MReady) (active_media d))))),
      (''messages'', jint (int (length (filter (\<lambda>m. m_account m = a) (active_messages d)))))]"

definition client_tokens :: "uuid \<Rightarrow> gw_client \<Rightarrow> db \<Rightarrow> token_row list" where
  "client_tokens a g d = filter (\<lambda>t. at_client t = gc_id g \<and> at_user t = gc_user g \<and> at_account t = a) (tokens d)"

definition client_live :: "env \<Rightarrow> uuid \<Rightarrow> gw_client \<Rightarrow> db \<Rightarrow> bool" where
  "client_live e a g d =
     (gc_status g = ClientActive
      \<and> (exists_row (\<lambda>t. at_revoked t = None \<and> (case at_expires t of None \<Rightarrow> True | Some x \<Rightarrow> e_now e < x)) (client_tokens a g d)
         \<or> exists_row (\<lambda>t. rt_gateway t = gc_id g \<and> rt_account t = a \<and> rt_revoked t = None \<and> e_now e < rt_expires t)
             (refresh_tokens d)))"

definition client_json :: "env \<Rightarrow> uuid \<Rightarrow> db \<Rightarrow> gw_client \<Rightarrow> json" where
  "client_json e a d g = JObj
     [(''active'', JBool (client_live e a g d)),
      (''created_at'', JStr (rfc3339_nano (Max (at_created ` set (client_tokens a g d))))),
      (''id'', JStr (gc_id g)), (''name'', JStr (gc_name g))]"

definition account_clients :: "env \<Rightarrow> uuid \<Rightarrow> uuid \<Rightarrow> db \<Rightarrow> json list" where
  "account_clients e u a d =
     map (client_json e a d)
       (order_by_desc (\<lambda>g. Max (at_created ` set (client_tokens a g d))) 100
         (filter (\<lambda>g. gc_user g = u \<and> client_tokens a g d \<noteq> []) (clients d)))"

definition both_uuids :: "env \<Rightarrow> string \<Rightarrow> browser_principal \<Rightarrow> (uuid \<times> uuid) result" where
  "both_uuids e label p =
     (if e_fail e label then Inl (DbErr ''select'')
      else (case (e_uuid e (bp_user p), e_uuid e (bp_account p)) of
          (Some u, Some a) \<Rightarrow> Inr (u, a)
        | _ \<Rightarrow> Inl (DbErr ''invalid uuid'')))"

text \<open>\<open>build\<close> and \<open>state\<close> are what \<open>buildinfo.Info\<close> and \<open>AccountState\<close> tell.\<close>

definition accountData ::
    "env \<Rightarrow> json \<Rightarrow> (string \<Rightarrow> json) \<Rightarrow> bool \<Rightarrow> string \<Rightarrow> request \<Rightarrow> response web" where
  "accountData e build state synced base r =
     web_then (browserPrincipal e base r) (\<lambda>p.
     web_then (web_read (\<lambda>_. reply_error 500 (''Ma'' @ rq_quote @ ''lumotlarni olish imkoni bo'' @ lq @ ''lmadi.''))
         (\<lambda>d. map_sum (\<lambda>x. x) (\<lambda>(u, a). account_counts a d) (both_uuids e ''accountData'' p))) (\<lambda>counts.
     web_then (web_read (\<lambda>_. reply_error 500 (''Ulanishlarni olish imkoni bo'' @ lq @ ''lmadi.''))
         (\<lambda>d. map_sum (\<lambda>x. x) (\<lambda>(u, a). account_clients e u a d) (both_uuids e ''accountData.clients'' p))) (\<lambda>cs.
     web_done (reply 200 (JObj
       [(''account_id'', JStr (bp_account p)), (''authorization'', state (bp_account p)), (''build'', build),
        (''clients'', JArr cs), (''csrf'', JStr (bp_csrf p)), (''mcp_url'', JStr (base @ ''/mcp'')),
        (''name'', JStr (bp_name p)), (''stats'', counts),
        (''sync_mode'', JStr (if synced then ''on-demand'' else ''automatic''))])))))"

section \<open>Tokens\<close>

definition read_scopes :: "string list" where
  "read_scopes = [''profile:read'', ''chats:list'', ''chat:read'', ''messages:read'', ''messages:search'',
     ''contacts:read'', ''members:read'', ''media:read'']"

definition token_body :: "request \<Rightarrow> (string \<times> string list) option" where
  "token_body r =
     (case page_body r of
        None \<Rightarrow> None
      | Some m \<Rightarrow>
          if unknown_field [''name'', ''scopes''] m then None
          else (case (struct_field ''name'' dec_str [] m, struct_strs ''scopes'' m) of
              (Some n, Some ss) \<Rightarrow> Some (n, ss)
            | _ \<Rightarrow> None))"

definition token_name :: "string \<Rightarrow> string" where
  "token_name n = (if blank n then ''Personal MCP client'' else trim_space n)"

definition or_read_scopes :: "string list \<Rightarrow> string list" where
  "or_read_scopes ss = (if ss = [] then read_scopes else ss)"

text \<open>\<open>i\<close>, \<open>k\<close> and \<open>rnd\<close> are the ids of the new client and token row, and the token's random bytes.\<close>

definition accountToken :: "env \<Rightarrow> string \<Rightarrow> uuid \<Rightarrow> uuid \<Rightarrow> bytes \<Rightarrow> request \<Rightarrow> response web" where
  "accountToken e base i k rnd r =
     web_then (browserPrincipal e base r) (\<lambda>p.
     web_then (need bad_body (token_body r)) (\<lambda>(n, ss).
       (let name = token_name n; scopes = or_read_scopes ss; expires = e_clock e + thirty_days in
        web_then (pass_check (if 120 < length name then Some (reply_error 400 ''Klient nomi juda uzun.'') else None)) (\<lambda>_.
        web_then (pass_check (if ValidateScopes scopes \<noteq> Inr ()
            then Some (reply_error 400 (''Noto'' @ lq @ ''g'' @ lq @ ''ri ruxsatlar.'')) else None)) (\<lambda>_.
        web_then (web_op (\<lambda>_. reply_error 500 ''Klient yaratilmadi.'') (CreateClient e i (bp_user p) name ''MCP'')) (\<lambda>client.
        web_then (web_op (\<lambda>_. reply_error 500 ''Token yaratilmadi.'')
            (IssueToken e k rnd client (bp_account p) scopes (Some expires))) (\<lambda>tok.
        web_then (write_audit e (browser_event p ''USER_ACCESS_TOKEN_ISSUED'' client)
            (reply_error 503 (''Token berishni yakunlab bo'' @ lq @ ''lmadi.''))) (\<lambda>_.
        web_done (reply 201 (JObj [(''client_id'', JStr client), (''expires_at'', JStr (rfc3339_nano expires)),
                                   (''token'', JStr (g_plain tok))]))))))))))"

text \<open>The transaction of \<open>accountRevoke\<close>: on an error nothing of it stays.\<close>

definition revoke_failed :: response where
  "revoke_failed = reply_error 500 (''Ulanishni bekor qilib bo'' @ lq @ ''lmadi.'')"

definition no_connection :: response where
  "no_connection = reply_error 404 ''Ulanish topilmadi.''"

definition holds_token :: "env \<Rightarrow> string \<Rightarrow> browser_principal \<Rightarrow> db \<Rightarrow> bool" where
  "holds_token e i p d =
     (case (e_uuid e i, e_uuid e (bp_account p), e_uuid e (bp_user p)) of
        (Some c, Some a, Some u) \<Rightarrow>
          \<not> e_fail e ''accountRevoke.exists''
          \<and> exists_row (\<lambda>t. at_client t = c \<and> at_account t = a \<and> at_user t = u) (tokens d)
      | _ \<Rightarrow> False)"

definition revoke_tx :: "env \<Rightarrow> string \<Rightarrow> browser_principal \<Rightarrow> db \<Rightarrow> response option \<times> db" where
  "revoke_tx e i p d =
     (if e_fail e ''accountRevoke.begin'' then (Some revoke_failed, d)
      else if LockGrant e (bp_account p) i \<noteq> Inr ()
        then (Some (reply_error 503 (''Ulanishni bekor qilib bo'' @ lq @ ''lmadi.'')), d)
      else if \<not> holds_token e i p d then (Some no_connection, d)
      else (case RevokeGrant e (bp_account p) i d of
          (Inl err, _) \<Rightarrow> (Some revoke_failed, d)
        | (Inr _, d') \<Rightarrow> if e_fail e ''accountRevoke.commit'' then (Some revoke_failed, d) else (None, d')))"

definition accountRevoke :: "env \<Rightarrow> string \<Rightarrow> request \<Rightarrow> response web" where
  "accountRevoke e base r =
     (let i = rq_wild r ''clientID'' in
      web_then (browserPrincipal e base r) (\<lambda>p.
      web_then (need no_connection (e_parse e i)) (\<lambda>_.
      web_then (\<lambda>s. case revoke_tx e i p (wk_db s) of
          (Some resp, d) \<Rightarrow> (Inl resp, set_db d s)
        | (None, d) \<Rightarrow> (Inr (), set_db d s)) (\<lambda>_.
      web_then (write_audit e (browser_event p ''USER_CLIENT_REVOKED'' i)
          (reply_error 503 (''Bekor qilish yozuvini saqlab bo'' @ lq @ ''lmadi.''))) (\<lambda>_.
      web_done (reply 200 (JObj [(''status'', JStr ''revoked'')])))))))"

section \<open>Synchronising and signing out\<close>

text \<open>\<open>Manager.Sync\<close>; \<open>auto\<close> is the configuration's switch, \<open>sess\<close> what \<open>Get\<close> finds.\<close>

definition manager_sync :: "env \<Rightarrow> bool \<Rightarrow> bytes \<Rightarrow> session result \<Rightarrow> string \<Rightarrow> (worker, unit) act" where
  "manager_sync e auto rnd sess account =
     (if \<not> auto then fail_with (Msg ''background sync disabled; data refreshes on AI reads'')
      else and_then (given sess) (\<lambda>_. on_bus (EnqueueAccountBootstrap e rnd account True)))"

definition user_sync_limit :: limit where
  "user_sync_limit = \<lparr>l_capacity = 1, l_refill = 1 / 60, l_cost = 1\<rparr>"

definition queue_sync :: "response \<Rightarrow> (worker, unit) act \<Rightarrow> response web" where
  "queue_sync failed f s =
     (case f s of
        (Inl err, s') \<Rightarrow> (Inl failed, s')
      | (Inr _, s') \<Rightarrow> (Inr (reply 202 (JObj [(''status'', JStr ''queued'')])), s'))"

definition accountSync ::
    "env \<Rightarrow> bool \<Rightarrow> bool \<Rightarrow> bytes \<Rightarrow> (string \<Rightarrow> session result) \<Rightarrow> string \<Rightarrow> request \<Rightarrow> response web" where
  "accountSync e synced auto rnd live base r =
     (if synced
      then refuse (reply_error 409 (''Avtomatik sinxronlash o'' @ lq @ ''chirilgan. Ma'' @ rq_quote
             @ ''lumotlar AI so'' @ lq @ ''raganda yangilanadi.''))
      else web_then (browserPrincipal e base r) (\<lambda>p.
        web_then (under_limit e (''rl:user-sync:'' @ bp_account p) user_sync_limit
            (reply_error 429 (''Sinxronlash yaqinda so'' @ lq @ ''ralgan. Bir daqiqa kuting.''))) (\<lambda>_.
        queue_sync (reply_error 409 ''Telegram ulanishi tayyorlanmoqda.'')
          (manager_sync e auto rnd (live (bp_account p)) (bp_account p)))))"

definition accountLogout :: "env \<Rightarrow> string \<Rightarrow> request \<Rightarrow> response web" where
  "accountLogout e base r =
     web_then (browserPrincipal e base r) (\<lambda>_.
     web_then (web_op (\<lambda>_. reply_error 500 ''Chiqish amalga oshmadi.'') (Logout e base r)) (\<lambda>c.
     web_done ((reply 200 (JObj [(''status'', JStr ''signed_out'')]))\<lparr>rs_cookies := [c]\<rparr>)))"

definition page_policy :: string where
  "page_policy = map (\<lambda>c. if c = CHR ''~'' then CHR 0x27 else c)
     ''default-src ~none~; script-src ~unsafe-inline~; style-src ~unsafe-inline~; connect-src ~self~; base-uri ~none~; frame-ancestors ~none~''"

text \<open>The page itself; \<open>html\<close> is the embedded document.\<close>

definition accountPage :: "env \<Rightarrow> string \<Rightarrow> string \<Rightarrow> request \<Rightarrow> db \<Rightarrow> response" where
  "accountPage e base html r d =
     (case Authenticate e base r d of
        Inl err \<Rightarrow> redirect_to 303 (LoginURL e ''/account'')
      | Inr p \<Rightarrow> (reply 200 (JStr html))\<lparr>rs_headers := [(''Content-Type'', ''text/html; charset=utf-8''),
         (''Content-Security-Policy'', page_policy)]\<rparr>)"

end
