(* ===== verification/Admin.thy ===== *)
theory Admin
  imports AccountPages
begin

text \<open>
  The operator's API (\<open>internal/httpserver/admin.go\<close>, \<open>adminBrowserSession\<close> of \<open>account.go\<close>) and
  the lookups of the session manager it shows (\<open>AccountState\<close>, \<open>AccountList\<close> of
  \<open>internal/gateway/manager.go\<close>).
\<close>

section \<open>The operator\<close>

definition admin_limit :: limit where
  "admin_limit = \<lparr>l_capacity = 30, l_refill = 1, l_cost = 1\<rparr>"

definition is_admin :: "env \<Rightarrow> string \<Rightarrow> request \<Rightarrow> bool" where
  "is_admin e admin_token r =
     (case bearerToken (rq_header r ''Authorization'') of
        None \<Rightarrow> False
      | Some t \<Rightarrow> 32 \<le> length admin_token \<and> e_sha e t = e_sha e admin_token)"

definition admin :: "env \<Rightarrow> string \<Rightarrow> (request \<Rightarrow> response web) \<Rightarrow> request \<Rightarrow> response web" where
  "admin e admin_token k r =
     web_then (pass_check (if is_admin e admin_token r then None else Some (reply_error 401 ''unauthorized''))) (\<lambda>_.
     web_then (under_limit e ''rl:admin'' admin_limit (reply_error 429 ''try again shortly'')) (\<lambda>_. k r))"

section \<open>Accounts\<close>

text \<open>The session manager's configuration.\<close>

record manager_config =
  mc_api_id :: int
  mc_api_hash :: string
  mc_key :: bytes
  mc_auto :: bool

definition Configured :: "manager_config \<Rightarrow> bool" where
  "Configured c = (0 < mc_api_id c \<and> mc_api_hash c \<noteq> [] \<and> length (mc_key c) = 32)"

definition AccountState :: "manager_config \<Rightarrow> (string \<Rightarrow> td option) \<Rightarrow> string \<Rightarrow> json" where
  "AccountState c live i =
     (case live i of
        None \<Rightarrow> JObj [(''configured'', JBool (Configured c)), (''state'', JStr ''offline'')]
      | Some s \<Rightarrow> State s)"

text \<open>\<open>pending\<close> counts an account's rows of the update journal.\<close>

definition account_stats :: "(uuid \<Rightarrow> int) \<Rightarrow> uuid \<Rightarrow> db \<Rightarrow> json" where
  "account_stats pending a d = JObj
     [(''chats'', jint (int (length (filter (\<lambda>c. ch_account c = a) (active_chats d))))),
      (''media'', jint (int (length (filter (\<lambda>(r, m). m_account m = a \<and> md_status r = MReady) (active_media d))))),
      (''messages'', jint (int (length (filter (\<lambda>m. m_account m = a) (active_messages d))))),
      (''pending_updates'', jint (pending a))]"

definition AccountList ::
    "env \<Rightarrow> uuid \<Rightarrow> (string \<Rightarrow> json) \<Rightarrow> (uuid \<Rightarrow> int) \<Rightarrow> db \<Rightarrow> (string \<times> json) list list result" where
  "AccountList e owner state pending d =
     (if e_fail e ''AccountList'' then Inl (DbErr ''select'')
      else (case e_uuid e owner of
          None \<Rightarrow> Inl (DbErr ''invalid uuid'')
        | Some u \<Rightarrow> Inr (map (\<lambda>a.
            [(''authorization'', state (acc_id a)), (''id'', JStr (acc_id a)), (''name'', JStr (or_empty (acc_display a))),
             (''stats'', account_stats pending (acc_id a) d), (''status'', JStr (status_text (acc_status a)))])
            (sort_key acc_created (filter (\<lambda>a. acc_user a = u) (accounts d))))))"

text \<open>\<open>qr\<close> is the picture the QR library draws of a login link.\<close>

definition with_qr :: "(string \<Rightarrow> string option) \<Rightarrow> json \<Rightarrow> json" where
  "with_qr qr state =
     (case json_lookup ''link'' state of
        Some (JStr link) \<Rightarrow> (case qr link of None \<Rightarrow> state | Some p \<Rightarrow> put_member ''qr_image'' (JStr p) state)
      | _ \<Rightarrow> state)"

definition adminAccounts ::
    "env \<Rightarrow> manager_config \<Rightarrow> uuid \<Rightarrow> (string \<Rightarrow> json) \<Rightarrow> (uuid \<Rightarrow> int) \<Rightarrow> (string \<Rightarrow> string option) \<Rightarrow> response web" where
  "adminAccounts e c owner state pending qr =
     web_then (web_read (failed_read ''account lookup failed'') (AccountList e owner state pending)) (\<lambda>items.
     web_done (reply 200 (JObj
       [(''accounts'', JArr (map (\<lambda>m. JObj (map (\<lambda>(k, v). (k, if k = ''authorization'' then with_qr qr v else v)) m)) items)),
        (''configured'', JBool (Configured c))])))"

definition account_json :: "account \<Rightarrow> json" where
  "account_json a = JObj (
     [(''id'', JStr (acc_id a)), (''user_id'', JStr (acc_user a))]
     @ some_member ''telegram_user_id'' jint (acc_tg a) @ some_member ''display_name'' JStr (acc_display a)
     @ some_member ''username'' JStr (acc_username a) @ [(''status'', JStr (status_text (acc_status a)))]
     @ some_member ''connected_at'' (\<lambda>t. JStr (rfc3339_nano t)) (acc_connected a)
     @ some_member ''disconnected_at'' (\<lambda>t. JStr (rfc3339_nano t)) (acc_disconnected a)
     @ some_member ''last_update_at'' (\<lambda>t. JStr (rfc3339_nano t)) (acc_last_update a)
     @ [(''created_at'', JStr (rfc3339_nano (acc_created a))), (''updated_at'', JStr (rfc3339_nano (acc_updated a)))])"

definition adminCreateAccount :: "env \<Rightarrow> manager_config \<Rightarrow> uuid \<Rightarrow> uuid \<Rightarrow> uuid \<Rightarrow> response web" where
  "adminCreateAccount e c owner i dir =
     web_then (pass_check (if Configured c then None
         else Some (reply_error 409 ''set TELEGRAM_API_ID, TELEGRAM_API_HASH and TELEGRAM_SESSION_KEY first''))) (\<lambda>_.
     web_then (web_op (\<lambda>_. reply_error 500 ''account creation failed'') (CreateAccount e i dir owner)) (\<lambda>a.
     web_done (reply 201 (account_json a))))"

definition owned :: "env \<Rightarrow> uuid \<Rightarrow> string \<Rightarrow> unit web" where
  "owned e owner i = web_read (\<lambda>_. reply_error 404 ''account not found'') (CheckOwner e owner i)"

definition auth_body :: "request \<Rightarrow> (string \<times> string) option" where
  "auth_body r =
     (case page_body r of
        None \<Rightarrow> None
      | Some m \<Rightarrow>
          (case (struct_field ''action'' dec_str [] m, struct_field ''value'' dec_str [] m) of
             (Some x, Some v) \<Rightarrow> Some (x, v)
           | _ \<Rightarrow> None))"

text \<open>\<open>auth\<close> is the outcome of the live session's \<open>Authorize\<close>, or the error without one.\<close>

definition adminAuth ::
    "env \<Rightarrow> uuid \<Rightarrow> (string \<Rightarrow> string \<Rightarrow> string \<Rightarrow> unit result) \<Rightarrow> request \<Rightarrow> response web" where
  "adminAuth e owner auth r =
     (let i = rq_wild r ''accountID'' in
      web_then (owned e owner i) (\<lambda>_.
      web_then (need (reply_error 400 ''invalid request'') (auth_body r)) (\<lambda>(x, v).
      (case auth i x v of
         Inl err \<Rightarrow> refuse (reply_error 400 (err_text err))
       | Inr _ \<Rightarrow> web_done (reply 200 (JObj [(''status'', JStr ''accepted'')]))))))"

definition adminSync ::
    "env \<Rightarrow> uuid \<Rightarrow> bool \<Rightarrow> bytes \<Rightarrow> (string \<Rightarrow> session result) \<Rightarrow> request \<Rightarrow> response web" where
  "adminSync e owner auto rnd live r =
     (let i = rq_wild r ''accountID'' in
      web_then (owned e owner i) (\<lambda>_.
      queue_sync (reply_error 409 ''account not ready'') (manager_sync e auto rnd (live i) i)))"

definition adminBrowserSession :: "env \<Rightarrow> uuid \<Rightarrow> string \<Rightarrow> bytes \<Rightarrow> request \<Rightarrow> response web" where
  "adminBrowserSession e owner base rnd r =
     (let i = rq_wild r ''accountID'' in
      web_then (owned e owner i) (\<lambda>_.
      web_then (web_read (\<lambda>_. reply_error 409 ''account is not active'') (Accounts.GetActive e i)) (\<lambda>a.
      web_then (pass_check (if acc_status a = Active then None else Some (reply_error 409 ''account is not active''))) (\<lambda>_.
      web_then (web_op (\<lambda>_. reply_error 500 ''could not open account page'')
          (IssueCookie e base rnd (acc_user a) (acc_id a))) (\<lambda>c.
      web_done ((reply 200 (JObj [(''redirect'', JStr ''/account'')]))\<lparr>rs_cookies := [c]\<rparr>))))))"

section \<open>Tokens and clients\<close>

definition admin_token_body :: "request \<Rightarrow> (string \<times> string \<times> string list) option" where
  "admin_token_body r =
     (case page_body r of
        None \<Rightarrow> None
      | Some m \<Rightarrow>
          (case (struct_field ''account_id'' dec_str [] m, struct_field ''name'' dec_str [] m, struct_strs ''scopes'' m) of
             (Some a, Some n, Some ss) \<Rightarrow> Some (a, n, ss)
           | _ \<Rightarrow> None))"

definition admin_event :: "uuid \<Rightarrow> string option \<Rightarrow> string \<Rightarrow> string \<Rightarrow> event" where
  "admin_event owner account action client =
     \<lparr>ev_account = account, ev_actor_type = ''ADMIN'', ev_actor = owner, ev_action = action,
      ev_resource_type = ''gateway_client'', ev_resource = client, ev_ip = [], ev_agent = [],
      ev_request = None, ev_meta = JObj [], ev_created = zero_time\<rparr>"

definition adminTokenIssue :: "env \<Rightarrow> uuid \<Rightarrow> uuid \<Rightarrow> uuid \<Rightarrow> bytes \<Rightarrow> request \<Rightarrow> response web" where
  "adminTokenIssue e owner i k rnd r =
     web_then (need (reply_error 400 ''invalid account'') (admin_token_body r)) (\<lambda>(account, n, ss).
     web_then (web_read (\<lambda>_. reply_error 400 ''invalid account'') (CheckOwner e owner account)) (\<lambda>_.
       (let scopes = or_read_scopes ss; expires = e_clock e + thirty_days in
        web_then (pass_check (if ValidateScopes scopes \<noteq> Inr () then Some (reply_error 400 ''invalid scopes'') else None)) (\<lambda>_.
        web_then (web_op (\<lambda>_. reply_error 500 ''client creation failed'')
            (CreateClient e i owner (if blank n then ''Personal client'' else n) ''MCP'')) (\<lambda>client.
        web_then (web_op (\<lambda>_. reply_error 409 ''account must be active'')
            (IssueToken e k rnd client account scopes (Some expires))) (\<lambda>tok.
        web_then (write_audit e (admin_event owner (Some account) ''ACCESS_TOKEN_ISSUED'' client)
            (reply_error 503 ''audit unavailable'')) (\<lambda>_.
        web_done (reply 201 (JObj [(''client_id'', JStr client), (''expires_at'', JStr (rfc3339_nano expires)),
                                   (''token'', JStr (g_plain tok))])))))))))"

definition client_status_text :: "client_status \<Rightarrow> string" where
  "client_status_text x = (case x of ClientActive \<Rightarrow> ''active'' | ClientDisabled \<Rightarrow> ''disabled'')"

definition owner_clients :: "env \<Rightarrow> uuid \<Rightarrow> db \<Rightarrow> gw_client list result" where
  "owner_clients e owner d =
     (if e_fail e ''adminClients'' then Inl (DbErr ''select'')
      else (case e_uuid e owner of
          None \<Rightarrow> Inl (DbErr ''invalid uuid'')
        | Some u \<Rightarrow> Inr (rev (sort_key gc_created (filter (\<lambda>g. gc_user g = u) (clients d))))))"

definition adminClients :: "env \<Rightarrow> uuid \<Rightarrow> response web" where
  "adminClients e owner =
     web_then (web_read (failed_read ''client lookup failed'') (owner_clients e owner)) (\<lambda>gs.
     web_done (reply 200 (JArr (map (\<lambda>g. JObj
       [(''id'', JStr (gc_id g)), (''name'', JStr (gc_name g)), (''status'', JStr (client_status_text (gc_status g)))]) gs))))"

definition disable_client :: "env \<Rightarrow> uuid \<Rightarrow> string \<Rightarrow> db \<Rightarrow> unit result \<times> db" where
  "disable_client e owner i d =
     (if e_fail e ''adminRevokeClient'' then (Inl (DbErr ''update''), d)
      else (case (e_uuid e i, e_uuid e owner) of
          (Some c, Some u) \<Rightarrow>
            (Inr (), d\<lparr>clients := update_where (\<lambda>g. gc_id g = c \<and> gc_user g = u)
               (gc_status_update (\<lambda>_. ClientDisabled)) (clients d)\<rparr>)
        | _ \<Rightarrow> (Inl (DbErr ''invalid uuid''), d)))"

definition adminRevokeClient :: "env \<Rightarrow> uuid \<Rightarrow> request \<Rightarrow> response web" where
  "adminRevokeClient e owner r =
     (let i = rq_wild r ''clientID'' in
      web_then (web_op (\<lambda>_. reply_error 500 ''revocation failed'') (disable_client e owner i)) (\<lambda>_.
      web_then (write_audit e (admin_event owner None ''CLIENT_REVOKED'' i) (reply_error 503 ''audit unavailable'')) (\<lambda>_.
      web_done (reply 200 (JObj [(''status'', JStr ''revoked'')])))))"

end
