(* ===== verification/WebFacts.thy ===== *)
theory WebFacts
  imports AccountPages
begin

text \<open>
  Reading a successful answer backwards: a step that refuses a request never answers 200, so an
  answer of 200 means that every step before the last went on.
\<close>

section \<open>Refusals\<close>

definition ok_statuses :: "int set" where
  "ok_statuses = {200..<300}"

definition refusing :: "'a web \<Rightarrow> bool" where
  "refusing m = (\<forall>s r s'. m s = (Inl r, s') \<longrightarrow> rs_status r \<notin> ok_statuses)"

lemma reply_status [simp]: "rs_status (reply n j) = n" "rs_status (reply_error n m) = n"
  by (simp_all add: reply_def reply_error_def)

lemma reply_body [simp]: "rs_body (reply n j) = j"
  by (simp add: reply_def)

lemma header_status [simp]: "rs_status (on_demand_header r) = rs_status r" "rs_body (on_demand_header r) = rs_body r"
  by (simp_all add: on_demand_header_def)

lemma refusing_then: "refusing m \<Longrightarrow> (\<And>x. refusing (f x)) \<Longrightarrow> refusing (web_then m f)"
  by (auto simp: refusing_def web_then_def split: prod.splits sum.splits)

lemma refusing_done: "refusing (web_done x)"
  by (simp add: refusing_def web_done_def)

lemma refusing_refuse: "rs_status r \<notin> ok_statuses \<Longrightarrow> refusing (refuse r)"
  by (simp add: refusing_def refuse_def)

lemma refusing_need: "rs_status r \<notin> ok_statuses \<Longrightarrow> refusing (need r x)"
  by (cases x) (simp_all add: need_def refusing_done refusing_refuse)

lemma refusing_check: "(\<And>r. c = Some r \<Longrightarrow> rs_status r \<notin> ok_statuses) \<Longrightarrow> refusing (pass_check c)"
  by (cases c) (simp_all add: pass_check_def refusing_done refusing_refuse)

lemma refusing_once: "(\<And>e. refusing (f e)) \<Longrightarrow> refusing (at_once E f)"
  by (simp add: refusing_def at_once_def)

lemma refusing_read: "(\<And>x. rs_status (err x) \<notin> ok_statuses) \<Longrightarrow> refusing (web_read err q)"
  by (auto simp: refusing_def web_read_def split: sum.splits)

lemma refusing_op: "(\<And>x. rs_status (err x) \<notin> ok_statuses) \<Longrightarrow> refusing (web_op err f)"
  by (auto simp: refusing_def web_op_def split: sum.splits prod.splits)

lemma refusing_scope: "refusing (pass_check (requireScope p sc))"
  by (rule refusing_check) (auto simp: requireScope_def ok_statuses_def split: if_splits)

lemma refusing_audit: "refusing (audited E r p action ty rid meta)"
  by (auto simp: refusing_def audited_def at_once_def auditRead_def ok_statuses_def split: prod.splits option.splits sum.splits)

lemma refusing_write: "rs_status r \<notin> ok_statuses \<Longrightarrow> refusing (write_audit e ev r)"
  by (auto simp: refusing_def write_audit_def split: prod.splits sum.splits)

lemma refusing_limit: "rs_status r \<notin> ok_statuses \<Longrightarrow> refusing (under_limit e k l r)"
  by (auto simp: refusing_def under_limit_def split: prod.splits if_splits)

lemma refusing_browser: "refusing (browserPrincipal e base r)"
  unfolding browserPrincipal_def
  by (intro refusing_then refusing_read refusing_check refusing_limit refusing_done) (auto simp: ok_statuses_def split: if_splits)

lemmas refusals = refusing_then refusing_done refusing_refuse refusing_need refusing_once refusing_read refusing_op
  refusing_scope refusing_audit refusing_write refusing_limit refusing_browser

section \<open>Successes\<close>

lemma answer_then:
  assumes "answer_web (web_then m f) s = (r, s')" "rs_status r \<in> ok_statuses" "refusing m"
  obtains x s1 where "m s = (Inr x, s1)" "answer_web (f x) s1 = (r, s')"
  using assms by (auto simp: answer_web_def web_then_def refusing_def split: prod.splits sum.splits)

lemma answer_done: "answer_web (web_done x) s = (r, s') \<longleftrightarrow> r = x \<and> s' = s"
  by (auto simp: answer_web_def web_done_def)

lemma answer_refuse: "answer_web (refuse x) s = (r, s') \<longleftrightarrow> r = x \<and> s' = s"
  by (auto simp: answer_web_def refuse_def)

lemma answer_refresh:
  assumes "answer_web (refreshRead sync account q k) s = (r, s')" "rs_status r \<in> ok_statuses"
  obtains "sync = None" "answer_web (k no_result) s = (r, s')"
  | f fresh s1 r1 where "sync = Some f" "f account q s = (Inr fresh, s1)" "answer_web (k fresh) s1 = (r1, s')"
      "r = on_demand_header r1"
proof (cases sync)
  case None
  then show ?thesis using assms(1) by (intro that(1)) (simp_all add: refreshRead_def)
next
  case (Some f)
  obtain x s1 where f: "f account q s = (x, s1)" by fastforce
  show ?thesis
  proof (cases x)
    case (Inl err)
    then have "r = refresh_error err" using assms(1) by (simp add: refreshRead_def answer_web_def Some f)
    then show ?thesis using assms(2) by (simp add: refresh_error_def ok_statuses_def split: if_splits)
  next
    case (Inr fresh)
    obtain y s2 where k: "k fresh s1 = (y, s2)" by fastforce
    show ?thesis
      by (rule that(2) [OF Some f [unfolded Inr], of "case y of Inl r \<Rightarrow> r | Inr r \<Rightarrow> r"])
        (use assms(1) in \<open>cases y; simp add: refreshRead_def answer_web_def Some f Inr k\<close>)+
  qed
qed

lemma went_on:
  "web_done x s = (Inr y, s') \<longleftrightarrow> y = x \<and> s' = s"
  "refuse r s = (Inr w, s') \<longleftrightarrow> False"
  "pass_check c s = (Inr u, s') \<longleftrightarrow> c = None \<and> s' = s"
  "need r v s = (Inr z, s') \<longleftrightarrow> v = Some z \<and> s' = s"
  "at_once E f s = (Inr k, s') \<longleftrightarrow> f (E (clock s)) s = (Inr k, s')"
  "web_read err q s = (Inr i, s') \<longleftrightarrow> q (wk_db s) = Inr i \<and> s' = s"
  "web_then m g s = (Inr n, s') \<longleftrightarrow> (\<exists>j s1. m s = (Inr j, s1) \<and> g j s1 = (Inr n, s'))"
  by (auto simp: web_done_def refuse_def pass_check_def need_def at_once_def web_read_def web_then_def
      split: option.splits sum.splits prod.splits)

lemma scope_held: "pass_check (requireScope p sc) s = (Inr u, s') \<longleftrightarrow> HasScope (p_scopes p) sc \<and> s' = s"
  by (auto simp: went_on requireScope_def)

lemma op_went_on: "web_op err f s = (Inr y, s') \<longleftrightarrow> (\<exists>d. f (wk_db s) = (Inr y, d) \<and> s' = set_db d s)"
  by (auto simp: web_op_def split: prod.splits sum.splits)

lemma Write_only: "snd (Write e ev d) = d\<lparr>audit_logs := audit_logs (snd (Write e ev d))\<rparr>"
  by (simp add: Write_def insert_audit_def Let_def split: sum.split option.split)

lemma Write_onlyD: "Write e ev d = (r, d') \<Longrightarrow> \<exists>als. d' = d\<lparr>audit_logs := als\<rparr>"
  using Write_only [of e ev d] by (intro exI [of _ "audit_logs d'"]) simp

lemma audit_went_on:
  "audited E r p action ty rid meta s = (Inr u, s') \<Longrightarrow> \<exists>als. s' = set_db ((wk_db s)\<lparr>audit_logs := als\<rparr>) s"
  by (auto simp: audited_def at_once_def auditRead_def split: prod.splits option.splits sum.splits dest!: Write_onlyD)

lemma write_went_on:
  "write_audit e ev r s = (Inr u, s') \<Longrightarrow> \<exists>als. s' = set_db ((wk_db s)\<lparr>audit_logs := als\<rparr>) s"
  by (auto simp: write_audit_def split: prod.splits sum.splits dest!: Write_onlyD)

lemma set_db_db [simp]: "wk_db (set_db d s) = d"
  by (simp add: set_db_def)

end
