(* ===== verification/PageTheorems.thy ===== *)
theory PageTheorems
  imports WebFacts GrantTheorems
begin

text \<open>
  What the account page guarantees: permissions change only by the owner's own act, and a
  disconnected client is out for good, with its bearer tokens and its download links.
\<close>

section \<open>The browser's user\<close>

lemma under_limit_on:
  "under_limit e k l over s = (x, s') \<Longrightarrow> wk_db s' = wk_db s"
  by (auto simp: under_limit_def dest!: limit_checkD split: prod.splits)

lemma browserD:
  assumes "browserPrincipal e base r s = (Inr p, s')"
  shows "Authenticate e base r (wk_db s) = Inr p" "rq_method r = ''GET'' \<or> CheckCSRF base r p" "wk_db s' = wk_db s"
  using assms by (auto simp: browserPrincipal_def went_on dest: under_limit_on split: if_splits)

lemma browser_kept: "browserPrincipal e base r s = (x, s') \<Longrightarrow> wk_db s' = wk_db s"
  by (auto simp: browserPrincipal_def web_then_def web_read_def pass_check_def refuse_def web_done_def
      split: sum.splits prod.splits option.splits if_splits dest!: under_limit_on)

section \<open>Permissions\<close>

definition change_guarded :: "env \<Rightarrow> string \<Rightarrow> request \<Rightarrow> db \<Rightarrow> db \<Rightarrow> bool" where
  "change_guarded e base r d d' =
     (\<exists>p a c flags. Authenticate e base r d = Inr p \<and> (rq_method r = ''GET'' \<or> CheckCSRF base r p)
        \<and> e_uuid e (bp_account p) = Some a \<and> e_uuid e (rq_wild r ''chatID'') = Some c
        \<and> permission_body r = Some flags \<and> exists_row (\<lambda>x. ch_account x = a \<and> ch_id x = c) (active_chats d)
        \<and> (\<forall>b k send. may_chat b k send d' =
             (if b = a \<and> k = c then (if send then snd flags else fst flags) else may_chat b k send d)))"

lemma may_chat_rows:
  "may_chat b k send d \<longleftrightarrow> exists_row (\<lambda>x. ch_id x = k \<and> ch_account x = b) (active_chats d)
     \<and> (\<exists>p \<in> set (permissions d). permission_key p = (b, k) \<and> (if send then cp_send p else cp_read p))"
  (is "_ \<longleftrightarrow> ?chat \<and> ?row")
proof
  assume "may_chat b k send d"
  then show "?chat \<and> ?row" unfolding may_chat_def exists_row_def permission_key_def by auto
next
  assume h: "?chat \<and> ?row"
  then obtain p where "p \<in> set (permissions d)" "permission_key p = (b, k)" "if send then cp_send p else cp_read p" by blast
  then show "may_chat b k send d"
    using h unfolding may_chat_def exists_row_def permission_key_def by (intro bexI [of _ p]) auto
qed

lemma upsert_flag:
  assumes keep: "\<And>old. key old = key new \<Longrightarrow> key (merge new old) = key new \<and> flag (merge new old) = flag new"
  shows "(\<exists>x \<in> set (upsert key merge new rs). key x = q \<and> flag x)
    \<longleftrightarrow> (if q = key new then flag new else \<exists>x \<in> set rs. key x = q \<and> flag x)"
proof (cases "exists_row (\<lambda>r. key r = key new) rs")
  case True
  then have u: "set (upsert key merge new rs) = (\<lambda>r. if key r = key new then merge new r else r) ` set rs"
    by (simp add: upsert_def update_where_def)
  obtain r where r: "r \<in> set rs" "key r = key new" using True by (auto simp: exists_row_def)
  show ?thesis
  proof (cases "q = key new")
    case True
    then show ?thesis using keep r unfolding u by (auto split: if_splits)
  next
    case False
    then show ?thesis using keep unfolding u by (auto split: if_splits)
  qed
next
  case False
  then show ?thesis by (auto simp: upsert_def exists_row_def)
qed

lemma set_permission_effect:
  assumes "set_permission e account chat flags d = (Inr n, d')"
  shows "n = 0 \<and> d' = d
    \<or> n = 1 \<and> (\<exists>a c. e_uuid e account = Some a \<and> e_uuid e chat = Some c
        \<and> exists_row (\<lambda>x. ch_account x = a \<and> ch_id x = c) (active_chats d)
        \<and> (\<forall>b k send. may_chat b k send d' =
             (if b = a \<and> k = c then (if send then snd flags else fst flags) else may_chat b k send d)))"
proof (cases "n = 0")
  case True
  then show ?thesis using assms by (auto simp: set_permission_def split: if_splits option.splits)
next
  case False
  then obtain a c where ac: "n = 1" "e_uuid e account = Some a" "e_uuid e chat = Some c"
      "exists_row (\<lambda>x. ch_account x = a \<and> ch_id x = c) (active_chats d)"
    and d': "d' = d\<lparr>permissions := upsert permission_key merge_permission
                     \<lparr>cp_account = a, cp_chat = c, cp_read = fst flags, cp_send = snd flags, cp_updated = e_now e\<rparr>
                     (permissions d)\<rparr>"
    using assms by (auto simp: set_permission_def split: if_splits option.splits)
  have act: "active_chats d' = active_chats d" by (simp add: d' active_chats_def)
  let ?new = "\<lparr>cp_account = a, cp_chat = c, cp_read = fst flags, cp_send = snd flags, cp_updated = e_now e\<rparr>"
  have ps: "permissions d' = upsert permission_key merge_permission ?new (permissions d)" by (simp add: d')
  have row: "exists_row (\<lambda>x. ch_id x = c \<and> ch_account x = a) (active_chats d)"
    using ac(4) by (auto simp: exists_row_def)
  have "may_chat b k send d' =
      (if b = a \<and> k = c then (if send then snd flags else fst flags) else may_chat b k send d)" for b k send
  proof -
    have "(\<exists>p \<in> set (permissions d'). permission_key p = (b, k) \<and> (if send then cp_send p else cp_read p))
        \<longleftrightarrow> (if (b, k) = permission_key ?new then (if send then cp_send ?new else cp_read ?new)
             else \<exists>p \<in> set (permissions d). permission_key p = (b, k) \<and> (if send then cp_send p else cp_read p))"
      unfolding ps
      by (rule upsert_flag) (simp add: merge_permission_def permission_key_def)
    then show ?thesis
      unfolding may_chat_rows [of _ _ _ d'] act using row by (auto simp: permission_key_def may_chat_rows)
  qed
  then show ?thesis using ac by blast
qed

lemma may_chat_audit [simp]: "may_chat a c send (d\<lparr>audit_logs := als\<rparr>) = may_chat a c send d"
  by (simp add: may_chat_def active_chats_def)

lemma audited_any: "audited E r p act ty i j s = (x, s') \<Longrightarrow> \<exists>als. s' = set_db ((wk_db s)\<lparr>audit_logs := als\<rparr>) s"
  by (auto simp: audited_def at_once_def auditRead_def dest!: Write_onlyD split: prod.splits option.splits sum.splits)

definition permission_saved :: "env \<Rightarrow> request \<Rightarrow> browser_principal \<Rightarrow> bool \<times> bool \<Rightarrow> response web" where
  "permission_saved e r p flags =
     (let chat = rq_wild r ''chatID'' in
      web_then (web_op (\<lambda>_. reply_error 500 ''Ruxsat saqlanmadi.'') (set_permission e (bp_account p) chat flags)) (\<lambda>n.
      web_then (pass_check (if n \<noteq> 1 then Some (reply_error 404 ''Chat topilmadi.'') else None)) (\<lambda>_.
      web_then (audited (\<lambda>_. e) r (browser_reader p) ''CHAT_PERMISSION_CHANGED'' ''chat'' chat
          (JObj [(''can_read'', JBool (fst flags)), (''can_send'', JBool (snd flags))])) (\<lambda>_.
      web_done (reply 200 (JObj [(''can_read'', JBool (fst flags)), (''can_send'', JBool (snd flags))]))))))"

lemma accountPermission_steps:
  "accountPermission e base r =
     web_then (browserPrincipal e base r) (\<lambda>p.
     web_then (need (reply_error 400 (''Chat noto'' @ lq @ ''g'' @ lq @ ''ri.'')) (e_parse e (rq_wild r ''chatID''))) (\<lambda>_.
     web_then (need bad_body (permission_body r)) (permission_saved e r p)))"
  by (simp only: accountPermission_def permission_saved_def [abs_def] Let_def)

lemma set_permission_failed: "set_permission e account chat flags d = (Inl err, d') \<Longrightarrow> d' = d"
  by (auto simp: set_permission_def split: if_splits option.splits)

lemma permission_saved_effect:
  assumes "permission_saved e r p flags s = (x, s')" "permissions (wk_db s') \<noteq> permissions (wk_db s)"
  shows "\<exists>d1 als. set_permission e (bp_account p) (rq_wild r ''chatID'') flags (wk_db s) = (Inr 1, d1)
    \<and> wk_db s' = d1\<lparr>audit_logs := als\<rparr>"
proof -
  let ?set = "set_permission e (bp_account p) (rq_wild r ''chatID'') flags (wk_db s)"
  obtain res d1 where st: "?set = (res, d1)" by fastforce
  show ?thesis
  proof (cases res)
    case (Inl err)
    then show ?thesis
      using assms set_permission_failed [OF st [unfolded Inl]]
      by (auto simp: permission_saved_def Let_def web_then_def web_op_def st)
  next
    case (Inr n)
    show ?thesis
    proof (cases "n = 1")
      case False
      then have "d1 = wk_db s" using set_permission_effect [OF st [unfolded Inr]] by blast
      then show ?thesis
        using assms False by (auto simp: permission_saved_def Let_def web_then_def web_op_def st Inr pass_check_def refuse_def)
    next
      case True
      obtain y s2 where au: "audited (\<lambda>_. e) r (browser_reader p) ''CHAT_PERMISSION_CHANGED'' ''chat'' (rq_wild r ''chatID'')
          (JObj [(''can_read'', JBool (fst flags)), (''can_send'', JBool (snd flags))]) (set_db d1 s) = (y, s2)" by fastforce
      have "s' = s2"
        using assms(1) by (cases y) (simp_all add: permission_saved_def Let_def web_then_def web_op_def st Inr True pass_check_def web_done_def au)
      then show ?thesis using audited_any [OF au] st Inr True by auto
    qed
  qed
qed

text \<open>C5: Only the owner changes a permission: when a request to the account page leaves any permission
  other than it was, whatever it answers, then it came with a live session of the account's own user
  and, unless it was a read, that session's CSRF token; the chat is an active one of that account;
  and what may be read and sent there is exactly what the body says, and everything else as before.
\<close>

theorem permission_change_guarded:
  assumes "accountPermission e base r s = (x, s')" "permissions (wk_db s') \<noteq> permissions (wk_db s)"
  shows "change_guarded e base r (wk_db s) (wk_db s')"
proof -
  obtain b s1 where b: "browserPrincipal e base r s = (b, s1)" by fastforce
  note db = browser_kept [OF b]
  obtain p where p: "b = Inr p"
    using assms db by (cases b) (auto simp: accountPermission_steps web_then_def b)
  obtain flags where f: "permission_body r = Some flags" and run: "permission_saved e r p flags s1 = (x, s')"
    using assms db by (auto simp: accountPermission_steps web_then_def b p need_def refuse_def web_done_def split: option.splits)
  obtain d1 als where d1: "set_permission e (bp_account p) (rq_wild r ''chatID'') flags (wk_db s) = (Inr 1, d1)"
      "wk_db s' = d1\<lparr>audit_logs := als\<rparr>"
    using permission_saved_effect [OF run] assms(2) by (auto simp: db)
  show ?thesis
    using browserD [OF b [unfolded p]] f set_permission_effect [OF d1(1)]
    unfolding change_guarded_def d1(2) may_chat_audit by auto
qed

section \<open>Disconnecting a client\<close>

lemma closed_grant_no_ticket:
  assumes "closed_grant a c d" "ticket_token e h d = Some (t, k)"
  shows "at_account k \<noteq> a \<or> at_client k \<noteq> c"
proof -
  have live: "token_live e d k"
    using assms(2) by (auto simp: ticket_token_def split: option.splits dest!: find_in_set)
  obtain g where g: "g \<in> set (clients d)" "gc_id g = at_client k" "gc_user g = at_user k" "gc_status g = ClientActive"
    using live by (auto simp: token_live_def token_client_def dest!: find_in_set)
  obtain u where "u \<in> set (accounts d)" "acc_id u = at_account k" "acc_user u = at_user k"
    using live by (auto simp: token_live_def exists_row_def)
  then show ?thesis using assms(1) g unfolding closed_grant_def by (metis client_status.distinct(1))
qed

lemma revoke_tx_closes:
  assumes inv: "oauth_inv e0 d" and tx: "revoke_tx e i p d = (None, d')"
  obtains a c where "e_uuid e (bp_account p) = Some a" "e_uuid e i = Some c" "closed_grant a c d'" "oauth_inv e0 d'"
proof -
  obtain a c u t where ids: "e_uuid e (bp_account p) = Some a" "e_uuid e i = Some c"
    and t: "t \<in> set (tokens d)" "at_client t = c" "at_account t = a"
    using tx by (auto simp: revoke_tx_def holds_token_def exists_row_def split: if_splits option.splits)
  have rv: "RevokeGrant e (bp_account p) i d = (Inr (), d')"
    using tx by (auto simp: revoke_tx_def split: if_splits prod.splits sum.splits)
  have "token_row_ok d t" using oauth_invD(2) [OF inv] t(1) by (simp add: access_inv_def)
  then have known: "a \<in> acc_id ` set (accounts d)" "c \<in> gc_id ` set (clients d)"
    using t(2,3) by (force simp: token_row_ok_def)+
  have "distinct (map acc_id (accounts d))" using oauth_invD(1) [OF inv] by (simp add: accounts_inv_def)
  from RevokeGrant_closes [OF rv ids known this] show thesis
    using that [OF ids] RevokeGrant_inv [OF inv, of e "bp_account p" i] rv by simp
qed

lemma revoke_tx_refuses: "revoke_tx e i p d = (Some resp, d') \<Longrightarrow> rs_status resp \<notin> ok_statuses"
  by (auto simp: revoke_tx_def revoke_failed_def no_connection_def ok_statuses_def split: if_splits prod.splits sum.splits)

lemma accountRevoke_steps:
  assumes "answer_web (accountRevoke e base r) s = (resp, s')" "rs_status resp \<in> ok_statuses"
  obtains p d1 als where "Authenticate e base r (wk_db s) = Inr p" "rq_method r = ''GET'' \<or> CheckCSRF base r p"
    "revoke_tx e (rq_wild r ''clientID'') p (wk_db s) = (None, d1)"
    "wk_db s' = snd (Write e (browser_event p ''USER_CLIENT_REVOKED'' (rq_wild r ''clientID'')) d1)"
proof -
  let ?i = "rq_wild r ''clientID''"
  obtain p s1 where b: "browserPrincipal e base r s = (Inr p, s1)"
    and run: "answer_web (web_then (need no_connection (e_parse e ?i)) (\<lambda>_.
      web_then (\<lambda>s. case revoke_tx e ?i p (wk_db s) of
          (Some resp, d) \<Rightarrow> (Inl resp, set_db d s)
        | (None, d) \<Rightarrow> (Inr (), set_db d s)) (\<lambda>_.
      web_then (write_audit e (browser_event p ''USER_CLIENT_REVOKED'' ?i)
          (reply_error 503 (''Bekor qilish yozuvini saqlab bo'' @ lq @ ''lmadi.''))) (\<lambda>_.
      web_done (reply 200 (JObj [(''status'', JStr ''revoked'')])))))) s1 = (resp, s')"
    by (rule answer_then [OF assms(1) [unfolded accountRevoke_def Let_def] assms(2) refusing_browser])
  obtain k s2 where n: "need no_connection (e_parse e ?i) s1 = (Inr k, s2)"
    and run: "answer_web (web_then (\<lambda>s. case revoke_tx e ?i p (wk_db s) of
          (Some resp, d) \<Rightarrow> (Inl resp, set_db d s)
        | (None, d) \<Rightarrow> (Inr (), set_db d s)) (\<lambda>_.
      web_then (write_audit e (browser_event p ''USER_CLIENT_REVOKED'' ?i)
          (reply_error 503 (''Bekor qilish yozuvini saqlab bo'' @ lq @ ''lmadi.''))) (\<lambda>_.
      web_done (reply 200 (JObj [(''status'', JStr ''revoked'')]))))) s2 = (resp, s')"
    by (rule answer_then [OF run assms(2)]) (auto intro!: refusals simp: no_connection_def ok_statuses_def)
  obtain d1 where tx: "revoke_tx e ?i p (wk_db s2) = (None, d1)"
    and run: "answer_web (web_then (write_audit e (browser_event p ''USER_CLIENT_REVOKED'' ?i)
          (reply_error 503 (''Bekor qilish yozuvini saqlab bo'' @ lq @ ''lmadi.''))) (\<lambda>_.
      web_done (reply 200 (JObj [(''status'', JStr ''revoked'')])))) (set_db d1 s2) = (resp, s')"
    by (rule answer_then [OF run assms(2)])
      (auto simp: refusing_def dest: revoke_tx_refuses split: prod.splits option.splits)
  have s2: "wk_db s2 = wk_db s" using n browserD(3) [OF b] by (simp add: went_on)
  obtain u s3 where "write_audit e (browser_event p ''USER_CLIENT_REVOKED'' ?i)
          (reply_error 503 (''Bekor qilish yozuvini saqlab bo'' @ lq @ ''lmadi.'')) (set_db d1 s2) = (Inr u, s3)" "s' = s3"
    by (rule answer_then [OF run assms(2)]) (auto intro!: refusals simp: answer_done ok_statuses_def)
  then have "wk_db s' = snd (Write e (browser_event p ''USER_CLIENT_REVOKED'' ?i) d1)"
    by (auto simp: write_audit_def split: prod.splits sum.splits)
  then show thesis using that browserD(1,2) [OF b] tx by (simp add: s2)
qed

text \<open>C11: Disconnecting a client is final: when the account page answers that a client is disconnected,
  the request came from the account's own browser session, with its CSRF token unless it was a read,
  and from then on, whatever is requested, issued or cleaned up, no bearer token acts for that
  client on that account and no download link made with one serves a file.
\<close>

theorem disconnect_final:
  assumes inv: "oauth_inv e0 (wk_db s)" and ok: "answer_web (accountRevoke e base r) s = (resp, s')" "rs_status resp = 200"
    and later: "(grant_step e0 H)\<^sup>*\<^sup>* (wk_db s') d2"
  shows "\<exists>p a c. Authenticate e base r (wk_db s) = Inr p \<and> (rq_method r = ''GET'' \<or> CheckCSRF base r p)
    \<and> e_uuid e (bp_account p) = Some a \<and> e_uuid e (rq_wild r ''clientID'') = Some c
    \<and> (\<forall>e' bearer q. AuthenticateBearer e' bearer d2 = Inr q \<longrightarrow> p_account q \<noteq> a \<or> p_client q \<noteq> c)
    \<and> (\<forall>e' h t k. ticket_token e' h d2 = Some (t, k) \<longrightarrow> at_account k \<noteq> a \<or> at_client k \<noteq> c)"
proof -
  obtain p d1 where p: "Authenticate e base r (wk_db s) = Inr p" "rq_method r = ''GET'' \<or> CheckCSRF base r p"
      "revoke_tx e (rq_wild r ''clientID'') p (wk_db s) = (None, d1)"
      "wk_db s' = snd (Write e (browser_event p ''USER_CLIENT_REVOKED'' (rq_wild r ''clientID'')) d1)"
    by (rule accountRevoke_steps [OF ok(1)]) (simp add: ok(2) ok_statuses_def)
  obtain a c where ac: "e_uuid e (bp_account p) = Some a" "e_uuid e (rq_wild r ''clientID'') = Some c"
      "closed_grant a c d1" "oauth_inv e0 d1"
    by (rule revoke_tx_closes [OF inv p(3)])
  have "closed_grant a c (wk_db s')" "oauth_inv e0 (wk_db s')"
    using ac(3,4) stage_audit [of e0 d1 e] by (simp_all add: p(4) Write_closed)
  then have "closed_grant a c d2" using closed_grant_steps [OF later] by blast
  then show ?thesis
    using p(1,2) ac(1,2) closed_grant_no_auth closed_grant_no_ticket by (intro exI [of _ p] exI [of _ a] exI [of _ c]) blast
qed

end
