(* ===== verification/PageDemo.thy ===== *)
theory PageDemo
  imports PageTheorems
begin

text \<open>A permission taken back on the account page, and a client disconnected there.\<close>

definition demo_owner_session :: browser_session where
  "demo_owner_session = \<lparr>bs_hash = go_hash demo_env demo_cookie, bs_user = ''u1'', bs_account = ''a1'', bs_expires = 9000000\<rparr>"

definition demo_page_request :: "string \<Rightarrow> request" where
  "demo_page_request bs =
     \<lparr>rq_method = ''POST'', rq_url = no_url\<lparr>u_path := ''/account''\<rparr>, rq_host = [],
      rq_header = (\<lambda>h. if h = ''X-CSRF-Token'' then csrf demo_env demo_cookie else []),
      rq_cookie = (\<lambda>c. if c = ''tgw_session'' then Some demo_cookie else None), rq_remote = ''r'',
      rq_body = bs, rq_form = None, rq_basic = None,
      rq_wild = (\<lambda>n. if n = ''chatID'' then ''b1'' else if n = ''clientID'' then ''c1'' else [])\<rparr>"

definition demo_take_back :: request where
  "demo_take_back = demo_page_request (json_marshal (JObj [(''can_read'', JBool True), (''can_send'', JBool False)]))"

definition demo_owner_worker :: worker where
  "demo_owner_worker = \<lparr>wk_world = \<lparr>wd_db = demo_send_db\<lparr>sessions := [demo_owner_session]\<rparr>, wd_redis = empty_redis, wd_time = 100\<rparr>,
     wk_bus = [], wk_store = Map.empty\<rparr>"

definition demo_taken :: "(response + response) \<times> worker" where
  "demo_taken = accountPermission demo_env [] demo_take_back demo_owner_worker"

definition demo_owner :: browser_principal where
  "demo_owner = \<lparr>bp_user = ''u1'', bp_account = ''a1'', bp_name = ''Telegram account'', bp_csrf = csrf demo_env demo_cookie\<rparr>"

lemma demo_take_back_body: "permission_body demo_take_back = Some (True, False)"
proof -
  let ?v = "JObj [(''can_read'', JBool True), (''can_send'', JBool False)]"
  have "decode_body 16384 (json_marshal ?v) = Some ?v"
  proof (rule decode_marshal)
    show "plain_json ?v" by code_simp
    show "length (json_marshal ?v) \<le> 16384" by code_simp
  qed
  then have "page_body demo_take_back = Some [(''can_read'', JBool True), (''can_send'', JBool False)]"
    by (simp add: page_body_def demo_take_back_def demo_page_request_def del: json_marshal.simps)
  moreover have "\<not> unknown_field [''can_read'', ''can_send''] [(''can_read'', JBool True), (''can_send'', JBool False)]"
    "struct_field ''can_read'' dec_bool False [(''can_read'', JBool True), (''can_send'', JBool False)] = Some True"
    "struct_field ''can_send'' dec_bool False [(''can_read'', JBool True), (''can_send'', JBool False)] = Some False"
    by code_simp+
  ultimately show ?thesis by (simp add: permission_body_def)
qed

lemma demo_owner_admitted: "fst (browserPrincipal demo_env [] demo_take_back demo_owner_worker) = Inr demo_owner"
  by code_simp

lemma demo_send_flag: "map cp_send (permissions (snd (set_permission demo_env ''a1'' ''b1'' (True, False) (wk_db demo_owner_worker)))) = [False]"
  by code_simp

lemma demo_taken_back: "map cp_send (permissions (wk_db (snd demo_taken))) = [False]"
proof -
  obtain s1 where b: "browserPrincipal demo_env [] demo_take_back demo_owner_worker = (Inr demo_owner, s1)"
    using demo_owner_admitted by (metis prod.collapse)
  obtain res d1 where st: "set_permission demo_env ''a1'' ''b1'' (True, False) (wk_db s1) = (res, d1)" by fastforce
  have d1: "map cp_send (permissions d1) = [False]"
    using demo_send_flag st by (simp add: browser_kept [OF b])
  obtain y s2 where au: "audited (\<lambda>_. demo_env) demo_take_back (browser_reader demo_owner) ''CHAT_PERMISSION_CHANGED'' ''chat'' ''b1''
          (JObj [(''can_read'', JBool True), (''can_send'', JBool False)]) (set_db d1 s1) = (y, s2)" by fastforce
  have ids: "rq_wild demo_take_back ''chatID'' = ''b1''" "bp_account demo_owner = ''a1''"
    by (simp_all add: demo_take_back_def demo_page_request_def demo_owner_def)
  have "e_parse demo_env i = Some i" for i by (simp add: demo_env_def)
  then have taken: "demo_taken = permission_saved demo_env demo_take_back demo_owner (True, False) s1"
    by (simp add: demo_taken_def accountPermission_steps web_then_def b need_def web_done_def demo_take_back_body)
  have "wk_db (snd (permission_saved demo_env demo_take_back demo_owner (True, False) s1)) \<in> {d1, wk_db s2}"
    using st au ids
    by (cases res; cases y) (auto simp: permission_saved_def Let_def web_then_def web_op_def pass_check_def refuse_def web_done_def)
  then show ?thesis using d1 audited_any [OF au] by (auto simp: taken)
qed

theorem permission_change_guarded_witness:
  "change_guarded demo_env [] demo_take_back (wk_db demo_owner_worker) (wk_db (snd demo_taken))"
proof -
  have "map cp_send (permissions (wk_db demo_owner_worker)) = [True]"
    by (simp add: demo_owner_worker_def demo_send_db_def)
  with demo_taken_back have "permissions (wk_db (snd demo_taken)) \<noteq> permissions (wk_db demo_owner_worker)" by force
  from permission_change_guarded [OF _ this, of demo_env "[]" demo_take_back "fst demo_taken"]
  show ?thesis by (simp add: demo_taken_def)
qed

definition demo_connected :: worker where
  "demo_connected = \<lparr>wk_world = \<lparr>wd_db = demo_oauth\<lparr>tokens := [demo_token], sessions := [demo_owner_session]\<rparr>,
     wd_redis = empty_redis, wd_time = 100\<rparr>, wk_bus = [], wk_store = Map.empty\<rparr>"

definition demo_disconnect :: "response \<times> worker" where
  "demo_disconnect = answer_web (accountRevoke demo_env [] (demo_page_request ''{}'')) demo_connected"

lemma demo_disconnected: "rs_status (fst demo_disconnect) = 200"
  by code_simp

lemma demo_scopes: "set [''chat:read'', ''media:read''] \<subseteq> set allowed_scopes"
  by code_simp

lemma demo_connected_inv: "oauth_inv demo_env (wk_db demo_connected)"
proof -
  have "accounts_inv (wk_db demo_connected)"
    using demo_accounts_inv accounts_inv_cong [of "wk_db demo_connected" demo_db]
    by (simp add: demo_connected_def demo_oauth_def)
  moreover have "access_inv (wk_db demo_connected)"
    using demo_scopes by (auto simp: demo_connected_def demo_oauth_def access_inv_def token_row_ok_def demo_token_def demo_defs)
  ultimately show ?thesis
    using demo_scopes
    by (simp add: oauth_inv_def demo_connected_def demo_oauth_def code_ok_def refresh_ok_def grant_ok_def client_used_def
        demo_code_def demo_rt_def demo_oc_def demo_token_def demo_defs)
qed

theorem disconnect_final_witness:
  "rs_status (fst demo_disconnect) = 200
    \<and> (\<nexists>e' bearer q. AuthenticateBearer e' bearer (wk_db (snd demo_disconnect)) = Inr q \<and> p_account q = ''a1'' \<and> p_client q = ''c1'')
    \<and> (\<nexists>e' h t k. ticket_token e' h (wk_db (snd demo_disconnect)) = Some (t, k) \<and> at_account k = ''a1'' \<and> at_client k = ''c1'')"
proof -
  have run: "answer_web (accountRevoke demo_env [] (demo_page_request ''{}'')) demo_connected
      = (fst demo_disconnect, snd demo_disconnect)"
    by (simp add: demo_disconnect_def)
  have "Authenticate demo_env [] (demo_page_request ''{}'') (wk_db demo_connected) = Inr p \<Longrightarrow> bp_account p = ''a1''" for p
    by (auto simp: Authenticate_def live_session_def demo_connected_def demo_owner_session_def
        split: option.splits if_splits dest!: find_in_set)
  with disconnect_final [OF demo_connected_inv run demo_disconnected, where H = "{}" and ?d2.0 = "wk_db (snd demo_disconnect)"]
  show ?thesis using demo_disconnected by (auto simp: demo_page_request_def demo_env_def)
qed

end
