(* ===== verification/Manager.thy ===== *)
theory Manager
  imports Runtime Updates
begin

text \<open>
  The session manager (\<open>internal/gateway/manager.go\<close>): which accounts it runs, and the life of
  one account's session, from the lease to the end.  Updates that arrive before the session's
  Telegram user is known to be the account's own are held back.
\<close>

section \<open>State\<close>

text \<open>What the manager and its sessions share: the database and the streams, the journal
  \<open>telegram_updates\<close> with its id sequence, and the accounts in \<open>m.sessions\<close> and \<open>m.ready\<close>.\<close>

record site =
  st_worker :: worker
  st_journal :: journal
  st_next :: int
  st_running :: "string list"
  st_ready :: "string list"

text \<open>The variables of \<open>runAccount\<close>.\<close>

record account_run =
  ar_account :: string
  ar_lease :: run_lease
  ar_storage :: uuid
  ar_expected :: "int option"
  ar_buffer :: "update list"
  ar_verified :: bool
  ar_activated :: bool
  ar_renewed :: time
  ar_synced :: time

section \<open>Which accounts to run\<close>

definition desired_online :: "db \<Rightarrow> uuid \<Rightarrow> bool" where
  "desired_online d a =
     (case find (\<lambda>r. sr_acc r = a) (runtimes d) of None \<Rightarrow> True | Some r \<Rightarrow> sr_desired r = DOnline)"

definition wanted :: "db \<Rightarrow> string list" where
  "wanted d = map acc_id (filter (\<lambda>a. acc_status a \<in> {Pending, Active} \<and> desired_online d (acc_id a)) (accounts d))"

text \<open>One round of \<open>Run\<close>: the accounts it starts now, each marked as running.\<close>

fun mark_started :: "string list \<Rightarrow> string list \<Rightarrow> string list \<times> string list" where
  "mark_started [] running = ([], running)"
| "mark_started (i # ids) running =
     (if i \<in> set running then mark_started ids running
      else (case mark_started ids (running @ [i]) of (new, running') \<Rightarrow> (i # new, running')))"

definition Run :: "env \<Rightarrow> bool \<Rightarrow> site \<Rightarrow> string list \<times> site" where
  "Run e configured s =
     (if \<not> configured \<or> e_fail e ''manager.Run'' then ([], s)
      else (case mark_started (wanted (wk_db (st_worker s))) (st_running s) of
          (new, running) \<Rightarrow> (new, s\<lparr>st_running := running\<rparr>)))"

section \<open>The start of a session\<close>

definition run_ttl :: duration where
  "run_ttl = 45 * second_ns"

definition on_site :: "(db \<Rightarrow> 'a result \<times> db) \<Rightarrow> site \<Rightarrow> 'a result \<times> site" where
  "on_site f s = (case on_db f (st_worker s) of (r, w) \<Rightarrow> (r, s\<lparr>st_worker := w\<rparr>))"

text \<open>The deferred steps of \<open>runAccount\<close>, from the point where the lease is held.\<close>

definition forget_run :: "string \<Rightarrow> site \<Rightarrow> site" where
  "forget_run i s = s\<lparr>st_running := removeAll i (st_running s), st_ready := removeAll i (st_ready s)\<rparr>"

definition end_run :: "env \<Rightarrow> string \<Rightarrow> run_lease \<Rightarrow> site \<Rightarrow> site" where
  "end_run e i l s = forget_run i (snd (on_site (Release e l) s))"

definition run_row :: "env \<Rightarrow> string \<Rightarrow> db \<Rightarrow> (uuid \<times> int option) option" where
  "run_row e i d =
     (if e_fail e ''runAccount.select'' then None
      else (case e_uuid e i of
          None \<Rightarrow> None
        | Some a \<Rightarrow> map_option (\<lambda>x. (acc_session_dir x, acc_tg x)) (find (\<lambda>x. acc_id x = a) (accounts d))))"

text \<open>\<open>opened\<close> is the error of \<open>tdlib.Open\<close>, if any; \<open>t\<close> the lease's random token.\<close>

definition start_run ::
    "env \<Rightarrow> uuid \<Rightarrow> string \<Rightarrow> (uuid \<Rightarrow> go_err option) \<Rightarrow> string \<Rightarrow> site \<Rightarrow> account_run option \<times> site" where
  "start_run e t worker_id opened i s =
     (case on_site (Runtime.Acquire e t i worker_id ''pc'' run_ttl) s of
        (Inr (Some l), s') \<Rightarrow>
          (case run_row e i (wk_db (st_worker s')) of
             None \<Rightarrow> (None, end_run e i l s')
           | Some (dir, expected) \<Rightarrow>
               (case opened dir of
                  Some err \<Rightarrow> (None, end_run e i l (snd (on_site (SetObservedState e l ''error'' (err_text err)) s')))
                | None \<Rightarrow> (Some \<lparr>ar_account = i, ar_lease = l, ar_storage = dir, ar_expected = expected, ar_buffer = [],
                     ar_verified = False, ar_activated = False, ar_renewed = e_clock e, ar_synced = zero_time\<rparr>, s')))
      | (r, s') \<Rightarrow> (None, forget_run i s'))"

section \<open>Updates\<close>

text \<open>The lease row that lets a session write: held, and not expired.\<close>

definition owned :: "time \<Rightarrow> uuid \<Rightarrow> run_lease \<Rightarrow> db \<Rightarrow> bool" where
  "owned now a l d =
     exists_row (\<lambda>r. sr_acc r = a \<and> sr_worker r = Some (rl_worker l) \<and> sr_token r = Some (rl_token l)
       \<and> sr_generation r = rl_gen l \<and> (case sr_expires r of None \<Rightarrow> False | Some x \<Rightarrow> now < x)) (runtimes d)"

text \<open>\<open>persist\<close>; \<open>jb\<close> is what reading the stored payload back gives, None when PostgreSQL
  refuses it.\<close>

definition persist :: "env \<Rightarrow> (update \<Rightarrow> update option) \<Rightarrow> account_run \<Rightarrow> update \<Rightarrow> site \<Rightarrow> unit result \<times> site" where
  "persist e jb r u s =
     (if e_fail e ''persist'' \<or> jb u = None then (Inl (DbErr ''insert''), s)
      else (case e_uuid e (ar_account r) of
          None \<Rightarrow> (Inl (DbErr ''invalid uuid''), s)
        | Some a \<Rightarrow>
            if owned (e_now e) a (ar_lease r) (wk_db (st_worker s))
            then (Inr (), s\<lparr>st_journal := st_journal s @ [\<lparr>jr_id = st_next s, jr_account = a, jr_update = jb u\<rparr>],
                            st_next := st_next s + 1\<rparr>)
            else (Inl (Msg ''session ownership lost''), s)))"

definition backlog :: nat where
  "backlog = 10000"

text \<open>\<open>OnUpdate\<close>; \<open>auto\<close> is the configuration's switch.\<close>

definition on_update ::
    "env \<Rightarrow> bool \<Rightarrow> (update \<Rightarrow> update option) \<Rightarrow> update \<Rightarrow> account_run \<Rightarrow> site \<Rightarrow> unit result \<times> account_run \<times> site" where
  "on_update e auto jb u r s =
     (if \<not> auto then (Inr (), r, s)
      else if \<not> ar_verified r then
        (if backlog \<le> length (ar_buffer r) then (Inl (Msg ''Telegram identity verification backlog exceeded''), r, s)
         else (Inr (), r\<lparr>ar_buffer := ar_buffer r @ [u]\<rparr>, s))
      else (case persist e jb r u s of (res, s') \<Rightarrow> (res, r, s')))"

fun flush :: "env \<Rightarrow> (update \<Rightarrow> update option) \<Rightarrow> account_run \<Rightarrow> update list \<Rightarrow> site \<Rightarrow> unit result \<times> site" where
  "flush e jb r [] s = (Inr (), s)"
| "flush e jb r (u # us) s =
     (case persist e jb r u s of
        (Inl err, s') \<Rightarrow> (Inl err, s')
      | (Inr _, s') \<Rightarrow> flush e jb r us s')"

section \<open>The loop\<close>

text \<open>A step of the loop goes on with the run or ends it.\<close>

type_synonym 'a turn = "site \<Rightarrow> 'a option \<times> site"

definition turn_then :: "'a turn \<Rightarrow> ('a \<Rightarrow> 'b turn) \<Rightarrow> 'b turn" where
  "turn_then m f = (\<lambda>s. case m s of (None, s') \<Rightarrow> (None, s') | (Some x, s') \<Rightarrow> f x s')"

definition attempt :: "(site \<Rightarrow> 'a result \<times> site) \<Rightarrow> 'a turn" where
  "attempt f = (\<lambda>s. case f s of (Inl err, s') \<Rightarrow> (None, s') | (Inr x, s') \<Rightarrow> (Some x, s'))"

text \<open>What the session shows at a tick: its state, whether it is ready, and its profile.\<close>

record seen =
  sn_state :: string
  sn_ready :: bool
  sn_profile :: "profile result"

definition disconnected :: "env \<Rightarrow> account_run \<Rightarrow> 'a turn" where
  "disconnected e r = (\<lambda>s. (None, snd (on_site (MarkDisconnected e (ar_account r)) s)))"

definition still_there :: "env \<Rightarrow> seen \<Rightarrow> account_run \<Rightarrow> account_run turn" where
  "still_there e v r =
     (if ar_expected r \<noteq> None \<and> \<not> ar_activated r
         \<and> sn_state v \<in> {''authorizationStateWaitPhoneNumber'', ''authorizationStateLoggingOut''}
        then disconnected e r
      else if ar_activated r \<and> \<not> sn_ready v then disconnected e r
      else (\<lambda>s. (Some r, s)))"

definition wants_online :: "env \<Rightarrow> account_run \<Rightarrow> db \<Rightarrow> bool" where
  "wants_online e r d =
     (\<not> e_fail e ''runAccount.desired''
      \<and> (case e_uuid e (ar_account r) of
           None \<Rightarrow> False
         | Some a \<Rightarrow> (case find (\<lambda>x. sr_acc x = a) (runtimes d) of None \<Rightarrow> False | Some x \<Rightarrow> sr_desired x = DOnline)))"

definition keep_lease :: "env \<Rightarrow> account_run \<Rightarrow> account_run turn" where
  "keep_lease e r =
     (if e_clock e - ar_renewed r < 10 * 1000000 then (\<lambda>s. (Some r, s))
      else turn_then (attempt (on_site (Renew e (ar_lease r) run_ttl))) (\<lambda>_ s.
        (if wants_online e r (wk_db (st_worker s)) then Some (r\<lparr>ar_renewed := e_clock e\<rparr>) else None, s)))"

definition on_streams :: "(bus, unit) act \<Rightarrow> site \<Rightarrow> unit result \<times> site" where
  "on_streams f s = (case on_bus f (st_worker s) of (x, w) \<Rightarrow> (x, s\<lparr>st_worker := w\<rparr>))"

definition sync_again :: "env \<Rightarrow> bool \<Rightarrow> bytes \<Rightarrow> account_run \<Rightarrow> account_run turn" where
  "sync_again e auto rnd r =
     (if \<not> (auto \<and> ar_activated r \<and> 30 * 60 * 1000000 < e_clock e - ar_synced r) then (\<lambda>s. (Some r, s))
      else (\<lambda>s. case on_streams (EnqueueAccountBootstrap e rnd (ar_account r) True) s of
          (Inl err, s') \<Rightarrow> (Some r, s')
        | (Inr _, s') \<Rightarrow> (Some (r\<lparr>ar_synced := e_clock e\<rparr>), s')))"

text \<open>The first time the session is ready: whose is it?\<close>

definition flush_held :: "env \<Rightarrow> (update \<Rightarrow> update option) \<Rightarrow> account_run \<Rightarrow> account_run turn" where
  "flush_held e jb r =
     turn_then (attempt (flush e jb r (ar_buffer r))) (\<lambda>_ s. (Some (r\<lparr>ar_verified := True, ar_buffer := []\<rparr>), s))"

definition make_ready :: "env \<Rightarrow> bool \<Rightarrow> bytes \<Rightarrow> profile \<Rightarrow> account_run \<Rightarrow> account_run turn" where
  "make_ready e auto rnd p r =
     turn_then (attempt (on_site (Activate e (ar_account r) (pr_user p) (pr_display p) (pr_username p)))) (\<lambda>_.
     turn_then (attempt (on_site (SetObservedState e (ar_lease r) ''ready'' []))) (\<lambda>_ s.
       (case (if auto then on_streams (EnqueueAccountBootstrap e rnd (ar_account r) True) else Pair (Inr ()))
               (s\<lparr>st_ready := List.insert (ar_account r) (st_ready s)\<rparr>) of
          (Inl err, s') \<Rightarrow> (None, s')
        | (Inr _, s') \<Rightarrow> (Some (r\<lparr>ar_activated := True, ar_synced := e_clock e\<rparr>), s'))))"

definition identify :: "env \<Rightarrow> bool \<Rightarrow> (update \<Rightarrow> update option) \<Rightarrow> bytes \<Rightarrow> seen \<Rightarrow> account_run \<Rightarrow> account_run turn" where
  "identify e auto jb rnd v r =
     (if ar_activated r \<or> \<not> sn_ready v then (\<lambda>s. (Some r, s))
      else (case sn_profile v of
          Inl err \<Rightarrow> (\<lambda>s. (Some r, s))
        | Inr p \<Rightarrow>
            if ar_expected r \<noteq> None \<and> ar_expected r \<noteq> Some (pr_user p) then disconnected e r
            else turn_then (flush_held e jb r) (make_ready e auto rnd p)))"

definition tick :: "env \<Rightarrow> bool \<Rightarrow> (update \<Rightarrow> update option) \<Rightarrow> bytes \<Rightarrow> seen \<Rightarrow> account_run \<Rightarrow> account_run turn" where
  "tick e auto jb rnd v r =
     turn_then (still_there e v r) (\<lambda>r.
     turn_then (keep_lease e r) (\<lambda>r.
     turn_then (sync_again e auto rnd r) (identify e auto jb rnd v)))"

end
