(* ===== verification/ManagerTheorems.thy ===== *)
theory ManagerTheorems
  imports Manager
begin

text \<open>
  A session's life: what one run of an account stores in the journal of updates, and when the
  account may be used.
\<close>

section \<open>Steps that leave the journal alone\<close>





lemma turn_then_some: "turn_then m f s = (Some y, s'') \<longleftrightarrow> (\<exists>x s'. m s = (Some x, s') \<and> f x s' = (Some y, s''))"
  by (auto simp: turn_then_def split: prod.splits option.splits)

lemma turn_then_none:
  "turn_then m f s = (None, s'') \<longleftrightarrow> m s = (None, s'') \<or> (\<exists>x s'. m s = (Some x, s') \<and> f x s' = (None, s''))"
  by (auto simp: turn_then_def split: prod.splits option.splits)

lemma attempt_some: "attempt f s = (Some x, s') \<longleftrightarrow> f s = (Inr x, s')"
  by (auto simp: attempt_def split: prod.splits sum.splits)

lemma attempt_none: "attempt f s = (None, s') \<longleftrightarrow> (\<exists>err. f s = (Inl err, s'))"
  by (auto simp: attempt_def split: prod.splits sum.splits)






section \<open>Steps that store updates\<close>










section \<open>One run\<close>





















section \<open>A concrete run\<close>









end
