(* ===== verification/Mcp.thy ===== *)
theory Mcp
  imports Collections
begin

text \<open>
  The tools of the MCP server (\<open>internal/mcpserver\<close>): each builds the address of an API request
  from its input, and is answered by the same handler chain as any API client, with the
  authorization of the MCP request.  The protocol itself is the SDK's.
\<close>

section \<open>Tools and their input (server.go)\<close>

text \<open>A \<open>float64\<close>; a finite one is its exact value, and the two zeros are one.\<close>

datatype float64 = NaN | Infinite | Finite rat

record tool_input =
  ti_query :: string
  ti_chat :: string
  ti_media :: string
  ti_cursor :: string
  ti_second :: float64
  ti_limit :: int

record tool =
  tl_name :: string
  tl_path :: string
  tl_scope :: string
  tl_query :: bool
  tl_chat :: bool
  tl_media :: bool
  tl_cursor :: bool

definition tool_of :: "string \<Rightarrow> string \<Rightarrow> string \<Rightarrow> bool \<Rightarrow> bool \<Rightarrow> bool \<Rightarrow> bool \<Rightarrow> tool" where
  "tool_of name path scope q c m cursor =
     \<lparr>tl_name = name, tl_path = path, tl_scope = scope, tl_query = q, tl_chat = c, tl_media = m, tl_cursor = cursor\<rparr>"

definition definitions :: "tool list" where
  "definitions =
     [tool_of ''inspect_media'' ''/v1/media/{media}/inspect'' ''media:read'' False False True False,
      tool_of ''get_profile'' ''/v1/profile'' ''profile:read'' False False False False,
      tool_of ''list_chats'' ''/v1/chats'' ''chats:list'' False False False True,
      tool_of ''search_chats'' ''/v1/chats/search'' ''chat:read'' True False False False,
      tool_of ''get_messages'' ''/v1/chats/{chat}/messages'' ''messages:read'' False True False True,
      tool_of ''search_messages'' ''/v1/messages/search'' ''messages:search'' True True False False,
      tool_of ''list_contacts'' ''/v1/contacts'' ''contacts:read'' False False False True,
      tool_of ''search_contacts'' ''/v1/contacts/search'' ''contacts:read'' True False False False,
      tool_of ''list_chat_members'' ''/v1/chats/{chat}/members'' ''members:read'' False True False True,
      tool_of ''get_media_url'' ''/v1/media/{media}/url'' ''media:read'' False False True False,
      tool_of ''list_message_media'' ''/v1/chats/{chat}/media'' ''media:read'' False True False True]"

text \<open>The tools \<open>New\<close> offers: \<open>scopes\<close> is None outside a request, and all tools are offered.\<close>

definition allowed_by :: "string list option \<Rightarrow> string \<Rightarrow> bool" where
  "allowed_by scopes s = (case scopes of None \<Rightarrow> True | Some ss \<Rightarrow> HasScope ss s)"

definition offered :: "string list option \<Rightarrow> bool \<Rightarrow> string list" where
  "offered scopes writes =
     map tl_name (filter (\<lambda>d. allowed_by scopes (tl_scope d)) definitions)
     @ (if writes \<and> allowed_by scopes ''messages:send'' then [''send_message''] else [])"

section \<open>The address of a tool's request\<close>

function replace_all :: "string \<Rightarrow> string \<Rightarrow> string \<Rightarrow> string" where  \<comment> \<open>strings.ReplaceAll\<close>
  "replace_all p v [] = []"
| "replace_all p v (c # cs) =
     (if p \<noteq> [] \<and> has_prefix (c # cs) p then v @ replace_all p v (drop (length p) (c # cs))
      else c # replace_all p v cs)"
  by pat_completeness auto
termination by (relation "measure (\<lambda>(p, v, s). length s)") auto

text \<open>\<open>FormatFloat(x, 'f', 3, 64)\<close> of a number that is not negative: the nearest, or the even one of two.\<close>

definition half_even :: "rat \<Rightarrow> int" where
  "half_even x =
     (let n = floor x; r = x - of_int n in
      if r < 1 / 2 then n else if 1 / 2 < r then n + 1 else if even n then n else n + 1)"

definition three_digits :: "nat \<Rightarrow> string" where
  "three_digits n = [digit_char (n div 100), digit_char (n div 10 mod 10), digit_char (n mod 10)]"

definition fixed3 :: "rat \<Rightarrow> string" where
  "fixed3 x = (let n = nat (half_even (x * 1000)) in nat_dec (n div 1000) @ ''.'' @ three_digits (n mod 1000))"

definition timestamp :: "float64 \<Rightarrow> rat option" where
  "timestamp v =
     (case v of
        NaN \<Rightarrow> None
      | Infinite \<Rightarrow> None
      | Finite x \<Rightarrow> if x < 0 \<or> 86400 < x then None else Some x)"

text \<open>\<open>parse\<close> is \<open>uuid.Parse\<close>.\<close>

definition named_id :: "(string \<Rightarrow> uuid option) \<Rightarrow> bool \<Rightarrow> string \<Rightarrow> string \<Rightarrow> string \<Rightarrow> string \<Rightarrow> string result" where
  "named_id parse wanted mark i what p =
     (if \<not> wanted then Inr p
      else if parse i = None then Inl (Msg (''valid gateway '' @ what @ '' is required''))
      else Inr (replace_all mark i p))"

definition tool_path :: "(string \<Rightarrow> uuid option) \<Rightarrow> tool \<Rightarrow> tool_input \<Rightarrow> string result" where
  "tool_path parse d i =
     (case named_id parse (tl_chat d) ''{chat}'' (ti_chat i) ''chat_id'' (tl_path d) of
        Inl err \<Rightarrow> Inl err
      | Inr p \<Rightarrow> named_id parse (tl_media d) ''{media}'' (ti_media i) ''media_id'' p)"

definition query_ok :: "string \<Rightarrow> bool" where
  "query_ok q = (trim_space q \<noteq> [] \<and> length q \<le> 2000)"

definition tool_values :: "tool \<Rightarrow> tool_input \<Rightarrow> string option \<Rightarrow> qvals" where
  "tool_values d i second =
     (let q = (if tl_name d = ''search_messages'' then q_set ''chat_id'' (ti_chat i) [] else []);
          q = (case second of None \<Rightarrow> q | Some t \<Rightarrow> q_set ''second'' t q);
          q = (if tl_query d then q_set ''q'' (ti_query i) q else q);
          q = (if 0 < ti_limit i then q_set ''limit'' (itoa (ti_limit i)) q else q)
      in (if tl_cursor d \<and> ti_cursor i \<noteq> [] then q_set ''cursor'' (ti_cursor i) q else q))"

definition with_query :: "string \<Rightarrow> qvals \<Rightarrow> string" where
  "with_query p q = (if q = [] then p else p @ ''?'' @ encode_query q)"

definition buildPath :: "(string \<Rightarrow> uuid option) \<Rightarrow> tool \<Rightarrow> tool_input \<Rightarrow> string result" where
  "buildPath parse d i =
     (if ti_limit i < 0 \<or> 100 < ti_limit i then Inl (Msg ''limit must be between 1 and 100'')
      else (case tool_path parse d i of
          Inl err \<Rightarrow> Inl err
        | Inr p \<Rightarrow>
            if tl_name d = ''inspect_media'' \<and> timestamp (ti_second i) = None then Inl (Msg ''invalid video timestamp'')
            else if tl_query d \<and> \<not> query_ok (ti_query i) then Inl (Msg ''query must contain 1 to 2000 characters'')
            else Inr (with_query p (tool_values d i
                (if tl_name d = ''inspect_media'' then map_option fixed3 (timestamp (ti_second i)) else None)))))"

section \<open>Asking the API\<close>

text \<open>
  What comes back: an error, or a status and a body.  \<open>LocalRead\<close> ignores the error of a request
  that cannot be made; its request is then nil, and setting its header panics.
\<close>

datatype fetched = Panic | NoAnswer | Got int string

type_synonym 's read = "string \<Rightarrow> 's \<Rightarrow> fetched \<times> 's"

text \<open>The body \<open>writeJSON\<close> writes.\<close>

definition body_text :: "response \<Rightarrow> string" where
  "body_text resp = json_marshal (rs_body resp) @ [CHR 0x0A]"

definition local_request :: "string \<Rightarrow> string \<Rightarrow> string \<Rightarrow> string \<Rightarrow> string \<Rightarrow> url \<Rightarrow> request" where
  "local_request meth auth remote agent bs u =
     \<lparr>rq_method = meth, rq_url = u, rq_host = u_host u,
      rq_header = (\<lambda>n. if n = ''Authorization'' then auth else if n = ''User-Agent'' then agent
                       else if n = ''Content-Type'' \<and> meth = ''POST'' then ''application/json'' else []),
      rq_cookie = (\<lambda>_. None), rq_remote = remote, rq_body = bs, rq_form = None, rq_basic = None,
      rq_wild = (\<lambda>_. [])\<rparr>"

definition served_by :: "(request \<Rightarrow> 's \<Rightarrow> response \<times> 's) \<Rightarrow> request \<Rightarrow> 's \<Rightarrow> fetched \<times> 's" where
  "served_by handler r s = (case handler r s of (resp, s') \<Rightarrow> (Got (rs_status resp) (body_text resp), s'))"

definition LocalRead ::
    "(string \<Rightarrow> addr option) \<Rightarrow> (request \<Rightarrow> 's \<Rightarrow> response \<times> 's) \<Rightarrow> string \<Rightarrow> string \<Rightarrow> string \<Rightarrow> 's read" where
  "LocalRead ip handler auth remote agent path s =
     (case url_parse ip path of
        None \<Rightarrow> (Panic, s)
      | Some u \<Rightarrow> served_by handler (local_request ''GET'' auth remote agent [] u) s)"

text \<open>\<open>send\<close> is the HTTP client: the status and the whole body for an address and an authorization.\<close>

definition RemoteRead ::
    "(string \<Rightarrow> string \<Rightarrow> 's \<Rightarrow> (int \<times> string) option \<times> 's) \<Rightarrow> string \<Rightarrow> string \<Rightarrow> 's read" where
  "RemoteRead send base tok path s =
     (case send (rev (dropWhile (\<lambda>c. c = CHR ''/'') (rev base)) @ path) (''Bearer '' @ tok) s of
        (None, s') \<Rightarrow> (NoAnswer, s')
      | (Some (code, bs), s') \<Rightarrow> (Got code (take 8388608 bs), s'))"

section \<open>What a tool answers\<close>

text \<open>A crash, an error of the call, an error result, or content: text with its data, or an image.\<close>

datatype tool_reply =
  Crashed
| CallError string
| ErrorResult string
| TextResult string "json option"
| ImageResult string bytes string

definition dec_bytes :: "(string \<Rightarrow> bytes option) \<Rightarrow> json \<Rightarrow> (string \<times> bytes option \<times> string) option" where
  "dec_bytes b64 v =
     (case members_of v of
        None \<Rightarrow> None
      | Some m \<Rightarrow>
          (case (struct_field ''note'' dec_str [] m, struct_field ''data'' dec_str [] m, struct_field ''mime_type'' dec_str [] m) of
             (Some note, Some raw, Some mime) \<Rightarrow> Some (note, b64 raw, mime)
           | _ \<Rightarrow> None))"

text \<open>\<open>b64\<close> is padded base64, \<open>second\<close> prints the second of a preview, None when it is no number.\<close>

definition image_reply :: "(string \<Rightarrow> bytes option) \<Rightarrow> (json \<Rightarrow> string option) \<Rightarrow> string \<Rightarrow> tool_reply" where
  "image_reply b64 second bs =
     (case Option.bind (unmarshal bs) (\<lambda>v. Option.bind (dec_bytes b64 v) (\<lambda>x. map_option (Pair x) (second v))) of
        None \<Rightarrow> CallError ''invalid media response''
      | Some ((note, None, mime), t) \<Rightarrow> CallError ''illegal base64 data''
      | Some ((note, Some img, mime), t) \<Rightarrow> ImageResult (note @ '' Timestamp: '' @ t @ ''s'') img mime)"

definition read_reply :: "(string \<Rightarrow> bytes option) \<Rightarrow> (json \<Rightarrow> string option) \<Rightarrow> tool \<Rightarrow> fetched \<Rightarrow> tool_reply" where
  "read_reply b64 second d f =
     (case f of
        Panic \<Rightarrow> Crashed
      | NoAnswer \<Rightarrow> CallError ''gateway request failed''
      | Got code bs \<Rightarrow>
          if code < 200 \<or> 300 \<le> code then ErrorResult bs
          else if tl_name d = ''inspect_media'' then image_reply b64 second bs
          else (case unmarshal bs of
              None \<Rightarrow> CallError ''invalid character''
            | Some v \<Rightarrow> TextResult bs (Some v)))"

definition call_tool ::
    "(string \<Rightarrow> uuid option) \<Rightarrow> (string \<Rightarrow> bytes option) \<Rightarrow> (json \<Rightarrow> string option)
     \<Rightarrow> 's read \<Rightarrow> tool \<Rightarrow> tool_input \<Rightarrow> 's \<Rightarrow> tool_reply \<times> 's" where
  "call_tool parse b64 second rd d i s =
     (case buildPath parse d i of
        Inl err \<Rightarrow> (CallError (err_text err), s)
      | Inr path \<Rightarrow> (case rd path s of (f, s') \<Rightarrow> (read_reply b64 second d f, s')))"

section \<open>Sending (send.go)\<close>

record send_input =
  si_chat :: string
  si_text :: string
  si_request :: string

definition unknown_delivery :: string where
  "unknown_delivery = ''Request failed; delivery may be unknown. Reuse the same request_id on retry.''"

definition send_check :: "(string \<Rightarrow> uuid option) \<Rightarrow> send_input \<Rightarrow> string option" where
  "send_check parse i =
     (if parse (si_chat i) = None then Some ''valid chat_id is required''
      else if parse (si_request i) = None then Some ''valid request_id UUID is required''
      else if trim_space (si_text i) = [] \<or> 4096 < rune_count (si_text i)
        then Some ''text must contain 1 to 4096 characters''
      else None)"

definition send_payload :: "send_input \<Rightarrow> string" where
  "send_payload i = json_marshal (JObj [(''request_id'', JStr (si_request i)), (''text'', JStr (si_text i))])"

definition LocalWrite ::
    "(string \<Rightarrow> addr option) \<Rightarrow> (request \<Rightarrow> 's \<Rightarrow> response \<times> 's) \<Rightarrow> string \<Rightarrow> string \<Rightarrow> string
     \<Rightarrow> string \<Rightarrow> string \<Rightarrow> 's \<Rightarrow> fetched \<times> 's" where
  "LocalWrite ip handler auth remote agent path bs s =
     (case url_parse ip path of
        None \<Rightarrow> (NoAnswer, s)
      | Some u \<Rightarrow> served_by handler (local_request ''POST'' auth remote agent bs u) s)"

definition RemoteWrite ::
    "(string \<Rightarrow> string \<Rightarrow> string \<Rightarrow> 's \<Rightarrow> (int \<times> string) option \<times> 's) \<Rightarrow> string \<Rightarrow> string
     \<Rightarrow> string \<Rightarrow> string \<Rightarrow> 's \<Rightarrow> fetched \<times> 's" where
  "RemoteWrite send base tok path bs s =
     (case send (rev (dropWhile (\<lambda>c. c = CHR ''/'') (rev base)) @ path) (''Bearer '' @ tok) bs s of
        (None, s') \<Rightarrow> (NoAnswer, s')
      | (Some (code, out), s') \<Rightarrow> (Got code (take 1048576 out), s'))"

definition send_message ::
    "(string \<Rightarrow> uuid option) \<Rightarrow> (string \<Rightarrow> string \<Rightarrow> 's \<Rightarrow> fetched \<times> 's) \<Rightarrow> send_input \<Rightarrow> 's \<Rightarrow> tool_reply \<times> 's" where
  "send_message parse wr i s =
     (case send_check parse i of
        Some err \<Rightarrow> (CallError err, s)
      | None \<Rightarrow>
          (case wr (''/v1/chats/'' @ si_chat i @ ''/messages'') (send_payload i) s of
             (Panic, s') \<Rightarrow> (Crashed, s')
           | (NoAnswer, s') \<Rightarrow> (ErrorResult unknown_delivery, s')
           | (Got code out, s') \<Rightarrow>
               (if code < 200 \<or> 300 \<le> code then ErrorResult out else TextResult out None, s')))"

end
