(* ===== verification/ReadTheorems.thy ===== *)
theory ReadTheorems
  imports MessageTheorems ReadFrame WebFacts
begin

text \<open>
  What an answer of the API may hold: a read on demand stores what Telegram sends and returns
  the ids of rows of the chat it read, a page of messages is made of active rows of that chat,
  and the chat is one that the token's user allowed.
\<close>

section \<open>Rows keep their identity\<close>

text \<open>\<open>C\<close>: the id is written as PostgreSQL writes it.\<close>

definition ids_ok :: "(uuid \<Rightarrow> bool) \<Rightarrow> db \<Rightarrow> bool" where
  "ids_ok C d = (distinct (map m_id (messages d)) \<and> list_all C (map m_id (messages d)))"

definition rows_kept :: "(uuid \<Rightarrow> bool) \<Rightarrow> db \<Rightarrow> db \<Rightarrow> bool" where
  "rows_kept C d d' =
     (ids_ok C d \<longrightarrow> ids_ok C d' \<and> (\<forall>m \<in> set (messages d). \<exists>m' \<in> set (messages d'). message_keep m m'))"

lemma rows_kept_refl: "reflp (rows_kept C)"
  by (auto simp: reflp_def rows_kept_def message_keep_def)

lemma rows_kept_trans: "transp (rows_kept C)"
  unfolding transp_def rows_kept_def by (meson message_table.trans)

lemma rows_kept_same: "messages d' = messages d \<Longrightarrow> rows_kept C d d'"
  by (auto simp: rows_kept_def ids_ok_def message_keep_def)

lemma message_change_kept:
  assumes "message_change rs rs'" "r \<in> set rs"
  shows "\<exists>r' \<in> set rs'. message_keep r r'"
  using assms(1)
proof (cases rule: mirror_changeE)
  case 1
  then show ?thesis using assms(2) message_table.refl by blast
next
  case (2 new)
  show ?thesis unfolding 2(1) by (rule upsert_row [OF assms(2) message_table.refl]) (rule message_table.merge_keep)
next
  case (3 p f)
  show ?thesis unfolding 3(1) by (rule update_row [OF assms(2) message_table.refl]) (rule 3(2))
qed

lemma rows_kept_change:
  assumes "message_change (messages d) (messages d')"
    and "map m_id (messages d') = map m_id (messages d)
      \<or> (\<exists>i. map m_id (messages d') = map m_id (messages d) @ [i] \<and> i \<notin> m_id ` set (messages d) \<and> C i)"
  shows "rows_kept C d d'"
  using assms(2) message_change_kept [OF assms(1)] by (auto simp: rows_kept_def ids_ok_def)

lemma merge_ids: "map m_id (update_where p (merge_message new) rs) = map m_id rs"
  by (rule map_key_update_where) (simp add: merge_message_def)

lemma upsert_message_ids:
  "upsert_message new d = (r, d') \<Longrightarrow> map m_id (messages d') = map m_id (messages d)
     \<or> map m_id (messages d') = map m_id (messages d) @ [m_id new] \<and> m_id new \<notin> m_id ` set (messages d)"
  by (auto simp: upsert_message_def upsert_def merge_ids exists_row_def split: option.splits if_splits dest!: find_in_set)

lemma message_upsert_kept:
  assumes "C i"
  shows "rows_kept C d (snd (Messages.Upsert e i m d))"
proof (rule rows_kept_change [OF message_upsert_change])
  let ?ids = "\<lambda>d. map m_id (messages d)"
  have row: "m_id (message_row e i a c m) = i" for a c by (simp add: message_row_def)
  have "?ids d' = ?ids d \<or> ?ids d' = ?ids d @ [i] \<and> i \<notin> m_id ` set (messages d)"
    if "upsert_message (message_row e i a c m) d = (r, d')" for a c r d'
    using upsert_message_ids [OF that] unfolding row .
  then have "?ids (snd (Messages.Upsert e i m d)) = ?ids d
      \<or> ?ids (snd (Messages.Upsert e i m d)) = ?ids d @ [i] \<and> i \<notin> m_id ` set (messages d)"
    by (simp add: Messages.Upsert_def split: option.split sum.split prod.split)
  then show "?ids (snd (Messages.Upsert e i m d)) = ?ids d
      \<or> (\<exists>i'. ?ids (snd (Messages.Upsert e i m d)) = ?ids d @ [i'] \<and> i' \<notin> m_id ` set (messages d) \<and> C i')"
    using assms by blast
qed

lemma tombstones_kept: "rows_kept C d (snd (ApplyTombstones e account chat d))"
proof (rule rows_kept_change [OF message_step_change [OF message_step.tombstones]])
  show "map m_id (messages (snd (ApplyTombstones e account chat d))) = map m_id (messages d)
      \<or> (\<exists>i. map m_id (messages (snd (ApplyTombstones e account chat d))) = map m_id (messages d) @ [i]
          \<and> i \<notin> m_id ` set (messages d) \<and> C i)"
    by (auto simp: ApplyTombstones_def comp_def split: option.split)
qed

lemma on_db_kept: "(\<And>d. R d (snd (f d))) \<Longrightarrow> keeps (db_rel R) (on_db f)"
  unfolding keeps_def db_rel_def on_db_def set_db_def by (auto split: prod.split) (metis snd_conv)

lemma pass_time_db [simp]: "wk_db (pass_time t s) = wk_db s"
  by (simp add: pass_time_def)

interpretation identity: read_steps "db_rel (rows_kept C)" C dl for C dl
proof
  show "db_rel (rows_kept C) s s'" if "aside (wk_db s) (wk_db s')" for s s'
    using that by (simp add: db_rel_def aside_def kept_tables_def rows_kept_same)
  show "keeps (db_rel (rows_kept C)) (on_db (Messages.Upsert e i m))" if "C i" for e i m
    by (rule on_db_kept) (rule message_upsert_kept, rule that)
  show "keeps (db_rel (rows_kept C)) (on_db (ApplyTombstones e account chat))" for e account chat
    by (rule on_db_kept) (rule tombstones_kept)
qed (simp_all add: db_rel_refl db_rel_trans rows_kept_refl rows_kept_trans, simp add: db_rel_def rows_kept_same)

section \<open>Reads return rows of the chat\<close>

text \<open>\<open>of_chat C a c\<close>: in the database of \<open>s\<close> every one of the ids is that of a message of the chat.\<close>

definition of_chat :: "(uuid \<Rightarrow> bool) \<Rightarrow> uuid \<Rightarrow> uuid \<Rightarrow> uuid list \<Rightarrow> worker \<Rightarrow> bool" where
  "of_chat C a c ids s =
     (ids_ok C (wk_db s) \<and> (\<forall>i \<in> set ids. \<exists>m \<in> set (messages (wk_db s)). m_id m = i \<and> m_account m = a \<and> m_chat m = c))"

lemma of_chat_kept: "of_chat C a c ids s \<Longrightarrow> db_rel (rows_kept C) s s' \<Longrightarrow> of_chat C a c ids s'"
  unfolding of_chat_def db_rel_def rows_kept_def message_keep_def message_key_def by fastforce

definition chat_of_text :: "(rat \<Rightarrow> env) \<Rightarrow> string \<Rightarrow> string \<Rightarrow> uuid \<Rightarrow> uuid \<Rightarrow> bool" where
  "chat_of_text E account chat a c = (\<forall>t. e_uuid (E t) account = Some a \<and> e_uuid (E t) chat = Some c)"

lemma store_of_chat:
  assumes "storeMessage E g account chat m s = (Inr i, s')" "chat_of_text E account chat a c" "\<And>p. C (g p)"
    and "of_chat C a c ids s"
  shows "of_chat C a c (ids @ [i]) s'"
proof -
  have "db_rel (rows_kept C) s s'" by (rule keepsD [OF identity.keeps_store_message assms(1)]) (rule assms(3))
  with assms(4) have "of_chat C a c ids s'" by (rule of_chat_kept)
  moreover have "\<exists>m \<in> set (messages (wk_db s')). m_id m = i \<and> m_account m = a \<and> m_chat m = c"
    using assms(1,2)
    by (auto simp: storeMessage_def timed_def and_then_ok ask_db_def query_def stored_id_def the_message_def chat_of_text_def
        split: if_splits option.splits dest!: find_in_set)
  ultimately show ?thesis by (auto simp: of_chat_def)
qed

lemma items_of_chat:
  assumes "chat_of_text E account chat a c" "\<And>p. C (g p)"
  shows "od_items E g account chat n b ms ids nxt s = (Inr (ids', nxt'), s') \<Longrightarrow>
    of_chat C a c ids s \<Longrightarrow> of_chat C a c ids' s'"
proof (induction ms arbitrary: ids nxt s)
  case (Cons m ms)
  show ?case
  proof (cases "tg_id m = 0 \<or> b \<noteq> 0 \<and> b \<le> tg_id m")
    case True
    then show ?thesis using Cons by simp
  next
    case False
    let ?nxt = "if nxt = 0 \<or> tg_id m < nxt then tg_id m else nxt"
    obtain i s1 where st: "storeMessage E (branch (length ids) g) account chat m s = (Inr i, s1)"
      and r: "(if int (length ids) + 1 = n + 1 then done_with (ids @ [i], ?nxt)
           else od_items E g account chat n b ms (ids @ [i]) ?nxt) s1 = (Inr (ids', nxt'), s')"
      using Cons.prems False by (auto simp: and_then_ok Let_def)
    have "of_chat C a c (ids @ [i]) s1"
      by (rule store_of_chat [OF st assms(1) _ Cons.prems(2)]) (simp add: branch_def assms(2))
    then show ?thesis using r Cons.IH [of "ids @ [i]" ?nxt s1] by (auto split: if_splits)
  qed
qed simp

lemma page_of_chat:
  assumes "od_page E live g account chat tg n dl ids b s = (Inr (Some (ids', nxt)), s')"
    and "chat_of_text E account chat a c" "\<And>p. C (g p)" "of_chat C a c ids s"
  shows "of_chat C a c ids' s'"
proof -
  obtain u items s1 s2 where call: "od_call E account ''chat_history'' dl s = (Inr u, s1)"
    and ask: "od_ask E live account (\<lambda>se. se_history se tg b (page_count n b (length ids))) s1 = (Inr items, s2)"
    and it: "od_items E g account chat n b items ids b s2 = (Inr (ids', nxt), s')"
    using assms(1) by (auto simp: od_page_def and_then_ok split: if_splits)
  have "of_chat C a c ids s2"
    using of_chat_kept [OF of_chat_kept [OF assms(4) keepsD [OF identity.keeps_call call]] keepsD [OF identity.steps_ask ask]] .
  from items_of_chat [OF assms(2,3) it this] show ?thesis .
qed

lemma messages_of_chat:
  assumes "chat_of_text E account chat a c" "\<And>p. C (g p)"
  shows "od_messages E live g account chat tg n dl ids b s = (Inr res, s') \<Longrightarrow>
    of_chat C a c ids s \<Longrightarrow> of_chat C a c (ot_messages res) s'"
  using assms
proof (induction E live g account chat tg n dl ids b s rule: od_messages.induct)
  case (1 E live g account chat tg n dl ids b s)
  note step = od_messages.simps [of E live g account chat tg n dl ids b s]
  obtain q s1 where q: "od_page E live g account chat tg n dl ids b s = (q, s1)" by fastforce
  show ?case
  proof (cases "n + 1 \<le> int (length ids)")
    case True
    then show ?thesis using "1.prems" by (auto simp: step)
  next
    case False
    show ?thesis
    proof (cases "\<exists>ids' nxt. q = Inr (Some (ids', nxt))")
      case True
      then obtain ids' nxt where r: "q = Inr (Some (ids', nxt))" by blast
      have "of_chat C a c ids' s1"
        using page_of_chat [OF q [unfolded r] "1.prems"(3,4,2)] .
      moreover have "od_messages E live g account chat tg n dl ids' nxt s1 = (Inr res, s')"
        using "1.prems"(1) False by (simp add: step q r)
      ultimately show ?thesis using "1.IH" [OF False q [symmetric] r] "1.prems"(3,4) by simp
    next
      case none: False
      then have "q = Inr None" "res = no_result\<lparr>ot_messages := ids\<rparr>" "s' = s1"
        using "1.prems"(1) False by (auto simp: step q split: sum.splits option.splits)
      moreover have "db_rel (rows_kept C) s s1" by (rule keepsD [OF identity.keeps_page q]) (rule "1.prems"(4))
      ultimately show ?thesis using of_chat_kept [OF "1.prems"(2)] by simp
    qed
  qed
qed

lemma stores_of_chat:
  assumes "chat_of_text E account chat a c" "\<And>p. C (g p)"
  shows "each k (\<lambda>j m. storeMessage E (branch j g) account chat m) ms s = (Inr is, s') \<Longrightarrow>
    of_chat C a c ids s \<Longrightarrow> of_chat C a c (ids @ is) s'"
proof (induction ms arbitrary: k ids s "is")
  case (Cons m ms)
  obtain i s1 js where st: "storeMessage E (branch k g) account chat m s = (Inr i, s1)"
    and r: "each (Suc k) (\<lambda>j m. storeMessage E (branch j g) account chat m) ms s1 = (Inr js, s')" "is = i # js"
    using Cons.prems(1) by (auto simp: and_then_ok)
  have "of_chat C a c (ids @ [i]) s1"
    by (rule store_of_chat [OF st assms(1) _ Cons.prems(2)]) (simp add: branch_def assms(2))
  from Cons.IH [OF r(1) this] show ?case by (simp add: r(2))
qed simp

lemma search_of_chat:
  assumes "od_search_messages E live g se account chat tg q n dl s = (Inr res, s')"
    and "chat_of_text E account chat a c" "\<And>p. C (g p)" "of_chat C a c [] s"
  shows "of_chat C a c (ot_messages res) s'"
proof -
  obtain f u ms s1 s2 js where call: "od_call E account ''search_messages'' dl s = (Inr u, s1)"
    and ask: "od_ask E live account (\<lambda>se. (case se_search_messages se of None \<Rightarrow> f | Some f \<Rightarrow> f) tg q n) s1 = (Inr ms, s2)"
    and st: "each 0 (\<lambda>k m. storeMessage E (branch k g) account chat m) ms s2 = (Inr js, s')"
    and res: "res = no_result\<lparr>ot_messages := js\<rparr>"
    using assms(1) by (auto simp: od_search_messages_def and_then_ok split: if_splits option.splits)
  have "of_chat C a c [] s2"
    using of_chat_kept [OF of_chat_kept [OF assms(4) keepsD [OF identity.keeps_call call]] keepsD [OF identity.steps_ask ask]] .
  from stores_of_chat [OF assms(2,3) st this] show ?thesis by (simp add: res)
qed

lemma audit_kept: "keeps (db_rel (rows_kept C)) (timed E (\<lambda>e. writeAudit e w account act ty i j))"
  unfolding writeAudit_def by (intro timed_keeps identity.on_aside audit_aside)

lemma refresh_of_chat:
  assumes "Refresh E pages locked g put w live account q s = (Inr res, s')"
    and kind: "od_kind q \<in> {''messages'', ''search_messages''}"
    and chat: "od_chat q \<noteq> []" and steady: "\<And>t. e_uuid (E t) = rd"
    and fresh: "\<And>p. rd (g p) = Some (g p)" and ids: "ids_ok (\<lambda>i. rd i = Some i) (wk_db s)"
  shows "\<exists>a c. rd account = Some a \<and> rd (od_chat q) = Some c \<and> of_chat (\<lambda>i. rd i = Some i) a c (ot_messages res) s'"
proof -
  let ?C = "\<lambda>i. rd i = Some i"
  obtain s1 u where ref: "refresh E pages g put w live account q (clock s + 45) s = (Inr res, s1)"
    and au: "timed E (\<lambda>e. writeAudit e w account ''TELEGRAM_ON_DEMAND_READ'' ''telegram_account'' account
        (JObj [(''kind'', JStr (od_kind q))])) s1 = (Inr u, s')"
    using assms(1) by (auto simp: Refresh_def and_then_ok split: if_splits)
  obtain x tg se where "timed E (\<lambda>e. ask_db (od_target e account (od_chat q))) s = (Inr tg, s)"
    and read: "od_read E pages g w live account q (read_limit (od_limit q)) (clock s + 45) se tg s = (Inr res, s1)"
    using ref kind by (auto simp: refresh_def and_then_ok timed_def ask_db_def given_def)
  then obtain a c where ac: "rd account = Some a" "rd (od_chat q) = Some c"
    using chat by (auto simp: timed_def ask_db_def od_target_def steady split: if_splits option.splits)
  have cid: "chat_of_text E account (od_chat q) a c" by (simp add: chat_of_text_def steady ac)
  have start: "of_chat ?C a c [] s" using ids by (simp add: of_chat_def)
  have "of_chat ?C a c (ot_messages res) s1"
  proof (cases "od_kind q = ''messages''")
    case True
    then show ?thesis using messages_of_chat [OF cid _ _ start, where g = g] read fresh by (auto simp: od_read_def)
  next
    case False
    then show ?thesis using search_of_chat [OF _ cid _ start, where g = g] read fresh kind by (auto simp: od_read_def)
  qed
  from of_chat_kept [OF this keepsD [OF audit_kept au]] ac show ?thesis by blast
qed

section \<open>Pages of active rows\<close>

definition page_rows :: "uuid \<Rightarrow> uuid \<Rightarrow> db \<Rightarrow> msg list \<Rightarrow> bool" where
  "page_rows a c d items =
     (\<exists>ms. items = map msg_of_row ms \<and> set ms \<subseteq> set (active_messages d) \<and> list_all (\<lambda>m. m_account m = a \<and> m_chat m = c) ms)"

lemma newest_rows:
  assumes "\<And>m. m \<in> set (active_messages d) \<Longrightarrow> p m \<Longrightarrow> m_account m = a \<and> m_chat m = c"
  shows "page_rows a c d (newest n p d)"
  using assms order_by_subset(2) [of message_order n "filter p (active_messages d)"]
  by (auto simp: page_rows_def newest_def list_all_iff)

lemma page_rows_take: "page_rows a c d items \<Longrightarrow> page_rows a c d (take k items)"
  unfolding page_rows_def by (metis (no_types, lifting) take_map set_take_subset subset_trans list_all_iff subset_iff)

lemma active_in: "m \<in> set (active_messages d) \<Longrightarrow> m \<in> set (messages d)"
  by (simp add: active_messages_def)

lemma by_ids_rows:
  assumes "ListActiveByIDs e account ids (wk_db s) = Inr items" "e_uuid e = rd"
    and "of_chat (\<lambda>i. rd i = Some i) a c ids s"
  shows "page_rows a c (wk_db s) items"
proof -
  let ?d = "wk_db s"
  have canon: "rd i = Some i" if "i \<in> set ids" for i
    using assms(3) that by (auto simp: of_chat_def ids_ok_def list_all_iff)
  have "those (map rd ids) = Some ids" using canon by (induction ids) auto
  then have found: "ids = [] \<and> items = [] \<or> (\<exists>b. items = newest (int (length (messages ?d))) (\<lambda>m. m_account m = b \<and> m_id m \<in> set ids) ?d)"
    using assms(1,2) by (auto simp: ListActiveByIDs_def split: if_splits option.splits)
  have "m_account m = a \<and> m_chat m = c" if act: "m \<in> set (active_messages ?d)" and mem: "m_id m \<in> set ids" for m
  proof -
    obtain m' where m': "m' \<in> set (messages ?d)" "m_id m' = m_id m" "m_account m' = a" "m_chat m' = c"
      using assms(3) mem unfolding of_chat_def by blast
    have "m' = m"
      by (rule key_unique [of m_id "messages ?d"]) (use assms(3) m' active_in [OF act] in \<open>simp_all add: of_chat_def ids_ok_def\<close>)
    then show ?thesis using m' by simp
  qed
  then have "page_rows a c ?d (newest n (\<lambda>m. m_account m = b \<and> m_id m \<in> set ids) ?d)" for n b
    by (intro newest_rows) blast
  moreover have "page_rows a c ?d []" by (simp add: page_rows_def)
  ultimately show ?thesis using found by metis
qed

lemma fresh_page_rows: "fresh_page n items = Inr pg \<Longrightarrow> page_rows a c d items \<Longrightarrow> page_rows a c d (pg_items pg)"
  by (auto simp: fresh_page_def Let_def page_rows_take split: if_splits sum.splits)

lemma stored_page_rows:
  assumes "ListActivePageByChat e account chat k n d = Inr pg"
  obtains a c where "e_uuid e account = Some a" "e_uuid e chat = Some c" "page_rows a c d (pg_items pg)"
  using assms newest_rows
  by (fastforce simp: ListActivePageByChat_def Let_def page_rows_take split: if_splits option.splits sum.splits)

lemma search_page_rows:
  assumes "SearchActiveChat e lc account chat q n d = Inr items"
  obtains a c where "e_uuid e account = Some a" "e_uuid e chat = Some c" "page_rows a c d items"
  using assms newest_rows
  by (fastforce simp: SearchActiveChat_def Let_def split: if_splits option.splits)

lemma page_rows_audit: "page_rows a c (d\<lparr>audit_logs := als\<rparr>) items = page_rows a c d items"
  by (simp add: page_rows_def active_messages_def message_active_def)

section \<open>Handlers\<close>

text \<open>The API reads Telegram on demand, if at all, through \<open>Refresh\<close>, and fresh rows get canonical ids.\<close>

definition demand_reads :: "(rat \<Rightarrow> env) \<Rightarrow> (string \<Rightarrow> uuid option) \<Rightarrow> sync \<Rightarrow> bool" where
  "demand_reads E rd sync =
     (sync = None
      \<or> (\<exists>pages locked g put w live. sync = Some (Refresh E pages locked g put w live) \<and> (\<forall>p. rd (g p) = Some (g p))))"

definition shows_rows :: "(string \<Rightarrow> uuid option) \<Rightarrow> string \<Rightarrow> string \<Rightarrow> response \<Rightarrow> db \<Rightarrow> bool" where
  "shows_rows rd account chat resp d =
     (\<exists>a c items. rd account = Some a \<and> rd chat = Some c \<and> page_rows a c d items
       \<and> json_lookup ''data'' (rs_body resp) = Some (JArr (map message_json items)))"

lemma lookup_counted:
  "json_lookup ''data'' (JObj (counted items @ [(''next_cursor'', v)])) = Some (JArr items)" "json_lookup ''data'' (JObj (counted items)) = Some (JArr items)"
  by (simp_all add: counted_def)

lemma demand_of_chat:
  assumes "demand_reads E rd sync" "sync = Some f" "f account q s = (Inr fresh, s1)"
    and "od_kind q \<in> {''messages'', ''search_messages''}" "od_chat q \<noteq> []" "\<And>t. e_uuid (E t) = rd"
    and "ids_ok (\<lambda>i. rd i = Some i) (wk_db s)"
  shows "\<exists>a c. rd account = Some a \<and> rd (od_chat q) = Some c \<and> of_chat (\<lambda>i. rd i = Some i) a c (ot_messages fresh) s1"
proof -
  obtain pages locked g put w live where f: "f = Refresh E pages locked g put w live" and g: "\<forall>p. rd (g p) = Some (g p)"
    using assms(1,2) by (auto simp: demand_reads_def)
  show ?thesis
    by (rule refresh_of_chat [OF assms(3) [unfolded f] assms(4,5,6) _ assms(7)]) (simp add: g)
qed

text \<open>What follows the refresh.\<close>

definition messages_answer ::
    "(rat \<Rightarrow> env) \<Rightarrow> bool \<Rightarrow> principal \<Rightarrow> request \<Rightarrow> string \<Rightarrow> int \<Rightarrow> cursor option \<Rightarrow> read_result \<Rightarrow> response web" where
  "messages_answer E synced p r chat n c fresh =
     web_then (at_once E (\<lambda>e. web_read (failed_read ''failed to list messages'')
         (message_page e synced (p_account p) chat c n (ot_messages fresh)))) (\<lambda>pg.
     web_then (audited E r p ''API_MESSAGES_READ'' ''chat'' chat
         (JObj [(''count'', jint (int (length (pg_items pg)))), (''has_more'', JBool (pg_next pg \<noteq> [])),
                (''used_cursor'', JBool (c \<noteq> None))])) (\<lambda>_.
     web_done (reply 200 (JObj (counted (map message_json (pg_items pg)) @ [(''next_cursor'', JStr (pg_next pg))])))))"

definition messages_asked :: "string \<Rightarrow> int \<Rightarrow> cursor option \<Rightarrow> read_request" where
  "messages_asked chat n c = (ask_for ''messages'' n)\<lparr>od_chat := chat, od_mark := (case c of None \<Rightarrow> 0 | Some k \<Rightarrow> cu_tg k)\<rparr>"

lemma listMessages_steps:
  "listMessages E sync p r =
     (let chat = trim_space (rq_wild r ''chatID'') in
      web_then (pass_check (requireScope p ''messages:read'')) (\<lambda>_.
      web_then (at_once E (\<lambda>e. need (reply_error 400 ''chat id is required'') (e_parse e chat))) (\<lambda>_.
      web_then (need limit_error (parseLimit r)) (\<lambda>n.
      web_then (read_cursor r) (\<lambda>c.
        refreshRead sync (p_account p) (messages_asked chat n c) (messages_answer E (sync \<noteq> None) p r chat n c))))))"
  by (simp only: listMessages_def messages_answer_def [abs_def] messages_asked_def Let_def)

lemma messages_answer_rows:
  assumes "answer_web (messages_answer E synced p r chat n c fresh) s = (resp, s')" "rs_status resp \<in> ok_statuses"
    and "\<And>pg. message_page (E (clock s)) synced (p_account p) chat c n (ot_messages fresh) (wk_db s) = Inr pg \<Longrightarrow>
        \<exists>a c. rd (p_account p) = Some a \<and> rd chat = Some c \<and> page_rows a c (wk_db s) (pg_items pg)"
  shows "shows_rows rd (p_account p) chat resp (wk_db s')"
proof -
  obtain pg s1 where pg: "at_once E (\<lambda>e. web_read (failed_read ''failed to list messages'')
         (message_page e synced (p_account p) chat c n (ot_messages fresh))) s = (Inr pg, s1)"
    and rest: "answer_web (web_then (audited E r p ''API_MESSAGES_READ'' ''chat'' chat
         (JObj [(''count'', jint (int (length (pg_items pg)))), (''has_more'', JBool (pg_next pg \<noteq> [])),
                (''used_cursor'', JBool (c \<noteq> None))])) (\<lambda>_.
     web_done (reply 200 (JObj (counted (map message_json (pg_items pg)) @ [(''next_cursor'', JStr (pg_next pg))]))))) s1 = (resp, s')"
    by (rule answer_then [OF assms(1) [unfolded messages_answer_def] assms(2)])
      (auto intro!: refusals simp: failed_read_def ok_statuses_def)
  obtain u s2 where au: "audited E r p ''API_MESSAGES_READ'' ''chat'' chat
         (JObj [(''count'', jint (int (length (pg_items pg)))), (''has_more'', JBool (pg_next pg \<noteq> [])),
                (''used_cursor'', JBool (c \<noteq> None))]) s1 = (Inr u, s2)"
    and done': "resp = reply 200 (JObj (counted (map message_json (pg_items pg)) @ [(''next_cursor'', JStr (pg_next pg))]))" "s' = s2"
    by (rule answer_then [OF rest assms(2) refusing_audit]) (simp add: answer_done)
  have s1: "s1 = s" "message_page (E (clock s)) synced (p_account p) chat c n (ot_messages fresh) (wk_db s) = Inr pg"
    using pg by (simp_all add: went_on)
  obtain als where "s2 = set_db ((wk_db s)\<lparr>audit_logs := als\<rparr>) s" using audit_went_on [OF au] s1(1) by blast
  moreover obtain a c where "rd (p_account p) = Some a" "rd chat = Some c" "page_rows a c (wk_db s) (pg_items pg)"
    using assms(3) [OF s1(2)] by blast
  ultimately show ?thesis
    unfolding shows_rows_def done'
    by (intro exI conjI) (assumption+, simp add: page_rows_audit, simp only: reply_body lookup_counted)
qed

lemma listMessages_rows:
  assumes run: "answer_web (listMessages E sync p r) s = (resp, s')" and ok: "rs_status resp \<in> ok_statuses"
    and steady: "\<And>t. e_uuid (E t) = rd" and ids: "ids_ok (\<lambda>i. rd i = Some i) (wk_db s)"
    and sync: "demand_reads E rd sync" and chat: "trim_space (rq_wild r ''chatID'') \<noteq> []"
  shows "HasScope (p_scopes p) ''messages:read'' \<and> shows_rows rd (p_account p) (trim_space (rq_wild r ''chatID'')) resp (wk_db s')"
proof -
  let ?chat = "trim_space (rq_wild r ''chatID'')"
  note run = run [unfolded listMessages_steps Let_def]
  obtain u s1 where a: "pass_check (requireScope p ''messages:read'') s = (Inr u, s1)"
    and run: "answer_web (web_then (at_once E (\<lambda>e. need (reply_error 400 ''chat id is required'') (e_parse e ?chat))) (\<lambda>_.
      web_then (need limit_error (parseLimit r)) (\<lambda>n. web_then (read_cursor r) (\<lambda>c.
        refreshRead sync (p_account p) (messages_asked ?chat n c) (messages_answer E (sync \<noteq> None) p r ?chat n c))))) s1 = (resp, s')"
    by (rule answer_then [OF run ok refusing_scope])
  obtain k s2 where b: "at_once E (\<lambda>e. need (reply_error 400 ''chat id is required'') (e_parse e ?chat)) s1 = (Inr k, s2)"
    and run: "answer_web (web_then (need limit_error (parseLimit r)) (\<lambda>n. web_then (read_cursor r) (\<lambda>c.
        refreshRead sync (p_account p) (messages_asked ?chat n c) (messages_answer E (sync \<noteq> None) p r ?chat n c)))) s2 = (resp, s')"
    by (rule answer_then [OF run ok]) (auto intro!: refusals simp: ok_statuses_def)
  obtain n s3 where c: "need limit_error (parseLimit r) s2 = (Inr n, s3)"
    and run: "answer_web (web_then (read_cursor r) (\<lambda>c.
        refreshRead sync (p_account p) (messages_asked ?chat n c) (messages_answer E (sync \<noteq> None) p r ?chat n c))) s3 = (resp, s')"
    by (rule answer_then [OF run ok]) (auto intro!: refusals simp: limit_error_def ok_statuses_def)
  obtain cur s4 where d: "read_cursor r s3 = (Inr cur, s4)"
    and run: "answer_web (refreshRead sync (p_account p) (messages_asked ?chat n cur)
        (messages_answer E (sync \<noteq> None) p r ?chat n cur)) s4 = (resp, s')"
    by (rule answer_then [OF run ok])
      (auto intro!: refusals simp: read_cursor_def Let_def ok_statuses_def split: sum.split)
  have s: "s4 = s" using a b c d by (auto simp: went_on read_cursor_def Let_def split: if_splits sum.splits)
  have "shows_rows rd (p_account p) ?chat resp (wk_db s')"
  proof (rule answer_refresh [OF run ok])
    assume n: "sync = None" "answer_web (messages_answer E (sync \<noteq> None) p r ?chat n cur no_result) s4 = (resp, s')"
    show ?thesis
      by (rule messages_answer_rows [OF n(2) ok]) (auto simp: message_page_def steady n(1) elim!: stored_page_rows)
  next
    fix f fresh s5 r1
    assume f: "sync = Some f" "f (p_account p) (messages_asked ?chat n cur) s4 = (Inr fresh, s5)"
      and k: "answer_web (messages_answer E (sync \<noteq> None) p r ?chat n cur fresh) s5 = (r1, s')" "resp = on_demand_header r1"
    obtain a ch where ac: "rd (p_account p) = Some a" "rd ?chat = Some ch"
        "of_chat (\<lambda>i. rd i = Some i) a ch (ot_messages fresh) s5"
      using demand_of_chat [OF sync f _ _ steady] ids chat s by (auto simp: ask_for_def messages_asked_def)
    have st: "rs_status r1 \<in> ok_statuses" using ok k(2) by simp
    have "shows_rows rd (p_account p) ?chat r1 (wk_db s')"
      by (rule messages_answer_rows [OF k(1) st])
        (use ac f(1) in \<open>auto simp: message_page_def split: sum.splits intro: fresh_page_rows by_ids_rows [OF _ steady]\<close>)
    then show ?thesis by (simp add: k(2) shows_rows_def)
  qed
  with a show ?thesis by (simp add: scope_held)
qed

definition found_answer ::
    "(rat \<Rightarrow> env) \<Rightarrow> locale_rules \<Rightarrow> bool \<Rightarrow> principal \<Rightarrow> request \<Rightarrow> string \<Rightarrow> string \<Rightarrow> int \<Rightarrow> read_result \<Rightarrow> response web" where
  "found_answer E lc synced p r chat q n fresh =
     web_then (at_once E (\<lambda>e. web_read (failed_read ''failed to search messages'')
         (found_messages e lc synced (p_account p) chat q n (ot_messages fresh)))) (\<lambda>items.
     web_then (audited E r p ''API_MESSAGES_SEARCH'' ''message_collection'' []
         (JObj [(''count'', jint (int (length items)))])) (\<lambda>_.
     web_done (reply 200 (JObj (counted (map message_json items))))))"

definition search_asked :: "string \<Rightarrow> string \<Rightarrow> int \<Rightarrow> read_request" where
  "search_asked chat q n = (ask_for ''search_messages'' n)\<lparr>od_chat := chat, od_query := q\<rparr>"

lemma searchMessages_steps:
  "searchMessages E lc sync p r =
     (let chat = query_get r ''chat_id'' in
      web_then (pass_check (requireScope p ''messages:search'')) (\<lambda>_.
      web_then (search_query r) (\<lambda>q.
      web_then (need limit_error (parseLimit r)) (\<lambda>n.
        refreshRead sync (p_account p) (search_asked chat q n) (found_answer E lc (sync \<noteq> None) p r chat q n)))))"
  by (simp only: searchMessages_def found_answer_def [abs_def] search_asked_def Let_def)

lemma found_answer_rows:
  assumes "answer_web (found_answer E lc synced p r chat q n fresh) s = (resp, s')" "rs_status resp \<in> ok_statuses"
    and "\<And>items. found_messages (E (clock s)) lc synced (p_account p) chat q n (ot_messages fresh) (wk_db s) = Inr items \<Longrightarrow>
        \<exists>a c. rd (p_account p) = Some a \<and> rd chat = Some c \<and> page_rows a c (wk_db s) items"
  shows "shows_rows rd (p_account p) chat resp (wk_db s')"
proof -
  obtain items s1 where pg: "at_once E (\<lambda>e. web_read (failed_read ''failed to search messages'')
         (found_messages e lc synced (p_account p) chat q n (ot_messages fresh))) s = (Inr items, s1)"
    and rest: "answer_web (web_then (audited E r p ''API_MESSAGES_SEARCH'' ''message_collection'' []
         (JObj [(''count'', jint (int (length items)))])) (\<lambda>_.
     web_done (reply 200 (JObj (counted (map message_json items)))))) s1 = (resp, s')"
    by (rule answer_then [OF assms(1) [unfolded found_answer_def] assms(2)])
      (auto intro!: refusals simp: failed_read_def ok_statuses_def)
  obtain u s2 where au: "audited E r p ''API_MESSAGES_SEARCH'' ''message_collection'' []
         (JObj [(''count'', jint (int (length items)))]) s1 = (Inr u, s2)"
    and done': "resp = reply 200 (JObj (counted (map message_json items)))" "s' = s2"
    by (rule answer_then [OF rest assms(2) refusing_audit]) (simp add: answer_done)
  have s1: "s1 = s" "found_messages (E (clock s)) lc synced (p_account p) chat q n (ot_messages fresh) (wk_db s) = Inr items"
    using pg by (simp_all add: went_on)
  obtain als where "s2 = set_db ((wk_db s)\<lparr>audit_logs := als\<rparr>) s" using audit_went_on [OF au] s1(1) by blast
  moreover obtain a c where "rd (p_account p) = Some a" "rd chat = Some c" "page_rows a c (wk_db s) items"
    using assms(3) [OF s1(2)] by blast
  ultimately show ?thesis
    unfolding shows_rows_def done'
    by (intro exI conjI) (assumption+, simp add: page_rows_audit, simp only: reply_body lookup_counted)
qed

lemma searchMessages_rows:
  assumes run: "answer_web (searchMessages E lc sync p r) s = (resp, s')" and ok: "rs_status resp \<in> ok_statuses"
    and steady: "\<And>t. e_uuid (E t) = rd" and ids: "ids_ok (\<lambda>i. rd i = Some i) (wk_db s)"
    and sync: "demand_reads E rd sync" and chat: "query_get r ''chat_id'' \<noteq> []"
  shows "HasScope (p_scopes p) ''messages:search'' \<and> shows_rows rd (p_account p) (query_get r ''chat_id'') resp (wk_db s')"
proof -
  let ?chat = "query_get r ''chat_id''"
  note run = run [unfolded searchMessages_steps Let_def]
  obtain u s1 where a: "pass_check (requireScope p ''messages:search'') s = (Inr u, s1)"
    and run: "answer_web (web_then (search_query r) (\<lambda>q. web_then (need limit_error (parseLimit r)) (\<lambda>n.
        refreshRead sync (p_account p) (search_asked ?chat q n) (found_answer E lc (sync \<noteq> None) p r ?chat q n)))) s1 = (resp, s')"
    by (rule answer_then [OF run ok refusing_scope])
  obtain q s2 where b: "search_query r s1 = (Inr q, s2)"
    and run: "answer_web (web_then (need limit_error (parseLimit r)) (\<lambda>n.
        refreshRead sync (p_account p) (search_asked ?chat q n) (found_answer E lc (sync \<noteq> None) p r ?chat q n))) s2 = (resp, s')"
    by (rule answer_then [OF run ok]) (auto intro!: refusals simp: search_query_def Let_def ok_statuses_def)
  obtain n s3 where c: "need limit_error (parseLimit r) s2 = (Inr n, s3)"
    and run: "answer_web (refreshRead sync (p_account p) (search_asked ?chat q n)
        (found_answer E lc (sync \<noteq> None) p r ?chat q n)) s3 = (resp, s')"
    by (rule answer_then [OF run ok]) (auto intro!: refusals simp: limit_error_def ok_statuses_def)
  have s: "s3 = s" using a b c by (auto simp: went_on search_query_def Let_def split: if_splits)
  have "shows_rows rd (p_account p) ?chat resp (wk_db s')"
  proof (rule answer_refresh [OF run ok])
    assume n: "sync = None" "answer_web (found_answer E lc (sync \<noteq> None) p r ?chat q n no_result) s3 = (resp, s')"
    show ?thesis
      by (rule found_answer_rows [OF n(2) ok]) (auto simp: found_messages_def steady n(1) elim!: search_page_rows)
  next
    fix f fresh s5 r1
    assume f: "sync = Some f" "f (p_account p) (search_asked ?chat q n) s3 = (Inr fresh, s5)"
      and k: "answer_web (found_answer E lc (sync \<noteq> None) p r ?chat q n fresh) s5 = (r1, s')" "resp = on_demand_header r1"
    obtain a ch where ac: "rd (p_account p) = Some a" "rd ?chat = Some ch"
        "of_chat (\<lambda>i. rd i = Some i) a ch (ot_messages fresh) s5"
      using demand_of_chat [OF sync f _ _ steady] ids chat s by (auto simp: ask_for_def search_asked_def)
    have st: "rs_status r1 \<in> ok_statuses" using ok k(2) by simp
    have "shows_rows rd (p_account p) ?chat r1 (wk_db s')"
      by (rule found_answer_rows [OF k(1) st])
        (use ac f(1) in \<open>auto simp: found_messages_def intro: by_ids_rows [OF _ steady]\<close>)
    then show ?thesis by (simp add: k(2) shows_rows_def)
  qed
  with a show ?thesis by (simp add: scope_held)
qed

section \<open>The whole request\<close>

lemma run_checks_world: "run_checks e cs w = (x, w') \<Longrightarrow> wd_db w' = wd_db w"
  by (induction cs arbitrary: w) (auto dest!: limit_checkD split: prod.splits sum.splits if_splits)

lemma run_checks_refuse: "run_checks e cs w = (Some resp, w') \<Longrightarrow> rs_status resp \<notin> ok_statuses"
  by (induction cs arbitrary: w) (auto simp: ok_statuses_def split: prod.splits sum.splits if_splits)

lemma admit_refuse: "admit_bearer e base r w = (Inl resp, w') \<Longrightarrow> rs_status resp \<notin> ok_statuses"
  by (auto simp: admit_bearer_def Let_def allowRequest_def ok_statuses_def
      split: option.splits sum.splits if_splits prod.splits dest!: run_checks_refuse)

lemma admit_pass:
  assumes "admit_bearer e base r w = (Inr p, w')"
  obtains tok where "bearerToken (rq_header r ''Authorization'') = Some tok" "AuthenticateBearer e tok (wd_db w) = Inr p" "wd_db w' = wd_db w"
  using assms
  by (auto simp: admit_bearer_def Let_def allowRequest_def dest!: limit_checkD split: option.splits sum.splits if_splits prod.splits)

lemma access_refuse: "chatAccess e p r d = Some resp \<Longrightarrow> rs_status resp \<notin> ok_statuses"
  by (auto simp: chatAccess_def allowChat_def allowMedia_def Let_def ok_statuses_def split: if_splits option.splits prod.splits)

lemma handler_chat_given:
  assumes "pg_uuid e" "chatAccess e p r d = None" "api_mux r = Inr (rt, x)"
  shows "rt = RMessages \<Longrightarrow> trim_space x \<noteq> []" "rt = RSearch \<Longrightarrow> query_get r ''chat_id'' \<noteq> []"
proof -
  show "query_get r ''chat_id'' \<noteq> []" if "rt = RSearch"
    using search_route [of r x] assms(2,3) that by (auto simp: access_chat_def chatAccess_def Let_def)
  show "trim_space x \<noteq> []" if "rt = RMessages"
  proof (cases "CHR ''/'' \<in> set x")
    case True
    then have "CHR ''/'' \<in> set (trim_space x)"
      by (rule trim_keeps) (rule graph_not_space, simp_all add: graph_def byte_def)
    then show ?thesis by auto
  next
    case False
    have chat: "chat_route rt" using that by (simp add: chat_route_def)
    obtain m where "(m, rt, x) \<in> set (api_patterns (path_segments (escaped_path (rq_url r))))"
      using routed_segments [OF assms(3)] by blast
    from chat_route_segments [OF this chat] have "x \<noteq> []" by blast
    moreover have "access_chat r = x" by (rule chat_route_checked [OF assms(3) chat False])
    ultimately have "allowChat e (p_account p) x (rq_method r = ''POST'') d = None"
      using assms(2) by (auto simp: chatAccess_def Let_def split: if_splits option.splits)
    then obtain a c where "e_uuid e x = Some c" by (rule allowChat_may)
    with \<open>x \<noteq> []\<close> show ?thesis using uuid_trimmed [OF assms(1)] by simp
  qed
qed

lemma api_passed:
  assumes "protectedAPI ap r s = (resp, s')" "rs_status resp \<in> ok_statuses" "api_mux r = Inr (rt, x)"
  obtains tok p w where "bearerToken (rq_header r ''Authorization'') = Some tok"
    "AuthenticateBearer (ap_env ap (clock s)) tok (wk_db s) = Inr p" "wd_db w = wk_db s"
    "chatAccess (ap_env ap (clock s)) p r (wk_db s) = None"
    "answer_web (api_handler ap rt p (r\<lparr>rq_wild := route_values rt x\<rparr>)) (s\<lparr>wk_world := w\<rparr>) = (resp, s')"
proof -
  obtain q w where q: "admit_bearer (ap_env ap (clock s)) (ap_base ap) r (wk_world s) = (q, w)" by fastforce
  obtain p where p: "q = Inr p"
    using assms(1,2) admit_refuse [of "ap_env ap (clock s)" "ap_base ap" r "wk_world s" _ w] q
    by (cases q) (auto simp: protectedAPI_def)
  obtain tok where tok: "bearerToken (rq_header r ''Authorization'') = Some tok"
    "AuthenticateBearer (ap_env ap (clock s)) tok (wk_db s) = Inr p" "wd_db w = wk_db s"
    using admit_pass [OF q [unfolded p]] by blast
  have c: "chatAccess (ap_env ap (clock s)) p r (wk_db s) = None"
    using assms(1,2) tok(3) access_refuse [of "ap_env ap (clock s)" p r "wk_db s"]
    by (cases "chatAccess (ap_env ap (clock s)) p r (wk_db s)") (auto simp: protectedAPI_def q p)
  show thesis
    by (rule that [OF tok c]) (use assms(1,3) in \<open>simp add: protectedAPI_def q p tok(3) c\<close>)
qed

lemma page_in_grant:
  assumes "protectedAPI ap r s = (resp, s')" "rs_status resp \<in> ok_statuses"
    and "api_mux r = Inr (rt, x)" "rt \<in> {RMessages, RSearch}"
    and "\<And>t. e_uuid (ap_env ap t) = rd" "pg_uuid (ap_env ap (clock s))"
    and "ids_ok (\<lambda>i. rd i = Some i) (wk_db s)" "demand_reads (ap_env ap) rd (ap_sync ap)"
  shows "\<exists>tok p a c ms. bearerToken (rq_header r ''Authorization'') = Some tok
    \<and> AuthenticateBearer (ap_env ap (clock s)) tok (wk_db s) = Inr p
    \<and> HasScope (p_scopes p) (if rt = RMessages then ''messages:read'' else ''messages:search'')
    \<and> rd (p_account p) = Some a \<and> rd (if rt = RMessages then trim_space x else query_get r ''chat_id'') = Some c \<and> may_chat a c False (wk_db s)
    \<and> json_lookup ''data'' (rs_body resp) = Some (JArr (map (\<lambda>m. message_json (msg_of_row m)) ms))
    \<and> set ms \<subseteq> set (active_messages (wk_db s')) \<and> list_all (\<lambda>m. m_account m = a \<and> m_chat m = c) ms"
proof -
  let ?e = "ap_env ap (clock s)"
  note ok = assms(2)
  obtain tok p w where p: "bearerToken (rq_header r ''Authorization'') = Some tok"
      "AuthenticateBearer ?e tok (wk_db s) = Inr p" "wd_db w = wk_db s" "chatAccess ?e p r (wk_db s) = None"
      "answer_web (api_handler ap rt p (r\<lparr>rq_wild := route_values rt x\<rparr>)) (s\<lparr>wk_world := w\<rparr>) = (resp, s')"
    by (rule api_passed [OF assms(1) ok assms(3)])
  let ?r = "r\<lparr>rq_wild := route_values rt x\<rparr>" and ?s = "s\<lparr>wk_world := w\<rparr>"
  let ?chat = "if rt = RMessages then trim_space x else query_get r ''chat_id''"
  have ids: "ids_ok (\<lambda>i. rd i = Some i) (wk_db ?s)" using assms(7) p(3) by simp
  have sc: "HasScope (p_scopes p) (if rt = RMessages then ''messages:read'' else ''messages:search'')
      \<and> shows_rows rd (p_account p) ?chat resp (wk_db s')"
  proof (cases "rt = RMessages")
    case True
    have x: "rq_wild ?r ''chatID'' = x" by (simp add: True route_values_def chat_route_def)
    show ?thesis
      using listMessages_rows [OF p(5) [unfolded True api_handler.simps] ok assms(5) ids assms(8)]
        handler_chat_given(1) [OF assms(6) p(4) assms(3) True] x True by simp
  next
    case False
    then have f: "rt = RSearch" using assms(4) by simp
    have x: "query_get ?r ''chat_id'' = query_get r ''chat_id''" by (simp add: query_get_def)
    show ?thesis
      using searchMessages_rows [OF p(5) [unfolded f api_handler.simps] ok assms(5) ids assms(8)]
        handler_chat_given(2) [OF assms(6) p(4) assms(3) f] x f by simp
  qed
  then obtain a c items where ac: "rd (p_account p) = Some a" "rd ?chat = Some c" "page_rows a c (wk_db s') items"
    "json_lookup ''data'' (rs_body resp) = Some (JArr (map message_json items))"
    unfolding shows_rows_def by blast
  have "\<exists>a. e_uuid ?e (p_account p) = Some a \<and> may_chat a c (rt = RSend) (wk_db s)"
    by (rule handlers_guarded [OF assms(6) p(4) assms(3)])
      (use assms(4,5) ac(2) in \<open>auto simp: chat_route_def handler_chat_def\<close>)
  then have "may_chat a c False (wk_db s)" using ac(1) assms(4,5) by auto
  moreover obtain ms where "items = map msg_of_row ms" "set ms \<subseteq> set (active_messages (wk_db s'))"
      "list_all (\<lambda>m. m_account m = a \<and> m_chat m = c) ms"
    using ac(3) unfolding page_rows_def by blast
  ultimately show ?thesis
    using p(1,2) sc ac(1,2,4) by (intro exI [of _ tok] exI [of _ p] exI [of _ a] exI [of _ c] exI [of _ ms]) (simp add: comp_def)
qed

text \<open>C1: What an answer of the API may hold.  When a request for the messages of a chat, or for a search in
  one, is answered, then its bearer token is good and has the scope, the token's user had granted
  reading the chat named, and every message in the answer is a live message of that one chat of the
  token's account: not deleted, and with no tombstone.  This holds through the whole request, also
  when the read goes to Telegram and stores what comes back.  It needs that PostgreSQL reads uuids the
  same way at all times and writes them in its own form, and that row ids are unique.
\<close>

theorem messages_stay_in_grant:
  assumes "protectedAPI ap r s = (resp, s')" "rs_status resp = 200"
    and "api_mux r = Inr (rt, x)" "rt \<in> {RMessages, RSearch}"
    and "\<And>t. e_uuid (ap_env ap t) = rd" "pg_uuid (ap_env ap (clock s))"
    and "ids_ok (\<lambda>i. rd i = Some i) (wk_db s)" "demand_reads (ap_env ap) rd (ap_sync ap)"
  shows "\<exists>tok p a c ms. bearerToken (rq_header r ''Authorization'') = Some tok
    \<and> AuthenticateBearer (ap_env ap (clock s)) tok (wk_db s) = Inr p
    \<and> HasScope (p_scopes p) (if rt = RMessages then ''messages:read'' else ''messages:search'')
    \<and> rd (p_account p) = Some a \<and> rd (if rt = RMessages then trim_space x else query_get r ''chat_id'') = Some c \<and> may_chat a c False (wk_db s)
    \<and> json_lookup ''data'' (rs_body resp) = Some (JArr (map (\<lambda>m. message_json (msg_of_row m)) ms))
    \<and> set ms \<subseteq> set (active_messages (wk_db s')) \<and> list_all (\<lambda>m. m_account m = a \<and> m_chat m = c) ms"
  by (rule page_in_grant [OF assms(1) _ assms(3-)]) (simp add: assms(2) ok_statuses_def)

end
