(* ===== verification/TicketTheorems.thy ===== *)
theory TicketTheorems
  imports ReadTheorems
begin

text \<open>
  Attachments: a link is made only for a file of a chat the token may read, and serves that file
  only, for five minutes, while the token and the permission last.  A request to the API changes
  no permission, token, client or session.
\<close>

section \<open>The media route and its check\<close>

text \<open>\<open>media_granted e account i d r\<close>: \<open>r\<close> is the row of an attachment in a chat its user lets be read.\<close>

definition media_granted :: "env \<Rightarrow> string \<Rightarrow> string \<Rightarrow> db \<Rightarrow> media \<Rightarrow> bool" where
  "media_granted e account media_id d r =
     (\<exists>a m c. e_uuid e account = Some a \<and> e_uuid e media_id = Some (md_id r) \<and> (r, m) \<in> set (active_media d)
        \<and> m_account m = a \<and> e_uuid e (m_chat m) = Some c \<and> may_chat a c False d)"

lemma allowMedia_row:
  assumes "allowMedia e account media_id d = None"
  obtains a i r m where "e_uuid e account = Some a" "e_uuid e media_id = Some i"
    "find (\<lambda>(r, m). m_account m = a \<and> md_id r = i) (active_media d) = Some (r, m)" "media_granted e account media_id d r"
proof -
  obtain a i r m where f: "e_uuid e account = Some a" "e_uuid e media_id = Some i"
      "find (\<lambda>(r, m). m_account m = a \<and> md_id r = i) (active_media d) = Some (r, m)"
    and c: "allowChat e account (m_chat m) False d = None"
    using assms by (auto simp: allowMedia_def split: if_splits option.splits)
  have rm: "(r, m) \<in> set (active_media d)" "m_account m = a" "md_id r = i" using find_in_set [OF f(3)] by auto
  obtain c' where "e_uuid e (m_chat m) = Some c'" "may_chat a c' False d"
    using c f(1) by (auto elim: allowChat_may)
  then have "media_granted e account media_id d r" using f(1,2) rm unfolding media_granted_def by blast
  then show thesis using that f by blast
qed

lemma media_route_segments:
  assumes "(m, RMediaURL, x) \<in> set (api_patterns ss)"
  shows "ss = [''v1'', ''media'', x, ''url''] \<and> x \<noteq> []"
proof -
  obtain v rest where ss: "ss = v # rest" using assms by (cases ss) (auto simp: api_patterns_def)
  show ?thesis
  proof (cases "\<exists>a y b. rest = [a, y, b]")
    case True
    then obtain a y b where ss: "ss = [v, a, y, b]" using ss by blast
    show ?thesis using assms by (auto simp: ss api_patterns_def chat_patterns_def split: if_splits)
  next
    case False
    then have "(m, RMediaURL, x) \<in> set (plain_patterns rest)"
      using assms by (auto simp: ss api_patterns_def split: list.splits if_splits)
    then show ?thesis by (auto simp: plain_patterns_def split: if_splits)
  qed
qed

lemma media_parts:
  assumes "CHR ''/'' \<notin> set x"
  shows "path_parts (''/v1/media/'' @ x @ ''/url'') = [''v1'', ''media'', x, ''url'']"
proof -
  have t: "trim_slashes (''/v1/media/'' @ x @ ''/url'') = ''v1/media/'' @ x @ ''/url''"
    using trim_slashes_id [of "''url''" "CHR ''v''" "''1/media/'' @ x @ ''/''"] by simp
  have "split_on (CHR ''/'') (x @ CHR ''/'' # ''url'') = [x, ''url'']"
    by (simp only: split_on_sep [OF assms] split_on_none) simp
  then show ?thesis unfolding path_parts_def t by simp
qed

lemma media_handler_guarded:
  assumes "chatAccess e p r d = None" "api_mux r = Inr (RMediaURL, x)" "CHR ''/'' \<notin> set x"
  shows "allowMedia e (p_account p) x d = None"
proof -
  obtain m where "(m, RMediaURL, x) \<in> set (api_patterns (path_segments (escaped_path (rq_url r))))"
    using routed_segments [OF assms(2)] by blast
  from media_route_segments [OF this]
  have "path_segments (escaped_path (rq_url r)) = [''v1'', ''media'', x, ''url'']" by blast
  then have p: "rq_path r = ''/v1/media/'' @ x @ ''/url''" using routed_path [OF assms(2)] by simp
  have "has_prefix (rq_path r) ''/v1/media/''" unfolding p has_prefix_def by simp
  moreover have "path_parts (rq_path r) = [''v1'', ''media'', x, ''url'']" unfolding p by (rule media_parts [OF assms(3)])
  ultimately show ?thesis using assms(1) by (auto simp: chatAccess_def Let_def split: if_splits option.splits)
qed

section \<open>Serving a link\<close>

text \<open>C12: A download link opens nothing but what was granted.  A file is served only for a ticket that
  has not expired, of an access token that is live and may read media, and only when the owner at
  this moment lets the chat be read; the file is the stored object of that very attachment,
  whose message is live.
\<close>

theorem link_serves_granted_media:
  assumes "downloadTicket e r s = (Inr f, s')" "pg_uuid e"
  shows "\<exists>t k row key. t \<in> set (tickets (wk_db s)) \<and> tk_hash t = e_sha e (rq_wild r ''ticket'') \<and> e_now e < tk_expires t
    \<and> k \<in> set (tokens (wk_db s)) \<and> at_hash k = tk_token t \<and> token_live e (wk_db s) k \<and> ''media:read'' \<in> set (at_scopes k)
    \<and> media_granted e (at_account k) (tk_media t) (wk_db s) row
    \<and> md_status row = MReady \<and> md_object row = Some key \<and> wk_store s key = Some (sv_body f, sv_type f)"
proof -
  let ?d = "wk_db s"
  obtain t k where tk: "ticket_token e (e_sha e (rq_wild r ''ticket'')) ?d = Some (t, k)"
    and run: "web_then (pass_check (allowMedia e (at_account k) (tk_media t) ?d)) (\<lambda>_.
          web_then (\<lambda>s. (case OpenRead e (at_account k) (tk_media t) (wk_store s, wk_db s) of
                     Inl err \<Rightarrow> (Inl (reply_error 404 ''media unavailable''), s)
                   | Inr f \<Rightarrow> (Inr f, s))) (\<lambda>(body, n, mime, name).
          web_then (audited (\<lambda>_. e) r
              \<lparr>p_user = [], p_client = at_client k, p_type = API, p_account = at_account k, p_scopes = []\<rparr>
              ''API_MEDIA_DOWNLOADED'' ''media'' (tk_media t) (JObj [])) (\<lambda>_.
          web_done \<lparr>sv_body = body, sv_type = mime,
             sv_name = filepath_base (map (\<lambda>c. if c = CHR 0x5C then CHR ''/'' else c) name)\<rparr>))) s = (Inr f, s')"
    using assms(1) by (auto simp: downloadTicket_def split: if_splits option.splits)
  have allow: "allowMedia e (at_account k) (tk_media t) ?d = None" using run by (auto simp: went_on)
  obtain n name where open': "OpenRead e (at_account k) (tk_media t) (wk_store s, ?d) = Inr (sv_body f, n, sv_type f, name)"
    using run by (auto simp: went_on split: sum.splits)
  obtain a i row m where row: "e_uuid e (at_account k) = Some a" "e_uuid e (tk_media t) = Some i"
      "find (\<lambda>(r, m). m_account m = a \<and> md_id r = i) (active_media ?d) = Some (row, m)"
      "media_granted e (at_account k) (tk_media t) ?d row"
    by (rule allowMedia_row [OF allow])
  have "\<exists>key. mi_object (item_of (row, m)) = Some key \<and> mi_status (item_of (row, m)) = MReady
      \<and> wk_store s key = Some (sv_body f, sv_type f)"
    using open' row(1-3) uuid_trimmed [OF assms(2)]
    by (auto simp: OpenRead_def Media.GetActive_def get_item_def split: if_splits option.splits)
  then have "\<exists>key. md_status row = MReady \<and> md_object row = Some key \<and> wk_store s key = Some (sv_body f, sv_type f)"
    by (auto simp: item_of_def)
  moreover have "t \<in> set (tickets ?d) \<and> tk_hash t = e_sha e (rq_wild r ''ticket'') \<and> e_now e < tk_expires t
      \<and> k \<in> set (tokens ?d) \<and> at_hash k = tk_token t \<and> token_live e ?d k \<and> ''media:read'' \<in> set (at_scopes k)"
    using tk by (auto simp: ticket_token_def split: option.splits dest!: find_in_set)
  ultimately show ?thesis using row(4) by blast
qed

section \<open>The API leaves access control alone\<close>

definition access_tables where
  "access_tables d = (permissions d, tokens d, clients d, sessions d)"

definition shut :: "db \<Rightarrow> db \<Rightarrow> bool" where
  "shut d d' = (access_tables d' = access_tables d \<and> tickets d' = tickets d)"

lemma shut_refl: "reflp shut" and shut_trans: "transp shut"
  by (auto simp: reflp_def transp_def shut_def)

lemma message_ops_shut: "shut d (snd (Messages.Upsert e i m d))" "shut d (snd (ApplyTombstones e account chat d))"
proof -
  have "access_tables d' = access_tables d \<and> tickets d' = tickets d" if "upsert_message new d = (x, d')" for new x d'
    using that by (auto simp: upsert_message_def access_tables_def split: option.splits if_splits)
  then show "shut d (snd (Messages.Upsert e i m d))"
    by (simp add: shut_def Messages.Upsert_def split: option.split sum.split prod.split)
  show "shut d (snd (ApplyTombstones e account chat d))"
    by (simp add: shut_def ApplyTombstones_def access_tables_def split: option.split)
qed

interpretation closed: read_steps "db_rel shut" "\<lambda>_. True" dl for dl
proof
  show "db_rel shut s s'" if "aside (wk_db s) (wk_db s')" for s s'
    using that by (simp add: db_rel_def aside_def kept_tables_def shut_def access_tables_def)
  show "keeps (db_rel shut) (on_db (Messages.Upsert e i m))" for e i m
    by (rule on_db_kept) (rule message_ops_shut)
  show "keeps (db_rel shut) (on_db (ApplyTombstones e account chat))" for e account chat
    by (rule on_db_kept) (rule message_ops_shut)
qed (simp_all add: db_rel_refl db_rel_trans shut_refl shut_trans, simp add: db_rel_def shut_def)

section \<open>Making a link\<close>

definition ticket_answer ::
    "(rat \<Rightarrow> env) \<Rightarrow> string \<Rightarrow> bytes option \<Rightarrow> principal \<Rightarrow> request \<Rightarrow> string \<Rightarrow> read_result \<Rightarrow> response web" where
  "ticket_answer E base rnd p r i fresh =
     web_then (at_once E (\<lambda>e. web_read ready_error (CheckReady e (p_account p) i))) (\<lambda>_.
     web_then (need (reply_error 500 ''could not create link'') (map_option b64_encode rnd)) (\<lambda>secret.
     at_once E (\<lambda>e.
     web_then (audited (\<lambda>_. e) r p ''API_MEDIA_URL_CREATED'' ''media'' i (JObj [])) (\<lambda>_.
     web_then (store_ticket e r i secret) (\<lambda>_.
     web_done (reply 200 (JObj [(''data'', JObj [(''expires_at'', JStr (rfc3339_nano (e_clock e + five_minutes))),
                                         (''url'', JStr (base @ ''/media/'' @ secret))])])))))))"

lemma mediaTicket_steps:
  "mediaTicket E base rnd sync p r =
     web_then (pass_check (requireScope p ''media:read'')) (\<lambda>_.
       refreshRead sync (p_account p) ((ask_for ''media'' 0)\<lparr>od_media := rq_wild r ''mediaID''\<rparr>)
         (ticket_answer E base rnd p r (rq_wild r ''mediaID'')))"
  by (simp only: mediaTicket_def ticket_answer_def [abs_def] Let_def)

text \<open>The link and its row: bound to the bearer token and the attachment, for five minutes.\<close>

definition link_made :: "env \<Rightarrow> string \<Rightarrow> string \<Rightarrow> string \<Rightarrow> string \<Rightarrow> response \<Rightarrow> db \<Rightarrow> db \<Rightarrow> bool" where
  "link_made e base tok i secret resp d d' =
     (\<exists>u. e_uuid e i = Some u
        \<and> tickets d' = tickets d @ [\<lparr>tk_hash = e_sha e secret, tk_token = e_sha e tok, tk_media = u,
             tk_expires = e_clock e + five_minutes\<rparr>]
        \<and> rs_body resp = JObj [(''data'', JObj [(''expires_at'', JStr (rfc3339_nano (e_clock e + five_minutes))),
             (''url'', JStr (base @ ''/media/'' @ secret))])])"

lemma answer_once: "answer_web (at_once E f) s = answer_web (f (E (clock s))) s"
  by (simp add: answer_web_def at_once_def)

lemma store_ticket_refuses: "refusing (store_ticket e r i secret)"
  by (auto simp: refusing_def store_ticket_def ok_statuses_def split: option.splits)

lemma clock_set_db [simp]: "clock (set_db d s) = clock s"
  by (simp add: clock_def set_db_def)

lemma ticket_answer_made:
  assumes "answer_web (ticket_answer E base rnd p r i fresh) s = (resp, s')" "rs_status resp \<in> ok_statuses"
    and tok: "bearerToken (rq_header r ''Authorization'') = Some tok"
  shows "\<exists>secret. map_option b64_encode rnd = Some secret \<and> link_made (E (clock s)) base tok i secret resp (wk_db s) (wk_db s')
    \<and> access_tables (wk_db s') = access_tables (wk_db s) \<and> clock s' = clock s"
proof -
  let ?e = "E (clock s)"
  obtain u s1 where "at_once E (\<lambda>e. web_read ready_error (CheckReady e (p_account p) i)) s = (Inr u, s1)"
    and run: "answer_web (web_then (need (reply_error 500 ''could not create link'') (map_option b64_encode rnd)) (\<lambda>secret.
     at_once E (\<lambda>e.
     web_then (audited (\<lambda>_. e) r p ''API_MEDIA_URL_CREATED'' ''media'' i (JObj [])) (\<lambda>_.
     web_then (store_ticket e r i secret) (\<lambda>_.
     web_done (reply 200 (JObj [(''data'', JObj [(''expires_at'', JStr (rfc3339_nano (e_clock e + five_minutes))),
                                         (''url'', JStr (base @ ''/media/'' @ secret))])]))))))) s1 = (resp, s')"
    by (rule answer_then [OF assms(1) [unfolded ticket_answer_def] assms(2)])
      (auto intro!: refusals simp: ready_error_def ok_statuses_def split: if_splits)
  then have s1: "s1 = s" by (simp add: went_on)
  obtain secret s2 where sec: "map_option b64_encode rnd = Some secret" "s2 = s"
    and run: "answer_web (at_once E (\<lambda>e.
     web_then (audited (\<lambda>_. e) r p ''API_MEDIA_URL_CREATED'' ''media'' i (JObj [])) (\<lambda>_.
     web_then (store_ticket e r i secret) (\<lambda>_.
     web_done (reply 200 (JObj [(''data'', JObj [(''expires_at'', JStr (rfc3339_nano (e_clock e + five_minutes))),
                                         (''url'', JStr (base @ ''/media/'' @ secret))])])))))) s2 = (resp, s')"
    by (rule answer_then [OF run [unfolded s1] assms(2)])
      (auto intro!: refusals simp: ok_statuses_def went_on)
  obtain v s3 where au: "audited (\<lambda>_. ?e) r p ''API_MEDIA_URL_CREATED'' ''media'' i (JObj []) s = (Inr v, s3)"
    and run: "answer_web (web_then (store_ticket ?e r i secret) (\<lambda>_.
     web_done (reply 200 (JObj [(''data'', JObj [(''expires_at'', JStr (rfc3339_nano (e_clock ?e + five_minutes))),
                                         (''url'', JStr (base @ ''/media/'' @ secret))])])))) s3 = (resp, s')"
    by (rule answer_then [OF run [unfolded sec(2) answer_once] assms(2) refusing_audit])
  obtain als where s3: "s3 = set_db ((wk_db s)\<lparr>audit_logs := als\<rparr>) s" using audit_went_on [OF au] by blast
  obtain w s4 where st: "store_ticket ?e r i secret s3 = (Inr w, s4)" and done':
      "resp = reply 200 (JObj [(''data'', JObj [(''expires_at'', JStr (rfc3339_nano (e_clock ?e + five_minutes))),
                                         (''url'', JStr (base @ ''/media/'' @ secret))])])" "s' = s4"
    by (rule answer_then [OF run assms(2) store_ticket_refuses]) (simp add: answer_done)
  obtain k d where k: "e_uuid ?e i = Some k" "s4 = set_db d s3"
    and d: "insert_ticket ?e \<lparr>tk_hash = e_sha ?e secret, tk_token = e_sha ?e tok, tk_media = k,
        tk_expires = e_clock ?e + five_minutes\<rparr> (wk_db s3) = Some d"
    using st tok by (auto simp: store_ticket_def split: option.splits)
  have "d = (wk_db s3)\<lparr>tickets := tickets (wk_db s3) @ [\<lparr>tk_hash = e_sha ?e secret, tk_token = e_sha ?e tok, tk_media = k,
        tk_expires = e_clock ?e + five_minutes\<rparr>]\<rparr>"
    using d by (auto simp: insert_ticket_def split: if_splits)
  then show ?thesis
    using sec(1) k done' s3 by (auto simp: link_made_def access_tables_def)
qed

lemma demand_shut:
  assumes "demand_reads E rd sync" "sync = Some f" "f account q s = (res, s')"
  shows "db_rel shut s s'"
proof -
  obtain pages locked g put w live where f: "f = Refresh E pages locked g put w live"
    using assms(1,2) by (auto simp: demand_reads_def)
  show ?thesis by (rule closed.Refresh_keeps [OF assms(3) [unfolded f]]) simp_all
qed

lemma mediaTicket_made:
  assumes run: "answer_web (mediaTicket E base rnd sync p r) s = (resp, s')" and ok: "rs_status resp \<in> ok_statuses"
    and tok: "bearerToken (rq_header r ''Authorization'') = Some tok" and sync: "demand_reads E rd sync"
  shows "\<exists>secret. HasScope (p_scopes p) ''media:read'' \<and> map_option b64_encode rnd = Some secret
    \<and> link_made (E (clock s')) base tok (rq_wild r ''mediaID'') secret resp (wk_db s) (wk_db s')"
proof -
  let ?i = "rq_wild r ''mediaID''"
  obtain u s1 where a: "pass_check (requireScope p ''media:read'') s = (Inr u, s1)"
    and run: "answer_web (refreshRead sync (p_account p) ((ask_for ''media'' 0)\<lparr>od_media := ?i\<rparr>)
         (ticket_answer E base rnd p r ?i)) s1 = (resp, s')"
    by (rule answer_then [OF run [unfolded mediaTicket_steps] ok refusing_scope])
  have s1: "s1 = s" "HasScope (p_scopes p) ''media:read''" using a by (simp_all add: scope_held)
  have "\<exists>fresh s2 r1. db_rel shut s s2 \<and> answer_web (ticket_answer E base rnd p r ?i fresh) s2 = (r1, s')
      \<and> rs_status r1 = rs_status resp \<and> rs_body r1 = rs_body resp"
  proof (rule answer_refresh [OF run [unfolded s1(1)] ok])
    assume "answer_web (ticket_answer E base rnd p r ?i no_result) s = (resp, s')"
    moreover have "db_rel shut s s" by (simp add: db_rel_def shut_def)
    ultimately show ?thesis by blast
  next
    fix f fresh s2 r1
    assume "sync = Some f" "f (p_account p) ((ask_for ''media'' 0)\<lparr>od_media := ?i\<rparr>) s = (Inr fresh, s2)"
      "answer_web (ticket_answer E base rnd p r ?i fresh) s2 = (r1, s')" "resp = on_demand_header r1"
    then show ?thesis using demand_shut [OF sync] by (metis header_status)
  qed
  then obtain fresh s2 r1 where r1: "db_rel shut s s2" "answer_web (ticket_answer E base rnd p r ?i fresh) s2 = (r1, s')"
      "rs_status r1 = rs_status resp" "rs_body r1 = rs_body resp" by blast
  have "rs_status r1 \<in> ok_statuses" using ok r1(3) by simp
  from ticket_answer_made [OF r1(2) this tok] show ?thesis
    using s1(2) r1(1,4) by (auto simp: link_made_def db_rel_def shut_def)
qed

text \<open>C13: A download link is made only for what was granted.  When the API answers a request for a link, the
  bearer token is good and may read media, the attachment is of a live message in a chat of the
  token's account that its owner lets be read, and what is stored is one new ticket, for that
  token and that attachment, good for five minutes; the link in the answer is the ticket's secret.
\<close>

theorem link_made_for_granted_media:
  assumes "protectedAPI ap r s = (resp, s')" "rs_status resp = 200" "api_mux r = Inr (RMediaURL, x)"
    and "\<And>t. e_uuid (ap_env ap t) = rd" "pg_uuid (ap_env ap (clock s))" "demand_reads (ap_env ap) rd (ap_sync ap)"
  shows "\<exists>tok p row secret. bearerToken (rq_header r ''Authorization'') = Some tok
    \<and> AuthenticateBearer (ap_env ap (clock s)) tok (wk_db s) = Inr p \<and> HasScope (p_scopes p) ''media:read''
    \<and> media_granted (ap_env ap (clock s)) (p_account p) x (wk_db s) row
    \<and> map_option b64_encode (ap_random ap) = Some secret
    \<and> link_made (ap_env ap (clock s')) (ap_base ap) tok x secret resp (wk_db s) (wk_db s')"
proof -
  have ok: "rs_status resp \<in> ok_statuses" by (simp add: assms(2) ok_statuses_def)
  obtain tok p w where p: "bearerToken (rq_header r ''Authorization'') = Some tok"
      "AuthenticateBearer (ap_env ap (clock s)) tok (wk_db s) = Inr p" "wd_db w = wk_db s"
      "chatAccess (ap_env ap (clock s)) p r (wk_db s) = None"
      "answer_web (api_handler ap RMediaURL p (r\<lparr>rq_wild := route_values RMediaURL x\<rparr>)) (s\<lparr>wk_world := w\<rparr>) = (resp, s')"
    by (rule api_passed [OF assms(1) ok assms(3)])
  have x: "rq_wild (r\<lparr>rq_wild := route_values RMediaURL x\<rparr>) ''mediaID'' = x"
    by (simp add: route_values_def chat_route_def)
  obtain secret where made: "HasScope (p_scopes p) ''media:read''" "map_option b64_encode (ap_random ap) = Some secret"
      "link_made (ap_env ap (clock s')) (ap_base ap) tok x secret resp (wk_db s) (wk_db s')"
    using mediaTicket_made [OF p(5) [unfolded api_handler.simps] ok _ assms(6), of tok] p(1,3) unfolding x by auto
  obtain u where "rd x = Some u" using made(3) assms(4) by (auto simp: link_made_def)
  then have "CHR ''/'' \<notin> set x" using uuid_text [OF assms(5)] assms(4) by simp
  from media_handler_guarded [OF p(4) assms(3) this]
  obtain row where "media_granted (ap_env ap (clock s)) (p_account p) x (wk_db s) row" by (rule allowMedia_row)
  then show ?thesis using p(1,2) made by blast
qed

end
