(* ===== verification/Preview.thy ===== *)
theory Preview
  imports Mcp TicketTheorems
begin

text \<open>
  Previews of attachments (\<open>internal/httpserver/media_inspect.go\<close>).  The permission is checked once
  more after the slow part: what was taken back while a video was read is not shown.
\<close>

section \<open>The handler\<close>

text \<open>The library's part: \<open>strconv.ParseFloat\<close>, the image and video decoders (the flag says which),
  padded base64, and how \<open>encoding/json\<close> prints a number.\<close>

record codecs =
  cd_float :: "string \<Rightarrow> float64 option"
  cd_preview :: "bool \<Rightarrow> rat \<Rightarrow> bytes \<Rightarrow> bytes result"
  cd_base64 :: "bytes \<Rightarrow> string"
  cd_number :: "rat \<Rightarrow> string"

definition max_preview :: int where
  "max_preview = 100 * 1048576"

definition bad_second :: response where
  "bad_second = reply_error 400 ''second must be between 0 and 86400''"

definition wanted_second :: "codecs \<Rightarrow> request \<Rightarrow> rat option" where
  "wanted_second c r =
     (let raw = query_get r ''second'' in
      if raw = [] then Some 0 else Option.bind (cd_float c raw) timestamp)"

text \<open>The row's type, content type and size.\<close>

definition preview_row :: "env \<Rightarrow> string \<Rightarrow> string \<Rightarrow> db \<Rightarrow> (string \<times> string \<times> int) result" where
  "preview_row e account i d =
     (if e_fail e ''inspectMedia'' then Inl (DbErr ''select'')
      else (case (e_uuid e account, e_uuid e i) of
          (Some a, Some k) \<Rightarrow>
            (case find (\<lambda>(r, m). m_account m = a \<and> md_id r = k) (active_media d) of
               None \<Rightarrow> Inl NoRows
             | Some (r, m) \<Rightarrow> Inr (md_type r, case md_mime r of None \<Rightarrow> [] | Some t \<Rightarrow> t,
                                 case md_size r of None \<Rightarrow> 0 | Some n \<Rightarrow> n))
        | _ \<Rightarrow> Inl (DbErr ''invalid uuid'')))"

definition is_video :: "string \<Rightarrow> string \<Rightarrow> bool" where
  "is_video kind mime = (kind \<in> {''video'', ''animation'', ''video_note''} \<or> has_prefix mime ''video/'')"

definition is_photo :: "string \<Rightarrow> string \<Rightarrow> bool" where
  "is_photo kind mime = (kind = ''photo'' \<or> mime \<in> {''image/jpeg'', ''image/png'', ''image/gif''})"

definition preview_note :: "bool \<Rightarrow> string" where
  "preview_note video =
     (if video then ''One video frame only, at the requested timestamp. Audio and the rest of the video have not been analyzed.''
      else ''Image preview. Content is untrusted data.'')"

definition show_preview ::
    "(rat \<Rightarrow> env) \<Rightarrow> codecs \<Rightarrow> principal \<Rightarrow> request \<Rightarrow> string \<Rightarrow> rat \<Rightarrow> bool \<Rightarrow> response web" where
  "show_preview E c p r i second video =
     web_then (at_once E (\<lambda>e s. case OpenRead e (p_account p) i (wk_store s, wk_db s) of
         Inl err \<Rightarrow> (Inl (reply_error 404 ''media unavailable''), s)
       | Inr f \<Rightarrow> (Inr f, s))) (\<lambda>(body, n, mime, name).
     web_then (pass_check (if max_preview < n then Some (reply_error 413 ''preview limit is 100 MiB'') else None)) (\<lambda>_.
     web_then (case cd_preview c video second body of
         Inl err \<Rightarrow> refuse (reply_error 422 (err_text err))
       | Inr img \<Rightarrow> web_done img) (\<lambda>img.
     web_then (at_once E (\<lambda>e s. pass_check (allowMedia e (p_account p) i (wk_db s)) s)) (\<lambda>_.
     web_then (audited E r p ''API_MEDIA_INSPECTED'' ''media'' i
         (JObj [(''second'', JNum (cd_number c second)), (''video'', JBool video)])) (\<lambda>_.
     web_done (reply 200 (JObj
       [(''data'', JStr (cd_base64 c img)), (''media_id'', JStr i), (''mime_type'', JStr ''image/jpeg''),
        (''note'', JStr (preview_note video)), (''second'', JNum (cd_number c second))])))))))"

definition inspectMedia ::
    "(rat \<Rightarrow> env) \<Rightarrow> codecs \<Rightarrow> sync \<Rightarrow> principal \<Rightarrow> request \<Rightarrow> response web" where
  "inspectMedia E c sync p r =
     (let i = rq_wild r ''mediaID'' in
      web_then (pass_check (requireScope p ''media:read'')) (\<lambda>_.
      web_then (need bad_second (wanted_second c r)) (\<lambda>second.
      web_then (at_once E (\<lambda>e. web_read (\<lambda>_. reply_error 404 ''media unavailable'') (preview_row e (p_account p) i)))
        (\<lambda>(kind, mime, size).
          let kind = to_lower kind; video = is_video kind mime in
          web_then (pass_check (if \<not> video \<and> \<not> is_photo kind mime
              then Some (reply_error 415 ''preview supports photos and videos; use get_media_url for other files'') else None)) (\<lambda>_.
          web_then (pass_check (if max_preview < size
              then Some (reply_error 413 ''preview limit is 100 MiB; use get_media_url'') else None)) (\<lambda>_.
          refreshRead sync (p_account p) ((ask_for ''media'' 0)\<lparr>od_media := i\<rparr>)
            (\<lambda>_. show_preview E c p r i second video)))))))"

section \<open>What is shown\<close>

lemma opened_went_on:
  "at_once E (\<lambda>e s. case OpenRead e account i (wk_store s, wk_db s) of
       Inl err \<Rightarrow> (Inl x, s) | Inr f \<Rightarrow> (Inr f, s)) s = (Inr y, s')
   \<longleftrightarrow> OpenRead (E (clock s)) account i (wk_store s, wk_db s) = Inr y \<and> s' = s"
  by (auto simp: went_on split: sum.splits)

lemma allowMedia_refuses: "allowMedia e account i d = Some resp \<Longrightarrow> rs_status resp \<notin> ok_statuses"
  by (auto simp: allowMedia_def allowChat_def ok_statuses_def split: if_splits option.splits prod.splits)

lemma media_granted_audit [simp]: "media_granted e account i (d\<lparr>audit_logs := als\<rparr>) r = media_granted e account i d r"
  by (simp add: media_granted_def may_chat_def active_chats_def active_media_def active_messages_def message_active_def Let_def)

lemma active_media_audit [simp]: "active_media (d\<lparr>audit_logs := als\<rparr>) = active_media d"
proof -
  have "message_active (d\<lparr>audit_logs := als\<rparr>) = message_active d" by (simp add: fun_eq_iff message_active_def)
  then show ?thesis by (simp add: active_media_def active_messages_def)
qed

lemma GetActive_audit [simp]: "GetActive e account i (d\<lparr>audit_logs := als\<rparr>) = GetActive e account i d"
  unfolding GetActive_def get_item_def active_media_audit by (rule refl)

lemma OpenRead_audit [simp]: "OpenRead e account i (st, d\<lparr>audit_logs := als\<rparr>) = OpenRead e account i (st, d)"
  unfolding OpenRead_def snd_conv fst_conv GetActive_audit by (rule refl)

lemma show_preview_granted:
  assumes run: "answer_web (show_preview E c p r i second video) s = (resp, s')" and ok: "rs_status resp \<in> ok_statuses"
  shows "\<exists>row body n mime name img. media_granted (E (clock s')) (p_account p) i (wk_db s') row
    \<and> OpenRead (E (clock s')) (p_account p) i (wk_store s', wk_db s') = Inr (body, n, mime, name) \<and> n \<le> max_preview
    \<and> cd_preview c video second body = Inr img \<and> json_lookup ''data'' (rs_body resp) = Some (JStr (cd_base64 c img))"
proof -
  let ?e = "E (clock s)"
  obtain f s1 where f: "at_once E (\<lambda>e s. case OpenRead e (p_account p) i (wk_store s, wk_db s) of
         Inl err \<Rightarrow> (Inl (reply_error 404 ''media unavailable''), s) | Inr f \<Rightarrow> (Inr f, s)) s = (Inr f, s1)"
    and run: "answer_web ((\<lambda>(body, n, mime, name).
     web_then (pass_check (if max_preview < n then Some (reply_error 413 ''preview limit is 100 MiB'') else None)) (\<lambda>_.
     web_then (case cd_preview c video second body of
         Inl err \<Rightarrow> refuse (reply_error 422 (err_text err)) | Inr img \<Rightarrow> web_done img) (\<lambda>img.
     web_then (at_once E (\<lambda>e s. pass_check (allowMedia e (p_account p) i (wk_db s)) s)) (\<lambda>_.
     web_then (audited E r p ''API_MEDIA_INSPECTED'' ''media'' i
         (JObj [(''second'', JNum (cd_number c second)), (''video'', JBool video)])) (\<lambda>_.
     web_done (reply 200 (JObj
       [(''data'', JStr (cd_base64 c img)), (''media_id'', JStr i), (''mime_type'', JStr ''image/jpeg''),
        (''note'', JStr (preview_note video)), (''second'', JNum (cd_number c second))]))))))) f) s1 = (resp, s')"
    by (rule answer_then [OF run [unfolded show_preview_def] ok])
      (auto simp: refusing_def at_once_def ok_statuses_def split: sum.splits)
  obtain body n mime name where o: "f = (body, n, mime, name)" "OpenRead ?e (p_account p) i (wk_store s, wk_db s) = Inr f" "s1 = s"
    using f by (cases f) (auto simp: opened_went_on)
  obtain u s2 where n: "pass_check (if max_preview < n then Some (reply_error 413 ''preview limit is 100 MiB'') else None) s1 = (Inr u, s2)"
    and run: "answer_web (web_then (case cd_preview c video second body of
         Inl err \<Rightarrow> refuse (reply_error 422 (err_text err)) | Inr img \<Rightarrow> web_done img) (\<lambda>img.
     web_then (at_once E (\<lambda>e s. pass_check (allowMedia e (p_account p) i (wk_db s)) s)) (\<lambda>_.
     web_then (audited E r p ''API_MEDIA_INSPECTED'' ''media'' i
         (JObj [(''second'', JNum (cd_number c second)), (''video'', JBool video)])) (\<lambda>_.
     web_done (reply 200 (JObj
       [(''data'', JStr (cd_base64 c img)), (''media_id'', JStr i), (''mime_type'', JStr ''image/jpeg''),
        (''note'', JStr (preview_note video)), (''second'', JNum (cd_number c second))])))))) s2 = (resp, s')"
    by (rule answer_then [OF run [unfolded o(1) prod.case] ok]) (auto intro!: refusing_check simp: ok_statuses_def split: if_splits)
  have s2: "s2 = s" "n \<le> max_preview" using n o(3) by (auto simp: went_on split: if_splits)
  obtain img s3 where img: "(case cd_preview c video second body of
         Inl err \<Rightarrow> refuse (reply_error 422 (err_text err)) | Inr img \<Rightarrow> web_done img) s2 = (Inr img, s3)"
    and run: "answer_web (web_then (at_once E (\<lambda>e s. pass_check (allowMedia e (p_account p) i (wk_db s)) s)) (\<lambda>_.
     web_then (audited E r p ''API_MEDIA_INSPECTED'' ''media'' i
         (JObj [(''second'', JNum (cd_number c second)), (''video'', JBool video)])) (\<lambda>_.
     web_done (reply 200 (JObj
       [(''data'', JStr (cd_base64 c img)), (''media_id'', JStr i), (''mime_type'', JStr ''image/jpeg''),
        (''note'', JStr (preview_note video)), (''second'', JNum (cd_number c second))]))))) s3 = (resp, s')"
    by (rule answer_then [OF run ok]) (auto intro!: refusals simp: ok_statuses_def split: sum.splits)
  have s3: "s3 = s" "cd_preview c video second body = Inr img" using img s2(1) by (auto simp: went_on split: sum.splits)
  obtain v s4 where al: "at_once E (\<lambda>e s. pass_check (allowMedia e (p_account p) i (wk_db s)) s) s3 = (Inr v, s4)"
    and run: "answer_web (web_then (audited E r p ''API_MEDIA_INSPECTED'' ''media'' i
         (JObj [(''second'', JNum (cd_number c second)), (''video'', JBool video)])) (\<lambda>_.
     web_done (reply 200 (JObj
       [(''data'', JStr (cd_base64 c img)), (''media_id'', JStr i), (''mime_type'', JStr ''image/jpeg''),
        (''note'', JStr (preview_note video)), (''second'', JNum (cd_number c second))])))) s4 = (resp, s')"
    by (rule answer_then [OF run ok])
      (auto simp: refusing_def at_once_def pass_check_def refuse_def web_done_def dest: allowMedia_refuses split: option.splits)
  have s4: "s4 = s" "allowMedia ?e (p_account p) i (wk_db s) = None" using al s3(1) by (auto simp: went_on)
  obtain w s5 where au: "audited E r p ''API_MEDIA_INSPECTED'' ''media'' i
         (JObj [(''second'', JNum (cd_number c second)), (''video'', JBool video)]) s = (Inr w, s5)"
    and fin: "resp = reply 200 (JObj
       [(''data'', JStr (cd_base64 c img)), (''media_id'', JStr i), (''mime_type'', JStr ''image/jpeg''),
        (''note'', JStr (preview_note video)), (''second'', JNum (cd_number c second))])" "s' = s5"
    by (rule answer_then [OF run [unfolded s4(1)] ok refusing_audit]) (simp add: answer_done)
  obtain als where s5: "s' = set_db ((wk_db s)\<lparr>audit_logs := als\<rparr>) s" using audit_went_on [OF au] fin(2) by blast
  obtain row where "media_granted ?e (p_account p) i (wk_db s) row" by (rule allowMedia_row [OF s4(2)])
  then show ?thesis
    using o s2(2) s3(2) fin(1) by (auto simp: s5 set_db_def clock_def reply_def)
qed

definition previewed ::
    "(rat \<Rightarrow> env) \<Rightarrow> codecs \<Rightarrow> sync \<Rightarrow> principal \<Rightarrow> request \<Rightarrow> string \<Rightarrow> rat \<Rightarrow> string \<times> string \<times> int \<Rightarrow> response web" where
  "previewed E c sync p r i second = (\<lambda>(kind, mime, size).
     let kind = to_lower kind; video = is_video kind mime in
     web_then (pass_check (if \<not> video \<and> \<not> is_photo kind mime
         then Some (reply_error 415 ''preview supports photos and videos; use get_media_url for other files'') else None)) (\<lambda>_.
     web_then (pass_check (if max_preview < size
         then Some (reply_error 413 ''preview limit is 100 MiB; use get_media_url'') else None)) (\<lambda>_.
     refreshRead sync (p_account p) ((ask_for ''media'' 0)\<lparr>od_media := i\<rparr>)
       (\<lambda>_. show_preview E c p r i second video))))"

lemma inspectMedia_steps:
  "inspectMedia E c sync p r =
     web_then (pass_check (requireScope p ''media:read'')) (\<lambda>_.
     web_then (need bad_second (wanted_second c r)) (\<lambda>second.
     web_then (at_once E (\<lambda>e. web_read (\<lambda>_. reply_error 404 ''media unavailable'') (preview_row e (p_account p) (rq_wild r ''mediaID''))))
       (previewed E c sync p r (rq_wild r ''mediaID'') second)))"
  by (simp only: inspectMedia_def previewed_def Let_def)

lemma previewed_shown:
  assumes "answer_web (previewed E c sync p r i second x) s = (resp, s')" "rs_status resp \<in> ok_statuses"
  obtains s1 video r1 where "answer_web (show_preview E c p r i second video) s1 = (r1, s')"
    "rs_status r1 = rs_status resp" "rs_body r1 = rs_body resp"
proof -
  obtain kind mime size where x: "x = (kind, mime, size)" by (cases x)
  let ?v = "is_video (to_lower kind) mime"
  obtain u s1 where run: "answer_web (web_then (pass_check (if max_preview < size
         then Some (reply_error 413 ''preview limit is 100 MiB; use get_media_url'') else None)) (\<lambda>_.
     refreshRead sync (p_account p) ((ask_for ''media'' 0)\<lparr>od_media := i\<rparr>)
       (\<lambda>_. show_preview E c p r i second ?v))) s1 = (resp, s')"
    by (rule answer_then [OF assms(1) [unfolded previewed_def x prod.case Let_def] assms(2)])
      (auto intro!: refusing_check simp: ok_statuses_def split: if_splits)
  obtain w s2 where run: "answer_web (refreshRead sync (p_account p) ((ask_for ''media'' 0)\<lparr>od_media := i\<rparr>)
       (\<lambda>_. show_preview E c p r i second ?v)) s2 = (resp, s')"
    by (rule answer_then [OF run assms(2)]) (auto intro!: refusing_check simp: ok_statuses_def split: if_splits)
  show thesis
  proof (rule answer_refresh [OF run assms(2)])
    assume "answer_web (show_preview E c p r i second ?v) s2 = (resp, s')"
    then show thesis by (rule that) simp_all
  next
    fix f fresh s3 r1
    assume "answer_web (show_preview E c p r i second ?v) s3 = (r1, s')" "resp = on_demand_header r1"
    then show thesis by (intro that [of ?v s3 r1]) (simp_all add: header_status)
  qed
qed

text \<open>C20: A preview shows granted content, as of the moment it is sent.  When \<open>inspectMedia\<close> answers with an
  image, then the token may read media, the attachment is of a live message in a chat of the token's
  account that its owner lets be read now, after the file was fetched from Telegram and decoded, and the
  image is made from that attachment's stored file, of at most 100 MiB.
\<close>

theorem preview_rechecked:
  assumes run: "answer_web (inspectMedia E c sync p r) s = (resp, s')" and ok: "rs_status resp = 200"
  shows "\<exists>row body n mime name second img video. HasScope (p_scopes p) ''media:read'' \<and> wanted_second c r = Some second
    \<and> media_granted (E (clock s')) (p_account p) (rq_wild r ''mediaID'') (wk_db s') row
    \<and> OpenRead (E (clock s')) (p_account p) (rq_wild r ''mediaID'') (wk_store s', wk_db s') = Inr (body, n, mime, name) \<and> n \<le> max_preview
    \<and> cd_preview c video second body = Inr img \<and> json_lookup ''data'' (rs_body resp) = Some (JStr (cd_base64 c img))"
proof -
  let ?i = "rq_wild r ''mediaID''"
  have st: "rs_status resp \<in> ok_statuses" by (simp add: ok ok_statuses_def)
  obtain u s1 where a: "pass_check (requireScope p ''media:read'') s = (Inr u, s1)"
    and run: "answer_web (web_then (need bad_second (wanted_second c r)) (\<lambda>second.
      web_then (at_once E (\<lambda>e. web_read (\<lambda>_. reply_error 404 ''media unavailable'') (preview_row e (p_account p) ?i)))
        (previewed E c sync p r ?i second))) s1 = (resp, s')"
    by (rule answer_then [OF run [unfolded inspectMedia_steps] st refusing_scope])
  obtain second s2 where b: "need bad_second (wanted_second c r) s1 = (Inr second, s2)"
    and run: "answer_web (web_then (at_once E (\<lambda>e. web_read (\<lambda>_. reply_error 404 ''media unavailable'') (preview_row e (p_account p) ?i)))
        (previewed E c sync p r ?i second)) s2 = (resp, s')"
    by (rule answer_then [OF run st]) (auto intro!: refusals simp: bad_second_def ok_statuses_def)
  obtain x s3 where run: "answer_web (previewed E c sync p r ?i second x) s3 = (resp, s')"
    by (rule answer_then [OF run st]) (auto intro!: refusals simp: ok_statuses_def)
  obtain s4 video r1 where v: "answer_web (show_preview E c p r ?i second video) s4 = (r1, s')"
      "rs_status r1 = rs_status resp" "rs_body r1 = rs_body resp"
    by (rule previewed_shown [OF run st])
  have "rs_status r1 \<in> ok_statuses" using st v(2) by simp
  from show_preview_granted [OF v(1) this] show ?thesis
    using scope_held [THEN iffD1, OF a] b unfolding v(3) by (auto simp: went_on)
qed

end
