(* ===== verification/ReadDemo.thy ===== *)
theory ReadDemo
  imports ReadTheorems
begin

text \<open>A request for the messages of a chat, answered.\<close>

definition demo_reader_token :: token_row where
  "demo_reader_token = demo_token\<lparr>at_scopes := [''messages:read'', ''media:read'']\<rparr>"

definition demo_read_db :: db where
  "demo_read_db = demo_send_db\<lparr>tokens := [demo_reader_token], messages := [(demo_message ''e1'' 4 90 None ''hi'')\<lparr>m_chat := ''b1''\<rparr>]\<rparr>"

definition demo_read_worker :: worker where
  "demo_read_worker = \<lparr>wk_world = \<lparr>wd_db = demo_read_db, wd_redis = empty_redis, wd_time = 100\<rparr>, wk_bus = [], wk_store = Map.empty\<rparr>"

definition demo_api :: api where
  "demo_api = \<lparr>ap_env = (\<lambda>t. demo_send_env), ap_locale = ascii_rules, ap_views = (\<lambda>v d. []), ap_chat_row = (\<lambda>c. []),
     ap_sync = None, ap_base = [], ap_random = None, ap_sender = NoSession, ap_inspect = (\<lambda>p r. web_done (reply 404 JNull))\<rparr>"

definition demo_read_request :: request where
  "demo_read_request = (demo_send_request ''GET'')\<lparr>rq_header := (\<lambda>n. if n = ''Authorization'' then ''Bearer '' @ demo_bearer else [])\<rparr>"

definition demo_page :: "response \<times> worker" where
  "demo_page = protectedAPI demo_api demo_read_request demo_read_worker"

definition demo_admission :: "(response + principal) \<times> world" where
  "demo_admission = admit_bearer demo_send_env [] demo_read_request (wk_world demo_read_worker)"

definition demo_reader :: principal where
  "demo_reader = \<lparr>p_user = ''u1'', p_client = ''c1'', p_type = MCP, p_account = ''a1'', p_scopes = [''messages:read'', ''media:read'']\<rparr>"

lemma demo_admitted: "fst demo_admission = Inr demo_reader"
  by code_simp

lemma demo_read_access: "chatAccess demo_send_env demo_reader demo_read_request (wd_db (snd demo_admission)) = None"
  by code_simp

lemma demo_routed: "api_mux demo_read_request = Inr (RMessages, ''b1'')"
  by code_simp

lemma demo_admission_time: "wd_time (snd demo_admission) = 100"
  by code_simp

text \<open>The bearer check counts the request in Redis, whatever that leaves there.\<close>

definition demo_listed :: "redis \<Rightarrow> response \<times> worker" where
  "demo_listed R = answer_web (listMessages (\<lambda>t. demo_send_env) None demo_reader
     (demo_read_request\<lparr>rq_wild := route_values RMessages ''b1''\<rparr>))
       (demo_read_worker\<lparr>wk_world := \<lparr>wd_db = demo_read_db, wd_redis = R, wd_time = 100\<rparr>\<rparr>)"

lemma demo_listed_ok:
  "(case demo_listed R of (r, s) \<Rightarrow> (rs_status r, json_lookup ''count'' (rs_body r))) = (200, Some (JNum ''1''))"
  by code_simp

lemma demo_page_run: "\<exists>R. demo_page = demo_listed R"
proof -
  obtain w where w: "demo_admission = (Inr demo_reader, w)" using demo_admitted by (metis prod.collapse)
  have "wd_db w = demo_read_db"
    by (rule admit_pass [OF w [unfolded demo_admission_def]]) (simp add: demo_read_worker_def)
  then have "w = \<lparr>wd_db = demo_read_db, wd_redis = wd_redis w, wd_time = 100\<rparr>"
    using demo_admission_time [unfolded w] by (cases w) simp
  then show ?thesis
    using demo_read_access demo_routed w
    by (intro exI [of _ "wd_redis w"])
      (simp add: demo_page_def demo_listed_def protectedAPI_def demo_api_def demo_admission_def)
qed

lemma demo_page_good: "(rs_status (fst demo_page), json_lookup ''count'' (rs_body (fst demo_page))) = (200, Some (JNum ''1''))"
proof -
  obtain R where R: "demo_page = demo_listed R" using demo_page_run by blast
  show ?thesis using demo_listed_ok [of R] unfolding R by (simp add: case_prod_beta)
qed

theorem messages_stay_in_grant_witness:
  "json_lookup ''count'' (rs_body (fst demo_page)) = Some (JNum ''1'')
    \<and> (\<exists>a c ms. may_chat a c False demo_read_db
        \<and> json_lookup ''data'' (rs_body (fst demo_page)) = Some (JArr (map (\<lambda>m. message_json (msg_of_row m)) ms))
        \<and> set ms \<subseteq> set (active_messages (wk_db (snd demo_page))) \<and> list_all (\<lambda>m. m_account m = a \<and> m_chat m = c) ms)"
proof -
  obtain resp s' where run: "demo_page = (resp, s')" by fastforce
  have ok: "rs_status resp = 200" "json_lookup ''count'' (rs_body resp) = Some (JNum ''1'')"
    using demo_page_good by (simp_all add: run)
  have env: "ap_env demo_api t = demo_send_env" "ap_sync demo_api = None" for t by (simp_all add: demo_api_def)
  have "e_uuid demo_send_env ''e1'' = Some ''e1''" by code_simp
  then have ids: "ids_ok (\<lambda>i. e_uuid demo_send_env i = Some i) (wk_db demo_read_worker)"
    by (simp add: ids_ok_def demo_read_worker_def demo_read_db_def demo_message_def)
  have db: "wk_db demo_read_worker = demo_read_db" by (simp add: demo_read_worker_def)
  from messages_stay_in_grant [OF run [unfolded demo_page_def] ok(1) demo_routed, of "e_uuid demo_send_env"]
  show ?thesis
    using ids demo_send_ids(7) ok(2) by (auto simp: env demand_reads_def run db)
qed

end
