(* ===== verification/TicketDemo.thy ===== *)
theory TicketDemo
  imports TicketTheorems ReadDemo
begin

text \<open>A link to an attachment made over the API, and the link followed.\<close>

definition demo_file_row :: media where
  "demo_file_row = \<lparr>md_id = ''f1'', md_message = ''e1'', md_type = ''photo'', md_file = Some 9, md_unique = Some ''u'',
     md_object = Some ''k'', md_mime = Some ''t'', md_name = None, md_size = Some 2, md_sha = None, md_status = MReady,
     md_attempts = 1, md_last_attempt = None, md_downloaded = Some 1, md_error = None, md_created = 1, md_updated = 1\<rparr>"

definition demo_ticket :: ticket where
  "demo_ticket = \<lparr>tk_hash = ''a2V5'', tk_token = demo_bearer, tk_media = ''f1'', tk_expires = 6000000\<rparr>"

definition demo_file_db :: db where
  "demo_file_db = demo_read_db\<lparr>media_rows := [demo_file_row]\<rparr>"

definition demo_file_worker :: "ticket list \<Rightarrow> redis \<Rightarrow> worker" where
  "demo_file_worker ts R = \<lparr>wk_world = \<lparr>wd_db = demo_file_db\<lparr>tickets := ts\<rparr>, wd_redis = R, wd_time = 100\<rparr>,
     wk_bus = [], wk_store = [''k'' \<mapsto> (''ab'', ''t'')]\<rparr>"

section \<open>Following a link\<close>

definition demo_follow :: request where
  "demo_follow = (demo_send_request ''GET'')\<lparr>rq_wild := (\<lambda>n. if n = ''ticket'' then ''a2V5'' else [])\<rparr>"

definition demo_served :: "(response + served) \<times> worker" where
  "demo_served = downloadTicket demo_send_env demo_follow (demo_file_worker [demo_ticket] empty_redis)"

lemma demo_served_file: "map_option sv_body (case fst demo_served of Inl r \<Rightarrow> None | Inr f \<Rightarrow> Some f) = Some ''ab''"
  by code_simp

theorem link_serves_granted_media_witness:
  "\<exists>f s' row. demo_served = (Inr f, s') \<and> sv_body f = ''ab'' \<and> media_granted demo_send_env ''a1'' ''f1'' (demo_file_db\<lparr>tickets := [demo_ticket]\<rparr>) row"
proof -
  obtain f where f: "fst demo_served = Inr f" "sv_body f = ''ab''"
    using demo_served_file by (auto split: sum.splits)
  then have run: "demo_served = (Inr f, snd demo_served)" by (metis prod.collapse)
  have tokens: "tokens (wk_db (demo_file_worker [demo_ticket] empty_redis)) = [demo_reader_token]"
      "tickets (wk_db (demo_file_worker [demo_ticket] empty_redis)) = [demo_ticket]"
      "wk_db (demo_file_worker [demo_ticket] empty_redis) = demo_file_db\<lparr>tickets := [demo_ticket]\<rparr>"
    "tokens demo_file_db = [demo_reader_token]"
    by (simp_all add: demo_file_worker_def demo_file_db_def demo_read_db_def)
  have row: "at_account demo_reader_token = ''a1''" "tk_media demo_ticket = ''f1''"
    by (simp_all add: demo_reader_token_def demo_token_def demo_ticket_def)
  from link_serves_granted_media [OF run [unfolded demo_served_def] demo_send_ids(7)]
  show ?thesis using run f(2) unfolding tokens
    by (auto simp: row tokens)
qed

section \<open>Making a link\<close>

definition demo_link_api :: api where
  "demo_link_api = demo_api\<lparr>ap_random := Some ''key''\<rparr>"

definition demo_link_request :: request where
  "demo_link_request = demo_read_request\<lparr>rq_url := no_url\<lparr>u_path := ''/v1/media/f1/url''\<rparr>, rq_wild := (\<lambda>_. [])\<rparr>"

definition demo_link :: "response \<times> worker" where
  "demo_link = protectedAPI demo_link_api demo_link_request (demo_file_worker [] empty_redis)"

definition demo_link_admission :: "(response + principal) \<times> world" where
  "demo_link_admission = admit_bearer demo_send_env [] demo_link_request (wk_world (demo_file_worker [] empty_redis))"

lemma demo_link_admitted: "fst demo_link_admission = Inr demo_reader"
  by code_simp

lemma demo_link_time: "wd_time (snd demo_link_admission) = 100"
  by code_simp

lemma demo_link_access: "chatAccess demo_send_env demo_reader demo_link_request (demo_file_db\<lparr>tickets := []\<rparr>) = None"
  by code_simp

lemma demo_link_routed: "api_mux demo_link_request = Inr (RMediaURL, ''f1'')"
  by code_simp

definition demo_ticket_made :: "redis \<Rightarrow> response \<times> worker" where
  "demo_ticket_made R = answer_web (mediaTicket (\<lambda>t. demo_send_env) [] (Some ''key'') None demo_reader
     (demo_link_request\<lparr>rq_wild := route_values RMediaURL ''f1''\<rparr>)) (demo_file_worker [] R)"

lemma demo_ticket_ok: "rs_status (fst (demo_ticket_made R)) = 200"
  by code_simp

lemma demo_link_ok: "rs_status (fst demo_link) = 200"
proof -
  obtain w where w: "demo_link_admission = (Inr demo_reader, w)" using demo_link_admitted by (metis prod.collapse)
  have "wd_db w = demo_file_db\<lparr>tickets := []\<rparr>"
    by (rule admit_pass [OF w [unfolded demo_link_admission_def]]) (simp add: demo_file_worker_def)
  then obtain R where "w = \<lparr>wd_db = demo_file_db\<lparr>tickets := []\<rparr>, wd_redis = R, wd_time = 100\<rparr>"
    using demo_link_time [unfolded w] by (cases w) simp
  then have "demo_link = demo_ticket_made R"
    using demo_link_access demo_link_routed w
    by (simp add: demo_link_def demo_ticket_made_def protectedAPI_def demo_link_api_def demo_api_def demo_link_admission_def
        demo_file_worker_def)
  then show ?thesis using demo_ticket_ok [of R] by (rule ssubst)
qed

theorem link_made_for_granted_media_witness:
  "\<exists>row. media_granted demo_send_env ''a1'' ''f1'' (demo_file_db\<lparr>tickets := []\<rparr>) row
    \<and> link_made demo_send_env [] demo_bearer ''f1'' ''a2V5'' (fst demo_link) (demo_file_db\<lparr>tickets := []\<rparr>) (wk_db (snd demo_link))"
proof -
  have run: "protectedAPI demo_link_api demo_link_request (demo_file_worker [] empty_redis) = (fst demo_link, snd demo_link)"
    by (simp add: demo_link_def)
  have env: "ap_env demo_link_api t = demo_send_env" "ap_sync demo_link_api = None" "ap_random demo_link_api = Some ''key''"
    "ap_base demo_link_api = []" for t by (simp_all add: demo_link_api_def demo_api_def)
  have key: "b64_encode ''key'' = ''a2V5''" by code_simp
  have tok: "bearerToken (rq_header demo_link_request ''Authorization'') = Some demo_bearer" by code_simp
  have db: "wk_db (demo_file_worker [] empty_redis) = demo_file_db\<lparr>tickets := []\<rparr>" by (simp add: demo_file_worker_def)
  have p: "AuthenticateBearer demo_send_env demo_bearer (demo_file_db\<lparr>tickets := []\<rparr>) = Inr demo_reader"
    by code_simp
  from link_made_for_granted_media [OF run demo_link_ok demo_link_routed, of "e_uuid demo_send_env"]
  obtain row where "media_granted demo_send_env (p_account demo_reader) ''f1'' (demo_file_db\<lparr>tickets := []\<rparr>) row"
    "link_made demo_send_env [] demo_bearer ''f1'' ''a2V5'' (fst demo_link) (demo_file_db\<lparr>tickets := []\<rparr>) (wk_db (snd demo_link))"
    using demo_send_ids(7) by (auto simp: env demand_reads_def tok db p key simp del: b64_encode.simps)
  then show ?thesis by (auto simp: demo_reader_def)
qed

end
