(* ===== verification/PreviewDemo.thy ===== *)
theory PreviewDemo
  imports Preview TicketDemo
begin

text \<open>The preview of a photo.\<close>

definition demo_codecs :: codecs where
  "demo_codecs = \<lparr>cd_float = (\<lambda>s. None), cd_preview = (\<lambda>v t b. Inr b), cd_base64 = (\<lambda>b. b), cd_number = (\<lambda>x. ''0'')\<rparr>"

definition demo_look :: request where
  "demo_look = (demo_send_request ''GET'')\<lparr>rq_wild := (\<lambda>n. if n = ''mediaID'' then ''f1'' else [])\<rparr>"

definition demo_preview :: "response \<times> worker" where
  "demo_preview = answer_web (inspectMedia (\<lambda>t. demo_send_env) demo_codecs None demo_reader demo_look) (demo_file_worker [] empty_redis)"

lemma demo_preview_ok: "rs_status (fst demo_preview) = 200"
  by code_simp

theorem preview_rechecked_witness:
  "\<exists>row. media_granted demo_send_env ''a1'' ''f1'' (wk_db (snd demo_preview)) row"
proof -
  have "answer_web (inspectMedia (\<lambda>t. demo_send_env) demo_codecs None demo_reader demo_look) (demo_file_worker [] empty_redis)
      = (fst demo_preview, snd demo_preview)" by (simp add: demo_preview_def)
  from preview_rechecked [OF this demo_preview_ok] show ?thesis
    by (auto simp: demo_reader_def demo_look_def)
qed

end
