(* ===== verification/McpTheorems.thy ===== *)
theory McpTheorems
  imports Mcp ReadTheorems
begin

text \<open>
  The message tools of the MCP server reach the API's own handlers: the address a tool builds is
  routed to the handler it means, with the chat it was given, and what it answers is granted.
\<close>

section \<open>Escaped text\<close>

definition query_char :: "char \<Rightarrow> bool" where
  "query_char c = (is_alnum c \<or> c \<in> set ''-_.~%+'')"

lemma upper_hex_alnum: "n < 16 \<Longrightarrow> is_alnum (upper_hex n)"
  by (simp add: upper_hex_def is_alnum_def byte_def Let_def)

lemma query_escaped: "list_all query_char (url_escape EQuery s)"
proof -
  have "query_char c \<or> should_escape EQuery c" for c
    by (auto simp: query_char_def should_escape_def split: if_splits)
  moreover have "query_char (upper_hex (byte c div 16))" "query_char (upper_hex (byte c mod 16))" for c
    using upper_hex_alnum byte_lt [of c] by (auto simp: query_char_def less_mult_imp_div_less)
  moreover have "query_char (CHR ''%'')" "query_char (CHR ''+'')" by (simp_all add: query_char_def)
  ultimately show ?thesis by (auto simp: url_escape_def list_all_iff)
qed

lemma path_escaped: "c \<in> set (url_escape EPath s) \<Longrightarrow> c \<in> set s \<or> c = CHR ''%'' \<or> is_alnum c"
  using upper_hex_alnum byte_lt by (auto simp: url_escape_def less_mult_imp_div_less split: if_splits)

lemma escape_append: "url_escape m (a @ b) = url_escape m a @ url_escape m b"
  by (simp add: url_escape_def)

lemma unescape_plain: "CHR ''%'' \<notin> set s \<Longrightarrow> unescape EPath s = Some s"
  by (induction s) (auto split: list.splits)

section \<open>Query strings\<close>

definition pair_text :: "string \<times> string \<Rightarrow> string" where
  "pair_text kv = url_escape EQuery (fst kv) @ ''='' @ url_escape EQuery (snd kv)"

definition single :: "string \<times> string \<Rightarrow> string \<times> string list" where
  "single kv = (fst kv, [snd kv])"

lemma query_char_not: "query_char c \<Longrightarrow> c \<noteq> CHR ''&'' \<and> c \<noteq> CHR ''='' \<and> c \<noteq> CHR '';'' \<and> c \<noteq> CHR ''?'' \<and> c \<noteq> CHR ''#'' \<and> \<not> is_ctl c"
  by (auto simp: query_char_def is_alnum_def is_ctl_def byte_def Let_def)

lemma escaped_free: "c \<in> set ''&=;?#'' \<Longrightarrow> c \<notin> set (url_escape EQuery s)"
  using query_escaped [of s] query_char_not by (fastforce simp: list_all_iff)

lemma cut_at: "c \<notin> set a \<Longrightarrow> cut c (a @ c # b) = (a, b)"
  by (induction a) (auto simp: cut_def)

lemma add_pair_text: "add_pair q (pair_text kv) = q_add (fst kv) (snd kv) q"
proof -
  have "cut (CHR ''='') (pair_text kv) = (url_escape EQuery (fst kv), url_escape EQuery (snd kv))"
    using cut_at [OF escaped_free [of "CHR ''=''" "fst kv"]] by (simp add: pair_text_def)
  moreover have "CHR '';'' \<notin> set (pair_text kv)" "pair_text kv \<noteq> []"
    using escaped_free [of "CHR '';''"] by (auto simp: pair_text_def)
  ultimately show ?thesis by (simp add: add_pair_def unescape_escape)
qed

lemma add_pairs:
  assumes "distinct (map fst kvs)" "fst ` set q \<inter> fst ` set kvs = {}"
  shows "foldl add_pair q (map pair_text kvs) = q @ map single kvs"
  using assms
proof (induction kvs arbitrary: q)
  case (Cons kv kvs)
  have "q_add (fst kv) (snd kv) q = q @ [single kv]" using Cons.prems(2) by (auto simp: q_add_def single_def)
  then show ?case using Cons by (simp add: add_pair_text single_def image_Un)
qed simp

lemma split_pairs: "kvs \<noteq> [] \<Longrightarrow>
    split_on (CHR ''&'') (pair_text (hd kvs) @ concat (map (\<lambda>kv. ''&'' @ pair_text kv) (tl kvs))) = map pair_text kvs"
proof (induction kvs)
  case (Cons kv kvs)
  have free: "CHR ''&'' \<notin> set (pair_text kv)" for kv
    using escaped_free [of "CHR ''&''"] by (auto simp: pair_text_def)
  show ?case
  proof (cases kvs)
    case Nil
    then show ?thesis using split_on_none [OF free] by simp
  next
    case (Cons kv' kvs')
    then show ?thesis using Cons.IH split_on_sep [OF free] by simp
  qed
qed simp

lemma insort_single: "insort_key fst (single x) (map single xs) = map single (insort_key fst x xs)"
  by (induction xs) (simp_all add: single_def)

lemma sort_single: "sort_key fst (map single kvs) = map single (sort_key fst kvs)"
  by (induction kvs) (simp_all add: insort_single)

lemma encode_pairs:
  "encode_query (map single kvs) = (case sort_key fst kvs of [] \<Rightarrow> []
     | x # xs \<Rightarrow> pair_text x @ concat (map (\<lambda>kv. ''&'' @ pair_text kv) xs))"
proof -
  have srt: "sort_key fst (map single kvs) = map single (sort_key fst kvs)"
    by (rule sort_single)
  have "concat (map (\<lambda>(k, vs). map (\<lambda>v. url_escape EQuery k @ ''='' @ url_escape EQuery v) vs) (map single xs)) = map pair_text xs" for xs
    by (induction xs) (simp_all add: single_def pair_text_def)
  then show ?thesis unfolding encode_query_def srt by (simp split: list.splits add: comp_def)
qed

lemma query_round:
  assumes "distinct (map fst kvs)" "kvs \<noteq> []"
  shows "parse_query (encode_query (map single kvs)) = map single (sort_key fst kvs)"
proof -
  have ne: "sort_key fst kvs \<noteq> []" using assms(2) by (metis length_0_conv length_sort)
  have d: "distinct (map fst (sort_key fst kvs))"
    using assms(1) by (metis distinct_map distinct_sort set_sort)
  have "encode_query (map single kvs) = pair_text (hd (sort_key fst kvs)) @ concat (map (\<lambda>kv. ''&'' @ pair_text kv) (tl (sort_key fst kvs)))"
    using ne unfolding encode_pairs by (cases "sort_key fst kvs") auto
  then show ?thesis
    using split_pairs [OF ne] add_pairs [OF d, of "[]"] by (simp add: parse_query_def)
qed

lemma query_text_ok:
  assumes "kvs \<noteq> []"
  shows "list_all (\<lambda>c. query_char c \<or> c \<in> set ''&='') (encode_query (map single kvs))" "encode_query (map single kvs) \<noteq> []"
proof -
  have p: "list_all (\<lambda>c. query_char c \<or> c \<in> set ''&='') (pair_text kv)" for kv
    using query_escaped by (auto simp: pair_text_def list_all_iff)
  obtain x xs where srt: "sort_key fst kvs = x # xs" using assms by (metis length_0_conv length_sort list.exhaust)
  have "list_all (\<lambda>c. query_char c \<or> c \<in> set ''&='') (concat (map (\<lambda>kv. ''&'' @ pair_text kv) xs))"
    using p by (induction xs) (auto simp: list_all_iff)
  then show "list_all (\<lambda>c. query_char c \<or> c \<in> set ''&='') (encode_query (map single kvs))"
    using p [of x] unfolding encode_pairs srt by simp
  show "encode_query (map single kvs) \<noteq> []" unfolding encode_pairs srt by (simp add: pair_text_def)
qed

section \<open>Reading the address back\<close>

definition path_char :: "char \<Rightarrow> bool" where
  "path_char c = (is_alnum c \<or> c \<in> set ''-{}/'')"

lemma path_char_not: "path_char c \<Longrightarrow> c \<noteq> CHR ''%'' \<and> c \<noteq> CHR ''?'' \<and> c \<noteq> CHR ''#'' \<and> c \<noteq> CHR ''.'' \<and> \<not> is_ctl c"
  by (auto simp: path_char_def is_alnum_def is_ctl_def byte_def Let_def)

lemma uuid_path_char: "uuid_char c \<Longrightarrow> path_char c \<and> c \<noteq> CHR ''/''"
  by (auto simp: uuid_char_def path_char_def is_hex_def is_alnum_def byte_def Let_def)

lemma cut_none: "c \<notin> set a \<Longrightarrow> cut c a = (a, [])"
  by (induction a) (auto simp: cut_def)

lemma get_scheme_slash: "get_scheme (CHR ''/'' # s) = Some ([], CHR ''/'' # s)"
  by (simp add: get_scheme_def is_alnum_def byte_def Let_def)

lemma last_char: "list_all P t \<Longrightarrow> \<not> P c \<Longrightarrow> t \<noteq> [] \<Longrightarrow> last t \<noteq> c"
  by (metis last_in_set list_all_iff)

lemma parse_rest_local:
  assumes "list_all path_char rest"
  shows "parse_rest ip (''/v1/'' @ rest) (no_url\<lparr>u_raw_query := q\<rparr>)
    = set_path (''/v1/'' @ rest) (no_url\<lparr>u_raw_query := q\<rparr>)"
  by (simp add: parse_rest_def has_prefix_def no_url_def)

text \<open>A path and a query as the tools make them are read back as they are.\<close>

lemma local_url:
  assumes rest: "list_all path_char rest"
  defines "p \<equiv> ''/v1/'' @ rest"
  shows "\<exists>u. url_parse ip (with_query p (map single kvs)) = Some u \<and> u_path u = p
    \<and> escaped_path u \<in> {p, url_escape EPath p}
    \<and> u_raw_query u = (if kvs = [] then [] else encode_query (map single kvs))"
proof -
  let ?q = "if kvs = [] then [] else encode_query (map single kvs)"
  let ?t = "with_query p (map single kvs)"
  let ?P = "\<lambda>c. path_char c \<or> query_char c \<or> c \<in> set ''&=?''"
  have p: "list_all path_char p" using rest by (simp add: p_def path_char_def is_alnum_def byte_def)
  have pc: "CHR ''?'' \<notin> set p" "CHR ''%'' \<notin> set p" using p path_char_not by (fastforce simp: list_all_iff)+
  have qc: "list_all (\<lambda>c. query_char c \<or> c \<in> set ''&='') ?q" using query_text_ok(1) by simp
  have t: "?t = p @ (if kvs = [] then [] else CHR ''?'' # ?q)" by (simp add: with_query_def)
  have all: "list_all ?P ?t" using p qc by (auto simp: t list_all_iff)
  have ctl: "\<not> list_ex is_ctl ?t" "CHR ''#'' \<notin> set ?t"
    using all path_char_not query_char_not
    by (fastforce simp: list_all_iff list_ex_iff is_ctl_def byte_def)+
  have last: "last ?t \<noteq> CHR ''?''"
  proof (cases "kvs = []")
    case True
    then have "?t = p" by (simp add: with_query_def)
    moreover have "p \<noteq> []" by (simp add: p_def)
    ultimately have "?t = p" "p \<noteq> []" .
    then show ?thesis using pc(1) last_in_set [of p] by metis
  next
    case False
    then have "?q \<noteq> []" using query_text_ok(2) by simp
    moreover have "last ?q \<noteq> CHR ''?''"
      using last_char [OF qc _ \<open>?q \<noteq> []\<close>, of "CHR ''?''"] by (auto simp: query_char_def is_alnum_def byte_def)
    ultimately show ?thesis using False by (simp add: t)
  qed
  have split: "cut (CHR ''?'') ?t = (p, ?q)"
    using cut_none [OF pc(1)] cut_at [OF pc(1)] by (simp add: t)
  obtain t' where head: "?t = CHR ''/'' # t'" unfolding t by (simp add: p_def)
  have "parse_url ip ?t = set_path p (no_url\<lparr>u_raw_query := ?q\<rparr>)"
  proof -
    have "get_scheme ?t = Some ([], ?t)" unfolding head by (rule get_scheme_slash)
    moreover have "?t \<noteq> ''*''" unfolding head by simp
    moreover have "no_url\<lparr>u_scheme := to_lower [], u_raw_query := ?q\<rparr> = no_url\<lparr>u_raw_query := ?q\<rparr>"
      by (simp add: no_url_def to_lower_def)
    ultimately show ?thesis
      using ctl(1) last split parse_rest_local [OF rest, of ip ?q] unfolding parse_url_def p_def [symmetric] by (simp add: Let_def)
  qed
  then have "url_parse ip ?t = set_path p (no_url\<lparr>u_raw_query := ?q\<rparr>)"
    using cut_none [OF ctl(2)] by (simp add: url_parse_def split: option.split)
  moreover have "set_path p (no_url\<lparr>u_raw_query := ?q\<rparr>) =
      Some (no_url\<lparr>u_raw_query := ?q, u_path := p, u_raw_path := (if p = url_escape EPath p then [] else p)\<rparr>)"
    using unescape_plain [OF pc(2)] by (simp add: set_path_def)
  moreover have "p \<noteq> ''*''" by (simp add: p_def)
  ultimately show ?thesis by (simp add: escaped_path_def)
qed

lemma chat_routed:
  assumes "escaped_path (rq_url r) = ''/v1/chats/'' @ y @ ''/messages''" "rq_method r = ''GET''"
    and y: "CHR ''/'' \<notin> set y" "CHR ''.'' \<notin> set y" "y \<noteq> []" "unescape EPath y = Some x" "x \<noteq> []" "x \<noteq> ''/''"
  shows "api_mux r = Inr (RMessages, x)"
proof -
  let ?p = "''/v1/chats/'' @ y @ ''/messages''"
  have y': "split_on (CHR ''/'') (y @ CHR ''/'' # ''messages'') = [y, ''messages'']"
    using split_on_sep [OF y(1)] by simp
  have segs: "split_on (CHR ''/'') (tl ?p) = [''v1'', ''chats'', y, ''messages'']"
    using y' by simp
  have ny: "y \<noteq> ''.''" "y \<noteq> ''..''" using y(2) by auto
  have clean: "cleanPath ?p = ?p"
    using segs y(3) ny by (simp add: cleanPath_def clean_segments_def join_path_def Let_def)
  have un: "seg_unescape ''v1'' = ''v1''" "seg_unescape ''chats'' = ''chats''" "seg_unescape ''messages'' = ''messages''"
    by (simp_all add: seg_unescape_def)
  then have "path_segments ?p = [''v1'', ''chats'', x, ''messages'']"
    using segs y(4) by (simp add: path_segments_def seg_unescape_def)
  then show ?thesis
    using clean y(5,6) by (simp add: api_mux_def assms(1,2) api_patterns_def chat_patterns_def method_matches_def)
qed

lemma search_routed:
  assumes "escaped_path (rq_url r) = ''/v1/messages/search''" "rq_method r = ''GET''"
  shows "api_mux r = Inr (RSearch, [])"
proof -
  have "cleanPath ''/v1/messages/search'' = ''/v1/messages/search''" by code_simp
  moreover have "path_segments ''/v1/messages/search'' = [''v1'', ''messages'', ''search'']" by code_simp
  ultimately show ?thesis
    by (simp add: api_mux_def assms api_patterns_def plain_patterns_def method_matches_def)
qed

section \<open>The message tools\<close>

lemma message_values:
  assumes "d \<in> set definitions" "tl_name d \<in> {''get_messages'', ''search_messages''}"
  obtains kvs where "tool_values d i None = map single kvs" "distinct (map fst kvs)"
    "tl_name d = ''search_messages'' \<longrightarrow> kvs \<noteq> [] \<and> map_of kvs ''chat_id'' = Some (ti_chat i)"
proof -
  let ?lim = "if 0 < ti_limit i then [(''limit'', itoa (ti_limit i))] else []"
  let ?cur = "if ti_cursor i = [] then [] else [(''cursor'', ti_cursor i)]"
  show thesis
  proof (cases "tl_name d = ''search_messages''")
    case True
    then have "tl_query d" "\<not> tl_cursor d" using assms(1) by (auto simp: definitions_def tool_of_def)
    then have "tool_values d i None = map single ([(''chat_id'', ti_chat i), (''q'', ti_query i)] @ ?lim)"
      using True by (simp add: tool_values_def q_set_def single_def)
    then show thesis by (rule that) auto
  next
    case False
    then have "\<not> tl_query d" "tl_cursor d" using assms by (auto simp: definitions_def tool_of_def)
    then have "tool_values d i None = map single (?lim @ ?cur)"
      using False by (simp add: tool_values_def q_set_def single_def)
    then show thesis by (rule that) (use False in auto)
  qed
qed

lemma sorted_lookup:
  assumes "distinct (map fst kvs)" "map_of kvs k = Some v"
  shows "q_get k (map single (sort_key fst kvs)) = v"
proof -
  have "distinct (map fst (sort_key fst kvs))" using assms(1) by (metis distinct_map distinct_sort set_sort)
  moreover have "(k, v) \<in> set (sort_key fst kvs)" using map_of_SomeD [OF assms(2)] by simp
  ultimately have "map_of (sort_key fst kvs) k = Some v" by simp
  moreover have "map_of (map single xs) k = map_option (\<lambda>v. [v]) (map_of xs k)" for xs
    by (induction xs) (auto simp: single_def)
  ultimately show ?thesis by (simp add: q_get_def)
qed

text \<open>The request a message tool makes: routed to its handler, with the chat given.\<close>

definition tool_route :: "tool \<Rightarrow> api_route" where
  "tool_route d = (if tl_name d = ''get_messages'' then RMessages else RSearch)"

lemma replaced_chat: "replace_all ''{chat}'' x ''/v1/chats/{chat}/messages'' = ''/v1/chats/'' @ x @ ''/messages''"
  "replace_all ''{chat}'' x ''/v1/messages/search'' = ''/v1/messages/search''"
  by (simp_all add: has_prefix_def)

lemma message_tool_path:
  assumes "d \<in> set definitions" "tl_name d \<in> {''get_messages'', ''search_messages''}" "buildPath parse d i = Inr path"
  shows "path = with_query (if tl_name d = ''get_messages'' then ''/v1/chats/'' @ ti_chat i @ ''/messages'' else ''/v1/messages/search'')
    (tool_values d i None)"
proof -
  have d: "tl_path d = (if tl_name d = ''get_messages'' then ''/v1/chats/{chat}/messages'' else ''/v1/messages/search'')"
    "tl_chat d" "\<not> tl_media d" "tl_name d \<noteq> ''inspect_media''"
    using assms(1,2) by (auto simp: definitions_def tool_of_def)
  then show ?thesis
    using assms(3) replaced_chat by (auto simp: buildPath_def tool_path_def named_id_def split: if_splits)
qed

lemma escape_mid: "url_escape EPath (''/v1/chats/'' @ x @ ''/messages'') = ''/v1/chats/'' @ url_escape EPath x @ ''/messages''"
proof -
  have "url_escape EPath ''/v1/chats/'' = ''/v1/chats/''" "url_escape EPath ''/messages'' = ''/messages''" by code_simp+
  then show ?thesis unfolding escape_append by simp
qed

lemma message_tool_routed:
  assumes d: "d \<in> set definitions" "tl_name d \<in> {''get_messages'', ''search_messages''}"
    and path: "buildPath parse d i = Inr path"
    and chat: "list_all uuid_char (ti_chat i)" "ti_chat i \<noteq> []"
  obtains u x where "url_parse ip path = Some u"
    "api_mux (local_request ''GET'' auth remote agent [] u) = Inr (tool_route d, x)"
    "(if tool_route d = RMessages then trim_space x else query_get (local_request ''GET'' auth remote agent [] u) ''chat_id'') = ti_chat i"
proof -
  let ?r = "local_request ''GET'' auth remote agent []" and ?x = "ti_chat i"
  obtain kvs where kvs: "tool_values d i None = map single kvs" "distinct (map fst kvs)"
    "tl_name d = ''search_messages'' \<longrightarrow> kvs \<noteq> [] \<and> map_of kvs ''chat_id'' = Some ?x"
    by (rule message_values [OF d, of i])
  note p = message_tool_path [OF d path, unfolded kvs(1)]
  have pc: "list_all path_char ?x" "CHR ''/'' \<notin> set ?x" using chat(1) uuid_path_char by (auto simp: list_all_iff)
  have r: "rq_url (?r u) = u" "rq_method (?r u) = ''GET''" for u by (simp_all add: local_request_def)
  show thesis
  proof (cases "tl_name d = ''get_messages''")
    case True
    have rest: "list_all path_char (''chats/'' @ ?x @ ''/messages'')"
      using pc(1) by (simp add: path_char_def is_alnum_def byte_def)
    have full: "''/v1/'' @ (''chats/'' @ ?x @ ''/messages'') = ''/v1/chats/'' @ ?x @ ''/messages''" by simp
    obtain u where u: "url_parse ip path = Some u"
      "escaped_path u \<in> {''/v1/chats/'' @ ?x @ ''/messages'', url_escape EPath (''/v1/chats/'' @ ?x @ ''/messages'')}"
      using local_url [OF rest, of ip kvs] p True unfolding full by auto
    then obtain y where y: "escaped_path u = ''/v1/chats/'' @ y @ ''/messages''" "y \<in> {?x, url_escape EPath ?x}"
      unfolding escape_mid by blast
    have dots: "CHR ''.'' \<notin> set ?x" "CHR ''%'' \<notin> set ?x" using pc(1) path_char_not by (fastforce simp: list_all_iff)+
    have "CHR ''/'' \<notin> set y \<and> CHR ''.'' \<notin> set y"
      using y(2) pc(2) dots(1) path_escaped [of "CHR ''/''" ?x] path_escaped [of "CHR ''.''" ?x] by (auto simp: is_alnum_def byte_def)
    moreover have "unescape EPath y = Some ?x" using y(2) unescape_plain [OF dots(2)] unescape_escape_path by auto
    moreover from this have "y \<noteq> []" using chat(2) by auto
    moreover have "?x \<noteq> ''/''" using pc(2) by auto
    ultimately have "api_mux (?r u) = Inr (RMessages, ?x)"
      using chat_routed [of "?r u" y ?x] y(1) chat(2) by (auto simp: r)
    moreover have "trim_space ?x = ?x"
    proof (rule trim_graph)
      have "graph c" if "uuid_char c" for c
        using that by (auto simp: uuid_char_def is_hex_def graph_def Let_def) (simp_all add: byte_def)
      then show "list_all graph ?x" using chat(1) by (auto simp: list_all_iff)
    qed
    ultimately show thesis using that u(1) True by (simp add: tool_route_def)
  next
    case False
    then have name: "tl_name d = ''search_messages''" using d(2) by simp
    have rest: "list_all path_char ''messages/search''" by (simp add: path_char_def is_alnum_def byte_def)
    have full: "''/v1/'' @ ''messages/search'' = ''/v1/messages/search''" by simp
    have esc: "url_escape EPath ''/v1/messages/search'' = ''/v1/messages/search''" by code_simp
    obtain u where u: "url_parse ip path = Some u" "escaped_path u = ''/v1/messages/search''"
      "u_raw_query u = encode_query (map single kvs)"
      using local_url [OF rest, of ip kvs] p False kvs(3) name unfolding full esc by auto
    have "query_get (?r u) ''chat_id'' = ?x"
      using sorted_lookup [OF kvs(2)] query_round [OF kvs(2)] kvs(3) name by (simp add: query_get_def r u(3))
    then show thesis
      using that u(1) search_routed [of "?r u"] u(2) name by (simp add: r tool_route_def)
  qed
qed

text \<open>C8: The MCP message tools show granted messages only.  When \<open>get_messages\<close> or \<open>search_messages\<close>, called
  with a chat id in PostgreSQL's spelling, answers with data, then the authorization of the MCP
  request carried a good bearer token with the tool's scope, the chat asked for is one its user lets
  be read, and every message in the answer is a live message of that chat and of the token's account.
\<close>

theorem mcp_messages_in_grant:
  assumes "d \<in> set definitions" "tl_name d \<in> {''get_messages'', ''search_messages''}"
    and "list_all uuid_char (ti_chat i)" "ti_chat i \<noteq> []"
    and "call_tool parse b64 second (LocalRead ip (protectedAPI ap) auth remote agent) d i s = (TextResult txt v, s')"
    and "\<And>t. e_uuid (ap_env ap t) = rd" "pg_uuid (ap_env ap (clock s))"
    and "ids_ok (\<lambda>i. rd i = Some i) (wk_db s)" "demand_reads (ap_env ap) rd (ap_sync ap)"
  shows "\<exists>tok p a c ms resp. bearerToken auth = Some tok \<and> AuthenticateBearer (ap_env ap (clock s)) tok (wk_db s) = Inr p
    \<and> HasScope (p_scopes p) (tl_scope d) \<and> rd (p_account p) = Some a \<and> rd (ti_chat i) = Some c \<and> may_chat a c False (wk_db s)
    \<and> txt = body_text resp \<and> json_lookup ''data'' (rs_body resp) = Some (JArr (map (\<lambda>m. message_json (msg_of_row m)) ms))
    \<and> set ms \<subseteq> set (active_messages (wk_db s')) \<and> list_all (\<lambda>m. m_account m = a \<and> m_chat m = c) ms"
proof -
  let ?r = "local_request ''GET'' auth remote agent []"
  obtain path where path: "buildPath parse d i = Inr path"
    using assms(5) by (auto simp: call_tool_def split: sum.splits)
  obtain u x where u: "url_parse ip path = Some u" "api_mux (?r u) = Inr (tool_route d, x)"
    "(if tool_route d = RMessages then trim_space x else query_get (?r u) ''chat_id'') = ti_chat i"
    by (rule message_tool_routed [OF assms(1,2) path assms(3,4)])
  obtain resp where run: "protectedAPI ap (?r u) s = (resp, s')"
    and rep: "read_reply b64 second d (Got (rs_status resp) (body_text resp)) = TextResult txt v"
    using assms(5) u(1) by (auto simp: call_tool_def path LocalRead_def served_by_def split: prod.splits)
  have name: "tl_name d \<noteq> ''inspect_media''" using assms(2) by auto
  have ok: "rs_status resp \<in> ok_statuses" "txt = body_text resp"
    using rep name by (auto simp: read_reply_def ok_statuses_def split: if_splits option.splits)
  have scope: "tl_scope d = (if tool_route d = RMessages then ''messages:read'' else ''messages:search'')"
    using assms(1,2) by (auto simp: definitions_def tool_of_def tool_route_def)
  have route: "tool_route d \<in> {RMessages, RSearch}" by (simp add: tool_route_def)
  have header: "rq_header (?r u) ''Authorization'' = auth" by (simp add: local_request_def)
  from page_in_grant [OF run ok(1) u(2) route assms(6-9)]
  show ?thesis unfolding u(3) header scope [symmetric] using ok(2) by blast
qed

end
