(* ===== verification/McpDemo.thy ===== *)
theory McpDemo
  imports McpTheorems ReadDemo JsonRound
begin

text \<open>\<open>get_messages\<close> called on a chat, with the token of the example before.\<close>

definition demo_tool :: tool where
  "demo_tool = tool_of ''get_messages'' ''/v1/chats/{chat}/messages'' ''messages:read'' False True False True"

definition demo_tool_input :: tool_input where
  "demo_tool_input = \<lparr>ti_query = [], ti_chat = ''b1'', ti_media = [], ti_cursor = [], ti_second = Finite 0, ti_limit = 0\<rparr>"

definition demo_auth :: string where
  "demo_auth = ''Bearer '' @ demo_bearer"

definition demo_tool_request :: request where
  "demo_tool_request = local_request ''GET'' demo_auth ''r'' [] [] (no_url\<lparr>u_path := ''/v1/chats/b1/messages''\<rparr>)"

lemma demo_tool_path: "buildPath (e_parse demo_send_env) demo_tool demo_tool_input = Inr ''/v1/chats/b1/messages''"
  by code_simp

lemma demo_tool_url: "url_parse (\<lambda>_. None) ''/v1/chats/b1/messages'' = Some (no_url\<lparr>u_path := ''/v1/chats/b1/messages''\<rparr>)"
  by code_simp

definition demo_tool_admission :: "(response + principal) \<times> world" where
  "demo_tool_admission = admit_bearer demo_send_env [] demo_tool_request (wk_world demo_read_worker)"

lemma demo_tool_admitted: "fst demo_tool_admission = Inr demo_reader"
  by code_simp

lemma demo_tool_access: "chatAccess demo_send_env demo_reader demo_tool_request demo_read_db = None"
  by code_simp

lemma demo_tool_routed: "api_mux demo_tool_request = Inr (RMessages, ''b1'')"
  by code_simp

lemma demo_tool_time: "wd_time (snd demo_tool_admission) = 100"
  by code_simp

definition demo_tool_page :: "redis \<Rightarrow> response \<times> worker" where
  "demo_tool_page R = answer_web (listMessages (\<lambda>t. demo_send_env) None demo_reader
     (demo_tool_request\<lparr>rq_wild := route_values RMessages ''b1''\<rparr>))
       (demo_read_worker\<lparr>wk_world := \<lparr>wd_db = demo_read_db, wd_redis = R, wd_time = 100\<rparr>\<rparr>)"

text \<open>The body as JSON text reads it back: members in the order of their names.\<close>

fun ordered :: "json \<Rightarrow> json" where
  "ordered (JArr vs) = JArr (map ordered vs)"
| "ordered (JObj kvs) = JObj (sort_key fst (map (\<lambda>(k, v). (k, ordered v)) kvs))"
| "ordered v = v"

lemma sort_map:
  assumes "\<And>x. fst (g x) = fst x"
  shows "sort_key fst (map g xs) = map g (sort_key fst xs)"
proof -
  have "insort_key fst (g x) (map g ys) = map g (insort_key fst x ys)" for x ys
    by (induction ys) (simp_all add: assms)
  then show ?thesis by (induction xs) simp_all
qed

lemma marshal_ordered: "json_marshal (ordered v) = json_marshal v"
proof (induction v)
  case (JArr vs)
  then have "map json_marshal (map ordered vs) = map json_marshal vs" by simp
  then show ?case by (simp only: ordered.simps json_marshal.simps)
next
  case (JObj kvs)
  let ?o = "\<lambda>(k, v). (k, ordered v)" and ?m = "\<lambda>(k, v). (k, json_marshal v)"
  have o: "fst (?o x) = fst x" and m: "fst (?m x) = fst x" for x :: "string \<times> json" by (simp_all add: case_prod_beta)
  have "sort_key fst (map ?m (sort_key fst (map ?o kvs))) = map ?m (sort_key fst (map ?o kvs))"
    unfolding sort_map [of ?m, OF m] by (simp add: sort_key_id_if_sorted)
  also have "\<dots> = map ?m (map ?o (sort_key fst kvs))" unfolding sort_map [of ?o, OF o] ..
  also have "\<dots> = map ?m (sort_key fst kvs)" using JObj by (force simp: case_prod_beta)
  also have "\<dots> = sort_key fst (map ?m kvs)" unfolding sort_map [of ?m, OF m] ..
  finally show ?case by (simp only: ordered.simps json_marshal.simps)
qed simp_all

lemma unmarshal_body:
  assumes "plain_json (ordered (rs_body r))"
  shows "unmarshal (body_text r) = Some (ordered (rs_body r))"
proof -
  let ?v = "ordered (rs_body r)"
  have t: "body_text r = json_marshal ?v @ [CHR 0x0A]" by (simp add: body_text_def marshal_ordered)
  have "num_end [CHR 0x0A]" "skip_ws [CHR 0x0A] = []" by code_simp+
  moreover have "length (json_marshal ?v) < json_fuel (body_text r)" by (simp add: json_fuel_def t)
  ultimately show ?thesis
    using reads_plain [OF assms, unfolded reads_back_def, rule_format, of "json_fuel (body_text r)" "[CHR 0x0A]"]
    by (simp add: unmarshal_def t)
qed

lemma demo_tool_listed:
  "(case demo_tool_page R of (r, s) \<Rightarrow> (rs_status r, json_lookup ''count'' (rs_body r), plain_json (ordered (rs_body r))))
     = (200, Some (JNum ''1''), True)"
  by code_simp

definition demo_tool_call :: "tool_reply \<times> worker" where
  "demo_tool_call = call_tool (e_parse demo_send_env) Some (\<lambda>v. Some [])
     (LocalRead (\<lambda>_. None) (protectedAPI demo_api) demo_auth ''r'' []) demo_tool demo_tool_input demo_read_worker"

lemma demo_tool_run:
  obtains R where "protectedAPI demo_api demo_tool_request demo_read_worker = demo_tool_page R"
proof -
  obtain w where w: "demo_tool_admission = (Inr demo_reader, w)" using demo_tool_admitted by (metis prod.collapse)
  have "wd_db w = demo_read_db"
    by (rule admit_pass [OF w [unfolded demo_tool_admission_def]]) (simp add: demo_read_worker_def)
  then have "w = \<lparr>wd_db = demo_read_db, wd_redis = wd_redis w, wd_time = 100\<rparr>"
    using demo_tool_time [unfolded w] by (cases w) simp
  then have "protectedAPI demo_api demo_tool_request demo_read_worker = demo_tool_page (wd_redis w)"
    using demo_tool_access demo_tool_routed w \<open>wd_db w = demo_read_db\<close>
    by (simp add: demo_tool_page_def protectedAPI_def demo_api_def demo_tool_admission_def)
  then show thesis by (rule that)
qed

lemma demo_tool_answers:
  obtains resp s' v where "demo_tool_call = (TextResult (body_text resp) v, s')"
    "protectedAPI demo_api demo_tool_request demo_read_worker = (resp, s')" "json_lookup ''count'' (rs_body resp) = Some (JNum ''1'')"
proof -
  obtain R where R: "protectedAPI demo_api demo_tool_request demo_read_worker = demo_tool_page R" by (rule demo_tool_run)
  obtain resp s' where p: "demo_tool_page R = (resp, s')" by fastforce
  have ok: "rs_status resp = 200" "json_lookup ''count'' (rs_body resp) = Some (JNum ''1'')" "plain_json (ordered (rs_body resp))"
    using demo_tool_listed [of R] by (simp_all add: p)
  have "tl_name demo_tool \<noteq> ''inspect_media''" by (simp add: demo_tool_def tool_of_def)
  then have "demo_tool_call = (TextResult (body_text resp) (Some (ordered (rs_body resp))), s')"
    using ok(1) unmarshal_body [OF ok(3)]
    by (simp add: demo_tool_call_def call_tool_def demo_tool_path LocalRead_def demo_tool_url served_by_def
        demo_tool_request_def [symmetric] R p read_reply_def)
  then show thesis using that R p ok(2) by simp
qed

theorem mcp_messages_in_grant_witness:
  "\<exists>txt v s' c. demo_tool_call = (TextResult txt v, s') \<and> e_uuid demo_send_env ''b1'' = Some c \<and> may_chat ''a1'' c False demo_read_db"
proof -
  obtain resp s' v where run: "demo_tool_call = (TextResult (body_text resp) v, s')" by (rule demo_tool_answers)
  have env: "ap_env demo_api t = demo_send_env" "ap_sync demo_api = None" for t by (simp_all add: demo_api_def)
  have ids: "ids_ok (\<lambda>i. e_uuid demo_send_env i = Some i) (wk_db demo_read_worker)"
  proof -
    have "e_uuid demo_send_env ''e1'' = Some ''e1''" by code_simp
    then show ?thesis by (simp add: ids_ok_def demo_read_worker_def demo_read_db_def demo_message_def)
  qed
  have db: "wk_db demo_read_worker = demo_read_db" by (simp add: demo_read_worker_def)
  have tool: "demo_tool \<in> set definitions" "tl_name demo_tool \<in> {''get_messages'', ''search_messages''}" "ti_chat demo_tool_input = ''b1''"
    by (simp_all add: definitions_def demo_tool_def tool_of_def demo_tool_input_def)
  have chat: "list_all uuid_char (ti_chat demo_tool_input)" "ti_chat demo_tool_input \<noteq> []"
    unfolding tool(3) by code_simp+
  have bearer: "bearerToken demo_auth = Some demo_bearer" "AuthenticateBearer demo_send_env demo_bearer demo_read_db = Inr demo_reader"
    by code_simp+
  have "p_account demo_reader = ''a1''" by (simp add: demo_reader_def)
  with mcp_messages_in_grant [OF tool(1,2) chat run [unfolded demo_tool_call_def], of "e_uuid demo_send_env"]
  obtain c where "e_uuid demo_send_env ''b1'' = Some c" "may_chat ''a1'' c False demo_read_db"
    using demo_send_ids(1,7) ids bearer by (auto simp: env demand_reads_def db tool(3))
  then show ?thesis using run by blast
qed

section \<open>A chat id that is no path segment\<close>

text \<open>\<open>uuid.Parse\<close> looks at the middle 36 of 38 bytes only; the rest of its forms do not matter here.\<close>

definition middle_only :: "string \<Rightarrow> uuid option" where
  "middle_only s = (if length s = 38 then Some (take 36 (drop 1 s)) else None)"

definition demo_bad_input :: tool_input where
  "demo_bad_input = demo_tool_input\<lparr>ti_chat := ''{123e4567-e89b-12d3-a456-426614174000%''\<rparr>"

text \<open>A chat id that ends in a percent sign crashes the tool: \<open>uuid.Parse\<close> accepts it, the address built
  from it is no URL, and \<open>LocalRead\<close> sets the headers of the request it did not get, whoever asks.
\<close>

theorem mcp_bad_id_crashes:
  "call_tool middle_only b64 second (LocalRead ip handler auth remote agent) demo_tool demo_bad_input s = (Crashed, s)"
proof -
  have "buildPath middle_only demo_tool demo_bad_input = Inr ''/v1/chats/{123e4567-e89b-12d3-a456-426614174000%/messages''"
    by code_simp
  moreover have "url_parse ip ''/v1/chats/{123e4567-e89b-12d3-a456-426614174000%/messages'' = None"
    by code_simp
  ultimately show ?thesis by (simp add: call_tool_def LocalRead_def read_reply_def)
qed

end
