(* ===== verification/Config.thy ===== *)
theory Config
  imports WebAuth
begin

text \<open>
  \<open>internal/config\<close>: the settings from the environment.  What is fixed here the rest relies on:
  the public address, from which cookies and links are made, and that no account is read in
  the background.
\<close>

section \<open>Settings\<close>

record app_config =
  ac_url :: string
  ac_admin :: string
  ac_environment :: string
  ac_addr :: string
  ac_shutdown :: duration

record postgres_config =
  pc_host :: string
  pc_port :: int
  pc_database :: string
  pc_user :: string
  pc_password :: string
  pc_sslmode :: string

record redis_config =
  rc_addr :: string
  rc_password :: string
  rc_db :: int

record minio_config =
  mc_endpoint :: string
  mc_access :: string
  mc_secret :: string
  mc_ssl :: bool
  mc_bucket :: string

record telegram_config =
  tc_auto :: bool
  tc_dir :: string
  tc_key :: string
  tc_api_id :: int
  tc_api_hash :: string

record config =
  cf_app :: app_config
  cf_postgres :: postgres_config
  cf_redis :: redis_config
  cf_nats :: string
  cf_minio :: minio_config
  cf_telegram :: telegram_config

section \<open>Reading a variable\<close>

type_synonym vars = "string \<Rightarrow> string option"

text \<open>\<open>os.Getenv\<close>, the value of a variable that is set and not blank, and \<open>env\<close>.\<close>

definition getenv :: "vars \<Rightarrow> string \<Rightarrow> string" where
  "getenv vs k = (case vs k of None \<Rightarrow> [] | Some v \<Rightarrow> v)"

definition lookup_env :: "vars \<Rightarrow> string \<Rightarrow> string option" where
  "lookup_env vs k =
     (case vs k of
        None \<Rightarrow> None
      | Some v \<Rightarrow> if trim_space v = [] then None else Some v)"

definition env_or :: "vars \<Rightarrow> string \<Rightarrow> string \<Rightarrow> string" where
  "env_or vs k fallback = (case lookup_env vs k of None \<Rightarrow> fallback | Some v \<Rightarrow> v)"

definition parsed_env :: "string \<Rightarrow> (string \<Rightarrow> 'a option) \<Rightarrow> vars \<Rightarrow> string \<Rightarrow> 'a \<Rightarrow> 'a result" where
  "parsed_env kind parse vs k fallback =
     (case lookup_env vs k of
        None \<Rightarrow> Inr fallback
      | Some v \<Rightarrow>
          (case parse v of
             None \<Rightarrow> Inl (Wrapped (k @ '' must be '' @ kind) (Msg v))
           | Some x \<Rightarrow> Inr x))"

definition parse_bool :: "string \<Rightarrow> bool option" where  \<comment> \<open>strconv.ParseBool\<close>
  "parse_bool s =
     (if s \<in> {''1'', ''t'', ''T'', ''true'', ''TRUE'', ''True''} then Some True
      else if s \<in> {''0'', ''f'', ''F'', ''false'', ''FALSE'', ''False''} then Some False
      else None)"

definition intEnv :: "vars \<Rightarrow> string \<Rightarrow> int \<Rightarrow> int result" where
  "intEnv = parsed_env ''an integer'' (parse_int 64)"

definition int64Env :: "vars \<Rightarrow> string \<Rightarrow> int \<Rightarrow> int result" where
  "int64Env = parsed_env ''an integer'' (parse_int 64)"

definition boolEnv :: "vars \<Rightarrow> string \<Rightarrow> bool \<Rightarrow> bool result" where
  "boolEnv = parsed_env ''a boolean'' parse_bool"

text \<open>\<open>dur\<close> is \<open>time.ParseDuration\<close>, whose fractions are floating-point numbers.\<close>

definition durationEnv :: "(string \<Rightarrow> duration option) \<Rightarrow> vars \<Rightarrow> string \<Rightarrow> duration \<Rightarrow> duration result" where
  "durationEnv dur = parsed_env ''a valid duration'' dur"

section \<open>Validation\<close>

definition local_name :: "string \<Rightarrow> bool" where
  "local_name h = (h \<in> {''127.0.0.1'', ''localhost'', ''::1''})"

definition origin_url :: "url \<Rightarrow> bool" where
  "origin_url u =
     (u_host u \<noteq> [] \<and> u_user u = None \<and> u_raw_query u = [] \<and> u_fragment u = [] \<and> u_path u \<in> {[], ''/''})"

definition public_url_error :: "(string \<Rightarrow> addr option) \<Rightarrow> string \<Rightarrow> string option" where
  "public_url_error ip s =
     (case url_parse ip s of
        None \<Rightarrow> Some ''PUBLIC_URL must be an absolute origin URL''
      | Some u \<Rightarrow>
          if \<not> origin_url u then Some ''PUBLIC_URL must be an absolute origin URL''
          else if u_scheme u \<noteq> ''https'' \<and> \<not> (u_scheme u = ''http'' \<and> local_name (hostname u))
            then Some ''PUBLIC_URL requires HTTPS outside localhost''
          else None)"

definition Validate :: "(string \<Rightarrow> addr option) \<Rightarrow> config \<Rightarrow> unit result" where
  "Validate ip c =
     (case public_url_error ip (ac_url (cf_app c)) of
        Some err \<Rightarrow> Inl (Msg err)
      | None \<Rightarrow>
          if trim_space (ac_addr (cf_app c)) = [] then Inl (Msg ''HTTP_ADDR cannot be empty'')
          else if pc_port (cf_postgres c) \<le> 0 \<or> 65535 < pc_port (cf_postgres c)
            then Inl (Msg ''POSTGRES_PORT must be between 1 and 65535'')
          else if rc_db (cf_redis c) < 0 then Inl (Msg ''REDIS_DB cannot be negative'')
          else if trim_space (cf_nats c) = [] then Inl (Msg ''NATS_URL cannot be empty'')
          else if trim_space (mc_endpoint (cf_minio c)) = [] then Inl (Msg ''MINIO_ENDPOINT cannot be empty'')
          else Inr ())"

definition trim_right :: "char \<Rightarrow> string \<Rightarrow> string" where  \<comment> \<open>strings.TrimRight of one byte\<close>
  "trim_right c s = rev (dropWhile (\<lambda>x. x = c) (rev s))"

definition config_of :: "vars \<Rightarrow> bool \<Rightarrow> duration \<Rightarrow> int \<Rightarrow> int \<Rightarrow> bool \<Rightarrow> int \<Rightarrow> config" where
  "config_of vs auto shutdown port db ssl api_id =
     \<lparr>cf_app =
        \<lparr>ac_url = trim_right (CHR ''/'') (env_or vs ''PUBLIC_URL'' ''http://127.0.0.1:8086''),
         ac_admin = getenv vs ''GATEWAY_ADMIN_TOKEN'', ac_environment = env_or vs ''APP_ENV'' ''development'',
         ac_addr = env_or vs ''HTTP_ADDR'' '':8080'', ac_shutdown = shutdown\<rparr>,
      cf_postgres =
        \<lparr>pc_host = env_or vs ''POSTGRES_HOST'' ''localhost'', pc_port = port,
         pc_database = env_or vs ''POSTGRES_DB'' ''telegram_gateway'', pc_user = env_or vs ''POSTGRES_USER'' ''telegram_gateway'',
         pc_password = getenv vs ''POSTGRES_PASSWORD'', pc_sslmode = env_or vs ''POSTGRES_SSLMODE'' ''disable''\<rparr>,
      cf_redis =
        \<lparr>rc_addr = env_or vs ''REDIS_ADDR'' ''localhost:6379'', rc_password = getenv vs ''REDIS_PASSWORD'', rc_db = db\<rparr>,
      cf_nats = env_or vs ''NATS_URL'' ''nats://localhost:4222'',
      cf_minio =
        \<lparr>mc_endpoint = env_or vs ''MINIO_ENDPOINT'' ''localhost:9000'', mc_access = getenv vs ''MINIO_ACCESS_KEY'',
         mc_secret = getenv vs ''MINIO_SECRET_KEY'', mc_ssl = ssl, mc_bucket = env_or vs ''MINIO_BUCKET'' ''telegram-media''\<rparr>,
      cf_telegram =
        \<lparr>tc_auto = auto, tc_dir = env_or vs ''TDLIB_DATA_DIR'' ''/data/tdlib'', tc_key = getenv vs ''TELEGRAM_SESSION_KEY'',
         tc_api_id = api_id, tc_api_hash = getenv vs ''TELEGRAM_API_HASH''\<rparr>\<rparr>"

definition Load :: "(string \<Rightarrow> addr option) \<Rightarrow> (string \<Rightarrow> duration option) \<Rightarrow> vars \<Rightarrow> config result" where
  "Load ip dur vs =
     (case boolEnv vs ''TELEGRAM_AUTO_SYNC'' False of
        Inl err \<Rightarrow> Inl err
      | Inr auto \<Rightarrow>
          if auto then Inl (Msg ''TELEGRAM_AUTO_SYNC must be false: chat access is on-demand only'')
          else (case durationEnv dur vs ''SHUTDOWN_TIMEOUT'' (10 * second_ns) of
              Inl err \<Rightarrow> Inl err
            | Inr shutdown \<Rightarrow>
          (case intEnv vs ''POSTGRES_PORT'' 5432 of
              Inl err \<Rightarrow> Inl err
            | Inr port \<Rightarrow>
          (case intEnv vs ''REDIS_DB'' 0 of
              Inl err \<Rightarrow> Inl err
            | Inr db \<Rightarrow>
          (case boolEnv vs ''MINIO_USE_SSL'' False of
              Inl err \<Rightarrow> Inl err
            | Inr ssl \<Rightarrow>
          (case int64Env vs ''TELEGRAM_API_ID'' 0 of
              Inl err \<Rightarrow> Inl err
            | Inr api_id \<Rightarrow>
                (let c = config_of vs auto shutdown port db ssl api_id in
                 case Validate ip c of Inl err \<Rightarrow> Inl err | Inr _ \<Rightarrow> Inr c)))))))"

section \<open>The public address\<close>












definition demo_vars :: "string \<Rightarrow> vars" where
  "demo_vars u = [''PUBLIC_URL'' \<mapsto> u]"

definition demo_load :: "string \<Rightarrow> config result" where
  "demo_load u = Load (\<lambda>_. None) (\<lambda>_. None) (demo_vars u)"

definition loaded_url :: "config result \<Rightarrow> string option" where
  "loaded_url r = (case r of Inl err \<Rightarrow> None | Inr c \<Rightarrow> Some (ac_url (cf_app c)))"



text \<open> An address whose scheme is in capitals is accepted, but its cookies are not marked Secure and lose
  the name's prefix: the settings compare the scheme as parsed, in lower case, the cookies the text.
\<close>

theorem capital_scheme_insecure:
  "\<exists>c. demo_load ''HTTPS://tg.example'' = Inr c \<and> \<not> ck_secure (set_cookie (ac_url (cf_app c)) ''session'' v age)
    \<and> ck_name (set_cookie (ac_url (cf_app c)) ''session'' v age) = ''tgw_session''"
proof -
  have "loaded_url (demo_load ''HTTPS://tg.example'') = Some ''HTTPS://tg.example''" by code_simp
  then obtain c where "demo_load ''HTTPS://tg.example'' = Inr c" "ac_url (cf_app c) = ''HTTPS://tg.example''"
    by (auto simp: loaded_url_def split: sum.splits)
  then show ?thesis by (simp add: set_cookie_def cookieName_def https_base_def has_prefix_def)
qed

end
