(* ===== verification/Front.thy ===== *)
theory Front
  imports Config Mcp
begin

text \<open>
  What every request passes first (\<open>internal/httpserver/server.go\<close>): the host it names, the headers of
  every answer, what is logged of its path; the origin check before the MCP server; and the
  health report (\<open>internal/health\<close>).
\<close>

section \<open>Every request\<close>

text \<open>
  \<open>securityHeaders\<close>; None is a panic, which the HTTP server ends with the connection: the public address
  is parsed again, and its error ignored.
\<close>

definition fixed_headers :: "string \<Rightarrow> (string \<times> string) list" where
  "fixed_headers ver =
     [(''X-Gateway-Version'', ver), (''X-Content-Type-Options'', ''nosniff''), (''X-Frame-Options'', ''DENY''),
      (''Referrer-Policy'', ''no-referrer''), (''Cache-Control'', ''no-store'')]"

definition with_headers :: "(string \<times> string) list \<Rightarrow> response \<Rightarrow> response" where
  "with_headers hs r = r\<lparr>rs_headers := filter (\<lambda>h. fst h \<notin> fst ` set (rs_headers r)) hs @ rs_headers r\<rparr>"

definition host_ok :: "(string \<Rightarrow> addr option) \<Rightarrow> url \<Rightarrow> string \<Rightarrow> bool" where
  "host_ok ip public host =
     (case url_parse ip (''http://'' @ host) of
        None \<Rightarrow> False
      | Some u \<Rightarrow> host = u_host public \<or> local_name (hostname u))"

definition securityHeaders ::
    "(string \<Rightarrow> addr option) \<Rightarrow> string \<Rightarrow> string \<Rightarrow> (request \<Rightarrow> 's \<Rightarrow> response \<times> 's) \<Rightarrow> request \<Rightarrow> 's \<Rightarrow> response option \<times> 's" where
  "securityHeaders ip base ver nxt r s =
     (case url_parse ip (''http://'' @ rq_host r) of
        None \<Rightarrow> (Some (reply 403 (JStr ''invalid host'')), s)
      | Some u \<Rightarrow>
          (case url_parse ip base of
             None \<Rightarrow> (None, s)
           | Some public \<Rightarrow>
               if host_ok ip public (rq_host r)
               then (case nxt r s of (resp, s') \<Rightarrow> (Some (with_headers (fixed_headers ver) resp), s'))
               else (Some (reply 403 (JStr ''invalid host'')), s)))"

definition logPath :: "string \<Rightarrow> string" where
  "logPath p = (if has_prefix p ''/media/'' then ''/media/[ticket]'' else p)"

text \<open>The handler of \<open>/mcp\<close>, behind \<open>authenticate\<close>: the tools it serves are those of the token's scopes.\<close>

definition mcp_origin :: "string \<Rightarrow> request \<Rightarrow> response option" where
  "mcp_origin base r =
     (if rq_header r ''Origin'' \<noteq> [] \<and> rq_header r ''Origin'' \<noteq> base then Some (reply_error 403 ''origin is not allowed'')
      else None)"

definition mcp_tools :: "env \<Rightarrow> string \<Rightarrow> request \<Rightarrow> world \<Rightarrow> (response + string list) \<times> world" where
  "mcp_tools e base r w =
     (case admit_bearer e base r w of
        (Inl resp, w') \<Rightarrow> (Inl resp, w')
      | (Inr p, w') \<Rightarrow>
          (case mcp_origin base r of
             Some resp \<Rightarrow> (Inl resp, w')
           | None \<Rightarrow> (Inr (offered (Some (p_scopes p)) True), w')))"

section \<open>Health\<close>

datatype dep_status = Up | Down

record dependency =
  dp_name :: string
  dp_status :: dep_status
  dp_latency :: int
  dp_error :: string

text \<open>A probe's or a connection's outcome: how long it took, and its error.\<close>

type_synonym probed = "string \<times> int \<times> string option"

definition probe_dep :: "probed \<Rightarrow> dependency" where
  "probe_dep x =
     (case x of (name, ms, err) \<Rightarrow>
        \<lparr>dp_name = name, dp_status = (if err = None then Up else Down), dp_latency = ms,
         dp_error = (if err = None then [] else ''dependency check failed'')\<rparr>)"

definition checkTCP :: "probed \<Rightarrow> dependency" where
  "checkTCP x =
     (case x of (name, ms, err) \<Rightarrow>
        \<lparr>dp_name = name, dp_status = (if err = None then Up else Down), dp_latency = ms,
         dp_error = (case err of None \<Rightarrow> [] | Some t \<Rightarrow> t)\<rparr>)"

definition Check :: "probed list \<Rightarrow> probed list \<Rightarrow> dep_status \<times> dependency list" where
  "Check probes targets =
     (let ds = map probe_dep probes @ map checkTCP targets in
      (if list_ex (\<lambda>d. dp_status d = Down) ds then Down else Up, sort_key dp_name ds))"

definition dep_text :: "dep_status \<Rightarrow> string" where
  "dep_text x = (case x of Up \<Rightarrow> ''up'' | Down \<Rightarrow> ''down'')"

definition dep_json :: "dependency \<Rightarrow> json" where
  "dep_json d = JObj ([(''name'', JStr (dp_name d)), (''status'', JStr (dep_text (dp_status d))), (''latency_ms'', jint (dp_latency d))]
     @ (if dp_error d = [] then [] else [(''error'', JStr (dp_error d))]))"

definition ready :: "probed list \<Rightarrow> probed list \<Rightarrow> response" where
  "ready probes targets =
     (case Check probes targets of (x, ds) \<Rightarrow>
        reply (if x = Down then 503 else 200)
          (JObj [(''status'', JStr (dep_text x)), (''dependencies'', JArr (map dep_json ds))]))"

definition natsAddress :: "string \<Rightarrow> string" where
  "natsAddress u = (if has_prefix u ''nats://'' then drop 7 u else u)"

definition join_host_port :: "string \<Rightarrow> string \<Rightarrow> string" where  \<comment> \<open>net.JoinHostPort\<close>
  "join_host_port h p = (if CHR '':'' \<in> set h \<or> CHR ''%'' \<in> set h then ''['' @ h @ '']:'' @ p else h @ '':'' @ p)"

text \<open>\<open>health.New\<close>: what is connected to.\<close>

definition health_targets :: "config \<Rightarrow> (string \<times> string) list" where
  "health_targets c =
     [(''postgres'', join_host_port (pc_host (cf_postgres c)) (itoa (pc_port (cf_postgres c)))),
      (''redis'', rc_addr (cf_redis c)), (''nats'', natsAddress (cf_nats c)), (''minio'', mc_endpoint (cf_minio c))]"

lemma ready_iff: "rs_status (ready probes targets) = 200 \<longleftrightarrow> (\<forall>x \<in> set probes \<union> set targets. snd (snd x) = None)"
proof -
  have d: "dp_status (probe_dep x) = Down \<longleftrightarrow> snd (snd x) \<noteq> None" "dp_status (checkTCP x) = Down \<longleftrightarrow> snd (snd x) \<noteq> None" for x
    by (simp_all add: probe_dep_def checkTCP_def case_prod_beta)
  have "fst (Check probes targets) = Up \<longleftrightarrow> (\<forall>x \<in> set probes \<union> set targets. snd (snd x) = None)"
    by (auto simp: Check_def Let_def list_ex_iff bex_Un ball_Un d)
  moreover have "fst (Check probes targets) = Down \<or> fst (Check probes targets) = Up"
    by (metis dep_status.exhaust)
  ultimately show ?thesis by (auto simp: ready_def reply_def case_prod_beta)
qed

lemma foreign_host_refused:
  assumes "url_parse ip base = Some public" "\<not> host_ok ip public (rq_host r)"
  shows "securityHeaders ip base ver nxt r s = (Some (reply 403 (JStr ''invalid host'')), s)"
  using assms by (simp add: securityHeaders_def split: option.split)

end
