(* ===== verification/Spec2Isabelle.thy ===== *)
theory Spec2Isabelle
  imports GrantTheorems SyncState Runtime Snapshots MediaTheorems UpdateTheorems Sending Crawls FloodTheorems
    OnDemandTheorems Admin PageDemo ManagerTheorems PreviewDemo McpDemo Front
begin

text \<open>
  A verification development for the Telegram gateway (Go, module
  \<open>github.com/JavoxirJava/telegram-gateway\<close>).

  \<^bold>\<open>The program.\<close>  The gateway signs a person in with Telegram, keeps a session of TDLib for the
  account, mirrors chats, messages, contacts, members and attachments in PostgreSQL, and lets
  clients read the chats the person allowed, over an HTTP API and as tools of an MCP server.  A
  client gets its token from an OAuth server, from the account page or from the operator.  A
  session manager runs one session per account under a lease and journals TDLib's updates; a worker
  applies the journal and runs the synchronisation jobs of a JetStream queue.  With reads on demand
  the API asks Telegram itself, in the request.  Redis holds the token buckets that limit all this,
  and an audit log, chained by hashes, records it.

  \<^bold>\<open>How state is modelled.\<close>  \<open>Schema.db\<close> is the database: one list of rows per table, in insertion
  order, with the checks, keys, cascades and views of \<open>migrations/\<close> as the statements meet them.
  A statement is a function from the tables to the tables or to an error; a transaction that fails
  leaves them unchanged.  \<open>Schema.env\<close> is what a call finds outside: the database's and the
  worker's clock, which external calls fail, the casts to \<open>uuid\<close>, \<open>inet\<close> and \<open>jsonb\<close>, SHA-256,
  address parsing.  \<open>world\<close> adds Redis and its time, \<open>worker\<close> the streams and the object store.
  A repository operation is a function of \<open>env\<close> and \<open>db\<close>, a handler of the request too, a job a
  \<open>Telegram.act\<close> and an API handler a \<open>Reads.web\<close>.  Go errors are the sum \<open>Inl\<close>, and the
  chain of wrapped errors is kept, so that \<open>errors.Is\<close> and \<open>errors.As\<close> decide as in Go.
  Where requests interleave, an inductive step relation has a step per committed change.

  \<^bold>\<open>Ground.\<close>  \<open>Prelude\<close>: byte strings, Go's \<open>strings\<close>, errors, the SQL operators.  \<open>Encoding\<close>,
  \<open>Text\<close>, \<open>Json\<close>, \<open>JsonText\<close>, \<open>JsonRound\<close>, \<open>Url\<close>: what is used of \<open>encoding\<close>, \<open>strconv\<close>,
  \<open>encoding/json\<close> and \<open>net/url\<close>, with round trips.  \<open>Schema\<close>: the tables.  \<open>Lease\<close>: the locale
  \<open>lease_table\<close>, a lease with generations; \<open>SyncState\<close> and \<open>Runtime\<close> interpret it.  \<open>Mirror\<close>: the
  locales \<open>mirror_table\<close> and \<open>mirror_ops\<close>, a soft-deleted table; chats, contacts, members, messages
  and attachments interpret them.

  \<^bold>\<open>Repositories\<close> (directories of \<open>src/internal\<close>).  \<open>Accounts\<close>: \<open>accounts\<close>.  \<open>Access\<close>:
  \<open>access\<close>.  \<open>RateLimit\<close>: \<open>ratelimit\<close>.  \<open>AuditLog\<close>: \<open>audit\<close>.  \<open>SyncState\<close>: \<open>syncstate\<close>.
  \<open>Runtime\<close>: \<open>runtime\<close>.  \<open>Chats\<close>, \<open>Contacts\<close>, \<open>Members\<close>, \<open>Messages\<close>, \<open>Media\<close>: the directories
  of these names.  \<open>MessageTheorems\<close>, \<open>Snapshots\<close> and \<open>MediaTheorems\<close> show that deletions are
  final, that the order of arrival does not matter, that pages read everything, that snapshots
  refine sets, and the life of an attachment.

  \<^bold>\<open>Sign-in and authorization.\<close>  \<open>Http\<close>: requests, responses and the helpers of
  \<open>httpserver/auth.go\<close> and \<open>api.go\<close>.  \<open>Gateway\<close>: \<open>Initialize\<close>, \<open>CheckOwner\<close> and \<open>AttachLogin\<close>
  of \<open>gateway\<close>.  \<open>WebAuth\<close>: \<open>webauth\<close>.  \<open>OAuth\<close>: \<open>oauth\<close> and \<open>gateway/maintenance.go\<close>.
  \<open>Grants\<close>, \<open>GrantSteps\<close>, \<open>Secrets\<close> and \<open>GrantTheorems\<close> show what holds in every reachable state
  of the authorization server: codes are used once, consent binds, replay and revocation end a
  grant.

  \<^bold>\<open>Worker.\<close>  \<open>Telegram\<close>: \<open>telegram\<close> and the errors of a job.  \<open>Jobs\<close>: \<open>syncjob\<close> and what a slot of
  \<open>worker/runner.go\<close> answers.  \<open>Updates\<close>: \<open>worker/updates.go\<close>.  \<open>Decode\<close> and \<open>TdSession\<close>: \<open>tdlib\<close>.
  \<open>Sync\<close>: the other jobs of \<open>worker\<close>.  \<open>Manager\<close>: a round of \<open>Run\<close> and the life of \<open>runAccount\<close> in
  \<open>gateway/manager.go\<close>.  \<open>UpdateTheorems\<close>, \<open>TdTheorems\<close>, \<open>FloodTheorems\<close>, \<open>JobTheorems\<close>, \<open>Crawls\<close> and
  \<open>ManagerTheorems\<close> show that deletions outlive arrivals, that the journal drains, that flood waits
  are kept, that leases are given up, that crawls end, that nothing is journalled before the
  session's identity is known.

  \<^bold>\<open>Reads on demand.\<close>  \<open>OnDemand\<close>: \<open>worker/ondemand.go\<close>.  The locale \<open>read_steps\<close> of \<open>ReadFrame\<close>
  lists the steps a read is made of: a relation they all respect holds across the read.
  \<open>OnDemandTheorems\<close> (time and streams), \<open>ReadTheorems\<close> (what rows are stored) and
  \<open>TicketTheorems\<close> (access control) interpret it.

  \<^bold>\<open>API, pages and tools.\<close>  \<open>Routing\<close>: the routes of \<open>httpserver/server.go\<close> and the permission check
  of \<open>chat_permissions.go\<close>.  \<open>Sending\<close>: \<open>send.go\<close>.  \<open>Reads\<close>: \<open>api.go\<close>, \<open>people.go\<close>,
  \<open>profile_media.go\<close>, \<open>ondemand.go\<close>.  \<open>Collections\<close>: \<open>paging.go\<close>, \<open>demand_chats.go\<close>,
  \<open>media_download.go\<close>, and \<open>protectedAPI\<close>, the whole API.  \<open>AccountPages\<close>: \<open>account.go\<close> and
  the browser's part of \<open>chat_permissions.go\<close>.  \<open>Admin\<close>: \<open>admin.go\<close>.  \<open>Preview\<close>: \<open>media_inspect.go\<close>.
  \<open>Mcp\<close>: \<open>mcpserver\<close>.  \<open>Config\<close>: \<open>config\<close>.  \<open>Front\<close>: \<open>securityHeaders\<close>, \<open>logPath\<close>, the origin
  check of \<open>/mcp\<close> and \<open>health\<close>.  \<open>WebFacts\<close> reads a successful answer backwards: every check
  before it passed.  \<open>ReadTheorems\<close>, \<open>PageTheorems\<close>, \<open>TicketTheorems\<close>, \<open>McpTheorems\<close> and \<open>Preview\<close>
  show that what is answered, linked or previewed was granted, for every request.  The theories
  ending in \<open>Demo\<close> run a whole request through the model.

  \<^bold>\<open>Bounds.\<close>  The JSON parser has fuel \<open>3 * length s + 3\<close>; every call either consumes a byte or is one
  of at most three nested calls before the next byte, and the round trip is proved at this fuel.
  \<open>od_call\<close> and \<open>od_chats\<close> wait in steps of at least a nanosecond and end by the deadline; the pages
  of messages on demand end since each but the last brings a new one.  \<open>od_members\<close> is recursive on
  the number of pages for which the deadline leaves time, and fails with the context's error when
  they are used up, as the deadline does it; every theorem about it holds for every such number.
  A round of \<open>RunUpdates\<close> takes a hundred rows; \<open>journal_drains\<close> says how many rounds empty the
  journal.  A session holds at most 10000 updates back.  Integers are kept as \<open>int\<close> with
  their 64-bit range checked where they are parsed or can leave it; durations are nanoseconds.

  \<^bold>\<open>Parameters.\<close>  TDLib (what it delivers and answers), the object store, random bytes and fresh ids,
  SHA-256, the database's collation and time zones, \<open>jsonb\<close> and \<open>to_jsonb\<close>, the casts to \<open>uuid\<close>
  and \<open>inet\<close>, \<open>time.ParseDuration\<close>, \<open>netip.ParseAddr\<close>, \<open>uuid.Parse\<close> of the MCP tools, floating-point
  parsing, the QR code, image decoding and ffmpeg, the HTTP client of the remote tools.  What a
  theorem needs of one of them is a hypothesis, and its witness has an instance.

  \<^bold>\<open>Not modelled.\<close>  The mains of \<open>cmd\<close>, the wrappers \<open>natsbus\<close>, \<open>objectstore\<close>, \<open>postgres\<close>,
  \<open>redisstore\<close> and \<open>buildinfo\<close>, the native calls of \<open>tdlib\<close> with the goroutine that matches answers
  to requests, the pool of goroutines of the runner, the MCP protocol of the SDK, HTML and QR
  pages, logging, and \<open>listChatMedia\<close>, which no route reaches.  A call of a session takes no time
  in the model: only waiting moves the clock.  Statements and scripts are atomic, as PostgreSQL
  and Redis run them.  The members of a JSON object that is answered are printed in the order of
  their names, and a floating-point zero has no sign.
\<close>

end
